(* ===== verification/Prelude.thy ===== *)
theory Prelude
  imports Main "HOL-Library.List_Lexorder" "HOL-Library.Char_ord" "HOL-Library.Multiset"
begin

text \<open>
  The prelude of the development: what the TypeScript sources take from the language and its
  standard library, and the lemmas the component theories share.

  \<^item> A thrown exception is a value of \<^verbatim>\<open>js_error\<close>; a function that may throw returns
    \<^verbatim>\<open>js_error + 'a\<close> (\<^verbatim>\<open>'a result\<close>), and \<^verbatim>\<open>bindE\<close> is sequencing: the first throw wins.
  \<^item> A JavaScript string is a \<^typ>\<open>string\<close> (a list of code units below 256); \<open><\<close> on strings is
    the lexicographic order of code units, as in JavaScript, so \<^verbatim>\<open>.sort()\<close> is \<^const>\<open>sort\<close> and
    the stable \<^verbatim>\<open>.sort(by key)\<close> is \<^const>\<open>sort_key\<close>.
  \<^item> A JavaScript number that the sources use as an integer is an \<^typ>\<open>int\<close>; the checks
    \<^verbatim>\<open>Number.isSafeInteger\<close> are written out (\<^verbatim>\<open>isSafeInteger\<close>).
  \<^item> An optional property is an \<^verbatim>\<open>option\<close>; \<^verbatim>\<open>undefined\<close> is \<^const>\<open>None\<close>.
\<close>

named_theorems js_simps "unfolding rules of the language primitives"
named_theorems result_simps "case rules of the result type"

section \<open>Exceptions\<close>

datatype js_error =
    Error string            \<comment> \<open>\<^verbatim>\<open>new Error(message)\<close>\<close>
  | RangeError string
  | SyntaxError
  | ZodError                \<comment> \<open>a failed \<^verbatim>\<open>schema.parse\<close>\<close>
  | FetchError              \<comment> \<open>a rejected \<^verbatim>\<open>fetch\<close>: network failure or abort\<close>

type_synonym 'a result = "js_error + 'a"

fun bindE :: "'e + 'a \<Rightarrow> ('a \<Rightarrow> 'e + 'b) \<Rightarrow> 'e + 'b" where
  "bindE (Inl e) f = Inl e"
| "bindE (Inr a) f = f a"

definition throw_if :: "bool \<Rightarrow> 'e \<Rightarrow> 'e + unit" where
  "throw_if c e = (if c then Inl e else Inr ())"

lemma bindE_eq_Inr [result_simps]: "bindE m f = Inr b \<longleftrightarrow> (\<exists>a. m = Inr a \<and> f a = Inr b)"
  by (cases m) auto

lemma bindE_eq_Inl [result_simps]:
  "bindE m f = Inl e \<longleftrightarrow> m = Inl e \<or> (\<exists>a. m = Inr a \<and> f a = Inl e)"
  by (cases m) auto

lemma throw_if_eq_Inr [result_simps]: "throw_if c e = Inr u \<longleftrightarrow> \<not> c"
  by (simp add: throw_if_def)

lemma throw_if_eq_Inl [result_simps]: "throw_if c e = Inl e' \<longleftrightarrow> c \<and> e' = e"
  by (auto simp: throw_if_def)

lemma throw_if_simps [simp]: "throw_if True e = Inl e" "throw_if False e = Inr ()"
  by (simp_all add: throw_if_def)

lemma bindE_assoc: "bindE (bindE m f) g = bindE m (\<lambda>a. bindE (f a) g)"
  by (cases m) auto

lemma bindE_Inr_right [simp]: "bindE m Inr = m"
  by (cases m) auto

definition is_ok :: "'e + 'a \<Rightarrow> bool" where
  "is_ok r = (case r of Inl _ \<Rightarrow> False | Inr _ \<Rightarrow> True)"

lemma is_ok_simps [simp]: "is_ok (Inr a)" "\<not> is_ok (Inl e)"
  by (simp_all add: is_ok_def)

lemma is_ok_iff: "is_ok r \<longleftrightarrow> (\<exists>a. r = Inr a)"
  by (cases r) auto

section \<open>Numbers\<close>

definition MAX_SAFE_INTEGER :: int where
  "MAX_SAFE_INTEGER = 9007199254740991"

definition isSafeInteger :: "int \<Rightarrow> bool" where
  "isSafeInteger n \<longleftrightarrow> - MAX_SAFE_INTEGER \<le> n \<and> n \<le> MAX_SAFE_INTEGER"

lemma isSafeInteger_small: "\<bar>n\<bar> \<le> 1000000000000 \<Longrightarrow> isSafeInteger n"
  unfolding isSafeInteger_def MAX_SAFE_INTEGER_def by arith

section \<open>Strings\<close>

definition is_digit :: "char \<Rightarrow> bool" where
  "is_digit c \<longleftrightarrow> CHR ''0'' \<le> c \<and> c \<le> CHR ''9''"

definition is_upper :: "char \<Rightarrow> bool" where
  "is_upper c \<longleftrightarrow> CHR ''A'' \<le> c \<and> c \<le> CHR ''Z''"

definition is_lower :: "char \<Rightarrow> bool" where
  "is_lower c \<longleftrightarrow> CHR ''a'' \<le> c \<and> c \<le> CHR ''z''"

definition is_alnum :: "char \<Rightarrow> bool" where
  "is_alnum c \<longleftrightarrow> is_upper c \<or> is_lower c \<or> is_digit c"

definition is_lower_hex :: "char \<Rightarrow> bool" where
  "is_lower_hex c \<longleftrightarrow> is_digit c \<or> (CHR ''a'' \<le> c \<and> c \<le> CHR ''f'')"

text \<open>\<^verbatim>\<open>String.prototype.toUpperCase\<close>, on the ASCII letters; other code units stay.\<close>

definition upper_char :: "char \<Rightarrow> char" where
  "upper_char c = (if is_lower c then char_of (of_char c - 32 :: nat) else c)"

definition toUpperCase :: "string \<Rightarrow> string" where
  "toUpperCase s = map upper_char s"

text \<open>\<^verbatim>\<open>String.prototype.trim\<close>: the white space and line terminators below code unit 256.\<close>

definition is_js_space :: "char \<Rightarrow> bool" where
  "is_js_space c \<longleftrightarrow> (let n = of_char c :: nat in (9 \<le> n \<and> n \<le> 13) \<or> n = 32 \<or> n = 160)"

definition trim :: "string \<Rightarrow> string" where
  "trim s = rev (dropWhile is_js_space (rev (dropWhile is_js_space s)))"

text \<open>
  The identifier schema several services share:
  \<^verbatim>\<open>z.string().min(1).max(n).regex(/^[A-Za-z0-9][A-Za-z0-9._:-]*$/)\<close>.
\<close>

definition id_tail_char :: "char \<Rightarrow> bool" where
  "id_tail_char c \<longleftrightarrow> is_alnum c \<or> c \<in> {CHR ''.'', CHR ''_'', CHR '':'', CHR ''-''}"

definition opaque_id_upto :: "nat \<Rightarrow> string \<Rightarrow> bool" where
  "opaque_id_upto n s \<longleftrightarrow>
     length s \<le> n \<and>
     (case s of [] \<Rightarrow> False | c # cs \<Rightarrow> is_alnum c \<and> list_all id_tail_char cs)"

lemma opaque_id_upto_nonempty: "opaque_id_upto n s \<Longrightarrow> s \<noteq> []"
  by (auto simp: opaque_id_upto_def split: list.splits)

text \<open>\<^verbatim>\<open>/^sha256:[a-f0-9]{64}$/\<close>\<close>

definition sha256_ref :: "string \<Rightarrow> bool" where
  "sha256_ref s \<longleftrightarrow> take 7 s = ''sha256:'' \<and> length s = 71 \<and> list_all is_lower_hex (drop 7 s)"

section \<open>Lists\<close>

text \<open>\<^verbatim>\<open>Array.prototype.find\<close> is \<^const>\<open>List.find\<close>; \<^verbatim>\<open>new Set(xs).size === xs.length\<close> is \<^const>\<open>distinct\<close>.\<close>

lemma sorted_distinct_mset_eq:
  fixes xs ys :: "'a::linorder list"
  shows "sort xs = sort ys \<longleftrightarrow> mset xs = mset ys"
  by (metis mset_sort properties_for_sort sorted_sort)

lemma sort_key_perm_distinct:
  assumes "mset xs = mset ys" and "inj_on f (set xs)"
  shows "sort_key f xs = sort_key f ys"
proof -
  have set_eq: "set xs = set ys" using assms(1) by (rule mset_eq_setD)
  have "inj_on f (set (sort_key f xs))" using assms(2) by simp
  moreover have "mset (sort_key f ys) = mset (sort_key f xs)" using assms(1) by simp
  ultimately show ?thesis
    by (metis properties_for_sort_key assms mset_sort sorted_sort_key sort_key_const
        sort_key_inj_key_eq set_eq)
qed

lemma find_SomeD: "List.find P xs = Some x \<Longrightarrow> x \<in> set xs \<and> P x"
  by (induction xs) (auto split: if_splits)

lemma find_None_conv: "List.find P xs = None \<longleftrightarrow> (\<forall>x \<in> set xs. \<not> P x)"
  by (induction xs) auto

lemma sum_list_nonneg_int: "(\<And>x. x \<in> set xs \<Longrightarrow> 0 \<le> f x) \<Longrightarrow> (0::int) \<le> sum_list (map f xs)"
  by (induction xs) (auto simp: add_nonneg_nonneg)

end
