(* ===== verification/JS_Date.thy ===== *)
theory JS_Date
  imports Prelude "HOL-Library.Monad_Syntax"
begin

text \<open>
  Dates, as the sources use them: \<^verbatim>\<open>new Date(t).toISOString()\<close> and \<^verbatim>\<open>Date.parse\<close>.
  A time value is the number of milliseconds since the epoch. \<^verbatim>\<open>toISOString\<close> throws a
  \<^verbatim>\<open>RangeError\<close> outside the ECMAScript time range of 8.64e15 milliseconds on each side of the
  epoch; inside it prints \<^verbatim>\<open>YYYY-MM-DDTHH:mm:ss.sssZ\<close>, with a signed six-digit year outside
  0000 to 9999. \<^verbatim>\<open>date_parse\<close> reads that format, the only one the sources hand to
  \<^verbatim>\<open>Date.parse\<close> (every such string comes from \<^verbatim>\<open>toISOString\<close>); \<^const>\<open>None\<close> is \<^verbatim>\<open>NaN\<close>.
  The calendar is the proleptic Gregorian one, computed in 400-year eras that start in March.
  The round trip \<^verbatim>\<open>date_parse_toISOString\<close> is what makes deadlines written as strings exact.
\<close>

section \<open>Calendar\<close>

definition days_from_civil :: "int \<Rightarrow> int \<Rightarrow> int \<Rightarrow> int" where
  "days_from_civil y m d =
     (let y' = (if m \<le> 2 then y - 1 else y);
          era = y' div 400;
          yoe = y' mod 400;
          mp = (if m > 2 then m - 3 else m + 9);
          doy = (153 * mp + 2) div 5 + d - 1;
          doe = yoe * 365 + yoe div 4 - yoe div 100 + doy
      in era * 146097 + doe - 719468)"

text \<open>The century, the four-year cycle, the year and the day of a day of an era.\<close>

definition split_doe :: "int \<Rightarrow> int \<times> int \<times> int \<times> int" where
  "split_doe doe =
     (let c = min (doe div 36524) 3;
          r = doe - 36524 * c;
          q = r div 1461;
          s = r - 1461 * q;
          y = min (s div 365) 3
      in (c, q, y, s - 365 * y))"

definition civil_of_doy :: "int \<Rightarrow> int \<times> int" where
  "civil_of_doy doy =
     (let mp = (5 * doy + 2) div 153
      in (if mp < 10 then mp + 3 else mp - 9, doy - (153 * mp + 2) div 5 + 1))"

definition civil_from_days :: "int \<Rightarrow> int \<times> int \<times> int" where
  "civil_from_days z =
     (let era = (z + 719468) div 146097;
          (c, q, y, doy) = split_doe ((z + 719468) mod 146097);
          (m, d) = civil_of_doy doy
      in (era * 400 + (100 * c + 4 * q + y) + (if m \<le> 2 then 1 else 0), m, d))"

lemma split_doe_spec:
  assumes "0 \<le> doe" and "doe \<le> 146096" and "split_doe doe = (c, q, y, doy)"
  shows "doe = 36524 * c + 1461 * q + 365 * y + doy \<and> 0 \<le> c \<and> c \<le> 3 \<and> 0 \<le> q \<and> q \<le> 24
    \<and> 0 \<le> y \<and> y \<le> 3 \<and> 0 \<le> doy \<and> doy \<le> 365"
proof -
  define r where "r = doe - 36524 * min (doe div 36524) 3"
  define s where "s = r - 1461 * (r div 1461)"
  have c: "c = min (doe div 36524) 3" and q: "q = r div 1461" and y: "y = min (s div 365) 3"
    and d: "doy = s - 365 * y"
    using assms(3) unfolding split_doe_def Let_def r_def s_def by auto
  have "0 \<le> doe div 36524" using assms(1) by simp
  then have cb: "0 \<le> c" "c \<le> 3" unfolding c by auto
  have rb: "0 \<le> r" "r \<le> 36524" using assms(1,2) unfolding r_def by (auto simp: min_def)
  then have qb: "0 \<le> q" "q \<le> 24" unfolding q by auto
  have sb: "0 \<le> s" "s \<le> 1460"
    unfolding s_def using minus_mult_div_eq_mod [of r 1461] by auto
  have yb: "0 \<le> y" "y \<le> 3" unfolding y using sb by auto
  have db: "0 \<le> doy" "doy \<le> 365" unfolding d y using sb by (auto simp: min_def)
  have "doe = 36524 * c + r" unfolding r_def c by simp
  moreover have "r = 1461 * q + s" unfolding s_def q by simp
  ultimately have "doe = 36524 * c + 1461 * q + 365 * y + doy" unfolding d by simp
  with cb qb yb db show ?thesis by blast
qed

lemma civil_of_doy_spec:
  assumes "0 \<le> doy" and "doy \<le> 365" and "civil_of_doy doy = (m, d)"
  shows "1 \<le> m \<and> m \<le> 12 \<and> 1 \<le> d \<and> d \<le> 31
    \<and> doy = (153 * (if m > 2 then m - 3 else m + 9) + 2) div 5 + d - 1"
proof -
  define mp where "mp = (5 * doy + 2) div 153"
  have md: "m = (if mp < 10 then mp + 3 else mp - 9)" "d = doy - (153 * mp + 2) div 5 + 1"
    using assms(3) unfolding civil_of_doy_def Let_def mp_def by auto
  have mp: "0 \<le> mp" "mp \<le> 11" using assms(1,2) unfolding mp_def by auto
  have lo: "153 * mp \<le> 5 * doy + 2" and hi: "5 * doy + 2 < 153 * mp + 153"
    unfolding mp_def by (auto simp: mult.commute)
  define k where "k = (153 * mp + 2) div 5"
  have k: "5 * k \<le> 153 * mp + 2" "153 * mp + 2 < 5 * k + 5" unfolding k_def by auto
  have "mp \<in> {0,1,2,3,4,5,6,7,8,9,10,11}" using mp by (simp, presburger)
  then have "1 \<le> d \<and> d \<le> 31" using lo hi unfolding md(2) by auto
  moreover have "(if m > 2 then m - 3 else m + 9) = mp" using mp unfolding md(1) by auto
  moreover have "1 \<le> m \<and> m \<le> 12" using mp unfolding md(1) by auto
  ultimately show ?thesis using md(2) by simp
qed

lemma days_from_civil_from_days:
  assumes "civil_from_days z = (y, m, d)"
  shows "days_from_civil y m d = z" and "1 \<le> m \<and> m \<le> 12" and "1 \<le> d \<and> d \<le> 31"
    and "y \<in> {(z + 719468) div 146097 * 400 .. (z + 719468) div 146097 * 400 + 400}"
proof -
  define era where "era = (z + 719468) div 146097"
  define doe where "doe = (z + 719468) mod 146097"
  obtain c q yy doy where sp: "split_doe doe = (c, q, yy, doy)" by (cases "split_doe doe") auto
  obtain m' d' where cv: "civil_of_doy doy = (m', d')" by (cases "civil_of_doy doy") auto
  have eqs: "m = m'" "d = d'" "y = era * 400 + (100 * c + 4 * q + yy) + (if m \<le> 2 then 1 else 0)"
    using assms sp cv unfolding civil_from_days_def Let_def era_def doe_def by auto
  have doe: "0 \<le> doe" "doe \<le> 146096" unfolding doe_def by auto
  from split_doe_spec [OF doe sp] have s: "doe = 36524 * c + 1461 * q + 365 * yy + doy"
    "0 \<le> c" "c \<le> 3" "0 \<le> q" "q \<le> 24" "0 \<le> yy" "yy \<le> 3" "0 \<le> doy" "doy \<le> 365" by auto
  from civil_of_doy_spec [OF s(8,9) cv] show md: "1 \<le> m \<and> m \<le> 12" and dd: "1 \<le> d \<and> d \<le> 31"
    unfolding eqs(1,2) by auto
  from civil_of_doy_spec [OF s(8,9) cv]
  have doy: "(153 * (if m > 2 then m - 3 else m + 9) + 2) div 5 + d - 1 = doy"
    unfolding eqs(1,2) by auto
  define yoe where "yoe = 100 * c + 4 * q + yy"
  have yoe: "0 \<le> yoe" "yoe < 400" unfolding yoe_def using s by auto
  have y': "(if m \<le> 2 then y - 1 else y) = era * 400 + yoe" unfolding eqs(3) yoe_def by simp
  have "(era * 400 + yoe) div 400 = era" "(era * 400 + yoe) mod 400 = yoe" using yoe by auto
  moreover have "yoe div 4 = 25 * c + q" unfolding yoe_def using s(6,7) by auto
  moreover have "yoe div 100 = c" unfolding yoe_def using s by auto
  ultimately have "days_from_civil y m d = era * 146097 + (36524 * c + 1461 * q + 365 * yy + doy) - 719468"
    unfolding days_from_civil_def Let_def y' doy by (simp add: yoe_def algebra_simps)
  then show "days_from_civil y m d = z"
    using div_mult_mod_eq [of "z + 719468" 146097] unfolding s(1) [symmetric] era_def doe_def by simp
  show "y \<in> {(z + 719468) div 146097 * 400 .. (z + 719468) div 146097 * 400 + 400}"
    unfolding era_def [symmetric] using yoe unfolding eqs(3) yoe_def by auto
qed

section \<open>Decimal fields\<close>

definition digit_char :: "nat \<Rightarrow> char" where
  "digit_char n = char_of (48 + n)"

definition digit_val :: "char \<Rightarrow> nat" where
  "digit_val c = of_char c - 48"

fun pad :: "nat \<Rightarrow> nat \<Rightarrow> string" where
  "pad 0 n = []"
| "pad (Suc k) n = pad k (n div 10) @ [digit_char (n mod 10)]"

definition dec_value :: "string \<Rightarrow> nat" where
  "dec_value s = foldl (\<lambda>a c. a * 10 + digit_val c) 0 s"

definition num_field :: "nat \<Rightarrow> string \<Rightarrow> (nat \<times> string) option" where
  "num_field k s =
     (if k \<le> length s \<and> list_all is_digit (take k s) then Some (dec_value (take k s), drop k s) else None)"

definition lit :: "char \<Rightarrow> string \<Rightarrow> string option" where
  "lit c s = (case s of [] \<Rightarrow> None | x # xs \<Rightarrow> if x = c then Some xs else None)"

lemma lit_Cons [simp]: "lit c (c # s) = Some s"
  by (simp add: lit_def)

lemma digit_char_code: "n < 10 \<Longrightarrow> of_char (digit_char n) = 48 + n"
  by (simp add: digit_char_def)

lemma digit_val_char [simp]: "n < 10 \<Longrightarrow> digit_val (digit_char n) = n"
  by (simp add: digit_val_def digit_char_code)

lemma is_digit_char [simp]: "n < 10 \<Longrightarrow> is_digit (digit_char n)"
  by (simp add: is_digit_def less_eq_char_def digit_char_code)

lemma length_pad [simp]: "length (pad k n) = k"
  by (induction k arbitrary: n) auto

lemma digits_pad [simp]: "list_all is_digit (pad k n)"
  by (induction k arbitrary: n) auto

lemma dec_value_pad [simp]: "n < 10 ^ k \<Longrightarrow> dec_value (pad k n) = n"
proof (induction k arbitrary: n)
  case 0
  then show ?case by (simp add: dec_value_def)
next
  case (Suc k)
  then have "dec_value (pad k (n div 10)) = n div 10" by auto
  then show ?case by (simp add: dec_value_def)
qed

lemma num_field_pad [simp]: "n < 10 ^ k \<Longrightarrow> num_field k (pad k n @ s) = Some (n, s)"
  by (simp add: num_field_def)

section \<open>Instants as strings\<close>

definition MAX_TIME :: int where
  "MAX_TIME = 8640000000000000"

definition year_string :: "int \<Rightarrow> string" where
  "year_string y =
     (if 0 \<le> y \<and> y \<le> 9999 then pad 4 (nat y)
      else (if y < 0 then CHR ''-'' else CHR ''+'') # pad 6 (nat \<bar>y\<bar>))"

definition iso_string :: "int \<Rightarrow> string" where
  "iso_string t =
     (let (y, m, d) = civil_from_days (t div 86400000);
          ms = nat (t mod 86400000)
      in year_string y @ CHR ''-'' # pad 2 (nat m) @ CHR ''-'' # pad 2 (nat d) @ CHR ''T'' #
         pad 2 (ms div 3600000) @ CHR '':'' # pad 2 (ms div 60000 mod 60) @ CHR '':'' #
         pad 2 (ms div 1000 mod 60) @ CHR ''.'' # pad 3 (ms mod 1000) @ ''Z'')"

text \<open>For evaluation: the same text, with the arithmetic on integers.\<close>

lemma iso_string_code [code]:
  "iso_string t =
     (let (y, m, d) = civil_from_days (t div 86400000);
          ms = t mod 86400000
      in year_string y @ CHR ''-'' # pad 2 (nat m) @ CHR ''-'' # pad 2 (nat d) @ CHR ''T'' #
         pad 2 (nat (ms div 3600000)) @ CHR '':'' # pad 2 (nat (ms div 60000 mod 60)) @ CHR '':'' #
         pad 2 (nat (ms div 1000 mod 60)) @ CHR ''.'' # pad 3 (nat (ms mod 1000)) @ ''Z'')"
  by (simp add: iso_string_def Let_def nat_div_distrib nat_mod_distrib split: prod.splits)

definition toISOString :: "int \<Rightarrow> string result" where
  "toISOString t = (if \<bar>t\<bar> \<le> MAX_TIME then Inr (iso_string t) else Inl (RangeError ''Invalid time value''))"

definition parse_year :: "string \<Rightarrow> (int \<times> string) option" where
  "parse_year s =
     (case s of
        [] \<Rightarrow> None
      | c # cs \<Rightarrow>
          if c = CHR ''+'' then map_option (\<lambda>(n, r). (int n, r)) (num_field 6 cs)
          else if c = CHR ''-'' then
            (case num_field 6 cs of
               None \<Rightarrow> None
             | Some (n, r) \<Rightarrow> if n = 0 then None else Some (- int n, r))
          else map_option (\<lambda>(n, r). (int n, r)) (num_field 4 s))"

definition date_parse :: "string \<Rightarrow> int option" where
  "date_parse str =
     do {
       (y, s) \<leftarrow> parse_year str;
       s \<leftarrow> lit CHR ''-'' s; (m, s) \<leftarrow> num_field 2 s;
       s \<leftarrow> lit CHR ''-'' s; (d, s) \<leftarrow> num_field 2 s;
       s \<leftarrow> lit CHR ''T'' s; (hh, s) \<leftarrow> num_field 2 s;
       s \<leftarrow> lit CHR '':'' s; (mi, s) \<leftarrow> num_field 2 s;
       s \<leftarrow> lit CHR '':'' s; (ss, s) \<leftarrow> num_field 2 s;
       s \<leftarrow> lit CHR ''.'' s; (ms, s) \<leftarrow> num_field 3 s;
       s \<leftarrow> lit CHR ''Z'' s;
       (if s = [] \<and> 1 \<le> m \<and> m \<le> 12 \<and> 1 \<le> d \<and> d \<le> 31 \<and> hh < 24 \<and> mi < 60 \<and> ss < 60 then
          (let t = days_from_civil y (int m) (int d) * 86400000
                   + (int hh * 3600000 + int mi * 60000 + int ss * 1000 + int ms)
           in if \<bar>t\<bar> \<le> MAX_TIME then Some t else None)
        else None)
     }"

lemma parse_year_string:
  assumes "\<bar>y\<bar> < 1000000"
  shows "parse_year (year_string y @ s) = Some (y, s)"
proof (cases "0 \<le> y \<and> y \<le> 9999")
  case True
  then have n: "nat y < 10 ^ 4" by auto
  obtain c cs where c: "pad 4 (nat y) = c # cs" by (metis length_pad list.exhaust list.size(3) zero_neq_numeral)
  then have "is_digit c" using digits_pad [of 4 "nat y"] by simp
  then have "c \<noteq> CHR ''+''" "c \<noteq> CHR ''-''" by (auto simp: is_digit_def less_eq_char_def)
  with True c num_field_pad [OF n, of s] show ?thesis
    by (simp add: parse_year_def year_string_def)
next
  case False
  have n: "nat \<bar>y\<bar> < 10 ^ 6" using assms by auto
  from False num_field_pad [OF n, of s] show ?thesis
    by (auto simp: parse_year_def year_string_def)
qed

lemma time_of_day_split:
  fixes ms :: nat
  shows "ms div 3600000 * 3600000 + ms div 60000 mod 60 * 60000 + ms div 1000 mod 60 * 1000 + ms mod 1000 = ms"
proof -
  define a where "a = ms div 1000"
  have b: "ms div 60000 = a div 60" and h: "ms div 3600000 = a div 60 div 60"
    unfolding a_def by (simp_all add: div_mult2_eq [symmetric])
  have "ms = a * 1000 + ms mod 1000" unfolding a_def by simp
  moreover have "a = a div 60 * 60 + a mod 60" by simp
  moreover have "a div 60 = a div 60 div 60 * 60 + a div 60 mod 60" by simp
  ultimately show ?thesis unfolding b h a_def [symmetric] by linarith
qed

lemma civil_year_range:
  assumes "civil_from_days (t div 86400000) = (y, m, d)" and "\<bar>t\<bar> \<le> MAX_TIME"
  shows "\<bar>y\<bar> < 1000000"
proof -
  have "\<bar>t div 86400000\<bar> \<le> 100000000" using assms(2) unfolding MAX_TIME_def by auto
  then have "\<bar>(t div 86400000 + 719468) div 146097\<bar> \<le> 1000" by auto
  with days_from_civil_from_days(4) [OF assms(1)] show ?thesis by auto
qed

theorem date_parse_iso_string:
  assumes "\<bar>t\<bar> \<le> MAX_TIME"
  shows "date_parse (iso_string t) = Some t"
proof -
  obtain y m d where c: "civil_from_days (t div 86400000) = (y, m, d)"
    by (cases "civil_from_days (t div 86400000)") auto
  define ms where "ms = nat (t mod 86400000)"
  have ms: "ms < 86400000" "int ms = t mod 86400000" unfolding ms_def by auto
  note civ = days_from_civil_from_days [OF c]
  have md: "nat m < 10 ^ 2" "nat d < 10 ^ 2" "int (nat m) = m" "int (nat d) = d" using civ by auto
  have tod: "ms div 3600000 < 10 ^ 2" "ms div 60000 mod 60 < 10 ^ 2" "ms div 1000 mod 60 < 10 ^ 2"
    "ms mod 1000 < 10 ^ 3" "ms div 3600000 < 24"
    using ms(1) by (auto intro: less_mult_imp_div_less order_less_trans [OF mod_less_divisor])
  have tot: "t div 86400000 * 86400000 + int ms = t" unfolding ms(2) by simp
  have "int (ms div 3600000) * 3600000 + int (ms div 60000 mod 60) * 60000 + int (ms div 1000 mod 60) * 1000
      + int (ms mod 1000) = int ms"
    using arg_cong [OF time_of_day_split [of ms], of int] by (simp only: of_nat_add of_nat_mult of_nat_numeral)
  then have "days_from_civil y m d * 86400000
      + (int (ms div 3600000) * 3600000 + int (ms div 60000 mod 60) * 60000 + int (ms div 1000 mod 60) * 1000
        + int (ms mod 1000)) = t"
    unfolding civ(1) using tot by simp
  moreover have "Suc 0 \<le> nat m" "nat m \<le> 12" "Suc 0 \<le> nat d" "nat d \<le> 31" using civ(2,3) by auto
  ultimately show ?thesis using md tod(5) assms
    unfolding date_parse_def iso_string_def c ms_def [symmetric] Let_def prod.case
    by (simp add: parse_year_string civil_year_range [OF c assms] num_field_pad [OF md(1)]
        num_field_pad [OF md(2)] num_field_pad [OF tod(1)] num_field_pad [OF tod(2)]
        num_field_pad [OF tod(3)] num_field_pad [OF tod(4)]
        del: of_nat_add of_nat_mult num_field_pad pad.simps zdiv_int zmod_int of_nat_div of_nat_mod)
qed

lemma date_parse_toISOString [js_simps]: "toISOString t = Inr s \<Longrightarrow> date_parse s = Some t"
  by (auto simp: toISOString_def date_parse_iso_string split: if_splits)

lemma toISOString_ok [simp]: "\<bar>t\<bar> \<le> MAX_TIME \<Longrightarrow> toISOString t = Inr (iso_string t)"
  by (simp add: toISOString_def)

lemma date_parse_range: "date_parse s = Some t \<Longrightarrow> \<bar>t\<bar> \<le> MAX_TIME"
  by (auto simp: date_parse_def Let_def bind_eq_Some_conv split: if_splits)

end
