(* ===== verification/Json.thy ===== *)
theory Json
  imports JS_Date
begin

text \<open>
  JSON values, \<^verbatim>\<open>JSON.stringify\<close> of strings and integers, and the canonical encoding
  \<^verbatim>\<open>canonicalizeJson\<close> of \<^verbatim>\<open>src/apps/services/workflow-workers/src/refund-policy.ts\<close>, whose
  SHA-256 is the \<^verbatim>\<open>inputFactsHash\<close> of a policy decision. The encoding is unambiguous:
  two values have the same encoding exactly when they are equal up to the order of object
  keys (\<^verbatim>\<open>canonicalizeJson_inject\<close>).
\<close>

datatype json =
    JUndefined        \<comment> \<open>\<^verbatim>\<open>undefined\<close> and every value that is not JSON\<close>
  | JNull
  | JBool bool
  | JNum int
  | JStr string
  | JArr "json list"
  | JObj "(string \<times> json) list"

section \<open>Printing\<close>

fun show_nat :: "nat \<Rightarrow> string" where
  "show_nat n = (if n < 10 then [digit_char n] else show_nat (n div 10) @ [digit_char (n mod 10)])"

declare show_nat.simps [simp del]

definition show_int :: "int \<Rightarrow> string" where
  "show_int i = (if i < 0 then CHR ''-'' # show_nat (nat (- i)) else show_nat (nat i))"

definition hex_char :: "nat \<Rightarrow> char" where
  "hex_char n = (if n < 10 then digit_char n else char_of (87 + n))"

text \<open>The escapes of \<^verbatim>\<open>JSON.stringify\<close> on a string, code unit by code unit.\<close>

definition json_escape :: "char \<Rightarrow> string" where
  "json_escape c =
     (let n = of_char c :: nat
      in if c = CHR 0x22 then [CHR 0x5C, CHR 0x22]
         else if c = CHR 0x5C then [CHR 0x5C, CHR 0x5C]
         else if n = 8 then [CHR 0x5C, CHR ''b'']
         else if n = 9 then [CHR 0x5C, CHR ''t'']
         else if n = 10 then [CHR 0x5C, CHR ''n'']
         else if n = 12 then [CHR 0x5C, CHR ''f'']
         else if n = 13 then [CHR 0x5C, CHR ''r'']
         else if n < 32 then [CHR 0x5C, CHR ''u'', CHR ''0'', CHR ''0'', hex_char (n div 16), hex_char (n mod 16)]
         else [c])"

definition json_quote :: "string \<Rightarrow> string" where
  "json_quote s = CHR 0x22 # concat (map json_escape s) @ [CHR 0x22]"

fun join :: "string list \<Rightarrow> string" where
  "join [] = []"
| "join [x] = x"
| "join (x # y # zs) = x @ CHR '','' # join (y # zs)"

fun mapE :: "('a \<Rightarrow> 'e + 'b) \<Rightarrow> 'a list \<Rightarrow> 'e + 'b list" where
  "mapE f [] = Inr []"
| "mapE f (x # xs) = bindE (f x) (\<lambda>y. bindE (mapE f xs) (\<lambda>ys. Inr (y # ys)))"

lemma mapE_cong [fundef_cong]:
  "xs = ys \<Longrightarrow> (\<And>x. x \<in> set ys \<Longrightarrow> f x = g x) \<Longrightarrow> mapE f xs = mapE g ys"
  by (induction ys arbitrary: xs) auto

function canonicalizeJson :: "json \<Rightarrow> string result" where
  "canonicalizeJson JNull = Inr ''null''"
| "canonicalizeJson (JBool b) = Inr (if b then ''true'' else ''false'')"
| "canonicalizeJson (JStr s) = Inr (json_quote s)"
| "canonicalizeJson (JNum n) =
     (if \<not> isSafeInteger n then Inl (Error ''NON_CANONICAL_POLICY_NUMBER'') else Inr (show_int n))"
| "canonicalizeJson (JArr vs) =
     bindE (mapE canonicalizeJson vs) (\<lambda>ss. Inr (CHR ''['' # join ss @ '']''))"
| "canonicalizeJson (JObj kvs) =
     bindE (mapE (\<lambda>kv. bindE (canonicalizeJson (snd kv)) (\<lambda>s. Inr (json_quote (fst kv) @ CHR '':'' # s)))
                 (sort_key fst kvs))
           (\<lambda>ss. Inr (CHR ''{'' # join ss @ ''}''))"
| "canonicalizeJson JUndefined = Inl (Error ''UNSUPPORTED_POLICY_INPUT_VALUE'')"
  by pat_completeness auto

lemma size_json_pair: "kv \<in> set kvs \<Longrightarrow> size (snd kv) < size (JObj kvs)"
  by (induction kvs) auto

lemma size_json_elem: "v \<in> set vs \<Longrightarrow> size v < size (JArr vs)"
  by (induction vs) auto

termination canonicalizeJson
  by (relation "measure size") (simp_all only: in_measure size_json_elem size_json_pair set_sort wf_measure)

text \<open>Values up to the order of object keys, at every depth.\<close>

function normalizeJson :: "json \<Rightarrow> json" where
  "normalizeJson (JArr vs) = JArr (map normalizeJson vs)"
| "normalizeJson (JObj kvs) = JObj (map (\<lambda>kv. (fst kv, normalizeJson (snd kv))) (sort_key fst kvs))"
| "normalizeJson JNull = JNull"
| "normalizeJson (JBool b) = JBool b"
| "normalizeJson (JStr s) = JStr s"
| "normalizeJson (JNum n) = JNum n"
| "normalizeJson JUndefined = JUndefined"
  by pat_completeness auto
termination normalizeJson
  by (relation "measure size") (simp_all only: in_measure size_json_elem size_json_pair set_sort wf_measure)

section \<open>Unambiguity\<close>

lemma mapE_eq_Inr:
  "mapE f xs = Inr ys \<longleftrightarrow> (\<forall>x \<in> set xs. is_ok (f x)) \<and> ys = map (\<lambda>x. projr (f x)) xs"
proof (induction xs arbitrary: ys)
  case (Cons x xs)
  then show ?case by (cases "f x") (auto simp: bindE_eq_Inr)
qed auto

lemma show_nat_digits: "list_all is_digit (show_nat n)"
proof (induction n rule: show_nat.induct)
  case (1 n)
  then show ?case by (subst show_nat.simps) auto
qed

lemma show_nat_nonempty [simp]: "show_nat n \<noteq> []"
  by (subst show_nat.simps) simp

lemma dec_value_show_nat [simp]: "dec_value (show_nat n) = n"
proof (induction n rule: show_nat.induct)
  case (1 n)
  show ?case
  proof (cases "n < 10")
    case True
    then show ?thesis by (subst show_nat.simps) (simp add: dec_value_def)
  next
    case False
    with 1 have "dec_value (show_nat (n div 10)) = n div 10" by simp
    with False show ?thesis by (subst show_nat.simps) (simp add: dec_value_def)
  qed
qed

lemma show_nat_inject [simp]: "show_nat m = show_nat n \<longleftrightarrow> m = n"
  by (metis dec_value_show_nat)

definition delim :: "string \<Rightarrow> bool" where
  "delim r \<longleftrightarrow> r = [] \<or> hd r \<in> {CHR '','', CHR '']'', CHR ''}''}"

lemma delim_simps [simp]: "delim []" "delim (c # r) \<longleftrightarrow> c \<in> {CHR '','', CHR '']'', CHR ''}''}"
  by (auto simp: delim_def)

lemma is_digit_delim: "delim (c # r) \<Longrightarrow> \<not> is_digit c"
  by (auto simp: is_digit_def less_eq_char_def)

lemma takeWhile_digits_delim:
  "list_all is_digit s \<Longrightarrow> delim r \<Longrightarrow> takeWhile is_digit (s @ r) = s"
  by (cases r) (auto simp: list_all_iff takeWhile_append dest: is_digit_delim simp del: delim_simps(2))

lemma show_nat_prefix:
  assumes "show_nat m @ r = show_nat n @ r'" and "delim r" and "delim r'"
  shows "m = n \<and> r = r'"
proof -
  have "show_nat m = show_nat n"
    using arg_cong [OF assms(1), of "takeWhile is_digit"] assms(2,3)
    by (simp add: takeWhile_digits_delim show_nat_digits)
  with assms(1) show ?thesis by simp
qed

lemma digit_neq_minus: "is_digit c \<Longrightarrow> c \<noteq> CHR ''-''"
  by (auto simp: is_digit_def less_eq_char_def)

lemma hd_show_nat: "is_digit (hd (show_nat n))"
  using show_nat_digits [of n] by (cases "show_nat n") auto

lemma show_int_prefix:
  assumes "show_int m @ r = show_int n @ r'" and "delim r" and "delim r'"
  shows "m = n \<and> r = r'"
proof (cases "m < 0 \<longleftrightarrow> n < 0")
  case True
  then consider "m < 0" "n < 0" | "0 \<le> m" "0 \<le> n" by linarith
  then show ?thesis
  proof cases
    case 1
    with assms show ?thesis using show_nat_prefix [of "nat (- m)" r "nat (- n)" r']
      by (simp add: show_int_def) linarith
  next
    case 2
    with assms show ?thesis using show_nat_prefix [of "nat m" r "nat n" r']
      by (simp add: show_int_def) linarith
  qed
next
  case False
  have "hd (show_int m @ r) = hd (show_int n @ r')" using assms(1) by simp
  with False show ?thesis
    using hd_show_nat [of "nat m"] hd_show_nat [of "nat n"] digit_neq_minus
    by (auto simp: show_int_def split: if_splits)
qed

lemma hex_char_inject: "m < 16 \<Longrightarrow> n < 16 \<Longrightarrow> hex_char m = hex_char n \<longleftrightarrow> m = n"
  by (auto simp: hex_char_def digit_char_def dest!: arg_cong [of "char_of _" _ "of_char :: char \<Rightarrow> nat"] split: if_splits)

lemma json_escape_prefix:
  assumes "json_escape c @ r = json_escape d @ r'"
  shows "c = d \<and> r = r'"
proof -
  have inj: "c = d" if "(of_char c :: nat) = of_char d" using that by simp
  have low: "(of_char c :: nat) = of_char d"
    if "(of_char c :: nat) < 32" "(of_char d :: nat) < 32"
      "hex_char (of_char c div 16) = hex_char (of_char d div 16)"
      "hex_char (of_char c mod 16) = hex_char (of_char d mod 16)"
  proof -
    have "(of_char c :: nat) div 16 = of_char d div 16" "(of_char c :: nat) mod 16 = of_char d mod 16"
      using that by (simp_all add: hex_char_inject)
    then show ?thesis by (metis div_mult_mod_eq)
  qed
  show ?thesis
    using assms unfolding json_escape_def Let_def
    by (auto split: if_splits intro!: inj low)
qed

lemma hd_json_escape: "json_escape c = x # xs \<Longrightarrow> x \<noteq> CHR 0x22"
  by (auto simp: json_escape_def Let_def split: if_splits)

lemma json_escape_nonempty [simp]: "json_escape c \<noteq> []"
  by (auto simp: json_escape_def Let_def)

lemma json_body_prefix:
  "concat (map json_escape s) @ CHR 0x22 # r = concat (map json_escape t) @ CHR 0x22 # r' \<Longrightarrow> s = t \<and> r = r'"
proof (induction s arbitrary: t)
  case Nil
  show ?case
  proof (cases t)
    case (Cons d ds)
    then show ?thesis using Nil hd_json_escape [of d] by (cases "json_escape d") auto
  qed (use Nil in auto)
next
  case (Cons c cs)
  show ?case
  proof (cases t)
    case Nil
    then show ?thesis using Cons.prems hd_json_escape [of c] by (cases "json_escape c") auto
  next
    case (Cons d ds)
    then have "json_escape c @ (concat (map json_escape cs) @ CHR 0x22 # r)
      = json_escape d @ (concat (map json_escape ds) @ CHR 0x22 # r')"
      using Cons.prems by simp
    from json_escape_prefix [OF this] Cons.IH [of ds] Cons show ?thesis by auto
  qed
qed

lemma json_quote_prefix: "json_quote s @ r = json_quote t @ r' \<Longrightarrow> s = t \<and> r = r'"
  using json_body_prefix [of s r t r'] by (simp add: json_quote_def)

lemma join_Cons: "join (x # xs) = x @ (if xs = [] then [] else CHR '','' # join xs)"
  by (cases xs) auto

lemma join_prefix:
  assumes "\<And>a b r r'. a \<in> set A \<Longrightarrow> b \<in> set B \<Longrightarrow> delim r \<Longrightarrow> delim r' \<Longrightarrow> enc a @ r = enc b @ r' \<Longrightarrow> f a = f b \<and> r = r'"
    and "\<And>a. a \<in> set A \<union> set B \<Longrightarrow> enc a \<noteq> [] \<and> \<not> delim (enc a)"
    and "c \<in> {CHR '']'', CHR ''}''}"
    and "join (map enc A) @ c # r = join (map enc B) @ c # r'"
  shows "map f A = map f B \<and> r = r'"
  using assms
proof (induction A arbitrary: B)
  case Nil
  show ?case
  proof (cases B)
    case (Cons b bs)
    then have "enc b \<noteq> [] \<and> \<not> delim (enc b)" using Nil.prems(2) by simp
    then obtain x xs where "enc b = x # xs" "\<not> delim (x # xs)" by (cases "enc b") auto
    with Nil.prems(3,4) Cons show ?thesis by (auto simp: join_Cons simp del: join.simps(2,3))
  qed (use Nil in auto)
next
  case (Cons a as)
  show ?case
  proof (cases B)
    case Nil
    have "enc a \<noteq> [] \<and> \<not> delim (enc a)" using Cons.prems(2) by simp
    then obtain x xs where "enc a = x # xs" "\<not> delim (x # xs)" by (cases "enc a") auto
    with Cons.prems(3,4) Nil show ?thesis by (auto simp: join_Cons simp del: join.simps(2,3))
  next
    case B: (Cons b bs)
    define R where "R = (if as = [] then [] else CHR '','' # join (map enc as)) @ c # r"
    define R' where "R' = (if bs = [] then [] else CHR '','' # join (map enc bs)) @ c # r'"
    have "enc a @ R = enc b @ R'"
      using Cons.prems(4) B unfolding R_def R'_def by (simp add: join_Cons del: join.simps(2,3))
    moreover have "delim R" "delim R'" using Cons.prems(3) unfolding R_def R'_def by auto
    ultimately have ab: "f a = f b" "R = R'" using Cons.prems(1) [of a b R R'] B by auto
    then have e: "as = [] \<longleftrightarrow> bs = []" using Cons.prems(3) unfolding R_def R'_def by (auto split: if_splits)
    have "join (map enc as) @ c # r = join (map enc bs) @ c # r'"
      using ab(2) e unfolding R_def R'_def by (auto split: if_splits)
    then have "map f as = map f bs \<and> r = r'"
      using Cons.prems(1,2,3) B by (intro Cons.IH) auto
    with ab(1) B show ?thesis by simp
  qed
qed

text \<open>The first code unit of an encoding tells which constructor made it.\<close>

lemma not_delim_show_int: "\<not> delim (show_int n @ r)"
proof (cases "n < 0")
  case True
  then show ?thesis by (simp add: show_int_def)
next
  case False
  obtain c cs where c: "show_nat (nat n) = c # cs" by (cases "show_nat (nat n)") auto
  then have "is_digit c" using hd_show_nat [of "nat n"] by simp
  with False c is_digit_delim [of c "cs @ r"] show ?thesis
    by (auto simp: show_int_def simp del: delim_simps(2))
qed

lemma canonicalizeJson_head:
  assumes "canonicalizeJson v = Inr s"
  shows "s \<noteq> []" and "\<not> delim (s @ r)"
    and "hd s = (case v of JNull \<Rightarrow> CHR ''n'' | JBool b \<Rightarrow> (if b then CHR ''t'' else CHR ''f'')
      | JStr _ \<Rightarrow> CHR 0x22 | JArr _ \<Rightarrow> CHR ''['' | JObj _ \<Rightarrow> CHR ''{'' | _ \<Rightarrow> hd s)"
    and "(\<exists>n. v = JNum n) \<longleftrightarrow> is_digit (hd s) \<or> hd s = CHR ''-''"
proof -
  have num: "is_digit (hd (show_int n)) \<or> hd (show_int n) = CHR ''-''" for n
    using hd_show_nat by (simp add: show_int_def)
  have ne: "show_int n \<noteq> []" for n by (simp add: show_int_def)
  note nd = not_delim_show_int
  show "s \<noteq> []" using assms ne
    by (cases v) (auto simp: json_quote_def bindE_eq_Inr split: if_splits)
  show "\<not> delim (s @ r)" using assms nd
    by (cases v) (auto simp: json_quote_def bindE_eq_Inr split: if_splits)
  show "hd s = (case v of JNull \<Rightarrow> CHR ''n'' | JBool b \<Rightarrow> (if b then CHR ''t'' else CHR ''f'')
      | JStr _ \<Rightarrow> CHR 0x22 | JArr _ \<Rightarrow> CHR ''['' | JObj _ \<Rightarrow> CHR ''{'' | _ \<Rightarrow> hd s)"
    using assms by (cases v) (auto simp: json_quote_def bindE_eq_Inr)
  show "(\<exists>n. v = JNum n) \<longleftrightarrow> is_digit (hd s) \<or> hd s = CHR ''-''"
    using assms num by (cases v) (auto simp: json_quote_def bindE_eq_Inr is_digit_def less_eq_char_def split: if_splits)
qed

fun json_kind :: "json \<Rightarrow> nat" where
  "json_kind JNull = 0"
| "json_kind (JBool b) = (if b then 1 else 2)"
| "json_kind (JStr _) = 3"
| "json_kind (JNum _) = 4"
| "json_kind (JArr _) = 5"
| "json_kind (JObj _) = 6"
| "json_kind JUndefined = 7"

definition head_kind :: "char \<Rightarrow> nat" where
  "head_kind c =
     (if c = CHR ''n'' then 0 else if c = CHR ''t'' then 1 else if c = CHR ''f'' then 2
      else if c = CHR 0x22 then 3 else if c = CHR ''['' then 5 else if c = CHR ''{'' then 6 else 4)"

lemma head_kind_digit: "is_digit c \<or> c = CHR ''-'' \<Longrightarrow> head_kind c = 4"
  by (auto simp: head_kind_def is_digit_def less_eq_char_def)

lemma canonicalizeJson_head_kind:
  assumes "canonicalizeJson v = Inr s"
  shows "json_kind v = head_kind (hd s)"
proof (cases "\<exists>n. v = JNum n")
  case True
  then show ?thesis using canonicalizeJson_head(4) [OF assms] head_kind_digit [of "hd s"] by auto
next
  case False
  have h: "v \<noteq> JUndefined" using assms by auto
  show ?thesis
    using canonicalizeJson_head(3) [OF assms] False h
    by (cases v) (simp_all add: head_kind_def)
qed

lemma canonicalizeJson_kind:
  assumes "canonicalizeJson v = Inr s" and "canonicalizeJson w = Inr t" and "s @ r = t @ r'"
  shows "json_kind v = json_kind w"
proof -
  have "hd s = hd t"
    using assms(3) canonicalizeJson_head(1) [OF assms(1)] canonicalizeJson_head(1) [OF assms(2)]
    by (metis hd_append2)
  then show ?thesis by (simp add: canonicalizeJson_head_kind [OF assms(1)] canonicalizeJson_head_kind [OF assms(2)])
qed

lemma json_kind_iff:
  "json_kind w = json_kind JNull \<longleftrightarrow> w = JNull"
  "json_kind w = json_kind (JBool b) \<longleftrightarrow> w = JBool b"
  "json_kind w = json_kind (JStr x) \<longleftrightarrow> (\<exists>y. w = JStr y)"
  "json_kind w = json_kind (JNum n) \<longleftrightarrow> (\<exists>m. w = JNum m)"
  "json_kind w = json_kind (JArr vs) \<longleftrightarrow> (\<exists>ws. w = JArr ws)"
  "json_kind w = json_kind (JObj kvs) \<longleftrightarrow> (\<exists>ws. w = JObj ws)"
  by (cases w; simp)+

lemma canonicalizeJson_prefix:
  "canonicalizeJson v = Inr s \<Longrightarrow> canonicalizeJson w = Inr t \<Longrightarrow> s @ r = t @ r' \<Longrightarrow> delim r \<Longrightarrow> delim r'
    \<Longrightarrow> normalizeJson v = normalizeJson w \<and> r = r'"
proof (induction v arbitrary: w s t r r' rule: canonicalizeJson.induct)
  case 1
  have "w = JNull" using canonicalizeJson_kind [OF 1(2,1) 1(3) [symmetric]] unfolding json_kind_iff .
  with 1 show ?case by simp
next
  case (2 b)
  have "w = JBool b" using canonicalizeJson_kind [OF 2(2,1) 2(3) [symmetric]] unfolding json_kind_iff .
  with 2 show ?case by (cases b) simp_all
next
  case (3 str)
  obtain y where "w = JStr y" using canonicalizeJson_kind [OF 3(2,1) 3(3) [symmetric]] unfolding json_kind_iff by blast
  with 3 json_quote_prefix [of str r y r'] show ?case by simp
next
  case (4 n)
  obtain m where "w = JNum m" using canonicalizeJson_kind [OF 4(2,1) 4(3) [symmetric]] unfolding json_kind_iff by blast
  with 4 show_int_prefix [of n r m r'] show ?case by (simp split: if_splits)
next
  case (5 vs)
  obtain ws where w: "w = JArr ws" using canonicalizeJson_kind [OF 5(3,2) 5(4) [symmetric]] unfolding json_kind_iff by blast
  let ?enc = "\<lambda>x. projr (canonicalizeJson x)"
  have okv: "\<forall>x \<in> set vs. is_ok (canonicalizeJson x)" and okw: "\<forall>x \<in> set ws. is_ok (canonicalizeJson x)"
    and s: "s = CHR ''['' # join (map ?enc vs) @ '']''" and t: "t = CHR ''['' # join (map ?enc ws) @ '']''"
    using 5(2,3) w by (auto simp: bindE_eq_Inr mapE_eq_Inr)
  have "map normalizeJson vs = map normalizeJson ws \<and> r = r'"
  proof (rule join_prefix [where enc = ?enc and c = "CHR '']''"])
    fix a b q q'
    assume ab: "a \<in> set vs" "b \<in> set ws" "delim q" "delim q'" "?enc a @ q = ?enc b @ q'"
    obtain sa sb where "canonicalizeJson a = Inr sa" "canonicalizeJson b = Inr sb"
      using okv okw ab(1,2) unfolding is_ok_iff by blast
    then show "normalizeJson a = normalizeJson b \<and> q = q'"
      using 5(1) [OF ab(1) _ _ _ ab(3,4)] ab(5) by simp
  next
    fix a
    assume "a \<in> set vs \<union> set ws"
    then obtain sa where "canonicalizeJson a = Inr sa" using okv okw unfolding is_ok_iff by blast
    then show "?enc a \<noteq> [] \<and> \<not> delim (?enc a)"
      using canonicalizeJson_head(1) [of a sa] canonicalizeJson_head(2) [of a sa "[]"] by simp
  qed (use 5(4) s t in auto)
  with w show ?case by simp
next
  case (6 kvs)
  obtain ws where w: "w = JObj ws" using canonicalizeJson_kind [OF 6(3,2) 6(4) [symmetric]] unfolding json_kind_iff by blast
  let ?enc = "\<lambda>kv. json_quote (fst kv) @ CHR '':'' # projr (canonicalizeJson (snd kv))"
  let ?m = "\<lambda>kv. bindE (canonicalizeJson (snd kv)) (\<lambda>s. Inr (json_quote (fst kv) @ CHR '':'' # s))"
  let ?f = "\<lambda>kv. (fst kv, normalizeJson (snd kv))"
  let ?V = "sort_key fst kvs" and ?W = "sort_key fst ws"
  have ok: "is_ok (?m kv) \<longleftrightarrow> is_ok (canonicalizeJson (snd kv))" for kv
    by (cases "canonicalizeJson (snd kv)") auto
  have pr: "map (\<lambda>kv. projr (?m kv)) xs = map ?enc xs" if "\<forall>x \<in> set xs. is_ok (?m x)" for xs
  proof (rule map_cong [OF refl])
    fix x
    assume "x \<in> set xs"
    with that ok have "is_ok (canonicalizeJson (snd x))" by blast
    then show "projr (?m x) = ?enc x" by (cases "canonicalizeJson (snd x)") auto
  qed
  have okv: "\<forall>x \<in> set ?V. is_ok (?m x)" and okw: "\<forall>x \<in> set ?W. is_ok (?m x)"
    using 6(2,3) w by (auto simp: bindE_eq_Inr mapE_eq_Inr)
  have s: "s = CHR ''{'' # join (map ?enc ?V) @ ''}''" and t: "t = CHR ''{'' # join (map ?enc ?W) @ ''}''"
    using 6(2,3) w unfolding pr [OF okv, symmetric] pr [OF okw, symmetric]
    by (auto simp: bindE_eq_Inr mapE_eq_Inr)
  have "map ?f ?V = map ?f ?W \<and> r = r'"
  proof (rule join_prefix [where enc = ?enc and c = "CHR ''}''"])
    fix a b q q'
    assume ab: "a \<in> set ?V" "b \<in> set ?W" "delim q" "delim q'" "?enc a @ q = ?enc b @ q'"
    obtain sa sb where c: "canonicalizeJson (snd a) = Inr sa" "canonicalizeJson (snd b) = Inr sb"
      using okv okw ab(1,2) ok by (metis is_ok_iff)
    from json_quote_prefix [of "fst a" "CHR '':'' # sa @ q" "fst b" "CHR '':'' # sb @ q'"] ab(5) c
    have "fst a = fst b" "sa @ q = sb @ q'" by auto
    then show "?f a = ?f b \<and> q = q'" using 6(1) [OF ab(1) c _ ab(3,4)] by simp
  next
    fix a
    assume "a \<in> set ?V \<union> set ?W"
    then show "?enc a \<noteq> [] \<and> \<not> delim (?enc a)" by (simp add: json_quote_def)
  qed (use 6(4) s t in auto)
  with w show ?case by simp
next
  case 7
  then show ?case by simp
qed

theorem canonicalizeJson_inject:
  assumes "canonicalizeJson v = Inr s" and "canonicalizeJson w = Inr s"
  shows "normalizeJson v = normalizeJson w"
  using canonicalizeJson_prefix [OF assms, of "[]" "[]"] by simp

end
