(* ===== verification/Policy_Catalog.thy ===== *)
theory Policy_Catalog
  imports Json
begin

text \<open>
  The refund policy catalog, \<^verbatim>\<open>src/packages/refund-policy/index.mjs\<close>: the validation of the
  release file and the lookup of a release by its version. The bytes of the file and the value
  \<^verbatim>\<open>JSON.parse\<close> makes of them are the argument \<^verbatim>\<open>file\<close> (\<^const>\<open>None\<close>: reading or parsing throws);
  \<^verbatim>\<open>releases_json\<close> is the value of the file shipped beside the module.
\<close>

section \<open>Releases\<close>

record RefundPolicyRelease =
  policyVersion :: string
  supportedCurrency :: string
  automaticMaximumMinor :: int
  approvalMaximumMinor :: int
  elevatedRiskPriorRefundCount :: int
  highRiskPriorRefundCount :: int
  decisionValiditySeconds :: int
  permittedReasonCodes :: "string list"
  requireDamagePhoto :: "bool option"

record RefundPolicyCatalog =
  catalogSha256 :: string
  releases :: "string \<rightharpoonup> RefundPolicyRelease"

record RefundPolicyBinding =
  binding_policyVersion :: string
  binding_catalogSha256 :: string

definition releaseKeys :: "string list" where
  "releaseKeys = [''policyVersion'', ''supportedCurrency'', ''automaticMaximumMinor'',
     ''approvalMaximumMinor'', ''elevatedRiskPriorRefundCount'', ''highRiskPriorRefundCount'',
     ''decisionValiditySeconds'', ''permittedReasonCodes'', ''requireDamagePhoto'']"

definition invalidCatalog :: js_error where
  "invalidCatalog = Error ''INVALID_REFUND_POLICY_CATALOG''"

definition isRecord :: "json \<Rightarrow> bool" where
  "isRecord v = (case v of JObj _ \<Rightarrow> True | _ \<Rightarrow> False)"

definition isNonNegativeInteger :: "json \<Rightarrow> bool" where
  "isNonNegativeInteger v = (case v of JNum n \<Rightarrow> isSafeInteger n \<and> 0 \<le> n | _ \<Rightarrow> False)"

text \<open>Property access on a parsed value: a missing key is \<^verbatim>\<open>undefined\<close>.\<close>

definition get_prop :: "string \<Rightarrow> json \<Rightarrow> json" where
  "get_prop k v = (case v of JObj kvs \<Rightarrow> (case map_of kvs k of Some x \<Rightarrow> x | None \<Rightarrow> JUndefined) | _ \<Rightarrow> JUndefined)"

definition object_keys :: "json \<Rightarrow> string list" where
  "object_keys v = (case v of JObj kvs \<Rightarrow> map fst kvs | _ \<Rightarrow> [])"

definition num_of :: "json \<Rightarrow> int" where
  "num_of v = (case v of JNum n \<Rightarrow> n | _ \<Rightarrow> 0)"

definition str_of :: "json \<Rightarrow> string" where
  "str_of v = (case v of JStr s \<Rightarrow> s | _ \<Rightarrow> [])"

definition elems_of :: "json \<Rightarrow> json list" where
  "elems_of v = (case v of JArr vs \<Rightarrow> vs | _ \<Rightarrow> [])"

definition is_str :: "json \<Rightarrow> bool" where
  "is_str v = (case v of JStr _ \<Rightarrow> True | _ \<Rightarrow> False)"

definition is_arr :: "json \<Rightarrow> bool" where
  "is_arr v = (case v of JArr _ \<Rightarrow> True | _ \<Rightarrow> False)"

definition validateRelease :: "json \<Rightarrow> RefundPolicyRelease result" where
  "validateRelease value =
     (if \<not> isRecord value
        \<or> list_ex (\<lambda>k. k \<notin> set releaseKeys) (object_keys value)
        \<or> \<not> is_str (get_prop ''policyVersion'' value)
        \<or> str_of (get_prop ''policyVersion'' value) = []
        \<or> get_prop ''supportedCurrency'' value \<noteq> JStr ''USD''
        \<or> \<not> isNonNegativeInteger (get_prop ''automaticMaximumMinor'' value)
        \<or> \<not> isNonNegativeInteger (get_prop ''approvalMaximumMinor'' value)
        \<or> num_of (get_prop ''automaticMaximumMinor'' value) > num_of (get_prop ''approvalMaximumMinor'' value)
        \<or> \<not> isNonNegativeInteger (get_prop ''elevatedRiskPriorRefundCount'' value)
        \<or> \<not> isNonNegativeInteger (get_prop ''highRiskPriorRefundCount'' value)
        \<or> num_of (get_prop ''elevatedRiskPriorRefundCount'' value) \<ge> num_of (get_prop ''highRiskPriorRefundCount'' value)
        \<or> (case get_prop ''decisionValiditySeconds'' value of JNum n \<Rightarrow> \<not> isSafeInteger n \<or> n \<le> 0 | _ \<Rightarrow> True)
        \<or> \<not> is_arr (get_prop ''permittedReasonCodes'' value)
        \<or> elems_of (get_prop ''permittedReasonCodes'' value) = []
        \<or> list_ex (\<lambda>r. \<not> is_str r \<or> str_of r = []) (elems_of (get_prop ''permittedReasonCodes'' value))
        \<or> \<not> distinct (map str_of (elems_of (get_prop ''permittedReasonCodes'' value)))
        \<or> (case get_prop ''requireDamagePhoto'' value of JUndefined \<Rightarrow> False | JBool _ \<Rightarrow> False | _ \<Rightarrow> True)
      then Inl invalidCatalog
      else Inr \<lparr> policyVersion = str_of (get_prop ''policyVersion'' value),
                supportedCurrency = ''USD'',
                automaticMaximumMinor = num_of (get_prop ''automaticMaximumMinor'' value),
                approvalMaximumMinor = num_of (get_prop ''approvalMaximumMinor'' value),
                elevatedRiskPriorRefundCount = num_of (get_prop ''elevatedRiskPriorRefundCount'' value),
                highRiskPriorRefundCount = num_of (get_prop ''highRiskPriorRefundCount'' value),
                decisionValiditySeconds = num_of (get_prop ''decisionValiditySeconds'' value),
                permittedReasonCodes = map str_of (elems_of (get_prop ''permittedReasonCodes'' value)),
                requireDamagePhoto = (case get_prop ''requireDamagePhoto'' value of JBool b \<Rightarrow> Some b | _ \<Rightarrow> None) \<rparr>)"

text \<open>The loop over the raw releases, accumulating the record of releases.\<close>

fun add_releases :: "json list \<Rightarrow> (string \<rightharpoonup> RefundPolicyRelease) \<Rightarrow> (string \<rightharpoonup> RefundPolicyRelease) result" where
  "add_releases [] rels = Inr rels"
| "add_releases (raw # raws) rels =
     bindE (validateRelease raw) (\<lambda>release.
       if rels (policyVersion release) \<noteq> None then Inl invalidCatalog
       else add_releases raws (rels(policyVersion release \<mapsto> release)))"

definition loadRefundPolicyCatalog :: "(string \<Rightarrow> string) \<Rightarrow> (string \<times> json) option \<Rightarrow> RefundPolicyCatalog result" where
  "loadRefundPolicyCatalog sha256_hex file =
     (case file of
        None \<Rightarrow> Inl invalidCatalog
      | Some (rawCatalog, parsed) \<Rightarrow>
          if \<not> isRecord parsed
             \<or> length (object_keys parsed) \<noteq> 2
             \<or> get_prop ''schemaVersion'' parsed \<noteq> JStr ''1''
             \<or> \<not> is_arr (get_prop ''releases'' parsed)
             \<or> elems_of (get_prop ''releases'' parsed) = []
          then Inl invalidCatalog
          else bindE (add_releases (elems_of (get_prop ''releases'' parsed)) Map.empty) (\<lambda>rels.
            Inr \<lparr> catalogSha256 = sha256_hex rawCatalog, releases = rels \<rparr>))"

definition getRefundPolicyRelease :: "RefundPolicyCatalog \<Rightarrow> string \<Rightarrow> RefundPolicyRelease result" where
  "getRefundPolicyRelease catalog version =
     (case releases catalog version of
        None \<Rightarrow> Inl (Error ''UNKNOWN_REFUND_POLICY_VERSION'')
      | Some release \<Rightarrow> Inr release)"

definition getRefundPolicyBinding :: "RefundPolicyCatalog \<Rightarrow> string \<Rightarrow> RefundPolicyBinding result" where
  "getRefundPolicyBinding catalog version =
     bindE (getRefundPolicyRelease catalog version) (\<lambda>_.
       Inr \<lparr> binding_policyVersion = version, binding_catalogSha256 = catalogSha256 catalog \<rparr>)"

section \<open>The shipped file\<close>

definition reason_codes_json :: json where
  "reason_codes_json = JArr (map JStr [''DAMAGED'', ''DEFECTIVE'', ''WRONG_ITEM'', ''NOT_AS_DESCRIBED'',
     ''MISSING_ITEM'', ''LATE_DELIVERY'', ''NO_LONGER_NEEDED'', ''OTHER''])"

definition release_json :: "string \<Rightarrow> (string \<times> json) list \<Rightarrow> json" where
  "release_json version extra = JObj ([
     (''policyVersion'', JStr version), (''supportedCurrency'', JStr ''USD''),
     (''automaticMaximumMinor'', JNum 10000), (''approvalMaximumMinor'', JNum 50000),
     (''elevatedRiskPriorRefundCount'', JNum 1), (''highRiskPriorRefundCount'', JNum 2),
     (''decisionValiditySeconds'', JNum 900), (''permittedReasonCodes'', reason_codes_json)] @ extra)"

definition releases_json :: json where
  "releases_json = JObj [(''schemaVersion'', JStr ''1''),
     (''releases'', JArr [release_json ''refund-policy-v1'' [],
        release_json ''refund-policy-v2'' [(''requireDamagePhoto'', JBool True)]])]"

definition REFUND_POLICY_V1 :: RefundPolicyRelease where
  "REFUND_POLICY_V1 = \<lparr> policyVersion = ''refund-policy-v1'', supportedCurrency = ''USD'',
     automaticMaximumMinor = 10000, approvalMaximumMinor = 50000,
     elevatedRiskPriorRefundCount = 1, highRiskPriorRefundCount = 2, decisionValiditySeconds = 900,
     permittedReasonCodes = [''DAMAGED'', ''DEFECTIVE'', ''WRONG_ITEM'', ''NOT_AS_DESCRIBED'',
       ''MISSING_ITEM'', ''LATE_DELIVERY'', ''NO_LONGER_NEEDED'', ''OTHER''],
     requireDamagePhoto = None \<rparr>"

definition REFUND_POLICY_V2 :: RefundPolicyRelease where
  "REFUND_POLICY_V2 = REFUND_POLICY_V1 \<lparr> policyVersion := ''refund-policy-v2'', requireDamagePhoto := Some True \<rparr>"

section \<open>What a loaded catalog promises\<close>

text \<open>The checks of \<^verbatim>\<open>validateRelease\<close>, on the release it returns.\<close>

definition release_valid :: "RefundPolicyRelease \<Rightarrow> bool" where
  "release_valid r \<longleftrightarrow>
     policyVersion r \<noteq> [] \<and> supportedCurrency r = ''USD''
     \<and> isSafeInteger (automaticMaximumMinor r) \<and> isSafeInteger (approvalMaximumMinor r)
     \<and> 0 \<le> automaticMaximumMinor r \<and> automaticMaximumMinor r \<le> approvalMaximumMinor r
     \<and> isSafeInteger (elevatedRiskPriorRefundCount r) \<and> isSafeInteger (highRiskPriorRefundCount r)
     \<and> 0 \<le> elevatedRiskPriorRefundCount r \<and> elevatedRiskPriorRefundCount r < highRiskPriorRefundCount r
     \<and> isSafeInteger (decisionValiditySeconds r) \<and> 0 < decisionValiditySeconds r
     \<and> permittedReasonCodes r \<noteq> [] \<and> [] \<notin> set (permittedReasonCodes r) \<and> distinct (permittedReasonCodes r)"

definition catalog_wf :: "(string \<rightharpoonup> RefundPolicyRelease) \<Rightarrow> bool" where
  "catalog_wf rels \<longleftrightarrow> (\<forall>v r. rels v = Some r \<longrightarrow> policyVersion r = v \<and> release_valid r)"

lemma isNonNegativeInteger_num: "isNonNegativeInteger v \<Longrightarrow> isSafeInteger (num_of v) \<and> 0 \<le> num_of v"
  by (cases v) (simp_all add: isNonNegativeInteger_def num_of_def)

lemma positive_num: "\<not> (case v of JNum n \<Rightarrow> \<not> isSafeInteger n \<or> n \<le> 0 | _ \<Rightarrow> True) \<Longrightarrow> isSafeInteger (num_of v) \<and> 0 < num_of v"
  by (cases v) (simp_all add: num_of_def)

lemma nonempty_strings: "\<not> list_ex (\<lambda>r. \<not> is_str r \<or> str_of r = []) vs \<Longrightarrow> [] \<notin> set (map str_of vs)"
  by (auto simp: list_ex_iff)

lemma validateRelease_valid: "validateRelease v = Inr r \<Longrightarrow> release_valid r"
  unfolding validateRelease_def release_valid_def
  using isNonNegativeInteger_num positive_num [of "get_prop ''decisionValiditySeconds'' v"]
    nonempty_strings [of "elems_of (get_prop ''permittedReasonCodes'' v)"]
  by (simp add: linorder_not_less linorder_not_le de_Morgan_disj split: if_split_asm del: json.case)
     (elim conjE, hypsubst, simp)

lemma validateRelease_error: "validateRelease v = Inl e \<Longrightarrow> e = invalidCatalog"
  by (auto simp: validateRelease_def split: if_splits)

lemma add_releases_wf: "catalog_wf rels \<Longrightarrow> add_releases raws rels = Inr rels' \<Longrightarrow> catalog_wf rels' \<and> rels \<subseteq>\<^sub>m rels'"
proof (induction raws arbitrary: rels)
  case (Cons raw raws)
  from Cons.prems(2) obtain r where r: "validateRelease raw = Inr r" "rels (policyVersion r) = None"
    "add_releases raws (rels(policyVersion r \<mapsto> r)) = Inr rels'"
    by (auto simp: bindE_eq_Inr split: if_splits)
  from validateRelease_valid [OF r(1)] Cons.prems(1) have "catalog_wf (rels(policyVersion r \<mapsto> r))"
    by (auto simp: catalog_wf_def)
  from Cons.IH [OF this r(3)] r(2) show ?case
    by (auto simp: map_le_def dom_def fun_upd_def split: if_splits)
qed auto

lemma add_releases_error: "add_releases raws rels = Inl e \<Longrightarrow> e = invalidCatalog"
proof (induction raws arbitrary: rels)
  case (Cons raw raws)
  then show ?case by (auto simp: bindE_eq_Inl split: if_splits dest: validateRelease_error)
qed simp

lemma loadRefundPolicyCatalog_wf:
  assumes "loadRefundPolicyCatalog sha file = Inr catalog"
  shows "catalog_wf (releases catalog)"
proof -
  from assms obtain raws where "add_releases raws Map.empty = Inr (releases catalog)"
    by (auto simp: loadRefundPolicyCatalog_def bindE_eq_Inr split: option.splits if_splits)
  moreover have "catalog_wf Map.empty" by (simp add: catalog_wf_def)
  ultimately show ?thesis using add_releases_wf by blast
qed

lemma getRefundPolicyRelease_valid:
  assumes "loadRefundPolicyCatalog sha file = Inr catalog" and "getRefundPolicyRelease catalog v = Inr r"
  shows "policyVersion r = v \<and> release_valid r"
  using loadRefundPolicyCatalog_wf [OF assms(1)] assms(2)
  by (auto simp: getRefundPolicyRelease_def catalog_wf_def split: option.splits)

lemma shipped_v1: "validateRelease (release_json ''refund-policy-v1'' []) = Inr REFUND_POLICY_V1"
  by code_simp

lemma shipped_v2:
  "validateRelease (release_json ''refund-policy-v2'' [(''requireDamagePhoto'', JBool True)]) = Inr REFUND_POLICY_V2"
  by code_simp

lemma shipped_releases:
  "add_releases (elems_of (get_prop ''releases'' releases_json)) Map.empty
    = Inr [''refund-policy-v1'' \<mapsto> REFUND_POLICY_V1, ''refund-policy-v2'' \<mapsto> REFUND_POLICY_V2]"
proof -
  have "elems_of (get_prop ''releases'' releases_json)
      = [release_json ''refund-policy-v1'' [], release_json ''refund-policy-v2'' [(''requireDamagePhoto'', JBool True)]]"
    by code_simp
  moreover have "policyVersion REFUND_POLICY_V1 = ''refund-policy-v1''" "policyVersion REFUND_POLICY_V2 = ''refund-policy-v2''"
    by (simp_all add: REFUND_POLICY_V1_def REFUND_POLICY_V2_def)
  ultimately show ?thesis by (simp add: shipped_v1 shipped_v2)
qed

end
