(* ===== verification/Refund_Policy.thy ===== *)
theory Refund_Policy
  imports Policy_Catalog
begin

text \<open>
  The refund policy, \<^verbatim>\<open>src/apps/services/workflow-workers/src/refund-policy.ts\<close> and
  \<^verbatim>\<open>refund-risk.ts\<close>: the decision on a refund request from trusted facts and a release of the
  catalog. The literal properties \<^verbatim>\<open>schemaVersion: "1"\<close> and \<^verbatim>\<open>journeyType: "REFUND"\<close> have no
  record field; they appear in the canonical encoding that is hashed. The SHA-256 digest in
  hexadecimal is the argument \<^verbatim>\<open>sha256_hex\<close>.
\<close>

section \<open>Data\<close>

record Money =
  amountMinor :: int
  currency :: string

record FactRef =
  factId :: string
  factType :: string
  sourceVersion :: string
  observedAt :: string

datatype Scope = FULL_ORDER | SELECTED_ITEMS | SCOPE_UNSPECIFIED

datatype RefundDestination = ORIGINAL_PAYMENT_METHOD | STORE_CREDIT | OTHER_DESTINATION

record RefundRequest =
  req_proposalId :: string
  req_orderId :: string
  req_reasonCode :: string
  req_scope :: Scope
  req_itemIds :: "string list"
  req_requestedAmount :: "Money option"

record PolicyFacts =
  customerVerified :: "bool option"
  transactionRefundable :: "bool option"
  itemSelectionValid :: "bool option"
  priorRefundCount :: "int option"
  refundableAmount :: "Money option"
  refundDestination :: "RefundDestination option"

record RefundPolicyInput =
  in_policyVersion :: string
  in_request :: RefundRequest
  in_facts :: PolicyFacts
  in_factRefs :: "FactRef list"

record PolicyDecisionContext =
  ctx_decisionId :: string
  ctx_decidedAt :: string

datatype PolicyEffect = ALLOW | APPROVAL_REQUIRED | TAKEOVER_REQUIRED | DENY | NEEDS_FACTS

datatype MissingFact =
    REFUND_REASON | ITEM_SELECTION | PRIOR_REFUND_HISTORY | REQUESTED_AMOUNT | REFUNDABLE_AMOUNT
  | REFUND_DESTINATION | CUSTOMER_VERIFICATION | TRANSACTION_REFUNDABILITY | DAMAGE_PHOTO

datatype PolicyObligation =
    REQUIRE_HUMAN_APPROVAL string   \<comment> \<open>\<^verbatim>\<open>parameters: { approvalClass }\<close>\<close>
  | REQUIRE_TAKEOVER

record RefundPolicyDecision =
  decisionId :: string
  effect :: PolicyEffect
  dec_policyVersion :: string
  inputFactsHash :: string
  dec_factRefs :: "FactRef list"
  reasonCodes :: "string list"
  obligations :: "PolicyObligation list"
  missingFacts :: "MissingFact list"
  decidedAt :: string
  validUntil :: string

datatype RefundRiskClass = LOW | ELEVATED | HIGH

section \<open>Operations\<close>

definition assessRefundRisk :: "int \<Rightarrow> RefundPolicyRelease \<Rightarrow> RefundRiskClass result" where
  "assessRefundRisk priorCount release =
     (if \<not> isSafeInteger priorCount \<or> priorCount < 0 then Inl (Error ''INVALID_PRIOR_REFUND_COUNT'')
      else if priorCount \<ge> highRiskPriorRefundCount release then Inr HIGH
      else if priorCount \<ge> elevatedRiskPriorRefundCount release then Inr ELEVATED
      else Inr LOW)"

definition assertPolicyRelease :: "RefundPolicyRelease \<Rightarrow> unit result" where
  "assertPolicyRelease release = throw_if
     (\<not> isSafeInteger (automaticMaximumMinor release)
      \<or> \<not> isSafeInteger (approvalMaximumMinor release)
      \<or> automaticMaximumMinor release < 0
      \<or> approvalMaximumMinor release < automaticMaximumMinor release
      \<or> \<not> isSafeInteger (elevatedRiskPriorRefundCount release)
      \<or> \<not> isSafeInteger (highRiskPriorRefundCount release)
      \<or> elevatedRiskPriorRefundCount release < 1
      \<or> highRiskPriorRefundCount release \<le> elevatedRiskPriorRefundCount release
      \<or> \<not> isSafeInteger (decisionValiditySeconds release)
      \<or> decisionValiditySeconds release \<le> 0
      \<or> permittedReasonCodes release = [])
     (Error ''INVALID_POLICY_RELEASE'')"

definition assertMoney :: "Money \<Rightarrow> unit result" where
  "assertMoney money =
     throw_if (\<not> isSafeInteger (amountMinor money) \<or> amountMinor money < 0) (Error ''INVALID_MONEY_AMOUNT'')"

definition findMissingFacts :: "RefundPolicyInput \<Rightarrow> MissingFact list" where
  "findMissingFacts input =
     (let request = in_request input; facts = in_facts input
      in (if customerVerified facts = None then [CUSTOMER_VERIFICATION] else [])
       @ (if transactionRefundable facts = None then [TRANSACTION_REFUNDABILITY] else [])
       @ (if req_reasonCode request = ''UNSPECIFIED'' then [REFUND_REASON] else [])
       @ (if req_scope request = SCOPE_UNSPECIFIED \<or> itemSelectionValid facts = None then [ITEM_SELECTION] else [])
       @ (if req_requestedAmount request = None then [REQUESTED_AMOUNT] else [])
       @ (if refundableAmount facts = None then [REFUNDABLE_AMOUNT] else [])
       @ (if refundDestination facts = None then [REFUND_DESTINATION] else [])
       @ (if priorRefundCount facts = None then [PRIOR_REFUND_HISTORY] else []))"

subsection \<open>The hash of the input\<close>

definition scope_string :: "Scope \<Rightarrow> string" where
  "scope_string s = (case s of FULL_ORDER \<Rightarrow> ''FULL_ORDER'' | SELECTED_ITEMS \<Rightarrow> ''SELECTED_ITEMS''
     | SCOPE_UNSPECIFIED \<Rightarrow> ''UNSPECIFIED'')"

definition destination_string :: "RefundDestination \<Rightarrow> string" where
  "destination_string d = (case d of ORIGINAL_PAYMENT_METHOD \<Rightarrow> ''ORIGINAL_PAYMENT_METHOD''
     | STORE_CREDIT \<Rightarrow> ''STORE_CREDIT'' | OTHER_DESTINATION \<Rightarrow> ''OTHER'')"

text \<open>An object literal with optional properties: an absent one has no key.\<close>

definition opt_prop :: "string \<Rightarrow> ('a \<Rightarrow> json) \<Rightarrow> 'a option \<Rightarrow> (string \<times> json) list" where
  "opt_prop k f v = (case v of None \<Rightarrow> [] | Some x \<Rightarrow> [(k, f x)])"

definition money_json :: "Money \<Rightarrow> json" where
  "money_json m = JObj [(''amountMinor'', JNum (amountMinor m)), (''currency'', JStr (currency m))]"

definition factRef_json :: "FactRef \<Rightarrow> json" where
  "factRef_json f = JObj [(''factId'', JStr (factId f)), (''factType'', JStr (factType f)),
     (''sourceVersion'', JStr (sourceVersion f)), (''observedAt'', JStr (observedAt f))]"

definition request_json :: "RefundRequest \<Rightarrow> json" where
  "request_json r = JObj ([(''proposalId'', JStr (req_proposalId r)), (''orderId'', JStr (req_orderId r)),
     (''reasonCode'', JStr (req_reasonCode r)), (''scope'', JStr (scope_string (req_scope r))),
     (''itemIds'', JArr (map JStr (req_itemIds r)))]
     @ opt_prop ''requestedAmount'' money_json (req_requestedAmount r))"

definition facts_json :: "PolicyFacts \<Rightarrow> json" where
  "facts_json f = JObj (
       opt_prop ''customerVerified'' JBool (customerVerified f)
     @ opt_prop ''transactionRefundable'' JBool (transactionRefundable f)
     @ opt_prop ''itemSelectionValid'' JBool (itemSelectionValid f)
     @ opt_prop ''priorRefundCount'' JNum (priorRefundCount f)
     @ opt_prop ''refundableAmount'' money_json (refundableAmount f)
     @ opt_prop ''refundDestination'' (\<lambda>d. JStr (destination_string d)) (refundDestination f))"

definition input_json :: "RefundPolicyInput \<Rightarrow> json" where
  "input_json i = JObj [(''schemaVersion'', JStr ''1''), (''journeyType'', JStr ''REFUND''),
     (''policyVersion'', JStr (in_policyVersion i)), (''request'', request_json (in_request i)),
     (''facts'', facts_json (in_facts i)), (''factRefs'', JArr (map factRef_json (in_factRefs i)))]"

definition hashPolicyInput :: "(string \<Rightarrow> string) \<Rightarrow> RefundPolicyInput \<Rightarrow> string result" where
  "hashPolicyInput sha256_hex input =
     bindE (canonicalizeJson (input_json input)) (\<lambda>s. Inr (''sha256:'' @ sha256_hex s))"

subsection \<open>The decision\<close>

text \<open>
  The cascade of \<^verbatim>\<open>evaluateRefundPolicy\<close> from \<^verbatim>\<open>findMissingFacts\<close> on: what each call of its local
  \<^verbatim>\<open>decide\<close> is given, effect, reason codes, obligations and missing facts.
\<close>

type_synonym outcome = "PolicyEffect \<times> string list \<times> PolicyObligation list \<times> MissingFact list"

definition takeover_reasons :: "RefundPolicyInput \<Rightarrow> RefundPolicyRelease \<Rightarrow> Money \<Rightarrow> RefundRiskClass \<Rightarrow> string list" where
  "takeover_reasons input release requested riskClass =
     (if currency requested \<noteq> supportedCurrency release then [''UNSUPPORTED_CURRENCY_REQUIRES_TAKEOVER''] else [])
     @ (if refundDestination (in_facts input) \<noteq> Some ORIGINAL_PAYMENT_METHOD
        then [''NON_STANDARD_DESTINATION_REQUIRES_TAKEOVER''] else [])
     @ (if riskClass = HIGH then [''HIGH_RISK_REFUND_REQUIRES_TAKEOVER''] else [])
     @ (if amountMinor requested > approvalMaximumMinor release then [''AMOUNT_EXCEEDS_APPROVAL_THRESHOLD''] else [])"

definition approval_reasons :: "RefundPolicyRelease \<Rightarrow> Money \<Rightarrow> RefundRiskClass \<Rightarrow> string list" where
  "approval_reasons release requested riskClass =
     (if riskClass = ELEVATED then [''ELEVATED_RISK_REQUIRES_APPROVAL''] else [])
     @ (if amountMinor requested > automaticMaximumMinor release
        then [''AMOUNT_EXCEEDS_AUTO_APPROVAL_THRESHOLD''] else [])"

definition accepted_evidence_ref :: "FactRef \<Rightarrow> bool" where
  "accepted_evidence_ref ref \<longleftrightarrow> factType ref = ''ACCEPTED_DAMAGE_EVIDENCE'' \<and> sha256_ref (sourceVersion ref)"

definition damage_photo_missing :: "RefundPolicyInput \<Rightarrow> RefundPolicyRelease \<Rightarrow> bool" where
  "damage_photo_missing input release \<longleftrightarrow>
     requireDamagePhoto release = Some True \<and> req_reasonCode (in_request input) = ''DAMAGED''
     \<and> \<not> list_ex accepted_evidence_ref (in_factRefs input)"

definition policy_outcome :: "RefundPolicyInput \<Rightarrow> RefundPolicyRelease \<Rightarrow> outcome result" where
  "policy_outcome input release =
     (let facts = in_facts input; request = in_request input; missing = findMissingFacts input
      in if missing \<noteq> [] then Inr (NEEDS_FACTS, [''MISSING_REQUIRED_FACTS''], [], missing)
      else case (req_requestedAmount request, refundableAmount facts) of
        (Some requested, Some refundable) \<Rightarrow>
          bindE (assertMoney requested) (\<lambda>_. bindE (assertMoney refundable) (\<lambda>_.
            if customerVerified facts = Some False then Inr (DENY, [''CUSTOMER_NOT_VERIFIED''], [], [])
            else if transactionRefundable facts = Some False then Inr (DENY, [''TRANSACTION_NOT_REFUNDABLE''], [], [])
            else if req_reasonCode request \<notin> set (permittedReasonCodes release)
              then Inr (DENY, [''REFUND_REASON_NOT_PERMITTED''], [], [])
            else if itemSelectionValid facts = Some False then Inr (DENY, [''ITEM_SELECTION_NOT_REFUNDABLE''], [], [])
            else if amountMinor requested = 0 then Inr (DENY, [''REFUND_AMOUNT_MUST_BE_POSITIVE''], [], [])
            else if currency requested \<noteq> currency refundable then Inr (DENY, [''REFUND_CURRENCY_MISMATCH''], [], [])
            else if amountMinor requested > amountMinor refundable
              then Inr (DENY, [''REFUND_AMOUNT_EXCEEDS_REFUNDABLE_BALANCE''], [], [])
            else if damage_photo_missing input release
              then Inr (NEEDS_FACTS, [''DAMAGE_PHOTO_REVIEW_REQUIRED''], [], [DAMAGE_PHOTO])
            else bindE (assessRefundRisk (the (priorRefundCount facts)) release) (\<lambda>riskClass.
              let takeoverReasons = takeover_reasons input release requested riskClass;
                  approvalReasons = approval_reasons release requested riskClass
              in if takeoverReasons \<noteq> [] then Inr (TAKEOVER_REQUIRED, takeoverReasons, [REQUIRE_TAKEOVER], [])
                 else if approvalReasons \<noteq> []
                   then Inr (APPROVAL_REQUIRED, approvalReasons, [REQUIRE_HUMAN_APPROVAL ''REFUND_REVIEW''], [])
                 else Inr (ALLOW, [''WITHIN_AUTOMATIC_REFUND_THRESHOLD''], [], []))))
      | _ \<Rightarrow> Inl (Error ''MISSING_AMOUNT_INVARIANT''))"

definition evaluateRefundPolicy ::
  "(string \<Rightarrow> string) \<Rightarrow> RefundPolicyInput \<Rightarrow> RefundPolicyRelease \<Rightarrow> PolicyDecisionContext \<Rightarrow> RefundPolicyDecision result" where
  "evaluateRefundPolicy sha256_hex input release context =
     bindE (assertPolicyRelease release) (\<lambda>_.
     bindE (throw_if (in_policyVersion input \<noteq> policyVersion release) (Error ''POLICY_VERSION_MISMATCH'')) (\<lambda>_.
     case date_parse (ctx_decidedAt context) of
       None \<Rightarrow> Inl (Error ''INVALID_DECIDED_AT'')
     | Some decidedAtEpochMilliseconds \<Rightarrow>
       let factRefs = sort_key factId (in_factRefs input)
       in bindE (hashPolicyInput sha256_hex (input\<lparr>in_factRefs := factRefs\<rparr>)) (\<lambda>hash.
          bindE (toISOString (decidedAtEpochMilliseconds + decisionValiditySeconds release * 1000)) (\<lambda>until.
          bindE (policy_outcome input release) (\<lambda>(eff, reasons, obls, missing).
            Inr \<lparr> decisionId = ctx_decisionId context, effect = eff, dec_policyVersion = policyVersion release,
                  inputFactsHash = hash, dec_factRefs = factRefs, reasonCodes = reasons, obligations = obls,
                  missingFacts = missing, decidedAt = ctx_decidedAt context, validUntil = until \<rparr>)))))"

section \<open>Which decision\<close>

text \<open>
  The specification: a request is eligible when nothing is missing and no ground for denial
  holds; an eligible request is within the approval limits, or not; within them it is within the
  automatic limits, or not.
\<close>

definition eligible :: "RefundPolicyInput \<Rightarrow> RefundPolicyRelease \<Rightarrow> bool" where
  "eligible input release =
     (let facts = in_facts input; request = in_request input
      in customerVerified facts = Some True \<and> transactionRefundable facts = Some True
       \<and> itemSelectionValid facts = Some True \<and> refundDestination facts \<noteq> None
       \<and> req_scope request \<noteq> SCOPE_UNSPECIFIED \<and> req_reasonCode request \<noteq> ''UNSPECIFIED''
       \<and> req_reasonCode request \<in> set (permittedReasonCodes release)
       \<and> (case (req_requestedAmount request, refundableAmount facts, priorRefundCount facts) of
            (Some requested, Some refundable, Some priorCount) \<Rightarrow>
              0 < amountMinor requested \<and> amountMinor requested \<le> amountMinor refundable
              \<and> isSafeInteger (amountMinor refundable) \<and> currency requested = currency refundable
              \<and> 0 \<le> priorCount \<and> isSafeInteger priorCount
          | _ \<Rightarrow> False)
       \<and> \<not> damage_photo_missing input release)"

definition requested_minor :: "RefundPolicyInput \<Rightarrow> int" where
  "requested_minor input = amountMinor (the (req_requestedAmount (in_request input)))"

definition requested_currency :: "RefundPolicyInput \<Rightarrow> string" where
  "requested_currency input = currency (the (req_requestedAmount (in_request input)))"

definition prior_refunds :: "RefundPolicyInput \<Rightarrow> int" where
  "prior_refunds input = the (priorRefundCount (in_facts input))"

definition within_approval_limits :: "RefundPolicyInput \<Rightarrow> RefundPolicyRelease \<Rightarrow> bool" where
  "within_approval_limits input release \<longleftrightarrow>
     requested_currency input = supportedCurrency release
     \<and> refundDestination (in_facts input) = Some ORIGINAL_PAYMENT_METHOD
     \<and> prior_refunds input < highRiskPriorRefundCount release
     \<and> requested_minor input \<le> approvalMaximumMinor release"

definition within_automatic_limits :: "RefundPolicyInput \<Rightarrow> RefundPolicyRelease \<Rightarrow> bool" where
  "within_automatic_limits input release \<longleftrightarrow>
     within_approval_limits input release
     \<and> prior_refunds input < elevatedRiskPriorRefundCount release
     \<and> requested_minor input \<le> automaticMaximumMinor release"

definition policy_effect :: "RefundPolicyInput \<Rightarrow> RefundPolicyRelease \<Rightarrow> PolicyEffect" where
  "policy_effect input release =
     (if \<not> within_approval_limits input release then TAKEOVER_REQUIRED
      else if \<not> within_automatic_limits input release then APPROVAL_REQUIRED else ALLOW)"

lemma findMissingFacts_empty:
  "findMissingFacts input = [] \<longleftrightarrow>
     customerVerified (in_facts input) \<noteq> None \<and> transactionRefundable (in_facts input) \<noteq> None
     \<and> req_reasonCode (in_request input) \<noteq> ''UNSPECIFIED''
     \<and> req_scope (in_request input) \<noteq> SCOPE_UNSPECIFIED \<and> itemSelectionValid (in_facts input) \<noteq> None
     \<and> req_requestedAmount (in_request input) \<noteq> None \<and> refundableAmount (in_facts input) \<noteq> None
     \<and> refundDestination (in_facts input) \<noteq> None \<and> priorRefundCount (in_facts input) \<noteq> None"
  by (simp add: findMissingFacts_def Let_def)

lemma Some_True_iff: "v = Some True \<longleftrightarrow> v \<noteq> None \<and> v \<noteq> Some False"
  by (cases v) auto

lemma assessRefundRisk_ok:
  "isSafeInteger c \<Longrightarrow> 0 \<le> c \<Longrightarrow> assessRefundRisk c release =
     Inr (if c \<ge> highRiskPriorRefundCount release then HIGH
          else if c \<ge> elevatedRiskPriorRefundCount release then ELEVATED else LOW)"
  by (simp add: assessRefundRisk_def)

lemma policy_outcome_eligible:
  assumes "eligible input release"
  shows "\<exists>reasons obls. policy_outcome input release = Inr (policy_effect input release, reasons, obls, [])"
proof -
  from assms obtain requested refundable c where v:
    "req_requestedAmount (in_request input) = Some requested" "refundableAmount (in_facts input) = Some refundable"
    "priorRefundCount (in_facts input) = Some c" "0 < amountMinor requested"
    "amountMinor requested \<le> amountMinor refundable" "isSafeInteger (amountMinor refundable)"
    "currency requested = currency refundable" "0 \<le> c" "isSafeInteger c"
    by (auto simp: eligible_def Let_def split: option.splits)
  from v(4-6) have m: "assertMoney requested = Inr ()" "assertMoney refundable = Inr ()"
    by (auto simp: assertMoney_def throw_if_def isSafeInteger_def MAX_SAFE_INTEGER_def)
  from assms v have n: "findMissingFacts input = []"
    unfolding findMissingFacts_empty by (auto simp: eligible_def Let_def)
  show ?thesis using assms v m n
    unfolding policy_outcome_def eligible_def Let_def
    by (simp add: assessRefundRisk_ok policy_effect_def within_approval_limits_def within_automatic_limits_def
        takeover_reasons_def approval_reasons_def requested_minor_def requested_currency_def prior_refunds_def)
qed

lemma policy_outcome_not_eligible:
  assumes "policy_outcome input release = Inr (eff, rest)" and "\<not> eligible input release"
  shows "eff = DENY \<or> eff = NEEDS_FACTS"
proof (cases "findMissingFacts input = []")
  case False
  with assms(1) show ?thesis by (simp add: policy_outcome_def Let_def)
next
  case True
  then obtain requested refundable c where v:
    "req_requestedAmount (in_request input) = Some requested" "refundableAmount (in_facts input) = Some refundable"
    "priorRefundCount (in_facts input) = Some c"
    unfolding findMissingFacts_empty by auto
  have "eff \<noteq> DENY \<Longrightarrow> eff \<noteq> NEEDS_FACTS \<Longrightarrow> eligible input release"
    using assms(1) True v unfolding policy_outcome_def Let_def eligible_def Some_True_iff
    by (auto simp: findMissingFacts_empty bindE_eq_Inr throw_if_def assertMoney_def assessRefundRisk_def split: if_split_asm)
  with assms(2) show ?thesis by blast
qed

section \<open>The decision as a whole\<close>

lemma evaluateRefundPolicy_Inr:
  assumes "evaluateRefundPolicy sha input release context = Inr d"
  obtains t hash until rest where
    "assertPolicyRelease release = Inr ()" "in_policyVersion input = policyVersion release"
    "date_parse (ctx_decidedAt context) = Some t"
    "hashPolicyInput sha (input\<lparr>in_factRefs := sort_key factId (in_factRefs input)\<rparr>) = Inr (inputFactsHash d)"
    "toISOString (t + decisionValiditySeconds release * 1000) = Inr (validUntil d)"
    "policy_outcome input release = Inr (effect d, reasonCodes d, obligations d, missingFacts d)"
    "decisionId d = ctx_decisionId context" "dec_policyVersion d = policyVersion release"
    "dec_factRefs d = sort_key factId (in_factRefs input)" "decidedAt d = ctx_decidedAt context"
  using assms unfolding evaluateRefundPolicy_def
  by (auto simp: bindE_eq_Inr Let_def throw_if_eq_Inr split: option.splits)

text \<open>
  C13. The effect of every decision is the one of the specification: exactly the eligible
  requests are decided by the amount, currency, destination and history limits of the release
  (automatic, approval, or takeover), and every other request is denied or needs facts; facts
  are reported missing exactly when the effect is \<^verbatim>\<open>NEEDS_FACTS\<close>.
\<close>

theorem evaluateRefundPolicy_effect:
  assumes "evaluateRefundPolicy sha input release context = Inr d"
  shows "(if eligible input release then effect d = policy_effect input release
          else effect d = DENY \<or> effect d = NEEDS_FACTS)
    \<and> (effect d = NEEDS_FACTS \<longleftrightarrow> missingFacts d \<noteq> [])"
proof -
  from assms obtain o: "policy_outcome input release = Inr (effect d, reasonCodes d, obligations d, missingFacts d)"
    by (rule evaluateRefundPolicy_Inr)
  have "effect d = NEEDS_FACTS \<longleftrightarrow> missingFacts d \<noteq> []"
    using o unfolding policy_outcome_def Let_def
    by (auto simp: bindE_eq_Inr split: if_split_asm option.splits)
  with o policy_outcome_eligible [of input release] policy_outcome_not_eligible [OF o] show ?thesis by auto
qed

subsection \<open>Totality\<close>

definition money_ok :: "Money option \<Rightarrow> bool" where
  "money_ok m = (case m of None \<Rightarrow> True | Some x \<Rightarrow> isSafeInteger (amountMinor x) \<and> 0 \<le> amountMinor x)"

definition input_numbers_ok :: "RefundPolicyInput \<Rightarrow> bool" where
  "input_numbers_ok input \<longleftrightarrow>
     money_ok (req_requestedAmount (in_request input)) \<and> money_ok (refundableAmount (in_facts input))
     \<and> (case priorRefundCount (in_facts input) of None \<Rightarrow> True | Some c \<Rightarrow> isSafeInteger c \<and> 0 \<le> c)"

lemma mapE_ok: "(\<And>x. x \<in> set xs \<Longrightarrow> is_ok (f x)) \<Longrightarrow> \<exists>ys. mapE f xs = Inr ys"
  by (simp add: mapE_eq_Inr)

lemma canonicalizeJson_obj_ok:
  "(\<And>kv. kv \<in> set kvs \<Longrightarrow> is_ok (canonicalizeJson (snd kv))) \<Longrightarrow> is_ok (canonicalizeJson (JObj kvs))"
proof -
  assume a: "\<And>kv. kv \<in> set kvs \<Longrightarrow> is_ok (canonicalizeJson (snd kv))"
  have "\<exists>ys. mapE (\<lambda>kv. bindE (canonicalizeJson (snd kv)) (\<lambda>s. Inr (json_quote (fst kv) @ CHR '':'' # s)))
      (sort_key fst kvs) = Inr ys"
  proof (rule mapE_ok)
    fix kv assume "kv \<in> set (sort_key fst kvs)"
    then show "is_ok (bindE (canonicalizeJson (snd kv)) (\<lambda>s. Inr (json_quote (fst kv) @ CHR '':'' # s)))"
      using a [of kv] by (cases "canonicalizeJson (snd kv)") auto
  qed
  then show ?thesis by auto
qed

lemma canonicalizeJson_arr_ok:
  "(\<And>v. v \<in> set vs \<Longrightarrow> is_ok (canonicalizeJson v)) \<Longrightarrow> is_ok (canonicalizeJson (JArr vs))"
  using mapE_ok [of vs canonicalizeJson] by auto

lemma canonicalize_money_ok: "isSafeInteger (amountMinor m) \<Longrightarrow> is_ok (canonicalizeJson (money_json m))"
  unfolding money_json_def by (rule canonicalizeJson_obj_ok) auto

lemma canonicalize_opt_prop:
  "kv \<in> set (opt_prop k f v) \<Longrightarrow> (\<And>x. v = Some x \<Longrightarrow> is_ok (canonicalizeJson (f x))) \<Longrightarrow> is_ok (canonicalizeJson (snd kv))"
  by (auto simp: opt_prop_def split: option.splits)

lemma hashPolicyInput_ok:
  assumes "input_numbers_ok input"
  shows "\<exists>h. hashPolicyInput sha input = Inr (''sha256:'' @ h)"
proof -
  have request: "is_ok (canonicalizeJson (request_json (in_request input)))"
    unfolding request_json_def using assms
    by (intro canonicalizeJson_obj_ok)
       (auto simp del: canonicalizeJson.simps(5) intro!: canonicalizeJson_arr_ok canonicalize_money_ok
         simp: input_numbers_ok_def money_ok_def elim!: canonicalize_opt_prop)
  have facts: "is_ok (canonicalizeJson (facts_json (in_facts input)))"
    unfolding facts_json_def using assms
    by (intro canonicalizeJson_obj_ok)
       (auto intro!: canonicalize_money_ok simp: input_numbers_ok_def money_ok_def elim!: canonicalize_opt_prop)
  have refs: "is_ok (canonicalizeJson (JArr (map factRef_json (in_factRefs input))))"
    by (rule canonicalizeJson_arr_ok) (auto simp: factRef_json_def simp del: canonicalizeJson.simps(6) intro!: canonicalizeJson_obj_ok)
  have "is_ok (canonicalizeJson (input_json input))"
    unfolding input_json_def using request facts refs
    by (intro canonicalizeJson_obj_ok) (auto simp del: canonicalizeJson.simps(5,6))
  then show ?thesis by (auto simp: hashPolicyInput_def is_ok_iff)
qed

lemma policy_outcome_ok:
  assumes "input_numbers_ok input"
  shows "\<exists>out. policy_outcome input release = Inr out"
proof (cases "findMissingFacts input = []")
  case False
  then show ?thesis by (simp add: policy_outcome_def Let_def)
next
  case True
  then obtain requested refundable c where v:
    "req_requestedAmount (in_request input) = Some requested" "refundableAmount (in_facts input) = Some refundable"
    "priorRefundCount (in_facts input) = Some c"
    unfolding findMissingFacts_empty by auto
  with assms have "assertMoney requested = Inr ()" "assertMoney refundable = Inr ()" "isSafeInteger c" "0 \<le> c"
    by (auto simp: input_numbers_ok_def money_ok_def assertMoney_def)
  then show ?thesis using True v unfolding policy_outcome_def Let_def by (simp add: assessRefundRisk_ok)
qed

lemma evaluateRefundPolicy_returns:
  assumes "release_valid release" and "1 \<le> elevatedRiskPriorRefundCount release"
    and "in_policyVersion input = policyVersion release" and "input_numbers_ok input"
    and "date_parse (ctx_decidedAt context) = Some t"
    and "\<bar>t + decisionValiditySeconds release * 1000\<bar> \<le> MAX_TIME"
  shows "\<exists>d. evaluateRefundPolicy sha input release context = Inr d"
proof -
  have "input_numbers_ok (input\<lparr>in_factRefs := sort_key factId (in_factRefs input)\<rparr>)"
    using assms(4) by (simp add: input_numbers_ok_def)
  then obtain h where h: "hashPolicyInput sha (input\<lparr>in_factRefs := sort_key factId (in_factRefs input)\<rparr>) = Inr (''sha256:'' @ h)"
    using hashPolicyInput_ok by blast
  obtain eff rs obs ms where out: "policy_outcome input release = Inr (eff, rs, obs, ms)"
    using policy_outcome_ok [OF assms(4)] by (metis prod_cases4)
  have r: "assertPolicyRelease release = Inr ()"
    using assms(1,2) by (auto simp: assertPolicyRelease_def release_valid_def)
  show ?thesis using h out r assms(3,5,6) by (simp add: evaluateRefundPolicy_def Let_def)
qed

text \<open>
  C14. Evaluation returns: a release that passed the catalog's validation and asks for at least
  one prior refund before a request is elevated, an input pinned to it whose numbers are safe and
  not negative, and a decision time whose validity window ends inside the ECMAScript time range
  give a decision, valid for exactly \<^verbatim>\<open>decisionValiditySeconds\<close> after \<^verbatim>\<open>decidedAt\<close>.
\<close>

theorem evaluateRefundPolicy_total:
  assumes "release_valid release" and "1 \<le> elevatedRiskPriorRefundCount release"
    and "in_policyVersion input = policyVersion release" and "input_numbers_ok input"
    and "date_parse (ctx_decidedAt context) = Some t"
    and "\<bar>t + decisionValiditySeconds release * 1000\<bar> \<le> MAX_TIME"
  shows "\<exists>d. evaluateRefundPolicy sha input release context = Inr d
    \<and> date_parse (validUntil d) = Some (t + decisionValiditySeconds release * 1000)
    \<and> date_parse (decidedAt d) = Some t \<and> dec_policyVersion d = policyVersion release
    \<and> decisionId d = ctx_decisionId context"
proof -
  obtain d where d: "evaluateRefundPolicy sha input release context = Inr d"
    using evaluateRefundPolicy_returns [OF assms] by blast
  then have "date_parse (validUntil d) = Some (t + decisionValiditySeconds release * 1000) \<and> date_parse (decidedAt d) = Some t
      \<and> dec_policyVersion d = policyVersion release \<and> decisionId d = ctx_decisionId context"
    using assms(5) by (elim evaluateRefundPolicy_Inr) (auto dest: date_parse_toISOString)
  with d show ?thesis by blast
qed

text \<open>
  The catalog and the evaluator disagree on one value: a release whose
  \<^verbatim>\<open>elevatedRiskPriorRefundCount\<close> is 0 can pass the catalog's validation, and then every
  evaluation under it throws \<^verbatim>\<open>INVALID_POLICY_RELEASE\<close>.
\<close>

definition zero_elevated_json :: json where
  "zero_elevated_json = JObj [
     (''policyVersion'', JStr ''refund-policy-v3''), (''supportedCurrency'', JStr ''USD''),
     (''automaticMaximumMinor'', JNum 10000), (''approvalMaximumMinor'', JNum 50000),
     (''elevatedRiskPriorRefundCount'', JNum 0), (''highRiskPriorRefundCount'', JNum 2),
     (''decisionValiditySeconds'', JNum 900), (''permittedReasonCodes'', reason_codes_json)]"

theorem catalog_release_rejected:
  "\<exists>release. validateRelease zero_elevated_json = Inr release
    \<and> evaluateRefundPolicy sha input release context = Inl (Error ''INVALID_POLICY_RELEASE'')"
proof -
  let ?r = "REFUND_POLICY_V1\<lparr>policyVersion := ''refund-policy-v3'', elevatedRiskPriorRefundCount := 0\<rparr>"
  have "validateRelease zero_elevated_json = Inr ?r" by code_simp
  moreover have "evaluateRefundPolicy sha input ?r context = Inl (Error ''INVALID_POLICY_RELEASE'')"
    by (simp add: evaluateRefundPolicy_def assertPolicyRelease_def)
  ultimately show ?thesis by blast
qed

section \<open>Monotonicity\<close>

definition severity :: "PolicyEffect \<Rightarrow> nat" where
  "severity e = (case e of ALLOW \<Rightarrow> 0 | APPROVAL_REQUIRED \<Rightarrow> 1 | TAKEOVER_REQUIRED \<Rightarrow> 2 | _ \<Rightarrow> 3)"

definition with_amount :: "int \<Rightarrow> RefundPolicyInput \<Rightarrow> RefundPolicyInput" where
  "with_amount n input = input\<lparr>in_request := (in_request input)
     \<lparr>req_requestedAmount := map_option (\<lambda>m. m\<lparr>amountMinor := n\<rparr>) (req_requestedAmount (in_request input))\<rparr>\<rparr>"

lemma policy_effect_mono:
  assumes "eligible input release" and "n \<le> requested_minor input"
  shows "severity (policy_effect (with_amount n input) release) \<le> severity (policy_effect input release)"
  using assms
  by (auto simp: policy_effect_def within_approval_limits_def within_automatic_limits_def requested_minor_def
      requested_currency_def prior_refunds_def with_amount_def eligible_def Let_def severity_def split: option.splits)

lemma eligible_with_amount:
  "eligible input release \<Longrightarrow> 0 < n \<Longrightarrow> n \<le> requested_minor input \<Longrightarrow> eligible (with_amount n input) release"
  by (auto simp: eligible_def Let_def with_amount_def requested_minor_def damage_photo_missing_def split: option.splits)

text \<open>
  A smaller request is never judged more strictly: lowering the amount of an eligible request
  to a positive one keeps it eligible and does not raise the effect from automatic to approval or
  takeover, or from approval to takeover.
\<close>

theorem evaluateRefundPolicy_monotone:
  assumes "evaluateRefundPolicy sha input release context = Inr d" and "eligible input release"
    and "0 < n" and "n \<le> requested_minor input"
    and "evaluateRefundPolicy sha (with_amount n input) release context = Inr d'"
  shows "severity (effect d') \<le> severity (effect d) \<and> severity (effect d) \<le> 2"
proof -
  have "eligible (with_amount n input) release" using assms eligible_with_amount by blast
  with assms(5) have "effect d' = policy_effect (with_amount n input) release"
    by (elim evaluateRefundPolicy_Inr) (use policy_outcome_eligible in force)
  moreover have "effect d = policy_effect input release"
    using assms(1,2) by (elim evaluateRefundPolicy_Inr) (use policy_outcome_eligible in force)
  ultimately show ?thesis
    using policy_effect_mono [OF assms(2,4)] by (auto simp: policy_effect_def severity_def)
qed

section \<open>What the hash binds\<close>

lemma policy_outcome_refs:
  assumes "set refs = set (in_factRefs input)"
  shows "policy_outcome (input\<lparr>in_factRefs := refs\<rparr>) release = policy_outcome input release"
proof -
  have m: "findMissingFacts (input\<lparr>in_factRefs := refs\<rparr>) = findMissingFacts input"
    by (simp add: findMissingFacts_def)
  have t: "takeover_reasons (input\<lparr>in_factRefs := refs\<rparr>) = takeover_reasons input"
    by (simp add: takeover_reasons_def fun_eq_iff)
  have d: "damage_photo_missing (input\<lparr>in_factRefs := refs\<rparr>) = damage_photo_missing input"
    using assms by (simp add: damage_photo_missing_def list_ex_iff fun_eq_iff)
  have f: "in_facts (input\<lparr>in_factRefs := refs\<rparr>) = in_facts input"
    "in_request (input\<lparr>in_factRefs := refs\<rparr>) = in_request input" by simp_all
  show ?thesis unfolding policy_outcome_def Let_def m t d f ..
qed

text \<open>
  The order in which facts are collected does not matter: inputs that differ only in the
  order of their fact references, whose ids are distinct, give the same decision, hash included.
\<close>

theorem evaluateRefundPolicy_refs_order:
  assumes "mset refs = mset (in_factRefs input)" and "distinct (map factId (in_factRefs input))"
  shows "evaluateRefundPolicy sha (input\<lparr>in_factRefs := refs\<rparr>) release context
    = evaluateRefundPolicy sha input release context"
proof -
  have "inj_on factId (set (in_factRefs input))" using assms(2) by (simp add: distinct_map)
  with sort_key_perm_distinct [OF assms(1) [symmetric]]
  have k: "sort_key factId refs = sort_key factId (in_factRefs input)" by metis
  have r: "set refs = set (in_factRefs input)" using assms(1) by (rule mset_eq_setD)
  have f: "in_factRefs (input\<lparr>in_factRefs := refs\<rparr>) = refs"
    "in_policyVersion (input\<lparr>in_factRefs := refs\<rparr>) = in_policyVersion input"
    "input\<lparr>in_factRefs := refs, in_factRefs := x\<rparr> = input\<lparr>in_factRefs := x\<rparr>" for x by simp_all
  show ?thesis unfolding evaluateRefundPolicy_def Let_def f k policy_outcome_refs [OF r] ..
qed

text \<open>Equal normal forms of objects without duplicate keys agree on every key.\<close>

lemma map_of_sort_key:
  assumes "distinct (map fst kvs)"
  shows "map_of (sort_key fst kvs) = map_of kvs"
proof -
  have "distinct (map fst (sort_key fst kvs))"
    using assms by (simp add: distinct_map inj_on_def)
  then show ?thesis using assms by (simp add: map_of_inject_set)
qed

lemma map_of_map_snd: "map_of (map (\<lambda>kv. (fst kv, f (snd kv))) kvs) k = map_option f (map_of kvs k)"
  by (induction kvs) auto

lemma normalizeJson_obj:
  assumes "normalizeJson (JObj a) = normalizeJson (JObj b)" and "distinct (map fst a)" and "distinct (map fst b)"
  shows "map_option normalizeJson (map_of a k) = map_option normalizeJson (map_of b k)"
proof -
  have "map_of (map (\<lambda>kv. (fst kv, normalizeJson (snd kv))) (sort_key fst a)) k
      = map_of (map (\<lambda>kv. (fst kv, normalizeJson (snd kv))) (sort_key fst b)) k"
    using assms(1) by simp
  then show ?thesis unfolding map_of_map_snd map_of_sort_key [OF assms(2)] map_of_sort_key [OF assms(3)] .
qed

lemma scope_string_inject [simp]: "scope_string a = scope_string b \<longleftrightarrow> a = b"
  by (cases a; cases b) (simp_all add: scope_string_def)

lemma destination_string_inject [simp]: "destination_string a = destination_string b \<longleftrightarrow> a = b"
  by (cases a; cases b) (simp_all add: destination_string_def)

lemma map_of_opt_prop: "map_of (opt_prop k f v @ r) x = (if x = k \<and> v \<noteq> None then Some (f (the v)) else map_of r x)"
  by (auto simp: opt_prop_def split: option.splits)

lemma keys_opt_prop: "map fst (opt_prop k f v) = (if v = None then [] else [k])"
  by (auto simp: opt_prop_def split: option.splits)

lemma money_json_inject: "normalizeJson (money_json m) = normalizeJson (money_json n) \<Longrightarrow> m = n"
  by (simp add: money_json_def)

lemma factRef_json_inject: "normalizeJson (factRef_json f) = normalizeJson (factRef_json g) \<Longrightarrow> f = g"
  using normalizeJson_obj [of "[(''factId'', JStr (factId f)), (''factType'', JStr (factType f)),
     (''sourceVersion'', JStr (sourceVersion f)), (''observedAt'', JStr (observedAt f))]"
     "[(''factId'', JStr (factId g)), (''factType'', JStr (factType g)),
     (''sourceVersion'', JStr (sourceVersion g)), (''observedAt'', JStr (observedAt g))]"]
  by (simp add: factRef_json_def)

lemma map_option_inject_on:
  "(\<And>x y. f x = f y \<Longrightarrow> x = y) \<Longrightarrow> map_option f a = map_option f b \<Longrightarrow> a = b"
  by (cases a; cases b) auto

lemma request_json_inject:
  assumes "normalizeJson (request_json a) = normalizeJson (request_json b)"
  shows "a = b"
proof -
  have d: "distinct (map fst (kvs @ opt_prop ''requestedAmount'' money_json v))"
    if "map fst kvs = [''proposalId'', ''orderId'', ''reasonCode'', ''scope'', ''itemIds'']" for kvs v
    using that by (simp add: keys_opt_prop)
  note n = normalizeJson_obj [OF assms [unfolded request_json_def] d d, simplified map_append]
  have money: "map_option (\<lambda>m. normalizeJson (money_json m)) (req_requestedAmount a)
      = map_option (\<lambda>m. normalizeJson (money_json m)) (req_requestedAmount b)"
    using n [of "''requestedAmount''"]
    by (cases "req_requestedAmount a"; cases "req_requestedAmount b") (simp_all add: opt_prop_def)
  have "req_requestedAmount a = req_requestedAmount b"
    by (rule map_option_inject_on [OF money_json_inject money])
  moreover have "req_itemIds a = req_itemIds b"
  proof -
    have "map normalizeJson (map JStr (req_itemIds a)) = map normalizeJson (map JStr (req_itemIds b))"
      using n [of "''itemIds''"] by simp
    then show ?thesis by (simp add: o_def inj_map_eq_map inj_def)
  qed
  ultimately show ?thesis
    using n [of "''proposalId''"] n [of "''orderId''"] n [of "''reasonCode''"] n [of "''scope''"]
    by simp
qed

lemma facts_json_inject:
  assumes "normalizeJson (facts_json a) = normalizeJson (facts_json b)"
  shows "a = b"
proof -
  note n = normalizeJson_obj [OF assms [unfolded facts_json_def]]
  have d: "distinct (map fst (opt_prop ''customerVerified'' f1 v1 @ opt_prop ''transactionRefundable'' f2 v2
     @ opt_prop ''itemSelectionValid'' f3 v3 @ opt_prop ''priorRefundCount'' f4 v4
     @ opt_prop ''refundableAmount'' f5 v5 @ opt_prop ''refundDestination'' f6 v6))" for f1 f2 f3 f4 f5 f6 v1 v2 v3 v4 v5 v6
    by (simp add: keys_opt_prop)
  have e: "map_of (opt_prop k f v) x = (if x = k then map_option f v else None)" for k f v x
    by (auto simp: opt_prop_def split: option.splits)
  have "customerVerified a = customerVerified b" using n [OF d d, of "''customerVerified''"]
    by (cases "customerVerified a"; cases "customerVerified b") (simp_all add: map_of_opt_prop e del: map_of_append)
  moreover have "transactionRefundable a = transactionRefundable b" using n [OF d d, of "''transactionRefundable''"]
    by (cases "transactionRefundable a"; cases "transactionRefundable b") (simp_all add: map_of_opt_prop e del: map_of_append)
  moreover have "itemSelectionValid a = itemSelectionValid b" using n [OF d d, of "''itemSelectionValid''"]
    by (cases "itemSelectionValid a"; cases "itemSelectionValid b") (simp_all add: map_of_opt_prop e del: map_of_append)
  moreover have "priorRefundCount a = priorRefundCount b" using n [OF d d, of "''priorRefundCount''"]
    by (cases "priorRefundCount a"; cases "priorRefundCount b") (simp_all add: map_of_opt_prop e del: map_of_append)
  moreover have "refundableAmount a = refundableAmount b" using n [OF d d, of "''refundableAmount''"]
    by (cases "refundableAmount a"; cases "refundableAmount b") (simp_all add: map_of_opt_prop e money_json_inject del: map_of_append)
  moreover have "refundDestination a = refundDestination b" using n [OF d d, of "''refundDestination''"]
    by (cases "refundDestination a"; cases "refundDestination b") (simp_all add: map_of_opt_prop e del: map_of_append)
  ultimately show ?thesis by simp
qed

lemma input_json_inject:
  assumes "normalizeJson (input_json a) = normalizeJson (input_json b)"
  shows "a = b"
proof -
  note n = normalizeJson_obj [OF assms [unfolded input_json_def]]
  have "in_request a = in_request b" using n [of "''request''"] by (simp add: request_json_inject)
  moreover have "in_facts a = in_facts b" using n [of "''facts''"] by (simp add: facts_json_inject)
  moreover have "in_factRefs a = in_factRefs b"
  proof -
    have "map (\<lambda>f. normalizeJson (factRef_json f)) (in_factRefs a) = map (\<lambda>f. normalizeJson (factRef_json f)) (in_factRefs b)"
      using n [of "''factRefs''"] by (simp add: o_def)
    from map_injective [OF this] show ?thesis by (auto simp: inj_def dest: factRef_json_inject)
  qed
  ultimately show ?thesis using n [of "''policyVersion''"] by simp
qed

text \<open>
  What the hash of a decision binds: two decisions with the same \<^verbatim>\<open>inputFactsHash\<close> come from
  the same facts, request and pinned release (up to the order of the fact references), unless
  two different texts with the same SHA-256 digest are at hand.
\<close>

theorem inputFactsHash_binds:
  assumes "evaluateRefundPolicy sha a release context = Inr d"
    and "evaluateRefundPolicy sha b release' context' = Inr d'"
    and "inputFactsHash d = inputFactsHash d'"
  shows "a\<lparr>in_factRefs := sort_key factId (in_factRefs a)\<rparr> = b\<lparr>in_factRefs := sort_key factId (in_factRefs b)\<rparr>
    \<or> (\<exists>x y. x \<noteq> y \<and> sha x = sha y)"
proof -
  let ?a = "a\<lparr>in_factRefs := sort_key factId (in_factRefs a)\<rparr>" and ?b = "b\<lparr>in_factRefs := sort_key factId (in_factRefs b)\<rparr>"
  from assms(1) have "hashPolicyInput sha ?a = Inr (inputFactsHash d)" by (rule evaluateRefundPolicy_Inr)
  then obtain s where s: "canonicalizeJson (input_json ?a) = Inr s" "inputFactsHash d = ''sha256:'' @ sha s"
    by (auto simp: hashPolicyInput_def bindE_eq_Inr)
  from assms(2) have "hashPolicyInput sha ?b = Inr (inputFactsHash d')" by (rule evaluateRefundPolicy_Inr)
  then obtain t where t: "canonicalizeJson (input_json ?b) = Inr t" "inputFactsHash d' = ''sha256:'' @ sha t"
    by (auto simp: hashPolicyInput_def bindE_eq_Inr)
  show ?thesis
  proof (cases "s = t")
    case True
    then show ?thesis using canonicalizeJson_inject [OF s(1)] t(1) input_json_inject by blast
  next
    case False
    moreover have "sha s = sha t" using s(2) t(2) assms(3) by simp
    ultimately show ?thesis by blast
  qed
qed

section \<open>Witnesses\<close>

definition usd :: "int \<Rightarrow> Money" where
  "usd n = \<lparr>amountMinor = n, currency = ''USD''\<rparr>"

definition sample_refs :: "FactRef list" where
  "sample_refs =
     [\<lparr>factId = ''f2'', factType = ''REFUND_CONTEXT'', sourceVersion = ''v1'', observedAt = ''2026-01-01T00:00:00.000Z''\<rparr>,
      \<lparr>factId = ''f1'', factType = ''NOTE'', sourceVersion = ''v1'', observedAt = ''2026-01-01T00:00:00.000Z''\<rparr>]"

definition sample_input :: RefundPolicyInput where
  "sample_input = \<lparr>in_policyVersion = ''refund-policy-v1'',
     in_request = \<lparr>req_proposalId = ''p1'', req_orderId = ''o1'', req_reasonCode = ''DEFECTIVE'', req_scope = FULL_ORDER,
       req_itemIds = [], req_requestedAmount = Some (usd 12000)\<rparr>,
     in_facts = \<lparr>customerVerified = Some True, transactionRefundable = Some True, itemSelectionValid = Some True,
       priorRefundCount = Some 0, refundableAmount = Some (usd 20000),
       refundDestination = Some ORIGINAL_PAYMENT_METHOD\<rparr>,
     in_factRefs = sample_refs\<rparr>"

definition sample_context :: PolicyDecisionContext where
  "sample_context = \<lparr>ctx_decisionId = ''d1'', ctx_decidedAt = iso_string 1767225600000\<rparr>"

definition sample_sha :: "string \<Rightarrow> string" where
  "sample_sha s = s"

lemma sample_facts:
  "release_valid REFUND_POLICY_V1" "1 \<le> elevatedRiskPriorRefundCount REFUND_POLICY_V1"
  "in_policyVersion sample_input = policyVersion REFUND_POLICY_V1" "input_numbers_ok sample_input"
  "date_parse (ctx_decidedAt sample_context) = Some 1767225600000"
  "\<bar>1767225600000 + decisionValiditySeconds REFUND_POLICY_V1 * 1000\<bar> \<le> MAX_TIME"
  by (code_simp, code_simp, code_simp, code_simp)
     (simp_all add: sample_context_def date_parse_iso_string MAX_TIME_def REFUND_POLICY_V1_def)

lemma sample_amount_facts:
  "in_policyVersion (with_amount 500 sample_input) = policyVersion REFUND_POLICY_V1"
  "input_numbers_ok (with_amount 500 sample_input)"
  "eligible sample_input REFUND_POLICY_V1"
  by code_simp+

lemma sample_decides: "\<exists>d. evaluateRefundPolicy sample_sha sample_input REFUND_POLICY_V1 sample_context = Inr d"
  by (rule evaluateRefundPolicy_returns [OF sample_facts])

theorem evaluateRefundPolicy_effect_witness:
  "\<exists>d. evaluateRefundPolicy sample_sha sample_input REFUND_POLICY_V1 sample_context = Inr d
    \<and> effect d = APPROVAL_REQUIRED"
proof -
  obtain d where d: "evaluateRefundPolicy sample_sha sample_input REFUND_POLICY_V1 sample_context = Inr d"
    using sample_decides by blast
  have "policy_effect sample_input REFUND_POLICY_V1 = APPROVAL_REQUIRED" by code_simp
  with evaluateRefundPolicy_effect [OF d] sample_amount_facts(3) d show ?thesis by simp
qed

theorem evaluateRefundPolicy_total_witness:
  "\<exists>d. evaluateRefundPolicy sample_sha sample_input REFUND_POLICY_V1 sample_context = Inr d
    \<and> date_parse (validUntil d) = Some 1767226500000"
  using evaluateRefundPolicy_total [OF sample_facts] by (auto simp: REFUND_POLICY_V1_def)

theorem evaluateRefundPolicy_monotone_witness:
  "\<exists>d d'. evaluateRefundPolicy sample_sha sample_input REFUND_POLICY_V1 sample_context = Inr d
    \<and> evaluateRefundPolicy sample_sha (with_amount 500 sample_input) REFUND_POLICY_V1 sample_context = Inr d'
    \<and> severity (effect d') \<le> severity (effect d)"
proof -
  obtain d where d: "evaluateRefundPolicy sample_sha sample_input REFUND_POLICY_V1 sample_context = Inr d"
    using sample_decides by blast
  obtain d' where d': "evaluateRefundPolicy sample_sha (with_amount 500 sample_input) REFUND_POLICY_V1 sample_context = Inr d'"
    using evaluateRefundPolicy_returns [OF sample_facts(1,2) sample_amount_facts(1,2) sample_facts(5,6)] by blast
  have "requested_minor sample_input = 12000" by code_simp
  then show ?thesis
    using evaluateRefundPolicy_monotone [OF d sample_amount_facts(3) _ _ d'] d d' by auto
qed

theorem evaluateRefundPolicy_refs_order_witness:
  "evaluateRefundPolicy sample_sha (sample_input\<lparr>in_factRefs := rev sample_refs\<rparr>) REFUND_POLICY_V1 sample_context
    = evaluateRefundPolicy sample_sha sample_input REFUND_POLICY_V1 sample_context"
proof -
  have "in_factRefs sample_input = sample_refs" by (simp add: sample_input_def)
  moreover have "distinct (map factId sample_refs)" by code_simp
  ultimately show ?thesis by (intro evaluateRefundPolicy_refs_order) simp_all
qed

theorem inputFactsHash_binds_witness:
  "\<exists>d d'. evaluateRefundPolicy sample_sha sample_input REFUND_POLICY_V1 sample_context = Inr d
    \<and> evaluateRefundPolicy sample_sha (with_amount 500 sample_input) REFUND_POLICY_V1 sample_context = Inr d'
    \<and> inputFactsHash d \<noteq> inputFactsHash d'"
proof -
  obtain d where d: "evaluateRefundPolicy sample_sha sample_input REFUND_POLICY_V1 sample_context = Inr d"
    using sample_decides by blast
  obtain d' where d': "evaluateRefundPolicy sample_sha (with_amount 500 sample_input) REFUND_POLICY_V1 sample_context = Inr d'"
    using evaluateRefundPolicy_returns [OF sample_facts(1,2) sample_amount_facts(1,2) sample_facts(5,6)] by blast
  have "in_request sample_input \<noteq> in_request (with_amount 500 sample_input)"
    by (simp add: sample_input_def with_amount_def usd_def)
  then have "sample_input\<lparr>in_factRefs := x\<rparr> \<noteq> (with_amount 500 sample_input)\<lparr>in_factRefs := y\<rparr>" for x y
    by (metis RefundPolicyInput.select_convs(2) RefundPolicyInput.surjective RefundPolicyInput.update_convs(4))
  with inputFactsHash_binds [OF d d'] have "inputFactsHash d \<noteq> inputFactsHash d'" by (auto simp: sample_sha_def)
  with d d' show ?thesis by blast
qed

end
