(* ===== verification/Zod.thy ===== *)
theory Zod
  imports Policy_Catalog
begin

text \<open>
  The pieces of the \<^verbatim>\<open>zod\<close> (version 4) schemas with which the services validate request bodies,
  responses and token claims. A schema reads a JSON value and gives \<^const>\<open>None\<close> where \<^verbatim>\<open>parse\<close>
  throws. \<^verbatim>\<open>.int()\<close> accepts safe integers only; \<^verbatim>\<open>.strict()\<close> refuses unknown keys.
\<close>

section \<open>Schemas\<close>

definition z_string_min1 :: "json \<Rightarrow> string option" where
  "z_string_min1 v = (case v of JStr s \<Rightarrow> if s = [] then None else Some s | _ \<Rightarrow> None)"

definition z_enum :: "(string \<times> 'a) list \<Rightarrow> json \<Rightarrow> 'a option" where
  "z_enum table v = (case v of JStr s \<Rightarrow> map_of table s | _ \<Rightarrow> None)"

definition z_bool :: "json \<Rightarrow> bool option" where
  "z_bool v = (case v of JBool b \<Rightarrow> Some b | _ \<Rightarrow> None)"

definition z_nonneg_safe :: "json \<Rightarrow> int option" where
  "z_nonneg_safe v = (case v of JNum n \<Rightarrow> if 0 \<le> n \<and> n \<le> MAX_SAFE_INTEGER then Some n else None | _ \<Rightarrow> None)"

fun z_all :: "('a \<Rightarrow> 'b option) \<Rightarrow> 'a list \<Rightarrow> 'b list option" where
  "z_all f [] = Some []"
| "z_all f (x # xs) = Option.bind (f x) (\<lambda>y. Option.bind (z_all f xs) (\<lambda>ys. Some (y # ys)))"

definition z_array :: "(json \<Rightarrow> 'b option) \<Rightarrow> json \<Rightarrow> 'b list option" where
  "z_array f v = (case v of JArr vs \<Rightarrow> z_all f vs | _ \<Rightarrow> None)"

definition z_optional :: "(json \<Rightarrow> 'b option) \<Rightarrow> json \<Rightarrow> 'b option option" where
  "z_optional f v = (case v of JUndefined \<Rightarrow> Some None | _ \<Rightarrow> map_option Some (f v))"

definition z_regex :: "(string \<Rightarrow> bool) \<Rightarrow> json \<Rightarrow> string option" where
  "z_regex p v = (case v of JStr s \<Rightarrow> if p s then Some s else None | _ \<Rightarrow> None)"

definition z_strict :: "string list \<Rightarrow> json \<Rightarrow> bool" where
  "z_strict ks v \<longleftrightarrow> isRecord v \<and> list_all (\<lambda>k. k \<in> set ks) (object_keys v)"

text \<open>\<^verbatim>\<open>z.literal(s)\<close>, \<^verbatim>\<open>z.number().int()\<close> with a lower bound, and \<^verbatim>\<open>z.string().trim().min(1).max(n)\<close>.\<close>

definition z_literal :: "string \<Rightarrow> json \<Rightarrow> unit option" where
  "z_literal s v = (if v = JStr s then Some () else None)"

definition z_int_min :: "int \<Rightarrow> json \<Rightarrow> int option" where
  "z_int_min lo v = (case v of JNum n \<Rightarrow> if lo \<le> n \<and> isSafeInteger n then Some n else None | _ \<Rightarrow> None)"

definition z_trimmed :: "nat \<Rightarrow> json \<Rightarrow> string option" where
  "z_trimmed n v = (case v of JStr s \<Rightarrow> (let t = trim s in if 1 \<le> length t \<and> length t \<le> n then Some t else None) | _ \<Rightarrow> None)"

definition z_string_max :: "nat \<Rightarrow> json \<Rightarrow> string option" where
  "z_string_max n v = z_regex (\<lambda>s. 1 \<le> length s \<and> length s \<le> n) v"

definition z_string :: "json \<Rightarrow> string option" where
  "z_string v = z_regex (\<lambda>_. True) v"

text \<open>The identifiers of the platform, at most 160 characters.\<close>

definition opaqueId :: "json \<Rightarrow> string option" where
  "opaqueId v = z_regex (opaque_id_upto 160) v"

section \<open>Laws\<close>

lemma z_literal_Some [simp]: "z_literal s (JStr s) = Some ()" "z_literal s v = Some u \<longleftrightarrow> v = JStr s"
  by (simp_all add: z_literal_def)

lemma z_regex_JStr [simp]: "z_regex p (JStr s) = (if p s then Some s else None)"
  by (simp add: z_regex_def)

lemma opaqueId_JStr [simp]: "opaque_id_upto 160 s \<Longrightarrow> opaqueId (JStr s) = Some s"
  by (simp add: opaqueId_def)

lemma z_string_max_JStr [simp]: "s \<noteq> [] \<Longrightarrow> length s \<le> n \<Longrightarrow> z_string_max n (JStr s) = Some s"
  by (simp add: z_string_max_def Suc_le_eq)

lemma z_string_JStr [simp]: "z_string (JStr s) = Some s"
  by (simp add: z_string_def)

lemma z_int_min_JNum [simp]: "lo \<le> n \<Longrightarrow> isSafeInteger n \<Longrightarrow> z_int_min lo (JNum n) = Some n"
  by (simp add: z_int_min_def)

lemma z_int_min_SomeD: "z_int_min lo v = Some n \<Longrightarrow> v = JNum n \<and> lo \<le> n \<and> isSafeInteger n"
  by (auto simp: z_int_min_def split: json.splits if_split_asm)

lemma z_trimmed_SomeD: "z_trimmed n v = Some s \<Longrightarrow> s \<noteq> [] \<and> length s \<le> n"
  by (auto simp: z_trimmed_def Let_def split: json.splits if_split_asm)

lemma z_regex_SomeD: "z_regex p v = Some s \<Longrightarrow> p s"
  by (auto simp: z_regex_def split: json.splits if_split_asm)

lemma z_optional_SomeD: "z_optional f v = Some (Some x) \<Longrightarrow> f v = Some x"
  by (auto simp: z_optional_def split: json.splits)

end
