(* ===== verification/Refund_Offer.thy ===== *)
theory Refund_Offer
  imports Refund_Policy Zod
begin

text \<open>
  From a refund proposal and observed facts to a policy input and to the customer's offer:
  \<^verbatim>\<open>refund-policy-input.ts\<close>, \<^verbatim>\<open>refund-preview.ts\<close> and the response boundary
  \<^verbatim>\<open>parseEvidenceSnapshot\<close> of \<^verbatim>\<open>refund-evidence-client.ts\<close>, all under
  \<^verbatim>\<open>src/apps/services/workflow-workers/src/\<close>. The literal \<^verbatim>\<open>journeyType: "REFUND"\<close> has no field.
  The check \<^verbatim>\<open>z.uuid()\<close> of the schema library is the argument \<^verbatim>\<open>is_uuid\<close>.
\<close>

section \<open>Data\<close>

record RefundIntent =
  orderId :: string
  reasonCode :: string
  scope :: Scope
  itemIds :: "string list"
  requestedAmount :: "Money option"

record RefundProposal =
  proposalId :: string
  intent :: RefundIntent

record ContextSource =
  provider :: string
  src_orderId :: string
  factsVersion :: string

record Selection =
  sel_scope :: Scope
  sel_itemIds :: "string list"

record ContextFacts =
  ctx_customerVerified :: bool
  ctx_transactionRefundable :: bool
  ctx_itemSelectionValid :: bool
  ctx_priorRefundCount :: int
  ctx_refundableAmount :: Money
  ctx_refundDestination :: RefundDestination

record RefundContext =
  observationId :: string
  ctx_observedAt :: string
  ctx_source :: ContextSource
  selection :: Selection
  ctx_facts :: ContextFacts

record AcceptedDamageEvidence =
  acc_evidenceVersion :: int
  assessmentId :: string
  manifestHash :: string
  acc_observedAt :: string

section \<open>The policy input\<close>

text \<open>\<^verbatim>\<open>every\<close> over the sorted left list against the sorted right one, after the length check.\<close>

definition sameItemIds :: "string list \<Rightarrow> string list \<Rightarrow> bool" where
  "sameItemIds leftItemIds rightItemIds \<longleftrightarrow>
     length leftItemIds = length rightItemIds
     \<and> list_all (\<lambda>(l, r). l = r) (zip (sort leftItemIds) (sort rightItemIds))"

definition assertMatchingOrder :: "RefundProposal \<Rightarrow> RefundContext \<Rightarrow> unit result" where
  "assertMatchingOrder proposal refundContext =
     throw_if (orderId (intent proposal) \<noteq> src_orderId (ctx_source refundContext)) (Error ''REFUND_CONTEXT_ORDER_MISMATCH'')"

definition assertMatchingSelection :: "RefundProposal \<Rightarrow> RefundContext \<Rightarrow> unit result" where
  "assertMatchingSelection proposal refundContext =
     throw_if (scope (intent proposal) \<noteq> sel_scope (selection refundContext)
        \<or> \<not> sameItemIds (itemIds (intent proposal)) (sel_itemIds (selection refundContext)))
       (Error ''REFUND_CONTEXT_SELECTION_MISMATCH'')"

definition createRefundPolicyInput ::
  "RefundProposal \<Rightarrow> RefundContext \<Rightarrow> string \<Rightarrow> AcceptedDamageEvidence option \<Rightarrow> RefundPolicyInput result" where
  "createRefundPolicyInput proposal refundContext version damageEvidence =
     bindE (assertMatchingOrder proposal refundContext) (\<lambda>_.
     bindE (assertMatchingSelection proposal refundContext) (\<lambda>_.
     Inr \<lparr> in_policyVersion = version,
           in_request = \<lparr> req_proposalId = proposalId proposal, req_orderId = orderId (intent proposal),
             req_reasonCode = reasonCode (intent proposal), req_scope = scope (intent proposal),
             req_itemIds = itemIds (intent proposal), req_requestedAmount = requestedAmount (intent proposal) \<rparr>,
           in_facts = (let facts = ctx_facts refundContext in
             \<lparr> customerVerified = Some (ctx_customerVerified facts),
               transactionRefundable = Some (ctx_transactionRefundable facts),
               itemSelectionValid = Some (ctx_itemSelectionValid facts),
               priorRefundCount = Some (ctx_priorRefundCount facts),
               refundableAmount = Some (ctx_refundableAmount facts),
               refundDestination = Some (ctx_refundDestination facts) \<rparr>),
           in_factRefs =
             \<lparr> factId = observationId refundContext, factType = ''REFUND_CONTEXT'',
               sourceVersion = factsVersion (ctx_source refundContext), observedAt = ctx_observedAt refundContext \<rparr>
             # (case damageEvidence of None \<Rightarrow> [] | Some e \<Rightarrow>
                 [\<lparr> factId = assessmentId e, factType = ''ACCEPTED_DAMAGE_EVIDENCE'',
                    sourceVersion = manifestHash e, observedAt = acc_observedAt e \<rparr>]) \<rparr>))"

section \<open>The offer\<close>

record RefundPreview =
  previewId :: string
  createdAt :: string
  pre_proposalId :: string
  pre_orderId :: string
  pre_selection :: Selection
  pre_requestedAmount :: Money
  pre_refundDestination :: RefundDestination
  pre_policyVersion :: string
  pre_decisionId :: string
  pre_inputFactsHash :: string
  pre_validUntil :: string

text \<open>The literals \<^verbatim>\<open>kind\<close> and \<^verbatim>\<open>decision\<close> of the authorization are kept: the code compares them.\<close>

record RefundPreviewAuthorization =
  auth_kind :: string
  auth_caseId :: string
  auth_decision :: string

definition createRefundPreview ::
  "RefundProposal \<Rightarrow> RefundContext \<Rightarrow> RefundPolicyDecision \<Rightarrow> RefundPreviewAuthorization option \<Rightarrow> string \<Rightarrow> string
    \<Rightarrow> RefundPreview result" where
  "createRefundPreview proposal refundContext decision authorization newPreviewId newCreatedAt =
     (let policyAllowsPreview = (effect decision = ALLOW \<or> effect decision = APPROVAL_REQUIRED);
          exceptionalApprovalAllowsPreview = (effect decision = TAKEOVER_REQUIRED
            \<and> (case authorization of None \<Rightarrow> False | Some a \<Rightarrow>
                 auth_kind a = ''HUMAN_EXCEPTIONAL_APPROVAL'' \<and> auth_decision a = ''APPROVE_EXCEPTIONAL_REFUND''
                 \<and> auth_caseId a \<noteq> []))
      in case requestedAmount (intent proposal) of
           None \<Rightarrow> Inl (Error ''REFUND_PREVIEW_REQUIRES_ALLOWED_DECISION'')
         | Some amount \<Rightarrow>
             if \<not> policyAllowsPreview \<and> \<not> exceptionalApprovalAllowsPreview
             then Inl (Error ''REFUND_PREVIEW_REQUIRES_ALLOWED_DECISION'')
             else if orderId (intent proposal) \<noteq> src_orderId (ctx_source refundContext)
             then Inl (Error ''REFUND_PREVIEW_ORDER_MISMATCH'')
             else Inr \<lparr> previewId = newPreviewId, createdAt = newCreatedAt, pre_proposalId = proposalId proposal,
               pre_orderId = orderId (intent proposal), pre_selection = selection refundContext,
               pre_requestedAmount = amount, pre_refundDestination = ctx_refundDestination (ctx_facts refundContext),
               pre_policyVersion = dec_policyVersion decision, pre_decisionId = decisionId decision,
               pre_inputFactsHash = inputFactsHash decision, pre_validUntil = validUntil decision \<rparr>)"

section \<open>The evidence snapshot\<close>

datatype Assessment = UNREVIEWED | ACCEPTED | MORE_REQUIRED

datatype TechnicalStatus = PROCESSING | READY | TECH_REJECTED

record EvidenceSnapshot =
  snap_caseId :: string
  assessment :: Assessment
  evidenceVersion :: int
  readyCount :: nat
  processingCount :: nat
  accepted_evidence :: "AcceptedDamageEvidence option"

record SnapshotValue =
  sv_case_id :: string
  sv_evidence_version :: int
  sv_assessment :: Assessment
  sv_can_upload :: bool
  sv_attachments :: "(string \<times> TechnicalStatus) list"
  sv_order_id :: string
  sv_proposal_id :: string
  sv_selected_item_ids :: "string list"
  sv_policy_version :: string
  sv_accepted_manifest_hash :: "string option"
  sv_assessment_id :: "string option"

definition assessment_table :: "(string \<times> Assessment) list" where
  "assessment_table = [(''UNREVIEWED'', UNREVIEWED), (''ACCEPTED'', ACCEPTED), (''MORE_REQUIRED'', MORE_REQUIRED)]"

definition technical_table :: "(string \<times> TechnicalStatus) list" where
  "technical_table = [(''PROCESSING'', PROCESSING), (''READY'', READY), (''REJECTED'', TECH_REJECTED)]"

definition case_status_table :: "(string \<times> unit) list" where
  "case_status_table = [(''OPEN'', ()), (''CLAIMED'', ()), (''DECISION_PENDING'', ()), (''CLOSED'', ())]"

definition attachment_schema :: "(string \<Rightarrow> bool) \<Rightarrow> json \<Rightarrow> (string \<times> TechnicalStatus) option" where
  "attachment_schema is_uuid v =
     (if \<not> isRecord v then None else
      Option.bind (z_regex is_uuid (get_prop ''evidence_id'' v)) (\<lambda>i.
      Option.bind (z_enum technical_table (get_prop ''technical_status'' v)) (\<lambda>s. Some (i, s))))"

definition snapshotSchema :: "(string \<Rightarrow> bool) \<Rightarrow> json \<Rightarrow> SnapshotValue option" where
  "snapshotSchema is_uuid data =
     (let evidence = get_prop ''evidence'' data; binding = get_prop ''binding'' data
      in if \<not> z_strict [''case_id'', ''case_status'', ''evidence'', ''binding'', ''accepted_manifest_hash'', ''assessment_id''] data
            \<or> \<not> isRecord evidence
            \<or> \<not> z_strict [''order_id'', ''proposal_id'', ''selected_item_ids'', ''policy_version''] binding
            \<or> get_prop ''version'' evidence \<noteq> JStr ''v1'' \<or> get_prop ''requirement'' evidence \<noteq> JStr ''DAMAGE_PHOTO''
         then None else
         Option.bind (z_string_min1 (get_prop ''case_id'' data)) (\<lambda>caseId.
         Option.bind (z_enum case_status_table (get_prop ''case_status'' data)) (\<lambda>_.
         Option.bind (z_nonneg_safe (get_prop ''evidence_version'' evidence)) (\<lambda>ver.
         Option.bind (z_enum assessment_table (get_prop ''assessment'' evidence)) (\<lambda>a.
         Option.bind (z_bool (get_prop ''can_upload'' evidence)) (\<lambda>up.
         Option.bind (z_array (attachment_schema is_uuid) (get_prop ''attachments'' evidence)) (\<lambda>files.
         if length files > 5 then None else
         Option.bind (z_string_min1 (get_prop ''order_id'' binding)) (\<lambda>oid.
         Option.bind (z_string_min1 (get_prop ''proposal_id'' binding)) (\<lambda>pid.
         Option.bind (z_array z_string_min1 (get_prop ''selected_item_ids'' binding)) (\<lambda>items.
         Option.bind (z_string_min1 (get_prop ''policy_version'' binding)) (\<lambda>pv.
         Option.bind (z_optional (z_regex sha256_ref) (get_prop ''accepted_manifest_hash'' data)) (\<lambda>mh.
         Option.bind (z_optional (z_regex is_uuid) (get_prop ''assessment_id'' data)) (\<lambda>aid.
         Some \<lparr> sv_case_id = caseId, sv_evidence_version = ver, sv_assessment = a, sv_can_upload = up,
           sv_attachments = files, sv_order_id = oid, sv_proposal_id = pid, sv_selected_item_ids = items,
           sv_policy_version = pv, sv_accepted_manifest_hash = mh, sv_assessment_id = aid \<rparr>)))))))))))))"

text \<open>
  \<^verbatim>\<open>parseEvidenceSnapshot\<close>: the scope of the answer is checked against the proposal and the pinned
  policy version. \<^verbatim>\<open>JSON.stringify\<close> of two sorted arrays of strings is equal exactly when the
  arrays are, so the comparison is on the sorted lists.
\<close>

definition parseEvidenceSnapshot ::
  "(string \<Rightarrow> bool) \<Rightarrow> json \<Rightarrow> RefundProposal \<Rightarrow> string \<Rightarrow> int \<Rightarrow> EvidenceSnapshot result" where
  "parseEvidenceSnapshot is_uuid data proposal version now =
     (case snapshotSchema is_uuid data of
        None \<Rightarrow> Inl ZodError
      | Some value \<Rightarrow>
         let expected = intent proposal; files = sv_attachments value; accepted = (sv_assessment value = ACCEPTED)
         in if sv_order_id value \<noteq> orderId expected \<or> sv_proposal_id value \<noteq> proposalId proposal
               \<or> sv_policy_version value \<noteq> version
               \<or> sort (sv_selected_item_ids value) \<noteq> sort (itemIds expected)
            then Inl (Error ''REFUND_EVIDENCE_BINDING_MISMATCH'')
            else if \<not> distinct (map fst files) then Inl (Error ''DUPLICATE_EVIDENCE_ID'')
            else if accepted \<and> (sv_can_upload value \<or> sv_evidence_version value < 1 \<or> files = []
               \<or> list_ex (\<lambda>f. snd f \<noteq> READY) files
               \<or> sv_accepted_manifest_hash value = None \<or> sv_assessment_id value = None)
            then Inl (Error ''INVALID_ACCEPTED_EVIDENCE'')
            else bindE (if accepted
                then bindE (toISOString now) (\<lambda>at. Inr (Some
                  \<lparr> acc_evidenceVersion = sv_evidence_version value, assessmentId = the (sv_assessment_id value),
                    manifestHash = the (sv_accepted_manifest_hash value), acc_observedAt = at \<rparr>))
                else Inr None) (\<lambda>acc.
              Inr \<lparr> snap_caseId = sv_case_id value, assessment = sv_assessment value,
                evidenceVersion = sv_evidence_version value,
                readyCount = length (filter (\<lambda>f. snd f = READY) files),
                processingCount = length (filter (\<lambda>f. snd f = PROCESSING) files),
                accepted_evidence = acc \<rparr>))"

section \<open>Properties\<close>

lemma zip_all_eq: "length xs = length ys \<Longrightarrow> list_all (\<lambda>(l, r). l = r) (zip xs ys) \<longleftrightarrow> xs = ys"
  by (induction xs ys rule: list_induct2) auto

text \<open>The pairwise comparison of the sorted lists is equality of multisets.\<close>

lemma sameItemIds_iff: "sameItemIds xs ys \<longleftrightarrow> mset xs = mset ys"
  using zip_all_eq [of "sort xs" "sort ys"] sorted_distinct_mset_eq [of xs ys]
  by (auto simp: sameItemIds_def dest: mset_eq_length)

lemma createRefundPolicyInput_Inr:
  assumes "createRefundPolicyInput proposal ctx version ev = Inr input"
  shows "orderId (intent proposal) = src_orderId (ctx_source ctx)" and "scope (intent proposal) = sel_scope (selection ctx)"
    and "mset (itemIds (intent proposal)) = mset (sel_itemIds (selection ctx))"
    and "in_policyVersion input = version"
    and "req_requestedAmount (in_request input) = requestedAmount (intent proposal)"
    and "req_reasonCode (in_request input) = reasonCode (intent proposal)"
    and "refundableAmount (in_facts input) = Some (ctx_refundableAmount (ctx_facts ctx))"
    and "priorRefundCount (in_facts input) = Some (ctx_priorRefundCount (ctx_facts ctx))"
    and "transactionRefundable (in_facts input) = Some (ctx_transactionRefundable (ctx_facts ctx))"
    and "refundDestination (in_facts input) = Some (ctx_refundDestination (ctx_facts ctx))"
    and "ev = Some e \<Longrightarrow> \<exists>r \<in> set (in_factRefs input). factType r = ''ACCEPTED_DAMAGE_EVIDENCE'' \<and> sourceVersion r = manifestHash e"
    and "ev = None \<Longrightarrow> \<forall>r \<in> set (in_factRefs input). factType r = ''REFUND_CONTEXT''"
  using assms
  by (auto simp: createRefundPolicyInput_def bindE_eq_Inr assertMatchingOrder_def assertMatchingSelection_def
      throw_if_def sameItemIds_iff Let_def split: if_split_asm)

lemma createRefundPreview_Inr:
  assumes "createRefundPreview proposal ctx decision auth pid at = Inr p"
  shows "requestedAmount (intent proposal) = Some (pre_requestedAmount p)"
    and "effect decision \<in> {ALLOW, APPROVAL_REQUIRED, TAKEOVER_REQUIRED}"
    and "effect decision = TAKEOVER_REQUIRED \<Longrightarrow> auth \<noteq> None"
    and "pre_orderId p = src_orderId (ctx_source ctx)" and "pre_orderId p = orderId (intent proposal)"
    and "pre_validUntil p = validUntil decision" and "pre_inputFactsHash p = inputFactsHash decision"
    and "pre_decisionId p = decisionId decision" and "previewId p = pid" and "pre_proposalId p = proposalId proposal"
    and "pre_selection p = selection ctx"
  using assms by (auto simp: createRefundPreview_def Let_def split: option.splits if_split_asm)

lemma evaluate_eligible:
  assumes "evaluateRefundPolicy sha input release context = Inr d" and "effect d \<noteq> DENY" and "effect d \<noteq> NEEDS_FACTS"
  shows "eligible input release" and "effect d = policy_effect input release"
proof -
  from assms(1) obtain o: "policy_outcome input release = Inr (effect d, reasonCodes d, obligations d, missingFacts d)"
    by (rule evaluateRefundPolicy_Inr)
  from policy_outcome_not_eligible [OF o] assms(2,3) show e: "eligible input release" by blast
  from policy_outcome_eligible [OF e] o show "effect d = policy_effect input release" by auto
qed

text \<open>
  C15. What the customer is offered is covered by the facts it was decided on: when a preview is
  built from a proposal and a decision that the policy made on that proposal and on observed
  facts, its amount is the proposed one, positive, in the currency of the refundable balance and
  not above it, on the observed order; without a human authorization it is also in the release's
  currency and not above the release's approval limit.
\<close>

theorem createRefundPreview_bounded:
  assumes "createRefundPolicyInput proposal ctx version ev = Inr input"
    and "evaluateRefundPolicy sha input release context = Inr d"
    and "createRefundPreview proposal ctx' d auth pid at = Inr p"
  shows "requestedAmount (intent proposal) = Some (pre_requestedAmount p)
    \<and> 0 < amountMinor (pre_requestedAmount p)
    \<and> amountMinor (pre_requestedAmount p) \<le> amountMinor (ctx_refundableAmount (ctx_facts ctx))
    \<and> currency (pre_requestedAmount p) = currency (ctx_refundableAmount (ctx_facts ctx))
    \<and> pre_orderId p = src_orderId (ctx_source ctx)
    \<and> (auth = None \<longrightarrow> currency (pre_requestedAmount p) = supportedCurrency release
        \<and> amountMinor (pre_requestedAmount p) \<le> approvalMaximumMinor release)"
proof -
  note i = createRefundPolicyInput_Inr [OF assms(1)] and q = createRefundPreview_Inr [OF assms(3)]
  have e: "eligible input release" and p: "effect d = policy_effect input release"
    using evaluate_eligible [OF assms(2)] q(2) by auto
  have "auth = None \<Longrightarrow> within_approval_limits input release"
    using p q(3) by (auto simp: policy_effect_def split: if_split_asm)
  with e i q show ?thesis
    by (auto simp: eligible_def Let_def within_approval_limits_def requested_minor_def requested_currency_def)
qed

lemma snapshotSchema_hash:
  "snapshotSchema is_uuid data = Some v \<Longrightarrow> sv_accepted_manifest_hash v = Some h \<Longrightarrow> sha256_ref h"
  by (auto simp: snapshotSchema_def Let_def bind_eq_Some_conv split: if_split_asm dest!: z_optional_SomeD z_regex_SomeD)

lemma parseEvidenceSnapshot_accepted:
  assumes "parseEvidenceSnapshot is_uuid data proposal version now = Inr snap" and "accepted_evidence snap = Some e"
  shows "assessment snap = ACCEPTED" and "0 < readyCount snap" and "1 \<le> acc_evidenceVersion e"
    and "acc_evidenceVersion e = evidenceVersion snap" and "sha256_ref (manifestHash e)"
proof -
  from assms(1) obtain v where v: "snapshotSchema is_uuid data = Some v"
    by (auto simp: parseEvidenceSnapshot_def split: option.splits)
  from assms v show "assessment snap = ACCEPTED" "1 \<le> acc_evidenceVersion e" "acc_evidenceVersion e = evidenceVersion snap"
    by (auto simp: parseEvidenceSnapshot_def Let_def bindE_eq_Inr split: if_split_asm)
  from assms v obtain h where "sv_accepted_manifest_hash v = Some h" "manifestHash e = h"
    by (auto simp: parseEvidenceSnapshot_def Let_def bindE_eq_Inr split: if_split_asm)
  with snapshotSchema_hash [OF v] show "sha256_ref (manifestHash e)" by simp
  from assms v have "readyCount snap = length (filter (\<lambda>f. snd f = READY) (sv_attachments v))"
    "sv_attachments v \<noteq> []" "\<forall>f \<in> set (sv_attachments v). snd f = READY"
    by (auto simp: parseEvidenceSnapshot_def Let_def bindE_eq_Inr list_ex_iff split: if_split_asm)
  then show "0 < readyCount snap" by (cases "sv_attachments v") auto
qed

lemma policy_outcome_photo:
  assumes "policy_outcome input release = Inr (eff, reasons, obls, missing)" and "DAMAGE_PHOTO \<in> set missing"
  shows "damage_photo_missing input release"
proof (cases "findMissingFacts input = []")
  case False
  then have "missing = findMissingFacts input" using assms(1) by (simp add: policy_outcome_def Let_def)
  with assms(2) show ?thesis by (auto simp: findMissingFacts_def Let_def split: if_split_asm)
next
  case True
  with assms show ?thesis
    by (auto simp: policy_outcome_def Let_def bindE_eq_Inr split: if_split_asm option.splits)
qed

text \<open>
  C29. The damage photo is required and an accepted review suffices: under a release that requires
  the photo, a damage claim decided without accepted evidence is never allowed, sent to approval
  or to takeover, and a decision on an input built with the accepted evidence of a parsed snapshot
  does not miss \<^verbatim>\<open>DAMAGE_PHOTO\<close>.
\<close>

theorem damage_photo_required_and_sufficient:
  assumes "parseEvidenceSnapshot is_uuid data proposal version now = Inr snap"
    and "createRefundPolicyInput proposal ctx version (accepted_evidence snap) = Inr input"
    and "evaluateRefundPolicy sha input release context = Inr d"
    and "requireDamagePhoto release = Some True" and "reasonCode (intent proposal) = ''DAMAGED''"
  shows "if accepted_evidence snap = None then effect d \<in> {DENY, NEEDS_FACTS} else DAMAGE_PHOTO \<notin> set (missingFacts d)"
proof (cases "accepted_evidence snap")
  case None
  with createRefundPolicyInput_Inr(6,12) [OF assms(2)] assms(4,5) have "damage_photo_missing input release"
    by (auto simp: damage_photo_missing_def list_ex_iff accepted_evidence_ref_def)
  then have "\<not> eligible input release" by (auto simp: eligible_def Let_def)
  with evaluate_eligible(1) [OF assms(3)] None show ?thesis by auto
next
  case (Some e)
  from assms(3) obtain o: "policy_outcome input release = Inr (effect d, reasonCodes d, obligations d, missingFacts d)"
    by (rule evaluateRefundPolicy_Inr)
  have "\<not> damage_photo_missing input release"
    using createRefundPolicyInput_Inr(11) [OF assms(2) Some] parseEvidenceSnapshot_accepted(5) [OF assms(1) Some]
    by (auto simp: damage_photo_missing_def list_ex_iff accepted_evidence_ref_def)
  with policy_outcome_photo [OF o] Some show ?thesis by auto
qed

section \<open>Witnesses\<close>

definition sample_proposal :: RefundProposal where
  "sample_proposal = \<lparr>proposalId = ''p1'', intent = \<lparr>orderId = ''o1'', reasonCode = ''DAMAGED'', scope = FULL_ORDER,
     itemIds = [], requestedAmount = Some (usd 500)\<rparr>\<rparr>"

definition sample_refund_context :: RefundContext where
  "sample_refund_context = \<lparr>observationId = ''obs1'', ctx_observedAt = ''2026-01-01T00:00:00.000Z'',
     ctx_source = \<lparr>provider = ''vendure'', src_orderId = ''o1'', factsVersion = ''sha256:v1''\<rparr>,
     selection = \<lparr>sel_scope = FULL_ORDER, sel_itemIds = []\<rparr>,
     ctx_facts = \<lparr>ctx_customerVerified = True, ctx_transactionRefundable = True, ctx_itemSelectionValid = True,
       ctx_priorRefundCount = 0, ctx_refundableAmount = usd 2000, ctx_refundDestination = ORIGINAL_PAYMENT_METHOD\<rparr>\<rparr>"

definition sample_manifest :: string where
  "sample_manifest = ''sha256:'' @ replicate 64 (CHR ''a'')"

definition sample_snapshot_json :: json where
  "sample_snapshot_json = JObj [(''case_id'', JStr ''case1''), (''case_status'', JStr ''CLAIMED''),
     (''evidence'', JObj [(''version'', JStr ''v1''), (''requirement'', JStr ''DAMAGE_PHOTO''), (''evidence_version'', JNum 2),
        (''assessment'', JStr ''ACCEPTED''), (''can_upload'', JBool False),
        (''attachments'', JArr [JObj [(''evidence_id'', JStr ''e1''), (''technical_status'', JStr ''READY'')]])]),
     (''binding'', JObj [(''order_id'', JStr ''o1''), (''proposal_id'', JStr ''p1''), (''selected_item_ids'', JArr []),
        (''policy_version'', JStr ''refund-policy-v2'')]),
     (''accepted_manifest_hash'', JStr sample_manifest), (''assessment_id'', JStr ''a1'')]"

definition sample_accepted :: AcceptedDamageEvidence where
  "sample_accepted = \<lparr>acc_evidenceVersion = 2, assessmentId = ''a1'', manifestHash = sample_manifest,
     acc_observedAt = iso_string 1767225600000\<rparr>"

definition sample_snapshot :: EvidenceSnapshot where
  "sample_snapshot = \<lparr>snap_caseId = ''case1'', assessment = ACCEPTED, evidenceVersion = 2, readyCount = 1,
     processingCount = 0, accepted_evidence = Some sample_accepted\<rparr>"

lemma sample_snapshot_value:
  "snapshotSchema (\<lambda>s. s \<noteq> []) sample_snapshot_json =
     Some \<lparr> sv_case_id = ''case1'', sv_evidence_version = 2, sv_assessment = ACCEPTED, sv_can_upload = False,
       sv_attachments = [(''e1'', READY)], sv_order_id = ''o1'', sv_proposal_id = ''p1'', sv_selected_item_ids = [],
       sv_policy_version = ''refund-policy-v2'', sv_accepted_manifest_hash = Some sample_manifest, sv_assessment_id = Some ''a1'' \<rparr>"
  by code_simp

lemma sample_snapshot_parses:
  "parseEvidenceSnapshot (\<lambda>s. s \<noteq> []) sample_snapshot_json sample_proposal ''refund-policy-v2'' 1767225600000 = Inr sample_snapshot"
  by (simp add: parseEvidenceSnapshot_def sample_snapshot_value Let_def sample_proposal_def sample_snapshot_def
      sample_accepted_def MAX_TIME_def)

definition sample_v2_input :: RefundPolicyInput where
  "sample_v2_input = projr (createRefundPolicyInput sample_proposal sample_refund_context ''refund-policy-v2'' (Some sample_accepted))"

lemma sample_v2_input_created:
  "createRefundPolicyInput sample_proposal sample_refund_context ''refund-policy-v2'' (Some sample_accepted) = Inr sample_v2_input"
  by (simp add: sample_v2_input_def createRefundPolicyInput_def assertMatchingOrder_def assertMatchingSelection_def
      sample_proposal_def sample_refund_context_def sameItemIds_def)

lemmas sample_v2_defs = sample_v2_input_def createRefundPolicyInput_def assertMatchingOrder_def assertMatchingSelection_def
  sample_proposal_def sample_refund_context_def sameItemIds_def usd_def REFUND_POLICY_V2_def REFUND_POLICY_V1_def

lemma sample_v2_release: "release_valid REFUND_POLICY_V2" "1 \<le> elevatedRiskPriorRefundCount REFUND_POLICY_V2"
  by code_simp+

lemma sample_v2_facts:
  "in_policyVersion sample_v2_input = policyVersion REFUND_POLICY_V2" "input_numbers_ok sample_v2_input"
  "\<bar>1767225600000 + decisionValiditySeconds REFUND_POLICY_V2 * 1000\<bar> \<le> MAX_TIME"
  by (simp_all add: sample_v2_defs input_numbers_ok_def money_ok_def isSafeInteger_def MAX_SAFE_INTEGER_def MAX_TIME_def)

lemma sample_manifest_ref: "sha256_ref sample_manifest"
  by code_simp

lemma sample_v2_effect:
  "eligible sample_v2_input REFUND_POLICY_V2" "policy_effect sample_v2_input REFUND_POLICY_V2 = ALLOW"
  by (simp_all add: sample_v2_defs eligible_def Let_def damage_photo_missing_def accepted_evidence_ref_def
      sample_accepted_def sample_manifest_ref isSafeInteger_def MAX_SAFE_INTEGER_def policy_effect_def
      within_approval_limits_def within_automatic_limits_def requested_minor_def requested_currency_def prior_refunds_def)

lemma sample_v2_decides: "\<exists>d. evaluateRefundPolicy sample_sha sample_v2_input REFUND_POLICY_V2 sample_context = Inr d"
  by (rule evaluateRefundPolicy_returns [OF sample_v2_release sample_v2_facts(1,2) sample_facts(5) sample_v2_facts(3)])

lemma sample_v2_allowed:
  assumes "evaluateRefundPolicy sample_sha sample_v2_input REFUND_POLICY_V2 sample_context = Inr d"
  shows "effect d = ALLOW"
proof -
  from assms obtain o: "policy_outcome sample_v2_input REFUND_POLICY_V2 = Inr (effect d, reasonCodes d, obligations d, missingFacts d)"
    by (rule evaluateRefundPolicy_Inr)
  from policy_outcome_eligible [OF sample_v2_effect(1)] o sample_v2_effect(2) show ?thesis by auto
qed

theorem damage_photo_required_and_sufficient_witness:
  "\<exists>d. evaluateRefundPolicy sample_sha sample_v2_input REFUND_POLICY_V2 sample_context = Inr d
    \<and> DAMAGE_PHOTO \<notin> set (missingFacts d)"
proof -
  obtain d where d: "evaluateRefundPolicy sample_sha sample_v2_input REFUND_POLICY_V2 sample_context = Inr d"
    using sample_v2_decides by blast
  have a: "accepted_evidence sample_snapshot = Some sample_accepted" by (simp add: sample_snapshot_def)
  have "DAMAGE_PHOTO \<notin> set (missingFacts d)"
    using damage_photo_required_and_sufficient [OF sample_snapshot_parses _ d, of sample_refund_context] a sample_v2_input_created
    by (simp add: REFUND_POLICY_V2_def sample_proposal_def)
  with d show ?thesis by blast
qed

theorem createRefundPreview_bounded_witness:
  "\<exists>d p. evaluateRefundPolicy sample_sha sample_v2_input REFUND_POLICY_V2 sample_context = Inr d
    \<and> createRefundPreview sample_proposal sample_refund_context d None ''pv1'' ''now'' = Inr p
    \<and> amountMinor (pre_requestedAmount p) \<le> 50000"
proof -
  obtain d where d: "evaluateRefundPolicy sample_sha sample_v2_input REFUND_POLICY_V2 sample_context = Inr d"
    using sample_v2_decides by blast
  obtain p where p: "createRefundPreview sample_proposal sample_refund_context d None ''pv1'' ''now'' = Inr p"
    using sample_v2_allowed [OF d] by (simp add: createRefundPreview_def Let_def sample_proposal_def sample_refund_context_def)
  from createRefundPreview_bounded [OF sample_v2_input_created d p]
  have "amountMinor (pre_requestedAmount p) \<le> 50000" by (simp add: REFUND_POLICY_V2_def REFUND_POLICY_V1_def)
  with d p show ?thesis by blast
qed

end
