(* ===== verification/Workflow_Data.thy ===== *)
theory Workflow_Data
  imports Refund_Offer
begin

text \<open>
  The data the refund workflow exchanges with its activities:
  \<^verbatim>\<open>src/apps/services/workflow-workers/src/refund-workflow-activities.ts\<close> (inputs and results of
  the activities, review packets of human cases), the request, signals and query state of
  \<^verbatim>\<open>refund-workflow.ts\<close>, and the access record of \<^verbatim>\<open>workflow-access-assertion.ts\<close>.
\<close>

record WorkflowJourneyAccess =
  tenantId :: string
  environmentId :: string
  subjectCustomerId :: string
  requestId :: string
  traceId :: string

datatype HumanCaseType = REFUND_APPROVAL | REFUND_TAKEOVER | REFUND_EVIDENCE_REVIEW

datatype HumanCaseAction = APPROVE | APPROVE_EXCEPTIONAL_REFUND | REJECT | RESOLVE_TAKEOVER

record PacketPolicy =
  pk_decisionId :: string
  pk_effect :: PolicyEffect
  pk_policyVersion :: string
  pk_inputFactsHash :: string
  pk_reasonCodes :: "string list"
  pk_factRefs :: "FactRef list"

record HumanCaseReviewPacket =
  pk_orderReference :: "string option"
  pk_proposal :: RefundProposal
  pk_policy :: PacketPolicy
  pk_preview :: "RefundPreview option"

record OpenHumanCaseInput =
  oc_caseId :: string
  oc_workflowId :: string
  oc_idempotencyKey :: string
  oc_access :: WorkflowJourneyAccess
  oc_caseType :: HumanCaseType
  oc_allowedActions :: "HumanCaseAction list"
  oc_reviewPacket :: HumanCaseReviewPacket

datatype CloseOutcome = OUTCOME_APPROVED | OUTCOME_REJECTED | OUTCOME_TAKEOVER_RESOLVED

record RefundHumanDecision =
  hd_decision :: HumanCaseAction
  hd_decidedBy :: string
  hd_decidedAt :: string
  hd_reasonCode :: "string option"

record CloseHumanCaseInput =
  cc_caseId :: string
  cc_workflowId :: string
  cc_idempotencyKey :: string
  cc_access :: WorkflowJourneyAccess
  cc_outcome :: CloseOutcome
  cc_decision :: RefundHumanDecision

record RefreshRefundContextInput =
  rf_proposal :: RefundProposal
  rf_workflowId :: string
  rf_access :: WorkflowJourneyAccess

record EvaluateRefundPolicyInput =
  ev_proposal :: RefundProposal
  ev_refundContext :: RefundContext
  ev_policyVersion :: string
  ev_damageEvidence :: "AcceptedDamageEvidence option"

record CreateRefundPreviewActivityInput =
  cp_proposal :: RefundProposal
  cp_refundContext :: RefundContext
  cp_decision :: RefundPolicyDecision
  cp_authorization :: "RefundPreviewAuthorization option"

text \<open>\<^verbatim>\<open>ExecuteRefundInput\<close> and \<^verbatim>\<open>ReconcileRefundInput\<close> have the same fields.\<close>

record ExecuteRefundInput =
  ex_proposal :: RefundProposal
  ex_preview :: RefundPreview
  ex_workflowId :: string
  ex_access :: WorkflowJourneyAccess

datatype ExecutionStatus = SUBMITTED | SUCCEEDED | FAILED | PENDING_RECONCILIATION

record ExecuteRefundResult =
  er_status :: ExecutionStatus
  er_providerRefundId :: "string option"

datatype ReconciliationStatus = RC_SUCCEEDED | RC_FAILED | RC_PROCESSING | RC_NOT_FOUND

record ReconcileRefundResult =
  rr_status :: ReconciliationStatus
  rr_providerRefundId :: "string option"

record EvidenceAccess =
  ea_refresh :: RefreshRefundContextInput
  ea_policyVersion :: string

datatype EvidenceCloseOutcome = EVIDENCE_REVIEW_COMPLETED | EVIDENCE_COLLECTION_EXPIRED_OUTCOME

section \<open>Requests, signals and the query state of the workflow\<close>

record RefundCustomerConfirmation =
  cf_previewId :: string
  cf_accepted :: bool
  cf_confirmedAt :: string

datatype ProviderOutcomeKind = COMPLETED | PROVIDER_FAILED

record RefundProviderOutcome =
  po_eventId :: string
  po_providerRefundId :: string
  po_outcome :: ProviderOutcomeKind
  po_occurredAt :: string

record EvidenceRecovery =
  rv_deadline :: int
  rv_decision :: RefundPolicyDecision

record Recovery =
  rc_decision :: RefundPolicyDecision
  rc_preview :: RefundPreview
  rc_attemptsInRun :: nat

record RefundWorkflowRequest =
  rq_orderReference :: "string option"
  rq_proposal :: RefundProposal
  rq_policyVersion :: string
  rq_access :: WorkflowJourneyAccess
  rq_evidenceRecovery :: "EvidenceRecovery option"
  rq_recovery :: "Recovery option"

datatype Stage =
    S_EVALUATING | S_AWAITING_CUSTOMER_EVIDENCE | S_AWAITING_EVIDENCE_REVIEW | S_EVIDENCE_COLLECTION_EXPIRED
  | S_AWAITING_CUSTOMER_CONFIRMATION | S_CONFIRMED | S_CANCELLED | S_NEEDS_FACTS | S_DENIED | S_AWAITING_APPROVAL
  | S_HUMAN_TAKEOVER_REQUIRED | S_APPROVED | S_REJECTED | S_TAKEOVER_RESOLVED | S_PREVIEW_INVALIDATED
  | S_REFUND_PROCESSING | S_REFUND_SUCCEEDED | S_REFUND_FAILED | S_PENDING_RECONCILIATION

record RefundWorkflowState =
  stage :: Stage
  st_decision :: "RefundPolicyDecision option"
  st_preview :: "RefundPreview option"
  st_providerRefundId :: "string option"

section \<open>Activities\<close>

text \<open>One constructor per activity of \<^verbatim>\<open>RefundWorkflowActivities\<close> and \<^verbatim>\<open>RefundEvidenceActivities\<close>.\<close>

datatype call =
    RefreshRefundContext RefreshRefundContextInput
  | EvaluateRefundPolicy EvaluateRefundPolicyInput
  | CreateRefundPreview CreateRefundPreviewActivityInput
  | RecordRefundConfirmation
  | ExecuteRefund ExecuteRefundInput
  | ReconcileRefund ExecuteRefundInput
  | OpenHumanCase OpenHumanCaseInput
  | CloseHumanCase CloseHumanCaseInput
  | OpenRefundEvidence OpenHumanCaseInput
  | ReadRefundEvidence EvidenceAccess
  | TransitionRefundEvidence OpenHumanCaseInput int
  | CloseRefundEvidence EvidenceAccess string EvidenceCloseOutcome

datatype reply =
    R_Context RefundContext
  | R_Decision RefundPolicyDecision
  | R_Preview RefundPreview
  | R_Void
  | R_Execute ExecuteRefundResult
  | R_Reconcile ReconcileRefundResult
  | R_Case string
  | R_Evidence EvidenceSnapshot

definition action_string :: "HumanCaseAction \<Rightarrow> string" where
  "action_string a = (case a of APPROVE \<Rightarrow> ''APPROVE'' | APPROVE_EXCEPTIONAL_REFUND \<Rightarrow> ''APPROVE_EXCEPTIONAL_REFUND''
     | REJECT \<Rightarrow> ''REJECT'' | RESOLVE_TAKEOVER \<Rightarrow> ''RESOLVE_TAKEOVER'')"

lemma action_string_inject [simp]: "action_string a = action_string b \<longleftrightarrow> a = b"
  by (cases a; cases b) (simp_all add: action_string_def)

end
