(* ===== verification/Refund_Workflow.thy ===== *)
theory Refund_Workflow
  imports Workflow_Data
begin

text \<open>
  The refund workflow, \<^verbatim>\<open>src/apps/services/workflow-workers/src/refund-workflow.ts\<close>, as a state
  machine. A run is suspended at one \<^verbatim>\<open>await\<close> at a time; \<^verbatim>\<open>pc\<close> has one constructor per await,
  carrying the locals that are still live, and the code between two awaits is one definition.
  An event resumes the run: the awaited activity completes or rejects, a timer fires, or a signal
  arrives. A signal with no handler yet is buffered and delivered, in order, by the \<^verbatim>\<open>setHandler\<close>
  that installs one; a signal for a handler whose wait is over has no effect. \<^verbatim>\<open>now\<close> is the
  workflow clock of the activation and \<^verbatim>\<open>patched\<close> the version marker of the workflow runtime.
  \<^verbatim>\<open>continueAsNew\<close> ends a run with the request of the next one, which the event \<^verbatim>\<open>Continue\<close>
  starts. The journal, newest entry first, is the history of the journey over all its runs.
\<close>

section \<open>Runs\<close>

datatype branch = B_ALLOW | B_APPROVAL | B_TAKEOVER string

datatype pc =
    PC_Context0
  | PC_Decision0 RefundContext
  | PC_OpenEvidence RefundPolicyDecision
  | PC_EvidenceSleep RefundPolicyDecision EvidenceSnapshot int nat
  | PC_EvidenceRead RefundPolicyDecision int nat
  | PC_CloseExpired RefundPolicyDecision
  | PC_Context1 EvidenceSnapshot
  | PC_Decision1 RefundContext EvidenceSnapshot
  | PC_CloseReviewed RefundContext RefundPolicyDecision EvidenceSnapshot
  | PC_Preview branch RefundPolicyDecision "EvidenceSnapshot option"
  | PC_Confirm branch RefundPolicyDecision RefundPreview "EvidenceSnapshot option"
  | PC_Observe branch RefundPolicyDecision RefundPreview "EvidenceSnapshot option" RefundCustomerConfirmation
  | PC_CloseUnconfirmed RefundWorkflowState
  | PC_OpenApproval RefundPolicyDecision RefundPreview "EvidenceSnapshot option"
  | PC_AwaitApproval RefundPolicyDecision RefundPreview "EvidenceSnapshot option" string
  | PC_CloseApproved RefundPolicyDecision RefundPreview "EvidenceSnapshot option"
  | PC_CloseDeclined RefundWorkflowState
  | PC_OpenTakeover RefundPolicyDecision "EvidenceSnapshot option"
  | PC_AwaitTakeover RefundPolicyDecision "EvidenceSnapshot option" string
  | PC_CloseExceptional RefundPolicyDecision "EvidenceSnapshot option" string
  | PC_TakeoverContext RefundPolicyDecision "EvidenceSnapshot option" string
  | PC_TakeoverEvidence RefundPolicyDecision RefundContext EvidenceSnapshot string
  | PC_TakeoverDecision RefundContext EvidenceSnapshot string
  | PC_ExecEvidence branch RefundPolicyDecision RefundPreview "EvidenceSnapshot option"
  | PC_ExecRefresh branch RefundPolicyDecision RefundPreview "EvidenceSnapshot option"
  | PC_Execute branch RefundPolicyDecision RefundPreview
  | PC_ProviderReconcile RefundPolicyDecision RefundPreview "string option" "RefundProviderOutcome option"
  | PC_ProviderWait RefundPolicyDecision RefundPreview "string option"
  | PC_Reconcile RefundPolicyDecision RefundPreview nat
  | PC_ReconcileSleep RefundPolicyDecision RefundPreview nat
  | PC_Done
  | PC_Failed
  | PC_ContinuedAsNew RefundWorkflowRequest

datatype entry =
    Scheduled call
  | Completed call reply
  | Confirmed int RefundCustomerConfirmation
  | Decided RefundHumanDecision
  | ProviderOutcome RefundProviderOutcome

record WorkflowRun =
  wr_request :: RefundWorkflowRequest
  wr_workflowId :: string
  wr_pc :: pc
  wr_state :: RefundWorkflowState
  wr_pending :: "call option"
  wr_humanDecision :: "RefundHumanDecision option"
  confirm_set :: bool
  decide_set :: bool
  outcome_set :: bool
  buffered_confirmations :: "RefundCustomerConfirmation list"
  buffered_decisions :: "RefundHumanDecision list"
  buffered_outcomes :: "RefundProviderOutcome list"
  wr_journal :: "entry list"

definition RECONCILIATION_ATTEMPTS_PER_RUN :: nat where
  "RECONCILIATION_ATTEMPTS_PER_RUN = 288"

definition mk_state :: "Stage \<Rightarrow> RefundPolicyDecision \<Rightarrow> RefundPreview option \<Rightarrow> string option \<Rightarrow> RefundWorkflowState" where
  "mk_state s d p i = \<lparr> stage = s, st_decision = Some d, st_preview = p, st_providerRefundId = i \<rparr>"

definition schedule :: "call \<Rightarrow> pc \<Rightarrow> WorkflowRun \<Rightarrow> WorkflowRun" where
  "schedule c p run = run\<lparr> wr_pc := p, wr_pending := Some c, wr_journal := Scheduled c # wr_journal run \<rparr>"

definition finish :: "RefundWorkflowState \<Rightarrow> WorkflowRun \<Rightarrow> WorkflowRun" where
  "finish st run = run\<lparr> wr_pc := PC_Done, wr_state := st \<rparr>"

definition suspend :: "pc \<Rightarrow> WorkflowRun \<Rightarrow> WorkflowRun" where
  "suspend p run = run\<lparr> wr_pc := p \<rparr>"

definition set_state :: "RefundWorkflowState \<Rightarrow> WorkflowRun \<Rightarrow> WorkflowRun" where
  "set_state st run = run\<lparr> wr_state := st \<rparr>"

definition record_entries :: "entry list \<Rightarrow> WorkflowRun \<Rightarrow> WorkflowRun" where
  "record_entries es run = run\<lparr> wr_journal := es @ wr_journal run \<rparr>"

section \<open>Inputs of the activities\<close>

definition refresh_input :: "WorkflowRun \<Rightarrow> RefreshRefundContextInput" where
  "refresh_input run = \<lparr> rf_proposal = rq_proposal (wr_request run), rf_workflowId = wr_workflowId run,
     rf_access = rq_access (wr_request run) \<rparr>"

definition evidenceAccess :: "WorkflowRun \<Rightarrow> EvidenceAccess" where
  "evidenceAccess run = \<lparr> ea_refresh = refresh_input run, ea_policyVersion = rq_policyVersion (wr_request run) \<rparr>"

definition evaluate_input :: "WorkflowRun \<Rightarrow> RefundContext \<Rightarrow> AcceptedDamageEvidence option \<Rightarrow> EvaluateRefundPolicyInput" where
  "evaluate_input run ctx ev = \<lparr> ev_proposal = rq_proposal (wr_request run), ev_refundContext = ctx,
     ev_policyVersion = rq_policyVersion (wr_request run), ev_damageEvidence = ev \<rparr>"

definition preview_input ::
  "WorkflowRun \<Rightarrow> RefundContext \<Rightarrow> RefundPolicyDecision \<Rightarrow> RefundPreviewAuthorization option \<Rightarrow> CreateRefundPreviewActivityInput" where
  "preview_input run ctx dec auth = \<lparr> cp_proposal = rq_proposal (wr_request run), cp_refundContext = ctx,
     cp_decision = dec, cp_authorization = auth \<rparr>"

definition execute_input :: "WorkflowRun \<Rightarrow> RefundPreview \<Rightarrow> ExecuteRefundInput" where
  "execute_input run pre = \<lparr> ex_proposal = rq_proposal (wr_request run), ex_preview = pre,
     ex_workflowId = wr_workflowId run, ex_access = rq_access (wr_request run) \<rparr>"

definition buildOpenHumanCaseInput ::
  "RefundWorkflowRequest \<Rightarrow> string \<Rightarrow> RefundPolicyDecision \<Rightarrow> RefundPreview option \<Rightarrow> HumanCaseType \<Rightarrow> HumanCaseAction list
    \<Rightarrow> OpenHumanCaseInput" where
  "buildOpenHumanCaseInput request workflowId decision preview caseType allowedActions =
     \<lparr> oc_caseId = ''case:'' @ workflowId, oc_workflowId = workflowId,
       oc_idempotencyKey = ''workflow:'' @ workflowId @ '':human-case'',
       oc_access = rq_access request, oc_caseType = caseType, oc_allowedActions = allowedActions,
       oc_reviewPacket = \<lparr> pk_orderReference = rq_orderReference request, pk_proposal = rq_proposal request,
         pk_policy = \<lparr> pk_decisionId = decisionId decision, pk_effect = effect decision,
           pk_policyVersion = dec_policyVersion decision, pk_inputFactsHash = inputFactsHash decision,
           pk_reasonCodes = reasonCodes decision, pk_factRefs = dec_factRefs decision \<rparr>,
         pk_preview = preview \<rparr> \<rparr>"

definition buildCloseHumanCaseInput ::
  "RefundWorkflowRequest \<Rightarrow> string \<Rightarrow> string \<Rightarrow> RefundHumanDecision \<Rightarrow> CloseOutcome \<Rightarrow> CloseHumanCaseInput" where
  "buildCloseHumanCaseInput request workflowId caseId decision outcome =
     \<lparr> cc_caseId = caseId, cc_workflowId = workflowId,
       cc_idempotencyKey = ''workflow:'' @ workflowId @ '':human-case:close:'' @ action_string (hd_decision decision),
       cc_access = rq_access request, cc_outcome = outcome, cc_decision = decision \<rparr>"

definition close_case :: "string \<Rightarrow> RefundHumanDecision \<Rightarrow> CloseOutcome \<Rightarrow> pc \<Rightarrow> WorkflowRun \<Rightarrow> WorkflowRun" where
  "close_case caseId decision outcome p run =
     schedule (CloseHumanCase (buildCloseHumanCaseInput (wr_request run) (wr_workflowId run) caseId decision outcome)) p run"

definition close_evidence :: "EvidenceSnapshot \<Rightarrow> EvidenceCloseOutcome \<Rightarrow> pc \<Rightarrow> WorkflowRun \<Rightarrow> WorkflowRun" where
  "close_evidence evidence outcome p run =
     schedule (CloseRefundEvidence (evidenceAccess run) (snap_caseId evidence) outcome) p run"

text \<open>\<^verbatim>\<open>evidence?.accepted\<close>\<close>

definition accepted_of :: "EvidenceSnapshot option \<Rightarrow> AcceptedDamageEvidence option" where
  "accepted_of evidence = Option.bind evidence accepted_evidence"

definition openMonetaryCase :: "EvidenceSnapshot option \<Rightarrow> OpenHumanCaseInput \<Rightarrow> pc \<Rightarrow> WorkflowRun \<Rightarrow> WorkflowRun" where
  "openMonetaryCase evidence input p run =
     (case accepted_of evidence of
        None \<Rightarrow> schedule (OpenHumanCase input) p run
      | Some acc \<Rightarrow> schedule (TransitionRefundEvidence input (acc_evidenceVersion acc)) p run)"

section \<open>Pure helpers\<close>

definition isRefundPreviewCurrent :: "string \<Rightarrow> int \<Rightarrow> bool" where
  "isRefundPreviewCurrent until nowMilliseconds =
     (case date_parse until of None \<Rightarrow> False | Some deadline \<Rightarrow> nowMilliseconds < deadline)"

definition sameAcceptedEvidence :: "AcceptedDamageEvidence option \<Rightarrow> AcceptedDamageEvidence option \<Rightarrow> bool" where
  "sameAcceptedEvidence expected current =
     (case (expected, current) of
        (Some e, Some c) \<Rightarrow> acc_evidenceVersion e = acc_evidenceVersion c \<and> assessmentId e = assessmentId c
           \<and> manifestHash e = manifestHash c
      | _ \<Rightarrow> False)"

definition amountStillAvailable :: "RefundContext \<Rightarrow> RefundPreview \<Rightarrow> bool" where
  "amountStillAvailable refreshed preview \<longleftrightarrow>
     ctx_transactionRefundable (ctx_facts refreshed) \<and> ctx_itemSelectionValid (ctx_facts refreshed)
     \<and> currency (ctx_refundableAmount (ctx_facts refreshed)) = currency (pre_requestedAmount preview)
     \<and> amountMinor (ctx_refundableAmount (ctx_facts refreshed)) \<ge> amountMinor (pre_requestedAmount preview)"

definition evidence_required :: "RefundWorkflowRequest \<Rightarrow> bool" where
  "evidence_required request \<longleftrightarrow>
     rq_policyVersion request = ''refund-policy-v2'' \<and> reasonCode (intent (rq_proposal request)) = ''DAMAGED''"

text \<open>The signal handlers. The confirmation handler keeps the pair \<^verbatim>\<open>(confirmation, expired)\<close>.\<close>

definition confirm_handler ::
  "(string \<Rightarrow> bool) \<Rightarrow> int \<Rightarrow> RefundPreview \<Rightarrow> RefundCustomerConfirmation \<Rightarrow>
    RefundCustomerConfirmation option \<times> bool \<Rightarrow> RefundCustomerConfirmation option \<times> bool" where
  "confirm_handler patched now preview received s =
     (case s of (confirmation, expired) \<Rightarrow>
        if confirmation \<noteq> None \<or> expired \<or> cf_previewId received \<noteq> previewId preview then s
        else if patched ''refund-preview-expiry-confirmation-v1''
             \<and> \<not> isRefundPreviewCurrent (pre_validUntil preview) now then (confirmation, True)
        else (Some received, expired))"

definition decide_handler ::
  "HumanCaseAction list \<Rightarrow> RefundHumanDecision \<Rightarrow> RefundHumanDecision option \<Rightarrow> RefundHumanDecision option" where
  "decide_handler accepted received humanDecision =
     (if humanDecision = None \<and> hd_decision received \<in> set accepted then Some received else humanDecision)"

definition outcome_handler ::
  "string option \<Rightarrow> RefundProviderOutcome \<Rightarrow> RefundProviderOutcome option \<Rightarrow> RefundProviderOutcome option" where
  "outcome_handler refundId received providerOutcome =
     (if providerOutcome = None \<and> refundId \<noteq> None \<and> Some (po_providerRefundId received) = refundId
      then Some received else providerOutcome)"

definition opt_entry :: "('a \<Rightarrow> entry) \<Rightarrow> 'a option \<Rightarrow> entry list" where
  "opt_entry f v = (case v of None \<Rightarrow> [] | Some x \<Rightarrow> [f x])"

section \<open>The code between two awaits\<close>

text \<open>\<^verbatim>\<open>executeAuthorizedRefund\<close>, up to its first await.\<close>

definition execute_refresh :: "branch \<Rightarrow> RefundPolicyDecision \<Rightarrow> RefundPreview \<Rightarrow> EvidenceSnapshot option \<Rightarrow> WorkflowRun \<Rightarrow> WorkflowRun" where
  "execute_refresh br dec pre evidence run = schedule (RefreshRefundContext (refresh_input run)) (PC_ExecRefresh br dec pre evidence) run"

definition executeAuthorizedRefund :: "branch \<Rightarrow> RefundPolicyDecision \<Rightarrow> RefundPreview \<Rightarrow> EvidenceSnapshot option \<Rightarrow> WorkflowRun \<Rightarrow> WorkflowRun" where
  "executeAuthorizedRefund br dec pre evidence run =
     (if evidence_required (wr_request run)
      then schedule (ReadRefundEvidence (evidenceAccess run)) (PC_ExecEvidence br dec pre evidence) run
      else execute_refresh br dec pre evidence run)"

text \<open>\<^verbatim>\<open>awaitProviderRefundOutcome\<close>: the head of its loop, and its entry, which installs the handler.\<close>

definition provider_reconcile :: "RefundPolicyDecision \<Rightarrow> RefundPreview \<Rightarrow> string option \<Rightarrow> RefundProviderOutcome option \<Rightarrow> WorkflowRun \<Rightarrow> WorkflowRun" where
  "provider_reconcile dec pre refundId outcome run =
     schedule (ReconcileRefund (execute_input run pre)) (PC_ProviderReconcile dec pre refundId outcome) run"

definition awaitProviderRefundOutcome :: "RefundPolicyDecision \<Rightarrow> RefundPreview \<Rightarrow> string option \<Rightarrow> WorkflowRun \<Rightarrow> WorkflowRun" where
  "awaitProviderRefundOutcome dec pre refundId run =
     (let outcome = fold (outcome_handler refundId) (buffered_outcomes run) None
      in provider_reconcile dec pre refundId outcome
           (record_entries (opt_entry ProviderOutcome outcome) (run\<lparr> outcome_set := True, buffered_outcomes := [] \<rparr>)))"

definition provider_reconciled ::
  "RefundPolicyDecision \<Rightarrow> RefundPreview \<Rightarrow> string option \<Rightarrow> RefundProviderOutcome option \<Rightarrow> ReconcileRefundResult \<Rightarrow> WorkflowRun \<Rightarrow> WorkflowRun" where
  "provider_reconciled dec pre refundId outcome reconciliation run =
     (let refundId' = (if refundId = None then rr_providerRefundId reconciliation else refundId)
      in if rr_status reconciliation = RC_SUCCEEDED \<or> map_option po_outcome outcome = Some COMPLETED
         then finish (mk_state S_REFUND_SUCCEEDED dec (Some pre) refundId') run
         else if rr_status reconciliation = RC_FAILED \<or> map_option po_outcome outcome = Some PROVIDER_FAILED
         then finish (mk_state S_REFUND_FAILED dec (Some pre) refundId') run
         else suspend (PC_ProviderWait dec pre refundId')
                (set_state (mk_state S_REFUND_PROCESSING dec (Some pre) refundId') run))"

text \<open>\<^verbatim>\<open>reconcilePendingRefund\<close>.\<close>

definition reconcilePendingRefund :: "RefundPolicyDecision \<Rightarrow> RefundPreview \<Rightarrow> nat \<Rightarrow> WorkflowRun \<Rightarrow> WorkflowRun" where
  "reconcilePendingRefund dec pre attemptsInRun run =
     schedule (ReconcileRefund (execute_input run pre)) (PC_Reconcile dec pre attemptsInRun) run"

definition pending_reconciled :: "RefundPolicyDecision \<Rightarrow> RefundPreview \<Rightarrow> nat \<Rightarrow> ReconcileRefundResult \<Rightarrow> WorkflowRun \<Rightarrow> WorkflowRun" where
  "pending_reconciled dec pre attemptsInRun reconciliation run =
     (case rr_status reconciliation of
        RC_SUCCEEDED \<Rightarrow> finish (mk_state S_REFUND_SUCCEEDED dec (Some pre) (rr_providerRefundId reconciliation)) run
      | RC_FAILED \<Rightarrow> finish (mk_state S_REFUND_FAILED dec (Some pre) (rr_providerRefundId reconciliation)) run
      | _ \<Rightarrow> suspend (PC_ReconcileSleep dec pre attemptsInRun) run)"

definition pending_slept :: "RefundPolicyDecision \<Rightarrow> RefundPreview \<Rightarrow> nat \<Rightarrow> WorkflowRun \<Rightarrow> WorkflowRun" where
  "pending_slept dec pre attemptsInRun run =
     (if attemptsInRun + 1 \<ge> RECONCILIATION_ATTEMPTS_PER_RUN
      then suspend (PC_ContinuedAsNew ((wr_request run)
             \<lparr> rq_recovery := Some \<lparr> rc_decision = dec, rc_preview = pre, rc_attemptsInRun = 0 \<rparr> \<rparr>)) run
      else reconcilePendingRefund dec pre (attemptsInRun + 1) run)"

text \<open>The rest of \<^verbatim>\<open>executeAuthorizedRefund\<close>.\<close>

definition execute_evidence_read ::
  "branch \<Rightarrow> RefundPolicyDecision \<Rightarrow> RefundPreview \<Rightarrow> EvidenceSnapshot option \<Rightarrow> EvidenceSnapshot \<Rightarrow> WorkflowRun \<Rightarrow> WorkflowRun" where
  "execute_evidence_read br dec pre evidence current run =
     (if \<not> sameAcceptedEvidence (accepted_of evidence) (accepted_evidence current)
      then finish (mk_state S_PREVIEW_INVALIDATED dec (Some pre) None) run
      else execute_refresh br dec pre evidence run)"

definition execute_refreshed :: "branch \<Rightarrow> RefundPolicyDecision \<Rightarrow> RefundPreview \<Rightarrow> RefundContext \<Rightarrow> WorkflowRun \<Rightarrow> WorkflowRun" where
  "execute_refreshed br dec pre refreshed run =
     (if \<not> amountStillAvailable refreshed pre
      then finish (mk_state S_PREVIEW_INVALIDATED dec (Some pre) None) run
      else schedule (ExecuteRefund (execute_input run pre)) (PC_Execute br dec pre) run)"

definition executed :: "RefundPolicyDecision \<Rightarrow> RefundPreview \<Rightarrow> ExecuteRefundResult \<Rightarrow> WorkflowRun \<Rightarrow> WorkflowRun" where
  "executed dec pre result run =
     (case er_status result of
        SUCCEEDED \<Rightarrow> finish (mk_state S_REFUND_SUCCEEDED dec (Some pre) (er_providerRefundId result)) run
      | SUBMITTED \<Rightarrow> awaitProviderRefundOutcome dec pre (er_providerRefundId result)
          (set_state (mk_state S_REFUND_PROCESSING dec (Some pre) (er_providerRefundId result)) run)
      | PENDING_RECONCILIATION \<Rightarrow> reconcilePendingRefund dec pre 0
          (set_state (mk_state S_PENDING_RECONCILIATION dec (Some pre) None) run)
      | FAILED \<Rightarrow> finish (mk_state S_REFUND_FAILED dec (Some pre) None) run)"

text \<open>After \<^verbatim>\<open>waitForRefundConfirmation\<close> and \<^verbatim>\<open>observeRefundConfirmation\<close>, in the three branches.\<close>

definition leave_unconfirmed :: "branch \<Rightarrow> EvidenceSnapshot option \<Rightarrow> RefundWorkflowState \<Rightarrow> WorkflowRun \<Rightarrow> WorkflowRun" where
  "leave_unconfirmed br evidence st run =
     (case evidence of
        Some snap \<Rightarrow> if br = B_APPROVAL \<and> accepted_evidence snap \<noteq> None
          then close_evidence snap EVIDENCE_REVIEW_COMPLETED (PC_CloseUnconfirmed st) run else finish st run
      | None \<Rightarrow> finish st run)"

definition confirmation_observed ::
  "branch \<Rightarrow> RefundPolicyDecision \<Rightarrow> RefundPreview \<Rightarrow> EvidenceSnapshot option \<Rightarrow> RefundCustomerConfirmation \<Rightarrow> WorkflowRun \<Rightarrow> WorkflowRun" where
  "confirmation_observed br dec pre evidence confirmation run =
     (if \<not> cf_accepted confirmation
      then leave_unconfirmed br evidence (mk_state S_CANCELLED dec (Some pre) None) run
      else if br = B_APPROVAL
      then openMonetaryCase evidence
             (buildOpenHumanCaseInput (wr_request run) (wr_workflowId run) dec (Some pre) REFUND_APPROVAL [APPROVE, REJECT])
             (PC_OpenApproval dec pre evidence) run
      else executeAuthorizedRefund br dec pre evidence run)"

definition confirmation_returned ::
  "(string \<Rightarrow> bool) \<Rightarrow> branch \<Rightarrow> RefundPolicyDecision \<Rightarrow> RefundPreview \<Rightarrow> EvidenceSnapshot option
    \<Rightarrow> RefundCustomerConfirmation option \<Rightarrow> WorkflowRun \<Rightarrow> WorkflowRun" where
  "confirmation_returned patched br dec pre evidence confirmation run =
     (case confirmation of
        None \<Rightarrow> leave_unconfirmed br evidence (mk_state S_PREVIEW_INVALIDATED dec (Some pre) None) run
      | Some c \<Rightarrow>
          if patched ''refund-confirmation-observation-activity-v1''
          then schedule RecordRefundConfirmation (PC_Observe br dec pre evidence c) run
          else confirmation_observed br dec pre evidence c run)"

text \<open>\<^verbatim>\<open>waitForRefundConfirmation\<close>, after the preview is created.\<close>

definition waitForRefundConfirmation ::
  "(string \<Rightarrow> bool) \<Rightarrow> int \<Rightarrow> branch \<Rightarrow> RefundPolicyDecision \<Rightarrow> RefundPreview \<Rightarrow> EvidenceSnapshot option \<Rightarrow> WorkflowRun \<Rightarrow> WorkflowRun" where
  "waitForRefundConfirmation patched now br dec pre evidence run =
     (case fold (confirm_handler patched now pre) (buffered_confirmations run) (None, False) of
        (confirmation, expired) \<Rightarrow>
          let run' = record_entries (opt_entry (Confirmed now) confirmation)
                       (run\<lparr> confirm_set := True, buffered_confirmations := [] \<rparr>)
          in if confirmation \<noteq> None \<or> expired then confirmation_returned patched br dec pre evidence confirmation run'
             else if patched ''refund-preview-expiry-timer-v1''
             then (case date_parse (pre_validUntil pre) of
                     None \<Rightarrow> confirmation_returned patched br dec pre evidence None run'
                   | Some deadline \<Rightarrow>
                       if deadline - now \<le> 0 then confirmation_returned patched br dec pre evidence None run'
                       else suspend (PC_Confirm br dec pre evidence) run')
             else suspend (PC_Confirm br dec pre evidence) run')"

definition preview_created ::
  "(string \<Rightarrow> bool) \<Rightarrow> int \<Rightarrow> branch \<Rightarrow> RefundPolicyDecision \<Rightarrow> EvidenceSnapshot option \<Rightarrow> RefundPreview \<Rightarrow> WorkflowRun \<Rightarrow> WorkflowRun" where
  "preview_created patched now br dec evidence pre run =
     waitForRefundConfirmation patched now br dec pre evidence
       (set_state (mk_state S_AWAITING_CUSTOMER_CONFIRMATION dec (Some pre) None) run)"

text \<open>The branch \<^verbatim>\<open>APPROVAL_REQUIRED\<close>, from the opened case on.\<close>

definition approval_decided ::
  "RefundPolicyDecision \<Rightarrow> RefundPreview \<Rightarrow> EvidenceSnapshot option \<Rightarrow> string \<Rightarrow> RefundHumanDecision \<Rightarrow> WorkflowRun \<Rightarrow> WorkflowRun" where
  "approval_decided dec pre evidence caseId human run =
     (let run' = record_entries [Decided human] (run\<lparr> wr_humanDecision := Some human \<rparr>)
      in if hd_decision human = REJECT
         then close_case caseId human OUTCOME_REJECTED (PC_CloseDeclined (mk_state S_REJECTED dec (Some pre) None)) run'
         else close_case caseId human OUTCOME_APPROVED (PC_CloseApproved dec pre evidence) run')"

definition approval_opened :: "RefundPolicyDecision \<Rightarrow> RefundPreview \<Rightarrow> EvidenceSnapshot option \<Rightarrow> string \<Rightarrow> WorkflowRun \<Rightarrow> WorkflowRun" where
  "approval_opened dec pre evidence caseId run =
     (let run' = set_state (mk_state S_AWAITING_APPROVAL dec (Some pre) None)
                   (run\<lparr> decide_set := True, buffered_decisions := [] \<rparr>)
      in case fold (decide_handler [APPROVE, REJECT]) (buffered_decisions run) None of
           None \<Rightarrow> suspend (PC_AwaitApproval dec pre evidence caseId) run'
         | Some human \<Rightarrow> approval_decided dec pre evidence caseId human run')"

text \<open>The branch \<^verbatim>\<open>TAKEOVER_REQUIRED\<close>.\<close>

definition takeover_decided ::
  "RefundPolicyDecision \<Rightarrow> EvidenceSnapshot option \<Rightarrow> string \<Rightarrow> RefundHumanDecision \<Rightarrow> WorkflowRun \<Rightarrow> WorkflowRun" where
  "takeover_decided dec evidence caseId human run =
     (let run' = record_entries [Decided human] (run\<lparr> wr_humanDecision := Some human \<rparr>)
      in if hd_decision human = APPROVE_EXCEPTIONAL_REFUND
         then close_case caseId human OUTCOME_APPROVED (PC_CloseExceptional dec evidence caseId) run'
         else if hd_decision human = REJECT
         then close_case caseId human OUTCOME_REJECTED (PC_CloseDeclined (mk_state S_REJECTED dec None None)) run'
         else close_case caseId human OUTCOME_TAKEOVER_RESOLVED (PC_CloseDeclined (mk_state S_TAKEOVER_RESOLVED dec None None)) run')"

definition takeover_actions :: "HumanCaseAction list" where
  "takeover_actions = [APPROVE_EXCEPTIONAL_REFUND, RESOLVE_TAKEOVER, REJECT]"

definition takeover_opened :: "RefundPolicyDecision \<Rightarrow> EvidenceSnapshot option \<Rightarrow> string \<Rightarrow> WorkflowRun \<Rightarrow> WorkflowRun" where
  "takeover_opened dec evidence caseId run =
     (let run' = set_state (mk_state S_HUMAN_TAKEOVER_REQUIRED dec None None)
                   (run\<lparr> decide_set := True, buffered_decisions := [] \<rparr>)
      in case fold (decide_handler takeover_actions) (buffered_decisions run) None of
           None \<Rightarrow> suspend (PC_AwaitTakeover dec evidence caseId) run'
         | Some human \<Rightarrow> takeover_decided dec evidence caseId human run')"

definition exceptional_preview :: "RefundPolicyDecision \<Rightarrow> EvidenceSnapshot option \<Rightarrow> string \<Rightarrow> RefundContext \<Rightarrow> WorkflowRun \<Rightarrow> WorkflowRun" where
  "exceptional_preview dec evidence caseId ctx run =
     schedule (CreateRefundPreview (preview_input run ctx dec (Some \<lparr> auth_kind = ''HUMAN_EXCEPTIONAL_APPROVAL'',
         auth_caseId = caseId, auth_decision = ''APPROVE_EXCEPTIONAL_REFUND'' \<rparr>)))
       (PC_Preview (B_TAKEOVER caseId) dec evidence) run"

definition takeover_refreshed :: "RefundPolicyDecision \<Rightarrow> EvidenceSnapshot option \<Rightarrow> string \<Rightarrow> RefundContext \<Rightarrow> WorkflowRun \<Rightarrow> WorkflowRun" where
  "takeover_refreshed dec evidence caseId ctx run =
     (case evidence of
        Some snap \<Rightarrow> if accepted_evidence snap \<noteq> None
          then schedule (ReadRefundEvidence (evidenceAccess run)) (PC_TakeoverEvidence dec ctx snap caseId) run
          else exceptional_preview dec evidence caseId ctx run
      | None \<Rightarrow> exceptional_preview dec evidence caseId ctx run)"

definition takeover_evidence_read ::
  "RefundPolicyDecision \<Rightarrow> RefundContext \<Rightarrow> EvidenceSnapshot \<Rightarrow> string \<Rightarrow> EvidenceSnapshot \<Rightarrow> WorkflowRun \<Rightarrow> WorkflowRun" where
  "takeover_evidence_read dec ctx snap caseId current run =
     (if \<not> sameAcceptedEvidence (accepted_evidence snap) (accepted_evidence current)
      then finish (mk_state S_PREVIEW_INVALIDATED dec None None) run
      else schedule (EvaluateRefundPolicy (evaluate_input run ctx (accepted_evidence current))) (PC_TakeoverDecision ctx snap caseId) run)"

definition takeover_reevaluated :: "RefundContext \<Rightarrow> EvidenceSnapshot \<Rightarrow> string \<Rightarrow> RefundPolicyDecision \<Rightarrow> WorkflowRun \<Rightarrow> WorkflowRun" where
  "takeover_reevaluated ctx snap caseId dec run =
     (if effect dec = DENY then finish (mk_state S_DENIED dec None None) run
      else if effect dec = NEEDS_FACTS then finish (mk_state S_NEEDS_FACTS dec None None) run
      else exceptional_preview dec (Some snap) caseId ctx run)"

text \<open>The switch on the effect of the decision.\<close>

definition dispatch :: "RefundContext \<Rightarrow> RefundPolicyDecision \<Rightarrow> EvidenceSnapshot option \<Rightarrow> WorkflowRun \<Rightarrow> WorkflowRun" where
  "dispatch ctx dec evidence run =
     (case effect dec of
        NEEDS_FACTS \<Rightarrow> finish (mk_state S_NEEDS_FACTS dec None None) run
      | DENY \<Rightarrow> finish (mk_state S_DENIED dec None None) run
      | APPROVAL_REQUIRED \<Rightarrow> schedule (CreateRefundPreview (preview_input run ctx dec None)) (PC_Preview B_APPROVAL dec evidence) run
      | TAKEOVER_REQUIRED \<Rightarrow> openMonetaryCase evidence
          (buildOpenHumanCaseInput (wr_request run) (wr_workflowId run) dec None REFUND_TAKEOVER takeover_actions)
          (PC_OpenTakeover dec evidence) run
      | ALLOW \<Rightarrow> schedule (CreateRefundPreview (preview_input run ctx dec None)) (PC_Preview B_ALLOW dec evidence) run)"

text \<open>The evidence loop: the head of the \<^verbatim>\<open>while\<close> and the code after it.\<close>

definition evidence_loop :: "int \<Rightarrow> RefundPolicyDecision \<Rightarrow> EvidenceSnapshot \<Rightarrow> int \<Rightarrow> nat \<Rightarrow> WorkflowRun \<Rightarrow> WorkflowRun" where
  "evidence_loop now dec evidence deadline polls run =
     (if now \<ge> deadline
      then close_evidence evidence EVIDENCE_COLLECTION_EXPIRED_OUTCOME (PC_CloseExpired dec) run
      else if accepted_evidence evidence = None
      then suspend (PC_EvidenceSleep dec evidence deadline polls)
             (set_state (mk_state (if assessment evidence \<noteq> MORE_REQUIRED \<and> (readyCount evidence > 0 \<or> processingCount evidence > 0)
                then S_AWAITING_EVIDENCE_REVIEW else S_AWAITING_CUSTOMER_EVIDENCE) dec None None) run)
      else schedule (RefreshRefundContext (refresh_input run)) (PC_Context1 evidence) run)"

definition evidence_polled :: "int \<Rightarrow> RefundPolicyDecision \<Rightarrow> int \<Rightarrow> nat \<Rightarrow> EvidenceSnapshot \<Rightarrow> WorkflowRun \<Rightarrow> WorkflowRun" where
  "evidence_polled now dec deadline polls evidence run =
     (if polls + 1 \<ge> 120 \<and> accepted_evidence evidence = None \<and> now < deadline
      then suspend (PC_ContinuedAsNew ((wr_request run)
             \<lparr> rq_evidenceRecovery := Some \<lparr> rv_deadline = deadline, rv_decision = dec \<rparr> \<rparr>)) run
      else evidence_loop now dec evidence deadline (polls + 1) run)"

definition evidence_opened :: "int \<Rightarrow> RefundPolicyDecision \<Rightarrow> EvidenceSnapshot \<Rightarrow> WorkflowRun \<Rightarrow> WorkflowRun" where
  "evidence_opened now dec evidence run =
     evidence_loop now dec evidence
       (case rq_evidenceRecovery (wr_request run) of Some r \<Rightarrow> rv_deadline r | None \<Rightarrow> now + 24 * 60 * 60000) 0 run"

definition reviewed_decision :: "RefundContext \<Rightarrow> EvidenceSnapshot \<Rightarrow> RefundPolicyDecision \<Rightarrow> WorkflowRun \<Rightarrow> WorkflowRun" where
  "reviewed_decision ctx evidence dec run =
     (if effect dec \<in> {ALLOW, DENY, NEEDS_FACTS}
      then close_evidence evidence EVIDENCE_REVIEW_COMPLETED (PC_CloseReviewed ctx dec evidence) run
      else dispatch ctx dec (Some evidence) run)"

definition first_decision :: "RefundContext \<Rightarrow> RefundPolicyDecision \<Rightarrow> WorkflowRun \<Rightarrow> WorkflowRun" where
  "first_decision ctx dec run =
     (if rq_policyVersion (wr_request run) = ''refund-policy-v2'' \<and> effect dec = NEEDS_FACTS \<and> missingFacts dec = [DAMAGE_PHOTO]
      then schedule (OpenRefundEvidence (buildOpenHumanCaseInput (wr_request run) (wr_workflowId run) dec None REFUND_EVIDENCE_REVIEW []))
             (PC_OpenEvidence dec) run
      else dispatch ctx dec None run)"

definition first_context :: "RefundContext \<Rightarrow> WorkflowRun \<Rightarrow> WorkflowRun" where
  "first_context ctx run =
     (case rq_evidenceRecovery (wr_request run) of
        Some r \<Rightarrow> first_decision ctx (rv_decision r) run
      | None \<Rightarrow> schedule (EvaluateRefundPolicy (evaluate_input run ctx None)) (PC_Decision0 ctx) run)"

section \<open>Steps\<close>

definition initial_state :: RefundWorkflowState where
  "initial_state = \<lparr> stage = S_EVALUATING, st_decision = None, st_preview = None, st_providerRefundId = None \<rparr>"

text \<open>A fresh run of \<^verbatim>\<open>refundWorkflow(request)\<close>, up to its first await; the journal is the one so far.\<close>

definition start_run :: "RefundWorkflowRequest \<Rightarrow> string \<Rightarrow> entry list \<Rightarrow> WorkflowRun" where
  "start_run request workflowId journal =
     (let run = \<lparr> wr_request = request, wr_workflowId = workflowId, wr_pc = PC_Context0, wr_state = initial_state,
            wr_pending = None, wr_humanDecision = None, confirm_set = False, decide_set = False, outcome_set = False,
            buffered_confirmations = [], buffered_decisions = [], buffered_outcomes = [], wr_journal = journal \<rparr>
      in case rq_recovery request of
           Some r \<Rightarrow> reconcilePendingRefund (rc_decision r) (rc_preview r) (rc_attemptsInRun r)
             (set_state (mk_state S_PENDING_RECONCILIATION (rc_decision r) (Some (rc_preview r)) None) run)
         | None \<Rightarrow> schedule (RefreshRefundContext (refresh_input run)) PC_Context0 run)"

definition on_context :: "reply \<Rightarrow> (RefundContext \<Rightarrow> 'a) \<Rightarrow> 'a option" where
  "on_context r f = (case r of R_Context x \<Rightarrow> Some (f x) | _ \<Rightarrow> None)"

definition on_decision :: "reply \<Rightarrow> (RefundPolicyDecision \<Rightarrow> 'a) \<Rightarrow> 'a option" where
  "on_decision r f = (case r of R_Decision x \<Rightarrow> Some (f x) | _ \<Rightarrow> None)"

definition on_preview :: "reply \<Rightarrow> (RefundPreview \<Rightarrow> 'a) \<Rightarrow> 'a option" where
  "on_preview r f = (case r of R_Preview x \<Rightarrow> Some (f x) | _ \<Rightarrow> None)"

definition on_void :: "reply \<Rightarrow> 'a \<Rightarrow> 'a option" where
  "on_void r f = (case r of R_Void \<Rightarrow> Some f | _ \<Rightarrow> None)"

definition on_execute :: "reply \<Rightarrow> (ExecuteRefundResult \<Rightarrow> 'a) \<Rightarrow> 'a option" where
  "on_execute r f = (case r of R_Execute x \<Rightarrow> Some (f x) | _ \<Rightarrow> None)"

definition on_reconcile :: "reply \<Rightarrow> (ReconcileRefundResult \<Rightarrow> 'a) \<Rightarrow> 'a option" where
  "on_reconcile r f = (case r of R_Reconcile x \<Rightarrow> Some (f x) | _ \<Rightarrow> None)"

definition on_case :: "reply \<Rightarrow> (string \<Rightarrow> 'a) \<Rightarrow> 'a option" where
  "on_case r f = (case r of R_Case x \<Rightarrow> Some (f x) | _ \<Rightarrow> None)"

definition on_evidence :: "reply \<Rightarrow> (EvidenceSnapshot \<Rightarrow> 'a) \<Rightarrow> 'a option" where
  "on_evidence r f = (case r of R_Evidence x \<Rightarrow> Some (f x) | _ \<Rightarrow> None)"

text \<open>The awaited activity returned \<^verbatim>\<open>r\<close>; \<^const>\<open>None\<close> is a reply of another type, which cannot happen.\<close>

definition resume :: "(string \<Rightarrow> bool) \<Rightarrow> int \<Rightarrow> reply \<Rightarrow> WorkflowRun \<Rightarrow> WorkflowRun option" where
  "resume patched now r run =
     (case wr_pc run of
        PC_Context0 \<Rightarrow> on_context r (\<lambda>ctx. first_context ctx run)
      | PC_Decision0 ctx \<Rightarrow> on_decision r (\<lambda>dec. first_decision ctx dec run)
      | PC_OpenEvidence dec \<Rightarrow> on_evidence r (\<lambda>snap. evidence_opened now dec snap run)
      | PC_EvidenceRead dec deadline polls \<Rightarrow> on_evidence r (\<lambda>snap. evidence_polled now dec deadline polls snap run)
      | PC_CloseExpired dec \<Rightarrow> on_void r (finish (mk_state S_EVIDENCE_COLLECTION_EXPIRED dec None None) run)
      | PC_Context1 snap \<Rightarrow> on_context r (\<lambda>ctx.
          schedule (EvaluateRefundPolicy (evaluate_input run ctx (accepted_evidence snap))) (PC_Decision1 ctx snap) run)
      | PC_Decision1 ctx snap \<Rightarrow> on_decision r (\<lambda>dec. reviewed_decision ctx snap dec run)
      | PC_CloseReviewed ctx dec snap \<Rightarrow> on_void r (dispatch ctx dec (Some snap) run)
      | PC_Preview br dec evidence \<Rightarrow> on_preview r (\<lambda>pre. preview_created patched now br dec evidence pre run)
      | PC_Observe br dec pre evidence c \<Rightarrow> on_void r (confirmation_observed br dec pre evidence c run)
      | PC_CloseUnconfirmed st \<Rightarrow> on_void r (finish st run)
      | PC_OpenApproval dec pre evidence \<Rightarrow> on_case r (\<lambda>caseId. approval_opened dec pre evidence caseId run)
      | PC_CloseApproved dec pre evidence \<Rightarrow> on_void r (executeAuthorizedRefund B_APPROVAL dec pre evidence run)
      | PC_CloseDeclined st \<Rightarrow> on_void r (finish st run)
      | PC_OpenTakeover dec evidence \<Rightarrow> on_case r (\<lambda>caseId. takeover_opened dec evidence caseId run)
      | PC_CloseExceptional dec evidence caseId \<Rightarrow> on_void r
          (schedule (RefreshRefundContext (refresh_input run)) (PC_TakeoverContext dec evidence caseId) run)
      | PC_TakeoverContext dec evidence caseId \<Rightarrow> on_context r (\<lambda>ctx. takeover_refreshed dec evidence caseId ctx run)
      | PC_TakeoverEvidence dec ctx snap caseId \<Rightarrow> on_evidence r (\<lambda>current. takeover_evidence_read dec ctx snap caseId current run)
      | PC_TakeoverDecision ctx snap caseId \<Rightarrow> on_decision r (\<lambda>dec. takeover_reevaluated ctx snap caseId dec run)
      | PC_ExecEvidence br dec pre evidence \<Rightarrow> on_evidence r (\<lambda>current. execute_evidence_read br dec pre evidence current run)
      | PC_ExecRefresh br dec pre evidence \<Rightarrow> on_context r (\<lambda>ctx. execute_refreshed br dec pre ctx run)
      | PC_Execute br dec pre \<Rightarrow> on_execute r (\<lambda>result. executed dec pre result run)
      | PC_ProviderReconcile dec pre refundId outcome \<Rightarrow> on_reconcile r (\<lambda>rec. provider_reconciled dec pre refundId outcome rec run)
      | PC_Reconcile dec pre n \<Rightarrow> on_reconcile r (\<lambda>rec. pending_reconciled dec pre n rec run)
      | _ \<Rightarrow> None)"

datatype event =
    Complete reply
  | Rejected                     \<comment> \<open>the awaited promise rejects: the activity failed, or the run is cancelled\<close>
  | TimerFired
  | SigConfirm RefundCustomerConfirmation
  | SigDecide RefundHumanDecision
  | SigOutcome RefundProviderOutcome
  | Continue

definition is_final :: "pc \<Rightarrow> bool" where
  "is_final p = (case p of PC_Done \<Rightarrow> True | PC_Failed \<Rightarrow> True | PC_ContinuedAsNew _ \<Rightarrow> True | _ \<Rightarrow> False)"

definition complete :: "(string \<Rightarrow> bool) \<Rightarrow> int \<Rightarrow> reply \<Rightarrow> WorkflowRun \<Rightarrow> WorkflowRun" where
  "complete patched now r run =
     (case wr_pending run of
        None \<Rightarrow> run
      | Some c \<Rightarrow>
          (case resume patched now r (record_entries [Completed c r] (run\<lparr> wr_pending := None \<rparr>)) of
             None \<Rightarrow> run | Some run' \<Rightarrow> run'))"

definition timer_fired :: "(string \<Rightarrow> bool) \<Rightarrow> WorkflowRun \<Rightarrow> WorkflowRun" where
  "timer_fired patched run =
     (case wr_pc run of
        PC_EvidenceSleep dec snap deadline polls \<Rightarrow>
          schedule (ReadRefundEvidence (evidenceAccess run)) (PC_EvidenceRead dec deadline polls) run
      | PC_Confirm br dec pre evidence \<Rightarrow>
          if patched ''refund-preview-expiry-timer-v1'' then confirmation_returned patched br dec pre evidence None run else run
      | PC_ProviderWait dec pre refundId \<Rightarrow> provider_reconcile dec pre refundId None run
      | PC_ReconcileSleep dec pre n \<Rightarrow> pending_slept dec pre n run
      | _ \<Rightarrow> run)"

definition signal_confirm :: "(string \<Rightarrow> bool) \<Rightarrow> int \<Rightarrow> RefundCustomerConfirmation \<Rightarrow> WorkflowRun \<Rightarrow> WorkflowRun" where
  "signal_confirm patched now c run =
     (if \<not> confirm_set run then run\<lparr> buffered_confirmations := buffered_confirmations run @ [c] \<rparr>
      else case wr_pc run of
        PC_Confirm br dec pre evidence \<Rightarrow>
          (case confirm_handler patched now pre c (None, False) of (confirmation, expired) \<Rightarrow>
             if confirmation \<noteq> None \<or> expired
             then confirmation_returned patched br dec pre evidence confirmation
                    (record_entries (opt_entry (Confirmed now) confirmation) run)
             else run)
      | _ \<Rightarrow> run)"

definition signal_decide :: "RefundHumanDecision \<Rightarrow> WorkflowRun \<Rightarrow> WorkflowRun" where
  "signal_decide d run =
     (if \<not> decide_set run then run\<lparr> buffered_decisions := buffered_decisions run @ [d] \<rparr>
      else case wr_pc run of
        PC_AwaitApproval dec pre evidence caseId \<Rightarrow>
          (case decide_handler [APPROVE, REJECT] d None of
             None \<Rightarrow> run | Some human \<Rightarrow> approval_decided dec pre evidence caseId human run)
      | PC_AwaitTakeover dec evidence caseId \<Rightarrow>
          (case decide_handler takeover_actions d None of
             None \<Rightarrow> run | Some human \<Rightarrow> takeover_decided dec evidence caseId human run)
      | _ \<Rightarrow> run)"

definition signal_outcome :: "RefundProviderOutcome \<Rightarrow> WorkflowRun \<Rightarrow> WorkflowRun" where
  "signal_outcome received run =
     (if \<not> outcome_set run then run\<lparr> buffered_outcomes := buffered_outcomes run @ [received] \<rparr>
      else case wr_pc run of
        PC_ProviderReconcile dec pre refundId outcome \<Rightarrow>
          (case outcome of
             Some _ \<Rightarrow> run
           | None \<Rightarrow> (case outcome_handler refundId received None of
               None \<Rightarrow> run
             | Some o1 \<Rightarrow> record_entries [ProviderOutcome o1] (suspend (PC_ProviderReconcile dec pre refundId (Some o1)) run)))
      | PC_ProviderWait dec pre refundId \<Rightarrow>
          (case outcome_handler refundId received None of
             None \<Rightarrow> run
           | Some o1 \<Rightarrow> provider_reconcile dec pre refundId (Some o1) (record_entries [ProviderOutcome o1] run))
      | _ \<Rightarrow> run)"

definition step :: "(string \<Rightarrow> bool) \<Rightarrow> int \<Rightarrow> event \<Rightarrow> WorkflowRun \<Rightarrow> WorkflowRun" where
  "step patched now ev run =
     (case ev of
        Continue \<Rightarrow> (case wr_pc run of
            PC_ContinuedAsNew request \<Rightarrow> start_run request (wr_workflowId run) (wr_journal run)
          | _ \<Rightarrow> run)
      | _ \<Rightarrow>
        if is_final (wr_pc run) then run else
        (case ev of
           Complete r \<Rightarrow> complete patched now r run
         | Rejected \<Rightarrow> run\<lparr> wr_pc := PC_Failed, wr_pending := None \<rparr>
         | TimerFired \<Rightarrow> timer_fired patched run
         | SigConfirm c \<Rightarrow> signal_confirm patched now c run
         | SigDecide d \<Rightarrow> signal_decide d run
         | SigOutcome po \<Rightarrow> signal_outcome po run
         | Continue \<Rightarrow> run))"

text \<open>The runs of a journey: the request comes from the outside, so it carries no recovery data.\<close>

inductive reachable :: "(string \<Rightarrow> bool) \<Rightarrow> RefundWorkflowRequest \<Rightarrow> string \<Rightarrow> WorkflowRun \<Rightarrow> bool"
  for patched :: "string \<Rightarrow> bool" and request :: RefundWorkflowRequest and workflowId :: string where
  start: "rq_recovery request = None \<Longrightarrow> rq_evidenceRecovery request = None \<Longrightarrow>
    reachable patched request workflowId (start_run request workflowId [])"
| step: "reachable patched request workflowId run \<Longrightarrow> reachable patched request workflowId (step patched now ev run)"

end
