(* ===== verification/Workflow_Safety.thy ===== *)
theory Workflow_Safety
  imports Refund_Workflow
begin

text \<open>
  What every run of the refund workflow guarantees about the money it moves. The invariant
  \<^verbatim>\<open>run_inv\<close> says, per await point, which entries the journal of the journey already has; the
  segments of the code between two awaits are lemmas that lead from one await point to the next.
\<close>

section \<open>What the journal shows\<close>

abbreviation confirmation_patch :: string where
  "confirmation_patch \<equiv> ''refund-preview-expiry-confirmation-v1''"

definition no_exec :: "entry list \<Rightarrow> bool" where
  "no_exec J \<longleftrightarrow> (\<forall>i. Scheduled (ExecuteRefund i) \<notin> set J)"

definition confirmed_by :: "(string \<Rightarrow> bool) \<Rightarrow> entry list \<Rightarrow> RefundPreview \<Rightarrow> RefundCustomerConfirmation \<Rightarrow> bool" where
  "confirmed_by patched J pre c \<longleftrightarrow> (\<exists>t. Confirmed t c \<in> set J \<and> cf_previewId c = previewId pre
     \<and> (patched confirmation_patch \<longrightarrow> isRefundPreviewCurrent (pre_validUntil pre) t))"

definition confirmed_ok :: "(string \<Rightarrow> bool) \<Rightarrow> entry list \<Rightarrow> RefundPreview \<Rightarrow> bool" where
  "confirmed_ok patched J pre \<longleftrightarrow> (\<exists>c. confirmed_by patched J pre c \<and> cf_accepted c)"

definition decided_by :: "entry list \<Rightarrow> HumanCaseAction \<Rightarrow> bool" where
  "decided_by J a \<longleftrightarrow> (\<exists>h. Decided h \<in> set J \<and> hd_decision h = a)"

definition eval_call :: "RefundWorkflowRequest \<Rightarrow> RefundContext \<Rightarrow> AcceptedDamageEvidence option \<Rightarrow> call" where
  "eval_call R ctx ev = EvaluateRefundPolicy \<lparr> ev_proposal = rq_proposal R, ev_refundContext = ctx,
     ev_policyVersion = rq_policyVersion R, ev_damageEvidence = ev \<rparr>"

definition auth_of :: "branch \<Rightarrow> RefundPreviewAuthorization option" where
  "auth_of br = (case br of B_TAKEOVER caseId \<Rightarrow> Some \<lparr> auth_kind = ''HUMAN_EXCEPTIONAL_APPROVAL'',
     auth_caseId = caseId, auth_decision = ''APPROVE_EXCEPTIONAL_REFUND'' \<rparr> | _ \<Rightarrow> None)"

definition preview_call :: "RefundWorkflowRequest \<Rightarrow> RefundContext \<Rightarrow> RefundPolicyDecision \<Rightarrow> branch \<Rightarrow> call" where
  "preview_call R ctx dec br = CreateRefundPreview \<lparr> cp_proposal = rq_proposal R, cp_refundContext = ctx,
     cp_decision = dec, cp_authorization = auth_of br \<rparr>"

definition refresh_call :: "RefundWorkflowRequest \<Rightarrow> string \<Rightarrow> call" where
  "refresh_call R wid = RefreshRefundContext \<lparr> rf_proposal = rq_proposal R, rf_workflowId = wid, rf_access = rq_access R \<rparr>"

definition read_call :: "RefundWorkflowRequest \<Rightarrow> string \<Rightarrow> call" where
  "read_call R wid = ReadRefundEvidence \<lparr> ea_refresh = \<lparr> rf_proposal = rq_proposal R, rf_workflowId = wid, rf_access = rq_access R \<rparr>,
     ea_policyVersion = rq_policyVersion R \<rparr>"

definition execution_of :: "RefundWorkflowRequest \<Rightarrow> string \<Rightarrow> RefundPreview \<Rightarrow> ExecuteRefundInput" where
  "execution_of R wid pre = \<lparr> ex_proposal = rq_proposal R, ex_preview = pre, ex_workflowId = wid, ex_access = rq_access R \<rparr>"

definition decision_from :: "RefundWorkflowRequest \<Rightarrow> entry list \<Rightarrow> RefundPolicyDecision \<Rightarrow> AcceptedDamageEvidence option \<Rightarrow> bool" where
  "decision_from R J dec ev \<longleftrightarrow> (\<exists>ctx. Completed (eval_call R ctx ev) (R_Decision dec) \<in> set J)"

definition preview_from :: "RefundWorkflowRequest \<Rightarrow> entry list \<Rightarrow> branch \<Rightarrow> RefundPolicyDecision \<Rightarrow> RefundPreview \<Rightarrow> bool" where
  "preview_from R J br dec pre \<longleftrightarrow> (\<exists>ctx. Completed (preview_call R ctx dec br) (R_Preview pre) \<in> set J)"

definition same_evidence :: "AcceptedDamageEvidence option \<Rightarrow> AcceptedDamageEvidence option \<Rightarrow> bool" where
  "same_evidence a b \<longleftrightarrow> a = b \<or> sameAcceptedEvidence a b"

definition decided_on :: "RefundWorkflowRequest \<Rightarrow> entry list \<Rightarrow> RefundPolicyDecision \<Rightarrow> EvidenceSnapshot option \<Rightarrow> bool" where
  "decided_on R J dec evidence \<longleftrightarrow> (\<exists>ev. decision_from R J dec ev \<and> same_evidence (accepted_of evidence) ev)"

text \<open>Which decisions a branch may make an offer on, and what it needs before it may move money.\<close>

definition branch_ok :: "entry list \<Rightarrow> branch \<Rightarrow> RefundPolicyDecision \<Rightarrow> bool" where
  "branch_ok J br dec = (case br of B_ALLOW \<Rightarrow> effect dec = ALLOW | B_APPROVAL \<Rightarrow> effect dec = APPROVAL_REQUIRED
     | B_TAKEOVER _ \<Rightarrow> effect dec \<notin> {DENY, NEEDS_FACTS} \<and> decided_by J APPROVE_EXCEPTIONAL_REFUND)"

definition authorized :: "entry list \<Rightarrow> branch \<Rightarrow> bool" where
  "authorized J br \<longleftrightarrow> (br = B_APPROVAL \<longrightarrow> decided_by J APPROVE)"

definition offered :: "RefundWorkflowRequest \<Rightarrow> entry list \<Rightarrow> branch \<Rightarrow> RefundPolicyDecision \<Rightarrow> RefundPreview \<Rightarrow> EvidenceSnapshot option \<Rightarrow> bool" where
  "offered R J br dec pre evidence \<longleftrightarrow> decided_on R J dec evidence \<and> branch_ok J br dec \<and> preview_from R J br dec pre"

definition cleared ::
  "(string \<Rightarrow> bool) \<Rightarrow> RefundWorkflowRequest \<Rightarrow> entry list \<Rightarrow> branch \<Rightarrow> RefundPolicyDecision \<Rightarrow> RefundPreview \<Rightarrow> EvidenceSnapshot option \<Rightarrow> bool" where
  "cleared patched R J br dec pre evidence \<longleftrightarrow>
     offered R J br dec pre evidence \<and> confirmed_ok patched J pre \<and> authorized J br"

definition evidence_fresh :: "RefundWorkflowRequest \<Rightarrow> string \<Rightarrow> entry list \<Rightarrow> AcceptedDamageEvidence option \<Rightarrow> bool" where
  "evidence_fresh R wid J ev \<longleftrightarrow> (evidence_required R \<longrightarrow>
     (\<exists>snap. Completed (read_call R wid) (R_Evidence snap) \<in> set J \<and> sameAcceptedEvidence ev (accepted_evidence snap)))"

text \<open>
  A refund was requested from the gateway exactly once, right after the facts were read again and
  still covered the offer, and after everything that authorizes it.
\<close>

definition executed_once :: "(string \<Rightarrow> bool) \<Rightarrow> RefundWorkflowRequest \<Rightarrow> string \<Rightarrow> entry list \<Rightarrow> bool" where
  "executed_once patched R wid J \<longleftrightarrow>
     (\<exists>later earlier br dec pre evidence ctx.
        J = later @ Scheduled (ExecuteRefund (execution_of R wid pre)) # Completed (refresh_call R wid) (R_Context ctx) # earlier
        \<and> no_exec later \<and> no_exec earlier \<and> amountStillAvailable ctx pre
        \<and> cleared patched R earlier br dec pre evidence \<and> evidence_fresh R wid earlier (accepted_of evidence))"

definition success_shown :: "entry list \<Rightarrow> bool" where
  "success_shown J \<longleftrightarrow>
     (\<exists>i r. Completed (ExecuteRefund i) (R_Execute r) \<in> set J \<and> er_status r = SUCCEEDED)
     \<or> (\<exists>i r. Completed (ReconcileRefund i) (R_Reconcile r) \<in> set J \<and> rr_status r = RC_SUCCEEDED)
     \<or> (\<exists>po. ProviderOutcome po \<in> set J \<and> po_outcome po = COMPLETED)"

definition failure_shown :: "entry list \<Rightarrow> bool" where
  "failure_shown J \<longleftrightarrow>
     (\<exists>i r. Completed (ExecuteRefund i) (R_Execute r) \<in> set J \<and> er_status r = FAILED)
     \<or> (\<exists>i r. Completed (ReconcileRefund i) (R_Reconcile r) \<in> set J \<and> rr_status r = RC_FAILED)
     \<or> (\<exists>po. ProviderOutcome po \<in> set J \<and> po_outcome po = PROVIDER_FAILED)"

named_theorems journal_mono "facts about a journal that stay true when entries are added"

lemma no_exec_simps [simp]: "no_exec []" "no_exec (e # J) \<longleftrightarrow> (\<forall>i. e \<noteq> Scheduled (ExecuteRefund i)) \<and> no_exec J"
  "no_exec (J1 @ J2) \<longleftrightarrow> no_exec J1 \<and> no_exec J2"
  by (auto simp: no_exec_def)

lemma confirmed_by_mono [journal_mono]: "confirmed_by p J pre c \<Longrightarrow> confirmed_by p (e # J) pre c"
  by (auto simp: confirmed_by_def)

lemma confirmed_ok_mono [journal_mono]: "confirmed_ok p J pre \<Longrightarrow> confirmed_ok p (e # J) pre"
  by (auto simp: confirmed_ok_def intro: confirmed_by_mono)

lemma decided_by_mono [journal_mono]: "decided_by J a \<Longrightarrow> decided_by (e # J) a"
  by (auto simp: decided_by_def)

lemma decision_from_mono [journal_mono]: "decision_from R J dec ev \<Longrightarrow> decision_from R (e # J) dec ev"
  by (auto simp: decision_from_def)

lemma preview_from_mono [journal_mono]: "preview_from R J br dec pre \<Longrightarrow> preview_from R (e # J) br dec pre"
  by (auto simp: preview_from_def)

lemma decided_on_mono [journal_mono]: "decided_on R J dec evidence \<Longrightarrow> decided_on R (e # J) dec evidence"
  by (auto simp: decided_on_def intro: decision_from_mono)

lemma branch_ok_mono [journal_mono]: "branch_ok J br dec \<Longrightarrow> branch_ok (e # J) br dec"
  by (auto simp: branch_ok_def intro: decided_by_mono split: branch.splits)

lemma authorized_mono [journal_mono]: "authorized J br \<Longrightarrow> authorized (e # J) br"
  by (auto simp: authorized_def intro: decided_by_mono)

lemma offered_mono [journal_mono]: "offered R J br dec pre evidence \<Longrightarrow> offered R (e # J) br dec pre evidence"
  by (auto simp: offered_def intro: journal_mono)

lemma cleared_mono [journal_mono]: "cleared p R J br dec pre evidence \<Longrightarrow> cleared p R (e # J) br dec pre evidence"
  by (auto simp: cleared_def intro: journal_mono)

lemma evidence_fresh_mono [journal_mono]: "evidence_fresh R wid J ev \<Longrightarrow> evidence_fresh R wid (e # J) ev"
  by (auto simp: evidence_fresh_def)

lemma success_shown_mono [journal_mono]: "success_shown J \<Longrightarrow> success_shown (e # J)"
  by (auto simp: success_shown_def)

lemma failure_shown_mono [journal_mono]: "failure_shown J \<Longrightarrow> failure_shown (e # J)"
  by (auto simp: failure_shown_def)

lemma executed_once_Cons [journal_mono]:
  assumes "executed_once p R wid J" and "\<And>i. e \<noteq> Scheduled (ExecuteRefund i)"
  shows "executed_once p R wid (e # J)"
proof -
  from assms(1) obtain later earlier br dec pre evidence ctx where
    "J = later @ Scheduled (ExecuteRefund (execution_of R wid pre)) # Completed (refresh_call R wid) (R_Context ctx) # earlier"
    and r: "no_exec later" "no_exec earlier" "amountStillAvailable ctx pre"
      "cleared p R earlier br dec pre evidence" "evidence_fresh R wid earlier (accepted_of evidence)"
    unfolding executed_once_def by blast
  then have "e # J = (e # later) @ Scheduled (ExecuteRefund (execution_of R wid pre)) # Completed (refresh_call R wid) (R_Context ctx) # earlier"
    by simp
  moreover have "no_exec (e # later)" using assms(2) r(1) by simp
  ultimately show ?thesis using r(2-) unfolding executed_once_def by blast
qed

lemma executed_once_not_no_exec: "executed_once p R wid J \<Longrightarrow> no_exec J \<Longrightarrow> False"
  by (auto simp: executed_once_def)

lemma same_evidence_trans:
  "same_evidence a b \<Longrightarrow> sameAcceptedEvidence a c \<Longrightarrow> sameAcceptedEvidence b c"
  by (auto simp: same_evidence_def sameAcceptedEvidence_def split: option.splits)

section \<open>The invariant\<close>

definition same_request :: "RefundWorkflowRequest \<Rightarrow> RefundWorkflowRequest \<Rightarrow> bool" where
  "same_request R r \<longleftrightarrow> rq_proposal r = rq_proposal R \<and> rq_policyVersion r = rq_policyVersion R \<and> rq_access r = rq_access R"

definition settled :: "Stage \<Rightarrow> bool" where
  "settled s \<longleftrightarrow> s = S_REFUND_SUCCEEDED \<or> s = S_REFUND_FAILED"

definition pc_inv ::
  "(string \<Rightarrow> bool) \<Rightarrow> RefundWorkflowRequest \<Rightarrow> string \<Rightarrow> entry list \<Rightarrow> call option \<Rightarrow> RefundWorkflowState \<Rightarrow> pc \<Rightarrow> bool" where
  "pc_inv patched R wid J pending st p =
     (case p of
        PC_Context0 \<Rightarrow> no_exec J
      | PC_Decision0 ctx \<Rightarrow> no_exec J \<and> pending = Some (eval_call R ctx None)
      | PC_OpenEvidence dec \<Rightarrow> no_exec J \<and> decision_from R J dec None
      | PC_EvidenceSleep dec snap deadline polls \<Rightarrow> no_exec J \<and> decision_from R J dec None \<and> polls < 120
      | PC_EvidenceRead dec deadline polls \<Rightarrow> no_exec J \<and> decision_from R J dec None \<and> polls < 120
      | PC_CloseExpired dec \<Rightarrow> no_exec J
      | PC_Context1 snap \<Rightarrow> no_exec J
      | PC_Decision1 ctx snap \<Rightarrow> no_exec J \<and> pending = Some (eval_call R ctx (accepted_evidence snap))
      | PC_CloseReviewed ctx dec snap \<Rightarrow> no_exec J \<and> decided_on R J dec (Some snap)
      | PC_Preview br dec evidence \<Rightarrow> no_exec J \<and> decided_on R J dec evidence \<and> branch_ok J br dec
          \<and> (\<exists>ctx. pending = Some (preview_call R ctx dec br))
      | PC_Confirm br dec pre evidence \<Rightarrow> no_exec J \<and> offered R J br dec pre evidence
      | PC_Observe br dec pre evidence c \<Rightarrow> no_exec J \<and> offered R J br dec pre evidence \<and> confirmed_by patched J pre c
      | PC_CloseUnconfirmed st' \<Rightarrow> no_exec J \<and> \<not> settled (stage st')
      | PC_OpenApproval dec pre evidence \<Rightarrow> no_exec J \<and> offered R J B_APPROVAL dec pre evidence \<and> confirmed_ok patched J pre
      | PC_AwaitApproval dec pre evidence caseId \<Rightarrow> no_exec J \<and> offered R J B_APPROVAL dec pre evidence \<and> confirmed_ok patched J pre
      | PC_CloseApproved dec pre evidence \<Rightarrow> no_exec J \<and> cleared patched R J B_APPROVAL dec pre evidence
      | PC_CloseDeclined st' \<Rightarrow> no_exec J \<and> \<not> settled (stage st')
      | PC_OpenTakeover dec evidence \<Rightarrow> no_exec J \<and> decided_on R J dec evidence \<and> effect dec = TAKEOVER_REQUIRED
      | PC_AwaitTakeover dec evidence caseId \<Rightarrow> no_exec J \<and> decided_on R J dec evidence \<and> effect dec = TAKEOVER_REQUIRED
      | PC_CloseExceptional dec evidence caseId \<Rightarrow> no_exec J \<and> decided_on R J dec evidence \<and> branch_ok J (B_TAKEOVER caseId) dec
      | PC_TakeoverContext dec evidence caseId \<Rightarrow> no_exec J \<and> decided_on R J dec evidence \<and> branch_ok J (B_TAKEOVER caseId) dec
      | PC_TakeoverEvidence dec ctx snap caseId \<Rightarrow> no_exec J \<and> branch_ok J (B_TAKEOVER caseId) dec
      | PC_TakeoverDecision ctx snap caseId \<Rightarrow> no_exec J \<and> decided_by J APPROVE_EXCEPTIONAL_REFUND
          \<and> (\<exists>ev. pending = Some (eval_call R ctx ev) \<and> same_evidence (accepted_evidence snap) ev)
      | PC_ExecEvidence br dec pre evidence \<Rightarrow> no_exec J \<and> cleared patched R J br dec pre evidence \<and> pending = Some (read_call R wid)
      | PC_ExecRefresh br dec pre evidence \<Rightarrow> no_exec J \<and> cleared patched R J br dec pre evidence
          \<and> evidence_fresh R wid J (accepted_of evidence) \<and> pending = Some (refresh_call R wid)
      | PC_Execute br dec pre \<Rightarrow> executed_once patched R wid J \<and> pending = Some (ExecuteRefund (execution_of R wid pre))
      | PC_ProviderReconcile dec pre refundId outcome \<Rightarrow> executed_once patched R wid J
          \<and> pending = Some (ReconcileRefund (execution_of R wid pre)) \<and> (\<forall>po. outcome = Some po \<longrightarrow> ProviderOutcome po \<in> set J)
      | PC_ProviderWait dec pre refundId \<Rightarrow> executed_once patched R wid J
      | PC_Reconcile dec pre n \<Rightarrow> executed_once patched R wid J
          \<and> pending = Some (ReconcileRefund (execution_of R wid pre)) \<and> n < RECONCILIATION_ATTEMPTS_PER_RUN
      | PC_ReconcileSleep dec pre n \<Rightarrow> executed_once patched R wid J \<and> n < RECONCILIATION_ATTEMPTS_PER_RUN
      | PC_Done \<Rightarrow> (if settled (stage st)
          then executed_once patched R wid J \<and> (if stage st = S_REFUND_SUCCEEDED then success_shown J else failure_shown J)
          else no_exec J)
      | PC_Failed \<Rightarrow> no_exec J \<or> executed_once patched R wid J
      | PC_ContinuedAsNew r \<Rightarrow> same_request R r
          \<and> (case rq_recovery r of Some rec \<Rightarrow> executed_once patched R wid J \<and> rc_attemptsInRun rec = 0 | None \<Rightarrow> no_exec J)
          \<and> (\<forall>e. rq_evidenceRecovery r = Some e \<longrightarrow> decision_from R J (rv_decision e) None))"

definition base_inv :: "(string \<Rightarrow> bool) \<Rightarrow> RefundWorkflowRequest \<Rightarrow> string \<Rightarrow> WorkflowRun \<Rightarrow> bool" where
  "base_inv patched R wid run \<longleftrightarrow> same_request R (wr_request run) \<and> wr_workflowId run = wid
     \<and> (\<forall>e. rq_evidenceRecovery (wr_request run) = Some e \<longrightarrow> decision_from R (wr_journal run) (rv_decision e) None)
     \<and> (rq_recovery (wr_request run) \<noteq> None \<longrightarrow> executed_once patched R wid (wr_journal run))"

definition run_inv :: "(string \<Rightarrow> bool) \<Rightarrow> RefundWorkflowRequest \<Rightarrow> string \<Rightarrow> WorkflowRun \<Rightarrow> bool" where
  "run_inv patched R wid run \<longleftrightarrow> base_inv patched R wid run
     \<and> pc_inv patched R wid (wr_journal run) (wr_pending run) (wr_state run) (wr_pc run)"

text \<open>The elementary moves.\<close>

lemma base_inv_fields [simp]:
  "base_inv p R w (run\<lparr>wr_pc := a\<rparr>) = base_inv p R w run" "base_inv p R w (run\<lparr>wr_state := b\<rparr>) = base_inv p R w run"
  "base_inv p R w (run\<lparr>wr_pending := c\<rparr>) = base_inv p R w run" "base_inv p R w (run\<lparr>wr_humanDecision := d\<rparr>) = base_inv p R w run"
  "base_inv p R w (run\<lparr>confirm_set := e\<rparr>) = base_inv p R w run" "base_inv p R w (run\<lparr>decide_set := e\<rparr>) = base_inv p R w run"
  "base_inv p R w (run\<lparr>outcome_set := e\<rparr>) = base_inv p R w run"
  "base_inv p R w (run\<lparr>buffered_confirmations := f\<rparr>) = base_inv p R w run"
  "base_inv p R w (run\<lparr>buffered_decisions := g\<rparr>) = base_inv p R w run"
  "base_inv p R w (run\<lparr>buffered_outcomes := h\<rparr>) = base_inv p R w run"
  by (simp_all add: base_inv_def)

lemma base_inv_entry:
  assumes "base_inv p R w run" and "(\<forall>i. e \<noteq> Scheduled (ExecuteRefund i)) \<or> no_exec (wr_journal run)"
  shows "base_inv p R w (run\<lparr>wr_journal := e # wr_journal run\<rparr>)"
  using assms executed_once_not_no_exec [of p R w "wr_journal run"]
  by (auto simp: base_inv_def intro: decision_from_mono executed_once_Cons)

lemma run_inv_schedule:
  assumes "base_inv p R w run" and "(\<forall>i. c \<noteq> ExecuteRefund i) \<or> no_exec (wr_journal run)"
    and "pc_inv p R w (Scheduled c # wr_journal run) (Some c) (wr_state run) q"
  shows "run_inv p R w (schedule c q run)"
proof -
  have "base_inv p R w (run\<lparr>wr_journal := Scheduled c # wr_journal run\<rparr>)"
    using assms(1,2) by (intro base_inv_entry) auto
  with assms(3) show ?thesis by (simp add: run_inv_def schedule_def base_inv_def)
qed

lemma run_inv_finish:
  "base_inv p R w run \<Longrightarrow> pc_inv p R w (wr_journal run) (wr_pending run) st PC_Done \<Longrightarrow> run_inv p R w (finish st run)"
  by (simp add: run_inv_def finish_def)

lemma run_inv_suspend:
  "base_inv p R w run \<Longrightarrow> pc_inv p R w (wr_journal run) (wr_pending run) (wr_state run) q \<Longrightarrow> run_inv p R w (suspend q run)"
  by (simp add: run_inv_def suspend_def)

lemma pc_inv_done_unsettled: "no_exec J \<Longrightarrow> \<not> settled (stage st) \<Longrightarrow> pc_inv p R w J pend st PC_Done"
  by (simp add: pc_inv_def)

lemma mk_state_stage [simp]: "stage (mk_state s d q i) = s"
  by (simp add: mk_state_def)

lemma settled_simps [simp]:
  "settled S_REFUND_SUCCEEDED" "settled S_REFUND_FAILED" "\<not> settled S_PREVIEW_INVALIDATED" "\<not> settled S_CANCELLED"
  "\<not> settled S_NEEDS_FACTS" "\<not> settled S_DENIED" "\<not> settled S_REJECTED" "\<not> settled S_TAKEOVER_RESOLVED"
  "\<not> settled S_EVIDENCE_COLLECTION_EXPIRED"
  by (simp_all add: settled_def)

text \<open>The calls a run makes, in terms of the journey's own request.\<close>

lemma call_inputs:
  assumes "base_inv p R w run"
  shows "RefreshRefundContext (refresh_input run) = refresh_call R w"
    and "ReadRefundEvidence (evidenceAccess run) = read_call R w"
    and "EvaluateRefundPolicy (evaluate_input run ctx ev) = eval_call R ctx ev"
    and "execute_input run pre = execution_of R w pre"
    and "evidence_required (wr_request run) = evidence_required R"
  using assms
  by (simp_all add: base_inv_def same_request_def refresh_input_def refresh_call_def evidenceAccess_def read_call_def
      evaluate_input_def eval_call_def execute_input_def execution_of_def evidence_required_def)

lemma preview_inputs:
  assumes "base_inv p R w run"
  shows "CreateRefundPreview (preview_input run ctx dec None) = preview_call R ctx dec B_ALLOW"
    and "CreateRefundPreview (preview_input run ctx dec None) = preview_call R ctx dec B_APPROVAL"
    and "CreateRefundPreview (preview_input run ctx dec (Some \<lparr> auth_kind = ''HUMAN_EXCEPTIONAL_APPROVAL'',
         auth_caseId = caseId, auth_decision = ''APPROVE_EXCEPTIONAL_REFUND'' \<rparr>)) = preview_call R ctx dec (B_TAKEOVER caseId)"
  using assms
  by (simp_all add: base_inv_def same_request_def preview_input_def preview_call_def auth_of_def)

lemma call_not_execute [simp]:
  "refresh_call R w \<noteq> ExecuteRefund i" "read_call R w \<noteq> ExecuteRefund i" "eval_call R ctx ev \<noteq> ExecuteRefund i"
  "preview_call R ctx dec br \<noteq> ExecuteRefund i"
  by (simp_all add: refresh_call_def read_call_def eval_call_def preview_call_def)

section \<open>Segments\<close>

lemma execute_refresh_inv:
  assumes "base_inv p R w run" and "no_exec (wr_journal run)" and "cleared p R (wr_journal run) br dec pre evidence"
    and "evidence_fresh R w (wr_journal run) (accepted_of evidence)"
  shows "run_inv p R w (execute_refresh br dec pre evidence run)"
  unfolding execute_refresh_def
  by (rule run_inv_schedule [OF assms(1)])
     (use assms in \<open>simp_all add: call_inputs [OF assms(1)] pc_inv_def journal_mono\<close>)

lemma executeAuthorizedRefund_inv:
  assumes "base_inv p R w run" and "no_exec (wr_journal run)" and "cleared p R (wr_journal run) br dec pre evidence"
  shows "run_inv p R w (executeAuthorizedRefund br dec pre evidence run)"
proof (cases "evidence_required R")
  case True
  then show ?thesis unfolding executeAuthorizedRefund_def call_inputs [OF assms(1)]
    using assms by (auto intro!: run_inv_schedule simp: pc_inv_def journal_mono)
next
  case False
  then show ?thesis unfolding executeAuthorizedRefund_def call_inputs [OF assms(1)]
    using assms by (auto intro!: execute_refresh_inv simp: evidence_fresh_def)
qed

lemma execute_evidence_read_inv:
  assumes "base_inv p R w run" and "no_exec (wr_journal run)" and "cleared p R (wr_journal run) br dec pre evidence"
    and "Completed (read_call R w) (R_Evidence current) \<in> set (wr_journal run)"
  shows "run_inv p R w (execute_evidence_read br dec pre evidence current run)"
  unfolding execute_evidence_read_def using assms
  by (auto intro!: run_inv_finish execute_refresh_inv pc_inv_done_unsettled simp: evidence_fresh_def)

lemma execute_refreshed_inv:
  assumes "base_inv p R w run" and "wr_journal run = Completed (refresh_call R w) (R_Context ctx) # J" and "no_exec J"
    and "cleared p R J br dec pre evidence" and "evidence_fresh R w J (accepted_of evidence)"
  shows "run_inv p R w (execute_refreshed br dec pre ctx run)"
proof (cases "amountStillAvailable ctx pre")
  case True
  have "executed_once p R w (Scheduled (ExecuteRefund (execution_of R w pre)) # wr_journal run)"
    unfolding executed_once_def
    by (rule exI [of _ "[]"]) (use True assms in \<open>simp, blast\<close>)
  with True assms show ?thesis unfolding execute_refreshed_def call_inputs [OF assms(1)]
    by (auto intro!: run_inv_schedule simp: pc_inv_def)
next
  case False
  with assms show ?thesis unfolding execute_refreshed_def
    by (auto intro!: run_inv_finish pc_inv_done_unsettled)
qed

lemma provider_reconcile_inv:
  assumes "base_inv p R w run" and "executed_once p R w (wr_journal run)"
    and "\<And>po. outcome = Some po \<Longrightarrow> ProviderOutcome po \<in> set (wr_journal run)"
  shows "run_inv p R w (provider_reconcile dec pre refundId outcome run)"
  unfolding provider_reconcile_def using assms
  by (auto intro!: run_inv_schedule simp: pc_inv_def call_inputs [OF assms(1)] journal_mono)

lemma record_entries_inv:
  assumes "base_inv p R w run" and "\<forall>e \<in> set es. \<forall>i. e \<noteq> Scheduled (ExecuteRefund i)"
  shows "base_inv p R w (record_entries es run)"
  using assms(2)
proof (induction es)
  case Nil
  then show ?case using assms(1) by (simp add: record_entries_def)
next
  case (Cons e es)
  then have "base_inv p R w (record_entries es run)" by simp
  from base_inv_entry [OF this, of e] Cons.prems show ?case by (simp add: record_entries_def base_inv_def)
qed

lemma set_opt_entry [simp]: "e \<in> set (opt_entry f v) \<longleftrightarrow> (\<exists>x. v = Some x \<and> e = f x)"
  by (auto simp: opt_entry_def split: option.splits)

lemma executed_once_append:
  "executed_once p R w J \<Longrightarrow> \<forall>e \<in> set es. \<forall>i. e \<noteq> Scheduled (ExecuteRefund i) \<Longrightarrow> executed_once p R w (es @ J)"
  by (induction es) (auto intro: executed_once_Cons)

lemma record_entries_fields [simp]:
  "wr_journal (record_entries es run) = es @ wr_journal run" "wr_pc (record_entries es run) = wr_pc run"
  "wr_pending (record_entries es run) = wr_pending run" "wr_state (record_entries es run) = wr_state run"
  "wr_request (record_entries es run) = wr_request run" "wr_workflowId (record_entries es run) = wr_workflowId run"
  by (simp_all add: record_entries_def)

lemma set_state_fields [simp]:
  "wr_journal (set_state st run) = wr_journal run" "wr_pc (set_state st run) = wr_pc run"
  "wr_pending (set_state st run) = wr_pending run" "wr_state (set_state st run) = st"
  "wr_request (set_state st run) = wr_request run" "wr_workflowId (set_state st run) = wr_workflowId run" "base_inv p R w (set_state st run) = base_inv p R w run"
  "buffered_outcomes (set_state st run) = buffered_outcomes run"
  "buffered_confirmations (set_state st run) = buffered_confirmations run"
  by (simp_all add: set_state_def)

lemma awaitProviderRefundOutcome_inv:
  assumes "base_inv p R w run" and "executed_once p R w (wr_journal run)"
  shows "run_inv p R w (awaitProviderRefundOutcome dec pre refundId run)"
  unfolding awaitProviderRefundOutcome_def Let_def
  by (rule provider_reconcile_inv) (use assms in \<open>auto intro!: record_entries_inv executed_once_append\<close>)

lemma reconcilePendingRefund_inv:
  assumes "base_inv p R w run" and "executed_once p R w (wr_journal run)" and "n < RECONCILIATION_ATTEMPTS_PER_RUN"
  shows "run_inv p R w (reconcilePendingRefund dec pre n run)"
  unfolding reconcilePendingRefund_def using assms
  by (auto intro!: run_inv_schedule simp: pc_inv_def call_inputs [OF assms(1)] journal_mono)

lemma executed_inv:
  assumes "base_inv p R w run" and "executed_once p R w (wr_journal run)"
    and "Completed (ExecuteRefund i) (R_Execute result) \<in> set (wr_journal run)"
  shows "run_inv p R w (executed dec pre result run)"
proof (cases "er_status result")
  case SUBMITTED
  then show ?thesis using assms(1,2) by (simp add: executed_def awaitProviderRefundOutcome_inv)
next
  case SUCCEEDED
  with assms have "success_shown (wr_journal run)" by (auto simp: success_shown_def)
  with SUCCEEDED assms show ?thesis by (auto simp: executed_def pc_inv_def intro!: run_inv_finish)
next
  case FAILED
  with assms have "failure_shown (wr_journal run)" by (auto simp: failure_shown_def)
  with FAILED assms show ?thesis by (auto simp: executed_def pc_inv_def intro!: run_inv_finish)
next
  case PENDING_RECONCILIATION
  then show ?thesis using assms(1,2)
    by (simp add: executed_def reconcilePendingRefund_inv RECONCILIATION_ATTEMPTS_PER_RUN_def)
qed

lemma provider_reconciled_inv:
  assumes "base_inv p R w run" and "executed_once p R w (wr_journal run)"
    and "Completed (ReconcileRefund i) (R_Reconcile result) \<in> set (wr_journal run)"
    and "\<And>po. outcome = Some po \<Longrightarrow> ProviderOutcome po \<in> set (wr_journal run)"
  shows "run_inv p R w (provider_reconciled dec pre refundId outcome result run)"
proof -
  have "success_shown (wr_journal run)" if "rr_status result = RC_SUCCEEDED \<or> map_option po_outcome outcome = Some COMPLETED"
    using that assms(3,4) by (auto simp: success_shown_def)
  moreover have "failure_shown (wr_journal run)" if "rr_status result = RC_FAILED \<or> map_option po_outcome outcome = Some PROVIDER_FAILED"
    using that assms(3,4) by (auto simp: failure_shown_def)
  ultimately show ?thesis using assms(1,2) unfolding provider_reconciled_def Let_def
    by (auto simp: pc_inv_def intro!: run_inv_finish run_inv_suspend)
qed

lemma pending_reconciled_inv:
  assumes "base_inv p R w run" and "executed_once p R w (wr_journal run)"
    and "Completed (ReconcileRefund i) (R_Reconcile result) \<in> set (wr_journal run)" and "n < RECONCILIATION_ATTEMPTS_PER_RUN"
  shows "run_inv p R w (pending_reconciled dec pre n result run)"
proof -
  have "rr_status result = RC_SUCCEEDED \<Longrightarrow> success_shown (wr_journal run)"
    and "rr_status result = RC_FAILED \<Longrightarrow> failure_shown (wr_journal run)"
    using assms(3) by (auto simp: success_shown_def failure_shown_def)
  with assms show ?thesis unfolding pending_reconciled_def
    by (auto simp: pc_inv_def intro!: run_inv_finish run_inv_suspend split: ReconciliationStatus.splits)
qed

lemma pending_slept_inv:
  assumes "base_inv p R w run" and "executed_once p R w (wr_journal run)" and "n < RECONCILIATION_ATTEMPTS_PER_RUN"
  shows "run_inv p R w (pending_slept dec pre n run)"
  using assms unfolding pending_slept_def
  by (auto intro!: reconcilePendingRefund_inv run_inv_suspend simp: pc_inv_def base_inv_def same_request_def)

lemma leave_unconfirmed_inv:
  assumes "base_inv p R w run" and "no_exec (wr_journal run)" and "\<not> settled (stage st)"
  shows "run_inv p R w (leave_unconfirmed br evidence st run)"
  using assms unfolding leave_unconfirmed_def close_evidence_def
  by (auto intro!: run_inv_schedule run_inv_finish pc_inv_done_unsettled simp: pc_inv_def split: option.splits)

lemma openMonetaryCase_inv:
  assumes "base_inv p R w run"
    and "\<And>c. (\<forall>i. c \<noteq> ExecuteRefund i) \<Longrightarrow> pc_inv p R w (Scheduled c # wr_journal run) (Some c) (wr_state run) q"
  shows "run_inv p R w (openMonetaryCase evidence input q run)"
  using assms unfolding openMonetaryCase_def by (auto intro!: run_inv_schedule split: option.splits)

lemma confirmation_observed_inv:
  assumes "base_inv p R w run" and "no_exec (wr_journal run)" and "offered R (wr_journal run) br dec pre evidence"
    and "confirmed_by p (wr_journal run) pre c"
  shows "run_inv p R w (confirmation_observed br dec pre evidence c run)"
proof (cases "cf_accepted c")
  case False
  with assms show ?thesis by (simp add: confirmation_observed_def leave_unconfirmed_inv)
next
  case True
  with assms(4) have k: "confirmed_ok p (wr_journal run) pre" by (auto simp: confirmed_ok_def)
  show ?thesis
  proof (cases "br = B_APPROVAL")
    case approval: True
    with True k assms show ?thesis
      by (auto simp: confirmation_observed_def pc_inv_def journal_mono intro!: openMonetaryCase_inv)
  next
    case False
    with True k assms show ?thesis
      by (auto simp: confirmation_observed_def cleared_def authorized_def intro!: executeAuthorizedRefund_inv)
  qed
qed

lemma confirmation_returned_inv:
  assumes "base_inv p R w run" and "no_exec (wr_journal run)" and "offered R (wr_journal run) br dec pre evidence"
    and "\<And>c. confirmation = Some c \<Longrightarrow> confirmed_by p (wr_journal run) pre c"
  shows "run_inv p R w (confirmation_returned patched br dec pre evidence confirmation run)"
  using assms unfolding confirmation_returned_def
  by (auto intro!: leave_unconfirmed_inv confirmation_observed_inv run_inv_schedule simp: pc_inv_def journal_mono split: option.splits)

text \<open>What the confirmation handler accepts, one signal or a buffer of them.\<close>

definition handler_ok :: "(string \<Rightarrow> bool) \<Rightarrow> int \<Rightarrow> RefundPreview \<Rightarrow> RefundCustomerConfirmation option \<Rightarrow> bool" where
  "handler_ok patched now pre confirmation \<longleftrightarrow> (\<forall>c. confirmation = Some c \<longrightarrow> cf_previewId c = previewId pre
     \<and> (patched confirmation_patch \<longrightarrow> isRefundPreviewCurrent (pre_validUntil pre) now))"

lemma confirm_handler_ok:
  "handler_ok patched now pre (fst s) \<Longrightarrow> handler_ok patched now pre (fst (confirm_handler patched now pre c s))"
  by (auto simp: confirm_handler_def handler_ok_def split: prod.splits)

lemma fold_confirm_handler_ok:
  "handler_ok patched now pre (fst s) \<Longrightarrow> handler_ok patched now pre (fst (fold (confirm_handler patched now pre) cs s))"
  by (induction cs arbitrary: s) (simp_all add: confirm_handler_ok)

lemma offered_append: "offered R J br dec pre evidence \<Longrightarrow> offered R (es @ J) br dec pre evidence"
  by (induction es) (auto intro: offered_mono)

lemma confirmed_recorded:
  assumes "handler_ok p now pre confirmation" and "confirmation = Some c"
  shows "confirmed_by p (opt_entry (Confirmed now) confirmation @ J) pre c"
  using assms by (auto simp: handler_ok_def confirmed_by_def)

lemma no_exec_opt_entry [simp]: "no_exec (opt_entry (Confirmed now) c)"
  by (auto simp: no_exec_def)

lemma confirmation_recorded_inv:
  assumes "base_inv p R w run" and "no_exec (wr_journal run)" and "offered R (wr_journal run) br dec pre evidence"
    and "handler_ok p now pre confirmation"
  shows "run_inv p R w (confirmation_returned p br dec pre evidence confirmation
    (record_entries (opt_entry (Confirmed now) confirmation) run))"
  by (rule confirmation_returned_inv)
     (use assms in \<open>auto intro!: record_entries_inv offered_append confirmed_recorded\<close>)

lemma waitForRefundConfirmation_inv:
  assumes "base_inv p R w run" and "no_exec (wr_journal run)" and "offered R (wr_journal run) br dec pre evidence"
  shows "run_inv p R w (waitForRefundConfirmation p now br dec pre evidence run)"
proof -
  obtain confirmation expired where h: "fold (confirm_handler p now pre) (buffered_confirmations run) (None, False) = (confirmation, expired)"
    by fastforce
  have ok: "handler_ok p now pre confirmation"
    using fold_confirm_handler_ok [of p now pre "(None, False)" "buffered_confirmations run"] h by (simp add: handler_ok_def)
  let ?run = "run\<lparr> confirm_set := True, buffered_confirmations := [] \<rparr>"
  let ?run' = "record_entries (opt_entry (Confirmed now) confirmation) ?run"
  have r: "run_inv p R w (confirmation_returned p br dec pre evidence confirmation ?run')"
    using assms ok by (intro confirmation_recorded_inv) auto
  have s: "run_inv p R w (suspend (PC_Confirm br dec pre evidence) ?run')"
    using assms by (auto intro!: run_inv_suspend record_entries_inv offered_append simp: pc_inv_def)
  show ?thesis using r s unfolding waitForRefundConfirmation_def h
    by (cases confirmation) (auto simp: Let_def split: option.splits)
qed

lemma preview_created_inv:
  assumes "base_inv p R w run" and "no_exec (wr_journal run)" and "offered R (wr_journal run) br dec pre evidence"
  shows "run_inv p R w (preview_created p now br dec evidence pre run)"
  unfolding preview_created_def by (rule waitForRefundConfirmation_inv) (use assms in auto)

lemma record_decided_inv:
  "base_inv p R w run \<Longrightarrow> base_inv p R w (record_entries [Decided h] (run\<lparr>wr_humanDecision := Some h\<rparr>))"
  by (rule record_entries_inv) auto

lemma approval_decided_inv:
  assumes "base_inv p R w run" and "no_exec (wr_journal run)" and "offered R (wr_journal run) B_APPROVAL dec pre evidence"
    and "confirmed_ok p (wr_journal run) pre" and "hd_decision h \<in> {APPROVE, REJECT}"
  shows "run_inv p R w (approval_decided dec pre evidence caseId h run)"
  using assms(2-) unfolding approval_decided_def Let_def close_case_def
  by (auto intro!: run_inv_schedule record_decided_inv [OF assms(1)] simp: pc_inv_def cleared_def authorized_def journal_mono)
     (auto simp: decided_by_def)

lemma decide_handler_fold_from:
  "(\<And>h'. s = Some h' \<Longrightarrow> hd_decision h' \<in> set acts) \<Longrightarrow> fold (decide_handler acts) ds s = Some h \<Longrightarrow> hd_decision h \<in> set acts"
  by (induction ds arbitrary: s) (auto simp: decide_handler_def split: if_split_asm)

lemma decide_handler_fold: "fold (decide_handler acts) ds None = Some h \<Longrightarrow> hd_decision h \<in> set acts"
  by (rule decide_handler_fold_from [of None]) auto

lemma approval_opened_inv:
  assumes "base_inv p R w run" and "no_exec (wr_journal run)" and "offered R (wr_journal run) B_APPROVAL dec pre evidence"
    and "confirmed_ok p (wr_journal run) pre"
  shows "run_inv p R w (approval_opened dec pre evidence caseId run)"
  using assms unfolding approval_opened_def Let_def
  by (auto intro!: run_inv_suspend approval_decided_inv simp: pc_inv_def split: option.splits dest!: decide_handler_fold)

lemma takeover_decided_inv:
  assumes "base_inv p R w run" and "no_exec (wr_journal run)" and "decided_on R (wr_journal run) dec evidence"
    and "effect dec = TAKEOVER_REQUIRED"
  shows "run_inv p R w (takeover_decided dec evidence caseId h run)"
  using assms(2-) unfolding takeover_decided_def Let_def close_case_def
  by (auto intro!: run_inv_schedule record_decided_inv [OF assms(1)] simp: pc_inv_def branch_ok_def journal_mono)
     (auto simp: decided_by_def)

lemma takeover_opened_inv:
  assumes "base_inv p R w run" and "no_exec (wr_journal run)" and "decided_on R (wr_journal run) dec evidence"
    and "effect dec = TAKEOVER_REQUIRED"
  shows "run_inv p R w (takeover_opened dec evidence caseId run)"
  using assms unfolding takeover_opened_def Let_def
  by (auto intro!: run_inv_suspend takeover_decided_inv simp: pc_inv_def split: option.splits)

lemma exceptional_preview_inv:
  assumes "base_inv p R w run" and "no_exec (wr_journal run)" and "decided_on R (wr_journal run) dec evidence"
    and "branch_ok (wr_journal run) (B_TAKEOVER caseId) dec"
  shows "run_inv p R w (exceptional_preview dec evidence caseId ctx run)"
  using assms(2-) unfolding exceptional_preview_def preview_inputs [OF assms(1)]
  by (auto intro!: run_inv_schedule [OF assms(1)] simp: pc_inv_def journal_mono)

lemma takeover_refreshed_inv:
  assumes "base_inv p R w run" and "no_exec (wr_journal run)" and "decided_on R (wr_journal run) dec evidence"
    and "branch_ok (wr_journal run) (B_TAKEOVER caseId) dec"
  shows "run_inv p R w (takeover_refreshed dec evidence caseId ctx run)"
  using assms unfolding takeover_refreshed_def call_inputs [OF assms(1)]
  by (auto intro!: run_inv_schedule exceptional_preview_inv simp: pc_inv_def journal_mono split: option.splits)

lemma takeover_evidence_read_inv:
  assumes "base_inv p R w run" and "no_exec (wr_journal run)" and "branch_ok (wr_journal run) (B_TAKEOVER caseId) dec"
  shows "run_inv p R w (takeover_evidence_read dec ctx snap caseId current run)"
  using assms unfolding takeover_evidence_read_def call_inputs [OF assms(1)]
  by (auto intro!: run_inv_schedule run_inv_finish pc_inv_done_unsettled
      simp: pc_inv_def branch_ok_def same_evidence_def journal_mono)

lemma takeover_reevaluated_inv:
  assumes "base_inv p R w run" and "no_exec (wr_journal run)" and "decided_on R (wr_journal run) dec (Some snap)"
    and "decided_by (wr_journal run) APPROVE_EXCEPTIONAL_REFUND"
  shows "run_inv p R w (takeover_reevaluated ctx snap caseId dec run)"
  using assms unfolding takeover_reevaluated_def
  by (auto intro!: run_inv_finish exceptional_preview_inv pc_inv_done_unsettled simp: branch_ok_def)

lemma dispatch_inv:
  assumes "base_inv p R w run" and "no_exec (wr_journal run)" and "decided_on R (wr_journal run) dec evidence"
  shows "run_inv p R w (dispatch ctx dec evidence run)"
proof (cases "effect dec")
  case ALLOW
  with assms show ?thesis unfolding dispatch_def
    by (auto intro!: run_inv_schedule simp: pc_inv_def branch_ok_def journal_mono preview_inputs(1) [OF assms(1)])
next
  case APPROVAL_REQUIRED
  with assms show ?thesis unfolding dispatch_def
    by (auto intro!: run_inv_schedule simp: pc_inv_def branch_ok_def journal_mono preview_inputs(2) [OF assms(1)])
next
  case TAKEOVER_REQUIRED
  with assms show ?thesis unfolding dispatch_def
    by (auto intro!: openMonetaryCase_inv simp: pc_inv_def journal_mono)
qed (use assms in \<open>auto simp: dispatch_def intro!: run_inv_finish pc_inv_done_unsettled\<close>)

lemma evidence_loop_inv:
  assumes "base_inv p R w run" and "no_exec (wr_journal run)" and "decision_from R (wr_journal run) dec None"
    and "polls < 120 \<or> accepted_evidence evidence \<noteq> None \<or> deadline \<le> now"
  shows "run_inv p R w (evidence_loop now dec evidence deadline polls run)"
  using assms unfolding evidence_loop_def close_evidence_def call_inputs [OF assms(1)]
  by (auto intro!: run_inv_schedule run_inv_suspend simp: pc_inv_def)

lemma evidence_polled_inv:
  assumes "base_inv p R w run" and "no_exec (wr_journal run)" and "decision_from R (wr_journal run) dec None"
  shows "run_inv p R w (evidence_polled now dec deadline polls evidence run)"
proof -
  have "rq_recovery (wr_request run) = None"
    using assms(1,2) executed_once_not_no_exec by (auto simp: base_inv_def)
  with assms show ?thesis unfolding evidence_polled_def
    by (auto intro!: evidence_loop_inv run_inv_suspend simp: pc_inv_def base_inv_def same_request_def)
qed

lemma evidence_opened_inv:
  assumes "base_inv p R w run" and "no_exec (wr_journal run)" and "decision_from R (wr_journal run) dec None"
  shows "run_inv p R w (evidence_opened now dec evidence run)"
  unfolding evidence_opened_def by (rule evidence_loop_inv) (use assms in auto)

lemma reviewed_decision_inv:
  assumes "base_inv p R w run" and "no_exec (wr_journal run)" and "decided_on R (wr_journal run) dec (Some snap)"
  shows "run_inv p R w (reviewed_decision ctx snap dec run)"
  using assms unfolding reviewed_decision_def close_evidence_def
  by (auto intro!: run_inv_schedule dispatch_inv simp: pc_inv_def journal_mono)

lemma decided_on_none: "decision_from R J dec None \<Longrightarrow> decided_on R J dec None"
  by (auto simp: decided_on_def same_evidence_def accepted_of_def)

lemma first_decision_inv:
  assumes "base_inv p R w run" and "no_exec (wr_journal run)" and "decision_from R (wr_journal run) dec None"
  shows "run_inv p R w (first_decision ctx dec run)"
  using assms unfolding first_decision_def
  by (auto intro!: run_inv_schedule dispatch_inv decided_on_none simp: pc_inv_def journal_mono)

lemma first_context_inv:
  assumes "base_inv p R w run" and "no_exec (wr_journal run)"
  shows "run_inv p R w (first_context ctx run)"
  using assms unfolding first_context_def call_inputs [OF assms(1)]
  by (auto intro!: run_inv_schedule first_decision_inv simp: pc_inv_def base_inv_def split: option.splits)

section \<open>Steps\<close>

lemma start_run_inv:
  assumes "same_request R request"
    and "case rq_recovery request of Some rec \<Rightarrow> executed_once p R w J \<and> rc_attemptsInRun rec = 0 | None \<Rightarrow> no_exec J"
    and "\<And>e. rq_evidenceRecovery request = Some e \<Longrightarrow> decision_from R J (rv_decision e) None"
  shows "run_inv p R w (start_run request w J)"
proof (cases "rq_recovery request")
  case None
  with assms show ?thesis
    by (auto simp: start_run_def Let_def base_inv_def pc_inv_def intro!: run_inv_schedule)
next
  case (Some rec)
  with assms show ?thesis
    by (auto simp: start_run_def Let_def base_inv_def RECONCILIATION_ATTEMPTS_PER_RUN_def intro!: reconcilePendingRefund_inv)
qed

lemma on_reply_simps:
  "on_context r f = Some x \<longleftrightarrow> (\<exists>y. r = R_Context y \<and> x = f y)" "on_decision r g = Some x \<longleftrightarrow> (\<exists>y. r = R_Decision y \<and> x = g y)"
  "on_preview r h = Some x \<longleftrightarrow> (\<exists>y. r = R_Preview y \<and> x = h y)" "on_void r v = Some x \<longleftrightarrow> r = R_Void \<and> x = v"
  "on_execute r k = Some x \<longleftrightarrow> (\<exists>y. r = R_Execute y \<and> x = k y)" "on_reconcile r l = Some x \<longleftrightarrow> (\<exists>y. r = R_Reconcile y \<and> x = l y)"
  "on_case r m = Some x \<longleftrightarrow> (\<exists>y. r = R_Case y \<and> x = m y)" "on_evidence r n = Some x \<longleftrightarrow> (\<exists>y. r = R_Evidence y \<and> x = n y)"
  by (auto simp: on_context_def on_decision_def on_preview_def on_void_def on_execute_def on_reconcile_def on_case_def
      on_evidence_def split: reply.splits)

text \<open>A run whose awaited call was answered: its invariant, with the answer in the journal.\<close>

definition answered :: "(string \<Rightarrow> bool) \<Rightarrow> RefundWorkflowRequest \<Rightarrow> string \<Rightarrow> call \<Rightarrow> reply \<Rightarrow> WorkflowRun \<Rightarrow> bool" where
  "answered p R w c r run \<longleftrightarrow> base_inv p R w run
     \<and> (\<exists>J. wr_journal run = Completed c r # J \<and> pc_inv p R w J (Some c) (wr_state run) (wr_pc run))"

lemma answered_decision:
  "Completed (eval_call R ctx ev) (R_Decision dec) \<in> set J \<Longrightarrow> decision_from R J dec ev"
  by (auto simp: decision_from_def)

lemma answered_decision_head [simp]: "decision_from R (Completed (eval_call R ctx ev) (R_Decision dec) # J) dec ev"
  by (auto simp: decision_from_def)

lemma answered_reviewed:
  "decision_from R J dec ev \<Longrightarrow> same_evidence (accepted_evidence snap) ev \<Longrightarrow> decided_on R J dec (Some snap)"
  by (auto simp: decided_on_def accepted_of_def)

lemma answered_preview:
  "decided_on R J dec evidence \<Longrightarrow> branch_ok J br dec \<Longrightarrow> offered R (Completed (preview_call R ctx dec br) (R_Preview pre) # J) br dec pre evidence"
  by (auto simp: offered_def preview_from_def intro: journal_mono)

lemma resume_inv:
  assumes "answered p R w c r run" and "resume p now r run = Some run'"
  shows "run_inv p R w run'"
proof (cases "wr_pc run")
  case PC_Context0
  with assms show ?thesis
    by (auto simp: resume_def answered_def pc_inv_def on_reply_simps intro!: first_context_inv)
next
  case (PC_Context1 snap)
  then obtain ctx where "run' = schedule (EvaluateRefundPolicy (evaluate_input run ctx (accepted_evidence snap))) (PC_Decision1 ctx snap) run"
    using assms(2) by (auto simp: resume_def on_reply_simps)
  with PC_Context1 assms(1) show ?thesis
    by (auto simp: answered_def pc_inv_def call_inputs intro!: run_inv_schedule)
next
  case (PC_Decision1 ctx snap)
  with assms obtain dec where "r = R_Decision dec" "run' = reviewed_decision ctx snap dec run" "base_inv p R w run"
    "no_exec (wr_journal run)" "decision_from R (wr_journal run) dec (accepted_evidence snap)"
    by (auto simp: resume_def answered_def pc_inv_def on_reply_simps)
  then show ?thesis by (auto intro!: reviewed_decision_inv answered_reviewed simp: same_evidence_def)
next
  case (PC_Decision0 ctx)
  with assms show ?thesis
    by (auto simp: resume_def answered_def pc_inv_def on_reply_simps journal_mono intro!: first_decision_inv answered_decision)
next
  case (PC_OpenEvidence dec)
  with assms show ?thesis
    by (auto simp: resume_def answered_def pc_inv_def on_reply_simps journal_mono intro!: evidence_opened_inv)
next
  case (PC_EvidenceRead dec deadline polls)
  with assms show ?thesis
    by (auto simp: resume_def answered_def pc_inv_def on_reply_simps journal_mono intro!: evidence_polled_inv)
next
  case (PC_CloseExpired dec)
  with assms show ?thesis
    by (auto simp: resume_def answered_def pc_inv_def on_reply_simps journal_mono intro!: run_inv_finish pc_inv_done_unsettled)
next
  case (PC_CloseReviewed ctx dec snap)
  with assms show ?thesis
    by (auto simp: resume_def answered_def pc_inv_def on_reply_simps journal_mono intro!: dispatch_inv)
next
  case (PC_Preview br dec evidence)
  with assms show ?thesis
    by (auto simp: resume_def answered_def pc_inv_def on_reply_simps journal_mono intro!: preview_created_inv answered_preview)
next
  case (PC_Observe br dec pre evidence c)
  with assms show ?thesis
    by (auto simp: resume_def answered_def pc_inv_def on_reply_simps journal_mono intro!: confirmation_observed_inv)
next
  case (PC_CloseUnconfirmed st)
  with assms show ?thesis
    by (auto simp: resume_def answered_def pc_inv_def on_reply_simps journal_mono intro!: run_inv_finish pc_inv_done_unsettled)
next
  case (PC_OpenApproval dec pre evidence)
  with assms show ?thesis
    by (auto simp: resume_def answered_def pc_inv_def on_reply_simps journal_mono intro!: approval_opened_inv)
next
  case (PC_CloseApproved dec pre evidence)
  with assms show ?thesis
    by (auto simp: resume_def answered_def pc_inv_def on_reply_simps journal_mono intro!: executeAuthorizedRefund_inv)
next
  case (PC_CloseDeclined st)
  with assms show ?thesis
    by (auto simp: resume_def answered_def pc_inv_def on_reply_simps journal_mono intro!: run_inv_finish pc_inv_done_unsettled)
next
  case (PC_OpenTakeover dec evidence)
  with assms show ?thesis
    by (auto simp: resume_def answered_def pc_inv_def on_reply_simps journal_mono intro!: takeover_opened_inv)
next
  case (PC_CloseExceptional dec evidence caseId)
  with assms show ?thesis
    by (auto simp: resume_def answered_def pc_inv_def on_reply_simps journal_mono intro!: run_inv_schedule)
next
  case (PC_TakeoverContext dec evidence caseId)
  with assms show ?thesis
    by (auto simp: resume_def answered_def pc_inv_def on_reply_simps journal_mono intro!: takeover_refreshed_inv)
next
  case (PC_TakeoverEvidence dec ctx snap caseId)
  with assms show ?thesis
    by (auto simp: resume_def answered_def pc_inv_def on_reply_simps journal_mono intro!: takeover_evidence_read_inv)
next
  case (PC_TakeoverDecision ctx snap caseId)
  with assms show ?thesis
    by (auto simp: resume_def answered_def pc_inv_def on_reply_simps journal_mono intro!: takeover_reevaluated_inv answered_reviewed answered_decision)
next
  case (PC_ExecEvidence br dec pre evidence)
  with assms show ?thesis
    by (auto simp: resume_def answered_def pc_inv_def on_reply_simps journal_mono intro!: execute_evidence_read_inv)
next
  case (PC_ExecRefresh br dec pre evidence)
  with assms show ?thesis
    by (auto simp: resume_def answered_def pc_inv_def on_reply_simps journal_mono intro!: execute_refreshed_inv)
next
  case (PC_Execute br dec pre)
  with assms show ?thesis
    by (auto simp: resume_def answered_def pc_inv_def on_reply_simps journal_mono intro!: executed_inv executed_once_Cons)
next
  case (PC_ProviderReconcile dec pre refundId outcome)
  with assms show ?thesis
    by (auto simp: resume_def answered_def pc_inv_def on_reply_simps journal_mono intro!: provider_reconciled_inv executed_once_Cons)
next
  case (PC_Reconcile dec pre n)
  with assms show ?thesis
    by (auto simp: resume_def answered_def pc_inv_def on_reply_simps journal_mono intro!: pending_reconciled_inv executed_once_Cons)
qed (use assms in \<open>simp_all add: resume_def\<close>)

lemma complete_inv:
  assumes "run_inv p R w run"
  shows "run_inv p R w (complete p now r run)"
proof (cases "wr_pending run")
  case None
  with assms show ?thesis by (simp add: complete_def)
next
  case (Some c)
  let ?run = "record_entries [Completed c r] (run\<lparr>wr_pending := None\<rparr>)"
  have "base_inv p R w ?run" using assms by (intro record_entries_inv) (auto simp: run_inv_def)
  then have "answered p R w c r ?run" using assms Some by (auto simp: answered_def run_inv_def)
  from resume_inv [OF this] assms Some show ?thesis by (auto simp: complete_def split: option.splits)
qed

lemma timer_fired_inv:
  assumes "run_inv p R w run"
  shows "run_inv p R w (timer_fired p run)"
proof (cases "wr_pc run")
  case (PC_EvidenceSleep dec snap deadline polls)
  with assms have "run_inv p R w (schedule (ReadRefundEvidence (evidenceAccess run)) (PC_EvidenceRead dec deadline polls) run)"
    by (intro run_inv_schedule) (auto simp: run_inv_def pc_inv_def journal_mono)
  with PC_EvidenceSleep show ?thesis by (simp add: timer_fired_def)
next
  case (PC_Confirm br dec pre evidence)
  with assms have "run_inv p R w (confirmation_returned p br dec pre evidence None run)"
    by (intro confirmation_returned_inv) (auto simp: run_inv_def pc_inv_def)
  with PC_Confirm assms show ?thesis by (simp add: timer_fired_def)
next
  case (PC_ProviderWait dec pre refundId)
  with assms have "run_inv p R w (provider_reconcile dec pre refundId None run)"
    by (intro provider_reconcile_inv) (auto simp: run_inv_def pc_inv_def)
  with PC_ProviderWait show ?thesis by (simp add: timer_fired_def)
next
  case (PC_ReconcileSleep dec pre n)
  with assms have "run_inv p R w (pending_slept dec pre n run)"
    by (intro pending_slept_inv) (auto simp: run_inv_def pc_inv_def)
  with PC_ReconcileSleep show ?thesis by (simp add: timer_fired_def)
qed (use assms in \<open>simp_all add: timer_fired_def\<close>)

lemma signal_confirm_inv:
  assumes "run_inv p R w run"
  shows "run_inv p R w (signal_confirm p now c run)"
proof (cases "confirm_set run \<and> (\<exists>br dec pre evidence. wr_pc run = PC_Confirm br dec pre evidence)")
  case True
  then obtain br dec pre evidence where q: "wr_pc run = PC_Confirm br dec pre evidence" by blast
  obtain confirmation expired where h: "confirm_handler p now pre c (None, False) = (confirmation, expired)" by fastforce
  have "handler_ok p now pre confirmation"
    using confirm_handler_ok [of p now pre "(None, False)" c] h by (simp add: handler_ok_def)
  then have "run_inv p R w (confirmation_returned p br dec pre evidence confirmation
      (record_entries (opt_entry (Confirmed now) confirmation) run))"
    using assms q by (intro confirmation_recorded_inv) (auto simp: run_inv_def pc_inv_def)
  with q h assms show ?thesis by (auto simp: signal_confirm_def run_inv_def)
next
  case False
  with assms show ?thesis by (auto simp: signal_confirm_def run_inv_def split: pc.splits)
qed

lemma decide_handler_None: "decide_handler acts d None = Some h \<longleftrightarrow> h = d \<and> hd_decision d \<in> set acts"
  by (auto simp: decide_handler_def)

lemma signal_decide_inv:
  assumes "run_inv p R w run"
  shows "run_inv p R w (signal_decide d run)"
proof (cases "wr_pc run")
  case (PC_AwaitApproval dec pre evidence caseId)
  with assms have "hd_decision d \<in> {APPROVE, REJECT} \<Longrightarrow> run_inv p R w (approval_decided dec pre evidence caseId d run)"
    by (intro approval_decided_inv) (auto simp: run_inv_def pc_inv_def)
  with PC_AwaitApproval assms show ?thesis
    by (auto simp: signal_decide_def decide_handler_None run_inv_def split: option.splits)
next
  case (PC_AwaitTakeover dec evidence caseId)
  with assms have "run_inv p R w (takeover_decided dec evidence caseId d run)"
    by (intro takeover_decided_inv) (auto simp: run_inv_def pc_inv_def)
  with PC_AwaitTakeover assms show ?thesis
    by (auto simp: signal_decide_def decide_handler_None run_inv_def split: option.splits)
qed (use assms in \<open>auto simp: signal_decide_def run_inv_def\<close>)

lemma signal_outcome_inv:
  assumes "run_inv p R w run"
  shows "run_inv p R w (signal_outcome po run)"
proof (cases "wr_pc run")
  case (PC_ProviderWait dec pre refundId)
  with assms have "run_inv p R w (provider_reconcile dec pre refundId (Some o1) (record_entries [ProviderOutcome o1] run))" for o1
    by (intro provider_reconcile_inv record_entries_inv) (auto simp: run_inv_def pc_inv_def intro: executed_once_Cons)
  with PC_ProviderWait assms show ?thesis by (auto simp: signal_outcome_def run_inv_def split: option.splits)
next
  case (PC_ProviderReconcile dec pre refundId outcome)
  have "run_inv p R w (record_entries [ProviderOutcome o1] (suspend (PC_ProviderReconcile dec pre refundId (Some o1)) run))" for o1
    using assms PC_ProviderReconcile unfolding run_inv_def suspend_def
    by (auto simp: pc_inv_def intro!: record_entries_inv executed_once_Cons)
  with PC_ProviderReconcile assms show ?thesis by (auto simp: signal_outcome_def run_inv_def split: option.splits)
qed (use assms in \<open>auto simp: signal_outcome_def run_inv_def\<close>)

lemma rejected_inv:
  assumes "run_inv p R w run"
  shows "run_inv p R w (run\<lparr>wr_pc := PC_Failed, wr_pending := None\<rparr>)"
  using assms by (cases "wr_pc run") (auto simp: run_inv_def pc_inv_def split: if_split_asm option.splits)

lemma step_inv:
  assumes "run_inv p R w run"
  shows "run_inv p R w (step p now ev run)"
proof -
  have "run_inv p R w (start_run request (wr_workflowId run) (wr_journal run))" if "wr_pc run = PC_ContinuedAsNew request" for request
  proof -
    have "wr_workflowId run = w" "same_request R request"
      "case rq_recovery request of Some rec \<Rightarrow> executed_once p R w (wr_journal run) \<and> rc_attemptsInRun rec = 0 | None \<Rightarrow> no_exec (wr_journal run)"
      "\<And>e. rq_evidenceRecovery request = Some e \<Longrightarrow> decision_from R (wr_journal run) (rv_decision e) None"
      using assms that by (auto simp: run_inv_def pc_inv_def base_inv_def)
    then show ?thesis using start_run_inv by blast
  qed
  then show ?thesis
    using assms unfolding step_def
    by (auto intro: complete_inv timer_fired_inv signal_confirm_inv signal_decide_inv signal_outcome_inv rejected_inv
        split: event.splits pc.splits)
qed

lemma reachable_inv: "reachable p R w run \<Longrightarrow> run_inv p R w run"
proof (induction rule: reachable.induct)
  case start
  then show ?case by (intro start_run_inv) (auto simp: same_request_def)
next
  case (step run now ev)
  then show ?case by (blast intro: step_inv)
qed

section \<open>Properties\<close>

text \<open>The refund requests in a journal.\<close>

definition execution_in :: "entry \<Rightarrow> ExecuteRefundInput list" where
  "execution_in e = (case e of Scheduled c \<Rightarrow> (case c of ExecuteRefund i \<Rightarrow> [i] | _ \<Rightarrow> []) | _ \<Rightarrow> [])"

definition executions :: "entry list \<Rightarrow> ExecuteRefundInput list" where
  "executions J = concat (map execution_in J)"

lemma set_execution_in: "i \<in> set (execution_in e) \<longleftrightarrow> e = Scheduled (ExecuteRefund i)"
  by (auto simp: execution_in_def split: entry.splits call.splits)

lemma executions_simps [simp]:
  "executions [] = []" "executions (J1 @ J2) = executions J1 @ executions J2"
  "executions (Scheduled c # J) = (case c of ExecuteRefund i \<Rightarrow> [i] | _ \<Rightarrow> []) @ executions J"
  "executions (Completed c r # J) = executions J"
  by (simp_all add: executions_def execution_in_def)

lemma executions_member: "i \<in> set (executions J) \<longleftrightarrow> Scheduled (ExecuteRefund i) \<in> set J"
  by (auto simp: executions_def set_execution_in)

lemma no_exec_executions: "no_exec J \<longleftrightarrow> executions J = []"
  using executions_member [of _ J] unfolding no_exec_def by (metis last_in_set list.set(1) empty_iff)

lemma run_inv_journal: "run_inv p R w run \<Longrightarrow> no_exec (wr_journal run) \<or> executed_once p R w (wr_journal run)"
  by (cases "wr_pc run") (auto simp: run_inv_def pc_inv_def split: if_split_asm option.splits)

text \<open>
  C4. Money is requested at most once in a journey, over all its runs, whatever activities,
  timers and signals do and in whatever order.
\<close>

theorem execute_at_most_once:
  assumes "reachable patched request workflowId run"
  shows "length (executions (wr_journal run)) \<le> 1"
  using run_inv_journal [OF reachable_inv [OF assms]]
  by (auto simp: no_exec_executions executed_once_def)

text \<open>
  C3. Nothing is refunded without consent, authority and current facts. When the journal shows
  a request for a refund, then before it, in this order of time: the policy decided on this
  proposal under the pinned release; a preview was created on that decision for this proposal;
  the customer accepted exactly that preview, and (in the current version of the code) the signal
  was handled before the preview expired; the decision was \<^verbatim>\<open>ALLOW\<close>, or \<^verbatim>\<open>APPROVAL_REQUIRED\<close> and
  a human decided \<^verbatim>\<open>APPROVE\<close>, or neither a denial nor missing facts and a human decided
  \<^verbatim>\<open>APPROVE_EXCEPTIONAL_REFUND\<close>; for a damage claim under the second release the accepted evidence
  was read again and is the evidence the policy saw; and the entry just before the request is a
  fresh observation that still covers the amount of the preview.
\<close>

theorem execute_only_when_cleared:
  assumes "reachable patched request workflowId run"
    and "Scheduled (ExecuteRefund i) \<in> set (wr_journal run)"
    and "patched confirmation_patch"
  shows "\<exists>later earlier ctx decision ev t c.
    wr_journal run = later @ Scheduled (ExecuteRefund i)
      # Completed (RefreshRefundContext \<lparr>rf_proposal = rq_proposal request, rf_workflowId = workflowId, rf_access = rq_access request\<rparr>)
          (R_Context ctx) # earlier
    \<and> amountStillAvailable ctx (ex_preview i) \<and> ex_proposal i = rq_proposal request
    \<and> Confirmed t c \<in> set earlier \<and> cf_accepted c \<and> cf_previewId c = previewId (ex_preview i)
    \<and> isRefundPreviewCurrent (pre_validUntil (ex_preview i)) t
    \<and> (\<exists>ctx'. Completed (EvaluateRefundPolicy \<lparr>ev_proposal = rq_proposal request, ev_refundContext = ctx',
          ev_policyVersion = rq_policyVersion request, ev_damageEvidence = ev\<rparr>) (R_Decision decision) \<in> set earlier)
    \<and> (\<exists>ctx' auth. Completed (CreateRefundPreview \<lparr>cp_proposal = rq_proposal request, cp_refundContext = ctx',
          cp_decision = decision, cp_authorization = auth\<rparr>) (R_Preview (ex_preview i)) \<in> set earlier)
    \<and> (effect decision = ALLOW
        \<or> effect decision = APPROVAL_REQUIRED \<and> (\<exists>h. Decided h \<in> set earlier \<and> hd_decision h = APPROVE)
        \<or> effect decision \<notin> {DENY, NEEDS_FACTS} \<and> (\<exists>h. Decided h \<in> set earlier \<and> hd_decision h = APPROVE_EXCEPTIONAL_REFUND))
    \<and> (evidence_required request \<longrightarrow> (\<exists>snap. Completed (read_call request workflowId) (R_Evidence snap) \<in> set earlier
        \<and> sameAcceptedEvidence ev (accepted_evidence snap)))"
proof -
  have "executed_once patched request workflowId (wr_journal run)"
    using run_inv_journal [OF reachable_inv [OF assms(1)]] assms(2) by (auto simp: no_exec_def)
  then obtain later earlier br dec pre evidence ctx where J:
    "wr_journal run = later @ Scheduled (ExecuteRefund (execution_of request workflowId pre))
      # Completed (refresh_call request workflowId) (R_Context ctx) # earlier"
    and n: "no_exec later" "no_exec earlier" and av: "amountStillAvailable ctx pre"
    and cl: "cleared patched request earlier br dec pre evidence"
    and fr: "evidence_fresh request workflowId earlier (accepted_of evidence)"
    unfolding executed_once_def by blast
  have i: "i = execution_of request workflowId pre" using assms(2) n unfolding J by (auto simp: no_exec_def refresh_call_def)
  from cl obtain t c where c: "Confirmed t c \<in> set earlier" "cf_accepted c" "cf_previewId c = previewId pre"
    "isRefundPreviewCurrent (pre_validUntil pre) t"
    using assms(3) by (auto simp: cleared_def confirmed_ok_def confirmed_by_def)
  from cl obtain ev where ev: "decision_from request earlier dec ev" "same_evidence (accepted_of evidence) ev"
    by (auto simp: cleared_def offered_def decided_on_def)
  from cl obtain ctx' where pv: "Completed (preview_call request ctx' dec br) (R_Preview pre) \<in> set earlier"
    by (auto simp: cleared_def offered_def preview_from_def)
  have au: "effect dec = ALLOW \<or> effect dec = APPROVAL_REQUIRED \<and> decided_by earlier APPROVE
      \<or> effect dec \<notin> {DENY, NEEDS_FACTS} \<and> decided_by earlier APPROVE_EXCEPTIONAL_REFUND"
    using cl by (auto simp: cleared_def offered_def branch_ok_def authorized_def split: branch.splits)
  have fe: "evidence_required request \<Longrightarrow> \<exists>snap. Completed (read_call request workflowId) (R_Evidence snap) \<in> set earlier
      \<and> sameAcceptedEvidence ev (accepted_evidence snap)"
    using fr same_evidence_trans [OF ev(2)] by (auto simp: evidence_fresh_def)
  show ?thesis
    by (rule exI [of _ later], rule exI [of _ earlier], rule exI [of _ ctx], rule exI [of _ dec], rule exI [of _ ev],
        rule exI [of _ t], rule exI [of _ c])
       (use J av c ev(1) pv au fe i in \<open>auto simp: refresh_call_def execution_of_def decision_from_def eval_call_def
          preview_call_def decided_by_def\<close>)
qed

text \<open>
  C16. The final stage tells what happened to the money. A finished run whose stage is neither
  \<^verbatim>\<open>REFUND_SUCCEEDED\<close> nor \<^verbatim>\<open>REFUND_FAILED\<close> (denied, rejected, cancelled, invalidated, expired, ...)
  never asked for a refund; \<^verbatim>\<open>REFUND_SUCCEEDED\<close> is reported only after a refund was requested and
  the gateway, the reconciliation or the provider reported success, and \<^verbatim>\<open>REFUND_FAILED\<close> only after
  one of them reported failure.
\<close>

theorem final_stage_truthful:
  assumes "reachable patched request workflowId run" and "wr_pc run = PC_Done"
  shows "case stage (wr_state run) of
      S_REFUND_SUCCEEDED \<Rightarrow> executions (wr_journal run) \<noteq> [] \<and> success_shown (wr_journal run)
    | S_REFUND_FAILED \<Rightarrow> executions (wr_journal run) \<noteq> [] \<and> failure_shown (wr_journal run)
    | _ \<Rightarrow> executions (wr_journal run) = []"
proof -
  have "pc_inv patched request workflowId (wr_journal run) (wr_pending run) (wr_state run) PC_Done"
    using reachable_inv [OF assms(1)] assms(2) by (simp add: run_inv_def)
  moreover have "executed_once patched request workflowId (wr_journal run) \<Longrightarrow> executions (wr_journal run) \<noteq> []"
    using executed_once_not_no_exec no_exec_executions by blast
  ultimately show ?thesis
    by (auto simp: pc_inv_def settled_def no_exec_executions split: Stage.splits if_split_asm)
qed

section \<open>Witnesses\<close>

definition steps :: "(string \<Rightarrow> bool) \<Rightarrow> (int \<times> event) list \<Rightarrow> WorkflowRun \<Rightarrow> WorkflowRun" where
  "steps patched trace run = fold (\<lambda>(now, ev). step patched now ev) trace run"

lemma steps_simps [simp]:
  "steps patched [] run = run" "steps patched ((now, ev) # trace) run = steps patched trace (step patched now ev run)"
  by (simp_all add: steps_def)

lemma reachable_steps: "reachable p R w run \<Longrightarrow> reachable p R w (steps p trace run)"
  by (induction trace arbitrary: run) (simp_all add: case_prod_beta steps_def reachable.step)

definition sample_access :: WorkflowJourneyAccess where
  "sample_access = \<lparr>tenantId = ''t1'', environmentId = ''e1'', subjectCustomerId = ''c1'', requestId = ''r1'', traceId = ''x1''\<rparr>"

definition sample_request :: RefundWorkflowRequest where
  "sample_request = \<lparr>rq_orderReference = None, rq_proposal = sample_proposal, rq_policyVersion = ''refund-policy-v1'',
     rq_access = sample_access, rq_evidenceRecovery = None, rq_recovery = None\<rparr>"

definition sample_decision :: RefundPolicyDecision where
  "sample_decision = \<lparr>decisionId = ''d1'', effect = ALLOW, dec_policyVersion = ''refund-policy-v1'', inputFactsHash = ''sha256:'',
     dec_factRefs = [], reasonCodes = [], obligations = [], missingFacts = [], decidedAt = iso_string 0, validUntil = iso_string 900000\<rparr>"

definition sample_preview :: RefundPreview where
  "sample_preview = \<lparr>previewId = ''pv1'', createdAt = iso_string 0, pre_proposalId = ''p1'', pre_orderId = ''o1'',
     pre_selection = \<lparr>sel_scope = FULL_ORDER, sel_itemIds = []\<rparr>, pre_requestedAmount = usd 500,
     pre_refundDestination = ORIGINAL_PAYMENT_METHOD, pre_policyVersion = ''refund-policy-v1'', pre_decisionId = ''d1'',
     pre_inputFactsHash = ''sha256:'', pre_validUntil = iso_string 900000\<rparr>"

definition sample_confirmation :: RefundCustomerConfirmation where
  "sample_confirmation = \<lparr>cf_previewId = ''pv1'', cf_accepted = True, cf_confirmedAt = iso_string 1000\<rparr>"

text \<open>The shortest way to a refund: allowed at once, confirmed in time, executed and reported successful.\<close>

definition happy_trace :: "int \<Rightarrow> int \<Rightarrow> RefundContext \<Rightarrow> RefundPolicyDecision \<Rightarrow> RefundPreview \<Rightarrow> RefundCustomerConfirmation
    \<Rightarrow> RefundContext \<Rightarrow> ExecuteRefundResult \<Rightarrow> (int \<times> event) list" where
  "happy_trace t0 t1 ctx dec pre c ctx' result = [(t0, Complete (R_Context ctx)), (t0, Complete (R_Decision dec)),
     (t0, Complete (R_Preview pre)), (t1, SigConfirm c), (t1, Complete R_Void),
     (t1, Complete (R_Context ctx')), (t1, Complete (R_Execute result))]"

definition always :: "string \<Rightarrow> bool" where
  "always s = True"

lemmas run_defs = step_def complete_def resume_def record_entries_def is_final_def on_context_def on_decision_def on_preview_def
  on_void_def on_execute_def first_context_def first_decision_def dispatch_def schedule_def finish_def suspend_def
  preview_created_def waitForRefundConfirmation_def confirmation_returned_def confirmation_observed_def
  executeAuthorizedRefund_def execute_refresh_def execute_refreshed_def executed_def set_state_def signal_confirm_def
  confirm_handler_def isRefundPreviewCurrent_def opt_entry_def start_run_def always_def

lemma happy_run:
  fixes ctx :: RefundContext and workflowId :: string
  assumes "rq_recovery request = None" and "rq_evidenceRecovery request = None" and "\<not> evidence_required request"
    and "effect dec = ALLOW" and "date_parse (pre_validUntil pre) = Some deadline" and "t0 \<le> t1" and "t1 < deadline"
    and "cf_previewId c = previewId pre" and "cf_accepted c" and "amountStillAvailable ctx' pre" and "er_status result = SUCCEEDED"
  defines "run \<equiv> steps always (happy_trace t0 t1 ctx dec pre c ctx' result) (start_run request workflowId [])"
  shows "wr_pc run = PC_Done" and "stage (wr_state run) = S_REFUND_SUCCEEDED"
    and "executions (wr_journal run) = [execution_of request workflowId pre]"
proof -
  have "wr_pc run = PC_Done \<and> stage (wr_state run) = S_REFUND_SUCCEEDED
      \<and> executions (wr_journal run) = [execution_of request workflowId pre]"
    using assms(1-11) unfolding run_def happy_trace_def
    by (simp add: run_defs execute_input_def execution_of_def executions_def execution_in_def Let_def)
  then show "wr_pc run = PC_Done" "stage (wr_state run) = S_REFUND_SUCCEEDED"
    "executions (wr_journal run) = [execution_of request workflowId pre]" by simp_all
qed

definition sample_final :: WorkflowRun where
  "sample_final = steps always (happy_trace 0 1000 sample_refund_context sample_decision sample_preview sample_confirmation
     sample_refund_context \<lparr>er_status = SUCCEEDED, er_providerRefundId = Some ''rf1''\<rparr>) (start_run sample_request ''w1'' [])"

lemma sample_reachable: "reachable always sample_request ''w1'' sample_final"
  unfolding sample_final_def by (intro reachable_steps reachable.start) (simp_all add: sample_request_def)

lemma sample_happy:
  "rq_recovery sample_request = None" "rq_evidenceRecovery sample_request = None" "\<not> evidence_required sample_request"
  "effect sample_decision = ALLOW" "date_parse (pre_validUntil sample_preview) = Some 900000" "(0::int) \<le> 1000" "(1000::int) < 900000"
  "cf_previewId sample_confirmation = previewId sample_preview" "cf_accepted sample_confirmation"
  "amountStillAvailable sample_refund_context sample_preview"
  "er_status \<lparr>er_status = SUCCEEDED, er_providerRefundId = Some ''rf1''\<rparr> = SUCCEEDED"
  by (simp_all add: sample_request_def evidence_required_def sample_decision_def sample_preview_def sample_confirmation_def
        amountStillAvailable_def sample_refund_context_def usd_def date_parse_iso_string MAX_TIME_def)

lemmas sample_final_facts = happy_run [OF sample_happy, of sample_refund_context "''w1''", folded sample_final_def]

theorem execute_at_most_once_witness:
  "length (executions (wr_journal sample_final)) \<le> 1
    \<and> executions (wr_journal sample_final) \<noteq> []"
  using execute_at_most_once [OF sample_reachable] sample_final_facts(3) by simp

theorem execute_only_when_cleared_witness:
  "\<exists>t c. Confirmed t c \<in> set (wr_journal sample_final) \<and> cf_accepted c \<and> cf_previewId c = ''pv1''"
proof -
  let ?i = "execution_of sample_request ''w1'' sample_preview"
  have p: "always confirmation_patch" by (simp add: always_def)
  have m: "Scheduled (ExecuteRefund ?i) \<in> set (wr_journal sample_final)"
    using sample_final_facts(3) by (simp add: executions_member [symmetric])
  obtain later e e' earlier t c where J: "wr_journal sample_final = later @ e # e' # earlier" "Confirmed t c \<in> set earlier"
    "cf_accepted c" "cf_previewId c = previewId (ex_preview ?i)"
    using execute_only_when_cleared [OF sample_reachable m p] by (elim exE conjE) blast
  then have "Confirmed t c \<in> set (wr_journal sample_final)" by simp
  with J(3,4) show ?thesis by (auto simp: execution_of_def sample_preview_def)
qed

theorem final_stage_truthful_witness:
  "executions (wr_journal sample_final) \<noteq> [] \<and> success_shown (wr_journal sample_final)"
  using final_stage_truthful [OF sample_reachable sample_final_facts(1)] sample_final_facts(2) by simp

end
