(* ===== verification/Workflow_Progress.thy ===== *)
theory Workflow_Progress
  imports Workflow_Safety
begin

text \<open>
  Progress of the refund workflow: the answer a suspended run waits for is accepted when it arrives,
  and a deadline set for the customer's evidence is never moved and ends the wait; and two gaps, an
  approval that comes too late and a wait for the provider that never continues as a new run.
\<close>

section \<open>What a run waits for\<close>

datatype kind = K_Context | K_Decision | K_Preview | K_Void | K_Execute | K_Reconcile | K_Case | K_Evidence

definition call_kind :: "call \<Rightarrow> kind" where
  "call_kind c = (case c of RefreshRefundContext _ \<Rightarrow> K_Context | EvaluateRefundPolicy _ \<Rightarrow> K_Decision
     | CreateRefundPreview _ \<Rightarrow> K_Preview | RecordRefundConfirmation \<Rightarrow> K_Void | ExecuteRefund _ \<Rightarrow> K_Execute
     | ReconcileRefund _ \<Rightarrow> K_Reconcile | OpenHumanCase _ \<Rightarrow> K_Case | CloseHumanCase _ \<Rightarrow> K_Void
     | OpenRefundEvidence _ \<Rightarrow> K_Evidence | ReadRefundEvidence _ \<Rightarrow> K_Evidence | TransitionRefundEvidence _ _ \<Rightarrow> K_Case
     | CloseRefundEvidence _ _ _ \<Rightarrow> K_Void)"

definition reply_kind :: "reply \<Rightarrow> kind" where
  "reply_kind r = (case r of R_Context _ \<Rightarrow> K_Context | R_Decision _ \<Rightarrow> K_Decision | R_Preview _ \<Rightarrow> K_Preview
     | R_Void \<Rightarrow> K_Void | R_Execute _ \<Rightarrow> K_Execute | R_Reconcile _ \<Rightarrow> K_Reconcile | R_Case _ \<Rightarrow> K_Case | R_Evidence _ \<Rightarrow> K_Evidence)"

definition pc_kind :: "pc \<Rightarrow> kind option" where
  "pc_kind p = (case p of PC_Context0 \<Rightarrow> Some K_Context | PC_Decision0 _ \<Rightarrow> Some K_Decision | PC_OpenEvidence _ \<Rightarrow> Some K_Evidence
     | PC_EvidenceRead _ _ _ \<Rightarrow> Some K_Evidence | PC_CloseExpired _ \<Rightarrow> Some K_Void | PC_Context1 _ \<Rightarrow> Some K_Context
     | PC_Decision1 _ _ \<Rightarrow> Some K_Decision | PC_CloseReviewed _ _ _ \<Rightarrow> Some K_Void | PC_Preview _ _ _ \<Rightarrow> Some K_Preview
     | PC_Observe _ _ _ _ _ \<Rightarrow> Some K_Void | PC_CloseUnconfirmed _ \<Rightarrow> Some K_Void | PC_OpenApproval _ _ _ \<Rightarrow> Some K_Case
     | PC_CloseApproved _ _ _ \<Rightarrow> Some K_Void | PC_CloseDeclined _ \<Rightarrow> Some K_Void | PC_OpenTakeover _ _ \<Rightarrow> Some K_Case
     | PC_CloseExceptional _ _ _ \<Rightarrow> Some K_Void | PC_TakeoverContext _ _ _ \<Rightarrow> Some K_Context
     | PC_TakeoverEvidence _ _ _ _ \<Rightarrow> Some K_Evidence | PC_TakeoverDecision _ _ _ \<Rightarrow> Some K_Decision
     | PC_ExecEvidence _ _ _ _ \<Rightarrow> Some K_Evidence | PC_ExecRefresh _ _ _ _ \<Rightarrow> Some K_Context | PC_Execute _ _ _ \<Rightarrow> Some K_Execute
     | PC_ProviderReconcile _ _ _ _ \<Rightarrow> Some K_Reconcile | PC_Reconcile _ _ _ \<Rightarrow> Some K_Reconcile | _ \<Rightarrow> None)"

definition handler_inv :: "pc \<Rightarrow> bool \<Rightarrow> bool \<Rightarrow> bool \<Rightarrow> bool" where
  "handler_inv p confirm decide outcome = (case p of PC_Confirm _ _ _ _ \<Rightarrow> confirm | PC_AwaitApproval _ _ _ _ \<Rightarrow> decide
     | PC_AwaitTakeover _ _ _ \<Rightarrow> decide | PC_ProviderReconcile _ _ _ _ \<Rightarrow> outcome | PC_ProviderWait _ _ _ \<Rightarrow> outcome | _ \<Rightarrow> True)"

definition await_inv :: "WorkflowRun \<Rightarrow> bool" where
  "await_inv run \<longleftrightarrow> map_option call_kind (wr_pending run) = pc_kind (wr_pc run)
     \<and> handler_inv (wr_pc run) (confirm_set run) (decide_set run) (outcome_set run)"

text \<open>A run about to continue: its awaited call was answered, or it had none.\<close>

abbreviation idle :: "WorkflowRun \<Rightarrow> bool" where
  "idle run \<equiv> wr_pending run = None"

lemma await_schedule:
  "pc_kind p = Some (call_kind c) \<Longrightarrow> handler_inv p (confirm_set run) (decide_set run) (outcome_set run) \<Longrightarrow> await_inv (schedule c p run)"
  by (simp add: await_inv_def schedule_def)

lemma await_finish: "idle run \<Longrightarrow> await_inv (finish st run)"
  by (simp add: await_inv_def finish_def pc_kind_def handler_inv_def)

lemma await_suspend:
  "idle run \<Longrightarrow> pc_kind p = None \<Longrightarrow> handler_inv p (confirm_set run) (decide_set run) (outcome_set run) \<Longrightarrow> await_inv (suspend p run)"
  by (simp add: await_inv_def suspend_def)

lemma run_fields [simp]:
  "confirm_set (record_entries es run) = confirm_set run" "decide_set (record_entries es run) = decide_set run"
  "outcome_set (record_entries es run) = outcome_set run" "confirm_set (set_state st run) = confirm_set run"
  "decide_set (set_state st run) = decide_set run" "outcome_set (set_state st run) = outcome_set run"
  by (simp_all add: record_entries_def set_state_def)

lemma call_kind_inputs [simp]:
  "call_kind (RefreshRefundContext a) = K_Context" "call_kind (EvaluateRefundPolicy b) = K_Decision"
  "call_kind (CreateRefundPreview d) = K_Preview" "call_kind RecordRefundConfirmation = K_Void"
  "call_kind (ExecuteRefund e) = K_Execute" "call_kind (ReconcileRefund e) = K_Reconcile" "call_kind (OpenHumanCase f) = K_Case"
  "call_kind (CloseHumanCase g) = K_Void" "call_kind (OpenRefundEvidence f) = K_Evidence" "call_kind (ReadRefundEvidence h) = K_Evidence"
  "call_kind (TransitionRefundEvidence f n) = K_Case" "call_kind (CloseRefundEvidence h s oc) = K_Void"
  by (simp_all add: call_kind_def)

lemmas await_rules = await_schedule await_finish await_suspend

named_theorems await_segments "await_inv of the code between two awaits"

lemma await_execute [await_segments]:
  "idle run \<Longrightarrow> await_inv (execute_refresh br dec pre evidence run)"
  "idle run \<Longrightarrow> await_inv (executeAuthorizedRefund br dec pre evidence run)"
  "idle run \<Longrightarrow> await_inv (execute_evidence_read br dec pre evidence current run)"
  "idle run \<Longrightarrow> await_inv (execute_refreshed br dec pre ctx run)"
  by (auto simp: execute_refresh_def executeAuthorizedRefund_def execute_evidence_read_def execute_refreshed_def
      pc_kind_def handler_inv_def intro!: await_rules)

lemma await_reconcile [await_segments]:
  "idle run \<Longrightarrow> outcome_set run \<Longrightarrow> await_inv (provider_reconcile dec pre refundId outcome run)"
  "idle run \<Longrightarrow> await_inv (awaitProviderRefundOutcome dec pre refundId run)"
  "idle run \<Longrightarrow> outcome_set run \<Longrightarrow> await_inv (provider_reconciled dec pre refundId outcome rec run)"
  "idle run \<Longrightarrow> await_inv (reconcilePendingRefund dec pre n run)"
  "idle run \<Longrightarrow> await_inv (pending_reconciled dec pre n rec run)"
  "idle run \<Longrightarrow> await_inv (pending_slept dec pre n run)"
  by (auto simp: provider_reconcile_def awaitProviderRefundOutcome_def provider_reconciled_def reconcilePendingRefund_def
      pending_reconciled_def pending_slept_def Let_def pc_kind_def handler_inv_def intro!: await_rules split: ReconciliationStatus.splits)

lemma await_executed [await_segments]: "idle run \<Longrightarrow> await_inv (executed dec pre result run)"
  by (auto simp: executed_def intro!: await_rules await_reconcile split: ExecutionStatus.splits)

lemma await_open [await_segments]:
  "pc_kind p = Some K_Case \<Longrightarrow> handler_inv p (confirm_set run) (decide_set run) (outcome_set run) \<Longrightarrow> await_inv (openMonetaryCase evidence input p run)"
  by (auto simp: openMonetaryCase_def intro!: await_schedule split: option.splits)

lemma await_close [await_segments]:
  "pc_kind p = Some K_Void \<Longrightarrow> handler_inv p (confirm_set run) (decide_set run) (outcome_set run) \<Longrightarrow> await_inv (close_case caseId h oc p run)"
  "pc_kind p = Some K_Void \<Longrightarrow> handler_inv p (confirm_set run) (decide_set run) (outcome_set run) \<Longrightarrow> await_inv (close_evidence snap eo p run)"
  by (auto simp: close_case_def close_evidence_def intro!: await_schedule)

lemma await_confirm [await_segments]:
  "idle run \<Longrightarrow> await_inv (leave_unconfirmed br evidence st run)"
  "idle run \<Longrightarrow> await_inv (confirmation_observed br dec pre evidence c run)"
  "idle run \<Longrightarrow> await_inv (confirmation_returned patched br dec pre evidence confirmation run)"
  by (auto simp: leave_unconfirmed_def confirmation_observed_def confirmation_returned_def pc_kind_def handler_inv_def
      intro!: await_rules await_execute await_open await_close split: option.splits)

lemma await_wait [await_segments]:
  assumes "idle run"
  shows "await_inv (waitForRefundConfirmation patched now br dec pre evidence run)"
proof -
  obtain confirmation expired where h: "fold (confirm_handler patched now pre) (buffered_confirmations run) (None, False) = (confirmation, expired)"
    by fastforce
  let ?run = "record_entries (opt_entry (Confirmed now) confirmation) (run\<lparr> confirm_set := True, buffered_confirmations := [] \<rparr>)"
  have "await_inv (confirmation_returned patched br dec pre evidence v ?run)" for v using assms by (intro await_confirm) simp
  moreover have "await_inv (suspend (PC_Confirm br dec pre evidence) ?run)"
    using assms by (intro await_suspend) (simp_all add: pc_kind_def handler_inv_def)
  ultimately show ?thesis unfolding waitForRefundConfirmation_def h by (auto simp: Let_def split: option.splits)
qed

lemma await_preview [await_segments]: "idle run \<Longrightarrow> await_inv (preview_created patched now br dec evidence pre run)"
  by (simp add: preview_created_def await_wait)

lemma await_decided [await_segments]:
  "idle run \<Longrightarrow> await_inv (approval_decided dec pre evidence caseId h run)"
  "idle run \<Longrightarrow> await_inv (takeover_decided dec evidence caseId h run)"
  by (auto simp: approval_decided_def takeover_decided_def Let_def pc_kind_def handler_inv_def intro!: await_close)

lemma await_opened [await_segments]:
  "idle run \<Longrightarrow> await_inv (approval_opened dec pre evidence caseId run)"
  "idle run \<Longrightarrow> await_inv (takeover_opened dec evidence caseId run)"
  by (auto simp: approval_opened_def takeover_opened_def Let_def pc_kind_def handler_inv_def intro!: await_suspend await_decided split: option.splits)

lemma await_takeover [await_segments]:
  "await_inv (exceptional_preview dec evidence caseId ctx run)"
  "await_inv (takeover_refreshed dec evidence caseId ctx run)"
  "idle run \<Longrightarrow> await_inv (takeover_evidence_read dec ctx snap caseId current run)"
  "idle run \<Longrightarrow> await_inv (takeover_reevaluated ctx snap caseId dec run)"
  by (auto simp: exceptional_preview_def takeover_refreshed_def takeover_evidence_read_def takeover_reevaluated_def
      pc_kind_def handler_inv_def intro!: await_rules split: option.splits)

lemma await_dispatch [await_segments]: "idle run \<Longrightarrow> await_inv (dispatch ctx dec evidence run)"
  by (auto simp: dispatch_def pc_kind_def handler_inv_def intro!: await_rules await_open split: PolicyEffect.splits)

lemma await_evidence [await_segments]:
  "idle run \<Longrightarrow> await_inv (evidence_loop now dec snap deadline polls run)"
  "idle run \<Longrightarrow> await_inv (evidence_polled now dec deadline polls snap run)"
  "idle run \<Longrightarrow> await_inv (evidence_opened now dec snap run)"
  "idle run \<Longrightarrow> await_inv (reviewed_decision ctx snap dec run)"
  "idle run \<Longrightarrow> await_inv (first_decision ctx dec run)"
  "idle run \<Longrightarrow> await_inv (first_context ctx run)"
  by (auto simp: evidence_loop_def evidence_polled_def evidence_opened_def reviewed_decision_def first_decision_def first_context_def
      pc_kind_def handler_inv_def intro!: await_rules await_close await_dispatch split: option.splits)

lemma resume_await:
  assumes "idle run" and "resume patched now r run = Some run'"
    and "handler_inv (wr_pc run) (confirm_set run) (decide_set run) (outcome_set run)"
  shows "await_inv run'"
proof (cases "wr_pc run")
  case (PC_Context1 snap)
  with assms show ?thesis by (auto simp: resume_def on_reply_simps pc_kind_def handler_inv_def intro!: await_schedule)
next
  case (PC_CloseExceptional dec evidence caseId)
  with assms show ?thesis by (auto simp: resume_def on_reply_simps pc_kind_def handler_inv_def intro!: await_schedule)
next
  case (PC_ProviderReconcile dec pre refundId outcome)
  with assms show ?thesis by (auto simp: resume_def on_reply_simps handler_inv_def intro!: await_reconcile)
qed (use assms in \<open>auto simp: resume_def on_reply_simps intro!: await_segments await_finish\<close>)

lemma resume_accepts: "pc_kind (wr_pc run) = Some (reply_kind r) \<Longrightarrow> resume patched now r run \<noteq> None"
  by (cases "wr_pc run"; cases r)
     (simp_all add: pc_kind_def reply_kind_def resume_def on_context_def on_decision_def on_preview_def on_void_def on_execute_def
       on_reconcile_def on_case_def on_evidence_def)

lemma complete_await:
  assumes "await_inv run"
  shows "await_inv (complete patched now r run)"
proof (cases "wr_pending run")
  case None
  with assms show ?thesis by (simp add: complete_def)
next
  case (Some c)
  let ?run = "record_entries [Completed c r] (run\<lparr>wr_pending := None\<rparr>)"
  have "resume patched now r ?run = Some run' \<Longrightarrow> await_inv run'" for run'
    by (rule resume_await [of ?run]) (use assms in \<open>auto simp: await_inv_def\<close>)
  with assms Some show ?thesis by (auto simp: complete_def split: option.splits)
qed

lemma await_waiting: "await_inv run \<Longrightarrow> pc_kind (wr_pc run) = None \<Longrightarrow> idle run"
  by (simp add: await_inv_def)

lemma timer_await:
  assumes "await_inv run"
  shows "await_inv (timer_fired patched run)"
proof (cases "wr_pc run")
  case (PC_EvidenceSleep dec snap deadline polls)
  then show ?thesis by (auto simp: timer_fired_def pc_kind_def handler_inv_def intro!: await_schedule)
next
  case (PC_Confirm br dec pre evidence)
  with assms await_waiting [OF assms] show ?thesis by (auto simp: timer_fired_def pc_kind_def intro!: await_confirm)
next
  case (PC_ProviderWait dec pre refundId)
  with assms await_waiting [OF assms] have "await_inv (provider_reconcile dec pre refundId None run)"
    by (intro await_reconcile) (auto simp: pc_kind_def await_inv_def handler_inv_def)
  with PC_ProviderWait show ?thesis by (simp add: timer_fired_def)
next
  case (PC_ReconcileSleep dec pre n)
  with assms await_waiting [OF assms] show ?thesis by (auto simp: timer_fired_def pc_kind_def intro!: await_reconcile)
qed (use assms in \<open>simp_all add: timer_fired_def\<close>)

lemma await_buffers [simp]:
  "await_inv (run\<lparr>buffered_confirmations := a\<rparr>) = await_inv run" "await_inv (run\<lparr>buffered_decisions := b\<rparr>) = await_inv run"
  "await_inv (run\<lparr>buffered_outcomes := c\<rparr>) = await_inv run"
  by (simp_all add: await_inv_def)

lemma signal_confirm_await:
  assumes "await_inv run"
  shows "await_inv (signal_confirm patched now c run)"
proof (cases "wr_pc run")
  case (PC_Confirm br dec pre evidence)
  with await_waiting [OF assms] have "idle run" by (simp add: pc_kind_def)
  then have "await_inv (confirmation_returned patched br dec pre evidence v (record_entries es run))" for v es
    by (intro await_confirm) simp
  with PC_Confirm assms show ?thesis by (auto simp: signal_confirm_def split: prod.splits)
qed (use assms in \<open>simp_all add: signal_confirm_def\<close>)

lemma signal_decide_await:
  assumes "await_inv run"
  shows "await_inv (signal_decide d run)"
  using assms await_waiting [OF assms]
  by (cases "wr_pc run") (auto simp: signal_decide_def pc_kind_def intro!: await_decided split: option.splits)

lemma signal_outcome_await:
  assumes "await_inv run"
  shows "await_inv (signal_outcome po run)"
proof (cases "wr_pc run")
  case (PC_ProviderReconcile dec pre refundId outcome)
  with assms show ?thesis
    by (auto simp: signal_outcome_def await_inv_def suspend_def pc_kind_def handler_inv_def split: option.splits)
next
  case (PC_ProviderWait dec pre refundId)
  with assms await_waiting [OF assms] have "await_inv (provider_reconcile dec pre refundId o1 (record_entries es run))" for o1 es
    by (intro await_reconcile) (auto simp: pc_kind_def await_inv_def handler_inv_def)
  with PC_ProviderWait assms show ?thesis by (auto simp: signal_outcome_def split: option.splits)
qed (use assms in \<open>simp_all add: signal_outcome_def\<close>)

lemma start_await: "await_inv (start_run request workflowId J)"
  by (auto simp: start_run_def Let_def pc_kind_def handler_inv_def intro!: await_schedule await_reconcile split: option.splits)

lemma step_await: "await_inv run \<Longrightarrow> await_inv (step patched now ev run)"
proof -
  assume a: "await_inv run"
  have "await_inv (run\<lparr>wr_pc := PC_Failed, wr_pending := None\<rparr>)" by (simp add: await_inv_def pc_kind_def handler_inv_def)
  with a show "await_inv (step patched now ev run)"
    unfolding step_def
    by (auto intro: complete_await timer_await signal_confirm_await signal_decide_await signal_outcome_await start_await
        split: event.splits pc.splits)
qed

lemma reachable_await: "reachable p R w run \<Longrightarrow> await_inv run"
  by (induction rule: reachable.induct) (simp_all add: start_await step_await)

text \<open>
  C30. No answer is lost: a run that is not finished has exactly one activity under way whose
  reply it takes, or none and it sleeps or waits for a signal with the handler installed. Every
  reply of the type of the activity under way is recorded and moves the run.
\<close>

theorem awaited_reply_accepted:
  assumes "reachable patched request workflowId run" and "\<not> is_final (wr_pc run)"
  shows "case wr_pending run of
      Some c \<Rightarrow> (\<forall>r now. reply_kind r = call_kind c \<longrightarrow>
        resume patched now r (record_entries [Completed c r] (run\<lparr>wr_pending := None\<rparr>)) = Some (step patched now (Complete r) run))
    | None \<Rightarrow> (case wr_pc run of
        PC_EvidenceSleep _ _ _ _ \<Rightarrow> True | PC_ReconcileSleep _ _ _ \<Rightarrow> True
      | PC_Confirm _ _ _ _ \<Rightarrow> confirm_set run
      | PC_AwaitApproval _ _ _ _ \<Rightarrow> decide_set run | PC_AwaitTakeover _ _ _ \<Rightarrow> decide_set run
      | PC_ProviderWait _ _ _ \<Rightarrow> outcome_set run
      | _ \<Rightarrow> False)"
proof (cases "wr_pending run")
  case None
  with reachable_await [OF assms(1)] assms(2) show ?thesis
    by (cases "wr_pc run") (auto simp: await_inv_def pc_kind_def handler_inv_def is_final_def)
next
  case (Some c)
  have "resume patched now r (record_entries [Completed c r] (run\<lparr>wr_pending := None\<rparr>)) = Some (step patched now (Complete r) run)"
    if "reply_kind r = call_kind c" for r now
  proof -
    have "resume patched now r (record_entries [Completed c r] (run\<lparr>wr_pending := None\<rparr>)) \<noteq> None"
      using reachable_await [OF assms(1)] Some that by (intro resume_accepts) (auto simp: await_inv_def)
    then obtain run' where "resume patched now r (record_entries [Completed c r] (run\<lparr>wr_pending := None\<rparr>)) = Some run'" by blast
    with Some assms(2) show ?thesis by (simp add: step_def complete_def)
  qed
  with Some show ?thesis by simp
qed

section \<open>The evidence deadline\<close>

text \<open>
  The deadline a run has set, or was started with; \<^verbatim>\<open>past_evidence\<close> are the await points after which
  a journey waits for evidence no more.
\<close>

definition deadline_of :: "WorkflowRun \<Rightarrow> int option" where
  "deadline_of run = (case wr_pc run of
       PC_EvidenceSleep _ _ deadline _ \<Rightarrow> Some deadline
     | PC_EvidenceRead _ deadline _ \<Rightarrow> Some deadline
     | PC_ContinuedAsNew r \<Rightarrow> (if rq_recovery r = None then map_option rv_deadline (rq_evidenceRecovery r) else None)
     | PC_Context0 \<Rightarrow> map_option rv_deadline (rq_evidenceRecovery (wr_request run))
     | PC_OpenEvidence _ \<Rightarrow> map_option rv_deadline (rq_evidenceRecovery (wr_request run))
     | _ \<Rightarrow> None)"

definition past_evidence :: "pc \<Rightarrow> bool" where
  "past_evidence p = (case p of PC_Context0 \<Rightarrow> False | PC_Decision0 _ \<Rightarrow> False | PC_OpenEvidence _ \<Rightarrow> False
     | PC_EvidenceSleep _ _ _ _ \<Rightarrow> False | PC_EvidenceRead _ _ _ \<Rightarrow> False
     | PC_ContinuedAsNew r \<Rightarrow> rq_recovery r \<noteq> None | _ \<Rightarrow> True)"

definition deadline_kept :: "int \<Rightarrow> WorkflowRun \<Rightarrow> bool" where
  "deadline_kept d run \<longleftrightarrow> deadline_of run = Some d \<or> past_evidence (wr_pc run)"

named_theorems past_segments "segments that stay past the evidence"

lemma past_evidence_simps [simp]:
  "past_evidence (PC_CloseExpired v1)" "past_evidence (PC_Context1 v2)" "past_evidence (PC_Decision1 v3 v4)"
  "past_evidence (PC_CloseReviewed v5 v6 v7)" "past_evidence (PC_Preview v8 v9 v10)" "past_evidence (PC_Confirm v11 v12 v13 v14)"
  "past_evidence (PC_Observe v15 v16 v17 v18 v19)" "past_evidence (PC_CloseUnconfirmed v20)" "past_evidence (PC_OpenApproval v21 v22 v23)"
  "past_evidence (PC_AwaitApproval v24 v25 v26 v27)" "past_evidence (PC_CloseApproved v28 v29 v30)" "past_evidence (PC_CloseDeclined v31)"
  "past_evidence (PC_OpenTakeover v32 v33)" "past_evidence (PC_AwaitTakeover v34 v35 v36)" "past_evidence (PC_CloseExceptional v37 v38 v39)"
  "past_evidence (PC_TakeoverContext v40 v41 v42)" "past_evidence (PC_TakeoverEvidence v43 v44 v45 v46)" "past_evidence (PC_TakeoverDecision v47 v48 v49)"
  "past_evidence (PC_ExecEvidence v50 v51 v52 v53)" "past_evidence (PC_ExecRefresh v54 v55 v56 v57)" "past_evidence (PC_Execute v58 v59 v60)"
  "past_evidence (PC_ProviderReconcile v61 v62 v63 v64)" "past_evidence (PC_ProviderWait v65 v66 v67)" "past_evidence (PC_Reconcile v68 v69 v70)"
  "past_evidence (PC_ReconcileSleep v71 v72 v73)" "past_evidence PC_Done" "past_evidence PC_Failed"
  "\<not> past_evidence PC_Context0" "\<not> past_evidence (PC_Decision0 v74)" "\<not> past_evidence (PC_OpenEvidence v75)"
  "\<not> past_evidence (PC_EvidenceSleep v76 v77 v78 v79)" "\<not> past_evidence (PC_EvidenceRead v80 v81 v82)" "past_evidence (PC_ContinuedAsNew r) \<longleftrightarrow> rq_recovery r \<noteq> None"
  by (simp_all add: past_evidence_def)

lemma moved_pc [simp]: "wr_pc (finish st run) = PC_Done" "wr_pc (schedule c p run) = p" "wr_pc (suspend p run) = p"
  by (simp_all add: finish_def schedule_def suspend_def)

lemma past_execute [past_segments]:
  "past_evidence (wr_pc (execute_refresh br dec pre evidence run))"
  "past_evidence (wr_pc (executeAuthorizedRefund br dec pre evidence run))"
  "past_evidence (wr_pc (execute_evidence_read br dec pre evidence current run))"
  "past_evidence (wr_pc (execute_refreshed br dec pre ctx run))"
  by (simp_all add: execute_refresh_def executeAuthorizedRefund_def execute_evidence_read_def execute_refreshed_def)

lemma past_reconcile [past_segments]:
  "past_evidence (wr_pc (provider_reconcile dec pre refundId outcome run))"
  "past_evidence (wr_pc (awaitProviderRefundOutcome dec pre refundId run))"
  "past_evidence (wr_pc (provider_reconciled dec pre refundId outcome rec run))"
  "past_evidence (wr_pc (reconcilePendingRefund dec pre n run))"
  "past_evidence (wr_pc (pending_reconciled dec pre n rec run))"
  "past_evidence (wr_pc (pending_slept dec pre n run))"
  by (auto simp: provider_reconcile_def awaitProviderRefundOutcome_def provider_reconciled_def reconcilePendingRefund_def
      pending_reconciled_def pending_slept_def Let_def split: ReconciliationStatus.splits)

lemma past_executed [past_segments]: "past_evidence (wr_pc (executed dec pre result run))"
  by (auto simp: executed_def intro!: past_reconcile split: ExecutionStatus.splits)

lemma past_case [past_segments]:
  "past_evidence p \<Longrightarrow> past_evidence (wr_pc (openMonetaryCase evidence input p run))"
  "past_evidence p \<Longrightarrow> past_evidence (wr_pc (close_case caseId h oc p run))"
  "past_evidence p \<Longrightarrow> past_evidence (wr_pc (close_evidence snap eo p run))"
  by (auto simp: openMonetaryCase_def close_case_def close_evidence_def split: option.splits)

lemma past_confirm [past_segments]:
  "past_evidence (wr_pc (leave_unconfirmed br evidence st run))"
  "past_evidence (wr_pc (confirmation_observed br dec pre evidence c run))"
  "past_evidence (wr_pc (confirmation_returned patched br dec pre evidence v run))"
  by (auto simp: leave_unconfirmed_def confirmation_observed_def confirmation_returned_def 
      intro!: past_case past_execute split: option.splits)

lemma past_wait [past_segments]: "past_evidence (wr_pc (waitForRefundConfirmation patched now br dec pre evidence run))"
  "past_evidence (wr_pc (preview_created patched now br dec evidence pre run))"
  by (auto simp: preview_created_def waitForRefundConfirmation_def Let_def intro!: past_confirm
      split: prod.splits option.splits)

lemma past_human [past_segments]:
  "past_evidence (wr_pc (approval_decided dec pre evidence caseId h run))"
  "past_evidence (wr_pc (takeover_decided dec evidence caseId h run))"
  "past_evidence (wr_pc (approval_opened dec pre evidence caseId run))"
  "past_evidence (wr_pc (takeover_opened dec evidence caseId run))"
  "past_evidence (wr_pc (exceptional_preview dec evidence caseId ctx run))"
  "past_evidence (wr_pc (takeover_refreshed dec evidence caseId ctx run))"
  "past_evidence (wr_pc (takeover_evidence_read dec ctx snap caseId current run))"
  "past_evidence (wr_pc (takeover_reevaluated ctx snap caseId dec run))"
  "past_evidence (wr_pc (dispatch ctx dec evidence run))"
  "past_evidence (wr_pc (reviewed_decision ctx snap dec run))"
  by (auto simp: approval_decided_def takeover_decided_def approval_opened_def takeover_opened_def exceptional_preview_def
      takeover_refreshed_def takeover_evidence_read_def takeover_reevaluated_def dispatch_def reviewed_decision_def Let_def
      intro!: past_case split: option.splits PolicyEffect.splits)

lemma deadline_kept_past: "past_evidence (wr_pc run) \<Longrightarrow> deadline_kept d run"
  by (simp add: deadline_kept_def)

lemma deadline_loop: "deadline_kept d (evidence_loop now dec snap d polls run)"
  by (auto simp: evidence_loop_def deadline_kept_def deadline_of_def suspend_def 
      intro!: past_case)

lemma resume_past:
  assumes "past_evidence (wr_pc run)" and "resume patched now r run = Some run'"
  shows "past_evidence (wr_pc run')"
  using assms
  by (cases "wr_pc run") (auto simp: resume_def on_reply_simps intro!: past_segments)

lemma moved_request [simp]:
  "wr_request (schedule c p run) = wr_request run" "wr_request (suspend p run) = wr_request run"
  by (simp_all add: schedule_def suspend_def)

lemma resume_deadline:
  assumes "deadline_of run = Some d" and "resume patched now r run = Some run'"
  shows "deadline_kept d run'"
proof (cases "wr_pc run")
  case PC_Context0
  with assms obtain e ctx where e: "rq_evidenceRecovery (wr_request run) = Some e" "rv_deadline e = d"
    "run' = first_decision ctx (rv_decision e) run"
    by (auto simp: deadline_of_def resume_def on_reply_simps first_context_def)
  then show ?thesis
    by (auto simp: first_decision_def deadline_kept_def deadline_of_def intro!: past_human)
next
  case (PC_OpenEvidence dec)
  with assms show ?thesis
    by (auto simp: deadline_of_def resume_def on_reply_simps evidence_opened_def intro!: deadline_loop)
next
  case (PC_EvidenceRead dec deadline polls)
  with assms obtain snap where r: "run' = evidence_polled now dec d polls snap run"
    by (auto simp: deadline_of_def resume_def on_reply_simps)
  have "deadline_kept d (suspend (PC_ContinuedAsNew ((wr_request run)
      \<lparr> rq_evidenceRecovery := Some \<lparr> rv_deadline = d, rv_decision = dec \<rparr> \<rparr>)) run)"
    by (simp add: deadline_kept_def deadline_of_def)
  then show ?thesis unfolding r evidence_polled_def by (simp add: deadline_loop)
qed (use assms in \<open>simp_all add: deadline_of_def resume_def\<close>)

lemma deadline_of_fields [simp]:
  "deadline_of (record_entries es run) = deadline_of run" "deadline_of (run\<lparr>wr_pending := c\<rparr>) = deadline_of run"
  "deadline_of (run\<lparr>buffered_confirmations := a\<rparr>) = deadline_of run" "deadline_of (run\<lparr>buffered_decisions := b\<rparr>) = deadline_of run"
  "deadline_of (run\<lparr>buffered_outcomes := o1\<rparr>) = deadline_of run"
  by (simp_all add: deadline_of_def cong: pc.case_cong)

lemma complete_deadline: "deadline_kept d run \<Longrightarrow> deadline_kept d (complete patched now r run)"
  using resume_deadline [of "record_entries [Completed c r] (run\<lparr>wr_pending := None\<rparr>)" d patched now r for c]
    resume_past [of "record_entries [Completed c r] (run\<lparr>wr_pending := None\<rparr>)" patched now r for c]
  by (auto simp: complete_def deadline_kept_def split: option.splits)

lemma timer_deadline: "deadline_kept d run \<Longrightarrow> deadline_kept d (timer_fired patched run)"
  by (cases "wr_pc run") (auto simp: timer_fired_def deadline_kept_def deadline_of_def intro!: past_segments)

lemma signal_deadline:
  assumes "deadline_kept d run"
  shows "deadline_kept d (signal_confirm patched now c run)" "deadline_kept d (signal_decide h run)" "deadline_kept d (signal_outcome po run)"
  using assms
  by (cases "wr_pc run"; auto simp: signal_confirm_def signal_decide_def signal_outcome_def deadline_kept_def
      intro!: past_segments split: prod.splits option.splits)+

lemma step_deadline:
  assumes "deadline_kept d run"
  shows "deadline_kept d (step patched now ev run)"
proof -
  have "deadline_kept d (start_run r w J)" if "wr_pc run = PC_ContinuedAsNew r" for r w J
    using assms that
    by (cases "rq_recovery r") (auto simp: start_run_def Let_def deadline_kept_def deadline_of_def intro!: past_reconcile)
  moreover have "deadline_kept d (run\<lparr>wr_pc := PC_Failed, wr_pending := None\<rparr>)" by (simp add: deadline_kept_def)
  ultimately show ?thesis using assms unfolding step_def
    by (auto intro: complete_deadline timer_deadline signal_deadline split: event.splits pc.splits)
qed

lemma steps_deadline: "deadline_kept d run \<Longrightarrow> deadline_kept d (steps patched trace run)"
  by (induction trace arbitrary: run) (simp_all add: case_prod_beta steps_def step_deadline)

text \<open>
  C32. The deadline for the customer's evidence is set once and ends the wait: whatever happens after a
  run has set it, over every further run of the journey, a run that still collects evidence has the
  same deadline, or the journey is past collecting evidence; and an answer about the evidence that
  comes at or after the deadline closes the collection as expired, even when it says that the
  evidence was accepted.
\<close>

theorem evidence_deadline_fixed:
  assumes "reachable patched request workflowId run" and "deadline_of run = Some d" and "later = steps patched trace run"
  shows "(deadline_of later = Some d \<or> past_evidence (wr_pc later))
    \<and> (\<forall>dec d' polls snap now. wr_pc later = PC_EvidenceRead dec d' polls \<and> d \<le> now
         \<longrightarrow> wr_pc (step patched now (Complete (R_Evidence snap)) later) = PC_CloseExpired dec)
    \<and> (\<forall>dec snap now. wr_pc later = PC_OpenEvidence dec \<and> d \<le> now
         \<longrightarrow> wr_pc (step patched now (Complete (R_Evidence snap)) later) = PC_CloseExpired dec)"
proof -
  have kept: "deadline_of later = Some d \<or> past_evidence (wr_pc later)"
    using steps_deadline [of d run patched trace] assms(2,3) by (simp add: deadline_kept_def)
  have waits: "map_option call_kind (wr_pending later) = pc_kind (wr_pc later)"
    using reachable_await [OF reachable_steps [OF assms(1)]] unfolding assms(3) await_inv_def by blast
  have "wr_pc (step patched now (Complete (R_Evidence snap)) later) = PC_CloseExpired dec"
    if "wr_pc later = PC_EvidenceRead dec d' polls" "d \<le> now" for dec d' polls snap now
    using kept waits that by (auto simp: deadline_of_def pc_kind_def step_def is_final_def complete_def resume_def on_evidence_def
        evidence_polled_def evidence_loop_def close_evidence_def record_entries_def)
  moreover have "wr_pc (step patched now (Complete (R_Evidence snap)) later) = PC_CloseExpired dec"
    if "wr_pc later = PC_OpenEvidence dec" "d \<le> now" for dec snap now
    using kept waits that by (auto simp: deadline_of_def pc_kind_def step_def is_final_def complete_def resume_def on_evidence_def
        evidence_opened_def evidence_loop_def close_evidence_def record_entries_def)
  ultimately show ?thesis using kept by blast
qed

section \<open>Two gaps\<close>

text \<open>
  An exceptional approval can come too late to be worth anything. Without evidence to review,
  the takeover branch does not evaluate the policy again after the supervisor's approval, so the
  offer expires with the decision that sent the request to takeover: when the approval is signalled
  at or after that time, the customer's offer is invalid as soon as it is created, whatever the
  refreshed facts and the preview are, and the run ends as \<^verbatim>\<open>PREVIEW_INVALIDATED\<close>.
\<close>

definition approve_late :: "int \<Rightarrow> int \<Rightarrow> RefundHumanDecision \<Rightarrow> RefundContext \<Rightarrow> RefundPreview \<Rightarrow> (int \<times> event) list" where
  "approve_late t0 t1 d ctx pre = [(t0, SigDecide d), (t1, Complete R_Void), (t1, Complete (R_Context ctx)), (t1, Complete (R_Preview pre))]"

lemma confirm_handler_expired:
  assumes "\<not> isRefundPreviewCurrent (pre_validUntil pre) now" and "fst s = None"
  shows "fst (fold (confirm_handler always now pre) cs s) = None"
  using assms(2)
proof (induction cs arbitrary: s)
  case (Cons c cs)
  have "fst (confirm_handler always now pre c s) = None"
    using Cons.prems assms(1) by (cases s) (auto simp: confirm_handler_def always_def)
  with Cons.IH show ?case by simp
qed simp

lemma wait_expired:
  assumes "date_parse (pre_validUntil pre) = Some deadline" and "deadline \<le> now"
  shows "waitForRefundConfirmation always now (B_TAKEOVER caseId) dec pre None run
    = finish (mk_state S_PREVIEW_INVALIDATED dec (Some pre) None) (run\<lparr> confirm_set := True, buffered_confirmations := [] \<rparr>)"
proof -
  obtain c expired where f: "fold (confirm_handler always now pre) (buffered_confirmations run) (None, False) = (c, expired)"
    by fastforce
  have "c = None"
    using confirm_handler_expired [of pre now "(None, False)" "buffered_confirmations run"] assms f
    by (simp add: isRefundPreviewCurrent_def)
  then show ?thesis using assms unfolding waitForRefundConfirmation_def f
    by (auto simp: confirmation_returned_def leave_unconfirmed_def opt_entry_def record_entries_def always_def Let_def)
qed

theorem late_exceptional_approval_void:
  assumes "reachable always request workflowId run" and "wr_pc run = PC_AwaitTakeover dec None caseId"
    and "hd_decision d = APPROVE_EXCEPTIONAL_REFUND" and "date_parse (validUntil dec) = Some deadline"
    and "deadline \<le> t0" and "t0 \<le> t1"
    and "createRefundPreview (rq_proposal request) ctx dec (auth_of (B_TAKEOVER caseId)) previewId' createdAt' = Inr pre"
  shows "wr_pc (steps always (approve_late t0 t1 d ctx pre) run) = PC_Done
    \<and> stage (wr_state (steps always (approve_late t0 t1 d ctx pre) run)) = S_PREVIEW_INVALIDATED"
proof -
  have h: "decide_set run" using reachable_await [OF assms(1)] assms(2) by (simp add: await_inv_def handler_inv_def)
  have v: "date_parse (pre_validUntil pre) = Some deadline" using createRefundPreview_Inr(6) [OF assms(7)] assms(4) by simp
  have "\<exists>r. steps always (approve_late t0 t1 d ctx pre) run = waitForRefundConfirmation always t1 (B_TAKEOVER caseId) dec pre None r"
    using h assms(2,3)
    by (auto simp: approve_late_def step_def is_final_def signal_decide_def decide_handler_def takeover_actions_def
        takeover_decided_def close_case_def schedule_def record_entries_def complete_def resume_def on_void_def on_context_def
        on_preview_def takeover_refreshed_def exceptional_preview_def preview_created_def Let_def)
  then show ?thesis using wait_expired [OF v] assms(5,6) by (auto simp: finish_def)
qed

text \<open>
  The wait for the provider's outcome is not bounded: \<^verbatim>\<open>awaitProviderRefundOutcome\<close> polls the
  gateway every five minutes and, unlike the two other polling loops, never continues as new, so
  for every number there is a run, with one and the same request, whose history is longer.
\<close>

definition poll :: "int \<Rightarrow> (int \<times> event) list" where
  "poll now = [(now, TimerFired), (now, Complete (R_Reconcile \<lparr>rr_status = RC_PROCESSING, rr_providerRefundId = None\<rparr>))]"

lemma poll_step:
  assumes "wr_pc run = PC_ProviderWait dec pre (Some i)"
  shows "wr_pc (steps patched (poll now) run) = PC_ProviderWait dec pre (Some i)
    \<and> length (wr_journal (steps patched (poll now) run)) = length (wr_journal run) + 2
    \<and> wr_request (steps patched (poll now) run) = wr_request run"
  using assms
  by (simp add: poll_def step_def is_final_def timer_fired_def provider_reconcile_def schedule_def complete_def resume_def
      on_reconcile_def provider_reconciled_def record_entries_def suspend_def set_state_def Let_def)

theorem provider_wait_unbounded:
  assumes "reachable patched request workflowId run" and "wr_pc run = PC_ProviderWait dec pre (Some i)"
  shows "\<exists>later. reachable patched request workflowId later \<and> wr_pc later = PC_ProviderWait dec pre (Some i)
    \<and> wr_request later = wr_request run \<and> length (wr_journal later) \<ge> n"
proof (induction n)
  case 0
  then show ?case using assms by blast
next
  case (Suc n)
  then obtain later where l: "reachable patched request workflowId later" "wr_pc later = PC_ProviderWait dec pre (Some i)"
    "wr_request later = wr_request run" "length (wr_journal later) \<ge> n" by blast
  then show ?case
    using poll_step [OF l(2), of patched 0] reachable_steps [OF l(1), of "poll 0"]
    by (intro exI [of _ "steps patched (poll 0) later"]) simp
qed

section \<open>Witnesses\<close>

lemma sample_started: "reachable always sample_request ''w1'' (start_run sample_request ''w1'' [])"
  by (rule reachable.start) (simp_all add: sample_request_def)

lemma sample_start_facts:
  "wr_pc (start_run sample_request ''w1'' []) = PC_Context0" "\<not> is_final (wr_pc (start_run sample_request ''w1'' []))"
  "wr_pending (start_run sample_request ''w1'' []) = Some (refresh_call sample_request ''w1'')"
  by (simp_all add: start_run_def sample_request_def schedule_def is_final_def refresh_call_def refresh_input_def)

theorem awaited_reply_accepted_witness:
  "resume always 0 (R_Context sample_refund_context)
      (record_entries [Completed (refresh_call sample_request ''w1'') (R_Context sample_refund_context)]
        ((start_run sample_request ''w1'' [])\<lparr>wr_pending := None\<rparr>))
    = Some (step always 0 (Complete (R_Context sample_refund_context)) (start_run sample_request ''w1'' []))"
  using awaited_reply_accepted [OF sample_started sample_start_facts(2)]
  by (simp add: sample_start_facts(3) reply_kind_def refresh_call_def)

definition photo_request :: RefundWorkflowRequest where
  "photo_request = sample_request\<lparr>rq_policyVersion := ''refund-policy-v2''\<rparr>"

definition photo_decision :: RefundPolicyDecision where
  "photo_decision = sample_decision\<lparr>effect := NEEDS_FACTS, missingFacts := [DAMAGE_PHOTO]\<rparr>"

definition photo_snapshot :: EvidenceSnapshot where
  "photo_snapshot = \<lparr>snap_caseId = ''case1'', assessment = UNREVIEWED, evidenceVersion = 0, readyCount = 0, processingCount = 0,
     accepted_evidence = None\<rparr>"

definition photo_run :: WorkflowRun where
  "photo_run = steps always [(0, Complete (R_Context sample_refund_context)), (0, Complete (R_Decision photo_decision)),
     (1000, Complete (R_Evidence photo_snapshot))] (start_run photo_request ''w1'' [])"

lemma photo_reachable: "reachable always photo_request ''w1'' photo_run"
  unfolding photo_run_def by (intro reachable_steps reachable.start) (simp_all add: photo_request_def sample_request_def)

lemma photo_run_facts:
  "wr_pc photo_run = PC_EvidenceSleep photo_decision photo_snapshot 86401000 0" "rq_recovery (wr_request photo_run) = None"
  by (simp_all add: photo_run_def run_defs on_evidence_def evidence_opened_def evidence_loop_def photo_request_def
      sample_request_def photo_decision_def sample_decision_def photo_snapshot_def Let_def)

lemma photo_deadline: "deadline_of photo_run = Some 86401000"
  by (simp add: deadline_of_def photo_run_facts)

theorem evidence_deadline_fixed_witness:
  "wr_pc (step always 86401000 (Complete (R_Evidence photo_snapshot)) (steps always [(31000, TimerFired)] photo_run)) = PC_CloseExpired photo_decision"
proof -
  have "wr_pc (steps always [(31000, TimerFired)] photo_run) = PC_EvidenceRead photo_decision 86401000 0"
    by (simp add: step_def is_final_def timer_fired_def photo_run_facts)
  with evidence_deadline_fixed [OF photo_reachable photo_deadline refl, of "[(31000, TimerFired)]"] show ?thesis by simp
qed

definition takeover_decision :: RefundPolicyDecision where
  "takeover_decision = sample_decision\<lparr>effect := TAKEOVER_REQUIRED\<rparr>"

definition takeover_run :: WorkflowRun where
  "takeover_run = steps always [(0, Complete (R_Context sample_refund_context)), (0, Complete (R_Decision takeover_decision)),
     (0, Complete (R_Case ''case1''))] (start_run sample_request ''w1'' [])"

lemma takeover_reachable: "reachable always sample_request ''w1'' takeover_run"
  unfolding takeover_run_def by (intro reachable_steps sample_started)

lemma takeover_waits: "wr_pc takeover_run = PC_AwaitTakeover takeover_decision None ''case1''"
  by (simp add: takeover_run_def run_defs on_case_def openMonetaryCase_def accepted_of_def takeover_opened_def
      sample_request_def takeover_decision_def sample_decision_def Let_def)

definition exceptional_decision :: RefundHumanDecision where
  "exceptional_decision = \<lparr>hd_decision = APPROVE_EXCEPTIONAL_REFUND, hd_decidedBy = ''s1'', hd_decidedAt = iso_string 900000, hd_reasonCode = None\<rparr>"

definition takeover_preview :: RefundPreview where
  "takeover_preview = projr (createRefundPreview sample_proposal sample_refund_context takeover_decision (auth_of (B_TAKEOVER ''case1'')) ''pv2'' ''now'')"

theorem late_exceptional_approval_void_witness:
  "stage (wr_state (steps always (approve_late 900000 900000 exceptional_decision sample_refund_context takeover_preview) takeover_run))
    = S_PREVIEW_INVALIDATED"
proof -
  have p: "createRefundPreview (rq_proposal sample_request) sample_refund_context takeover_decision (auth_of (B_TAKEOVER ''case1'')) ''pv2'' ''now''
      = Inr takeover_preview"
    by (simp add: takeover_preview_def createRefundPreview_def sample_request_def sample_proposal_def sample_refund_context_def
        takeover_decision_def auth_of_def Let_def)
  have d: "hd_decision exceptional_decision = APPROVE_EXCEPTIONAL_REFUND" by (simp add: exceptional_decision_def)
  have u: "date_parse (validUntil takeover_decision) = Some 900000"
    by (simp add: takeover_decision_def sample_decision_def date_parse_iso_string MAX_TIME_def)
  show ?thesis using late_exceptional_approval_void [OF takeover_reachable takeover_waits d u _ _ p, of 900000 900000] by simp
qed

definition waiting_run :: WorkflowRun where
  "waiting_run = steps always (happy_trace 0 1000 sample_refund_context sample_decision sample_preview sample_confirmation
     sample_refund_context \<lparr>er_status = SUBMITTED, er_providerRefundId = Some ''rf1''\<rparr>
     @ [(2000, Complete (R_Reconcile \<lparr>rr_status = RC_PROCESSING, rr_providerRefundId = None\<rparr>))]) (start_run sample_request ''w1'' [])"

lemma waiting_reachable: "reachable always sample_request ''w1'' waiting_run"
  unfolding waiting_run_def by (intro reachable_steps sample_started)

lemma waiting_waits: "wr_pc waiting_run = PC_ProviderWait sample_decision sample_preview (Some ''rf1'')"
proof -
  have "date_parse (pre_validUntil sample_preview) = Some 900000" by (rule sample_happy(5))
  then show ?thesis using sample_happy
    by (simp add: waiting_run_def happy_trace_def run_defs on_reconcile_def awaitProviderRefundOutcome_def provider_reconcile_def
        provider_reconciled_def Let_def)
qed

theorem provider_wait_unbounded_witness:
  "\<exists>later. reachable always sample_request ''w1'' later \<and> length (wr_journal later) \<ge> 1000"
  using provider_wait_unbounded [OF waiting_reachable waiting_waits, of 1000] by blast

end
