(* ===== verification/Workflow_Signals.thy ===== *)
theory Workflow_Signals
  imports Workflow_Progress
begin

text \<open>
  One run of the refund workflow, from its start to its end or to its continuation as a new run.
  Signals that come before their handler is installed stay in their buffer, in the order they came,
  and the first one the handler wants is taken when it is installed; and a run asks for the
  customer's evidence, and for a pending refund, only so many times.
\<close>

section \<open>The events of one run\<close>

definition sent_confirmations :: "(int \<times> event) list \<Rightarrow> RefundCustomerConfirmation list" where
  "sent_confirmations trace = List.map_filter (\<lambda>(now, ev). case ev of SigConfirm c \<Rightarrow> Some c | _ \<Rightarrow> None) trace"

definition sent_decisions :: "(int \<times> event) list \<Rightarrow> RefundHumanDecision list" where
  "sent_decisions trace = List.map_filter (\<lambda>(now, ev). case ev of SigDecide d \<Rightarrow> Some d | _ \<Rightarrow> None) trace"

definition sent_outcomes :: "(int \<times> event) list \<Rightarrow> RefundProviderOutcome list" where
  "sent_outcomes trace = List.map_filter (\<lambda>(now, ev). case ev of SigOutcome po \<Rightarrow> Some po | _ \<Rightarrow> None) trace"

lemma sent_Nil [simp]: "sent_confirmations [] = []" "sent_decisions [] = []" "sent_outcomes [] = []"
  by (simp_all add: sent_confirmations_def sent_decisions_def sent_outcomes_def map_filter_simps)

lemma sent_snoc [simp]:
  "sent_confirmations (trace @ [(now, ev)]) = sent_confirmations trace @ (case ev of SigConfirm c \<Rightarrow> [c] | _ \<Rightarrow> [])"
  "sent_decisions (trace @ [(now, ev)]) = sent_decisions trace @ (case ev of SigDecide d \<Rightarrow> [d] | _ \<Rightarrow> [])"
  "sent_outcomes (trace @ [(now, ev)]) = sent_outcomes trace @ (case ev of SigOutcome po \<Rightarrow> [po] | _ \<Rightarrow> [])"
  by (simp_all add: sent_confirmations_def sent_decisions_def sent_outcomes_def map_filter_def split: event.split)

text \<open>A trace of one run, which does not continue as a new one.\<close>

definition same_run :: "(int \<times> event) list \<Rightarrow> bool" where
  "same_run trace \<longleftrightarrow> Continue \<notin> snd ` set trace"

lemma same_run_snoc [simp]: "same_run (trace @ [(now, ev)]) \<longleftrightarrow> same_run trace \<and> ev \<noteq> Continue"
  by (auto simp: same_run_def)

lemma steps_snoc [simp]: "steps patched (trace @ [(now, ev)]) run = step patched now ev (steps patched trace run)"
  by (simp add: steps_def)

text \<open>Continued runs start with a fresh count of reconciliations, and so does the first one.\<close>

definition fresh_request :: "RefundWorkflowRequest \<Rightarrow> bool" where
  "fresh_request request \<longleftrightarrow> (case rq_recovery request of None \<Rightarrow> True | Some r \<Rightarrow> rc_attemptsInRun r = 0)"

section \<open>Early signals\<close>

text \<open>Which handlers are certainly not installed yet at an await point.\<close>

definition unheard :: "pc \<Rightarrow> bool \<Rightarrow> bool \<Rightarrow> bool \<Rightarrow> bool" where
  "unheard p confirm decide outcome = (case p of
       PC_Preview br _ _ \<Rightarrow> \<not> confirm \<and> \<not> outcome \<and> (br = B_APPROVAL \<longrightarrow> \<not> decide)
     | PC_Confirm br _ _ _ \<Rightarrow> \<not> outcome \<and> (br = B_APPROVAL \<longrightarrow> \<not> decide)
     | PC_Observe br _ _ _ _ \<Rightarrow> \<not> outcome \<and> (br = B_APPROVAL \<longrightarrow> \<not> decide)
     | PC_OpenApproval _ _ _ \<Rightarrow> \<not> decide \<and> \<not> outcome
     | PC_AwaitApproval _ _ _ _ \<Rightarrow> \<not> outcome
     | PC_CloseApproved _ _ _ \<Rightarrow> \<not> outcome
     | PC_OpenTakeover _ _ \<Rightarrow> \<not> confirm \<and> \<not> decide \<and> \<not> outcome
     | PC_AwaitTakeover _ _ _ \<Rightarrow> \<not> confirm \<and> \<not> outcome
     | PC_CloseExceptional _ _ _ \<Rightarrow> \<not> confirm \<and> \<not> outcome
     | PC_TakeoverContext _ _ _ \<Rightarrow> \<not> confirm \<and> \<not> outcome
     | PC_TakeoverEvidence _ _ _ _ \<Rightarrow> \<not> confirm \<and> \<not> outcome
     | PC_TakeoverDecision _ _ _ \<Rightarrow> \<not> confirm \<and> \<not> outcome
     | PC_ExecEvidence _ _ _ _ \<Rightarrow> \<not> outcome
     | PC_ExecRefresh _ _ _ _ \<Rightarrow> \<not> outcome
     | PC_Execute _ _ _ \<Rightarrow> \<not> outcome
     | PC_CloseUnconfirmed _ \<Rightarrow> True | PC_CloseDeclined _ \<Rightarrow> True | PC_ProviderReconcile _ _ _ _ \<Rightarrow> True
     | PC_ProviderWait _ _ _ \<Rightarrow> True | PC_Reconcile _ _ _ \<Rightarrow> True | PC_ReconcileSleep _ _ _ \<Rightarrow> True
     | PC_CloseExpired _ \<Rightarrow> True
     | PC_Done \<Rightarrow> True | PC_Failed \<Rightarrow> True | PC_ContinuedAsNew _ \<Rightarrow> True
     | _ \<Rightarrow> \<not> confirm \<and> \<not> decide \<and> \<not> outcome)"

text \<open>The signals a run got are in their buffers until their handler is installed.\<close>

definition kept_signals :: "RefundCustomerConfirmation list \<Rightarrow> RefundHumanDecision list \<Rightarrow> RefundProviderOutcome list \<Rightarrow> WorkflowRun \<Rightarrow> bool" where
  "kept_signals cs ds os run \<longleftrightarrow> (confirm_set run \<or> buffered_confirmations run = cs)
     \<and> (decide_set run \<or> buffered_decisions run = ds) \<and> (outcome_set run \<or> buffered_outcomes run = os)"

definition signal_inv :: "RefundCustomerConfirmation list \<Rightarrow> RefundHumanDecision list \<Rightarrow> RefundProviderOutcome list \<Rightarrow> WorkflowRun \<Rightarrow> bool" where
  "signal_inv cs ds os run \<longleftrightarrow> is_final (wr_pc run)
     \<or> kept_signals cs ds os run \<and> unheard (wr_pc run) (confirm_set run) (decide_set run) (outcome_set run)"

lemma kept_fields [simp]:
  "kept_signals cs ds os (record_entries es run) = kept_signals cs ds os run" "kept_signals cs ds os (set_state st run) = kept_signals cs ds os run"
  "kept_signals cs ds os (run\<lparr>wr_pending := v\<rparr>) = kept_signals cs ds os run" "kept_signals cs ds os (run\<lparr>wr_humanDecision := h\<rparr>) = kept_signals cs ds os run"
  by (simp_all add: kept_signals_def record_entries_def set_state_def)

lemma kept_installed [intro]:
  "kept_signals cs ds os run \<Longrightarrow> kept_signals cs ds os (run\<lparr>confirm_set := True, buffered_confirmations := []\<rparr>)"
  "kept_signals cs ds os run \<Longrightarrow> kept_signals cs ds os (run\<lparr>decide_set := True, buffered_decisions := []\<rparr>)"
  "kept_signals cs ds os run \<Longrightarrow> kept_signals cs ds os (run\<lparr>outcome_set := True, buffered_outcomes := []\<rparr>)"
  by (auto simp: kept_signals_def)

lemma signal_schedule:
  "kept_signals cs ds os run \<Longrightarrow> unheard p (confirm_set run) (decide_set run) (outcome_set run) \<Longrightarrow> signal_inv cs ds os (schedule c p run)"
  by (simp add: signal_inv_def schedule_def kept_signals_def)

lemma signal_suspend:
  "kept_signals cs ds os run \<Longrightarrow> unheard p (confirm_set run) (decide_set run) (outcome_set run) \<Longrightarrow> signal_inv cs ds os (suspend p run)"
  by (simp add: signal_inv_def suspend_def kept_signals_def)

lemma signal_finish [intro!]: "signal_inv cs ds os (finish st run)"
  by (simp add: signal_inv_def finish_def is_final_def)

lemma signal_continued [intro!]: "signal_inv cs ds os (suspend (PC_ContinuedAsNew r) run)"
  by (simp add: signal_inv_def suspend_def is_final_def)

lemmas signal_rules = signal_schedule signal_suspend

named_theorems signal_segments "signal_inv of the code between two awaits"

lemma signal_close [signal_segments]:
  "kept_signals cs ds os run \<Longrightarrow> unheard p (confirm_set run) (decide_set run) (outcome_set run) \<Longrightarrow> signal_inv cs ds os (close_case caseId h oc p run)"
  "kept_signals cs ds os run \<Longrightarrow> unheard p (confirm_set run) (decide_set run) (outcome_set run) \<Longrightarrow> signal_inv cs ds os (close_evidence snap eo p run)"
  "kept_signals cs ds os run \<Longrightarrow> unheard p (confirm_set run) (decide_set run) (outcome_set run) \<Longrightarrow> signal_inv cs ds os (openMonetaryCase evidence input p run)"
  by (auto simp: close_case_def close_evidence_def openMonetaryCase_def intro!: signal_schedule split: option.splits)

lemma signal_execute [signal_segments]:
  assumes "kept_signals cs ds os run" and "\<not> outcome_set run"
  shows "signal_inv cs ds os (execute_refresh br dec pre evidence run)" "signal_inv cs ds os (executeAuthorizedRefund br dec pre evidence run)"
    "signal_inv cs ds os (execute_evidence_read br dec pre evidence current run)" "signal_inv cs ds os (execute_refreshed br dec pre ctx run)"
  using assms by (auto simp: execute_refresh_def executeAuthorizedRefund_def execute_evidence_read_def execute_refreshed_def
      unheard_def intro!: signal_rules)

lemma signal_reconcile [signal_segments]:
  assumes "kept_signals cs ds os run"
  shows "signal_inv cs ds os (provider_reconcile dec pre refundId outcome run)" "signal_inv cs ds os (awaitProviderRefundOutcome dec pre refundId run)"
    "signal_inv cs ds os (provider_reconciled dec pre refundId outcome rec run)" "signal_inv cs ds os (reconcilePendingRefund dec pre n run)"
    "signal_inv cs ds os (pending_reconciled dec pre n rec run)" "signal_inv cs ds os (pending_slept dec pre n run)"
    "signal_inv cs ds os (executed dec pre result run)"
  using assms by (auto simp: provider_reconcile_def awaitProviderRefundOutcome_def provider_reconciled_def reconcilePendingRefund_def
      pending_reconciled_def pending_slept_def executed_def Let_def unheard_def intro!: signal_rules kept_installed(3) split: ReconciliationStatus.splits ExecutionStatus.splits)

lemma signal_confirmed [signal_segments]:
  assumes "kept_signals cs ds os run" and "\<not> outcome_set run" and "br = B_APPROVAL \<longrightarrow> \<not> decide_set run"
  shows "signal_inv cs ds os (leave_unconfirmed br evidence st run)" "signal_inv cs ds os (confirmation_observed br dec pre evidence c run)"
    "signal_inv cs ds os (confirmation_returned patched br dec pre evidence confirmation run)"
  using assms by (auto simp: leave_unconfirmed_def confirmation_observed_def confirmation_returned_def unheard_def
      intro!: signal_rules signal_close signal_execute split: option.splits)

lemma signal_wait [signal_segments]:
  assumes "kept_signals cs ds os run" and "\<not> outcome_set run" and "br = B_APPROVAL \<longrightarrow> \<not> decide_set run"
  shows "signal_inv cs ds os (waitForRefundConfirmation patched now br dec pre evidence run)"
    "signal_inv cs ds os (preview_created patched now br dec evidence pre run)"
proof -
  have w: "signal_inv cs ds os (waitForRefundConfirmation patched now br dec pre evidence run)"
    if k: "kept_signals cs ds os run" "\<not> outcome_set run" "br = B_APPROVAL \<longrightarrow> \<not> decide_set run" for run
  proof -
    obtain confirmation expired where h: "fold (confirm_handler patched now pre) (buffered_confirmations run) (None, False) = (confirmation, expired)"
      by fastforce
    let ?run = "record_entries (opt_entry (Confirmed now) confirmation) (run\<lparr> confirm_set := True, buffered_confirmations := [] \<rparr>)"
    from k have "signal_inv cs ds os (confirmation_returned patched br dec pre evidence v ?run)" for v
      by (intro signal_confirmed) auto
    moreover from k have "signal_inv cs ds os (suspend (PC_Confirm br dec pre evidence) ?run)"
      by (intro signal_suspend) (auto simp: unheard_def)
    ultimately show ?thesis unfolding waitForRefundConfirmation_def h by (auto simp: Let_def split: option.splits)
  qed
  from w [OF assms] show "signal_inv cs ds os (waitForRefundConfirmation patched now br dec pre evidence run)" .
  from w [of "set_state st run" for st] assms show "signal_inv cs ds os (preview_created patched now br dec evidence pre run)"
    by (simp add: preview_created_def)
qed

lemma signal_decided [signal_segments]:
  assumes "kept_signals cs ds os run" and "\<not> outcome_set run"
  shows "signal_inv cs ds os (approval_decided dec pre evidence caseId h run)"
    and "signal_inv cs ds os (approval_opened dec pre evidence caseId run)"
    and "\<not> confirm_set run \<Longrightarrow> signal_inv cs ds os (takeover_decided dec evidence caseId h run)"
    and "\<not> confirm_set run \<Longrightarrow> signal_inv cs ds os (takeover_opened dec evidence caseId run)"
proof -
  have a: "signal_inv cs ds os (approval_decided dec pre evidence caseId h run)"
    if "kept_signals cs ds os run" "\<not> outcome_set run" for h run
    using that by (auto simp: approval_decided_def Let_def unheard_def intro!: signal_close)
  have t: "signal_inv cs ds os (takeover_decided dec evidence caseId h run)"
    if "kept_signals cs ds os run" "\<not> outcome_set run" "\<not> confirm_set run" for h run
    using that by (auto simp: takeover_decided_def Let_def unheard_def intro!: signal_close)
  from a assms show "signal_inv cs ds os (approval_decided dec pre evidence caseId h run)" .
  from assms show "signal_inv cs ds os (approval_opened dec pre evidence caseId run)"
    by (auto simp: approval_opened_def Let_def unheard_def intro!: a signal_suspend kept_installed(2) split: option.splits)
  assume c: "\<not> confirm_set run"
  from t assms c show "signal_inv cs ds os (takeover_decided dec evidence caseId h run)" .
  from assms c show "signal_inv cs ds os (takeover_opened dec evidence caseId run)"
    by (auto simp: takeover_opened_def Let_def unheard_def intro!: t signal_suspend kept_installed(2) split: option.splits)
qed

lemma signal_takeover [signal_segments]:
  assumes "kept_signals cs ds os run" and "\<not> outcome_set run" and "\<not> confirm_set run"
  shows "signal_inv cs ds os (exceptional_preview dec evidence caseId ctx run)" "signal_inv cs ds os (takeover_refreshed dec evidence caseId ctx run)"
    "signal_inv cs ds os (takeover_evidence_read dec ctx snap caseId current run)" "signal_inv cs ds os (takeover_reevaluated ctx snap caseId dec run)"
  using assms by (auto simp: exceptional_preview_def takeover_refreshed_def takeover_evidence_read_def takeover_reevaluated_def
      unheard_def intro!: signal_rules split: option.splits)

lemma signal_evaluated [signal_segments]:
  assumes "kept_signals cs ds os run" and "\<not> outcome_set run" and "\<not> confirm_set run" and "\<not> decide_set run"
  shows "signal_inv cs ds os (dispatch ctx dec evidence run)" "signal_inv cs ds os (evidence_loop now dec snap deadline polls run)"
    "signal_inv cs ds os (evidence_polled now dec deadline polls snap run)" "signal_inv cs ds os (evidence_opened now dec snap run)"
    "signal_inv cs ds os (reviewed_decision ctx snap dec run)" "signal_inv cs ds os (first_decision ctx dec run)"
    "signal_inv cs ds os (first_context ctx run)"
proof -
  have d: "signal_inv cs ds os (dispatch ctx dec evidence run)" for ctx dec evidence
    using assms by (auto simp: dispatch_def unheard_def intro!: signal_rules signal_close split: PolicyEffect.splits)
  have l: "signal_inv cs ds os (evidence_loop now dec snap deadline polls run)" for deadline polls
    using assms by (auto simp: evidence_loop_def unheard_def intro!: signal_rules signal_close)
  have f: "signal_inv cs ds os (first_decision ctx dec run)" for dec
    using assms by (auto simp: first_decision_def unheard_def intro!: d signal_rules)
  from d l f show "signal_inv cs ds os (dispatch ctx dec evidence run)" "signal_inv cs ds os (evidence_loop now dec snap deadline polls run)"
    "signal_inv cs ds os (first_decision ctx dec run)" by blast+
  from assms l show "signal_inv cs ds os (evidence_polled now dec deadline polls snap run)" "signal_inv cs ds os (evidence_opened now dec snap run)"
    by (auto simp: evidence_polled_def evidence_opened_def)
  from assms d show "signal_inv cs ds os (reviewed_decision ctx snap dec run)"
    by (auto simp: reviewed_decision_def unheard_def intro!: signal_close)
  from assms f show "signal_inv cs ds os (first_context ctx run)"
    by (auto simp: first_context_def unheard_def intro!: signal_rules split: option.splits)
qed

lemma resume_signals:
  assumes "kept_signals cs ds os run" and "unheard (wr_pc run) (confirm_set run) (decide_set run) (outcome_set run)"
    and "resume patched now r run = Some run'"
  shows "signal_inv cs ds os run'"
proof (cases "wr_pc run")
  case (PC_Context1 snap)
  with assms show ?thesis by (auto simp: resume_def on_reply_simps unheard_def intro!: signal_schedule)
next
  case (PC_CloseExceptional dec evidence caseId)
  with assms show ?thesis by (auto simp: resume_def on_reply_simps unheard_def intro!: signal_schedule)
next
  case (PC_CloseReviewed ctx dec snap)
  with assms show ?thesis by (auto simp: resume_def on_reply_simps unheard_def intro!: signal_evaluated)
qed (use assms in \<open>auto simp: resume_def on_reply_simps unheard_def intro!: signal_segments\<close>)

lemma complete_signals: "signal_inv cs ds os run \<Longrightarrow> \<not> is_final (wr_pc run) \<Longrightarrow> signal_inv cs ds os (complete patched now r run)"
  using resume_signals [of cs ds os "record_entries [Completed c r] (run\<lparr>wr_pending := None\<rparr>)" patched now r for c]
  by (auto simp: complete_def signal_inv_def split: option.splits)

lemma timer_signals:
  assumes "signal_inv cs ds os run" and "\<not> is_final (wr_pc run)"
  shows "signal_inv cs ds os (timer_fired patched run)"
proof -
  from assms have k: "kept_signals cs ds os run" "unheard (wr_pc run) (confirm_set run) (decide_set run) (outcome_set run)"
    by (auto simp: signal_inv_def)
  then show ?thesis using assms
    by (cases "wr_pc run") (auto simp: timer_fired_def unheard_def intro!: signal_rules signal_segments)
qed

lemma confirm_signals:
  assumes "signal_inv cs ds os run" and "\<not> is_final (wr_pc run)"
  shows "signal_inv (cs @ [c]) ds os (signal_confirm patched now c run)"
proof -
  from assms have k: "kept_signals cs ds os run" "unheard (wr_pc run) (confirm_set run) (decide_set run) (outcome_set run)"
    by (auto simp: signal_inv_def)
  show ?thesis
  proof (cases "confirm_set run")
    case False
    with k show ?thesis by (auto simp: signal_confirm_def signal_inv_def kept_signals_def)
  next
    case True
    with k(1) have k': "kept_signals (cs @ [c]) ds os run" by (simp add: kept_signals_def)
    with k(2) have i: "signal_inv (cs @ [c]) ds os run" by (simp add: signal_inv_def)
    from k' k(2) True i show ?thesis
      by (cases "wr_pc run") (auto simp: signal_confirm_def unheard_def intro!: signal_confirmed split: prod.splits)
  qed
qed

lemma decide_signals:
  assumes "signal_inv cs ds os run" and "\<not> is_final (wr_pc run)"
  shows "signal_inv cs (ds @ [d]) os (signal_decide d run)"
proof -
  from assms have k: "kept_signals cs ds os run" "unheard (wr_pc run) (confirm_set run) (decide_set run) (outcome_set run)"
    by (auto simp: signal_inv_def)
  show ?thesis
  proof (cases "decide_set run")
    case False
    with k show ?thesis by (auto simp: signal_decide_def signal_inv_def kept_signals_def)
  next
    case True
    with k(1) have k': "kept_signals cs (ds @ [d]) os run" by (simp add: kept_signals_def)
    with k(2) have i: "signal_inv cs (ds @ [d]) os run" by (simp add: signal_inv_def)
    from k' k(2) True i show ?thesis
      by (cases "wr_pc run") (auto simp: signal_decide_def unheard_def intro!: signal_decided split: option.splits)
  qed
qed

lemma outcome_signals:
  assumes "signal_inv cs ds os run" and "\<not> is_final (wr_pc run)"
  shows "signal_inv cs ds (os @ [po]) (signal_outcome po run)"
proof -
  from assms have k: "kept_signals cs ds os run" "unheard (wr_pc run) (confirm_set run) (decide_set run) (outcome_set run)"
    by (auto simp: signal_inv_def)
  show ?thesis
  proof (cases "outcome_set run")
    case False
    with k show ?thesis by (auto simp: signal_outcome_def signal_inv_def kept_signals_def)
  next
    case True
    with k(1) have k': "kept_signals cs ds (os @ [po]) run" by (simp add: kept_signals_def)
    with k(2) have i: "signal_inv cs ds (os @ [po]) run" by (simp add: signal_inv_def)
    have u: "signal_inv cs ds (os @ [po]) (record_entries es (suspend p run))" if "unheard p (confirm_set run) (decide_set run) (outcome_set run)" for es p
      using k' that by (simp add: signal_inv_def suspend_def record_entries_def kept_signals_def)
    from k' k(2) True i show ?thesis
      by (cases "wr_pc run") (auto simp: signal_outcome_def unheard_def intro!: u signal_reconcile split: option.splits)
  qed
qed

lemma start_signals: "signal_inv [] [] [] (start_run request workflowId J)"
  by (auto simp: start_run_def Let_def unheard_def kept_signals_def set_state_def intro!: signal_schedule signal_reconcile split: option.splits)

lemma step_signals:
  assumes "signal_inv cs ds os run" and "ev \<noteq> Continue"
  shows "signal_inv (cs @ (case ev of SigConfirm c \<Rightarrow> [c] | _ \<Rightarrow> [])) (ds @ (case ev of SigDecide d \<Rightarrow> [d] | _ \<Rightarrow> []))
    (os @ (case ev of SigOutcome po \<Rightarrow> [po] | _ \<Rightarrow> [])) (step patched now ev run)"
proof (cases "is_final (wr_pc run)")
  case True
  with assms(2) show ?thesis by (cases ev) (simp_all add: step_def signal_inv_def)
next
  case False
  have "signal_inv cs ds os (run\<lparr>wr_pc := PC_Failed, wr_pending := None\<rparr>)" by (simp add: signal_inv_def is_final_def)
  with False assms show ?thesis
    by (cases ev) (simp_all add: step_def complete_signals timer_signals confirm_signals decide_signals outcome_signals)
qed

lemma run_signals:
  "same_run trace \<Longrightarrow> signal_inv (sent_confirmations trace) (sent_decisions trace) (sent_outcomes trace)
     (steps patched trace (start_run request workflowId J))"
proof (induction trace rule: rev_induct)
  case Nil
  show ?case by (simp add: start_signals)
next
  case (snoc x trace)
  then show ?case by (cases x) (simp add: step_signals)
qed

lemma run_awaits: "await_inv (steps patched trace (start_run request workflowId J))"
  by (induction trace rule: rev_induct) (auto simp: start_await step_await)


text \<open>What a handler does with a buffer: the first signal it wants is the one it takes.\<close>

lemma fold_confirm:
  assumes "isRefundPreviewCurrent (pre_validUntil pre) now"
  shows "fold (confirm_handler patched now pre) cs (None, False) = (find (\<lambda>c. cf_previewId c = previewId pre) cs, False)"
proof -
  have taken: "fold (confirm_handler patched now pre) cs (Some c, False) = (Some c, False)" for cs c
    by (induction cs) (simp_all add: confirm_handler_def)
  show ?thesis using assms by (induction cs) (simp_all add: confirm_handler_def taken)
qed

lemma fold_decide: "fold (decide_handler accepted) ds None = find (\<lambda>d. hd_decision d \<in> set accepted) ds"
proof -
  have h: "decide_handler accepted x (Some d) = Some d" "decide_handler accepted x None = (if hd_decision x \<in> set accepted then Some x else None)" for x d
    by (simp_all add: decide_handler_def)
  have taken: "fold (decide_handler accepted) ds (Some d) = Some d" for ds d by (induction ds) (simp_all add: h)
  show ?thesis by (induction ds) (simp_all add: h taken)
qed

lemma fold_outcome: "fold (outcome_handler (Some i)) os None = find (\<lambda>po. po_providerRefundId po = i) os"
proof -
  have h: "outcome_handler (Some i) x (Some po) = Some po" "outcome_handler (Some i) x None = (if po_providerRefundId x = i then Some x else None)" for x po
    by (auto simp: outcome_handler_def)
  have taken: "fold (outcome_handler (Some i)) os (Some po) = Some po" for os po by (induction os) (simp_all add: h)
  show ?thesis by (induction os) (simp_all add: h taken)
qed

lemma returned_journal: "e \<in> set (wr_journal run) \<Longrightarrow> e \<in> set (wr_journal (confirmation_returned patched br dec pre evidence v run))"
  by (auto simp: confirmation_returned_def leave_unconfirmed_def finish_def schedule_def close_evidence_def
      confirmation_observed_def openMonetaryCase_def executeAuthorizedRefund_def execute_refresh_def split: option.splits)

lemma recorded [simp]: "set (wr_journal (record_entries es run)) = set es \<union> set (wr_journal run)"
  by (simp add: record_entries_def)

lemma early_confirmation:
  assumes "wr_pc run = PC_Preview br dec evidence" and "wr_pending run = Some call"
    and "find (\<lambda>c. cf_previewId c = previewId pre) (buffered_confirmations run) = Some c" and "isRefundPreviewCurrent (pre_validUntil pre) now"
  shows "Confirmed now c \<in> set (wr_journal (step patched now (Complete (R_Preview pre)) run))"
  using assms by (simp add: step_def is_final_def complete_def resume_def on_preview_def preview_created_def waitForRefundConfirmation_def
      fold_confirm record_entries_def set_state_def returned_journal opt_entry_def)

lemma decided_journal: "Decided h \<in> set (wr_journal (approval_decided dec pre evidence caseId h run))"
  "Decided h \<in> set (wr_journal (takeover_decided dec evidence caseId h run))"
  by (auto simp: approval_decided_def takeover_decided_def close_case_def schedule_def Let_def)

lemma early_decision:
  assumes "wr_pending run = Some call"
  shows "wr_pc run = PC_OpenApproval dec pre evidence \<Longrightarrow> find (\<lambda>d. hd_decision d \<in> {APPROVE, REJECT}) (buffered_decisions run) = Some d
      \<Longrightarrow> Decided d \<in> set (wr_journal (step patched now (Complete (R_Case caseId)) run))"
    and "wr_pc run = PC_OpenTakeover dec' evidence' \<Longrightarrow> find (\<lambda>d. hd_decision d \<in> set takeover_actions) (buffered_decisions run) = Some d
      \<Longrightarrow> Decided d \<in> set (wr_journal (step patched now (Complete (R_Case caseId)) run))"
  using assms by (simp_all add: step_def is_final_def complete_def resume_def on_case_def approval_opened_def takeover_opened_def
      fold_decide record_entries_def decided_journal Let_def)

lemma early_outcome:
  assumes "wr_pc run = PC_Execute br dec pre" and "wr_pending run = Some call" and "er_status result = SUBMITTED" and "er_providerRefundId result = Some i"
    and "find (\<lambda>po. po_providerRefundId po = i) (buffered_outcomes run) = Some po"
  shows "ProviderOutcome po \<in> set (wr_journal (step patched now (Complete (R_Execute result)) run))"
  using assms by (simp add: step_def is_final_def complete_def resume_def on_execute_def executed_def awaitProviderRefundOutcome_def
      provider_reconcile_def schedule_def fold_outcome record_entries_def set_state_def opt_entry_def Let_def)

lemma takeover_action: "hd_decision d \<in> set takeover_actions \<longleftrightarrow> hd_decision d \<noteq> APPROVE"
  by (cases "hd_decision d") (simp_all add: takeover_actions_def)

lemma awaited_signal:
  shows "wr_pc run = PC_Confirm br dec pre evidence \<Longrightarrow> confirm_set run \<Longrightarrow> cf_previewId c = previewId pre \<Longrightarrow> isRefundPreviewCurrent (pre_validUntil pre) now
      \<Longrightarrow> Confirmed now c \<in> set (wr_journal (step patched now (SigConfirm c) run))"
    and "wr_pc run = PC_AwaitApproval dec pre evidence caseId \<Longrightarrow> decide_set run \<Longrightarrow> hd_decision d \<in> {APPROVE, REJECT}
      \<Longrightarrow> Decided d \<in> set (wr_journal (step patched now (SigDecide d) run))"
    and "wr_pc run = PC_AwaitTakeover dec evidence caseId \<Longrightarrow> decide_set run \<Longrightarrow> hd_decision d \<noteq> APPROVE
      \<Longrightarrow> Decided d \<in> set (wr_journal (step patched now (SigDecide d) run))"
    and "wr_pc run = PC_ProviderWait dec pre (Some (po_providerRefundId po)) \<Longrightarrow> outcome_set run
      \<Longrightarrow> ProviderOutcome po \<in> set (wr_journal (step patched now (SigOutcome po) run))"
    and "wr_pc run = PC_ProviderReconcile dec pre (Some (po_providerRefundId po)) None \<Longrightarrow> outcome_set run
      \<Longrightarrow> ProviderOutcome po \<in> set (wr_journal (step patched now (SigOutcome po) run))"
  by (auto simp: step_def is_final_def signal_confirm_def signal_decide_def signal_outcome_def confirm_handler_def decide_handler_def
      outcome_handler_def opt_entry_def decided_journal takeover_action provider_reconcile_def schedule_def intro: returned_journal)

text \<open>
  C31. Within one run no signal is lost, whether it comes while the run waits for it or before. The
  confirmation, the decision and the provider's outcome that come first among those the run wants are
  recorded: at once when the run waits for them, and otherwise, however many other events come in
  between, when the run gets to the point where its handler is installed: with the created preview, if
  that is not expired by then; with the opened case; with the submitted refund. Only a run that
  continues as a new one leaves buffered signals behind.
\<close>

theorem awaited_signal_accepted:
  assumes "same_run trace" and "run = steps patched trace (start_run request workflowId J)"
  shows "case wr_pc run of
      PC_Preview br dec evidence \<Rightarrow> (\<forall>pre c now. find (\<lambda>c. cf_previewId c = previewId pre) (sent_confirmations trace) = Some c
        \<and> isRefundPreviewCurrent (pre_validUntil pre) now \<longrightarrow> Confirmed now c \<in> set (wr_journal (step patched now (Complete (R_Preview pre)) run)))
    | PC_Confirm br dec pre evidence \<Rightarrow> (\<forall>c now. cf_previewId c = previewId pre
        \<and> isRefundPreviewCurrent (pre_validUntil pre) now \<longrightarrow> Confirmed now c \<in> set (wr_journal (step patched now (SigConfirm c) run)))
    | PC_OpenApproval dec pre evidence \<Rightarrow> (\<forall>caseId d now. find (\<lambda>d. hd_decision d \<in> {APPROVE, REJECT}) (sent_decisions trace) = Some d
        \<longrightarrow> Decided d \<in> set (wr_journal (step patched now (Complete (R_Case caseId)) run)))
    | PC_AwaitApproval dec pre evidence caseId \<Rightarrow> (\<forall>d now. hd_decision d \<in> {APPROVE, REJECT}
        \<longrightarrow> Decided d \<in> set (wr_journal (step patched now (SigDecide d) run)))
    | PC_OpenTakeover dec evidence \<Rightarrow> (\<forall>caseId d now. find (\<lambda>d. hd_decision d \<noteq> APPROVE) (sent_decisions trace) = Some d
        \<longrightarrow> Decided d \<in> set (wr_journal (step patched now (Complete (R_Case caseId)) run)))
    | PC_AwaitTakeover dec evidence caseId \<Rightarrow> (\<forall>d now. hd_decision d \<noteq> APPROVE
        \<longrightarrow> Decided d \<in> set (wr_journal (step patched now (SigDecide d) run)))
    | PC_Execute br dec pre \<Rightarrow> (\<forall>result i po now. er_status result = SUBMITTED \<and> er_providerRefundId result = Some i
        \<and> find (\<lambda>po. po_providerRefundId po = i) (sent_outcomes trace) = Some po
        \<longrightarrow> ProviderOutcome po \<in> set (wr_journal (step patched now (Complete (R_Execute result)) run)))
    | PC_ProviderReconcile dec pre refundId outcome \<Rightarrow> (\<forall>po now. refundId = Some (po_providerRefundId po) \<and> outcome = None
        \<longrightarrow> ProviderOutcome po \<in> set (wr_journal (step patched now (SigOutcome po) run)))
    | PC_ProviderWait dec pre refundId \<Rightarrow> (\<forall>po now. refundId = Some (po_providerRefundId po)
        \<longrightarrow> ProviderOutcome po \<in> set (wr_journal (step patched now (SigOutcome po) run)))
    | _ \<Rightarrow> True"
proof -
  have a: "await_inv run" unfolding assms(2) by (rule run_awaits)
  have s: "signal_inv (sent_confirmations trace) (sent_decisions trace) (sent_outcomes trace) run"
    unfolding assms(2) by (rule run_signals [OF assms(1)])
  have t: "(\<lambda>d. hd_decision d \<noteq> APPROVE) = (\<lambda>d. hd_decision d \<in> set takeover_actions)" using takeover_action by blast
  show ?thesis unfolding t
    using a s
    by (cases "wr_pc run")
      (auto simp: await_inv_def pc_kind_def handler_inv_def signal_inv_def is_final_def kept_signals_def unheard_def
        intro: early_confirmation early_outcome early_decision awaited_signal)
qed


section \<open>The polls of one run\<close>

definition evidence_reads :: "entry list \<Rightarrow> nat" where
  "evidence_reads J = length (filter (\<lambda>e. case e of Scheduled (ReadRefundEvidence _) \<Rightarrow> True | _ \<Rightarrow> False) J)"

definition reconciliations :: "entry list \<Rightarrow> nat" where
  "reconciliations J = length (filter (\<lambda>e. case e of Scheduled (ReconcileRefund _) \<Rightarrow> True | _ \<Rightarrow> False) J)"

text \<open>
  How often a run that started with the journal counts \<^verbatim>\<open>b\<close> and \<^verbatim>\<open>k\<close> has asked, per await point: the
  evidence is read once more after a takeover, and once more before the refund is executed.
\<close>

definition polled :: "nat \<Rightarrow> nat \<Rightarrow> RefundWorkflowRequest \<Rightarrow> pc \<Rightarrow> nat \<Rightarrow> nat \<Rightarrow> bool" where
  "polled b k request p reads recs = (case p of
       PC_Context0 \<Rightarrow> reads = b \<and> recs = k \<and> rq_recovery request = None
     | PC_Decision0 _ \<Rightarrow> reads = b \<and> recs = k \<and> rq_recovery request = None
     | PC_OpenEvidence _ \<Rightarrow> reads = b \<and> recs = k \<and> rq_recovery request = None
     | PC_EvidenceSleep _ _ _ polls \<Rightarrow> reads = b + polls \<and> polls < 120 \<and> recs = k \<and> rq_recovery request = None
     | PC_EvidenceRead _ _ polls \<Rightarrow> reads = b + polls + 1 \<and> polls < 120 \<and> recs = k \<and> rq_recovery request = None
     | PC_CloseExpired _ \<Rightarrow> reads \<le> b + 120 \<and> recs = k
     | PC_Context1 _ \<Rightarrow> reads \<le> b + 120 \<and> recs = k
     | PC_Decision1 _ _ \<Rightarrow> reads \<le> b + 120 \<and> recs = k
     | PC_CloseReviewed _ _ _ \<Rightarrow> reads \<le> b + 120 \<and> recs = k
     | PC_OpenTakeover _ _ \<Rightarrow> reads \<le> b + 120 \<and> recs = k
     | PC_AwaitTakeover _ _ _ \<Rightarrow> reads \<le> b + 120 \<and> recs = k
     | PC_CloseExceptional _ _ _ \<Rightarrow> reads \<le> b + 120 \<and> recs = k
     | PC_TakeoverContext _ _ _ \<Rightarrow> reads \<le> b + 120 \<and> recs = k
     | PC_TakeoverEvidence _ _ _ _ \<Rightarrow> reads \<le> b + 121 \<and> recs = k
     | PC_TakeoverDecision _ _ _ \<Rightarrow> reads \<le> b + 121 \<and> recs = k
     | PC_Preview _ _ _ \<Rightarrow> reads \<le> b + 121 \<and> recs = k
     | PC_Confirm _ _ _ _ \<Rightarrow> reads \<le> b + 121 \<and> recs = k
     | PC_Observe _ _ _ _ _ \<Rightarrow> reads \<le> b + 121 \<and> recs = k
     | PC_OpenApproval _ _ _ \<Rightarrow> reads \<le> b + 121 \<and> recs = k
     | PC_AwaitApproval _ _ _ _ \<Rightarrow> reads \<le> b + 121 \<and> recs = k
     | PC_CloseApproved _ _ _ \<Rightarrow> reads \<le> b + 121 \<and> recs = k
     | PC_ExecEvidence _ _ _ _ \<Rightarrow> reads \<le> b + 122 \<and> recs = k
     | PC_ExecRefresh _ _ _ _ \<Rightarrow> reads \<le> b + 122 \<and> recs = k
     | PC_Execute _ _ _ \<Rightarrow> reads \<le> b + 122 \<and> recs = k
     | PC_Reconcile _ _ n \<Rightarrow> reads \<le> b + 122 \<and> recs = k + n + 1 \<and> n < 288
     | PC_ReconcileSleep _ _ n \<Rightarrow> reads \<le> b + 122 \<and> recs = k + n + 1 \<and> n < 288
     | PC_ContinuedAsNew r \<Rightarrow> reads \<le> b + 122 \<and> fresh_request r
         \<and> (if rq_recovery r = None then reads = b + 120 \<and> recs = k else recs = k + 288)
     | _ \<Rightarrow> reads \<le> b + 122)"

definition poll_inv :: "nat \<Rightarrow> nat \<Rightarrow> WorkflowRun \<Rightarrow> bool" where
  "poll_inv b k run \<longleftrightarrow> polled b k (wr_request run) (wr_pc run) (evidence_reads (wr_journal run)) (reconciliations (wr_journal run))"

text \<open>A run about to continue, with at most \<^verbatim>\<open>n\<close> reads so far and no reconciliation.\<close>

definition asked :: "nat \<Rightarrow> nat \<Rightarrow> nat \<Rightarrow> WorkflowRun \<Rightarrow> bool" where
  "asked b k n run \<longleftrightarrow> evidence_reads (wr_journal run) \<le> b + n \<and> reconciliations (wr_journal run) = k"

lemma counts [simp]:
  "evidence_reads (Scheduled c # J) = (case c of ReadRefundEvidence _ \<Rightarrow> 1 | _ \<Rightarrow> 0) + evidence_reads J"
  "reconciliations (Scheduled c # J) = (case c of ReconcileRefund _ \<Rightarrow> 1 | _ \<Rightarrow> 0) + reconciliations J"
  "evidence_reads (Completed c r # J) = evidence_reads J" "reconciliations (Completed c r # J) = reconciliations J"
  "evidence_reads (Decided d # J) = evidence_reads J" "reconciliations (Decided d # J) = reconciliations J"
  "evidence_reads (ProviderOutcome po # J) = evidence_reads J" "reconciliations (ProviderOutcome po # J) = reconciliations J"
  "evidence_reads (Confirmed t cf # J) = evidence_reads J" "reconciliations (Confirmed t cf # J) = reconciliations J"
  by (simp_all add: evidence_reads_def reconciliations_def split: call.split)

lemma counts_opt [simp]:
  "evidence_reads (opt_entry (Confirmed t) v @ J) = evidence_reads J" "reconciliations (opt_entry (Confirmed t) v @ J) = reconciliations J"
  "evidence_reads (opt_entry ProviderOutcome v' @ J) = evidence_reads J" "reconciliations (opt_entry ProviderOutcome v' @ J) = reconciliations J"
  by (simp_all add: opt_entry_def split: option.split)

lemma asked_fields [simp]:
  "asked b k n (set_state st run) = asked b k n run" "asked b k n (run\<lparr>wr_pending := v\<rparr>) = asked b k n run"
  "asked b k n (run\<lparr>wr_humanDecision := h\<rparr>) = asked b k n run" "asked b k n (record_entries [Completed c r] run) = asked b k n run"
  "asked b k n (record_entries [Decided d] run) = asked b k n run" "asked b k n (record_entries (opt_entry (Confirmed t) cf) run) = asked b k n run"
  "asked b k n (record_entries (opt_entry ProviderOutcome po) run) = asked b k n run" "asked b k n (record_entries [ProviderOutcome po1] run) = asked b k n run"
  "asked b k n (run\<lparr>confirm_set := f1, buffered_confirmations := l1\<rparr>) = asked b k n run"
  "asked b k n (run\<lparr>decide_set := f2, buffered_decisions := l2\<rparr>) = asked b k n run"
  "asked b k n (run\<lparr>outcome_set := f3, buffered_outcomes := l3\<rparr>) = asked b k n run"
  by (simp_all add: asked_def set_state_def record_entries_def)

lemma asked_mono: "asked b k n run \<Longrightarrow> n \<le> m \<Longrightarrow> asked b k m run"
  by (simp add: asked_def)

lemma poll_schedule:
  assumes "polled b k (wr_request run) p ((case c of ReadRefundEvidence _ \<Rightarrow> 1 | _ \<Rightarrow> 0) + evidence_reads (wr_journal run))
    ((case c of ReconcileRefund _ \<Rightarrow> 1 | _ \<Rightarrow> 0) + reconciliations (wr_journal run))"
  shows "poll_inv b k (schedule c p run)"
  using assms by (simp add: poll_inv_def schedule_def)

lemma poll_suspend: "polled b k (wr_request run) p (evidence_reads (wr_journal run)) (reconciliations (wr_journal run)) \<Longrightarrow> poll_inv b k (suspend p run)"
  by (simp add: poll_inv_def suspend_def)

lemma poll_finish: "evidence_reads (wr_journal run) \<le> b + 122 \<Longrightarrow> poll_inv b k (finish st run)"
  by (simp add: poll_inv_def finish_def polled_def)

lemmas poll_rules = poll_schedule poll_suspend poll_finish

named_theorems poll_segments "poll_inv of the code between two awaits"

lemma poll_execute [poll_segments]:
  "asked b k 122 run \<Longrightarrow> poll_inv b k (execute_refresh br dec pre evidence run)"
  "asked b k 121 run \<Longrightarrow> poll_inv b k (executeAuthorizedRefund br dec pre evidence run)"
  "asked b k 122 run \<Longrightarrow> poll_inv b k (execute_evidence_read br dec pre evidence current run)"
  "asked b k 122 run \<Longrightarrow> poll_inv b k (execute_refreshed br dec pre ctx run)"
  by (auto simp: execute_refresh_def executeAuthorizedRefund_def execute_evidence_read_def execute_refreshed_def asked_def polled_def
      intro!: poll_rules)


text \<open>The provider's outcome is awaited with as many reconciliations as it takes.\<close>

lemma poll_provider [poll_segments]:
  assumes "evidence_reads (wr_journal run) \<le> b + 122"
  shows "poll_inv b k (provider_reconcile dec pre refundId outcome run)" "poll_inv b k (awaitProviderRefundOutcome dec pre refundId run)"
    "poll_inv b k (provider_reconciled dec pre refundId outcome rec run)"
proof -
  have p: "poll_inv b k (provider_reconcile dec pre refundId outcome run)" if "evidence_reads (wr_journal run) \<le> b + 122" for refundId outcome run
    using that by (auto simp: provider_reconcile_def polled_def intro!: poll_schedule)
  from p assms show "poll_inv b k (provider_reconcile dec pre refundId outcome run)" .
  from assms show "poll_inv b k (awaitProviderRefundOutcome dec pre refundId run)"
    by (auto simp: awaitProviderRefundOutcome_def Let_def record_entries_def intro!: p)
  from assms show "poll_inv b k (provider_reconciled dec pre refundId outcome rec run)"
    by (auto simp: provider_reconciled_def Let_def polled_def set_state_def intro!: poll_rules)
qed

lemma poll_pending [poll_segments]:
  assumes "evidence_reads (wr_journal run) \<le> b + 122"
  shows "reconciliations (wr_journal run) = k + n \<Longrightarrow> n < 288 \<Longrightarrow> poll_inv b k (reconcilePendingRefund dec pre n run)"
    and "reconciliations (wr_journal run) = k + n + 1 \<Longrightarrow> n < 288 \<Longrightarrow> poll_inv b k (pending_reconciled dec pre n rec run)"
    and "reconciliations (wr_journal run) = k + n + 1 \<Longrightarrow> n < 288 \<Longrightarrow> poll_inv b k (pending_slept dec pre n run)"
  using assms by (auto simp: reconcilePendingRefund_def pending_reconciled_def pending_slept_def polled_def fresh_request_def
      RECONCILIATION_ATTEMPTS_PER_RUN_def intro!: poll_rules split: ReconciliationStatus.splits)

lemma poll_executed [poll_segments]: "asked b k 122 run \<Longrightarrow> poll_inv b k (executed dec pre result run)"
  by (auto simp: executed_def asked_def set_state_def intro!: poll_finish poll_provider poll_pending(1) split: ExecutionStatus.splits)

lemma poll_close [poll_segments]:
  assumes "polled b k (wr_request run) p (evidence_reads (wr_journal run)) (reconciliations (wr_journal run))"
  shows "poll_inv b k (close_case caseId h oc p run)" "poll_inv b k (close_evidence snap eo p run)" "poll_inv b k (openMonetaryCase evidence input p run)"
  using assms by (auto simp: close_case_def close_evidence_def openMonetaryCase_def intro!: poll_schedule split: option.splits)

lemma poll_confirmed [poll_segments]:
  assumes "asked b k 121 run"
  shows "poll_inv b k (leave_unconfirmed br evidence st run)" "poll_inv b k (confirmation_observed br dec pre evidence c run)"
    "poll_inv b k (confirmation_returned patched br dec pre evidence confirmation run)"
  using assms by (auto simp: leave_unconfirmed_def confirmation_observed_def confirmation_returned_def asked_def polled_def
      intro!: poll_rules poll_close poll_execute split: option.splits)

lemma poll_wait [poll_segments]:
  assumes "asked b k 121 run"
  shows "poll_inv b k (waitForRefundConfirmation patched now br dec pre evidence run)" "poll_inv b k (preview_created patched now br dec evidence pre run)"
proof -
  have w: "poll_inv b k (waitForRefundConfirmation patched now br dec pre evidence run)" if q: "asked b k 121 run" for run
  proof -
    obtain confirmation expired where h: "fold (confirm_handler patched now pre) (buffered_confirmations run) (None, False) = (confirmation, expired)"
      by fastforce
    let ?run = "record_entries (opt_entry (Confirmed now) confirmation) (run\<lparr> confirm_set := True, buffered_confirmations := [] \<rparr>)"
    from q have "poll_inv b k (confirmation_returned patched br dec pre evidence v ?run)" for v by (intro poll_confirmed) simp
    moreover from q have "poll_inv b k (suspend (PC_Confirm br dec pre evidence) ?run)"
      by (intro poll_suspend) (simp add: polled_def asked_def record_entries_def)
    ultimately show ?thesis unfolding waitForRefundConfirmation_def h by (auto simp: Let_def split: option.splits)
  qed
  from w assms show "poll_inv b k (waitForRefundConfirmation patched now br dec pre evidence run)" .
  from w [of "set_state st run" for st] assms show "poll_inv b k (preview_created patched now br dec evidence pre run)"
    by (simp add: preview_created_def)
qed

lemma poll_decided [poll_segments]:
  shows "asked b k 121 run \<Longrightarrow> poll_inv b k (approval_decided dec pre evidence caseId h run)"
    and "asked b k 121 run \<Longrightarrow> poll_inv b k (approval_opened dec pre evidence caseId run)"
    and "asked b k 120 run \<Longrightarrow> poll_inv b k (takeover_decided dec evidence caseId h run)"
    and "asked b k 120 run \<Longrightarrow> poll_inv b k (takeover_opened dec evidence caseId run)"
  by (auto simp: approval_decided_def approval_opened_def takeover_decided_def takeover_opened_def Let_def asked_def polled_def
      set_state_def record_entries_def intro!: poll_close poll_suspend split: option.splits)

lemma poll_takeover [poll_segments]:
  shows "asked b k 121 run \<Longrightarrow> poll_inv b k (exceptional_preview dec evidence caseId ctx run)"
    and "asked b k 120 run \<Longrightarrow> poll_inv b k (takeover_refreshed dec evidence caseId ctx run)"
    and "asked b k 121 run \<Longrightarrow> poll_inv b k (takeover_evidence_read dec ctx snap caseId current run)"
    and "asked b k 121 run \<Longrightarrow> poll_inv b k (takeover_reevaluated ctx snap caseId dec run)"
  by (auto simp: exceptional_preview_def takeover_refreshed_def takeover_evidence_read_def takeover_reevaluated_def asked_def polled_def
      intro!: poll_rules split: option.splits)

lemma poll_dispatch [poll_segments]: "asked b k 120 run \<Longrightarrow> poll_inv b k (dispatch ctx dec evidence run)"
  by (auto simp: dispatch_def asked_def polled_def intro!: poll_rules poll_close split: PolicyEffect.splits)

lemma poll_loop:
  assumes "evidence_reads (wr_journal run) = b + polls" and "reconciliations (wr_journal run) = k" and "rq_recovery (wr_request run) = None"
    and "polls < 120 \<or> polls = 120 \<and> (accepted_evidence snap \<noteq> None \<or> deadline \<le> now)"
  shows "poll_inv b k (evidence_loop now dec snap deadline polls run)"
  using assms by (auto simp: evidence_loop_def polled_def set_state_def intro!: poll_rules poll_close)

lemma poll_evidence [poll_segments]:
  assumes "reconciliations (wr_journal run) = k" and "rq_recovery (wr_request run) = None"
  shows "evidence_reads (wr_journal run) = b + polls + 1 \<Longrightarrow> polls < 120 \<Longrightarrow> poll_inv b k (evidence_polled now dec deadline polls snap run)"
    and "evidence_reads (wr_journal run) = b \<Longrightarrow> poll_inv b k (evidence_opened now dec snap run)"
    and "evidence_reads (wr_journal run) = b \<Longrightarrow> poll_inv b k (first_decision ctx dec run)"
    and "evidence_reads (wr_journal run) = b \<Longrightarrow> poll_inv b k (first_context ctx run)"
proof -
  assume "evidence_reads (wr_journal run) = b + polls + 1" "polls < 120"
  with assms show "poll_inv b k (evidence_polled now dec deadline polls snap run)"
    unfolding evidence_polled_def
    by (cases "polls + 1 \<ge> 120 \<and> accepted_evidence snap = None \<and> now < deadline")
      (auto simp: polled_def fresh_request_def intro!: poll_suspend poll_loop)
next
  assume r: "evidence_reads (wr_journal run) = b"
  with assms show "poll_inv b k (evidence_opened now dec snap run)" unfolding evidence_opened_def by (intro poll_loop) simp_all
  have f: "poll_inv b k (first_decision ctx dec run)" for dec
    using r assms by (auto simp: first_decision_def polled_def asked_def intro!: poll_schedule poll_dispatch)
  then show "poll_inv b k (first_decision ctx dec run)" .
  from f r assms show "poll_inv b k (first_context ctx run)"
    by (auto simp: first_context_def polled_def intro!: poll_schedule split: option.splits)
qed

lemma poll_reviewed [poll_segments]: "asked b k 120 run \<Longrightarrow> poll_inv b k (reviewed_decision ctx snap dec run)"
  by (auto simp: reviewed_decision_def polled_def asked_def intro!: poll_close poll_dispatch)

lemma resume_polls:
  assumes "poll_inv b k run" and "resume patched now r run = Some run'"
  shows "poll_inv b k run'"
proof -
  have p: "polled b k (wr_request run) (wr_pc run) (evidence_reads (wr_journal run)) (reconciliations (wr_journal run))"
    using assms(1) by (simp add: poll_inv_def)
  show ?thesis
  proof (cases "wr_pc run")
    case (PC_Context1 snap)
    with assms(2) p show ?thesis by (auto simp: resume_def on_reply_simps polled_def intro!: poll_schedule)
  next
    case (PC_CloseExceptional dec evidence caseId)
    with assms(2) p show ?thesis by (auto simp: resume_def on_reply_simps polled_def intro!: poll_schedule)
  next
    case (PC_Decision0 ctx)
    with assms(2) p show ?thesis by (auto simp: resume_def on_reply_simps polled_def intro!: poll_evidence)
  qed (use assms(2) p in \<open>auto simp: resume_def on_reply_simps polled_def asked_def intro!: poll_segments poll_finish\<close>)
qed

lemma poll_fields [simp]:
  "poll_inv b k (record_entries [Completed c r] (run\<lparr>wr_pending := None\<rparr>)) = poll_inv b k run"
  "poll_inv b k (run\<lparr>buffered_confirmations := l1\<rparr>) = poll_inv b k run" "poll_inv b k (run\<lparr>buffered_decisions := l2\<rparr>) = poll_inv b k run"
  "poll_inv b k (run\<lparr>buffered_outcomes := l3\<rparr>) = poll_inv b k run"
  by (simp_all add: poll_inv_def record_entries_def)

lemma complete_polls: "poll_inv b k run \<Longrightarrow> poll_inv b k (complete patched now r run)"
  using resume_polls [of b k "record_entries [Completed c r] (run\<lparr>wr_pending := None\<rparr>)" patched now r for c]
  by (auto simp: complete_def split: option.splits)

lemma timer_polls:
  assumes "poll_inv b k run"
  shows "poll_inv b k (timer_fired patched run)"
  using assms unfolding poll_inv_def [of b k run]
  by (cases "wr_pc run") (auto simp: timer_fired_def polled_def asked_def poll_inv_def [of b k run]
      intro!: poll_schedule poll_confirmed poll_provider poll_pending(3))

lemma signal_polls:
  assumes "poll_inv b k run"
  shows "poll_inv b k (signal_confirm patched now c run)" "poll_inv b k (signal_decide d run)" "poll_inv b k (signal_outcome po run)"
proof -
  have p: "polled b k (wr_request run) (wr_pc run) (evidence_reads (wr_journal run)) (reconciliations (wr_journal run))"
    using assms by (simp add: poll_inv_def)
  from p assms show "poll_inv b k (signal_confirm patched now c run)"
    by (cases "wr_pc run") (auto simp: signal_confirm_def polled_def asked_def record_entries_def intro!: poll_confirmed split: prod.splits)
  from p assms show "poll_inv b k (signal_decide d run)"
    by (cases "wr_pc run") (auto simp: signal_decide_def polled_def asked_def intro!: poll_decided split: option.splits)
  have r: "evidence_reads (wr_journal (record_entries [ProviderOutcome o1] run)) = evidence_reads (wr_journal run)" for o1
    by (simp add: record_entries_def)
  have s: "poll_inv b k (record_entries [ProviderOutcome o1] (suspend q run))" if "polled b k (wr_request run) q (evidence_reads (wr_journal run)) (reconciliations (wr_journal run))" for o1 q
    using that by (simp add: poll_inv_def suspend_def record_entries_def)
  from p assms show "poll_inv b k (signal_outcome po run)"
    by (cases "wr_pc run") (auto simp: signal_outcome_def polled_def r intro!: s poll_provider split: option.splits)
qed

lemma start_polls:
  "fresh_request request \<Longrightarrow> poll_inv (evidence_reads J) (reconciliations J) (start_run request workflowId J)"
  by (auto simp: start_run_def Let_def fresh_request_def polled_def set_state_def intro!: poll_schedule poll_pending(1) split: option.splits)

lemma step_polls:
  assumes "poll_inv b k run" and "ev \<noteq> Continue"
  shows "poll_inv b k (step patched now ev run)"
proof -
  have "poll_inv b k (run\<lparr>wr_pc := PC_Failed, wr_pending := None\<rparr>)"
    using assms(1) by (cases "wr_pc run") (auto simp: poll_inv_def polled_def)
  with assms show ?thesis by (cases ev) (auto simp: step_def complete_polls timer_polls signal_polls)
qed

lemma run_polls:
  "same_run trace \<Longrightarrow> fresh_request request
    \<Longrightarrow> poll_inv (evidence_reads J) (reconciliations J) (steps patched trace (start_run request workflowId J))"
proof (induction trace rule: rev_induct)
  case Nil
  then show ?case by (simp add: start_polls)
next
  case (snoc x trace)
  then show ?case by (cases x) (simp add: step_polls)
qed

text \<open>Every run of a journey is the start of a run with a fresh request, and the events since then.\<close>

lemma reachable_since_start:
  assumes "reachable patched request workflowId run"
  shows "\<exists>request' J trace. fresh_request request' \<and> same_run trace \<and> run = steps patched trace (start_run request' workflowId J)"
  using assms
proof (induction rule: reachable.induct)
  case start
  then have "fresh_request request \<and> same_run [] \<and> start_run request workflowId [] = steps patched [] (start_run request workflowId [])"
    by (simp add: same_run_def fresh_request_def)
  then show ?case by blast
next
  case (step run now ev)
  then obtain request' J trace where r: "fresh_request request'" "same_run trace" "run = steps patched trace (start_run request' workflowId J)" by blast
  have w: "wr_workflowId run = workflowId" using reachable_inv [OF step.hyps] by (simp add: run_inv_def base_inv_def)
  consider (same) "ev \<noteq> Continue" | (next_run) r' where "ev = Continue" "wr_pc run = PC_ContinuedAsNew r'"
    | (none) "ev = Continue" "\<And>r'. wr_pc run \<noteq> PC_ContinuedAsNew r'" by blast
  then show ?case
  proof cases
    case same
    with r have "fresh_request request' \<and> same_run (trace @ [(now, ev)])
      \<and> step patched now ev run = steps patched (trace @ [(now, ev)]) (start_run request' workflowId J)" by simp
    then show ?thesis by blast
  next
    case next_run
    with run_polls [OF r(2,1), of J patched workflowId] r(3) have "fresh_request r'" by (simp add: poll_inv_def polled_def)
    with next_run have "fresh_request r' \<and> same_run [] \<and> step patched now ev run = steps patched [] (start_run r' workflowId (wr_journal run))"
      by (simp add: step_def same_run_def w)
    then show ?thesis by blast
  next
    case none
    then have "step patched now ev run = run" by (auto simp: step_def split: pc.splits)
    with r show ?thesis by auto
  qed
qed

text \<open>
  C33. A run polls a bounded number of times before it continues as a new one, counted by the calls in
  its journal: it asks for the customer's evidence at most 120 times while it collects, and twice more
  at most in its whole life, and it continues as new to go on collecting after exactly 120 answers; it
  asks the gateway for a pending refund at most 288 times, and continues as new after exactly 288.
\<close>

theorem polls_per_run_bounded:
  assumes "same_run trace" and "fresh_request request" and "run = steps patched trace (start_run request workflowId J)"
    and "reads = evidence_reads (wr_journal run) - evidence_reads J" and "recs = reconciliations (wr_journal run) - reconciliations J"
  shows "reads \<le> 122 \<and> (case wr_pc run of
      PC_EvidenceSleep _ _ _ _ \<Rightarrow> reads < 120 | PC_EvidenceRead _ _ _ \<Rightarrow> reads \<le> 120
    | PC_Reconcile _ _ _ \<Rightarrow> recs \<le> 288 | PC_ReconcileSleep _ _ _ \<Rightarrow> recs \<le> 288
    | PC_ContinuedAsNew r \<Rightarrow> (if rq_recovery r = None then reads = 120 \<and> recs = 0 else recs = 288)
    | _ \<Rightarrow> True)"
proof -
  have "poll_inv (evidence_reads J) (reconciliations J) run" unfolding assms(3) by (rule run_polls [OF assms(1,2)])
  then show ?thesis unfolding assms(4,5) by (cases "wr_pc run") (auto simp: poll_inv_def polled_def)
qed


section \<open>Witnesses\<close>

text \<open>The customer confirms while the policy is still evaluated; the run takes it with the preview.\<close>

definition early_trace :: "(int \<times> event) list" where
  "early_trace = [(0, Complete (R_Context sample_refund_context)), (0, SigConfirm sample_confirmation), (0, Complete (R_Decision sample_decision))]"

lemma early_run:
  "same_run early_trace" "sent_confirmations early_trace = [sample_confirmation]"
  "wr_pc (steps always early_trace (start_run sample_request ''w1'' [])) = PC_Preview B_ALLOW sample_decision None"
proof -
  show "same_run early_trace" by (simp add: early_trace_def same_run_def)
  show "sent_confirmations early_trace = [sample_confirmation]" by (simp add: early_trace_def sent_confirmations_def map_filter_def)
  show "wr_pc (steps always early_trace (start_run sample_request ''w1'' [])) = PC_Preview B_ALLOW sample_decision None"
    using sample_happy(1,2,4) by (simp add: early_trace_def run_defs Let_def)
qed

theorem awaited_signal_accepted_witness:
  "Confirmed 1000 sample_confirmation \<in> set (wr_journal (step always 1000 (Complete (R_Preview sample_preview))
     (steps always early_trace (start_run sample_request ''w1'' []))))"
proof -
  have "isRefundPreviewCurrent (pre_validUntil sample_preview) 1000" using sample_happy(5) by (simp add: isRefundPreviewCurrent_def)
  moreover have "find (\<lambda>c. cf_previewId c = previewId sample_preview) (sent_confirmations early_trace) = Some sample_confirmation"
    by (simp add: early_run(2) sample_happy(8))
  ultimately show ?thesis
    using awaited_signal_accepted [OF early_run(1) refl, of always sample_request "''w1''" "[]", unfolded early_run(3) pc.case] by blast
qed

text \<open>A run that collects evidence for 120 polls continues as a new one.\<close>

definition poll_once :: "(int \<times> event) list" where
  "poll_once = [(1000, TimerFired), (1000, Complete (R_Evidence photo_snapshot))]"

definition collecting :: "(int \<times> event) list" where
  "collecting = [(0, Complete (R_Context sample_refund_context)), (0, Complete (R_Decision photo_decision)), (1000, Complete (R_Evidence photo_snapshot))]"

lemma poll_once_step:
  assumes "wr_pc run = PC_EvidenceSleep dec snap deadline polls" and "1000 < deadline"
  shows "wr_pc (steps always poll_once run) = (if polls + 1 \<ge> 120
      then PC_ContinuedAsNew ((wr_request run)\<lparr>rq_evidenceRecovery := Some \<lparr>rv_deadline = deadline, rv_decision = dec\<rparr>\<rparr>)
      else PC_EvidenceSleep dec photo_snapshot deadline (polls + 1)) \<and> wr_request (steps always poll_once run) = wr_request run"
  using assms by (simp add: poll_once_def timer_fired_def evidence_polled_def evidence_loop_def on_evidence_def photo_snapshot_def run_defs)

lemma poll_often:
  assumes "wr_pc run = PC_EvidenceSleep dec snap deadline 0" and "1000 < deadline" and "n < 120"
  shows "\<exists>snap. wr_pc (steps always (concat (replicate n poll_once)) run) = PC_EvidenceSleep dec snap deadline n
    \<and> wr_request (steps always (concat (replicate n poll_once)) run) = wr_request run"
  using assms(3)
proof (induction n)
  case (Suc n)
  have "concat (replicate (Suc n) poll_once) = concat (replicate n poll_once) @ poll_once"
    using replicate_append_same [of n poll_once] by (metis concat.simps concat_append append_Nil2 replicate_Suc)
  with Suc assms(2) show ?case by (auto simp: steps_def dest: poll_once_step [unfolded steps_def])
qed (use assms(1) in simp)

definition poll_trace :: "(int \<times> event) list" where
  "poll_trace = collecting @ concat (replicate 119 poll_once) @ poll_once"

lemma steps_append: "steps patched (xs @ ys) run = steps patched ys (steps patched xs run)"
  by (simp add: steps_def)

lemma collecting_run: "steps always collecting (start_run photo_request ''w1'' []) = photo_run"
  by (simp add: collecting_def photo_run_def)

lemma poll_trace_continues:
  "\<exists>r. wr_pc (steps always poll_trace (start_run photo_request ''w1'' [])) = PC_ContinuedAsNew r \<and> rq_recovery r = None"
proof -
  have d: "(1000::int) < 86401000" "(119::nat) < 120" by simp_all
  obtain snap where p: "wr_pc (steps always (concat (replicate 119 poll_once)) photo_run) = PC_EvidenceSleep photo_decision snap 86401000 119"
    and r: "wr_request (steps always (concat (replicate 119 poll_once)) photo_run) = wr_request photo_run"
    using poll_often [OF photo_run_facts(1) d] by blast
  from poll_once_step [OF p d(1)] r photo_run_facts(2) show ?thesis
    by (simp add: poll_trace_def steps_append collecting_run)
qed

lemma poll_trace_same: "same_run poll_trace"
  by (auto simp: poll_trace_def same_run_def collecting_def poll_once_def)

theorem polls_per_run_bounded_witness:
  "evidence_reads (wr_journal (steps always poll_trace (start_run photo_request ''w1'' []))) = 120"
proof -
  obtain r where r: "wr_pc (steps always poll_trace (start_run photo_request ''w1'' [])) = PC_ContinuedAsNew r" "rq_recovery r = None"
    using poll_trace_continues by blast
  have f: "fresh_request photo_request" by (simp add: fresh_request_def photo_request_def sample_request_def)
  show ?thesis
    using polls_per_run_bounded [OF poll_trace_same f refl refl refl, of always "''w1''" "[]", unfolded r(1) pc.case] r(2)
    by (simp add: evidence_reads_def)
qed

end
