(* ===== verification/Commerce.thy ===== *)
theory Commerce
  imports Refund_Offer
begin

text \<open>
  The commerce boundary of the integration gateway, under
  \<^verbatim>\<open>src/apps/services/integration-gateway/src/\<close>: the provider-neutral order of \<^verbatim>\<open>commerce.ts\<close>, its
  construction from a Vendure order (\<^verbatim>\<open>vendure-client.ts\<close>), the refund facts of
  \<^verbatim>\<open>refund-context.ts\<close> and the guarded lookup of \<^verbatim>\<open>get-refund-context.ts\<close>. An HTTP exchange with
  Vendure is the argument \<^verbatim>\<open>http\<close> (the status, and the validated payload when there is one).
\<close>

section \<open>Orders\<close>

record CommerceItem =
  it_id :: string
  it_sku :: string
  it_name :: string
  it_quantity :: int
  it_unitPrice :: Money
  it_lineTotal :: Money

record CommerceRefund =
  cr_id :: string
  cr_status :: string
  cr_amount :: Money
  cr_lineIds :: "string list"

record CommercePayment =
  py_id :: string
  py_status :: string
  py_amount :: Money
  py_method :: string
  py_transactionReference :: "string option"
  py_refunds :: "CommerceRefund list"

record CommerceFulfillment =
  fu_id :: string
  fu_status :: string
  fu_method :: string
  fu_trackingCode :: "string option"

record CommerceCustomer =
  cu_id :: string
  cu_name :: string
  cu_email :: string

record CommerceOrder =
  co_provider :: string
  co_orderId :: string
  co_reference :: string
  co_status :: string
  co_active :: bool
  co_placedAt :: "string option"
  co_customer :: "CommerceCustomer option"
  co_total :: Money
  co_items :: "CommerceItem list"
  co_payments :: "CommercePayment list"
  co_fulfillments :: "CommerceFulfillment list"

definition money :: "int \<Rightarrow> string \<Rightarrow> Money" where
  "money amount cur = \<lparr> amountMinor = amount, currency = cur \<rparr>"

lemma money_simps [simp]: "amountMinor (money a c) = a" "currency (money a c) = c"
  by (simp_all add: money_def)

section \<open>From Vendure\<close>

record VendureLine =
  vl_id :: string
  vl_quantity :: int
  vl_unitPriceWithTax :: int
  vl_linePriceWithTax :: int
  vl_variantSku :: string
  vl_variantName :: string

record VendureRefund =
  vr_id :: string
  vr_state :: string
  vr_total :: int
  vr_orderLineIds :: "string list"

record VendurePayment =
  vp_id :: string
  vp_state :: string
  vp_amount :: int
  vp_method :: string
  vp_transactionId :: "string option"
  vp_refunds :: "VendureRefund list option"

record VendureFulfillment =
  vf_id :: string
  vf_state :: string
  vf_method :: string
  vf_trackingCode :: "string option"

record VendureCustomer =
  vc_id :: string
  vc_firstName :: string
  vc_lastName :: string
  vc_emailAddress :: string

record VendureOrder =
  vo_id :: string
  vo_code :: string
  vo_state :: string
  vo_active :: bool
  vo_currencyCode :: string
  vo_orderPlacedAt :: "string option"
  vo_totalWithTax :: int
  vo_customer :: "VendureCustomer option"
  vo_lines :: "VendureLine list"
  vo_payments :: "VendurePayment list option"
  vo_fulfillments :: "VendureFulfillment list option"

definition normalizeProviderMethod :: "string \<Rightarrow> string" where
  "normalizeProviderMethod method = (if trim method = [] then ''unspecified'' else trim method)"

text \<open>\<^verbatim>\<open>x ?? []\<close>\<close>

definition or_empty :: "'a list option \<Rightarrow> 'a list" where
  "or_empty v = (case v of None \<Rightarrow> [] | Some xs \<Rightarrow> xs)"

definition toCommerceOrder :: "VendureOrder \<Rightarrow> CommerceOrder" where
  "toCommerceOrder order =
     (let cur = vo_currencyCode order in
      \<lparr> co_provider = ''vendure'', co_orderId = vo_id order, co_reference = vo_code order, co_status = vo_state order,
        co_active = vo_active order, co_placedAt = vo_orderPlacedAt order,
        co_customer = map_option (\<lambda>c. \<lparr> cu_id = vc_id c, cu_name = trim (vc_firstName c @ '' '' @ vc_lastName c),
          cu_email = vc_emailAddress c \<rparr>) (vo_customer order),
        co_total = money (vo_totalWithTax order) cur,
        co_items = map (\<lambda>line. \<lparr> it_id = vl_id line, it_sku = vl_variantSku line, it_name = vl_variantName line,
          it_quantity = vl_quantity line, it_unitPrice = money (vl_unitPriceWithTax line) cur,
          it_lineTotal = money (vl_linePriceWithTax line) cur \<rparr>) (vo_lines order),
        co_payments = map (\<lambda>payment. \<lparr> py_id = vp_id payment, py_status = vp_state payment,
          py_amount = money (vp_amount payment) cur, py_method = normalizeProviderMethod (vp_method payment),
          py_transactionReference = vp_transactionId payment,
          py_refunds = map (\<lambda>refund. \<lparr> cr_id = vr_id refund, cr_status = vr_state refund,
            cr_amount = money (vr_total refund) cur, cr_lineIds = vr_orderLineIds refund \<rparr>) (or_empty (vp_refunds payment)) \<rparr>)
          (or_empty (vo_payments order)),
        co_fulfillments = map (\<lambda>f. \<lparr> fu_id = vf_id f, fu_status = vf_state f,
          fu_method = normalizeProviderMethod (vf_method f), fu_trackingCode = vf_trackingCode f \<rparr>)
          (or_empty (vo_fulfillments order)) \<rparr>)"

text \<open>
  An answer of the GraphQL endpoint: the request is rejected; or the status is not 2xx; or the body is
  not JSON or not of the schema; or it is the schema's \<^verbatim>\<open>data\<close> and whether \<^verbatim>\<open>errors\<close> is present and not empty.
\<close>

datatype 'a graphql = Rejected js_error | HttpFailure nat | InvalidPayload | Payload "'a option" bool

datatype LookupFailure = F_http nat | F_invalid_payload | F_graphql | F_no_data | F_duplicate

definition vendureOrderLookup ::
  "('a option \<Rightarrow> bool \<Rightarrow> LookupFailure option) \<Rightarrow> 'a graphql \<Rightarrow> (LookupFailure + 'a option) result" where
  "vendureOrderLookup validate answer =
     (case answer of
        Rejected e \<Rightarrow> Inl e
      | HttpFailure status \<Rightarrow> Inr (Inl (F_http status))
      | InvalidPayload \<Rightarrow> Inr (Inl F_invalid_payload)
      | Payload data errors \<Rightarrow> Inr (case validate data errors of None \<Rightarrow> Inr data | Some f \<Rightarrow> Inl f))"

definition getOrderByReference :: "(nat \<times> VendureOrder list) graphql \<Rightarrow> CommerceOrder option result" where
  "getOrderByReference answer =
     bindE (vendureOrderLookup (\<lambda>data errors. if errors then Some F_graphql else
          case data of None \<Rightarrow> Some F_no_data | Some (totalItems, items) \<Rightarrow> if totalItems > 1 then Some F_duplicate else None) answer)
       (\<lambda>result. case result of
        Inl (F_http status) \<Rightarrow> Inl (Error (''Vendure request failed with HTTP status '' @ show_nat status))
      | Inl F_no_data \<Rightarrow> Inl (Error ''Vendure returned no GraphQL data'')
      | Inl F_duplicate \<Rightarrow> Inl (Error ''Vendure returned duplicate order references'')
      | Inl F_graphql \<Rightarrow> Inl (Error ''Vendure returned a GraphQL error'')
      | Inl F_invalid_payload \<Rightarrow> Inl (Error ''Vendure returned invalid GraphQL data'')
      | Inr None \<Rightarrow> Inl (Error ''Vendure returned no GraphQL data'')
      | Inr (Some (totalItems, items)) \<Rightarrow> Inr (case items of [] \<Rightarrow> None | order # _ \<Rightarrow> Some (toCommerceOrder order)))"

definition getOrderById :: "VendureOrder option graphql \<Rightarrow> CommerceOrder option result" where
  "getOrderById answer =
     bindE (vendureOrderLookup (\<lambda>data errors. if errors \<or> data = None then Some F_graphql else None) answer)
       (\<lambda>result. case result of
        Inl (F_http status) \<Rightarrow> Inl (Error (''Vendure request failed with HTTP status '' @ show_nat status))
      | Inl F_graphql \<Rightarrow> Inl (Error ''Vendure returned a GraphQL error'')
      | Inl _ \<Rightarrow> Inl (Error ''Vendure returned invalid GraphQL data'')
      | Inr None \<Rightarrow> Inl (Error ''Vendure returned a GraphQL error'')
      | Inr (Some order) \<Rightarrow> Inr (map_option toCommerceOrder order))"

datatype ProviderStatus = P_SUBMITTED | P_SUCCEEDED | P_FAILED

text \<open>\<^verbatim>\<open>executeRefund\<close> of the Vendure provider; the payload is \<^verbatim>\<open>refundOrder\<close>'s \<^verbatim>\<open>(__typename, id)\<close>.\<close>

definition vendureExecuteRefund :: "(string \<times> string option) graphql \<Rightarrow> (ProviderStatus \<times> string option) result" where
  "vendureExecuteRefund answer =
     (case answer of
        Rejected e \<Rightarrow> Inl e
      | HttpFailure status \<Rightarrow> Inl (Error (''Vendure refund failed with HTTP status '' @ show_nat status))
      | InvalidPayload \<Rightarrow> Inl ZodError
      | Payload data errors \<Rightarrow>
          if errors then Inl (Error ''Vendure refund GraphQL outcome unknown'') else
          (case data of
             None \<Rightarrow> Inl (Error ''Vendure refund GraphQL outcome unknown'')
           | Some (typename, i) \<Rightarrow> if typename \<noteq> ''Refund'' then Inr (P_FAILED, None) else Inr (P_SUBMITTED, i)))"

section \<open>Refund facts\<close>

definition refundConsumesBalance :: "string \<Rightarrow> bool" where
  "refundConsumesBalance status \<longleftrightarrow> toUpperCase status \<noteq> ''FAILED'' \<and> toUpperCase status \<noteq> ''CANCELLED''"

definition settled_payment :: "CommerceOrder \<Rightarrow> CommercePayment option" where
  "settled_payment order =
     (case filter (\<lambda>payment. toUpperCase (py_status payment) = ''SETTLED'') (co_payments order) of
        [payment] \<Rightarrow> Some payment | _ \<Rightarrow> None)"

definition priorRefunds :: "CommercePayment option \<Rightarrow> CommerceRefund list" where
  "priorRefunds payment = (case payment of None \<Rightarrow> [] | Some p \<Rightarrow> filter (\<lambda>r. refundConsumesBalance (cr_status r)) (py_refunds p))"

definition consumedAmountMinor :: "CommercePayment option \<Rightarrow> int" where
  "consumedAmountMinor payment = foldl (\<lambda>total r. total + amountMinor (cr_amount r)) 0 (priorRefunds payment)"

definition remainingPaymentAmountMinor :: "CommercePayment option \<Rightarrow> int" where
  "remainingPaymentAmountMinor payment =
     (case payment of None \<Rightarrow> 0 | Some p \<Rightarrow> max (amountMinor (py_amount p) - consumedAmountMinor payment) 0)"

definition selectedItems :: "CommerceOrder \<Rightarrow> string list \<Rightarrow> CommerceItem option list" where
  "selectedItems order ids = map (\<lambda>i. List.find (\<lambda>item. it_id item = i) (co_items order)) ids"

definition selectedItemTotalMinor :: "CommerceOrder \<Rightarrow> string list \<Rightarrow> int" where
  "selectedItemTotalMinor order ids =
     foldl (\<lambda>total item. total + (case item of None \<Rightarrow> 0 | Some x \<Rightarrow> amountMinor (it_lineTotal x))) 0 (selectedItems order ids)"

definition selectedItemWasRefunded :: "CommercePayment option \<Rightarrow> string list \<Rightarrow> bool" where
  "selectedItemWasRefunded payment ids =
     (case payment of None \<Rightarrow> False | Some p \<Rightarrow>
        list_ex (\<lambda>r. refundConsumesBalance (cr_status r) \<and> list_ex (\<lambda>l. l \<in> set ids) (cr_lineIds r)) (py_refunds p))"

definition context_itemSelectionValid :: "CommerceOrder \<Rightarrow> Selection \<Rightarrow> bool" where
  "context_itemSelectionValid order sel \<longleftrightarrow>
     sel_scope sel = FULL_ORDER
     \<or> list_all (\<lambda>i. i \<noteq> None) (selectedItems order (sel_itemIds sel))
       \<and> \<not> selectedItemWasRefunded (settled_payment order) (sel_itemIds sel)"

definition selectedMaximumMinor :: "CommerceOrder \<Rightarrow> Selection \<Rightarrow> int" where
  "selectedMaximumMinor order sel =
     (let remaining = remainingPaymentAmountMinor (settled_payment order) in
      if sel_scope sel = FULL_ORDER then remaining
      else min (selectedItemTotalMinor order (sel_itemIds sel)) remaining)"

definition context_facts :: "CommerceOrder \<Rightarrow> Selection \<Rightarrow> ContextFacts" where
  "context_facts order sel =
     (let payment = settled_payment order; valid = context_itemSelectionValid order sel in
      \<lparr> ctx_customerVerified = True,
        ctx_transactionRefundable = (\<not> co_active order \<and> payment \<noteq> None \<and> remainingPaymentAmountMinor payment > 0),
        ctx_itemSelectionValid = valid,
        ctx_priorRefundCount = int (length (priorRefunds payment)),
        ctx_refundableAmount = money (if valid then selectedMaximumMinor order sel else 0) (currency (co_total order)),
        ctx_refundDestination = ORIGINAL_PAYMENT_METHOD \<rparr>)"

text \<open>\<^verbatim>\<open>JSON.stringify\<close> of the facts: the keys in the order of the object literal.\<close>

function stringify :: "json \<Rightarrow> string" where
  "stringify JNull = ''null''"
| "stringify (JBool b) = (if b then ''true'' else ''false'')"
| "stringify (JStr s) = json_quote s"
| "stringify (JNum n) = show_int n"
| "stringify (JArr vs) = CHR ''['' # join (map stringify vs) @ '']''"
| "stringify (JObj kvs) = CHR ''{'' # join (map (\<lambda>kv. json_quote (fst kv) @ CHR '':'' # stringify (snd kv)) kvs) @ ''}''"
| "stringify JUndefined = ''null''"
  by pat_completeness auto
termination stringify
  by (relation "measure size") (simp_all only: in_measure size_json_elem size_json_pair wf_measure)

definition selection_json :: "Selection \<Rightarrow> json" where
  "selection_json sel = JObj [(''scope'', JStr (scope_string (sel_scope sel))), (''itemIds'', JArr (map JStr (sel_itemIds sel)))]"

definition payment_json :: "CommercePayment option \<Rightarrow> json" where
  "payment_json payment =
     (case payment of None \<Rightarrow> JNull | Some p \<Rightarrow>
        JObj [(''paymentId'', JStr (py_id p)), (''status'', JStr (py_status p)), (''amount'', money_json (py_amount p)),
          (''refunds'', JArr (map (\<lambda>r. JObj [(''refundId'', JStr (cr_id r)), (''status'', JStr (cr_status r)),
             (''amount'', money_json (cr_amount r)), (''lineIds'', JArr (map JStr (cr_lineIds r)))]) (py_refunds p)))])"

definition context_facts_json :: "ContextFacts \<Rightarrow> json" where
  "context_facts_json f = JObj [(''customerVerified'', JBool (ctx_customerVerified f)),
     (''transactionRefundable'', JBool (ctx_transactionRefundable f)), (''itemSelectionValid'', JBool (ctx_itemSelectionValid f)),
     (''priorRefundCount'', JNum (ctx_priorRefundCount f)), (''refundableAmount'', money_json (ctx_refundableAmount f)),
     (''refundDestination'', JStr (destination_string (ctx_refundDestination f)))]"

definition toRefundContext :: "(string \<Rightarrow> string) \<Rightarrow> CommerceOrder \<Rightarrow> Selection \<Rightarrow> string \<Rightarrow> string \<Rightarrow> RefundContext" where
  "toRefundContext sha256_hex order sel newObservationId at =
     (let facts = context_facts order sel;
          digest = sha256_hex (stringify (JObj [
            (''source'', JObj [(''provider'', JStr (co_provider order)), (''orderId'', JStr (co_orderId order))]),
            (''selection'', selection_json sel), (''payment'', payment_json (settled_payment order)),
            (''facts'', context_facts_json facts)]))
      in \<lparr> observationId = newObservationId, ctx_observedAt = at,
           ctx_source = \<lparr> provider = co_provider order, src_orderId = co_orderId order, factsVersion = ''sha256:'' @ digest \<rparr>,
           selection = sel, ctx_facts = facts \<rparr>)"

text \<open>\<^verbatim>\<open>getRefundContext\<close>: \<^verbatim>\<open>null\<close> unless the order belongs to the subject of the access context.\<close>

definition getRefundContext ::
  "(string \<Rightarrow> string) \<Rightarrow> CommerceOrder option result \<Rightarrow> Selection \<Rightarrow> string \<Rightarrow> string \<Rightarrow> string \<Rightarrow> RefundContext option result" where
  "getRefundContext sha256_hex lookup sel subjectCustomer newObservationId at =
     bindE lookup (\<lambda>order. Inr (case order of
        None \<Rightarrow> None
      | Some ord \<Rightarrow> (case co_customer ord of
          None \<Rightarrow> None
        | Some c \<Rightarrow> if cu_id c \<noteq> subjectCustomer then None
                     else Some (toRefundContext sha256_hex ord sel newObservationId at))))"

section \<open>The facts are bounded by the settled payment\<close>

lemma foldl_sum_map: "foldl (\<lambda>acc x. acc + f x) (a :: int) xs = a + sum_list (map f xs)"
  by (induction xs arbitrary: a) auto

lemma settled_payment_eq_Some:
  "settled_payment order = Some payment
   \<longleftrightarrow> filter (\<lambda>p. toUpperCase (py_status p) = ''SETTLED'') (co_payments order) = [payment]"
  by (auto simp: settled_payment_def split: list.splits)

lemma consumedAmountMinor_Some:
  "consumedAmountMinor (Some p) = sum_list (map (\<lambda>r. amountMinor (cr_amount r)) (filter (\<lambda>r. refundConsumesBalance (cr_status r)) (py_refunds p)))"
  by (simp add: consumedAmountMinor_def priorRefunds_def foldl_sum_map)

lemma selectedItemTotalMinor_sum:
  "selectedItemTotalMinor order ids
   = sum_list (map (\<lambda>i. case List.find (\<lambda>item. it_id item = i) (co_items order) of None \<Rightarrow> 0 | Some x \<Rightarrow> amountMinor (it_lineTotal x)) ids)"
  by (simp add: selectedItemTotalMinor_def selectedItems_def foldl_sum_map o_def)

text \<open>The facts a refund decision rests on: what a positive refundable amount says of the order.\<close>

lemma context_facts_positive:
  assumes "0 < amountMinor (ctx_refundableAmount (context_facts order sel))"
  obtains payment where
    "filter (\<lambda>p. toUpperCase (py_status p) = ''SETTLED'') (co_payments order) = [payment]"
    "amountMinor (ctx_refundableAmount (context_facts order sel)) + consumedAmountMinor (Some payment) \<le> amountMinor (py_amount payment)"
    "sel_scope sel = FULL_ORDER \<or> amountMinor (ctx_refundableAmount (context_facts order sel)) \<le> selectedItemTotalMinor order (sel_itemIds sel)"
proof (cases "settled_payment order")
  case None
  with assms show ?thesis
    by (simp add: context_facts_def Let_def selectedMaximumMinor_def remainingPaymentAmountMinor_def split: if_split_asm)
next
  case (Some payment)
  with assms show ?thesis
    by (intro that [of payment], simp only: settled_payment_eq_Some)
      (auto simp: context_facts_def Let_def selectedMaximumMinor_def remainingPaymentAmountMinor_def
        split: if_split_asm)
qed

lemma getRefundContext_Some:
  assumes "getRefundContext sha lookup sel subjectCustomer oid at = Inr (Some ctx)"
  obtains ord c where "lookup = Inr (Some ord)" "co_customer ord = Some c" "cu_id c = subjectCustomer"
    "ctx_facts ctx = context_facts ord sel" "selection ctx = sel" "src_orderId (ctx_source ctx) = co_orderId ord"
proof -
  from assms obtain ord c where a: "lookup = Inr (Some ord)" "co_customer ord = Some c" "cu_id c = subjectCustomer"
      "ctx = toRefundContext sha ord sel oid at"
    by (auto simp: getRefundContext_def result_simps split: option.split_asm if_split_asm)
  then show ?thesis by (intro that [of ord c]) (simp_all add: toRefundContext_def Let_def)
qed

text \<open>
  C34. No offer exceeds what is left of the customer's payment. Let the facts be what the gateway
  observed for a verified customer, let the policy decide on them, and let an offer be made, by
  whichever authority. Then the order belongs to that customer and is no longer active, it has
  exactly one settled payment, and the offered amount together with all refunds of that payment
  that were not failed or cancelled stays within the payment; for a selection of items the offer
  stays within the line totals of the selected items.
\<close>

theorem offer_within_settled_payment:
  assumes "getRefundContext sha lookup sel subjectCustomer oid at = Inr (Some ctx)"
    and "createRefundPolicyInput proposal ctx version ev = Inr input"
    and "evaluateRefundPolicy sha' input release context = Inr d"
    and "createRefundPreview proposal ctx' d auth pid at' = Inr p"
  shows "\<exists>ord c payment. lookup = Inr (Some ord) \<and> co_customer ord = Some c \<and> cu_id c = subjectCustomer
    \<and> \<not> co_active ord \<and> pre_orderId p = co_orderId ord
    \<and> filter (\<lambda>q. toUpperCase (py_status q) = ''SETTLED'') (co_payments ord) = [payment]
    \<and> 0 < amountMinor (pre_requestedAmount p)
    \<and> amountMinor (pre_requestedAmount p)
        + sum_list (map (\<lambda>r. amountMinor (cr_amount r)) (filter (\<lambda>r. refundConsumesBalance (cr_status r)) (py_refunds payment)))
      \<le> amountMinor (py_amount payment)
    \<and> (sel_scope sel \<noteq> FULL_ORDER \<longrightarrow> amountMinor (pre_requestedAmount p) \<le> selectedItemTotalMinor ord (sel_itemIds sel))
    \<and> currency (pre_requestedAmount p) = currency (co_total ord)"
proof -
  obtain ord c where o: "lookup = Inr (Some ord)" "co_customer ord = Some c" "cu_id c = subjectCustomer"
      "ctx_facts ctx = context_facts ord sel" "src_orderId (ctx_source ctx) = co_orderId ord"
    using getRefundContext_Some [OF assms(1)] by metis
  note q = createRefundPreview_Inr [OF assms(4)] and i = createRefundPolicyInput_Inr [OF assms(2)]
  have e: "eligible input release" using evaluate_eligible(1) [OF assms(3)] q(2) by auto
  then have b: "0 < amountMinor (pre_requestedAmount p)"
      "amountMinor (pre_requestedAmount p) \<le> amountMinor (ctx_refundableAmount (context_facts ord sel))"
      "currency (pre_requestedAmount p) = currency (co_total ord)" "\<not> co_active ord" "pre_orderId p = co_orderId ord"
    using i q o by (auto simp: eligible_def Let_def context_facts_def)
  then have "0 < amountMinor (ctx_refundableAmount (context_facts ord sel))" by linarith
  then obtain payment where "filter (\<lambda>q. toUpperCase (py_status q) = ''SETTLED'') (co_payments ord) = [payment]"
      "amountMinor (ctx_refundableAmount (context_facts ord sel)) + consumedAmountMinor (Some payment) \<le> amountMinor (py_amount payment)"
      "sel_scope sel = FULL_ORDER \<or> amountMinor (ctx_refundableAmount (context_facts ord sel)) \<le> selectedItemTotalMinor ord (sel_itemIds sel)"
    by (rule context_facts_positive)
  with b o show ?thesis by (intro exI [of _ ord] exI [of _ c] exI [of _ payment]) (auto simp: consumedAmountMinor_Some)
qed

section \<open>Selections\<close>

lemma find_distinct_item:
  assumes "distinct (map it_id items)" and "item \<in> set items"
  shows "List.find (\<lambda>x. it_id x = it_id item) items = Some item"
  using assms by (induction items) auto

lemma selection_total_distinct:
  assumes "distinct (map it_id (co_items order))" and "distinct ids" and "set ids \<subseteq> it_id ` set (co_items order)"
  shows "selectedItemTotalMinor order ids
    = (\<Sum>item \<leftarrow> filter (\<lambda>item. it_id item \<in> set ids) (co_items order). amountMinor (it_lineTotal item))"
proof -
  define price where "price i = (case List.find (\<lambda>item. it_id item = i) (co_items order) of None \<Rightarrow> 0 | Some x \<Rightarrow> amountMinor (it_lineTotal x))" for i
  let ?sel = "filter (\<lambda>item. it_id item \<in> set ids) (co_items order)"
  have p: "price (it_id item) = amountMinor (it_lineTotal item)" if "item \<in> set (co_items order)" for item
    using find_distinct_item [OF assms(1) that] by (simp add: price_def)
  have "distinct (map it_id ?sel)" using assms(1) by (rule distinct_map_filter)
  moreover have "set (map it_id ?sel) = set ids" using assms(3) by auto
  ultimately have "(\<Sum>i \<leftarrow> ids. price i) = (\<Sum>i \<leftarrow> map it_id ?sel. price i)"
    using assms(2) by (simp only: sum_list_distinct_conv_sum_set)
  also have "\<dots> = (\<Sum>item \<leftarrow> ?sel. amountMinor (it_lineTotal item))"
    using p by (simp add: o_def) (rule arg_cong [where f = sum_list], simp)
  finally show ?thesis by (simp only: selectedItemTotalMinor_sum price_def)
qed

text \<open>
  The value of a selection. When the item ids of the order and those of the selection are
  distinct, the refundable amount of a valid selection is the sum of the line totals of exactly
  the selected lines, capped by the balance. Nothing makes the ids of a selection distinct: the
  same line named \<^verbatim>\<open>n\<close> times counts \<^verbatim>\<open>n\<close> times, up to the balance of the payment.
\<close>

theorem selection_value:
  assumes "sel_scope sel = SELECTED_ITEMS" and "distinct (map it_id (co_items order))"
    and "list_all (\<lambda>i. \<exists>item \<in> set (co_items order). it_id item = i) (sel_itemIds sel)"
    and "\<not> selectedItemWasRefunded (settled_payment order) (sel_itemIds sel)"
  shows "ctx_itemSelectionValid (context_facts order sel)
    \<and> (distinct (sel_itemIds sel) \<longrightarrow> amountMinor (ctx_refundableAmount (context_facts order sel))
        = min (\<Sum>item \<leftarrow> filter (\<lambda>item. it_id item \<in> set (sel_itemIds sel)) (co_items order). amountMinor (it_lineTotal item))
            (remainingPaymentAmountMinor (settled_payment order)))
    \<and> (\<forall>item n. item \<in> set (co_items order) \<longrightarrow> sel_itemIds sel = replicate n (it_id item)
        \<longrightarrow> amountMinor (ctx_refundableAmount (context_facts order sel))
          = min (int n * amountMinor (it_lineTotal item)) (remainingPaymentAmountMinor (settled_payment order)))"
proof -
  have found: "\<exists>x. List.find (\<lambda>item. it_id item = i) (co_items order) = Some x" if "i \<in> set (sel_itemIds sel)" for i
    using assms(3) that find_distinct_item [OF assms(2)] by (force simp: list_all_iff)
  then have valid: "context_itemSelectionValid order sel"
    using assms(4) by (auto simp: context_itemSelectionValid_def selectedItems_def list_all_iff)
  then have amount: "amountMinor (ctx_refundableAmount (context_facts order sel))
      = min (selectedItemTotalMinor order (sel_itemIds sel)) (remainingPaymentAmountMinor (settled_payment order))"
    using assms(1) by (simp add: context_facts_def Let_def selectedMaximumMinor_def)
  have "selectedItemTotalMinor order (replicate n (it_id item)) = int n * amountMinor (it_lineTotal item)"
    if "item \<in> set (co_items order)" for n item
    using find_distinct_item [OF assms(2) that] by (simp add: selectedItemTotalMinor_sum sum_list_replicate)
  moreover have "set (sel_itemIds sel) \<subseteq> it_id ` set (co_items order)" using assms(3) by (auto simp: list_all_iff)
  ultimately show ?thesis
    using valid amount selection_total_distinct [OF assms(2), of "sel_itemIds sel"]
    by (auto simp: context_facts_def Let_def)
qed

section \<open>A concrete order\<close>

definition sample_vendure_order :: VendureOrder where
  "sample_vendure_order =
     \<lparr> vo_id = ''o1'', vo_code = ''R1'', vo_state = ''Delivered'', vo_active = False, vo_currencyCode = ''USD'',
       vo_orderPlacedAt = None, vo_totalWithTax = 2000,
       vo_customer = Some \<lparr> vc_id = ''c1'', vc_firstName = ''Ada'', vc_lastName = [], vc_emailAddress = ''a@b.c'' \<rparr>,
       vo_lines = [\<lparr> vl_id = ''l1'', vl_quantity = 1, vl_unitPriceWithTax = 600, vl_linePriceWithTax = 600,
                     vl_variantSku = ''s1'', vl_variantName = ''n1'' \<rparr>,
                   \<lparr> vl_id = ''l2'', vl_quantity = 2, vl_unitPriceWithTax = 700, vl_linePriceWithTax = 1400,
                     vl_variantSku = ''s2'', vl_variantName = ''n2'' \<rparr>],
       vo_payments = Some [\<lparr> vp_id = ''pay1'', vp_state = ''Settled'', vp_amount = 2000, vp_method = ''card'', vp_transactionId = None,
         vp_refunds = Some [\<lparr> vr_id = ''r1'', vr_state = ''Failed'', vr_total = 300, vr_orderLineIds = [''l1''] \<rparr>] \<rparr>],
       vo_fulfillments = None \<rparr>"

definition sample_order :: CommerceOrder where
  "sample_order = toCommerceOrder sample_vendure_order"

lemma upper_samples: "toUpperCase ''Settled'' = ''SETTLED''" "toUpperCase ''Failed'' = ''FAILED''"
  by code_simp+

lemma sample_order_parts:
  "co_active sample_order = False" "co_orderId sample_order = ''o1''" "co_provider sample_order = ''vendure''"
  "co_customer sample_order = Some \<lparr> cu_id = ''c1'', cu_name = trim ''Ada '', cu_email = ''a@b.c'' \<rparr>"
  "co_total sample_order = money 2000 ''USD''"
  "map it_id (co_items sample_order) = [''l1'', ''l2'']"
  by (simp_all add: sample_order_def sample_vendure_order_def toCommerceOrder_def Let_def or_empty_def)

lemma sample_payment:
  "settled_payment sample_order = Some (hd (co_payments sample_order))"
  "priorRefunds (Some (hd (co_payments sample_order))) = []"
  "amountMinor (py_amount (hd (co_payments sample_order))) = 2000"
  "\<not> selectedItemWasRefunded (Some (hd (co_payments sample_order))) ids"
  by (simp_all add: sample_order_def sample_vendure_order_def toCommerceOrder_def Let_def or_empty_def settled_payment_def
      priorRefunds_def upper_samples refundConsumesBalance_def selectedItemWasRefunded_def)

lemma sample_remaining: "remainingPaymentAmountMinor (settled_payment sample_order) = 2000"
  by (simp add: sample_payment remainingPaymentAmountMinor_def consumedAmountMinor_def)

lemma sample_lookup: "getOrderById (Payload (Some (Some sample_vendure_order)) False) = Inr (Some sample_order)"
  by (simp add: getOrderById_def vendureOrderLookup_def sample_order_def)

lemma sample_gateway_context:
  "getRefundContext (\<lambda>_. ''v1'') (Inr (Some sample_order)) \<lparr> sel_scope = FULL_ORDER, sel_itemIds = [] \<rparr>
     ''c1'' ''obs1'' ''2026-01-01T00:00:00.000Z'' = Inr (Some sample_refund_context)"
  using sample_remaining
  by (simp add: getRefundContext_def sample_order_parts toRefundContext_def Let_def context_facts_def
      context_itemSelectionValid_def selectedMaximumMinor_def sample_payment sample_refund_context_def usd_def money_def)

theorem offer_within_settled_payment_witness:
  "\<exists>d p ord. evaluateRefundPolicy sample_sha sample_v2_input REFUND_POLICY_V2 sample_context = Inr d
    \<and> createRefundPreview sample_proposal sample_refund_context d None ''pv1'' ''now'' = Inr p
    \<and> getOrderById (Payload (Some (Some sample_vendure_order)) False) = Inr (Some ord)
    \<and> pre_orderId p = co_orderId ord \<and> 0 < amountMinor (pre_requestedAmount p)"
proof -
  obtain d where d: "evaluateRefundPolicy sample_sha sample_v2_input REFUND_POLICY_V2 sample_context = Inr d"
    using sample_v2_decides by blast
  obtain p where p: "createRefundPreview sample_proposal sample_refund_context d None ''pv1'' ''now'' = Inr p"
    using sample_v2_allowed [OF d] by (simp add: createRefundPreview_def Let_def sample_proposal_def sample_refund_context_def)
  from offer_within_settled_payment [OF sample_gateway_context sample_v2_input_created d p] d p sample_lookup show ?thesis by force
qed

theorem selection_value_witness:
  "amountMinor (ctx_refundableAmount (context_facts sample_order \<lparr> sel_scope = SELECTED_ITEMS, sel_itemIds = [''l1'', ''l1'', ''l1''] \<rparr>)) = 1800"
proof -
  let ?sel = "\<lparr> sel_scope = SELECTED_ITEMS, sel_itemIds = [''l1'', ''l1'', ''l1''] \<rparr>"
  have i: "hd (co_items sample_order) \<in> set (co_items sample_order)" "it_id (hd (co_items sample_order)) = ''l1''"
    "amountMinor (it_lineTotal (hd (co_items sample_order))) = 600"
    by (simp_all add: sample_order_def sample_vendure_order_def toCommerceOrder_def Let_def)
  have r: "sel_itemIds ?sel = replicate 3 (it_id (hd (co_items sample_order)))" by (simp add: i(2) numeral_3_eq_3)
  have "distinct (map it_id (co_items sample_order))"
    "list_all (\<lambda>i. \<exists>item \<in> set (co_items sample_order). it_id item = i) (sel_itemIds ?sel)"
    "\<not> selectedItemWasRefunded (settled_payment sample_order) (sel_itemIds ?sel)"
    using i by (auto simp: sample_order_parts sample_payment)
  then have "amountMinor (ctx_refundableAmount (context_facts sample_order ?sel))
      = min (int 3 * amountMinor (it_lineTotal (hd (co_items sample_order)))) (remainingPaymentAmountMinor (settled_payment sample_order))"
    using selection_value [of ?sel sample_order, OF Selection.select_convs(1)] i(1) r by blast
  then show ?thesis by (simp only: i(3) sample_remaining)
qed

end
