(* ===== verification/Refund_Executions.thy ===== *)
theory Refund_Executions
  imports Commerce Workflow_Data
begin

text \<open>
  The refund executions of the integration gateway:
  \<^verbatim>\<open>src/apps/services/integration-gateway/src/refund-execution-repository.ts\<close>, its interface, the
  Postgres repository and the in-memory one. A transaction is one function on the tables; an
  exception rolls back, so a thrown error leaves the tables as they were. \<^verbatim>\<open>randomUUID()\<close>, the
  database clock and the reading of a timestamp by the database (\<^verbatim>\<open>timestamptz\<close>) are arguments. The
  constraints of the migrations (primary keys, the unique idempotency key, the positive amount)
  are branches that throw. The time stamps of the in-memory repository only feed its metrics and
  are left out. The locale \<^verbatim>\<open>refund_execution_repository\<close> states what the routes rely on and is
  interpreted for both repositories.
\<close>

section \<open>The interface\<close>

datatype RefundExecutionStatus = IN_PROGRESS | Outcome ExecutionStatus

record RefundExecution =
  executionId :: string
  execution_status :: RefundExecutionStatus
  execution_providerRefundId :: "string option"

record ReserveRefundExecutionInput =
  ri_tenantId :: string
  ri_environmentId :: string
  ri_idempotencyKey :: string
  ri_workflowId :: string
  ri_previewId :: string
  ri_orderId :: string
  ri_amountMinor :: int
  ri_currency :: string
  ri_occurredAt :: string

datatype Reservation = Reserved string | Existing RefundExecution

record PendingProviderRefundEvent =
  pp_workflowId :: string
  pp_outcome :: RefundProviderOutcome

datatype EventResult = ACCEPTED_EVENT | DUPLICATE_EVENT | UNKNOWN_REFUND

record RefundOperationsSnapshot =
  executionCounts :: "RefundExecutionStatus \<Rightarrow> nat"
  oldestExecutionAgeMs :: "RefundExecutionStatus \<Rightarrow> int option"
  pendingProviderEventCount :: nat
  oldestPendingProviderEventAgeMs :: int

text \<open>The interface as a record of functions; the time and the random id come from the caller's run.\<close>

record 's RefundExecutionRepository =
  repo_reserve :: "'s \<Rightarrow> int \<Rightarrow> string \<Rightarrow> ReserveRefundExecutionInput \<Rightarrow> ('s \<times> Reservation) result"
  repo_recordOutcome :: "'s \<Rightarrow> int \<Rightarrow> string \<Rightarrow> ExecutionStatus \<Rightarrow> string option \<Rightarrow> ('s \<times> RefundExecution) result"
  repo_findSucceeded :: "'s \<Rightarrow> string \<Rightarrow> string \<Rightarrow> string \<Rightarrow> int \<Rightarrow> string \<Rightarrow> RefundExecution option"
  repo_findByWorkflowAndPreview :: "'s \<Rightarrow> string \<Rightarrow> string \<Rightarrow> string \<Rightarrow> string \<Rightarrow> RefundExecution option"
  repo_recordProviderRefundEvent :: "'s \<Rightarrow> int \<Rightarrow> RefundProviderOutcome \<Rightarrow> ('s \<times> EventResult) result"
  repo_listPendingProviderRefundEvents :: "'s \<Rightarrow> nat \<Rightarrow> PendingProviderRefundEvent list"
  repo_markProviderRefundEventDelivered :: "'s \<Rightarrow> int \<Rightarrow> string \<Rightarrow> 's"

definition terminal_status :: "ProviderOutcomeKind \<Rightarrow> RefundExecutionStatus" where
  "terminal_status outcome = Outcome (case outcome of COMPLETED \<Rightarrow> SUCCEEDED | PROVIDER_FAILED \<Rightarrow> FAILED)"

definition is_terminal :: "RefundExecutionStatus \<Rightarrow> bool" where
  "is_terminal st \<longleftrightarrow> st = Outcome SUCCEEDED \<or> st = Outcome FAILED"

definition status_string :: "RefundExecutionStatus \<Rightarrow> string" where
  "status_string st = (case st of IN_PROGRESS \<Rightarrow> ''in_progress'' | Outcome SUBMITTED \<Rightarrow> ''submitted''
     | Outcome SUCCEEDED \<Rightarrow> ''succeeded'' | Outcome FAILED \<Rightarrow> ''failed'' | Outcome PENDING_RECONCILIATION \<Rightarrow> ''pending_reconciliation'')"

section \<open>The Postgres repository\<close>

record ExecutionRow =
  xr_executionId :: string
  xr_tenantId :: string
  xr_environmentId :: string
  xr_idempotencyKey :: string
  xr_workflowId :: string
  xr_previewId :: string
  xr_orderId :: string
  xr_amountMinor :: int
  xr_currency :: string
  xr_status :: RefundExecutionStatus
  xr_providerRefundId :: "string option"
  xr_createdAt :: int
  xr_updatedAt :: int
  xr_statusEnteredAt :: int

record ProviderEventRow =
  pv_eventId :: string
  pv_executionId :: string
  pv_providerRefundId :: string
  pv_outcome :: ProviderOutcomeKind
  pv_occurredAt :: int
  pv_delivered :: bool
  pv_deliveredAt :: "int option"

record AuditRow =
  au_executionId :: string
  au_eventType :: string
  au_details :: json
  au_occurredAt :: int

record RefundDb =
  db_executions :: "ExecutionRow list"
  db_provider_events :: "ProviderEventRow list"
  db_audit_events :: "AuditRow list"

definition toExecution :: "ExecutionRow \<Rightarrow> RefundExecution" where
  "toExecution row = \<lparr> executionId = xr_executionId row, execution_status = xr_status row,
     execution_providerRefundId = xr_providerRefundId row \<rparr>"

definition row_key :: "ExecutionRow \<Rightarrow> string \<times> string \<times> string" where
  "row_key row = (xr_tenantId row, xr_environmentId row, xr_idempotencyKey row)"

definition input_key :: "ReserveRefundExecutionInput \<Rightarrow> string \<times> string \<times> string" where
  "input_key i = (ri_tenantId i, ri_environmentId i, ri_idempotencyKey i)"

definition insertAudit :: "int \<Rightarrow> string \<Rightarrow> string \<Rightarrow> json \<Rightarrow> RefundDb \<Rightarrow> RefundDb" where
  "insertAudit now eid eventType details db = db\<lparr> db_audit_events := db_audit_events db @
     [\<lparr> au_executionId = eid, au_eventType = eventType, au_details = details, au_occurredAt = now \<rparr>] \<rparr>"

definition new_row :: "string \<Rightarrow> int \<Rightarrow> ReserveRefundExecutionInput \<Rightarrow> ExecutionRow" where
  "new_row eid at i = \<lparr> xr_executionId = eid, xr_tenantId = ri_tenantId i, xr_environmentId = ri_environmentId i,
     xr_idempotencyKey = ri_idempotencyKey i, xr_workflowId = ri_workflowId i, xr_previewId = ri_previewId i,
     xr_orderId = ri_orderId i, xr_amountMinor = ri_amountMinor i, xr_currency = ri_currency i, xr_status = IN_PROGRESS,
     xr_providerRefundId = None, xr_createdAt = at, xr_updatedAt = at, xr_statusEnteredAt = at \<rparr>"

definition pg_reserve ::
  "(string \<Rightarrow> int option) \<Rightarrow> RefundDb \<Rightarrow> int \<Rightarrow> string \<Rightarrow> ReserveRefundExecutionInput \<Rightarrow> (RefundDb \<times> Reservation) result" where
  "pg_reserve timestamptz db now eid i =
     (case timestamptz (ri_occurredAt i) of
        None \<Rightarrow> Inl (Error ''invalid input syntax for type timestamp with time zone'')
      | Some at \<Rightarrow>
          if ri_amountMinor i \<le> 0 then Inl (Error ''executions_amount_minor_check'')
          else (case filter (\<lambda>row. row_key row = input_key i) (db_executions db) of
             [] \<Rightarrow>
               if eid \<in> xr_executionId ` set (db_executions db) then Inl (Error ''executions_pkey'')
               else Inr (insertAudit now eid ''refund_execution_requested'' (JObj [(''workflowId'', JStr (ri_workflowId i)),
                      (''previewId'', JStr (ri_previewId i)), (''amountMinor'', JNum (ri_amountMinor i)), (''currency'', JStr (ri_currency i))])
                      (db\<lparr> db_executions := db_executions db @ [new_row eid at i] \<rparr>), Reserved eid)
           | [row] \<Rightarrow> Inr (db, Existing (toExecution row))
           | _ \<Rightarrow> Inl (Error ''REFUND_EXECUTION_RESERVATION_FAILED'')))"

text \<open>\<^verbatim>\<open>status_entered_at = CASE WHEN status IS DISTINCT FROM $2 THEN now() ELSE status_entered_at END\<close>\<close>

definition set_status :: "int \<Rightarrow> RefundExecutionStatus \<Rightarrow> string option \<Rightarrow> ExecutionRow \<Rightarrow> ExecutionRow" where
  "set_status now st pid row = row\<lparr> xr_status := st,
     xr_providerRefundId := (case pid of None \<Rightarrow> xr_providerRefundId row | Some p \<Rightarrow> Some p), xr_updatedAt := now,
     xr_statusEnteredAt := (if xr_status row \<noteq> st then now else xr_statusEnteredAt row) \<rparr>"

definition update_row :: "string \<Rightarrow> (ExecutionRow \<Rightarrow> ExecutionRow) \<Rightarrow> RefundDb \<Rightarrow> RefundDb" where
  "update_row eid f db = db\<lparr> db_executions := map (\<lambda>row. if xr_executionId row = eid then f row else row) (db_executions db) \<rparr>"

definition pg_recordOutcome ::
  "RefundDb \<Rightarrow> int \<Rightarrow> string \<Rightarrow> ExecutionStatus \<Rightarrow> string option \<Rightarrow> (RefundDb \<times> RefundExecution) result" where
  "pg_recordOutcome db now eid st pid =
     (case filter (\<lambda>row. xr_executionId row = eid) (db_executions db) of
        [row] \<Rightarrow> Inr (insertAudit now eid (''refund_execution_'' @ status_string (Outcome st))
                  (JObj (case pid of None \<Rightarrow> [] | Some p \<Rightarrow> [(''providerRefundId'', JStr p)]))
                  (update_row eid (set_status now (Outcome st) pid) db),
                toExecution (set_status now (Outcome st) pid row))
      | _ \<Rightarrow> Inl (Error ''REFUND_EXECUTION_NOT_FOUND''))"

text \<open>\<^verbatim>\<open>ORDER BY updated_at DESC LIMIT 1\<close>; among equal times the first row is taken.\<close>

definition latest :: "ExecutionRow list \<Rightarrow> RefundExecution option" where
  "latest rows = (case sort_key (\<lambda>row. - xr_updatedAt row) rows of [] \<Rightarrow> None | row # _ \<Rightarrow> Some (toExecution row))"

definition pg_findSucceeded :: "RefundDb \<Rightarrow> string \<Rightarrow> string \<Rightarrow> string \<Rightarrow> int \<Rightarrow> string \<Rightarrow> RefundExecution option" where
  "pg_findSucceeded db tenant environment order amount cur =
     latest (filter (\<lambda>row. xr_tenantId row = tenant \<and> xr_environmentId row = environment \<and> xr_orderId row = order
       \<and> xr_amountMinor row = amount \<and> xr_currency row = cur \<and> xr_status row = Outcome SUCCEEDED) (db_executions db))"

definition pg_findByWorkflowAndPreview :: "RefundDb \<Rightarrow> string \<Rightarrow> string \<Rightarrow> string \<Rightarrow> string \<Rightarrow> RefundExecution option" where
  "pg_findByWorkflowAndPreview db tenant environment workflow preview =
     latest (filter (\<lambda>row. xr_tenantId row = tenant \<and> xr_environmentId row = environment \<and> xr_workflowId row = workflow
       \<and> xr_previewId row = preview) (db_executions db))"

definition outcome_string :: "ProviderOutcomeKind \<Rightarrow> string" where
  "outcome_string outcome = (case outcome of COMPLETED \<Rightarrow> ''completed'' | PROVIDER_FAILED \<Rightarrow> ''failed'')"

definition pg_recordProviderRefundEvent ::
  "(string \<Rightarrow> int option) \<Rightarrow> RefundDb \<Rightarrow> int \<Rightarrow> RefundProviderOutcome \<Rightarrow> (RefundDb \<times> EventResult) result" where
  "pg_recordProviderRefundEvent timestamptz db now ev =
     (if po_eventId ev \<in> pv_eventId ` set (db_provider_events db) then Inr (db, DUPLICATE_EVENT)
      else (case filter (\<lambda>row. xr_providerRefundId row = Some (po_providerRefundId ev)) (db_executions db) of
         [row] \<Rightarrow> (case timestamptz (po_occurredAt ev) of
             None \<Rightarrow> Inl (Error ''invalid input syntax for type timestamp with time zone'')
           | Some at \<Rightarrow>
               let terminal = is_terminal (xr_status row);
                   db1 = (if terminal then db else
                     insertAudit now (xr_executionId row) (''refund_provider_'' @ outcome_string (po_outcome ev))
                       (JObj [(''providerRefundId'', JStr (po_providerRefundId ev)), (''eventId'', JStr (po_eventId ev))])
                       (update_row (xr_executionId row) (set_status now (terminal_status (po_outcome ev)) None) db))
               in Inr (db1\<lparr> db_provider_events := db_provider_events db1 @
                   [\<lparr> pv_eventId = po_eventId ev, pv_executionId = xr_executionId row, pv_providerRefundId = po_providerRefundId ev,
                      pv_outcome = po_outcome ev, pv_occurredAt = at, pv_delivered = terminal,
                      pv_deliveredAt = (if terminal then Some at else None) \<rparr>] \<rparr>, ACCEPTED_EVENT))
       | _ \<Rightarrow> Inr (db, UNKNOWN_REFUND)))"

definition pg_listPendingProviderRefundEvents :: "RefundDb \<Rightarrow> nat \<Rightarrow> PendingProviderRefundEvent list" where
  "pg_listPendingProviderRefundEvents db limit =
     take limit (concat (map (\<lambda>e.
       map (\<lambda>row. \<lparr> pp_workflowId = xr_workflowId row, pp_outcome = \<lparr> po_eventId = pv_eventId e,
              po_providerRefundId = pv_providerRefundId e, po_outcome = pv_outcome e, po_occurredAt = iso_string (pv_occurredAt e) \<rparr> \<rparr>)
         (filter (\<lambda>row. xr_executionId row = pv_executionId e) (db_executions db)))
       (sort_key pv_occurredAt (filter (\<lambda>e. \<not> pv_delivered e) (db_provider_events db)))))"

definition pg_markProviderRefundEventDelivered :: "RefundDb \<Rightarrow> int \<Rightarrow> string \<Rightarrow> RefundDb" where
  "pg_markProviderRefundEventDelivered db now eventId =
     db\<lparr> db_provider_events := map (\<lambda>e. if pv_eventId e = eventId then e\<lparr> pv_delivered := True, pv_deliveredAt := Some now \<rparr> else e)
       (db_provider_events db) \<rparr>"

definition active_status :: "RefundExecutionStatus \<Rightarrow> bool" where
  "active_status st \<longleftrightarrow> st \<in> {IN_PROGRESS, Outcome SUBMITTED, Outcome PENDING_RECONCILIATION}"

definition oldest_age :: "int \<Rightarrow> int list \<Rightarrow> int" where
  "oldest_age now instants = (case instants of [] \<Rightarrow> 0 | t # ts \<Rightarrow> max 0 (now - fold min ts t))"

definition pg_getRefundOperationsSnapshot :: "RefundDb \<Rightarrow> int \<Rightarrow> RefundOperationsSnapshot" where
  "pg_getRefundOperationsSnapshot db now =
     (let rows = (\<lambda>st. filter (\<lambda>row. xr_status row = st) (db_executions db));
          pending = filter (\<lambda>e. \<not> pv_delivered e) (db_provider_events db)
      in \<lparr> executionCounts = (\<lambda>st. length (rows st)),
           oldestExecutionAgeMs = (\<lambda>st. if active_status st \<and> rows st \<noteq> [] then Some (oldest_age now (map xr_statusEnteredAt (rows st))) else None),
           pendingProviderEventCount = length pending,
           oldestPendingProviderEventAgeMs = oldest_age now (map pv_occurredAt pending) \<rparr>)"

definition postgresRepository :: "(string \<Rightarrow> int option) \<Rightarrow> RefundDb RefundExecutionRepository" where
  "postgresRepository timestamptz =
     \<lparr> repo_reserve = pg_reserve timestamptz, repo_recordOutcome = pg_recordOutcome, repo_findSucceeded = pg_findSucceeded,
       repo_findByWorkflowAndPreview = pg_findByWorkflowAndPreview,
       repo_recordProviderRefundEvent = pg_recordProviderRefundEvent timestamptz,
       repo_listPendingProviderRefundEvents = pg_listPendingProviderRefundEvents,
       repo_markProviderRefundEventDelivered = pg_markProviderRefundEventDelivered \<rparr>"

section \<open>The in-memory repository\<close>

record MemExecution =
  mx_execution :: RefundExecution
  mx_workflowId :: string
  mx_previewId :: string
  mx_tenantId :: string
  mx_environmentId :: string
  mx_orderId :: string
  mx_amountMinor :: int
  mx_currency :: string

text \<open>The two \<^verbatim>\<open>Map\<close>s, in insertion order.\<close>

record MemStore =
  mem_executions :: "(string \<times> MemExecution) list"
  mem_providerEvents :: "(string \<times> PendingProviderRefundEvent) list"

definition mem_key :: "ReserveRefundExecutionInput \<Rightarrow> string" where
  "mem_key i = ri_tenantId i @ '':'' @ ri_environmentId i @ '':'' @ ri_idempotencyKey i"

definition mem_reserve :: "MemStore \<Rightarrow> int \<Rightarrow> string \<Rightarrow> ReserveRefundExecutionInput \<Rightarrow> (MemStore \<times> Reservation) result" where
  "mem_reserve s now eid i =
     (case map_of (mem_executions s) (mem_key i) of
        Some existing \<Rightarrow> Inr (s, Existing (mx_execution existing))
      | None \<Rightarrow> Inr (s\<lparr> mem_executions := mem_executions s @ [(mem_key i,
          \<lparr> mx_execution = \<lparr> executionId = eid, execution_status = IN_PROGRESS, execution_providerRefundId = None \<rparr>,
            mx_workflowId = ri_workflowId i, mx_previewId = ri_previewId i, mx_tenantId = ri_tenantId i,
            mx_environmentId = ri_environmentId i, mx_orderId = ri_orderId i, mx_amountMinor = ri_amountMinor i,
            mx_currency = ri_currency i \<rparr>)] \<rparr>, Reserved eid))"

text \<open>The first value that satisfies \<^verbatim>\<open>p\<close> is the object that \<^verbatim>\<open>find\<close> returns; mutating it changes the map's entry.\<close>

fun update_first :: "('a \<Rightarrow> bool) \<Rightarrow> ('a \<Rightarrow> 'a) \<Rightarrow> ('k \<times> 'a) list \<Rightarrow> ('k \<times> 'a) list" where
  "update_first p f [] = []"
| "update_first p f ((k, v) # kvs) = (if p v then (k, f v) # kvs else (k, v) # update_first p f kvs)"

definition set_execution :: "RefundExecutionStatus \<Rightarrow> string option \<Rightarrow> RefundExecution \<Rightarrow> RefundExecution" where
  "set_execution st pid x = x\<lparr> execution_status := st,
     execution_providerRefundId := (case pid of None \<Rightarrow> execution_providerRefundId x | Some p \<Rightarrow> Some p) \<rparr>"

definition mem_recordOutcome ::
  "MemStore \<Rightarrow> int \<Rightarrow> string \<Rightarrow> ExecutionStatus \<Rightarrow> string option \<Rightarrow> (MemStore \<times> RefundExecution) result" where
  "mem_recordOutcome s now eid st pid =
     (case List.find (\<lambda>item. executionId (mx_execution item) = eid) (map snd (mem_executions s)) of
        None \<Rightarrow> Inl (Error ''REFUND_EXECUTION_NOT_FOUND'')
      | Some item \<Rightarrow> Inr (s\<lparr> mem_executions := update_first (\<lambda>item. executionId (mx_execution item) = eid)
           (mx_execution_update (set_execution (Outcome st) pid)) (mem_executions s) \<rparr>,
         set_execution (Outcome st) pid (mx_execution item)))"

definition mem_findSucceeded :: "MemStore \<Rightarrow> string \<Rightarrow> string \<Rightarrow> string \<Rightarrow> int \<Rightarrow> string \<Rightarrow> RefundExecution option" where
  "mem_findSucceeded s tenant environment order amount cur =
     map_option mx_execution (List.find (\<lambda>item. mx_tenantId item = tenant \<and> mx_environmentId item = environment
       \<and> mx_orderId item = order \<and> mx_amountMinor item = amount \<and> mx_currency item = cur
       \<and> execution_status (mx_execution item) = Outcome SUCCEEDED) (map snd (mem_executions s)))"

definition mem_findByWorkflowAndPreview :: "MemStore \<Rightarrow> string \<Rightarrow> string \<Rightarrow> string \<Rightarrow> string \<Rightarrow> RefundExecution option" where
  "mem_findByWorkflowAndPreview s tenant environment workflow preview =
     map_option mx_execution (List.find (\<lambda>item. mx_tenantId item = tenant \<and> mx_environmentId item = environment
       \<and> mx_workflowId item = workflow \<and> mx_previewId item = preview) (map snd (mem_executions s)))"

definition mem_recordProviderRefundEvent :: "MemStore \<Rightarrow> int \<Rightarrow> RefundProviderOutcome \<Rightarrow> (MemStore \<times> EventResult) result" where
  "mem_recordProviderRefundEvent s now ev =
     (if map_of (mem_providerEvents s) (po_eventId ev) \<noteq> None then Inr (s, DUPLICATE_EVENT)
      else (let has = (\<lambda>item. execution_providerRefundId (mx_execution item) = Some (po_providerRefundId ev)) in
        case List.find has (map snd (mem_executions s)) of
          None \<Rightarrow> Inr (s, UNKNOWN_REFUND)
        | Some item \<Rightarrow>
            if is_terminal (execution_status (mx_execution item)) then Inr (s, ACCEPTED_EVENT)
            else Inr (s\<lparr> mem_executions := update_first has
                   (mx_execution_update (set_execution (terminal_status (po_outcome ev)) None)) (mem_executions s),
                 mem_providerEvents := mem_providerEvents s @ [(po_eventId ev, \<lparr> pp_workflowId = mx_workflowId item, pp_outcome = ev \<rparr>)] \<rparr>,
               ACCEPTED_EVENT)))"

text \<open>\<^verbatim>\<open>localeCompare\<close> compares collation keys; the collation is the argument \<^verbatim>\<open>collate\<close>.\<close>

definition mem_listPendingProviderRefundEvents :: "(string \<Rightarrow> nat list) \<Rightarrow> MemStore \<Rightarrow> nat \<Rightarrow> PendingProviderRefundEvent list" where
  "mem_listPendingProviderRefundEvents collate s limit =
     take limit (sort_key (\<lambda>e. collate (po_occurredAt (pp_outcome e))) (map snd (mem_providerEvents s)))"

definition mem_markProviderRefundEventDelivered :: "MemStore \<Rightarrow> int \<Rightarrow> string \<Rightarrow> MemStore" where
  "mem_markProviderRefundEventDelivered s now eventId =
     s\<lparr> mem_providerEvents := filter (\<lambda>e. fst e \<noteq> eventId) (mem_providerEvents s) \<rparr>"

definition inMemoryRepository :: "(string \<Rightarrow> nat list) \<Rightarrow> MemStore RefundExecutionRepository" where
  "inMemoryRepository collate =
     \<lparr> repo_reserve = mem_reserve, repo_recordOutcome = mem_recordOutcome, repo_findSucceeded = mem_findSucceeded,
       repo_findByWorkflowAndPreview = mem_findByWorkflowAndPreview, repo_recordProviderRefundEvent = mem_recordProviderRefundEvent,
       repo_listPendingProviderRefundEvents = mem_listPendingProviderRefundEvents collate,
       repo_markProviderRefundEventDelivered = mem_markProviderRefundEventDelivered \<rparr>"

section \<open>What the routes rely on\<close>

text \<open>
  \<^verbatim>\<open>execution_of s k\<close> is the execution stored under the idempotency key \<^verbatim>\<open>k\<close>. A reservation of a key
  that is there returns the stored execution and changes nothing; one of a new key stores an
  execution under a fresh id; no operation removes a key; outcomes and provider events change one
  execution, and a provider event never changes one that has succeeded or failed.
\<close>

definition fresh_id :: "('k \<Rightarrow> RefundExecution option) \<Rightarrow> string \<Rightarrow> bool" where
  "fresh_id view eid \<longleftrightarrow> (\<forall>k x. view k = Some x \<longrightarrow> executionId x \<noteq> eid)"

locale refund_execution_repository =
  fixes repo :: "'s RefundExecutionRepository"
    and key :: "ReserveRefundExecutionInput \<Rightarrow> 'k"
    and execution_of :: "'s \<Rightarrow> 'k \<Rightarrow> RefundExecution option"
    and ok :: "'s \<Rightarrow> bool"
  assumes ids_unique: "ok s \<Longrightarrow> execution_of s k = Some x \<Longrightarrow> execution_of s k' = Some y \<Longrightarrow> executionId x = executionId y \<Longrightarrow> k = k'"
    and reserve_existing: "ok s \<Longrightarrow> execution_of s (key i) = Some x \<Longrightarrow> repo_reserve repo s now eid i = Inr (s', r)
      \<Longrightarrow> s' = s \<and> r = Existing x"
    and reserve_new: "ok s \<Longrightarrow> execution_of s (key i) = None \<Longrightarrow> fresh_id (execution_of s) eid
      \<Longrightarrow> repo_reserve repo s now eid i = Inr (s', r)
      \<Longrightarrow> ok s' \<and> r = Reserved eid
        \<and> execution_of s' = (execution_of s)(key i \<mapsto> \<lparr> executionId = eid, execution_status = IN_PROGRESS, execution_providerRefundId = None \<rparr>)"
    and recordOutcome: "ok s \<Longrightarrow> repo_recordOutcome repo s now eid st pid = Inr (s', x)
      \<Longrightarrow> ok s' \<and> (\<exists>k old. execution_of s k = Some old \<and> executionId old = eid \<and> x = set_execution (Outcome st) pid old
            \<and> execution_of s' = (execution_of s)(k \<mapsto> x))"
    and recordOutcome_found: "ok s \<Longrightarrow> execution_of s k = Some x \<Longrightarrow> \<exists>out. repo_recordOutcome repo s now (executionId x) st pid = Inr out"
    and recordEvent: "ok s \<Longrightarrow> repo_recordProviderRefundEvent repo s now ev = Inr (s', er)
      \<Longrightarrow> ok s' \<and> (execution_of s' = execution_of s
        \<or> er = ACCEPTED_EVENT \<and> (\<exists>k old. execution_of s k = Some old \<and> \<not> is_terminal (execution_status old)
            \<and> execution_providerRefundId old = Some (po_providerRefundId ev)
            \<and> execution_of s' = (execution_of s)(k \<mapsto> set_execution (terminal_status (po_outcome ev)) None old)))"
    and markDelivered: "ok s \<Longrightarrow> ok (repo_markProviderRefundEventDelivered repo s now e)
        \<and> execution_of (repo_markProviderRefundEventDelivered repo s now e) = execution_of s"
begin

lemma dom_reserve:
  assumes "ok s" and "fresh_id (execution_of s) eid" and "repo_reserve repo s now eid i = Inr (s', r)"
  shows "ok s'" and "dom (execution_of s') = insert (key i) (dom (execution_of s))"
    and "r = Reserved e \<Longrightarrow> e = eid \<and> execution_of s (key i) = None"
  using assms reserve_existing [of s i _ now eid s' r] reserve_new [of s i eid now s' r]
  by (cases "execution_of s (key i)"; force)+

lemma dom_recordOutcome:
  assumes "ok s" and "repo_recordOutcome repo s now eid st pid = Inr (s', x)"
  shows "ok s'" and "dom (execution_of s') = dom (execution_of s)"
  using recordOutcome [OF assms] by (auto split: if_split_asm)

lemma dom_recordEvent:
  assumes "ok s" and "repo_recordProviderRefundEvent repo s now ev = Inr (s', r)"
  shows "ok s'" and "dom (execution_of s') = dom (execution_of s)"
  using recordEvent [OF assms] by (auto split: if_split_asm)

end

section \<open>The Postgres repository keeps the contract\<close>

definition pg_execution_of :: "RefundDb \<Rightarrow> string \<times> string \<times> string \<Rightarrow> RefundExecution option" where
  "pg_execution_of db k = map_option toExecution (List.find (\<lambda>row. row_key row = k) (db_executions db))"

text \<open>The constraints of the schema: primary keys, the unique idempotency key, the foreign key of the events.\<close>

definition pg_ok :: "RefundDb \<Rightarrow> bool" where
  "pg_ok db \<longleftrightarrow> distinct (map xr_executionId (db_executions db)) \<and> distinct (map row_key (db_executions db))
     \<and> distinct (map pv_eventId (db_provider_events db))
     \<and> list_all (\<lambda>e. pv_executionId e \<in> xr_executionId ` set (db_executions db)) (db_provider_events db)"

lemma find_distinct:
  assumes "distinct (map f xs)" and "x \<in> set xs"
  shows "List.find (\<lambda>y. f y = f x) xs = Some x"
  using assms by (induction xs) auto

lemma filter_distinct:
  assumes "distinct (map f xs)" and "x \<in> set xs"
  shows "filter (\<lambda>y. f y = f x) xs = [x]"
proof -
  have "filter (\<lambda>y. f y = f x) xs = filter (\<lambda>y. y = x) xs"
    using assms by (intro filter_cong) (auto simp: distinct_map inj_on_def)
  also have "\<dots> = [x]" using assms by (induction xs) (auto simp: distinct_map filter_empty_conv)
  finally show ?thesis .
qed

lemma distinct_map_filter_le1: "distinct (map f xs) \<Longrightarrow> length (filter (\<lambda>x. f x = k) xs) \<le> 1"
proof (induction xs)
  case (Cons x xs)
  then show ?case by (cases "f x = k") (auto simp: filter_empty_conv image_iff)
qed simp

lemma filter_singletonD: "filter P xs = [x] \<Longrightarrow> x \<in> set xs \<and> P x"
  using filter_set [of P xs] by auto

lemma pg_execution_of_Some:
  "pg_ok db \<Longrightarrow> pg_execution_of db k = Some x \<longleftrightarrow> (\<exists>row \<in> set (db_executions db). row_key row = k \<and> toExecution row = x)"
  using find_distinct [of row_key "db_executions db"]
  by (auto simp: pg_execution_of_def pg_ok_def dest!: find_SomeD)

lemma pg_execution_of_None: "pg_execution_of db k = None \<longleftrightarrow> (\<forall>row \<in> set (db_executions db). row_key row \<noteq> k)"
  by (simp add: pg_execution_of_def find_None_conv)

lemma executionId_toExecution [simp]: "executionId (toExecution row) = xr_executionId row"
  "execution_status (toExecution row) = xr_status row" "execution_providerRefundId (toExecution row) = xr_providerRefundId row"
  by (simp_all add: toExecution_def)

lemma set_status_simps [simp]:
  "xr_executionId (set_status now st pid row) = xr_executionId row" "row_key (set_status now st pid row) = row_key row"
  "toExecution (set_status now st pid row) = set_execution st pid (toExecution row)" "xr_status (set_status now st pid row) = st"
  by (simp_all add: set_status_def toExecution_def set_execution_def row_key_def split: option.split)

lemma new_row_simps [simp]:
  "xr_executionId (new_row eid at i) = eid" "row_key (new_row eid at i) = input_key i"
  "toExecution (new_row eid at i) = \<lparr> executionId = eid, execution_status = IN_PROGRESS, execution_providerRefundId = None \<rparr>"
  by (simp_all add: new_row_def toExecution_def row_key_def input_key_def)

lemma audit_irrelevant [simp]:
  "db_executions (insertAudit now e t d db) = db_executions db" "db_provider_events (insertAudit now e t d db) = db_provider_events db"
  "pg_execution_of (insertAudit now e t d db) = pg_execution_of db" "pg_ok (insertAudit now e t d db) = pg_ok db"
  by (simp_all add: insertAudit_def pg_execution_of_def pg_ok_def fun_eq_iff)

lemma update_row_map:
  assumes "\<And>row. g (f row) = g row"
  shows "map g (db_executions (update_row eid f db)) = map g (db_executions db)"
  using assms by (simp add: update_row_def)

lemma update_row_ids [simp]:
  "xr_executionId ` set (db_executions (update_row eid (set_status now st pid) db)) = xr_executionId ` set (db_executions db)"
  using arg_cong [OF update_row_map [of xr_executionId "set_status now st pid" eid db], of set] by simp

lemma update_row_events [simp]: "db_provider_events (update_row eid f db) = db_provider_events db"
  by (simp add: update_row_def)

lemma update_row_ok [simp]: "pg_ok (update_row eid (set_status now st pid) db) = pg_ok db"
proof -
  let ?db = "update_row eid (set_status now st pid) db"
  have m: "map xr_executionId (db_executions ?db) = map xr_executionId (db_executions db)"
    "map row_key (db_executions ?db) = map row_key (db_executions db)"
    by (rule update_row_map, simp)+
  note update_row_ids
  moreover have "db_provider_events ?db = db_provider_events db" by (simp add: update_row_def)
  ultimately show ?thesis by (simp only: pg_ok_def m)
qed

lemma update_row_view:
  assumes "pg_ok db" and "row \<in> set (db_executions db)"
  shows "pg_execution_of (update_row (xr_executionId row) (set_status now st pid) db)
    = (pg_execution_of db)(row_key row \<mapsto> set_execution st pid (toExecution row))"
proof (rule ext)
  fix k
  let ?f = "\<lambda>r. if xr_executionId r = xr_executionId row then set_status now st pid r else r"
  have "row_key (?f r) = k \<longleftrightarrow> row_key r = k" for r by simp
  then have f: "List.find (\<lambda>r. row_key r = k) (map ?f rows) = map_option ?f (List.find (\<lambda>r. row_key r = k) rows)" for rows
    by (induction rows) auto
  have same: "r = row" if "r \<in> set (db_executions db)" "xr_executionId r = xr_executionId row" for r
    using that assms by (auto simp: pg_ok_def distinct_map inj_on_def)
  show "pg_execution_of (update_row (xr_executionId row) (set_status now st pid) db) k
    = ((pg_execution_of db)(row_key row \<mapsto> set_execution st pid (toExecution row))) k"
  proof (cases "k = row_key row")
    case True
    with assms find_distinct [of row_key "db_executions db" row] f [of "db_executions db"]
    show ?thesis by (simp add: pg_execution_of_def update_row_def pg_ok_def)
  next
    case False
    then show ?thesis
      unfolding pg_execution_of_def update_row_def
      by (cases "List.find (\<lambda>r. row_key r = k) (db_executions db)") (use f [of "db_executions db"] in \<open>auto dest!: find_SomeD same\<close>)
  qed
qed

lemma pg_reserve_existing:
  assumes "pg_ok db" and "pg_execution_of db (input_key i) = Some x" and "pg_reserve ts db now eid i = Inr (db', r)"
  shows "db' = db \<and> r = Existing x"
proof -
  obtain row where r: "row \<in> set (db_executions db)" "row_key row = input_key i" "toExecution row = x"
    using assms(1,2) by (auto simp: pg_execution_of_Some)
  with filter_distinct [of row_key "db_executions db" row] assms(1)
  have "filter (\<lambda>q. row_key q = input_key i) (db_executions db) = [row]" by (simp add: pg_ok_def)
  with assms(3) r(3) show ?thesis by (auto simp: pg_reserve_def split: option.split_asm if_split_asm)
qed

lemma pg_reserve_new:
  assumes "pg_ok db" and "pg_execution_of db (input_key i) = None" and "pg_reserve ts db now eid i = Inr (db', r)"
  shows "pg_ok db' \<and> r = Reserved eid \<and> pg_execution_of db' = (pg_execution_of db)
    (input_key i \<mapsto> \<lparr> executionId = eid, execution_status = IN_PROGRESS, execution_providerRefundId = None \<rparr>)"
proof -
  have no: "\<forall>row \<in> set (db_executions db). row_key row \<noteq> input_key i"
    using assms(2) by (simp add: pg_execution_of_None)
  then have e: "filter (\<lambda>q. row_key q = input_key i) (db_executions db) = []" by simp
  obtain at where at: "eid \<notin> xr_executionId ` set (db_executions db)" "r = Reserved eid"
      "db_executions db' = db_executions db @ [new_row eid at i]" "db_provider_events db' = db_provider_events db"
    using assms(3) by (auto simp: pg_reserve_def e split: option.split_asm if_split_asm)
  have "input_key i \<notin> row_key ` set (db_executions db)" using no by force
  then have "pg_ok db'" using assms(1) at by (auto simp: pg_ok_def list_all_iff)
  moreover have "List.find p (xs @ [y]) = (case List.find p xs of None \<Rightarrow> if p y then Some y else None | Some z \<Rightarrow> Some z)"
    for p and xs :: "ExecutionRow list" and y
    by (induction xs) auto
  then have "pg_execution_of db' k = ((pg_execution_of db)(input_key i \<mapsto>
      \<lparr> executionId = eid, execution_status = IN_PROGRESS, execution_providerRefundId = None \<rparr>)) k" for k
    using no by (auto simp: pg_execution_of_def at(3) find_None_conv dest!: find_SomeD split: option.split)
  ultimately show ?thesis using at(2) by (simp add: fun_eq_iff)
qed

lemma pg_recordOutcome_Inr:
  assumes "pg_ok db" and "pg_recordOutcome db now eid st pid = Inr (db', x)"
  obtains row where "row \<in> set (db_executions db)" "xr_executionId row = eid" "x = set_execution (Outcome st) pid (toExecution row)"
    "pg_ok db'" "pg_execution_of db' = (pg_execution_of db)(row_key row \<mapsto> x)"
proof -
  obtain row where f: "filter (\<lambda>row. xr_executionId row = eid) (db_executions db) = [row]"
    using assms(2) by (auto simp: pg_recordOutcome_def split: list.split_asm)
  then have r: "row \<in> set (db_executions db)" "xr_executionId row = eid"
    by (blast dest: filter_singletonD)+
  show ?thesis
    using assms(2) f r update_row_view [OF assms(1) r(1)] assms(1)
    by (intro that [of row]) (auto simp: pg_recordOutcome_def)
qed

lemma pg_recordProviderRefundEvent_Inr:
  assumes "pg_ok db" and "pg_recordProviderRefundEvent ts db now ev = Inr (db', er)"
  shows "db' = db \<and> er \<noteq> ACCEPTED_EVENT
    \<or> er = ACCEPTED_EVENT \<and> po_eventId ev \<notin> pv_eventId ` set (db_provider_events db)
      \<and> (\<exists>row e. row \<in> set (db_executions db) \<and> xr_providerRefundId row = Some (po_providerRefundId ev) \<and> pg_ok db'
          \<and> db_provider_events db' = db_provider_events db @ [e] \<and> pv_eventId e = po_eventId ev
          \<and> pv_delivered e = is_terminal (xr_status row) \<and> pv_executionId e = xr_executionId row \<and> pv_outcome e = po_outcome ev
          \<and> pv_providerRefundId e = po_providerRefundId ev
          \<and> (\<exists>row' \<in> set (db_executions db'). xr_executionId row' = xr_executionId row \<and> xr_workflowId row' = xr_workflowId row)
          \<and> pg_execution_of db' = (if is_terminal (xr_status row) then pg_execution_of db
              else (pg_execution_of db)(row_key row \<mapsto> set_execution (terminal_status (po_outcome ev)) None (toExecution row))))"
proof (cases "po_eventId ev \<in> pv_eventId ` set (db_provider_events db)
    \<or> (\<nexists>row. filter (\<lambda>row. xr_providerRefundId row = Some (po_providerRefundId ev)) (db_executions db) = [row])")
  case True
  with assms(2) show ?thesis
    by (auto simp: pg_recordProviderRefundEvent_def split: list.split_asm if_split_asm)
next
  case False
  then obtain row where f: "filter (\<lambda>row. xr_providerRefundId row = Some (po_providerRefundId ev)) (db_executions db) = [row]"
    and n: "po_eventId ev \<notin> pv_eventId ` set (db_provider_events db)" by blast
  then have r: "row \<in> set (db_executions db)" "xr_providerRefundId row = Some (po_providerRefundId ev)"
    by (blast dest: filter_singletonD)+
  note v = update_row_view [OF assms(1) r(1), of now "terminal_status (po_outcome ev)" None]
  let ?db1 = "if is_terminal (xr_status row) then db else insertAudit now (xr_executionId row)
    (''refund_provider_'' @ outcome_string (po_outcome ev))
    (JObj [(''providerRefundId'', JStr (po_providerRefundId ev)), (''eventId'', JStr (po_eventId ev))])
    (update_row (xr_executionId row) (set_status now (terminal_status (po_outcome ev)) None) db)"
  have ok: "pg_ok ?db1" "db_provider_events ?db1 = db_provider_events db"
    "xr_executionId ` set (db_executions ?db1) = xr_executionId ` set (db_executions db)"
    using assms(1) by simp_all
  obtain at where d: "db' = ?db1\<lparr> db_provider_events := db_provider_events ?db1 @
      [\<lparr> pv_eventId = po_eventId ev, pv_executionId = xr_executionId row, pv_providerRefundId = po_providerRefundId ev,
        pv_outcome = po_outcome ev, pv_occurredAt = at, pv_delivered = is_terminal (xr_status row),
        pv_deliveredAt = (if is_terminal (xr_status row) then Some at else None) \<rparr>] \<rparr>" "er = ACCEPTED_EVENT"
    using assms(2) n f by (auto simp: pg_recordProviderRefundEvent_def Let_def split: option.split_asm)
  have "pg_execution_of (db\<lparr> db_provider_events := es \<rparr>) = pg_execution_of db" for db es
    by (simp add: pg_execution_of_def fun_eq_iff)
  moreover have "pg_ok db'" using ok r n unfolding d(1) pg_ok_def by auto
  moreover have "\<exists>row' \<in> set (db_executions db'). xr_executionId row' = xr_executionId row \<and> xr_workflowId row' = xr_workflowId row"
  proof (cases "is_terminal (xr_status row)")
    case False
    let ?row = "set_status now (terminal_status (po_outcome ev)) None row"
    have "?row \<in> set (db_executions db')" using r(1) False unfolding d(1) by (force simp: update_row_def)
    then show ?thesis by (intro bexI [of _ ?row]) (simp_all add: set_status_def)
  qed (use r(1) d(1) in auto)
  ultimately show ?thesis using d r n v ok(2) by (intro disjI2 conjI exI [of _ row] exI [of _ "last (db_provider_events db')"]) simp_all
qed

lemma pg_markDelivered:
  assumes "pg_ok db"
  shows "pg_ok (pg_markProviderRefundEventDelivered db now e)"
proof -
  let ?db = "pg_markProviderRefundEventDelivered db now e"
  have "map pv_eventId (db_provider_events ?db) = map pv_eventId (db_provider_events db)"
    by (simp add: pg_markProviderRefundEventDelivered_def)
  moreover have "db_executions ?db = db_executions db" "\<forall>e' \<in> set (db_provider_events ?db). \<exists>e \<in> set (db_provider_events db). pv_executionId e' = pv_executionId e"
    by (auto simp: pg_markProviderRefundEventDelivered_def)
  ultimately show ?thesis using assms unfolding pg_ok_def list_all_iff by metis
qed

lemma pg_markDelivered_view [simp]: "pg_execution_of (pg_markProviderRefundEventDelivered db now e) = pg_execution_of db"
  by (simp add: pg_markProviderRefundEventDelivered_def pg_execution_of_def fun_eq_iff)

lemma pg_recordEvent_view:
  assumes "pg_ok db" and "pg_recordProviderRefundEvent ts db now ev = Inr (db', er)"
  shows "pg_ok db' \<and> (pg_execution_of db' = pg_execution_of db
      \<or> er = ACCEPTED_EVENT \<and> (\<exists>k old. pg_execution_of db k = Some old \<and> \<not> is_terminal (execution_status old)
          \<and> execution_providerRefundId old = Some (po_providerRefundId ev)
          \<and> pg_execution_of db' = (pg_execution_of db)(k \<mapsto> set_execution (terminal_status (po_outcome ev)) None old)))"
  using pg_recordProviderRefundEvent_Inr [OF assms]
proof (elim disjE conjE exE)
  fix row e
  assume r: "row \<in> set (db_executions db)" "xr_providerRefundId row = Some (po_providerRefundId ev)" "pg_ok db'"
    and a: "er = ACCEPTED_EVENT" and v: "pg_execution_of db' = (if is_terminal (xr_status row) then pg_execution_of db
      else (pg_execution_of db)(row_key row \<mapsto> set_execution (terminal_status (po_outcome ev)) None (toExecution row)))"
  have "pg_execution_of db (row_key row) = Some (toExecution row)" using assms(1) r(1) by (auto simp: pg_execution_of_Some)
  with a r v show ?thesis
    by (cases "is_terminal (xr_status row)") (simp, intro conjI disjI2 exI [of _ "row_key row"] exI [of _ "toExecution row"], simp_all)
qed (use assms(1) in simp)

interpretation pg: refund_execution_repository "postgresRepository ts" input_key pg_execution_of pg_ok
  for ts :: "string \<Rightarrow> int option"
proof unfold_locales
  fix s now eid st pid s' x
  assume "pg_ok s" "repo_recordOutcome (postgresRepository ts) s now eid st pid = Inr (s', x)"
  then obtain row where r: "row \<in> set (db_executions s)" "xr_executionId row = eid" "x = set_execution (Outcome st) pid (toExecution row)"
      "pg_ok s'" "pg_execution_of s' = (pg_execution_of s)(row_key row \<mapsto> x)"
    by (auto simp: postgresRepository_def elim: pg_recordOutcome_Inr)
  have "pg_execution_of s (row_key row) = Some (toExecution row)" using \<open>pg_ok s\<close> r(1) by (auto simp: pg_execution_of_Some)
  with r show "pg_ok s' \<and> (\<exists>k old. pg_execution_of s k = Some old \<and> executionId old = eid \<and> x = set_execution (Outcome st) pid old
      \<and> pg_execution_of s' = (pg_execution_of s)(k \<mapsto> x))"
    by (intro conjI exI [of _ "row_key row"] exI [of _ "toExecution row"]) simp_all
next
  fix s k x now st pid
  assume "pg_ok s" "pg_execution_of s k = Some x"
  then obtain row where "row \<in> set (db_executions s)" "toExecution row = x" by (auto simp: pg_execution_of_Some)
  with filter_distinct [of xr_executionId "db_executions s" row] \<open>pg_ok s\<close>
  show "\<exists>out. repo_recordOutcome (postgresRepository ts) s now (executionId x) st pid = Inr out"
    by (auto simp: postgresRepository_def pg_recordOutcome_def pg_ok_def)
next
  fix s now ev s' er
  assume "pg_ok s" "repo_recordProviderRefundEvent (postgresRepository ts) s now ev = Inr (s', er)"
  then show "pg_ok s' \<and> (pg_execution_of s' = pg_execution_of s
      \<or> er = ACCEPTED_EVENT \<and> (\<exists>k old. pg_execution_of s k = Some old \<and> \<not> is_terminal (execution_status old)
          \<and> execution_providerRefundId old = Some (po_providerRefundId ev)
          \<and> pg_execution_of s' = (pg_execution_of s)(k \<mapsto> set_execution (terminal_status (po_outcome ev)) None old)))"
    by (intro pg_recordEvent_view) (simp_all add: postgresRepository_def)
next
  fix s k x k' y
  assume "pg_ok s" "pg_execution_of s k = Some x" "pg_execution_of s k' = Some y" "executionId x = executionId y"
  then show "k = k'" by (auto simp: pg_execution_of_Some pg_ok_def distinct_map dest: inj_onD)
next
  fix s i x now eid s' r
  assume "pg_ok s" "pg_execution_of s (input_key i) = Some x" "repo_reserve (postgresRepository ts) s now eid i = Inr (s', r)"
  then show "s' = s \<and> r = Existing x" by (intro pg_reserve_existing) (simp_all add: postgresRepository_def)
next
  fix s i eid now s' r
  assume "pg_ok s" "pg_execution_of s (input_key i) = None" "repo_reserve (postgresRepository ts) s now eid i = Inr (s', r)"
  then show "pg_ok s' \<and> r = Reserved eid \<and> pg_execution_of s' = (pg_execution_of s)
      (input_key i \<mapsto> \<lparr> executionId = eid, execution_status = IN_PROGRESS, execution_providerRefundId = None \<rparr>)"
    by (intro pg_reserve_new) (simp_all add: postgresRepository_def)
qed (simp add: postgresRepository_def pg_markDelivered)

section \<open>The in-memory repository keeps the contract\<close>

definition mem_execution_of :: "MemStore \<Rightarrow> string \<Rightarrow> RefundExecution option" where
  "mem_execution_of s k = map_option mx_execution (map_of (mem_executions s) k)"

definition mem_ok :: "MemStore \<Rightarrow> bool" where
  "mem_ok s \<longleftrightarrow> distinct (map fst (mem_executions s)) \<and> distinct (map (\<lambda>kv. executionId (mx_execution (snd kv))) (mem_executions s))"

lemma update_first_map_of:
  assumes "distinct (map fst kvs)" and "List.find p (map snd kvs) = Some v"
  shows "\<exists>k. map_of kvs k = Some v \<and> map_of (update_first p f kvs) = (map_of kvs)(k \<mapsto> f v)"
  using assms
proof (induction kvs)
  case (Cons kv kvs)
  obtain k w where kv: "kv = (k, w)" by (cases kv)
  show ?case
  proof (cases "p w")
    case True
    with Cons.prems kv show ?thesis by (intro exI [of _ k]) (simp add: fun_eq_iff)
  next
    case False
    with Cons.prems kv have "distinct (map fst kvs)" "List.find p (map snd kvs) = Some v" by simp_all
    then obtain j where j: "map_of kvs j = Some v" "map_of (update_first p f kvs) = (map_of kvs)(j \<mapsto> f v)" using Cons.IH by blast
    moreover from j(1) Cons.prems(1) kv have "j \<noteq> k" using map_of_SomeD by force
    ultimately show ?thesis using False kv by (intro exI [of _ j]) (simp add: fun_eq_iff)
  qed
qed simp

lemma update_first_keys [simp]: "map fst (update_first p f kvs) = map fst kvs"
  by (induction p f kvs rule: update_first.induct) auto

lemma update_first_proj: "(\<And>v. g (f v) = g v) \<Longrightarrow> map (\<lambda>kv. g (snd kv)) (update_first p f kvs) = map (\<lambda>kv. g (snd kv)) kvs"
  by (induction p f kvs rule: update_first.induct) auto

lemma executionId_set_execution [simp]: "executionId (set_execution st pid x) = executionId x"
  by (simp add: set_execution_def)

lemma mem_update:
  assumes "mem_ok s" and "List.find p (map snd (mem_executions s)) = Some item"
    and s'_def: "s' = s\<lparr> mem_executions := update_first p (mx_execution_update (set_execution st pid)) (mem_executions s), mem_providerEvents := es \<rparr>"
  shows "mem_ok s'" and "\<exists>k. mem_execution_of s k = Some (mx_execution item)
    \<and> mem_execution_of s' = (mem_execution_of s)(k \<mapsto> set_execution st pid (mx_execution item))"
proof -
  show "mem_ok s'"
    using assms(1) by (simp add: mem_ok_def s'_def update_first_proj [of "\<lambda>v. executionId (mx_execution v)"])
  from update_first_map_of [OF _ assms(2), of "mx_execution_update (set_execution st pid)"] assms(1)
  obtain k where "map_of (mem_executions s) k = Some item"
    "map_of (mem_executions s') = (map_of (mem_executions s))(k \<mapsto> mx_execution_update (set_execution st pid) item)"
    by (auto simp: mem_ok_def s'_def)
  then show "\<exists>k. mem_execution_of s k = Some (mx_execution item)
    \<and> mem_execution_of s' = (mem_execution_of s)(k \<mapsto> set_execution st pid (mx_execution item))"
    by (intro exI [of _ k]) (auto simp: mem_execution_of_def fun_eq_iff)
qed

lemmas mem_repo_simps = inMemoryRepository_def mem_reserve_def mem_recordOutcome_def mem_recordProviderRefundEvent_def
  mem_markProviderRefundEventDelivered_def

lemma mem_recordEvent_view:
  assumes "mem_ok s" and "mem_recordProviderRefundEvent s now ev = Inr (s', er)"
  shows "mem_ok s' \<and> (mem_execution_of s' = mem_execution_of s
      \<or> er = ACCEPTED_EVENT \<and> (\<exists>k old. mem_execution_of s k = Some old \<and> \<not> is_terminal (execution_status old)
          \<and> execution_providerRefundId old = Some (po_providerRefundId ev)
          \<and> mem_execution_of s' = (mem_execution_of s)(k \<mapsto> set_execution (terminal_status (po_outcome ev)) None old)))"
proof -
  let ?p = "\<lambda>item. execution_providerRefundId (mx_execution item) = Some (po_providerRefundId ev)"
  show ?thesis
  proof (cases "s' = s")
    case False
    then obtain item where i: "List.find ?p (map snd (mem_executions s)) = Some item" "\<not> is_terminal (execution_status (mx_execution item))"
        "er = ACCEPTED_EVENT" and s': "s' = s\<lparr> mem_executions := update_first ?p (mx_execution_update (set_execution (terminal_status (po_outcome ev)) None))
            (mem_executions s), mem_providerEvents := mem_providerEvents s @ [(po_eventId ev, \<lparr> pp_workflowId = mx_workflowId item, pp_outcome = ev \<rparr>)] \<rparr>"
      using assms(2) by (auto simp: mem_recordProviderRefundEvent_def Let_def split: if_split_asm option.split_asm)
    from find_SomeD [OF i(1)] have "execution_providerRefundId (mx_execution item) = Some (po_providerRefundId ev)" by simp
    with mem_update [OF assms(1) i(1) s'] i show ?thesis by blast
  qed (use assms(1) in simp)
qed

interpretation mem: refund_execution_repository "inMemoryRepository collate" mem_key mem_execution_of mem_ok
  for collate :: "string \<Rightarrow> nat list"
proof unfold_locales
  fix s k x k' y
  assume ok: "mem_ok s" and "mem_execution_of s k = Some x" "mem_execution_of s k' = Some y" and eq: "executionId x = executionId y"
  then obtain a b where "(k, a) \<in> set (mem_executions s)" "(k', b) \<in> set (mem_executions s)" "mx_execution a = x" "mx_execution b = y"
    by (auto simp: mem_execution_of_def dest: map_of_SomeD)
  moreover from ok have "inj_on (\<lambda>kv. executionId (mx_execution (snd kv))) (set (mem_executions s))" by (simp add: mem_ok_def distinct_map)
  ultimately show "k = k'" using eq inj_onD [of _ _ "(k, a)" "(k', b)"] by fastforce
next
  fix s i x now eid s' r
  assume "mem_execution_of s (mem_key i) = Some x" "repo_reserve (inMemoryRepository collate) s now eid i = Inr (s', r)"
  then show "s' = s \<and> r = Existing x" by (auto simp: mem_repo_simps mem_execution_of_def)
next
  fix s i eid now s' r
  assume ok: "mem_ok s" and none: "mem_execution_of s (mem_key i) = None" and fresh: "fresh_id (mem_execution_of s) eid"
    and res: "repo_reserve (inMemoryRepository collate) s now eid i = Inr (s', r)"
  from ok fresh have "eid \<noteq> executionId (mx_execution (snd kv))" if "kv \<in> set (mem_executions s)" for kv
    using that by (cases kv) (force simp: mem_ok_def fresh_id_def mem_execution_of_def)
  moreover have m: "map_of (mem_executions s) (mem_key i) = None" using none by (simp add: mem_execution_of_def)
  moreover obtain v where "mem_executions s' = mem_executions s @ [(mem_key i, v)]" "r = Reserved eid"
      "mx_execution v = \<lparr> executionId = eid, execution_status = IN_PROGRESS, execution_providerRefundId = None \<rparr>"
    using res m by (auto simp: mem_repo_simps)
  ultimately show "mem_ok s' \<and> r = Reserved eid \<and> mem_execution_of s' = (mem_execution_of s)
      (mem_key i \<mapsto> \<lparr> executionId = eid, execution_status = IN_PROGRESS, execution_providerRefundId = None \<rparr>)"
    using ok by (auto simp: mem_execution_of_def mem_ok_def fun_eq_iff map_add_def map_of_eq_None_iff image_iff
        dest!: map_of_SomeD split: option.split)
next
  fix s now eid st pid s' x
  assume ok: "mem_ok s" and rec: "repo_recordOutcome (inMemoryRepository collate) s now eid st pid = Inr (s', x)"
  then obtain item where i: "List.find (\<lambda>item. executionId (mx_execution item) = eid) (map snd (mem_executions s)) = Some item"
      "x = set_execution (Outcome st) pid (mx_execution item)"
      "s' = s\<lparr> mem_executions := update_first (\<lambda>item. executionId (mx_execution item) = eid)
           (mx_execution_update (set_execution (Outcome st) pid)) (mem_executions s), mem_providerEvents := mem_providerEvents s \<rparr>"
    by (auto simp: mem_repo_simps split: option.split_asm)
  from find_SomeD [OF i(1)] have "executionId (mx_execution item) = eid" by simp
  with mem_update [OF ok i(1,3)] i(2)
  show "mem_ok s' \<and> (\<exists>k old. mem_execution_of s k = Some old \<and> executionId old = eid \<and> x = set_execution (Outcome st) pid old
      \<and> mem_execution_of s' = (mem_execution_of s)(k \<mapsto> x))" by blast
next
  fix s k x now st pid
  assume "mem_ok s" "mem_execution_of s k = Some x"
  then show "\<exists>out. repo_recordOutcome (inMemoryRepository collate) s now (executionId x) st pid = Inr out"
    by (force simp: mem_repo_simps mem_execution_of_def find_None_conv dest: map_of_SomeD split: option.split)
next
  fix s now ev s' er
  assume "mem_ok s" "repo_recordProviderRefundEvent (inMemoryRepository collate) s now ev = Inr (s', er)"
  then show "mem_ok s' \<and> (mem_execution_of s' = mem_execution_of s
      \<or> er = ACCEPTED_EVENT \<and> (\<exists>k old. mem_execution_of s k = Some old \<and> \<not> is_terminal (execution_status old)
          \<and> execution_providerRefundId old = Some (po_providerRefundId ev)
          \<and> mem_execution_of s' = (mem_execution_of s)(k \<mapsto> set_execution (terminal_status (po_outcome ev)) None old)))"
    by (intro mem_recordEvent_view) (simp_all add: inMemoryRepository_def)
qed (simp add: mem_repo_simps mem_ok_def mem_execution_of_def fun_eq_iff)

section \<open>The outbox of provider events\<close>

lemma in_concat_mapI: "x \<in> set xs \<Longrightarrow> y \<in> set (f x) \<Longrightarrow> y \<in> set (concat (map f xs))"
  by auto

lemma length_concat_le: "(\<And>x. x \<in> set xs \<Longrightarrow> length (f x) \<le> 1) \<Longrightarrow> length (concat (map f xs)) \<le> length xs"
proof (induction xs)
  case (Cons x xs)
  then have "length (f x) \<le> 1" "length (concat (map f xs)) \<le> length xs" by simp_all
  then show ?case by simp
qed simp

lemma pending_event_listed:
  assumes "pg_ok db" and "e \<in> set (db_provider_events db)" and "\<not> pv_delivered e"
    and "row \<in> set (db_executions db)" and "pv_executionId e = xr_executionId row" and "length (db_provider_events db) \<le> limit"
  shows "\<lparr> pp_workflowId = xr_workflowId row, pp_outcome = \<lparr> po_eventId = pv_eventId e, po_providerRefundId = pv_providerRefundId e,
      po_outcome = pv_outcome e, po_occurredAt = iso_string (pv_occurredAt e) \<rparr> \<rparr> \<in> set (pg_listPendingProviderRefundEvents db limit)"
proof -
  let ?join = "\<lambda>e. map (\<lambda>row. \<lparr> pp_workflowId = xr_workflowId row, pp_outcome = \<lparr> po_eventId = pv_eventId e,
        po_providerRefundId = pv_providerRefundId e, po_outcome = pv_outcome e, po_occurredAt = iso_string (pv_occurredAt e) \<rparr> \<rparr>)
      (filter (\<lambda>row. xr_executionId row = pv_executionId e) (db_executions db))"
  let ?es = "sort_key pv_occurredAt (filter (\<lambda>e. \<not> pv_delivered e) (db_provider_events db))"
  have "length (?join x) \<le> 1" for x
    using distinct_map_filter_le1 [of xr_executionId "db_executions db" "pv_executionId x"] assms(1) by (simp add: pg_ok_def)
  then have "length (concat (map ?join ?es)) \<le> length ?es" by (intro length_concat_le)
  also have "length ?es \<le> limit" using order_trans [OF length_filter_le assms(6)] by simp
  finally have "pg_listPendingProviderRefundEvents db limit = concat (map ?join ?es)"
    by (simp add: pg_listPendingProviderRefundEvents_def)
  moreover have "e \<in> set ?es" using assms(2,3) by simp
  moreover have "\<lparr> pp_workflowId = xr_workflowId row, pp_outcome = \<lparr> po_eventId = pv_eventId e, po_providerRefundId = pv_providerRefundId e,
      po_outcome = pv_outcome e, po_occurredAt = iso_string (pv_occurredAt e) \<rparr> \<rparr> \<in> set (?join e)"
    unfolding set_map using assms(4,5) by (intro image_eqI [of _ _ row]) simp_all
  ultimately show ?thesis by (simp only: in_concat_mapI)
qed

lemma listed_event_pending:
  assumes "p \<in> set (pg_listPendingProviderRefundEvents db limit)"
  obtains e where "e \<in> set (db_provider_events db)" "\<not> pv_delivered e" "po_eventId (pp_outcome p) = pv_eventId e"
proof -
  from in_set_takeD [OF assms [unfolded pg_listPendingProviderRefundEvents_def]]
  obtain e row where e: "e \<in> set (sort_key pv_occurredAt (filter (\<lambda>e. \<not> pv_delivered e) (db_provider_events db)))"
    "po_eventId (pp_outcome p) = pv_eventId e"
    unfolding set_concat set_map by fastforce
  then show ?thesis by (intro that [of e]) simp_all
qed

text \<open>
  Events of the payment provider are recorded once, decide only executions that are still open,
  and are not lost. An accepted event is refused as a duplicate from then on, whatever it says. If
  its execution had already succeeded or failed, every execution stays as it is; otherwise the
  execution takes the event's outcome and the event is handed to the workflow of that execution at
  every delivery until it is marked as delivered, and not after.
\<close>

theorem provider_event_outbox:
  assumes "pg_ok db" and "pg_recordProviderRefundEvent ts db now ev = Inr (db', ACCEPTED_EVENT)"
  shows "pg_recordProviderRefundEvent ts db' now' (ev\<lparr> po_outcome := k, po_occurredAt := at, po_providerRefundId := pid \<rparr>) = Inr (db', DUPLICATE_EVENT)
    \<and> (\<exists>row \<in> set (db_executions db). xr_providerRefundId row = Some (po_providerRefundId ev)
      \<and> (if is_terminal (xr_status row) then pg_execution_of db' = pg_execution_of db
         else pg_execution_of db' (row_key row) = Some (set_execution (terminal_status (po_outcome ev)) None (toExecution row))
           \<and> (\<forall>limit \<ge> length (db_provider_events db'). \<exists>p \<in> set (pg_listPendingProviderRefundEvents db' limit).
                pp_workflowId p = xr_workflowId row \<and> po_eventId (pp_outcome p) = po_eventId ev
                \<and> po_providerRefundId (pp_outcome p) = po_providerRefundId ev \<and> po_outcome (pp_outcome p) = po_outcome ev)))
    \<and> (\<forall>limit. po_eventId ev \<notin> (\<lambda>p. po_eventId (pp_outcome p)) `
        set (pg_listPendingProviderRefundEvents (pg_markProviderRefundEventDelivered db' now' (po_eventId ev)) limit))"
    (is "?dup \<and> ?decided \<and> ?gone")
proof (intro conjI)
  obtain row e row' where r: "row \<in> set (db_executions db)" "xr_providerRefundId row = Some (po_providerRefundId ev)" "pg_ok db'"
      "db_provider_events db' = db_provider_events db @ [e]" "pv_eventId e = po_eventId ev" "pv_delivered e = is_terminal (xr_status row)"
      "pv_executionId e = xr_executionId row" "pv_outcome e = po_outcome ev" "pv_providerRefundId e = po_providerRefundId ev"
      and r': "row' \<in> set (db_executions db')" "xr_executionId row' = xr_executionId row" "xr_workflowId row' = xr_workflowId row"
      and v: "pg_execution_of db' = (if is_terminal (xr_status row) then pg_execution_of db
         else (pg_execution_of db)(row_key row \<mapsto> set_execution (terminal_status (po_outcome ev)) None (toExecution row)))"
    using pg_recordProviderRefundEvent_Inr [OF assms] by auto
  show ?dup using r(4,5) by (simp add: pg_recordProviderRefundEvent_def)
  have "\<exists>p \<in> set (pg_listPendingProviderRefundEvents db' limit). pp_workflowId p = xr_workflowId row \<and> po_eventId (pp_outcome p) = po_eventId ev
      \<and> po_providerRefundId (pp_outcome p) = po_providerRefundId ev \<and> po_outcome (pp_outcome p) = po_outcome ev"
    if "length (db_provider_events db') \<le> limit" "\<not> is_terminal (xr_status row)" for limit
  proof -
    have e: "e \<in> set (db_provider_events db')" "\<not> pv_delivered e" "pv_executionId e = xr_executionId row'" using r(4,6,7) r'(2) that(2) by simp_all
    show ?thesis by (rule bexI [OF _ pending_event_listed [OF r(3) e(1,2) r'(1) e(3) that(1)]]) (simp add: r(5,8,9) r'(3))
  qed
  with r(1,2) v show ?decided by (intro bexI [OF _ r(1)]) simp
  have "pv_delivered e" if "e \<in> set (db_provider_events (pg_markProviderRefundEventDelivered db' now' (po_eventId ev)))" "pv_eventId e = po_eventId ev" for e
    using that by (auto simp: pg_markProviderRefundEventDelivered_def)
  then show ?gone by (auto elim!: listed_event_pending)
qed

definition sample_row :: ExecutionRow where
  "sample_row = \<lparr> xr_executionId = ''x1'', xr_tenantId = ''t1'', xr_environmentId = ''dev'', xr_idempotencyKey = ''k1'', xr_workflowId = ''wf1'',
     xr_previewId = ''pv1'', xr_orderId = ''o1'', xr_amountMinor = 500, xr_currency = ''USD'', xr_status = Outcome SUBMITTED,
     xr_providerRefundId = Some ''r9'', xr_createdAt = 0, xr_updatedAt = 0, xr_statusEnteredAt = 0 \<rparr>"

definition sample_db :: RefundDb where
  "sample_db = \<lparr> db_executions = [sample_row], db_provider_events = [], db_audit_events = [] \<rparr>"

definition sample_event :: RefundProviderOutcome where
  "sample_event = \<lparr> po_eventId = ''e1'', po_providerRefundId = ''r9'', po_outcome = COMPLETED, po_occurredAt = ''2026-01-01T00:00:00.000Z'' \<rparr>"

lemma sample_db_ok: "pg_ok sample_db"
  by (simp add: pg_ok_def sample_db_def)

lemma sample_event_accepted: "\<exists>db'. pg_recordProviderRefundEvent (\<lambda>_. Some 0) sample_db 5 sample_event = Inr (db', ACCEPTED_EVENT)"
  by (simp add: pg_recordProviderRefundEvent_def sample_db_def sample_row_def sample_event_def Let_def)

theorem provider_event_outbox_witness:
  "\<exists>db'. pg_recordProviderRefundEvent (\<lambda>_. Some 0) sample_db 5 sample_event = Inr (db', ACCEPTED_EVENT)
    \<and> pg_recordProviderRefundEvent (\<lambda>_. Some 0) db' 6 (sample_event\<lparr> po_outcome := PROVIDER_FAILED \<rparr>) = Inr (db', DUPLICATE_EVENT)
    \<and> pg_execution_of db' (''t1'', ''dev'', ''k1'')
        = Some \<lparr> executionId = ''x1'', execution_status = Outcome SUCCEEDED, execution_providerRefundId = Some ''r9'' \<rparr>"
proof -
  obtain db' where d: "pg_recordProviderRefundEvent (\<lambda>_. Some 0) sample_db 5 sample_event = Inr (db', ACCEPTED_EVENT)"
    using sample_event_accepted by blast
  note p = provider_event_outbox [OF sample_db_ok d]
  have "pg_execution_of db' (row_key sample_row) = Some (set_execution (terminal_status COMPLETED) None (toExecution sample_row))"
    using p by (auto simp: sample_db_def sample_row_def sample_event_def is_terminal_def)
  then have "pg_execution_of db' (''t1'', ''dev'', ''k1'')
      = Some \<lparr> executionId = ''x1'', execution_status = Outcome SUCCEEDED, execution_providerRefundId = Some ''r9'' \<rparr>"
    by (simp add: sample_row_def row_key_def set_execution_def toExecution_def terminal_status_def)
  with d p [of 6 "po_providerRefundId sample_event" "po_occurredAt sample_event" PROVIDER_FAILED] show ?thesis by simp
qed

end
