(* ===== verification/Access_Assertions.thy ===== *)
theory Access_Assertions
  imports Zod Workflow_Data "HOL-Library.Monad_Syntax"
begin

text \<open>
  The signed assertions with which the services trust each other, and who may do what: the signers
  \<^verbatim>\<open>workflow-workers/src/workflow-access-assertion.ts\<close>, \<^verbatim>\<open>edge-api/src/context-assertion.ts\<close>,
  \<^verbatim>\<open>edge-api/src/refund-evidence-client.ts\<close> (its signer) and \<^verbatim>\<open>edge-api/src/local-customer-auth.ts\<close>,
  and the verifiers \<^verbatim>\<open>workflow-access.ts\<close> and \<^verbatim>\<open>trusted-context.ts\<close> of the integration gateway,
  \<^verbatim>\<open>workflow-access.ts\<close>, \<^verbatim>\<open>human-access.ts\<close> and \<^verbatim>\<open>refund-evidence-access.ts\<close> of human operations, and
  \<^verbatim>\<open>trusted-context.ts\<close> and \<^verbatim>\<open>service-assertion.ts\<close> of the conversation runtime.

  The library \<^verbatim>\<open>jose\<close> is a parameter: \<^verbatim>\<open>sign key typ payload\<close> is a token, and
  \<^verbatim>\<open>jwtVerify key issuer audience typ now token\<close> is its payload or throws. What the services rely on
  is \<^verbatim>\<open>jose_ok\<close>: a token signed with the key and the type, whose issuer and audience are the
  expected ones and which has not expired, verifies to its payload. Times are milliseconds.
\<close>

type_synonym signer = "string \<Rightarrow> string \<Rightarrow> json \<Rightarrow> string"
type_synonym jwt_verifier = "string \<Rightarrow> string \<Rightarrow> string \<Rightarrow> string \<Rightarrow> int \<Rightarrow> string \<Rightarrow> json result"

definition jose_ok :: "signer \<Rightarrow> jwt_verifier \<Rightarrow> string \<Rightarrow> string \<Rightarrow> json \<Rightarrow> bool" where
  "jose_ok sign jwtVerify key typ payload \<longleftrightarrow>
     (\<forall>issuer audience now e. get_prop ''iss'' payload = JStr issuer \<longrightarrow> get_prop ''aud'' payload = JStr audience
        \<longrightarrow> get_prop ''exp'' payload = JNum e \<longrightarrow> now div 1000 < e
        \<longrightarrow> jwtVerify key issuer audience typ now (sign key typ payload) = Inr payload)"

text \<open>\<^verbatim>\<open>Buffer.byteLength(secret, 'utf8')\<close>: code units from 128 take two bytes.\<close>

definition utf8_length :: "string \<Rightarrow> nat" where
  "utf8_length s = sum_list (map (\<lambda>c. if (of_char c :: nat) < 128 then 1 else 2) s)"

text \<open>A nested object with exactly known keys.\<close>

definition z_object :: "string list \<Rightarrow> json \<Rightarrow> json option" where
  "z_object ks v = (if z_strict ks v then Some v else None)"

text \<open>
  The shape every verifier has: no assertion, an empty or an oversized one, a token that does not
  verify, claims outside the schema and claims that fail the checks all end in the one error.
\<close>

definition checked :: "js_error \<Rightarrow> (string \<Rightarrow> json result) \<Rightarrow> (json \<Rightarrow> 'a option) \<Rightarrow> string option \<Rightarrow> 'a result" where
  "checked err verify accept assertion =
     (case assertion of None \<Rightarrow> Inl err | Some token \<Rightarrow>
        if token = [] \<or> length token > 8192 then Inl err
        else (case verify token of Inl _ \<Rightarrow> Inl err
              | Inr payload \<Rightarrow> (case accept payload of None \<Rightarrow> Inl err | Some a \<Rightarrow> Inr a)))"

section \<open>Workflow access: from the workers to the gateway and to human operations\<close>

datatype Purpose = P_refund_fact_refresh | P_refund_execute | P_refund_reconcile | P_human_case_open | P_human_case_close
  | P_refund_evidence_open | P_refund_evidence_read | P_human_case_transition | P_refund_evidence_upload | P_refund_evidence_content

definition purpose_string :: "Purpose \<Rightarrow> string" where
  "purpose_string p = (case p of P_refund_fact_refresh \<Rightarrow> ''refund_fact_refresh'' | P_refund_execute \<Rightarrow> ''refund_execute''
     | P_refund_reconcile \<Rightarrow> ''refund_reconcile'' | P_human_case_open \<Rightarrow> ''human_case_open'' | P_human_case_close \<Rightarrow> ''human_case_close''
     | P_refund_evidence_open \<Rightarrow> ''refund_evidence_open'' | P_refund_evidence_read \<Rightarrow> ''refund_evidence_read''
     | P_human_case_transition \<Rightarrow> ''human_case_transition'' | P_refund_evidence_upload \<Rightarrow> ''refund_evidence_upload''
     | P_refund_evidence_content \<Rightarrow> ''refund_evidence_content'')"

definition purpose_enum :: "Purpose list \<Rightarrow> json \<Rightarrow> Purpose option" where
  "purpose_enum ps v = z_enum (map (\<lambda>p. (purpose_string p, p)) ps) v"

record WorkflowAccessAssertionInput =
  wi_workflowId :: string
  wi_access :: WorkflowJourneyAccess
  wi_purpose :: Purpose

definition workflow_claims :: "string \<Rightarrow> string \<Rightarrow> int \<Rightarrow> int \<Rightarrow> WorkflowAccessAssertionInput \<Rightarrow> json" where
  "workflow_claims issuer audience issuedAt lifetimeSeconds input =
     (let access = wi_access input in JObj [
        (''accessVersion'', JStr ''1''), (''workflow'', JObj [(''workflowId'', JStr (wi_workflowId input))]),
        (''tenant'', JObj [(''tenantId'', JStr (tenantId access)), (''environmentId'', JStr (environmentId access))]),
        (''subject'', JObj [(''customerId'', JStr (subjectCustomerId access))]),
        (''purpose'', JStr (purpose_string (wi_purpose input))),
        (''request'', JObj [(''requestId'', JStr (requestId access)), (''traceId'', JStr (traceId access))]),
        (''iss'', JStr issuer), (''aud'', JStr audience), (''iat'', JNum issuedAt), (''exp'', JNum (issuedAt + lifetimeSeconds))])"

definition access_ids_ok :: "WorkflowJourneyAccess \<Rightarrow> bool" where
  "access_ids_ok a \<longleftrightarrow> opaque_id_upto 160 (tenantId a) \<and> opaque_id_upto 160 (environmentId a) \<and> opaque_id_upto 160 (subjectCustomerId a)
     \<and> opaque_id_upto 160 (requestId a) \<and> opaque_id_upto 160 (traceId a)"

definition createHmacWorkflowAccessAssertionSigner ::
  "signer \<Rightarrow> string \<Rightarrow> string \<Rightarrow> string \<Rightarrow> int \<Rightarrow> (int \<Rightarrow> WorkflowAccessAssertionInput \<Rightarrow> string result) result" where
  "createHmacWorkflowAccessAssertionSigner sign secret issuer audience lifetimeSeconds =
     (if utf8_length secret < 32 then Inl (Error ''Workflow access assertion secret must contain at least 32 bytes'')
      else if lifetimeSeconds < 1 \<or> lifetimeSeconds > 300
        then Inl (Error ''Workflow access assertion lifetime must be between 1 and 300 seconds'')
      else Inr (\<lambda>now input.
        if \<not> access_ids_ok (wi_access input) \<or> \<not> opaque_id_upto 160 (wi_workflowId input) then Inl ZodError
        else Inr (sign secret ''cso-workflow+jwt'' (workflow_claims issuer audience (now div 1000) lifetimeSeconds input))))"

record AccessClaims =
  cl_workflowId :: string
  cl_tenantId :: string
  cl_environmentId :: string
  cl_customerId :: string
  cl_purpose :: Purpose
  cl_requestId :: string
  cl_traceId :: string
  cl_iat :: int
  cl_exp :: int

text \<open>The claims schema: the gateway's, that of the cases and that of the evidence differ in three pieces.\<close>

definition access_claims :: "(json \<Rightarrow> string option) \<Rightarrow> Purpose list \<Rightarrow> (json \<Rightarrow> string option) \<Rightarrow> json \<Rightarrow> AccessClaims option" where
  "access_claims workflow_id purposes party payload =
     do {
       v \<leftarrow> z_object [''accessVersion'', ''workflow'', ''tenant'', ''subject'', ''purpose'', ''request'', ''iss'', ''aud'', ''iat'', ''exp''] payload;
       _ \<leftarrow> z_literal ''1'' (get_prop ''accessVersion'' v);
       wf \<leftarrow> z_object [''workflowId''] (get_prop ''workflow'' v);
       workflowId \<leftarrow> workflow_id (get_prop ''workflowId'' wf);
       tenant \<leftarrow> z_object [''tenantId'', ''environmentId''] (get_prop ''tenant'' v);
       tid \<leftarrow> opaqueId (get_prop ''tenantId'' tenant);
       eid \<leftarrow> opaqueId (get_prop ''environmentId'' tenant);
       subject \<leftarrow> z_object [''customerId''] (get_prop ''subject'' v);
       cid \<leftarrow> opaqueId (get_prop ''customerId'' subject);
       purpose \<leftarrow> purpose_enum purposes (get_prop ''purpose'' v);
       request \<leftarrow> z_object [''requestId'', ''traceId''] (get_prop ''request'' v);
       rid \<leftarrow> opaqueId (get_prop ''requestId'' request);
       trace \<leftarrow> opaqueId (get_prop ''traceId'' request);
       _ \<leftarrow> party (get_prop ''iss'' v);
       _ \<leftarrow> party (get_prop ''aud'' v);
       iat \<leftarrow> z_int_min 0 (get_prop ''iat'' v);
       ex \<leftarrow> z_int_min 1 (get_prop ''exp'' v);
       Some \<lparr> cl_workflowId = workflowId, cl_tenantId = tid, cl_environmentId = eid, cl_customerId = cid, cl_purpose = purpose,
         cl_requestId = rid, cl_traceId = trace, cl_iat = iat, cl_exp = ex \<rparr>
     }"

definition workflowAccessClaimsSchema :: "json \<Rightarrow> AccessClaims option" where
  "workflowAccessClaimsSchema = access_claims opaqueId [P_refund_fact_refresh, P_refund_execute, P_refund_reconcile] (z_string_max 200)"

record OrderAccessContext =
  ac_contextId :: string
  ac_tenantId :: string
  ac_environmentId :: string
  ac_subjectCustomerId :: string
  ac_routingEpoch :: int
  ac_requestId :: string
  ac_traceId :: string

record VerifierOptions =
  opt_secret :: string
  opt_issuer :: string
  opt_audience :: string
  opt_tenantId :: string
  opt_environmentId :: string

definition workflow_access_accept :: "VerifierOptions \<Rightarrow> Purpose \<Rightarrow> int \<Rightarrow> json \<Rightarrow> OrderAccessContext option" where
  "workflow_access_accept opts expectedPurpose now payload =
     do {
       claims \<leftarrow> workflowAccessClaimsSchema payload;
       (if cl_tenantId claims \<noteq> opt_tenantId opts \<or> cl_environmentId claims \<noteq> opt_environmentId opts
           \<or> cl_iat claims > now div 1000 + 30 \<or> cl_exp claims \<le> now div 1000 \<or> cl_exp claims \<le> cl_iat claims
           \<or> cl_exp claims - cl_iat claims > 300 \<or> cl_purpose claims \<noteq> expectedPurpose
        then None
        else Some \<lparr> ac_contextId = cl_workflowId claims, ac_tenantId = cl_tenantId claims,
               ac_environmentId = cl_environmentId claims, ac_subjectCustomerId = cl_customerId claims, ac_routingEpoch = 1,
               ac_requestId = cl_requestId claims, ac_traceId = cl_traceId claims \<rparr>)
     }"

text \<open>The verifier of the gateway for one purpose.\<close>

definition createHmacWorkflowAccessAssertionVerifier ::
  "jwt_verifier \<Rightarrow> VerifierOptions \<Rightarrow> Purpose \<Rightarrow> (int \<Rightarrow> string option \<Rightarrow> OrderAccessContext result) result" where
  "createHmacWorkflowAccessAssertionVerifier jwtVerify opts expectedPurpose =
     (if utf8_length (opt_secret opts) < 32 then Inl (Error ''Workflow access assertion secret must contain at least 32 bytes'')
      else Inr (\<lambda>now. checked (Error ''WORKFLOW_ACCESS_UNAUTHORIZED'')
        (jwtVerify (opt_secret opts) (opt_issuer opts) (opt_audience opts) ''cso-workflow+jwt'' now)
        (workflow_access_accept opts expectedPurpose now)))"

record WorkflowCaseAccess =
  wa_workflowId :: string
  wa_tenantId :: string
  wa_environmentId :: string
  wa_subjectCustomerId :: string
  wa_purpose :: Purpose

definition case_claimsSchema :: "json \<Rightarrow> AccessClaims option" where
  "case_claimsSchema = access_claims (z_regex (opaque_id_upto 200))
     [P_human_case_open, P_human_case_close, P_refund_evidence_open, P_refund_evidence_read, P_human_case_transition] (z_string_max 200)"

definition case_access_accept :: "VerifierOptions \<Rightarrow> Purpose \<Rightarrow> int \<Rightarrow> json \<Rightarrow> WorkflowCaseAccess option" where
  "case_access_accept opts purpose now payload =
     do {
       claims \<leftarrow> case_claimsSchema payload;
       (if cl_tenantId claims \<noteq> opt_tenantId opts \<or> cl_environmentId claims \<noteq> opt_environmentId opts
           \<or> cl_purpose claims \<noteq> purpose \<or> cl_iat claims > now div 1000 + 30 \<or> cl_exp claims \<le> now div 1000
           \<or> cl_exp claims - cl_iat claims > 60
        then None
        else Some \<lparr> wa_workflowId = cl_workflowId claims, wa_tenantId = cl_tenantId claims,
               wa_environmentId = cl_environmentId claims, wa_subjectCustomerId = cl_customerId claims, wa_purpose = cl_purpose claims \<rparr>)
     }"

text \<open>The verifier of human operations; the purpose is given with each call.\<close>

definition createWorkflowCaseAccessVerifier ::
  "jwt_verifier \<Rightarrow> VerifierOptions \<Rightarrow> (int \<Rightarrow> string option \<Rightarrow> Purpose \<Rightarrow> WorkflowCaseAccess result) result" where
  "createWorkflowCaseAccessVerifier jwtVerify opts =
     (if utf8_length (opt_secret opts) < 32 then Inl (Error ''Workflow assertion secret must contain at least 32 bytes'')
      else Inr (\<lambda>now assertion purpose. checked (Error ''WORKFLOW_UNAUTHORIZED'')
        (jwtVerify (opt_secret opts) (opt_issuer opts) (opt_audience opts) ''cso-workflow+jwt'' now)
        (case_access_accept opts purpose now) assertion))"

section \<open>Evidence access: from the edge to human operations\<close>

record AuthenticatedCustomer =
  id_principalId :: string
  id_tenantId :: string
  id_environmentId :: string
  id_customerId :: string

definition identity_ids_ok :: "AuthenticatedCustomer \<Rightarrow> bool" where
  "identity_ids_ok i \<longleftrightarrow> opaque_id_upto 160 (id_principalId i) \<and> opaque_id_upto 160 (id_tenantId i)
     \<and> opaque_id_upto 160 (id_environmentId i) \<and> opaque_id_upto 160 (id_customerId i)"

record EvidenceRequestContext =
  erc_workflowId :: string
  erc_identity :: AuthenticatedCustomer
  erc_requestId :: string
  erc_traceId :: string

definition evidence_purposes :: "Purpose list" where
  "evidence_purposes = [P_refund_evidence_read, P_refund_evidence_upload, P_refund_evidence_content]"

definition evidence_claims :: "string \<Rightarrow> int \<Rightarrow> EvidenceRequestContext \<Rightarrow> Purpose \<Rightarrow> json" where
  "evidence_claims issuer issuedAt input purpose =
     workflow_claims issuer ''human-operations-evidence'' issuedAt 60
       \<lparr> wi_workflowId = erc_workflowId input,
         wi_access = \<lparr> tenantId = id_tenantId (erc_identity input), environmentId = id_environmentId (erc_identity input),
           subjectCustomerId = id_customerId (erc_identity input), requestId = erc_requestId input, traceId = erc_traceId input \<rparr>,
         wi_purpose = purpose \<rparr>"

definition createEvidenceAssertionSigner ::
  "signer \<Rightarrow> string \<Rightarrow> string \<Rightarrow> (int \<Rightarrow> EvidenceRequestContext \<Rightarrow> Purpose \<Rightarrow> string result) result" where
  "createEvidenceAssertionSigner sign secret issuer =
     (if utf8_length secret < 32 then Inl (Error ''Evidence assertion secret must contain at least 32 bytes'')
      else Inr (\<lambda>now input purpose.
        if \<not> identity_ids_ok (erc_identity input) then Inl ZodError
        else if id_principalId (erc_identity input) \<noteq> id_customerId (erc_identity input)
          then Inl (Error ''Evidence self-service identity mismatch'')
        else if \<not> opaque_id_upto 200 (erc_workflowId input) \<or> purpose \<notin> set evidence_purposes
               \<or> \<not> opaque_id_upto 160 (erc_requestId input) \<or> \<not> opaque_id_upto 160 (erc_traceId input)
          then Inl ZodError
        else Inr (sign secret ''cso-evidence+jwt'' (evidence_claims issuer (now div 1000) input purpose))))"

definition evidence_claimsSchema :: "json \<Rightarrow> AccessClaims option" where
  "evidence_claimsSchema = access_claims (z_regex (opaque_id_upto 200)) evidence_purposes z_string"

record CustomerEvidenceAccess =
  ce_tenantId :: string
  ce_environmentId :: string
  ce_subjectCustomerId :: string
  ce_workflowId :: string

definition evidence_access_accept :: "VerifierOptions \<Rightarrow> Purpose \<Rightarrow> int \<Rightarrow> json \<Rightarrow> CustomerEvidenceAccess option" where
  "evidence_access_accept opts purpose now payload =
     do {
       claims \<leftarrow> evidence_claimsSchema payload;
       (if cl_purpose claims \<noteq> purpose \<or> cl_tenantId claims \<noteq> opt_tenantId opts \<or> cl_environmentId claims \<noteq> opt_environmentId opts
           \<or> cl_iat claims > now div 1000 + 30 \<or> cl_exp claims \<le> now div 1000 \<or> cl_exp claims \<le> cl_iat claims
           \<or> cl_exp claims - cl_iat claims > 60
        then None
        else Some \<lparr> ce_tenantId = cl_tenantId claims, ce_environmentId = cl_environmentId claims,
               ce_subjectCustomerId = cl_customerId claims, ce_workflowId = cl_workflowId claims \<rparr>)
     }"

definition createEvidenceAccessVerifier ::
  "jwt_verifier \<Rightarrow> VerifierOptions \<Rightarrow> (int \<Rightarrow> string option \<Rightarrow> Purpose \<Rightarrow> CustomerEvidenceAccess result) result" where
  "createEvidenceAccessVerifier jwtVerify opts =
     (if utf8_length (opt_secret opts) < 32 then Inl (Error ''INVALID_EVIDENCE_AUTH_CONFIG'')
      else Inr (\<lambda>now assertion purpose. checked (Error ''EVIDENCE_UNAUTHORIZED'')
        (jwtVerify (opt_secret opts) (opt_issuer opts) ''human-operations-evidence'' ''cso-evidence+jwt'' now)
        (evidence_access_accept opts purpose now) assertion))"

section \<open>Customer context: from the edge to the gateway and the conversation runtime\<close>

record ContextAssertionInput =
  ci_identity :: AuthenticatedCustomer
  ci_requestId :: string
  ci_traceId :: string
  ci_channelId :: string

text \<open>\<^verbatim>\<open>contextAssertionInputSchema\<close> with its refinement: the principal is the customer.\<close>

definition contextAssertionInputSchema :: "ContextAssertionInput \<Rightarrow> bool" where
  "contextAssertionInputSchema i \<longleftrightarrow> identity_ids_ok (ci_identity i) \<and> opaque_id_upto 160 (ci_requestId i)
     \<and> opaque_id_upto 160 (ci_traceId i) \<and> opaque_id_upto 160 (ci_channelId i)
     \<and> id_principalId (ci_identity i) = id_customerId (ci_identity i)"

record Route =
  homeRegion :: string
  homeCell :: string
  routingEpoch :: int

definition route_ok :: "Route \<Rightarrow> bool" where
  "route_ok r \<longleftrightarrow> opaque_id_upto 160 (homeRegion r) \<and> opaque_id_upto 160 (homeCell r) \<and> 1 \<le> routingEpoch r \<and> isSafeInteger (routingEpoch r)"

definition sha256_hex_ok :: "string \<Rightarrow> bool" where
  "sha256_hex_ok s \<longleftrightarrow> length s = 64 \<and> list_all is_lower_hex s"

definition context_claims :: "string \<Rightarrow> string \<Rightarrow> Route \<Rightarrow> (string \<times> string) option \<Rightarrow> int \<Rightarrow> int \<Rightarrow> string \<Rightarrow> ContextAssertionInput \<Rightarrow> json" where
  "context_claims issuer audience route refundPolicy issuedAt lifetimeSeconds contextId input = JObj ([
     (''contextVersion'', JStr ''1''), (''contextId'', JStr contextId),
     (''tenant'', JObj [(''tenantId'', JStr (id_tenantId (ci_identity input))), (''environmentId'', JStr (id_environmentId (ci_identity input)))]),
     (''actor'', JObj [(''kind'', JStr ''end_customer''), (''principalId'', JStr (id_principalId (ci_identity input)))]),
     (''subject'', JObj [(''customerId'', JStr (id_customerId (ci_identity input)))]),
     (''delegation'', JObj [(''mode'', JStr ''self'')]), (''purpose'', JStr ''customer_support''),
     (''route'', JObj [(''homeRegion'', JStr (homeRegion route)), (''homeCell'', JStr (homeCell route)), (''routingEpoch'', JNum (routingEpoch route))]),
     (''request'', JObj [(''requestId'', JStr (ci_requestId input)), (''traceId'', JStr (ci_traceId input)), (''channelId'', JStr (ci_channelId input))])]
     @ (case refundPolicy of None \<Rightarrow> [] | Some (ver, catalog) \<Rightarrow>
          [(''refundPolicy'', JObj [(''policyVersion'', JStr ver), (''catalogSha256'', JStr catalog)])])
     @ [(''iss'', JStr issuer), (''aud'', JStr audience), (''iat'', JNum issuedAt), (''exp'', JNum (issuedAt + lifetimeSeconds))])"

definition createHmacContextAssertionSigner ::
  "signer \<Rightarrow> string \<Rightarrow> string \<Rightarrow> string \<Rightarrow> Route \<Rightarrow> (string \<times> string) option \<Rightarrow> int
   \<Rightarrow> (int \<Rightarrow> string \<Rightarrow> ContextAssertionInput \<Rightarrow> string result) result" where
  "createHmacContextAssertionSigner sign secret issuer audience route refundPolicy lifetimeSeconds =
     (if utf8_length secret < 32 then Inl (Error ''Context assertion secret must contain at least 32 bytes'')
      else if lifetimeSeconds < 1 \<or> lifetimeSeconds > 300 then Inl (Error ''Context assertion lifetime must be between 1 and 300 seconds'')
      else if \<not> route_ok route then Inl ZodError
      else if (case refundPolicy of None \<Rightarrow> False | Some (ver, catalog) \<Rightarrow> ver = [] \<or> length ver > 160 \<or> \<not> sha256_hex_ok catalog) then Inl ZodError
      else Inr (\<lambda>now contextId input.
        if \<not> contextAssertionInputSchema input then Inl ZodError
        else Inr (sign secret ''cso-context+jwt'' (context_claims issuer audience route refundPolicy (now div 1000) lifetimeSeconds contextId input))))"

record ContextClaims =
  cx_contextId :: string
  cx_tenantId :: string
  cx_environmentId :: string
  cx_principalId :: string
  cx_customerId :: string
  cx_routingEpoch :: int
  cx_iat :: int
  cx_exp :: int
  cx_requestId :: string
  cx_traceId :: string

text \<open>The schema of the integration gateway; the conversation runtime's is the same text.\<close>

definition trustedContextClaimsSchema :: "json \<Rightarrow> ContextClaims option" where
  "trustedContextClaimsSchema payload =
     do {
       v \<leftarrow> z_object [''contextVersion'', ''contextId'', ''tenant'', ''actor'', ''subject'', ''delegation'', ''purpose'', ''route'',
              ''iss'', ''aud'', ''iat'', ''exp'', ''request''] payload;
       _ \<leftarrow> z_literal ''1'' (get_prop ''contextVersion'' v);
       contextId \<leftarrow> opaqueId (get_prop ''contextId'' v);
       tenant \<leftarrow> z_object [''tenantId'', ''environmentId''] (get_prop ''tenant'' v);
       tid \<leftarrow> opaqueId (get_prop ''tenantId'' tenant);
       eid \<leftarrow> opaqueId (get_prop ''environmentId'' tenant);
       actor \<leftarrow> z_object [''kind'', ''principalId''] (get_prop ''actor'' v);
       _ \<leftarrow> z_literal ''end_customer'' (get_prop ''kind'' actor);
       principal \<leftarrow> opaqueId (get_prop ''principalId'' actor);
       subject \<leftarrow> z_object [''customerId''] (get_prop ''subject'' v);
       customer \<leftarrow> opaqueId (get_prop ''customerId'' subject);
       delegation \<leftarrow> z_object [''mode''] (get_prop ''delegation'' v);
       _ \<leftarrow> z_literal ''self'' (get_prop ''mode'' delegation);
       _ \<leftarrow> z_literal ''customer_support'' (get_prop ''purpose'' v);
       route \<leftarrow> z_object [''homeRegion'', ''homeCell'', ''routingEpoch''] (get_prop ''route'' v);
       _ \<leftarrow> opaqueId (get_prop ''homeRegion'' route);
       _ \<leftarrow> opaqueId (get_prop ''homeCell'' route);
       epoch \<leftarrow> z_int_min 1 (get_prop ''routingEpoch'' route);
       _ \<leftarrow> z_string_max 200 (get_prop ''iss'' v);
       _ \<leftarrow> z_string_max 200 (get_prop ''aud'' v);
       iat \<leftarrow> z_int_min 0 (get_prop ''iat'' v);
       ex \<leftarrow> z_int_min 1 (get_prop ''exp'' v);
       request \<leftarrow> z_object [''requestId'', ''traceId'', ''channelId''] (get_prop ''request'' v);
       rid \<leftarrow> opaqueId (get_prop ''requestId'' request);
       trace \<leftarrow> opaqueId (get_prop ''traceId'' request);
       _ \<leftarrow> opaqueId (get_prop ''channelId'' request);
       Some \<lparr> cx_contextId = contextId, cx_tenantId = tid, cx_environmentId = eid, cx_principalId = principal, cx_customerId = customer,
         cx_routingEpoch = epoch, cx_iat = iat, cx_exp = ex, cx_requestId = rid, cx_traceId = trace \<rparr>
     }"

definition context_accept :: "VerifierOptions \<Rightarrow> int \<Rightarrow> json \<Rightarrow> OrderAccessContext option" where
  "context_accept opts now payload =
     do {
       claims \<leftarrow> trustedContextClaimsSchema payload;
       (if cx_tenantId claims \<noteq> opt_tenantId opts \<or> cx_environmentId claims \<noteq> opt_environmentId opts
           \<or> cx_principalId claims \<noteq> cx_customerId claims
           \<or> cx_iat claims > now div 1000 + 30 \<or> cx_exp claims \<le> now div 1000 \<or> cx_exp claims \<le> cx_iat claims
           \<or> cx_exp claims - cx_iat claims > 300
        then None
        else Some \<lparr> ac_contextId = cx_contextId claims, ac_tenantId = cx_tenantId claims, ac_environmentId = cx_environmentId claims,
               ac_subjectCustomerId = cx_customerId claims, ac_routingEpoch = cx_routingEpoch claims,
               ac_requestId = cx_requestId claims, ac_traceId = cx_traceId claims \<rparr>)
     }"

definition createHmacContextAssertionVerifier ::
  "jwt_verifier \<Rightarrow> VerifierOptions \<Rightarrow> (int \<Rightarrow> string option \<Rightarrow> OrderAccessContext result) result" where
  "createHmacContextAssertionVerifier jwtVerify opts =
     (if utf8_length (opt_secret opts) < 32 then Inl (Error ''Context assertion secret must contain at least 32 bytes'')
      else Inr (\<lambda>now. checked (Error ''Trusted context assertion is invalid'')
        (jwtVerify (opt_secret opts) (opt_issuer opts) (opt_audience opts) ''cso-context+jwt'' now)
        (context_accept opts now)))"

section \<open>Service assertions: from the edge to the conversation runtime\<close>

definition service_claims :: "string \<Rightarrow> string \<Rightarrow> int \<Rightarrow> int \<Rightarrow> int \<Rightarrow> ContextAssertionInput \<Rightarrow> json" where
  "service_claims issuer audience epoch issuedAt lifetimeSeconds input = JObj [
     (''tenantId'', JStr (id_tenantId (ci_identity input))), (''environmentId'', JStr (id_environmentId (ci_identity input))),
     (''subjectCustomerId'', JStr (id_customerId (ci_identity input))), (''requestId'', JStr (ci_requestId input)),
     (''traceId'', JStr (ci_traceId input)), (''routingEpoch'', JNum epoch), (''purpose'', JStr ''conversation_assistant_message''),
     (''iss'', JStr issuer), (''aud'', JStr audience), (''iat'', JNum issuedAt), (''exp'', JNum (issuedAt + lifetimeSeconds))]"

definition createHmacServiceAssertionSigner ::
  "signer \<Rightarrow> string \<Rightarrow> string \<Rightarrow> string \<Rightarrow> int \<Rightarrow> int \<Rightarrow> (int \<Rightarrow> AuthenticatedCustomer \<Rightarrow> string \<Rightarrow> string \<Rightarrow> string result) result" where
  "createHmacServiceAssertionSigner sign secret issuer audience epoch lifetimeSeconds =
     (if utf8_length secret < 32 then Inl (Error ''Service assertion secret must contain at least 32 bytes'')
      else if lifetimeSeconds < 1 \<or> lifetimeSeconds > 300 then Inl (Error ''Service assertion lifetime must be between 1 and 300 seconds'')
      else if epoch < 1 \<or> \<not> isSafeInteger epoch then Inl ZodError
      else Inr (\<lambda>now identity reqId trace.
        let input = \<lparr> ci_identity = identity, ci_requestId = reqId, ci_traceId = trace, ci_channelId = ''internal'' \<rparr> in
        if \<not> contextAssertionInputSchema input then Inl ZodError
        else Inr (sign secret ''cso-service+jwt'' (service_claims issuer audience epoch (now div 1000) lifetimeSeconds input))))"

record ServiceAccess =
  sa_tenantId :: string
  sa_environmentId :: string
  sa_subjectCustomerId :: string
  sa_routingEpoch :: int
  sa_requestId :: string
  sa_traceId :: string

definition serviceAssertionClaimsSchema :: "json \<Rightarrow> (ServiceAccess \<times> int \<times> int) option" where
  "serviceAssertionClaimsSchema payload =
     do {
       v \<leftarrow> z_object [''tenantId'', ''environmentId'', ''subjectCustomerId'', ''requestId'', ''traceId'', ''routingEpoch'', ''purpose'',
              ''iss'', ''aud'', ''iat'', ''exp''] payload;
       tid \<leftarrow> opaqueId (get_prop ''tenantId'' v);
       eid \<leftarrow> opaqueId (get_prop ''environmentId'' v);
       customer \<leftarrow> opaqueId (get_prop ''subjectCustomerId'' v);
       rid \<leftarrow> opaqueId (get_prop ''requestId'' v);
       trace \<leftarrow> opaqueId (get_prop ''traceId'' v);
       epoch \<leftarrow> z_int_min 1 (get_prop ''routingEpoch'' v);
       _ \<leftarrow> z_literal ''conversation_assistant_message'' (get_prop ''purpose'' v);
       _ \<leftarrow> z_string_max 200 (get_prop ''iss'' v);
       _ \<leftarrow> z_string_max 200 (get_prop ''aud'' v);
       iat \<leftarrow> z_int_min 0 (get_prop ''iat'' v);
       ex \<leftarrow> z_int_min 1 (get_prop ''exp'' v);
       Some (\<lparr> sa_tenantId = tid, sa_environmentId = eid, sa_subjectCustomerId = customer, sa_routingEpoch = epoch,
         sa_requestId = rid, sa_traceId = trace \<rparr>, iat, ex)
     }"

definition service_accept :: "VerifierOptions \<Rightarrow> int \<Rightarrow> json \<Rightarrow> ServiceAccess option" where
  "service_accept opts now payload =
     do {
       (access, iat, ex) \<leftarrow> serviceAssertionClaimsSchema payload;
       (if sa_tenantId access \<noteq> opt_tenantId opts \<or> sa_environmentId access \<noteq> opt_environmentId opts
           \<or> iat > now div 1000 + 30 \<or> ex \<le> now div 1000 \<or> ex \<le> iat \<or> ex - iat > 300
        then None else Some access)
     }"

definition createHmacServiceAssertionVerifier ::
  "jwt_verifier \<Rightarrow> VerifierOptions \<Rightarrow> (int \<Rightarrow> string option \<Rightarrow> ServiceAccess result) result" where
  "createHmacServiceAssertionVerifier jwtVerify opts =
     (if utf8_length (opt_secret opts) < 32 then Inl (Error ''Service assertion secret must contain at least 32 bytes'')
      else Inr (\<lambda>now. checked (Error ''Service assertion is invalid'')
        (jwtVerify (opt_secret opts) (opt_issuer opts) (opt_audience opts) ''cso-service+jwt'' now)
        (service_accept opts now)))"

section \<open>Local customer tokens and staff assertions\<close>

definition MAX_LOCAL_CUSTOMER_TOKEN_LIFETIME_SECONDS :: int where
  "MAX_LOCAL_CUSTOMER_TOKEN_LIFETIME_SECONDS = 7 * 24 * 60 * 60"

definition customer_claims :: "string \<Rightarrow> string \<Rightarrow> int \<Rightarrow> int \<Rightarrow> AuthenticatedCustomer \<Rightarrow> json" where
  "customer_claims issuer audience issuedAt lifetimeSeconds i = JObj [
     (''tenantId'', JStr (id_tenantId i)), (''environmentId'', JStr (id_environmentId i)), (''customerId'', JStr (id_customerId i)),
     (''iss'', JStr issuer), (''aud'', JStr audience), (''sub'', JStr (id_principalId i)),
     (''iat'', JNum issuedAt), (''exp'', JNum (issuedAt + lifetimeSeconds))]"

definition signLocalCustomerAccessToken ::
  "signer \<Rightarrow> string \<Rightarrow> string \<Rightarrow> string \<Rightarrow> AuthenticatedCustomer \<Rightarrow> int \<Rightarrow> int \<Rightarrow> string result" where
  "signLocalCustomerAccessToken sign secret issuer audience identity lifetimeSeconds now =
     (if \<not> identity_ids_ok identity then Inl ZodError
      else if lifetimeSeconds < 1 \<or> lifetimeSeconds > MAX_LOCAL_CUSTOMER_TOKEN_LIFETIME_SECONDS
        then Inl (Error ''Local customer token lifetime must be between 1 and 604800 seconds'')
      else if utf8_length secret < 32 then Inl (Error ''Local authentication secret must contain at least 32 bytes'')
      else Inr (sign secret ''cso-local-customer+jwt'' (customer_claims issuer audience (now div 1000) lifetimeSeconds identity)))"

definition localCustomerClaimsSchema :: "json \<Rightarrow> (AuthenticatedCustomer \<times> int \<times> int) option" where
  "localCustomerClaimsSchema payload =
     do {
       v \<leftarrow> z_object [''iss'', ''aud'', ''sub'', ''iat'', ''exp'', ''tenantId'', ''environmentId'', ''customerId''] payload;
       _ \<leftarrow> z_string_max 200 (get_prop ''iss'' v);
       _ \<leftarrow> z_string_max 200 (get_prop ''aud'' v);
       principal \<leftarrow> opaqueId (get_prop ''sub'' v);
       iat \<leftarrow> z_int_min 0 (get_prop ''iat'' v);
       ex \<leftarrow> z_int_min 1 (get_prop ''exp'' v);
       tid \<leftarrow> opaqueId (get_prop ''tenantId'' v);
       eid \<leftarrow> opaqueId (get_prop ''environmentId'' v);
       customer \<leftarrow> opaqueId (get_prop ''customerId'' v);
       Some (\<lparr> id_principalId = principal, id_tenantId = tid, id_environmentId = eid, id_customerId = customer \<rparr>, iat, ex)
     }"

definition customer_accept :: "VerifierOptions \<Rightarrow> int \<Rightarrow> json \<Rightarrow> AuthenticatedCustomer option" where
  "customer_accept opts now payload =
     do {
       (identity, iat, ex) \<leftarrow> localCustomerClaimsSchema payload;
       (if id_tenantId identity \<noteq> opt_tenantId opts \<or> id_environmentId identity \<noteq> opt_environmentId opts
           \<or> id_principalId identity \<noteq> id_customerId identity
           \<or> iat > now div 1000 + 30 \<or> ex \<le> now div 1000 \<or> ex \<le> iat \<or> ex - iat > MAX_LOCAL_CUSTOMER_TOKEN_LIFETIME_SECONDS
        then None else Some identity)
     }"

definition createLocalCustomerIdentityVerifier ::
  "jwt_verifier \<Rightarrow> VerifierOptions \<Rightarrow> (int \<Rightarrow> string option \<Rightarrow> AuthenticatedCustomer result) result" where
  "createLocalCustomerIdentityVerifier jwtVerify opts =
     (if utf8_length (opt_secret opts) < 32 then Inl (Error ''Local authentication secret must contain at least 32 bytes'')
      else Inr (\<lambda>now. checked (Error ''Customer authentication is invalid'')
        (jwtVerify (opt_secret opts) (opt_issuer opts) (opt_audience opts) ''cso-local-customer+jwt'' now)
        (customer_accept opts now)))"

datatype StaffRole = REFUND_APPROVER | REFUND_SUPERVISOR

record HumanAccess =
  ha_staffId :: string
  ha_tenantId :: string
  ha_environmentId :: string
  ha_role :: StaffRole

definition human_claimsSchema :: "json \<Rightarrow> HumanAccess option" where
  "human_claimsSchema payload =
     do {
       v \<leftarrow> z_object [''staffId'', ''tenantId'', ''environmentId'', ''role'', ''iss'', ''aud'', ''iat'', ''exp''] payload;
       staff \<leftarrow> z_string_min1 (get_prop ''staffId'' v);
       tid \<leftarrow> z_string_min1 (get_prop ''tenantId'' v);
       eid \<leftarrow> z_string_min1 (get_prop ''environmentId'' v);
       role \<leftarrow> z_enum [(''REFUND_APPROVER'', REFUND_APPROVER), (''REFUND_SUPERVISOR'', REFUND_SUPERVISOR)] (get_prop ''role'' v);
       _ \<leftarrow> z_string (get_prop ''iss'' v);
       _ \<leftarrow> z_string (get_prop ''aud'' v);
       _ \<leftarrow> z_optional (z_int_min (- MAX_SAFE_INTEGER)) (get_prop ''iat'' v);
       _ \<leftarrow> z_optional (z_int_min (- MAX_SAFE_INTEGER)) (get_prop ''exp'' v);
       Some \<lparr> ha_staffId = staff, ha_tenantId = tid, ha_environmentId = eid, ha_role = role \<rparr>
     }"

definition createHumanAssertionVerifier :: "jwt_verifier \<Rightarrow> VerifierOptions \<Rightarrow> int \<Rightarrow> string option \<Rightarrow> HumanAccess result" where
  "createHumanAssertionVerifier jwtVerify opts now assertion =
     (case assertion of None \<Rightarrow> Inl (Error ''HUMAN_UNAUTHORIZED'') | Some token \<Rightarrow>
        if token = [] then Inl (Error ''HUMAN_UNAUTHORIZED'')
        else (case jwtVerify (opt_secret opts) (opt_issuer opts) (opt_audience opts) ''cso-human+jwt'' now token of
          Inl _ \<Rightarrow> Inl (Error ''HUMAN_UNAUTHORIZED'')
        | Inr payload \<Rightarrow> (case human_claimsSchema payload of
            None \<Rightarrow> Inl (Error ''HUMAN_UNAUTHORIZED'')
          | Some claims \<Rightarrow> if ha_tenantId claims \<noteq> opt_tenantId opts \<or> ha_environmentId claims \<noteq> opt_environmentId opts
              then Inl (Error ''HUMAN_UNAUTHORIZED'') else Inr claims)))"

section \<open>What a signer signs, the verifier reads\<close>

lemma get_prop_JObj: "get_prop k (JObj kvs) = (case map_of kvs k of Some x \<Rightarrow> x | None \<Rightarrow> JUndefined)"
  by (simp add: get_prop_def)

lemma z_object_JObj: "z_object ks (JObj kvs) = (if list_all (\<lambda>k. k \<in> set ks) (map fst kvs) then Some (JObj kvs) else None)"
  by (simp add: z_object_def z_strict_def isRecord_def object_keys_def)

lemma checked_signed:
  assumes "jose_ok sign jwtVerify key typ payload" and "get_prop ''iss'' payload = JStr issuer" and "get_prop ''aud'' payload = JStr audience"
    and "get_prop ''exp'' payload = JNum e" and "now div 1000 < e"
    and "sign key typ payload \<noteq> []" and "length (sign key typ payload) \<le> 8192"
  shows "checked err (jwtVerify key issuer audience typ now) accept (Some (sign key typ payload))
    = (case accept payload of None \<Rightarrow> Inl err | Some a \<Rightarrow> Inr a)"
  using assms by (simp add: checked_def jose_ok_def)

lemma purpose_enum_string: "purpose_enum ps (JStr (purpose_string p)) = (if p \<in> set ps then Some p else None)"
proof -
  have inj: "purpose_string p = purpose_string q \<longleftrightarrow> p = q" for p q
    by (cases p; cases q) (simp_all add: purpose_string_def)
  show ?thesis unfolding purpose_enum_def z_enum_def by (induction ps) (auto simp: inj)
qed

lemma access_claims_workflow:
  assumes "access_ids_ok (wi_access i)" and "wid (JStr (wi_workflowId i)) = Some (wi_workflowId i)"
    and "party (JStr issuer) = Some issuer" and "party (JStr audience) = Some audience"
    and "0 \<le> t" and "1 \<le> life" and "isSafeInteger (t + life)"
  shows "access_claims wid ps party (workflow_claims issuer audience t life i) =
    (if wi_purpose i \<in> set ps then Some
       \<lparr> cl_workflowId = wi_workflowId i, cl_tenantId = tenantId (wi_access i), cl_environmentId = environmentId (wi_access i),
         cl_customerId = subjectCustomerId (wi_access i), cl_purpose = wi_purpose i, cl_requestId = requestId (wi_access i),
         cl_traceId = traceId (wi_access i), cl_iat = t, cl_exp = t + life \<rparr> else None)"
proof -
  have "isSafeInteger t" using assms(5-7) by (simp add: isSafeInteger_def MAX_SAFE_INTEGER_def)
  with assms show ?thesis
    by (simp add: access_claims_def workflow_claims_def Let_def get_prop_JObj z_object_JObj purpose_enum_string access_ids_ok_def)
qed

lemma workflow_claims_props:
  "get_prop ''iss'' (workflow_claims issuer audience t life i) = JStr issuer"
  "get_prop ''aud'' (workflow_claims issuer audience t life i) = JStr audience"
  "get_prop ''exp'' (workflow_claims issuer audience t life i) = JNum (t + life)"
  by (simp_all add: workflow_claims_def Let_def get_prop_JObj)

text \<open>
  Assertions of the refund workers reach the gateway and only there. A token signed for an input
  verifies, while it is valid (up to 30 seconds of clock skew before it was issued, and until it
  expires), to the workflow, customer and request it was signed for, exactly when the verifier
  expects that purpose, tenant and environment; a token for any other purpose is unauthorized.
\<close>

theorem workflow_assertion_roundtrip:
  assumes signer: "createHmacWorkflowAccessAssertionSigner sign secret issuer audience life = Inr signAccess"
    and verifier: "createHmacWorkflowAccessAssertionVerifier jwtVerify opts expected = Inr verify"
    and opts: "opt_secret opts = secret" "opt_issuer opts = issuer" "opt_audience opts = audience"
    and expected: "expected \<in> {P_refund_fact_refresh, P_refund_execute, P_refund_reconcile}"
    and token: "signAccess issuedAt input = Inr token" "token \<noteq> []" "length token \<le> 8192"
    and jose: "jose_ok sign jwtVerify secret ''cso-workflow+jwt'' (workflow_claims issuer audience (issuedAt div 1000) life input)"
    and parties: "issuer \<noteq> []" "length issuer \<le> 200" "audience \<noteq> []" "length audience \<le> 200"
    and clock: "0 \<le> issuedAt div 1000" "isSafeInteger (issuedAt div 1000 + life)"
      "issuedAt div 1000 \<le> now div 1000 + 30" "now div 1000 < issuedAt div 1000 + life"
  shows "verify now (Some token) =
    (if wi_purpose input = expected \<and> tenantId (wi_access input) = opt_tenantId opts \<and> environmentId (wi_access input) = opt_environmentId opts
     then Inr \<lparr> ac_contextId = wi_workflowId input, ac_tenantId = tenantId (wi_access input),
       ac_environmentId = environmentId (wi_access input), ac_subjectCustomerId = subjectCustomerId (wi_access input),
       ac_routingEpoch = 1, ac_requestId = requestId (wi_access input), ac_traceId = traceId (wi_access input) \<rparr>
     else Inl (Error ''WORKFLOW_ACCESS_UNAUTHORIZED''))"
proof -
  let ?p = "workflow_claims issuer audience (issuedAt div 1000) life input"
  have s: "1 \<le> life" "life \<le> 300" "access_ids_ok (wi_access input)" "opaque_id_upto 160 (wi_workflowId input)"
      "token = sign secret ''cso-workflow+jwt'' ?p"
    using signer token(1) by (auto simp: createHmacWorkflowAccessAssertionSigner_def split: if_split_asm)
  note claims = access_claims_workflow [where wid = opaqueId and party = "z_string_max 200", OF s(3) opaqueId_JStr [OF s(4)] z_string_max_JStr [OF parties(1,2)] z_string_max_JStr [OF parties(3,4)]
      clock(1) s(1) clock(2)]
  have "verify now (Some token) = checked (Error ''WORKFLOW_ACCESS_UNAUTHORIZED'') (jwtVerify secret issuer audience ''cso-workflow+jwt'' now)
      (workflow_access_accept opts expected now) (Some (sign secret ''cso-workflow+jwt'' ?p))"
    using verifier opts s(5) by (auto simp: createHmacWorkflowAccessAssertionVerifier_def split: if_split_asm)
  also have "\<dots> = (case workflow_access_accept opts expected now ?p of None \<Rightarrow> Inl (Error ''WORKFLOW_ACCESS_UNAUTHORIZED'') | Some a \<Rightarrow> Inr a)"
    using token(2,3) s(5) by (intro checked_signed [OF jose workflow_claims_props clock(4)]) simp_all
  finally show ?thesis
    using expected s(1,2) clock(3,4) by (auto simp: workflow_access_accept_def workflowAccessClaimsSchema_def claims)
qed

text \<open>
  Assertions of the refund workers reach human operations, whose verifier also refuses every
  token that lives longer than 60 seconds: the workers' default lifetime is the longest it accepts.
\<close>

theorem case_assertion_roundtrip:
  assumes signer: "createHmacWorkflowAccessAssertionSigner sign secret issuer audience life = Inr signAccess"
    and verifier: "createWorkflowCaseAccessVerifier jwtVerify opts = Inr verify"
    and opts: "opt_secret opts = secret" "opt_issuer opts = issuer" "opt_audience opts = audience"
    and token: "signAccess issuedAt input = Inr token" "token \<noteq> []" "length token \<le> 8192"
    and jose: "jose_ok sign jwtVerify secret ''cso-workflow+jwt'' (workflow_claims issuer audience (issuedAt div 1000) life input)"
    and parties: "issuer \<noteq> []" "length issuer \<le> 200" "audience \<noteq> []" "length audience \<le> 200"
    and clock: "0 \<le> issuedAt div 1000" "isSafeInteger (issuedAt div 1000 + life)"
      "issuedAt div 1000 \<le> now div 1000 + 30" "now div 1000 < issuedAt div 1000 + life"
  shows "verify now (Some token) purpose =
    (if life \<le> 60 \<and> wi_purpose input = purpose
        \<and> purpose \<in> {P_human_case_open, P_human_case_close, P_refund_evidence_open, P_refund_evidence_read, P_human_case_transition}
        \<and> tenantId (wi_access input) = opt_tenantId opts \<and> environmentId (wi_access input) = opt_environmentId opts
     then Inr \<lparr> wa_workflowId = wi_workflowId input, wa_tenantId = tenantId (wi_access input),
       wa_environmentId = environmentId (wi_access input), wa_subjectCustomerId = subjectCustomerId (wi_access input), wa_purpose = purpose \<rparr>
     else Inl (Error ''WORKFLOW_UNAUTHORIZED''))"
proof -
  let ?p = "workflow_claims issuer audience (issuedAt div 1000) life input"
  have s: "1 \<le> life" "access_ids_ok (wi_access input)" "opaque_id_upto 160 (wi_workflowId input)"
      "token = sign secret ''cso-workflow+jwt'' ?p"
    using signer token(1) by (auto simp: createHmacWorkflowAccessAssertionSigner_def split: if_split_asm)
  have "opaque_id_upto 200 (wi_workflowId input)" using s(3) by (simp add: opaque_id_upto_def)
  then have w: "z_regex (opaque_id_upto 200) (JStr (wi_workflowId input)) = Some (wi_workflowId input)" by simp
  note claims = access_claims_workflow [where wid = "z_regex (opaque_id_upto 200)" and party = "z_string_max 200", OF s(2) w z_string_max_JStr [OF parties(1,2)] z_string_max_JStr [OF parties(3,4)]
      clock(1) s(1) clock(2)]
  have "verify now (Some token) purpose = checked (Error ''WORKFLOW_UNAUTHORIZED'') (jwtVerify secret issuer audience ''cso-workflow+jwt'' now)
      (case_access_accept opts purpose now) (Some (sign secret ''cso-workflow+jwt'' ?p))"
    using verifier opts s(4) by (auto simp: createWorkflowCaseAccessVerifier_def split: if_split_asm)
  also have "\<dots> = (case case_access_accept opts purpose now ?p of None \<Rightarrow> Inl (Error ''WORKFLOW_UNAUTHORIZED'') | Some a \<Rightarrow> Inr a)"
    using token(2,3) s(4) by (intro checked_signed [OF jose workflow_claims_props clock(4)]) simp_all
  finally show ?thesis
    using clock(3,4) by (auto simp: case_access_accept_def case_claimsSchema_def claims)
qed

lemma context_claims_props:
  "get_prop ''iss'' (context_claims issuer audience route rp t life cid i) = JStr issuer"
  "get_prop ''aud'' (context_claims issuer audience route rp t life cid i) = JStr audience"
  "get_prop ''exp'' (context_claims issuer audience route rp t life cid i) = JNum (t + life)"
  by (simp_all add: context_claims_def get_prop_JObj split: option.split prod.split)

lemma trustedContextClaims_of_signer:
  assumes "contextAssertionInputSchema i" and "route_ok route" and "opaque_id_upto 160 cid"
    and "issuer \<noteq> []" "length issuer \<le> 200" "audience \<noteq> []" "length audience \<le> 200"
    and "0 \<le> t" and "1 \<le> life" and "isSafeInteger (t + life)"
  shows "trustedContextClaimsSchema (context_claims issuer audience route None t life cid i) =
    Some \<lparr> cx_contextId = cid, cx_tenantId = id_tenantId (ci_identity i), cx_environmentId = id_environmentId (ci_identity i),
      cx_principalId = id_principalId (ci_identity i), cx_customerId = id_customerId (ci_identity i), cx_routingEpoch = routingEpoch route,
      cx_iat = t, cx_exp = t + life, cx_requestId = ci_requestId i, cx_traceId = ci_traceId i \<rparr>"
proof -
  have "isSafeInteger t" using assms(8-10) by (simp add: isSafeInteger_def MAX_SAFE_INTEGER_def)
  with assms show ?thesis
    by (simp add: trustedContextClaimsSchema_def context_claims_def get_prop_JObj z_object_JObj
        contextAssertionInputSchema_def identity_ids_ok_def route_ok_def)
qed

lemma trustedContextClaims_refundPolicy:
  "trustedContextClaimsSchema (context_claims issuer audience route (Some pol) t life cid i) = None"
  by (simp add: trustedContextClaimsSchema_def context_claims_def z_object_JObj split: prod.split)

text \<open>
  The customer context the edge signs is what the gateway and the conversation runtime read:
  a valid token of a self-service customer gives back that customer, request and routing epoch in
  the verifier's own tenant and environment, and nothing in another. A token that carries the refund
  policy binding, which the edge signs for the agent runtime only, is refused by both.
\<close>

theorem context_assertion_roundtrip:
  assumes signer: "createHmacContextAssertionSigner sign secret issuer audience route refundPolicy life = Inr signContext"
    and verifier: "createHmacContextAssertionVerifier jwtVerify opts = Inr verify"
    and opts: "opt_secret opts = secret" "opt_issuer opts = issuer" "opt_audience opts = audience"
    and token: "signContext issuedAt contextId input = Inr token" "token \<noteq> []" "length token \<le> 8192"
    and jose: "jose_ok sign jwtVerify secret ''cso-context+jwt'' (context_claims issuer audience route refundPolicy (issuedAt div 1000) life contextId input)"
    and parties: "issuer \<noteq> []" "length issuer \<le> 200" "audience \<noteq> []" "length audience \<le> 200" "opaque_id_upto 160 contextId"
    and clock: "0 \<le> issuedAt div 1000" "isSafeInteger (issuedAt div 1000 + life)"
      "issuedAt div 1000 \<le> now div 1000 + 30" "now div 1000 < issuedAt div 1000 + life"
  shows "verify now (Some token) =
    (if refundPolicy = None \<and> id_tenantId (ci_identity input) = opt_tenantId opts \<and> id_environmentId (ci_identity input) = opt_environmentId opts
     then Inr \<lparr> ac_contextId = contextId, ac_tenantId = opt_tenantId opts, ac_environmentId = opt_environmentId opts,
       ac_subjectCustomerId = id_customerId (ci_identity input), ac_routingEpoch = routingEpoch route,
       ac_requestId = ci_requestId input, ac_traceId = ci_traceId input \<rparr>
     else Inl (Error ''Trusted context assertion is invalid''))"
proof -
  let ?p = "context_claims issuer audience route refundPolicy (issuedAt div 1000) life contextId input"
  have s: "1 \<le> life" "life \<le> 300" "route_ok route" "contextAssertionInputSchema input" "token = sign secret ''cso-context+jwt'' ?p"
    using signer token(1) by (auto simp: createHmacContextAssertionSigner_def split: if_split_asm)
  have same: "id_principalId (ci_identity input) = id_customerId (ci_identity input)" using s(4) by (simp add: contextAssertionInputSchema_def)
  have "verify now (Some token) = checked (Error ''Trusted context assertion is invalid'') (jwtVerify secret issuer audience ''cso-context+jwt'' now)
      (context_accept opts now) (Some (sign secret ''cso-context+jwt'' ?p))"
    using verifier opts s(5) by (auto simp: createHmacContextAssertionVerifier_def split: if_split_asm)
  also have "\<dots> = (case context_accept opts now ?p of None \<Rightarrow> Inl (Error ''Trusted context assertion is invalid'') | Some a \<Rightarrow> Inr a)"
    using token(2,3) s(5) by (intro checked_signed [OF jose context_claims_props clock(4)]) simp_all
  finally show ?thesis
    using s(1,2) same clock(3,4) trustedContextClaims_of_signer [OF s(4,3) parties(5,1-4) clock(1) s(1) clock(2)]
    by (cases refundPolicy) (simp_all add: context_accept_def trustedContextClaims_refundPolicy)
qed

section \<open>Concrete tokens\<close>

definition sample_secret :: string where
  "sample_secret = replicate 32 (CHR ''k'')"

definition sample_opts :: VerifierOptions where
  "sample_opts = \<lparr> opt_secret = sample_secret, opt_issuer = ''edge'', opt_audience = ''gateway'', opt_tenantId = ''t1'', opt_environmentId = ''dev'' \<rparr>"

text \<open>A stand-in for the token library that knows one token.\<close>

definition one_token_sign :: signer where
  "one_token_sign key typ payload = ''token''"

definition one_token_verify :: "json \<Rightarrow> jwt_verifier" where
  "one_token_verify payload key issuer audience typ now token =
     (if token = ''token'' \<and> get_prop ''iss'' payload = JStr issuer \<and> get_prop ''aud'' payload = JStr audience then Inr payload else Inl SyntaxError)"

lemma one_token_jose_ok: "jose_ok one_token_sign (one_token_verify payload) key typ payload"
  by (simp add: jose_ok_def one_token_sign_def one_token_verify_def)

definition sample_journey_access :: WorkflowJourneyAccess where
  "sample_journey_access = \<lparr> tenantId = ''t1'', environmentId = ''dev'', subjectCustomerId = ''c1'', requestId = ''r1'', traceId = ''tr1'' \<rparr>"

definition sample_access_input :: "Purpose \<Rightarrow> WorkflowAccessAssertionInput" where
  "sample_access_input p = \<lparr> wi_workflowId = ''wf1'', wi_access = sample_journey_access, wi_purpose = p \<rparr>"

definition sample_workflow_claims :: "Purpose \<Rightarrow> json" where
  "sample_workflow_claims p = workflow_claims ''edge'' ''gateway'' 1000 60 (sample_access_input p)"

lemma sample_ids:
  "opaque_id_upto 160 ''t1''" "opaque_id_upto 160 ''dev''" "opaque_id_upto 160 ''c1''" "opaque_id_upto 160 ''r1''"
  "opaque_id_upto 160 ''tr1''" "opaque_id_upto 160 ''wf1''" "opaque_id_upto 160 ''web''"
  by code_simp+

lemma sample_secret_length: "utf8_length sample_secret = 32"
  by code_simp

lemma sample_signs:
  assumes "createHmacWorkflowAccessAssertionSigner one_token_sign sample_secret ''edge'' ''gateway'' 60 = Inr signAccess"
  shows "signAccess 1000000 (sample_access_input p) = Inr ''token''"
  using assms by (auto simp: createHmacWorkflowAccessAssertionSigner_def sample_secret_length sample_access_input_def access_ids_ok_def
      sample_journey_access_def sample_ids one_token_sign_def)

theorem workflow_assertion_roundtrip_witness:
  "\<exists>verify. createHmacWorkflowAccessAssertionVerifier (one_token_verify (sample_workflow_claims P_refund_execute)) sample_opts P_refund_execute = Inr verify
    \<and> map_sum id ac_subjectCustomerId (verify 1030000 (Some ''token'')) = Inr ''c1''"
proof -
  obtain signAccess where s: "createHmacWorkflowAccessAssertionSigner one_token_sign sample_secret ''edge'' ''gateway'' 60 = Inr signAccess"
    by (simp add: createHmacWorkflowAccessAssertionSigner_def sample_secret_length)
  obtain verify where v: "createHmacWorkflowAccessAssertionVerifier (one_token_verify (sample_workflow_claims P_refund_execute)) sample_opts P_refund_execute = Inr verify"
    by (simp add: createHmacWorkflowAccessAssertionVerifier_def sample_opts_def sample_secret_length)
  have j: "jose_ok one_token_sign (one_token_verify (sample_workflow_claims P_refund_execute)) sample_secret ''cso-workflow+jwt''
      (workflow_claims ''edge'' ''gateway'' (1000000 div 1000) 60 (sample_access_input P_refund_execute))"
    using one_token_jose_ok [of "sample_workflow_claims P_refund_execute"] by (simp add: sample_workflow_claims_def)
  from workflow_assertion_roundtrip [OF s v _ _ _ _ sample_signs [OF s] _ _ j, of 1030000]
  have "verify 1030000 (Some ''token'') = Inr \<lparr> ac_contextId = ''wf1'', ac_tenantId = ''t1'', ac_environmentId = ''dev'',
      ac_subjectCustomerId = ''c1'', ac_routingEpoch = 1, ac_requestId = ''r1'', ac_traceId = ''tr1'' \<rparr>"
    by (simp add: sample_opts_def isSafeInteger_def MAX_SAFE_INTEGER_def sample_access_input_def sample_journey_access_def)
  with v show ?thesis by simp
qed

theorem case_assertion_roundtrip_witness:
  "\<exists>verify. createWorkflowCaseAccessVerifier (one_token_verify (sample_workflow_claims P_human_case_open)) sample_opts = Inr verify
    \<and> map_sum id wa_workflowId (verify 1030000 (Some ''token'') P_human_case_open) = Inr ''wf1''
    \<and> verify 1030000 (Some ''token'') P_human_case_close = Inl (Error ''WORKFLOW_UNAUTHORIZED'')"
proof -
  obtain signAccess where s: "createHmacWorkflowAccessAssertionSigner one_token_sign sample_secret ''edge'' ''gateway'' 60 = Inr signAccess"
    by (simp add: createHmacWorkflowAccessAssertionSigner_def sample_secret_length)
  obtain verify where v: "createWorkflowCaseAccessVerifier (one_token_verify (sample_workflow_claims P_human_case_open)) sample_opts = Inr verify"
    by (simp add: createWorkflowCaseAccessVerifier_def sample_opts_def sample_secret_length)
  have j: "jose_ok one_token_sign (one_token_verify (sample_workflow_claims P_human_case_open)) sample_secret ''cso-workflow+jwt''
      (workflow_claims ''edge'' ''gateway'' (1000000 div 1000) 60 (sample_access_input P_human_case_open))"
    using one_token_jose_ok [of "sample_workflow_claims P_human_case_open"] by (simp add: sample_workflow_claims_def)
  note r = case_assertion_roundtrip [OF s v _ _ _ sample_signs [OF s] _ _ j, of 1030000]
  have "map_sum id wa_workflowId (verify 1030000 (Some ''token'') P_human_case_open) = Inr ''wf1''"
    "verify 1030000 (Some ''token'') P_human_case_close = Inl (Error ''WORKFLOW_UNAUTHORIZED'')"
    using r [of P_human_case_open] r [of P_human_case_close]
    by (simp_all add: sample_opts_def isSafeInteger_def MAX_SAFE_INTEGER_def sample_access_input_def sample_journey_access_def)
  with v show ?thesis by blast
qed

definition sample_context_input :: ContextAssertionInput where
  "sample_context_input = \<lparr> ci_identity = \<lparr> id_principalId = ''c1'', id_tenantId = ''t1'', id_environmentId = ''dev'', id_customerId = ''c1'' \<rparr>,
     ci_requestId = ''r1'', ci_traceId = ''tr1'', ci_channelId = ''web'' \<rparr>"

definition sample_route :: Route where
  "sample_route = \<lparr> homeRegion = ''dev'', homeCell = ''c1'', routingEpoch = 3 \<rparr>"

definition sample_context_claims :: json where
  "sample_context_claims = context_claims ''edge'' ''gateway'' sample_route None 1000 60 ''wf1'' sample_context_input"

theorem context_assertion_roundtrip_witness:
  "\<exists>verify. createHmacContextAssertionVerifier (one_token_verify sample_context_claims) sample_opts = Inr verify
    \<and> map_sum id ac_routingEpoch (verify 1030000 (Some ''token'')) = Inr 3"
proof -
  have ok: "route_ok sample_route" "contextAssertionInputSchema sample_context_input"
    by (simp_all add: route_ok_def sample_route_def sample_ids isSafeInteger_def MAX_SAFE_INTEGER_def contextAssertionInputSchema_def
        sample_context_input_def identity_ids_ok_def)
  obtain signContext where s: "createHmacContextAssertionSigner one_token_sign sample_secret ''edge'' ''gateway'' sample_route None 60 = Inr signContext"
    by (simp add: createHmacContextAssertionSigner_def sample_secret_length ok)
  then have t: "signContext 1000000 ''wf1'' sample_context_input = Inr ''token''"
    by (auto simp: createHmacContextAssertionSigner_def sample_secret_length ok one_token_sign_def)
  obtain verify where v: "createHmacContextAssertionVerifier (one_token_verify sample_context_claims) sample_opts = Inr verify"
    by (simp add: createHmacContextAssertionVerifier_def sample_opts_def sample_secret_length)
  have j: "jose_ok one_token_sign (one_token_verify sample_context_claims) sample_secret ''cso-context+jwt''
      (context_claims ''edge'' ''gateway'' sample_route None (1000000 div 1000) 60 ''wf1'' sample_context_input)"
    using one_token_jose_ok [of sample_context_claims] by (simp add: sample_context_claims_def)
  from context_assertion_roundtrip [OF s v _ _ _ t _ _ j, of 1030000]
  have "map_sum id ac_routingEpoch (verify 1030000 (Some ''token'')) = Inr 3"
    by (simp add: sample_opts_def isSafeInteger_def MAX_SAFE_INTEGER_def sample_ids sample_route_def sample_context_input_def)
  with v show ?thesis by blast
qed

end
