(* ===== verification/Gateway_Routes.thy ===== *)
theory Gateway_Routes
  imports Refund_Executions Access_Assertions
begin

text \<open>
  The routes of the integration gateway, under \<^verbatim>\<open>src/apps/services/integration-gateway/src/\<close>:
  \<^verbatim>\<open>refund-execution-routes.ts\<close>, \<^verbatim>\<open>refund-reconciliation-routes.ts\<close>, \<^verbatim>\<open>provider-refund-event-routes.ts\<close>,
  \<^verbatim>\<open>refund-context-routes.ts\<close>, \<^verbatim>\<open>order-routes.ts\<close> with \<^verbatim>\<open>get-order-context.ts\<close> and \<^verbatim>\<open>order-context.ts\<close>, and
  the delivery loop of \<^verbatim>\<open>server.ts\<close>. An HTTP answer is \<^verbatim>\<open>Inl (status, code)\<close> for an error and \<^verbatim>\<open>Inr\<close> the
  body otherwise; an exception that no handler catches is a 500. The refund handler is cut where it
  awaits the provider, so that requests interleave the way the event loop lets them; the gateway as
  a whole is the step relation \<^verbatim>\<open>gateway_step\<close>. Verifiers, the commerce provider and the repository
  are arguments; a request header is an option.
\<close>

type_synonym 'a http = "(nat \<times> string) + 'a"
type_synonym access_verifier = "string option \<Rightarrow> OrderAccessContext result"

definition internal_error :: "nat \<times> string" where
  "internal_error = (500, ''internal_server_error'')"

section \<open>Executing a refund\<close>

record ExecutionRequest =
  xq_orderId :: string
  xq_reasonCode :: string
  xq_amount :: Money
  xq_selection :: Selection
  xq_idempotencyKey :: string
  xq_previewId :: string

definition usd_amount_schema :: "json \<Rightarrow> Money option" where
  "usd_amount_schema v =
     do { v \<leftarrow> z_object [''amountMinor'', ''currency''] v; n \<leftarrow> z_int_min 1 (get_prop ''amountMinor'' v);
          _ \<leftarrow> z_literal ''USD'' (get_prop ''currency'' v); Some (money n ''USD'') }"

definition z_array_max :: "nat \<Rightarrow> (json \<Rightarrow> 'a option) \<Rightarrow> json \<Rightarrow> 'a list option" where
  "z_array_max n f v = do { xs \<leftarrow> z_array f v; (if length xs > n then None else Some xs) }"

definition execution_requestSchema :: "json \<Rightarrow> ExecutionRequest option" where
  "execution_requestSchema body =
     do {
       v \<leftarrow> z_object [''orderId'', ''reasonCode'', ''amount'', ''selection'', ''idempotencyKey'', ''previewId''] body;
       order \<leftarrow> z_trimmed 160 (get_prop ''orderId'' v);
       reason \<leftarrow> z_trimmed 100 (get_prop ''reasonCode'' v);
       amount \<leftarrow> usd_amount_schema (get_prop ''amount'' v);
       sel \<leftarrow> z_object [''scope'', ''itemIds''] (get_prop ''selection'' v);
       sc \<leftarrow> z_enum [(''FULL_ORDER'', FULL_ORDER), (''SELECTED_ITEMS'', SELECTED_ITEMS)] (get_prop ''scope'' sel);
       items \<leftarrow> z_array_max 100 z_string (get_prop ''itemIds'' sel);
       key \<leftarrow> z_string_max 240 (get_prop ''idempotencyKey'' v);
       preview \<leftarrow> z_trimmed 160 (get_prop ''previewId'' v);
       Some \<lparr> xq_orderId = order, xq_reasonCode = reason, xq_amount = amount,
         xq_selection = \<lparr> sel_scope = sc, sel_itemIds = items \<rparr>, xq_idempotencyKey = key, xq_previewId = preview \<rparr>
     }"

record ProviderCall =
  pc_executionId :: string
  pc_paymentId :: string
  pc_amount :: Money
  pc_reason :: string

datatype SubmitResult = Reply "ExecuteRefundResult http" | CallProvider ReserveRefundExecutionInput ProviderCall

definition reserve_input :: "OrderAccessContext \<Rightarrow> ExecutionRequest \<Rightarrow> int \<Rightarrow> ReserveRefundExecutionInput" where
  "reserve_input access req now = \<lparr> ri_tenantId = ac_tenantId access, ri_environmentId = ac_environmentId access,
     ri_idempotencyKey = xq_idempotencyKey req, ri_workflowId = ac_contextId access, ri_previewId = xq_previewId req,
     ri_orderId = xq_orderId req, ri_amountMinor = amountMinor (xq_amount req), ri_currency = currency (xq_amount req),
     ri_occurredAt = iso_string now \<rparr>"

text \<open>What is answered for a key that is there already: the stored outcome, or that it is not known yet.\<close>

definition existing_reply :: "RefundExecution \<Rightarrow> ExecuteRefundResult" where
  "existing_reply x = (case execution_status x of
       Outcome SUCCEEDED \<Rightarrow> \<lparr> er_status = SUCCEEDED, er_providerRefundId = execution_providerRefundId x \<rparr>
     | Outcome FAILED \<Rightarrow> \<lparr> er_status = FAILED, er_providerRefundId = None \<rparr>
     | Outcome SUBMITTED \<Rightarrow> \<lparr> er_status = SUBMITTED, er_providerRefundId = execution_providerRefundId x \<rparr>
     | _ \<Rightarrow> \<lparr> er_status = PENDING_RECONCILIATION, er_providerRefundId = None \<rparr>)"

definition refund_ineligible :: "CommerceOrder \<Rightarrow> ExecutionRequest \<Rightarrow> bool" where
  "refund_ineligible order req =
     (let facts = context_facts order (xq_selection req) in
      List.find (\<lambda>p. toUpperCase (py_status p) = ''SETTLED'') (co_payments order) = None
      \<or> \<not> ctx_transactionRefundable facts \<or> \<not> ctx_itemSelectionValid facts
      \<or> currency (ctx_refundableAmount facts) \<noteq> currency (xq_amount req)
      \<or> amountMinor (xq_amount req) > amountMinor (ctx_refundableAmount facts))"

text \<open>The handler up to the call of the provider, or up to its answer where it does not call it.\<close>

definition refund_submit ::
  "'s RefundExecutionRepository \<Rightarrow> access_verifier option \<Rightarrow> bool \<Rightarrow> (string \<Rightarrow> CommerceOrder option result)
   \<Rightarrow> 's \<Rightarrow> int \<Rightarrow> string \<Rightarrow> json \<Rightarrow> string option \<Rightarrow> 's \<times> SubmitResult" where
  "refund_submit repo verify can_execute getOrder s now eid body header =
     (case execution_requestSchema body of
        None \<Rightarrow> (s, Reply (Inl (400, ''invalid_refund_execution_request'')))
      | Some req \<Rightarrow>
     (case verify of
        None \<Rightarrow> (s, Reply (Inl (401, ''workflow_unauthorized'')))
      | Some ver \<Rightarrow>
     (case ver header of
        Inl _ \<Rightarrow> (s, Reply (Inl (401, ''workflow_unauthorized'')))
      | Inr access \<Rightarrow>
          if \<not> can_execute then (s, Reply (Inl (501, ''refund_execution_not_configured'')))
          else
     (case getOrder (xq_orderId req) of
        Inl _ \<Rightarrow> (s, Reply (Inl internal_error))
      | Inr None \<Rightarrow> (s, Reply (Inl (404, ''order_not_found'')))
      | Inr (Some order) \<Rightarrow>
          if map_option cu_id (co_customer order) \<noteq> Some (ac_subjectCustomerId access) then (s, Reply (Inl (404, ''order_not_found'')))
          else if refund_ineligible order req then (s, Reply (Inl (409, ''refund_no_longer_eligible'')))
          else
     (case List.find (\<lambda>p. toUpperCase (py_status p) = ''SETTLED'') (co_payments order) of
        None \<Rightarrow> (s, Reply (Inl (409, ''refund_no_longer_eligible'')))
      | Some payment \<Rightarrow>
     (case repo_reserve repo s now eid (reserve_input access req now) of
        Inl _ \<Rightarrow> (s, Reply (Inl internal_error))
      | Inr (s', Existing x) \<Rightarrow> (s', Reply (Inr (existing_reply x)))
      | Inr (s', Reserved e) \<Rightarrow> (s', CallProvider (reserve_input access req now)
          \<lparr> pc_executionId = e, pc_paymentId = py_id payment, pc_amount = xq_amount req, pc_reason = xq_reasonCode req \<rparr>)))))))"

definition provider_response :: "ProviderStatus \<times> string option \<Rightarrow> ExecuteRefundResult" where
  "provider_response result = (case fst result of
       P_SUBMITTED \<Rightarrow> \<lparr> er_status = SUBMITTED, er_providerRefundId = snd result \<rparr>
     | P_SUCCEEDED \<Rightarrow> \<lparr> er_status = SUCCEEDED, er_providerRefundId = snd result \<rparr>
     | P_FAILED \<Rightarrow> \<lparr> er_status = FAILED, er_providerRefundId = None \<rparr>)"

text \<open>
  The rest of the handler, from the provider's answer on. A failure to record the answer is caught
  by the same clause as a failure of the provider, which records that the outcome is not known.
\<close>

definition refund_answered ::
  "'s RefundExecutionRepository \<Rightarrow> 's \<Rightarrow> int \<Rightarrow> string \<Rightarrow> (ProviderStatus \<times> string option) result \<Rightarrow> 's \<times> ExecuteRefundResult http" where
  "refund_answered repo s now eid answer =
     (let unknown = (case repo_recordOutcome repo s now eid PENDING_RECONCILIATION None of
            Inl _ \<Rightarrow> (s, Inl internal_error)
          | Inr (s', _) \<Rightarrow> (s', Inr \<lparr> er_status = PENDING_RECONCILIATION, er_providerRefundId = None \<rparr>))
      in case answer of
           Inl _ \<Rightarrow> unknown
         | Inr result \<Rightarrow>
             (let response = provider_response result in
              case repo_recordOutcome repo s now eid (er_status response) (er_providerRefundId response) of
                Inl _ \<Rightarrow> unknown
              | Inr (s', _) \<Rightarrow> (s', Inr response)))"

text \<open>The whole handler, when nothing else runs while it waits.\<close>

definition post_refunds ::
  "'s RefundExecutionRepository \<Rightarrow> access_verifier option \<Rightarrow> bool \<Rightarrow> (string \<Rightarrow> CommerceOrder option result)
   \<Rightarrow> (ProviderCall \<Rightarrow> (ProviderStatus \<times> string option) result)
   \<Rightarrow> 's \<Rightarrow> int \<Rightarrow> string \<Rightarrow> json \<Rightarrow> string option \<Rightarrow> 's \<times> ExecuteRefundResult http" where
  "post_refunds repo verify can_execute getOrder executeRefund s now eid body header =
     (case refund_submit repo verify can_execute getOrder s now eid body header of
        (s', Reply r) \<Rightarrow> (s', r)
      | (s', CallProvider _ call) \<Rightarrow> refund_answered repo s' now (pc_executionId call) (executeRefund call))"

section \<open>Reconciling a refund\<close>

record ReconciliationRequest =
  rq_orderId :: string
  rq_previewId :: string
  rq_amount :: Money

definition reconciliation_requestSchema :: "json \<Rightarrow> ReconciliationRequest option" where
  "reconciliation_requestSchema body =
     do {
       v \<leftarrow> z_object [''orderId'', ''previewId'', ''amount''] body;
       order \<leftarrow> z_trimmed 160 (get_prop ''orderId'' v);
       preview \<leftarrow> z_trimmed 160 (get_prop ''previewId'' v);
       amount \<leftarrow> usd_amount_schema (get_prop ''amount'' v);
       Some \<lparr> rq_orderId = order, rq_previewId = preview, rq_amount = amount \<rparr>
     }"

definition record_if_changed ::
  "'s RefundExecutionRepository \<Rightarrow> 's \<Rightarrow> int \<Rightarrow> RefundExecution option \<Rightarrow> ExecutionStatus \<Rightarrow> string \<Rightarrow> 's result" where
  "record_if_changed repo s now execution st refundId =
     (case execution of
        None \<Rightarrow> Inr s
      | Some x \<Rightarrow> if execution_status x = Outcome st then Inr s
                  else map_sum id fst (repo_recordOutcome repo s now (executionId x) st (Some refundId)))"

definition post_reconciliations ::
  "'s RefundExecutionRepository \<Rightarrow> access_verifier option \<Rightarrow> (string \<Rightarrow> CommerceOrder option result)
   \<Rightarrow> 's \<Rightarrow> int \<Rightarrow> json \<Rightarrow> string option \<Rightarrow> 's \<times> ReconcileRefundResult http" where
  "post_reconciliations repo verify getOrder s now body header =
     (case reconciliation_requestSchema body of
        None \<Rightarrow> (s, Inl (400, ''invalid_refund_reconciliation_request''))
      | Some req \<Rightarrow>
     (case verify of
        None \<Rightarrow> (s, Inl (401, ''workflow_unauthorized''))
      | Some ver \<Rightarrow>
     (case ver header of
        Inl _ \<Rightarrow> (s, Inl (401, ''workflow_unauthorized''))
      | Inr access \<Rightarrow>
     (case getOrder (rq_orderId req) of
        Inl _ \<Rightarrow> (s, Inl internal_error)
      | Inr None \<Rightarrow> (s, Inl (404, ''order_not_found''))
      | Inr (Some order) \<Rightarrow>
          if map_option cu_id (co_customer order) \<noteq> Some (ac_subjectCustomerId access) then (s, Inl (404, ''order_not_found''))
          else
     (case List.find (\<lambda>r. amountMinor (cr_amount r) = amountMinor (rq_amount req) \<and> currency (cr_amount r) = currency (rq_amount req))
             (concat (map py_refunds (co_payments order))) of
        None \<Rightarrow> (s, Inr \<lparr> rr_status = RC_NOT_FOUND, rr_providerRefundId = None \<rparr>)
      | Some refund \<Rightarrow>
          let execution = repo_findByWorkflowAndPreview repo s (ac_tenantId access) (ac_environmentId access) (ac_contextId access) (rq_previewId req);
              st = toUpperCase (cr_status refund)
          in if st \<in> {''SETTLED'', ''COMPLETED''} then
               (case record_if_changed repo s now execution SUCCEEDED (cr_id refund) of
                  Inl _ \<Rightarrow> (s, Inl internal_error)
                | Inr s' \<Rightarrow> (s', Inr \<lparr> rr_status = RC_SUCCEEDED, rr_providerRefundId = Some (cr_id refund) \<rparr>))
             else if st \<in> {''FAILED'', ''CANCELLED''} then
               (case record_if_changed repo s now execution FAILED (cr_id refund) of
                  Inl _ \<Rightarrow> (s, Inl internal_error)
                | Inr s' \<Rightarrow> (s', Inr \<lparr> rr_status = RC_FAILED, rr_providerRefundId = Some (cr_id refund) \<rparr>))
             else (s, Inr \<lparr> rr_status = RC_PROCESSING, rr_providerRefundId = Some (cr_id refund) \<rparr>))))))"

section \<open>Events of the payment provider\<close>

definition providerEventSchema :: "(string \<Rightarrow> bool) \<Rightarrow> json \<Rightarrow> RefundProviderOutcome option" where
  "providerEventSchema is_datetime body =
     do {
       v \<leftarrow> z_object [''event_id'', ''provider_refund_id'', ''outcome'', ''occurred_at''] body;
       event \<leftarrow> z_trimmed 200 (get_prop ''event_id'' v);
       refund \<leftarrow> z_trimmed 200 (get_prop ''provider_refund_id'' v);
       outcome \<leftarrow> z_enum [(''COMPLETED'', COMPLETED), (''FAILED'', PROVIDER_FAILED)] (get_prop ''outcome'' v);
       at \<leftarrow> z_regex is_datetime (get_prop ''occurred_at'' v);
       Some \<lparr> po_eventId = event, po_providerRefundId = refund, po_outcome = outcome, po_occurredAt = at \<rparr>
     }"

definition signaturePayload :: "RefundProviderOutcome \<Rightarrow> string" where
  "signaturePayload event = po_eventId event @ [char_of (10 :: nat)] @ po_providerRefundId event @ [char_of (10 :: nat)]
     @ (case po_outcome event of COMPLETED \<Rightarrow> ''COMPLETED'' | PROVIDER_FAILED \<Rightarrow> ''FAILED'') @ [char_of (10 :: nat)] @ po_occurredAt event"

text \<open>\<^verbatim>\<open>hmac\<close> and \<^verbatim>\<open>base64url\<close> decoding are arguments; the length test guards \<^verbatim>\<open>timingSafeEqual\<close>.\<close>

definition createHmacProviderRefundEventVerifier ::
  "(string \<Rightarrow> string \<Rightarrow> string) \<Rightarrow> (string \<Rightarrow> string) \<Rightarrow> string \<Rightarrow> string option \<Rightarrow> RefundProviderOutcome \<Rightarrow> bool" where
  "createHmacProviderRefundEventVerifier hmac base64url_decode secret signature event =
     (case signature of None \<Rightarrow> False | Some sig \<Rightarrow>
        sig \<noteq> [] \<and> (let expected = hmac secret (signaturePayload event); received = base64url_decode sig
                     in length received = length expected \<and> received = expected))"

definition post_provider_events ::
  "'s RefundExecutionRepository \<Rightarrow> (string option \<Rightarrow> RefundProviderOutcome \<Rightarrow> bool) option \<Rightarrow> (string \<Rightarrow> bool)
   \<Rightarrow> 's \<Rightarrow> int \<Rightarrow> json \<Rightarrow> string option \<Rightarrow> 's \<times> EventResult http" where
  "post_provider_events repo verify is_datetime s now body signature =
     (case verify of
        None \<Rightarrow> (s, Inl (503, ''provider_webhook_not_configured''))
      | Some ver \<Rightarrow>
     (case providerEventSchema is_datetime body of
        None \<Rightarrow> (s, Inl (400, ''invalid_provider_refund_event''))
      | Some event \<Rightarrow>
          if \<not> ver signature event then (s, Inl (401, ''provider_webhook_unauthorized''))
          else (case repo_recordProviderRefundEvent repo s now event of
             Inl _ \<Rightarrow> (s, Inl internal_error)
           | Inr (s', UNKNOWN_REFUND) \<Rightarrow> (s', Inl (404, ''provider_refund_not_found''))
           | Inr (s', r) \<Rightarrow> (s', Inr r))))"

text \<open>
  The delivery loop of \<^verbatim>\<open>server.ts\<close>: a signal that throws leaves its event pending. The signals sent
  are returned. \<^verbatim>\<open>signal e\<close> tells whether sending the signal of \<^verbatim>\<open>e\<close> succeeds.
\<close>

fun deliver_events ::
  "'s RefundExecutionRepository \<Rightarrow> (PendingProviderRefundEvent \<Rightarrow> bool) \<Rightarrow> int \<Rightarrow> PendingProviderRefundEvent list \<Rightarrow> 's
   \<Rightarrow> 's \<times> PendingProviderRefundEvent list" where
  "deliver_events repo signal now [] s = (s, [])"
| "deliver_events repo signal now (e # es) s =
     (if signal e then
        (let (s', sent) = deliver_events repo signal now es (repo_markProviderRefundEventDelivered repo s now (po_eventId (pp_outcome e)))
         in (s', e # sent))
      else deliver_events repo signal now es s)"

definition dispatchPendingProviderEvents ::
  "'s RefundExecutionRepository \<Rightarrow> (PendingProviderRefundEvent \<Rightarrow> bool) \<Rightarrow> int \<Rightarrow> 's \<Rightarrow> 's \<times> PendingProviderRefundEvent list" where
  "dispatchPendingProviderEvents repo signal now s = deliver_events repo signal now (repo_listPendingProviderRefundEvents repo s 100) s"

section \<open>Reading facts\<close>

definition refundContextRequestSchema :: "json \<Rightarrow> (string \<times> Selection) option" where
  "refundContextRequestSchema body =
     (if \<not> isRecord body then None else
      do {
        order \<leftarrow> z_trimmed 160 (get_prop ''orderId'' body);
        (let sel = get_prop ''selection'' body in
         if \<not> isRecord sel then None
         else if get_prop ''scope'' sel = JStr ''FULL_ORDER'' then
           (case get_prop ''itemIds'' sel of
              JUndefined \<Rightarrow> Some (order, \<lparr> sel_scope = FULL_ORDER, sel_itemIds = [] \<rparr>)
            | v \<Rightarrow> do { items \<leftarrow> z_array z_string v;
                       (if items = [] then Some (order, \<lparr> sel_scope = FULL_ORDER, sel_itemIds = [] \<rparr>) else None) })
         else if get_prop ''scope'' sel = JStr ''SELECTED_ITEMS'' then
           do { items \<leftarrow> z_array (z_trimmed 100) (get_prop ''itemIds'' sel);
                (if 1 \<le> length items \<and> length items \<le> 100 then Some (order, \<lparr> sel_scope = SELECTED_ITEMS, sel_itemIds = items \<rparr>) else None) }
         else None)
      })"

text \<open>
  A customer assertion or a workflow assertion, never both. With neither, the customer verifier is
  called without an assertion; without a workflow verifier the result is \<^verbatim>\<open>undefined\<close>.
\<close>

definition refund_context_access :: "access_verifier \<Rightarrow> access_verifier option \<Rightarrow> string option \<Rightarrow> string option \<Rightarrow> OrderAccessContext result" where
  "refund_context_access verifyContext verifyWorkflow customerAssertion workflowAssertion =
     (case (customerAssertion, workflowAssertion) of
        (Some _, Some _) \<Rightarrow> Inl (Error ''AMBIGUOUS_REFUND_CONTEXT_ACCESS'')
      | (None, Some _) \<Rightarrow> (case verifyWorkflow of None \<Rightarrow> Inl (Error ''WORKFLOW_ACCESS_UNAUTHORIZED'') | Some v \<Rightarrow> v workflowAssertion)
      | (_, None) \<Rightarrow> verifyContext customerAssertion)"

definition post_refund_contexts ::
  "(string \<Rightarrow> string) \<Rightarrow> access_verifier \<Rightarrow> access_verifier option \<Rightarrow> (string \<Rightarrow> CommerceOrder option result)
   \<Rightarrow> string \<Rightarrow> int \<Rightarrow> json \<Rightarrow> string option \<Rightarrow> string option \<Rightarrow> RefundContext http" where
  "post_refund_contexts sha256_hex verifyContext verifyWorkflow getOrder oid now body customerAssertion workflowAssertion =
     (case refundContextRequestSchema body of
        None \<Rightarrow> Inl (400, ''invalid_refund_context_request'')
      | Some (order, sel) \<Rightarrow>
     (case refund_context_access verifyContext verifyWorkflow customerAssertion workflowAssertion of
        Inl _ \<Rightarrow> Inl (401, ''context_unauthorized'')
      | Inr access \<Rightarrow>
     (case getRefundContext sha256_hex (getOrder order) sel (ac_subjectCustomerId access) oid (iso_string now) of
        Inl _ \<Rightarrow> Inl (502, ''commerce_provider_unavailable'')
      | Inr None \<Rightarrow> Inl (404, ''order_not_found'')
      | Inr (Some ctx) \<Rightarrow> Inr ctx)))"

definition nullable_json :: "string option \<Rightarrow> json" where
  "nullable_json v = (case v of None \<Rightarrow> JNull | Some s \<Rightarrow> JStr s)"

text \<open>\<^verbatim>\<open>toOrderContext\<close>: the facts without the customer's name, address and payment references.\<close>

definition order_facts_json :: "CommerceOrder \<Rightarrow> (string \<times> json) list" where
  "order_facts_json order = [
     (''reference'', JStr (co_reference order)), (''status'', JStr (co_status order)), (''active'', JBool (co_active order)),
     (''placedAt'', nullable_json (co_placedAt order)),
     (''customerRef'', case co_customer order of None \<Rightarrow> JNull | Some c \<Rightarrow> JObj [(''customerId'', JStr (cu_id c))]),
     (''total'', money_json (co_total order)),
     (''items'', JArr (map (\<lambda>i. JObj [(''itemId'', JStr (it_id i)), (''sku'', JStr (it_sku i)), (''name'', JStr (it_name i)),
        (''quantity'', JNum (it_quantity i)), (''unitPrice'', money_json (it_unitPrice i)), (''lineTotal'', money_json (it_lineTotal i))]) (co_items order))),
     (''payments'', JArr (map (\<lambda>p. JObj [(''paymentId'', JStr (py_id p)), (''status'', JStr (py_status p)), (''amount'', money_json (py_amount p)),
        (''method'', JStr (py_method p))]) (co_payments order))),
     (''fulfillments'', JArr (map (\<lambda>f. JObj [(''fulfillmentId'', JStr (fu_id f)), (''status'', JStr (fu_status f)), (''method'', JStr (fu_method f)),
        (''trackingCode'', nullable_json (fu_trackingCode f))]) (co_fulfillments order)))]"

definition toOrderContext :: "(string \<Rightarrow> string) \<Rightarrow> CommerceOrder \<Rightarrow> string \<Rightarrow> string \<Rightarrow> json" where
  "toOrderContext sha256_hex order oid at =
     (let src = [(''provider'', JStr (co_provider order)), (''orderId'', JStr (co_orderId order))];
          digest = sha256_hex (stringify (JObj ((''source'', JObj src) # order_facts_json order)))
      in JObj ([(''schemaVersion'', JStr ''1''), (''observationId'', JStr oid), (''observedAt'', JStr at),
           (''source'', JObj (src @ [(''factsVersion'', JStr (''sha256:'' @ digest))]))] @ order_facts_json order))"

definition getOrderContext ::
  "(string \<Rightarrow> string) \<Rightarrow> CommerceOrder option result \<Rightarrow> OrderAccessContext \<Rightarrow> string \<Rightarrow> string \<Rightarrow> json option result" where
  "getOrderContext sha256_hex lookup access oid at =
     bindE lookup (\<lambda>order. Inr (case order of None \<Rightarrow> None | Some ord \<Rightarrow>
        if map_option cu_id (co_customer ord) \<noteq> Some (ac_subjectCustomerId access) then None
        else Some (toOrderContext sha256_hex ord oid at)))"

definition get_order ::
  "(string \<Rightarrow> string) \<Rightarrow> access_verifier \<Rightarrow> (string \<Rightarrow> CommerceOrder option result) \<Rightarrow> string \<Rightarrow> int \<Rightarrow> string \<Rightarrow> string option \<Rightarrow> json http" where
  "get_order sha256_hex verifyContext getOrderByRef oid now orderReference assertion =
     (case z_trimmed 100 (JStr orderReference) of
        None \<Rightarrow> Inl (400, ''invalid_order_reference'')
      | Some reference \<Rightarrow>
     (case verifyContext assertion of
        Inl _ \<Rightarrow> Inl (401, ''context_unauthorized'')
      | Inr access \<Rightarrow>
     (case getOrderContext sha256_hex (getOrderByRef reference) access oid (iso_string now) of
        Inl _ \<Rightarrow> Inl (502, ''commerce_provider_unavailable'')
      | Inr None \<Rightarrow> Inl (404, ''order_not_found'')
      | Inr (Some ctx) \<Rightarrow> Inr ctx)))"

section \<open>A refund is sent to the provider only within the balance\<close>

lemma find_filter_single: "filter P xs = [x] \<Longrightarrow> List.find P xs = Some x"
  by (induction xs) (auto split: if_split_asm)

lemma eligible_request:
  assumes "\<not> refund_ineligible order req" and "0 < amountMinor (xq_amount req)"
  obtains payment where "filter (\<lambda>p. toUpperCase (py_status p) = ''SETTLED'') (co_payments order) = [payment]"
    "List.find (\<lambda>p. toUpperCase (py_status p) = ''SETTLED'') (co_payments order) = Some payment"
    "amountMinor (xq_amount req) + consumedAmountMinor (Some payment) \<le> amountMinor (py_amount payment)" "\<not> co_active order"
    "sel_scope (xq_selection req) = FULL_ORDER \<or> amountMinor (xq_amount req) \<le> selectedItemTotalMinor order (sel_itemIds (xq_selection req))"
proof -
  let ?f = "context_facts order (xq_selection req)"
  have f: "amountMinor (xq_amount req) \<le> amountMinor (ctx_refundableAmount ?f)" "ctx_transactionRefundable ?f"
    using assms(1) by (auto simp: refund_ineligible_def Let_def)
  then have "0 < amountMinor (ctx_refundableAmount ?f)" using assms(2) by linarith
  then obtain payment where p: "filter (\<lambda>p. toUpperCase (py_status p) = ''SETTLED'') (co_payments order) = [payment]"
      "amountMinor (ctx_refundableAmount ?f) + consumedAmountMinor (Some payment) \<le> amountMinor (py_amount payment)"
      "sel_scope (xq_selection req) = FULL_ORDER \<or> amountMinor (ctx_refundableAmount ?f) \<le> selectedItemTotalMinor order (sel_itemIds (xq_selection req))"
    by (rule context_facts_positive)
  with f show ?thesis
    by (intro that [of payment]) (auto simp: find_filter_single context_facts_def Let_def)
qed

lemma execution_requestSchema_positive: "execution_requestSchema body = Some req \<Longrightarrow> 0 < amountMinor (xq_amount req) \<and> currency (xq_amount req) = ''USD''"
  by (auto simp: execution_requestSchema_def usd_amount_schema_def bind_eq_Some_conv dest!: z_int_min_SomeD split: if_split_asm)

lemma refund_submit_CallProvider:
  assumes "refund_submit repo verify can_execute getOrder s now eid body header = (s', CallProvider i call)"
  obtains req ver access order payment where "execution_requestSchema body = Some req" "verify = Some ver" "ver header = Inr access"
    "getOrder (xq_orderId req) = Inr (Some order)" "map_option cu_id (co_customer order) = Some (ac_subjectCustomerId access)"
    "\<not> refund_ineligible order req" "List.find (\<lambda>p. toUpperCase (py_status p) = ''SETTLED'') (co_payments order) = Some payment"
    "i = reserve_input access req now" "repo_reserve repo s now eid i = Inr (s', Reserved (pc_executionId call))"
    "pc_paymentId call = py_id payment" "pc_amount call = xq_amount req" "can_execute"
  using assms unfolding refund_submit_def
  by (auto split: option.split_asm sum.split_asm if_split_asm prod.split_asm Reservation.split_asm)

text \<open>
  C6. The gateway asks the provider for money only within what it has just read: the request is
  authorized for a workflow of the order's customer, the order is not active and has exactly one
  settled payment, the refund goes to that payment in US dollars, and the amount together with every
  refund that is not failed or cancelled stays within the payment.
\<close>

theorem provider_call_within_balance:
  assumes "refund_submit repo verify can_execute getOrder s now eid body header = (s', CallProvider i call)"
  shows "\<exists>ver access ord payment. verify = Some ver \<and> ver header = Inr access \<and> getOrder (ri_orderId i) = Inr (Some ord)
    \<and> map_option cu_id (co_customer ord) = Some (ac_subjectCustomerId access) \<and> \<not> co_active ord
    \<and> filter (\<lambda>p. toUpperCase (py_status p) = ''SETTLED'') (co_payments ord) = [payment] \<and> pc_paymentId call = py_id payment
    \<and> 0 < amountMinor (pc_amount call) \<and> currency (pc_amount call) = ''USD''
    \<and> amountMinor (pc_amount call)
        + sum_list (map (\<lambda>r. amountMinor (cr_amount r)) (filter (\<lambda>r. refundConsumesBalance (cr_status r)) (py_refunds payment)))
      \<le> amountMinor (py_amount payment)"
proof -
  obtain req ver access order payment where r: "execution_requestSchema body = Some req" "verify = Some ver" "ver header = Inr access"
    "getOrder (xq_orderId req) = Inr (Some order)" "map_option cu_id (co_customer order) = Some (ac_subjectCustomerId access)"
    "\<not> refund_ineligible order req" "List.find (\<lambda>p. toUpperCase (py_status p) = ''SETTLED'') (co_payments order) = Some payment"
    "i = reserve_input access req now" "pc_paymentId call = py_id payment" "pc_amount call = xq_amount req"
    using refund_submit_CallProvider [OF assms] by metis
  note pos = execution_requestSchema_positive [OF r(1)]
  from eligible_request [OF r(6) conjunct1 [OF pos]] r(7) have
    "filter (\<lambda>p. toUpperCase (py_status p) = ''SETTLED'') (co_payments order) = [payment]"
    "amountMinor (xq_amount req) + consumedAmountMinor (Some payment) \<le> amountMinor (py_amount payment)" "\<not> co_active order"
    by auto
  with r pos show ?thesis
    by (intro exI [of _ ver] exI [of _ access] exI [of _ order] exI [of _ payment]) (simp add: reserve_input_def consumedAmountMinor_Some)
qed

section \<open>The gateway as a whole\<close>

text \<open>
  The state: the repository and the log of the calls to the provider, each with the reservation it
  was made for. A handler that waits for the provider, and one that died waiting, are the same: the
  answer may come at any later time, or never. A request that is repeated is another \<^verbatim>\<open>submit\<close>.
  \<^verbatim>\<open>randomUUID\<close> gives an id that no execution has.
\<close>

record 's Gateway =
  gw_store :: 's
  gw_calls :: "(ReserveRefundExecutionInput \<times> ProviderCall) list"

inductive gateway_step :: "'s RefundExecutionRepository \<Rightarrow> ('s \<Rightarrow> 'k \<Rightarrow> RefundExecution option) \<Rightarrow> 's Gateway \<Rightarrow> 's Gateway \<Rightarrow> bool"
  for repo :: "'s RefundExecutionRepository" and view :: "'s \<Rightarrow> 'k \<Rightarrow> RefundExecution option" where
  submit_reply: "fresh_id (view (gw_store g)) eid
    \<Longrightarrow> refund_submit repo verify can_execute getOrder (gw_store g) now eid body header = (s', Reply r)
    \<Longrightarrow> gateway_step repo view g (g\<lparr> gw_store := s' \<rparr>)"
| submit_call: "fresh_id (view (gw_store g)) eid
    \<Longrightarrow> refund_submit repo verify can_execute getOrder (gw_store g) now eid body header = (s', CallProvider i call)
    \<Longrightarrow> gateway_step repo view g (g\<lparr> gw_store := s', gw_calls := gw_calls g @ [(i, call)] \<rparr>)"
| answered: "(i, call) \<in> set (gw_calls g) \<Longrightarrow> refund_answered repo (gw_store g) now (pc_executionId call) answer = (s', r)
    \<Longrightarrow> gateway_step repo view g (g\<lparr> gw_store := s' \<rparr>)"
| reconciled: "post_reconciliations repo verify getOrder (gw_store g) now body header = (s', rr)
    \<Longrightarrow> gateway_step repo view g (g\<lparr> gw_store := s' \<rparr>)"
| event: "post_provider_events repo verifyEvent is_datetime (gw_store g) now body signature = (s', er)
    \<Longrightarrow> gateway_step repo view g (g\<lparr> gw_store := s' \<rparr>)"
| dispatched: "dispatchPendingProviderEvents repo signal now (gw_store g) = (s', sent)
    \<Longrightarrow> gateway_step repo view g (g\<lparr> gw_store := s' \<rparr>)"

text \<open>Every call belongs to a reserved key, and no key has two calls.\<close>

definition calls_reserved :: "(ReserveRefundExecutionInput \<Rightarrow> 'k) \<Rightarrow> ('s \<Rightarrow> 'k \<Rightarrow> RefundExecution option) \<Rightarrow> 's Gateway \<Rightarrow> bool" where
  "calls_reserved key view g \<longleftrightarrow> distinct (map (\<lambda>c. key (fst c)) (gw_calls g))
     \<and> (\<forall>c \<in> set (gw_calls g). key (fst c) \<in> dom (view (gw_store g)))"

lemma calls_reserved_mono:
  "calls_reserved key view g \<Longrightarrow> dom (view (gw_store g)) \<subseteq> dom (view s') \<Longrightarrow> calls_reserved key view (g\<lparr> gw_store := s' \<rparr>)"
  unfolding calls_reserved_def by (simp, blast)

text \<open>What the routes do with the repository, for any repository that keeps the contract.\<close>

context refund_execution_repository
begin

lemma submit_reply_dom:
  assumes "ok s" and "fresh_id (execution_of s) eid"
    and "refund_submit repo verify can_execute getOrder s now eid body header = (s', Reply r)"
  shows "ok s' \<and> dom (execution_of s) \<subseteq> dom (execution_of s')"
proof -
  have "s' = s \<or> (\<exists>i out. repo_reserve repo s now eid i = Inr (s', out))"
    using assms(3) unfolding refund_submit_def
    by (auto split: option.split_asm sum.split_asm if_split_asm prod.split_asm Reservation.split_asm)
  then show ?thesis using dom_reserve(1,2) [OF assms(1,2)] assms(1) by (metis order_refl subset_insertI)
qed

lemma answered_dom:
  assumes "ok s" and "refund_answered repo s now eid answer = (s', r)"
  shows "ok s' \<and> dom (execution_of s') = dom (execution_of s)"
proof -
  have "s' = s \<or> (\<exists>st pid x. repo_recordOutcome repo s now eid st pid = Inr (s', x))"
    using assms(2) by (auto simp: refund_answered_def Let_def split: sum.split_asm prod.split_asm)
  then show ?thesis using dom_recordOutcome [OF assms(1)] assms(1) by metis
qed

lemma reconciled_dom:
  assumes "ok s" and "post_reconciliations repo verify getOrder s now body header = (s', rr)"
  shows "ok s' \<and> dom (execution_of s') = dom (execution_of s)"
proof -
  have r: "s1 = s \<or> (\<exists>eid y. repo_recordOutcome repo s now eid st (Some pid) = Inr (s1, y))"
    if "record_if_changed repo s now x st pid = Inr s1" for x st pid s1
    using that by (auto simp: record_if_changed_def map_sum_def split: option.split_asm if_split_asm sum.split_asm)
  have "s' = s \<or> (\<exists>eid st pid y. repo_recordOutcome repo s now eid st pid = Inr (s', y))"
    using assms(2) unfolding post_reconciliations_def Let_def
    by (auto split: option.split_asm sum.split_asm if_split_asm dest!: r)
  then show ?thesis using dom_recordOutcome [OF assms(1)] assms(1) by metis
qed

lemma event_dom:
  assumes "ok s" and "post_provider_events repo verifyEvent is_datetime s now body signature = (s', er)"
  shows "ok s' \<and> dom (execution_of s') = dom (execution_of s)"
proof -
  have "s' = s \<or> (\<exists>ev out. repo_recordProviderRefundEvent repo s now ev = Inr (s', out))"
    using assms(2) unfolding post_provider_events_def
    by (auto split: option.split_asm sum.split_asm if_split_asm prod.split_asm EventResult.split_asm)
  then show ?thesis using dom_recordEvent [OF assms(1)] assms(1) by metis
qed

lemma dispatched_view:
  assumes "ok s" and "dispatchPendingProviderEvents repo signal now s = (s', sent)"
  shows "ok s' \<and> execution_of s' = execution_of s"
proof -
  have "deliver_events repo signal now es s = (s', sent) \<Longrightarrow> ok s \<Longrightarrow> ok s' \<and> execution_of s' = execution_of s" for es s s' sent
    by (induction es arbitrary: s s' sent) (auto simp: Let_def markDelivered split: if_split_asm prod.split_asm)
  with assms show ?thesis by (simp add: dispatchPendingProviderEvents_def)
qed

lemma step_keeps:
  assumes "gateway_step repo execution_of g g'" and "ok (gw_store g)" and "calls_reserved key execution_of g"
  shows "ok (gw_store g') \<and> calls_reserved key execution_of g'"
  using assms
proof (cases rule: gateway_step.cases)
  case (submit_reply eid verify can_execute getOrder now body header s' r)
  with submit_reply_dom [OF assms(2) submit_reply(2,3)] calls_reserved_mono [OF assms(3)] show ?thesis by simp
next
  case (submit_call eid verify can_execute getOrder now body header s' i call)
  then have "repo_reserve repo (gw_store g) now eid i = Inr (s', Reserved (pc_executionId call))"
    by (auto elim: refund_submit_CallProvider)
  note d = dom_reserve [OF assms(2) submit_call(2) this]
  then have "key i \<notin> dom (execution_of (gw_store g))" by auto
  with d(1,2) assms(3) submit_call(1) show ?thesis unfolding calls_reserved_def by auto
next
  case (answered i call now answer s' r)
  with answered_dom [OF assms(2) answered(3)] calls_reserved_mono [OF assms(3)] show ?thesis by simp
next
  case (reconciled verify getOrder now body header s' rr)
  with reconciled_dom [OF assms(2) reconciled(2)] calls_reserved_mono [OF assms(3)] show ?thesis by simp
next
  case (event verifyEvent is_datetime now body signature s' er)
  with event_dom [OF assms(2) event(2)] calls_reserved_mono [OF assms(3)] show ?thesis by simp
next
  case (dispatched signal now s' sent)
  with dispatched_view [OF assms(2) dispatched(2)] calls_reserved_mono [OF assms(3)] show ?thesis by simp
qed

lemma reachable_keeps:
  assumes "(gateway_step repo execution_of)\<^sup>*\<^sup>* g g'" and "ok (gw_store g)" and "calls_reserved key execution_of g"
  shows "ok (gw_store g') \<and> calls_reserved key execution_of g'"
  using assms by (induction rule: rtranclp_induct) (simp, blast dest: step_keeps)

lemma one_call_per_key:
  assumes "(gateway_step repo execution_of)\<^sup>*\<^sup>* g g'" and "ok (gw_store g)" and "gw_calls g = []"
  shows "length (filter (\<lambda>c. key (fst c) = k) (gw_calls g')) \<le> 1"
proof -
  have "distinct (map (\<lambda>c. key (fst c)) (gw_calls g'))"
    using reachable_keeps [OF assms(1,2)] assms(3) by (simp add: calls_reserved_def)
  then show ?thesis by (rule distinct_map_filter_le1)
qed

end

section \<open>Money is requested once for an idempotency key\<close>

definition empty_db :: RefundDb where
  "empty_db = \<lparr> db_executions = [], db_provider_events = [], db_audit_events = [] \<rparr>"

text \<open>
  C5. The provider is asked for money at most once for an idempotency key of a tenant's environment.
  This holds over any history of the gateway with the Postgres repository: requests that are
  repeated or run at the same time, handlers that never come back from the provider, answers that
  come late, reconciliations, provider events and deliveries, in any order.
\<close>

theorem provider_called_at_most_once:
  assumes "(gateway_step (postgresRepository ts) pg_execution_of)\<^sup>*\<^sup>* \<lparr> gw_store = empty_db, gw_calls = [] \<rparr> g"
  shows "length (filter (\<lambda>c. (ri_tenantId (fst c), ri_environmentId (fst c), ri_idempotencyKey (fst c)) = k) (gw_calls g)) \<le> 1"
  using pg.one_call_per_key [OF assms, of k] by (simp add: pg_ok_def empty_db_def input_key_def)

text \<open>
  The same holds for the in-memory repository that a gateway built without one uses, for its
  joined keys: two reservations whose joined keys are equal share one call.
\<close>

theorem in_memory_called_at_most_once:
  assumes "(gateway_step (inMemoryRepository collate) mem_execution_of)\<^sup>*\<^sup>* \<lparr> gw_store = \<lparr> mem_executions = [], mem_providerEvents = [] \<rparr>, gw_calls = [] \<rparr> g"
  shows "length (filter (\<lambda>c. ri_tenantId (fst c) @ '':'' @ ri_environmentId (fst c) @ '':'' @ ri_idempotencyKey (fst c) = k) (gw_calls g)) \<le> 1"
  using mem.one_call_per_key [OF assms, of k] by (simp add: mem_ok_def mem_key_def)

section \<open>What a repeated or late step does\<close>

lemma exhausted_ineligible:
  assumes "settled_payment order = Some payment"
    and "amountMinor (py_amount payment) - consumedAmountMinor (Some payment) < amountMinor (xq_amount req)" and "0 < amountMinor (xq_amount req)"
  shows "refund_ineligible order req"
proof -
  have "remainingPaymentAmountMinor (Some payment) < amountMinor (xq_amount req)"
    using assms(2,3) by (simp add: remainingPaymentAmountMinor_def)
  then have "amountMinor (ctx_refundableAmount (context_facts order (xq_selection req))) < amountMinor (xq_amount req)"
    using assms(1,3) by (auto simp: context_facts_def Let_def selectedMaximumMinor_def)
  then show ?thesis by (simp add: refund_ineligible_def Let_def)
qed

lemma refund_submit_repeated:
  assumes "execution_requestSchema body = Some req" and "ver header = Inr access" and "getOrder (xq_orderId req) = Inr (Some order)"
    and "map_option cu_id (co_customer order) = Some (ac_subjectCustomerId access)"
    and "pg_ok s" and "ts (iso_string now) = Some at"
    and "pg_execution_of s (ac_tenantId access, ac_environmentId access, xq_idempotencyKey req) = Some x"
  shows "refund_submit (postgresRepository ts) (Some ver) True getOrder s now eid body header
      = (s, Reply (if refund_ineligible order req then Inl (409, ''refund_no_longer_eligible'') else Inr (existing_reply x)))"
proof (cases "refund_ineligible order req")
  case False
  have pos: "0 < amountMinor (xq_amount req)" using execution_requestSchema_positive [OF assms(1)] by simp
  let ?i = "reserve_input access req now"
  have key: "pg_execution_of s (input_key ?i) = Some x" using assms(7) by (simp add: input_key_def reserve_input_def)
  then obtain row where "row \<in> set (db_executions s)" "row_key row = input_key ?i" "toExecution row = x"
    using assms(5) by (auto simp: pg_execution_of_Some)
  with filter_distinct [of row_key "db_executions s" row] assms(5,6) pos
  have r: "repo_reserve (postgresRepository ts) s now eid ?i = Inr (s, Existing x)"
    by (simp add: pg_ok_def postgresRepository_def pg_reserve_def reserve_input_def)
  obtain payment where "List.find (\<lambda>p. toUpperCase (py_status p) = ''SETTLED'') (co_payments order) = Some payment"
    using eligible_request [OF False pos] by metis
  with False assms(1-4) r show ?thesis by (simp add: refund_submit_def)
qed (use assms(1-4) in \<open>simp add: refund_submit_def\<close>)

text \<open>
  A request that is repeated under its key does not reach the provider and changes nothing. It is
  answered with the stored outcome, as long as the order still has room for the amount. Eligibility
  is tested first, though: once the refund it repeats has used up the balance, the repeated request
  is answered with a conflict although the refund succeeded.
\<close>

theorem repeated_request:
  assumes "execution_requestSchema body = Some req" and "ver header = Inr access" and "getOrder (xq_orderId req) = Inr (Some order)"
    and "map_option cu_id (co_customer order) = Some (ac_subjectCustomerId access)"
    and "pg_ok s" and "ts (iso_string now) = Some at"
    and "pg_execution_of s (ac_tenantId access, ac_environmentId access, xq_idempotencyKey req) = Some x"
  shows "post_refunds (postgresRepository ts) (Some ver) True getOrder executeRefund s now eid body header
      = (s, if refund_ineligible order req then Inl (409, ''refund_no_longer_eligible'') else Inr (existing_reply x))
    \<and> (\<forall>payment. settled_payment order = Some payment
        \<longrightarrow> amountMinor (py_amount payment) - consumedAmountMinor (Some payment) < amountMinor (xq_amount req) \<longrightarrow> refund_ineligible order req)"
  using refund_submit_repeated [of body req ver header access getOrder order s ts now at x eid] execution_requestSchema_positive [OF assms(1)] assms
  by (auto simp: post_refunds_def intro: exhausted_ineligible)

text \<open>
  A stored outcome is not final. For every repository that keeps the contract, and so for
  Postgres, a late answer of the provider replaces whatever has been recorded meanwhile: an execution
  that reconciliation found to have succeeded is submitted again.
\<close>

theorem late_answer_replaces_outcome:
  assumes "pg_ok s" and "pg_execution_of s k = Some x" and "execution_status x = Outcome SUCCEEDED"
  shows "\<exists>s'. refund_answered (postgresRepository ts) s now (executionId x) (Inr (P_SUBMITTED, pid))
      = (s', Inr \<lparr> er_status = SUBMITTED, er_providerRefundId = pid \<rparr>)
    \<and> pg_execution_of s' k = Some (set_execution (Outcome SUBMITTED) pid x)"
proof -
  obtain s' y where r: "repo_recordOutcome (postgresRepository ts) s now (executionId x) SUBMITTED pid = Inr (s', y)"
    using pg.recordOutcome_found [OF assms(1,2), of ts now SUBMITTED pid] by auto
  from pg.recordOutcome [OF assms(1) r] obtain k' old where o: "pg_execution_of s k' = Some old" "executionId old = executionId x"
      "y = set_execution (Outcome SUBMITTED) pid old" "pg_execution_of s' = (pg_execution_of s)(k' \<mapsto> y)" by blast
  with pg.ids_unique [OF assms(1) o(1) assms(2)] assms(2) have "k' = k" "old = x" by simp_all
  with r o show ?thesis by (intro exI [of _ s']) (simp add: refund_answered_def provider_response_def Let_def)
qed

text \<open>
  Reconciliation takes the first refund of the order that has the requested amount and currency,
  whichever execution it belongs to: when that refund has failed, an execution of the same amount
  that had succeeded with another refund of the provider is recorded and reported as failed.
\<close>

theorem reconciliation_takes_first_equal_amount:
  assumes "reconciliation_requestSchema body = Some req" and "ver header = Inr access" and "getOrder (rq_orderId req) = Inr (Some order)"
    and "map_option cu_id (co_customer order) = Some (ac_subjectCustomerId access)"
    and "concat (map py_refunds (co_payments order)) = refund # others"
    and "cr_amount refund = rq_amount req" and "toUpperCase (cr_status refund) = ''FAILED''"
    and "pg_ok s" and "pg_execution_of s k = Some x" and "execution_status x = Outcome SUCCEEDED"
    and "pg_findByWorkflowAndPreview s (ac_tenantId access) (ac_environmentId access) (ac_contextId access) (rq_previewId req) = Some x"
  shows "\<exists>s'. post_reconciliations (postgresRepository ts) (Some ver) getOrder s now body header
      = (s', Inr \<lparr> rr_status = RC_FAILED, rr_providerRefundId = Some (cr_id refund) \<rparr>)
    \<and> pg_execution_of s' k = Some (set_execution (Outcome FAILED) (Some (cr_id refund)) x)"
proof -
  obtain s' y where r: "repo_recordOutcome (postgresRepository ts) s now (executionId x) FAILED (Some (cr_id refund)) = Inr (s', y)"
    using pg.recordOutcome_found [OF assms(8,9), of ts now FAILED "Some (cr_id refund)"] by auto
  from pg.recordOutcome [OF assms(8) r] obtain k' old where o: "pg_execution_of s k' = Some old" "executionId old = executionId x"
      "y = set_execution (Outcome FAILED) (Some (cr_id refund)) old" "pg_execution_of s' = (pg_execution_of s)(k' \<mapsto> y)" by blast
  with pg.ids_unique [OF assms(8) o(1) assms(9)] assms(9) have "k' = k" "old = x" by simp_all
  have f: "repo_findByWorkflowAndPreview (postgresRepository ts) = pg_findByWorkflowAndPreview" by (simp add: postgresRepository_def)
  show ?thesis
    using assms(1-7,10,11) r o \<open>k' = k\<close> \<open>old = x\<close>
    by (intro exI [of _ s']) (simp add: post_reconciliations_def f Let_def record_if_changed_def map_sum_def)
qed

section \<open>A concrete gateway\<close>

definition sample_body :: json where
  "sample_body = JObj [(''orderId'', JStr ''o1''), (''reasonCode'', JStr ''DAMAGED''),
     (''amount'', JObj [(''amountMinor'', JNum 500), (''currency'', JStr ''USD'')]),
     (''selection'', JObj [(''scope'', JStr ''FULL_ORDER''), (''itemIds'', JArr [])]),
     (''idempotencyKey'', JStr ''k1''), (''previewId'', JStr ''pv1'')]"

definition sample_request :: ExecutionRequest where
  "sample_request = \<lparr> xq_orderId = ''o1'', xq_reasonCode = ''DAMAGED'', xq_amount = money 500 ''USD'',
     xq_selection = \<lparr> sel_scope = FULL_ORDER, sel_itemIds = [] \<rparr>, xq_idempotencyKey = ''k1'', xq_previewId = ''pv1'' \<rparr>"

lemma sample_body_parses: "execution_requestSchema sample_body = Some sample_request"
  by code_simp

definition sample_workflow_access :: OrderAccessContext where
  "sample_workflow_access = \<lparr> ac_contextId = ''wf1'', ac_tenantId = ''t1'', ac_environmentId = ''dev'', ac_subjectCustomerId = ''c1'',
     ac_routingEpoch = 1, ac_requestId = ''r1'', ac_traceId = ''tr1'' \<rparr>"

definition sample_verify :: access_verifier where
  "sample_verify header = Inr sample_workflow_access"

definition sample_getOrder :: "string \<Rightarrow> CommerceOrder option result" where
  "sample_getOrder i = Inr (Some sample_order)"

lemma sample_settled: "List.find (\<lambda>p. toUpperCase (py_status p) = ''SETTLED'') (co_payments sample_order) = Some (hd (co_payments sample_order))"
  using sample_payment(1) by (simp add: settled_payment_eq_Some find_filter_single)

lemma sample_eligible: "\<not> refund_ineligible sample_order sample_request"
  using sample_remaining sample_settled
  by (simp add: refund_ineligible_def context_facts_def Let_def context_itemSelectionValid_def selectedMaximumMinor_def sample_payment
      sample_request_def sample_order_parts)

definition sample_reservation :: ReserveRefundExecutionInput where
  "sample_reservation = reserve_input sample_workflow_access sample_request 0"

definition sample_call :: ProviderCall where
  "sample_call = \<lparr> pc_executionId = ''x1'', pc_paymentId = py_id (hd (co_payments sample_order)), pc_amount = money 500 ''USD'', pc_reason = ''DAMAGED'' \<rparr>"

lemma sample_submit:
  assumes "repo_reserve repo s 0 ''x1'' sample_reservation = Inr (s', Reserved ''x1'')"
  shows "refund_submit repo (Some sample_verify) True sample_getOrder s 0 ''x1'' sample_body None = (s', CallProvider sample_reservation sample_call)"
  using assms sample_eligible sample_settled
  by (simp add: refund_submit_def sample_body_parses sample_verify_def sample_getOrder_def sample_order_parts sample_workflow_access_def
      sample_reservation_def sample_call_def sample_request_def)

lemma sample_pg_reserve:
  "\<exists>s'. repo_reserve (postgresRepository (\<lambda>_. Some 0)) empty_db 0 ''x1'' sample_reservation = Inr (s', Reserved ''x1'')"
  by (simp add: postgresRepository_def pg_reserve_def empty_db_def sample_reservation_def reserve_input_def sample_request_def)

lemma sample_pg_step:
  "\<exists>s'. gateway_step (postgresRepository (\<lambda>_. Some 0)) pg_execution_of \<lparr> gw_store = empty_db, gw_calls = [] \<rparr>
     \<lparr> gw_store = s', gw_calls = [(sample_reservation, sample_call)] \<rparr>"
proof -
  obtain s' where "repo_reserve (postgresRepository (\<lambda>_. Some 0)) empty_db 0 ''x1'' sample_reservation = Inr (s', Reserved ''x1'')"
    using sample_pg_reserve by blast
  from gateway_step.submit_call [of pg_execution_of "\<lparr> gw_store = empty_db, gw_calls = [] \<rparr>" "''x1''"] sample_submit [OF this]
  have "gateway_step (postgresRepository (\<lambda>_. Some 0)) pg_execution_of \<lparr> gw_store = empty_db, gw_calls = [] \<rparr>
     \<lparr> gw_store = s', gw_calls = [(sample_reservation, sample_call)] \<rparr>"
    by (fastforce simp: fresh_id_def pg_execution_of_def empty_db_def)
  then show ?thesis by blast
qed

theorem provider_call_within_balance_witness:
  "\<exists>s'. refund_submit (postgresRepository (\<lambda>_. Some 0)) (Some sample_verify) True sample_getOrder empty_db 0 ''x1'' sample_body None
      = (s', CallProvider sample_reservation sample_call) \<and> 0 < amountMinor (pc_amount sample_call)"
proof -
  obtain s' where "repo_reserve (postgresRepository (\<lambda>_. Some 0)) empty_db 0 ''x1'' sample_reservation = Inr (s', Reserved ''x1'')"
    using sample_pg_reserve by blast
  note c = sample_submit [OF this]
  with provider_call_within_balance [OF c] show ?thesis by blast
qed

theorem provider_called_at_most_once_witness:
  "\<exists>s' g. g = \<lparr> gw_store = s', gw_calls = [(sample_reservation, sample_call)] \<rparr>
    \<and> (gateway_step (postgresRepository (\<lambda>_. Some 0)) pg_execution_of)\<^sup>*\<^sup>* \<lparr> gw_store = empty_db, gw_calls = [] \<rparr> g
    \<and> length (filter (\<lambda>c. (ri_tenantId (fst c), ri_environmentId (fst c), ri_idempotencyKey (fst c)) = (''t1'', ''dev'', ''k1'')) (gw_calls g)) \<le> 1"
proof -
  obtain s' where "gateway_step (postgresRepository (\<lambda>_. Some 0)) pg_execution_of \<lparr> gw_store = empty_db, gw_calls = [] \<rparr>
     \<lparr> gw_store = s', gw_calls = [(sample_reservation, sample_call)] \<rparr>" using sample_pg_step by blast
  then have r: "(gateway_step (postgresRepository (\<lambda>_. Some 0)) pg_execution_of)\<^sup>*\<^sup>* \<lparr> gw_store = empty_db, gw_calls = [] \<rparr>
     \<lparr> gw_store = s', gw_calls = [(sample_reservation, sample_call)] \<rparr>" by (rule r_into_rtranclp)
  show ?thesis using r provider_called_at_most_once [OF r] by blast
qed

definition empty_mem :: MemStore where
  "empty_mem = \<lparr> mem_executions = [], mem_providerEvents = [] \<rparr>"

theorem in_memory_called_at_most_once_witness:
  "\<exists>g. gw_calls g = [(sample_reservation, sample_call)]
    \<and> (gateway_step (inMemoryRepository (\<lambda>_. [])) mem_execution_of)\<^sup>*\<^sup>* \<lparr> gw_store = empty_mem, gw_calls = [] \<rparr> g
    \<and> length (filter (\<lambda>c. ri_tenantId (fst c) @ '':'' @ ri_environmentId (fst c) @ '':'' @ ri_idempotencyKey (fst c) = ''t1:dev:k1'') (gw_calls g)) \<le> 1"
proof -
  obtain s' where "repo_reserve (inMemoryRepository (\<lambda>_. [])) empty_mem 0 ''x1'' sample_reservation = Inr (s', Reserved ''x1'')"
    by (simp add: inMemoryRepository_def mem_reserve_def empty_mem_def)
  from gateway_step.submit_call [of mem_execution_of "\<lparr> gw_store = empty_mem, gw_calls = [] \<rparr>" "''x1''"] sample_submit [OF this]
  have "gateway_step (inMemoryRepository (\<lambda>_. [])) mem_execution_of \<lparr> gw_store = empty_mem, gw_calls = [] \<rparr>
     \<lparr> gw_store = s', gw_calls = [(sample_reservation, sample_call)] \<rparr>"
    by (fastforce simp: fresh_id_def mem_execution_of_def empty_mem_def)
  then have r: "(gateway_step (inMemoryRepository (\<lambda>_. [])) mem_execution_of)\<^sup>*\<^sup>* \<lparr> gw_store = \<lparr> mem_executions = [], mem_providerEvents = [] \<rparr>, gw_calls = [] \<rparr>
     \<lparr> gw_store = s', gw_calls = [(sample_reservation, sample_call)] \<rparr>" unfolding empty_mem_def by (rule r_into_rtranclp)
  show ?thesis using r in_memory_called_at_most_once [OF r] unfolding empty_mem_def by (intro exI [of _ "\<lparr> gw_store = s', gw_calls = [(sample_reservation, sample_call)] \<rparr>"]) simp
qed

definition sample_succeeded_db :: RefundDb where
  "sample_succeeded_db = sample_db\<lparr> db_executions := [sample_row\<lparr> xr_status := Outcome SUCCEEDED \<rparr>] \<rparr>"

definition sample_execution :: RefundExecution where
  "sample_execution = \<lparr> executionId = ''x1'', execution_status = Outcome SUCCEEDED, execution_providerRefundId = Some ''r9'' \<rparr>"

lemma sample_succeeded:
  "pg_ok sample_succeeded_db" "pg_execution_of sample_succeeded_db (''t1'', ''dev'', ''k1'') = Some sample_execution"
  "pg_findByWorkflowAndPreview sample_succeeded_db ''t1'' ''dev'' ''wf1'' ''pv1'' = Some sample_execution"
  by (simp_all add: sample_succeeded_db_def sample_db_def sample_row_def pg_ok_def pg_execution_of_def row_key_def toExecution_def
      sample_execution_def pg_findByWorkflowAndPreview_def latest_def)

theorem repeated_request_witness:
  "snd (post_refunds (postgresRepository (\<lambda>_. Some 0)) (Some sample_verify) True sample_getOrder (\<lambda>_. Inl FetchError) sample_succeeded_db 0 ''x2'' sample_body None)
    = Inr \<lparr> er_status = SUCCEEDED, er_providerRefundId = Some ''r9'' \<rparr>"
proof -
  have "post_refunds (postgresRepository (\<lambda>_. Some 0)) (Some sample_verify) True sample_getOrder (\<lambda>_. Inl FetchError) sample_succeeded_db 0 ''x2'' sample_body None
    = (sample_succeeded_db, if refund_ineligible sample_order sample_request then Inl (409, ''refund_no_longer_eligible'') else Inr (existing_reply sample_execution))"
    using repeated_request [OF sample_body_parses, of sample_verify None sample_workflow_access sample_getOrder sample_order sample_succeeded_db
        "\<lambda>_. Some 0" 0 0 sample_execution] sample_succeeded(1,2)
    by (simp add: sample_verify_def sample_getOrder_def sample_order_parts sample_workflow_access_def sample_request_def)
  then show ?thesis by (simp add: sample_eligible existing_reply_def sample_execution_def)
qed

theorem late_answer_replaces_outcome_witness:
  "\<exists>s'. refund_answered (postgresRepository (\<lambda>_. Some 0)) sample_succeeded_db 7 ''x1'' (Inr (P_SUBMITTED, Some ''r9''))
      = (s', Inr \<lparr> er_status = SUBMITTED, er_providerRefundId = Some ''r9'' \<rparr>)
    \<and> map_option execution_status (pg_execution_of s' (''t1'', ''dev'', ''k1'')) = Some (Outcome SUBMITTED)"
  using late_answer_replaces_outcome [OF sample_succeeded(1,2), of "\<lambda>_. Some 0" 7 "Some ''r9''"]
  by (auto simp: sample_execution_def set_execution_def)

definition sample_reconciliation_body :: json where
  "sample_reconciliation_body = JObj [(''orderId'', JStr ''o1''), (''previewId'', JStr ''pv1''),
     (''amount'', JObj [(''amountMinor'', JNum 300), (''currency'', JStr ''USD'')])]"

lemma sample_reconciliation_parses:
  "reconciliation_requestSchema sample_reconciliation_body = Some \<lparr> rq_orderId = ''o1'', rq_previewId = ''pv1'', rq_amount = money 300 ''USD'' \<rparr>"
  by code_simp

theorem reconciliation_takes_first_equal_amount_witness:
  "\<exists>s'. post_reconciliations (postgresRepository (\<lambda>_. Some 0)) (Some sample_verify) sample_getOrder sample_succeeded_db 7 sample_reconciliation_body None
      = (s', Inr \<lparr> rr_status = RC_FAILED, rr_providerRefundId = Some ''r1'' \<rparr>)
    \<and> map_option execution_status (pg_execution_of s' (''t1'', ''dev'', ''k1'')) = Some (Outcome FAILED)"
proof -
  obtain refund where c: "concat (map py_refunds (co_payments sample_order)) = [refund]"
      and f: "cr_amount refund = money 300 ''USD''" "cr_id refund = ''r1''" "cr_status refund = ''Failed''"
    by (simp add: sample_order_def sample_vendure_order_def toCommerceOrder_def Let_def or_empty_def)
  from reconciliation_takes_first_equal_amount [OF sample_reconciliation_parses, of sample_verify None sample_workflow_access sample_getOrder sample_order refund "[]"
      sample_succeeded_db "(''t1'', ''dev'', ''k1'')" sample_execution "\<lambda>_. Some 0" 7] c f sample_succeeded upper_samples
  show ?thesis by (auto simp: sample_verify_def sample_getOrder_def sample_order_parts sample_workflow_access_def sample_execution_def set_execution_def)
qed

end
