(* ===== verification/Worker_Clients.thy ===== *)
theory Worker_Clients
  imports Gateway_Routes
begin

text \<open>
  The outgoing side of the refund workers, under \<^verbatim>\<open>src/apps/services/workflow-workers/src/\<close>:
  \<^verbatim>\<open>integration-gateway-client.ts\<close>, \<^verbatim>\<open>human-operations-case-client.ts\<close>, the client of
  \<^verbatim>\<open>refund-evidence-client.ts\<close> and the activities of \<^verbatim>\<open>refund-workflow-activities.ts\<close>. An HTTP exchange
  is the argument \<^verbatim>\<open>fetch\<close>: it takes the body and the assertion, and is rejected (network failure or
  timeout) or gives a status and a body, which is JSON or throws. The lemmas join the clients to the
  gateway's routes: what one side writes the other side reads.
\<close>

type_synonym fetch = "json \<Rightarrow> string \<Rightarrow> (nat \<times> json result) result"
type_synonym access_signer = "WorkflowAccessAssertionInput \<Rightarrow> string result"

definition response_ok :: "nat \<Rightarrow> bool" where
  "response_ok status \<longleftrightarrow> 200 \<le> status \<and> status < 300"

definition scope_check :: "string \<Rightarrow> string \<Rightarrow> WorkflowJourneyAccess \<Rightarrow> unit result" where
  "scope_check expectedTenantId expectedEnvironmentId access =
     throw_if (tenantId access \<noteq> expectedTenantId \<or> environmentId access \<noteq> expectedEnvironmentId) (Error ''WORKFLOW_ACCESS_SCOPE_MISMATCH'')"

section \<open>The integration gateway\<close>

definition moneySchema :: "json \<Rightarrow> Money option" where
  "moneySchema v = do { v \<leftarrow> z_object [''amountMinor'', ''currency''] v;
     n \<leftarrow> z_int_min (- MAX_SAFE_INTEGER) (get_prop ''amountMinor'' v); c \<leftarrow> z_string (get_prop ''currency'' v); Some (money n c) }"

definition scope_enum :: "json \<Rightarrow> Scope option" where
  "scope_enum = z_enum [(''FULL_ORDER'', FULL_ORDER), (''SELECTED_ITEMS'', SELECTED_ITEMS)]"

definition refundContextSchema :: "json \<Rightarrow> RefundContext option" where
  "refundContextSchema body =
     do {
       v \<leftarrow> z_object [''schemaVersion'', ''observationId'', ''observedAt'', ''source'', ''selection'', ''facts''] body;
       _ \<leftarrow> z_literal ''1'' (get_prop ''schemaVersion'' v);
       oid \<leftarrow> z_string (get_prop ''observationId'' v);
       at \<leftarrow> z_string (get_prop ''observedAt'' v);
       src \<leftarrow> z_object [''provider'', ''orderId'', ''factsVersion''] (get_prop ''source'' v);
       pr \<leftarrow> z_string (get_prop ''provider'' src);
       order \<leftarrow> z_string (get_prop ''orderId'' src);
       ver \<leftarrow> z_string (get_prop ''factsVersion'' src);
       sel \<leftarrow> z_object [''scope'', ''itemIds''] (get_prop ''selection'' v);
       sc \<leftarrow> scope_enum (get_prop ''scope'' sel);
       items \<leftarrow> z_array z_string (get_prop ''itemIds'' sel);
       facts \<leftarrow> z_object [''customerVerified'', ''transactionRefundable'', ''itemSelectionValid'', ''priorRefundCount'', ''refundableAmount'', ''refundDestination'']
          (get_prop ''facts'' v);
       _ \<leftarrow> (if get_prop ''customerVerified'' facts = JBool True then Some () else None);
       refundable \<leftarrow> z_bool (get_prop ''transactionRefundable'' facts);
       valid \<leftarrow> z_bool (get_prop ''itemSelectionValid'' facts);
       prior \<leftarrow> z_int_min 0 (get_prop ''priorRefundCount'' facts);
       amount \<leftarrow> moneySchema (get_prop ''refundableAmount'' facts);
       _ \<leftarrow> z_literal ''ORIGINAL_PAYMENT_METHOD'' (get_prop ''refundDestination'' facts);
       Some \<lparr> observationId = oid, ctx_observedAt = at, ctx_source = \<lparr> provider = pr, src_orderId = order, factsVersion = ver \<rparr>,
         selection = \<lparr> sel_scope = sc, sel_itemIds = items \<rparr>,
         ctx_facts = \<lparr> ctx_customerVerified = True, ctx_transactionRefundable = refundable, ctx_itemSelectionValid = valid,
           ctx_priorRefundCount = prior, ctx_refundableAmount = amount, ctx_refundDestination = ORIGINAL_PAYMENT_METHOD \<rparr> \<rparr>
     }"

definition execution_status_table :: "(string \<times> ExecutionStatus) list" where
  "execution_status_table = [(''SUBMITTED'', SUBMITTED), (''SUCCEEDED'', SUCCEEDED), (''FAILED'', FAILED), (''PENDING_RECONCILIATION'', PENDING_RECONCILIATION)]"

definition refundExecutionSchema :: "json \<Rightarrow> ExecuteRefundResult option" where
  "refundExecutionSchema body =
     do {
       v \<leftarrow> z_object [''status'', ''providerRefundId''] body;
       st \<leftarrow> z_enum execution_status_table (get_prop ''status'' v);
       pid \<leftarrow> z_optional z_string (get_prop ''providerRefundId'' v);
       Some \<lparr> er_status = st, er_providerRefundId = pid \<rparr>
     }"

definition reconciliation_status_table :: "(string \<times> ReconciliationStatus) list" where
  "reconciliation_status_table = [(''SUCCEEDED'', RC_SUCCEEDED), (''FAILED'', RC_FAILED), (''PROCESSING'', RC_PROCESSING), (''NOT_FOUND'', RC_NOT_FOUND)]"

definition reconciliation_resultSchema :: "json \<Rightarrow> ReconcileRefundResult option" where
  "reconciliation_resultSchema body =
     do {
       v \<leftarrow> z_object [''status'', ''providerRefundId''] body;
       st \<leftarrow> z_enum reconciliation_status_table (get_prop ''status'' v);
       pid \<leftarrow> z_optional z_string (get_prop ''providerRefundId'' v);
       Some \<lparr> rr_status = st, rr_providerRefundId = pid \<rparr>
     }"

definition parse_with :: "(json \<Rightarrow> 'a option) \<Rightarrow> json \<Rightarrow> 'a result" where
  "parse_with schema v = (case schema v of None \<Rightarrow> Inl ZodError | Some a \<Rightarrow> Inr a)"

definition refund_context_body :: "RefundProposal \<Rightarrow> json" where
  "refund_context_body proposal = JObj [(''orderId'', JStr (orderId (intent proposal))),
     (''selection'', JObj [(''scope'', JStr (scope_string (scope (intent proposal)))), (''itemIds'', JArr (map JStr (itemIds (intent proposal))))])]"

definition client_fetchRefundContext :: "access_signer \<Rightarrow> fetch \<Rightarrow> string \<Rightarrow> string \<Rightarrow> RefreshRefundContextInput \<Rightarrow> RefundContext result" where
  "client_fetchRefundContext sign fetch expectedTenantId expectedEnvironmentId input =
     bindE (scope_check expectedTenantId expectedEnvironmentId (rf_access input)) (\<lambda>_.
     bindE (throw_if (scope (intent (rf_proposal input)) = SCOPE_UNSPECIFIED) (Error ''REFUND_SELECTION_REQUIRED'')) (\<lambda>_.
     bindE (sign \<lparr> wi_workflowId = rf_workflowId input, wi_access = rf_access input, wi_purpose = P_refund_fact_refresh \<rparr>) (\<lambda>assertion.
     case fetch (refund_context_body (rf_proposal input)) assertion of
        Inl _ \<Rightarrow> Inl (Error ''Integration Gateway refund context request failed'')
      | Inr (status, payload) \<Rightarrow>
          if \<not> response_ok status then Inl (Error (''Integration Gateway returned '' @ show_nat status))
          else bindE payload (parse_with refundContextSchema))))"

definition idempotency_key :: "ExecuteRefundInput \<Rightarrow> string" where
  "idempotency_key input = ''refund:'' @ ex_workflowId input @ '':'' @ previewId (ex_preview input)"

definition execution_body :: "ExecuteRefundInput \<Rightarrow> json" where
  "execution_body input = JObj [(''orderId'', JStr (orderId (intent (ex_proposal input)))), (''reasonCode'', JStr (reasonCode (intent (ex_proposal input)))),
     (''amount'', money_json (pre_requestedAmount (ex_preview input))), (''selection'', selection_json (pre_selection (ex_preview input))),
     (''previewId'', JStr (previewId (ex_preview input))), (''idempotencyKey'', JStr (idempotency_key input))]"

text \<open>
  A rejected or failing exchange leaves the outcome unknown; an answer from 300 up to 499 is a
  refusal and counts as a failed refund.
\<close>

definition client_executeRefund :: "access_signer \<Rightarrow> fetch \<Rightarrow> string \<Rightarrow> string \<Rightarrow> ExecuteRefundInput \<Rightarrow> ExecuteRefundResult result" where
  "client_executeRefund sign fetch expectedTenantId expectedEnvironmentId input =
     bindE (scope_check expectedTenantId expectedEnvironmentId (ex_access input)) (\<lambda>_.
     bindE (sign \<lparr> wi_workflowId = ex_workflowId input, wi_access = ex_access input, wi_purpose = P_refund_execute \<rparr>) (\<lambda>assertion.
     case fetch (execution_body input) assertion of
        Inl _ \<Rightarrow> Inr \<lparr> er_status = PENDING_RECONCILIATION, er_providerRefundId = None \<rparr>
      | Inr (status, payload) \<Rightarrow>
          if status \<ge> 500 then Inr \<lparr> er_status = PENDING_RECONCILIATION, er_providerRefundId = None \<rparr>
          else if \<not> response_ok status then Inr \<lparr> er_status = FAILED, er_providerRefundId = None \<rparr>
          else bindE payload (parse_with refundExecutionSchema)))"

definition client_reconcileRefund :: "access_signer \<Rightarrow> fetch \<Rightarrow> ExecuteRefundInput \<Rightarrow> ReconcileRefundResult result" where
  "client_reconcileRefund sign fetch input =
     bindE (sign \<lparr> wi_workflowId = ex_workflowId input, wi_access = ex_access input, wi_purpose = P_refund_reconcile \<rparr>) (\<lambda>assertion.
     case fetch (JObj [(''orderId'', JStr (orderId (intent (ex_proposal input)))), (''previewId'', JStr (previewId (ex_preview input))),
                      (''amount'', money_json (pre_requestedAmount (ex_preview input)))]) assertion of
        Inl _ \<Rightarrow> Inr \<lparr> rr_status = RC_NOT_FOUND, rr_providerRefundId = None \<rparr>
      | Inr (status, payload) \<Rightarrow>
          if \<not> response_ok status then Inr \<lparr> rr_status = RC_NOT_FOUND, rr_providerRefundId = None \<rparr>
          else bindE payload (parse_with reconciliation_resultSchema))"

section \<open>Human operations\<close>

definition reason_code_strings :: "string list \<Rightarrow> json" where
  "reason_code_strings codes = JArr (map JStr codes)"

text \<open>The display projection of a case: no hashes, no decision ids, no customer message.\<close>

definition toHumanOperationsReviewPacket :: "OpenHumanCaseInput \<Rightarrow> json" where
  "toHumanOperationsReviewPacket input =
     (let packet = oc_reviewPacket input; int' = intent (pk_proposal packet); policy = pk_policy packet in
      JObj ((case pk_orderReference packet of None \<Rightarrow> [] | Some r \<Rightarrow> [(''order_reference'', JStr r)])
        @ [(''selected_item_ids'', JArr (map JStr (itemIds int')))]
        @ (case requestedAmount int' of None \<Rightarrow> [] | Some m \<Rightarrow>
             [(''requested_amount'', JObj [(''amount_minor'', JNum (amountMinor m)), (''currency'', JStr (currency m))])])
        @ [(''refund_reason'', JStr (reasonCode int')), (''policy_reason_codes'', reason_code_strings (pk_reasonCodes policy)),
           (''evidence_ids'', JArr (map (\<lambda>r. JStr (factId r)) (pk_factRefs policy))), (''policy_version'', JStr (pk_policyVersion policy))]))"

definition case_type_string :: "HumanCaseType \<Rightarrow> string" where
  "case_type_string t = (case t of REFUND_APPROVAL \<Rightarrow> ''REFUND_APPROVAL'' | REFUND_TAKEOVER \<Rightarrow> ''REFUND_TAKEOVER''
     | REFUND_EVIDENCE_REVIEW \<Rightarrow> ''REFUND_EVIDENCE_REVIEW'')"

definition acceptedCaseResponseSchema :: "json \<Rightarrow> string option" where
  "acceptedCaseResponseSchema v =
     (if \<not> isRecord v \<or> \<not> isRecord (get_prop ''refund_case'' v) then None else z_string_min1 (get_prop ''case_id'' (get_prop ''refund_case'' v)))"

text \<open>The path, the idempotency key, the body and the assertion of a request.\<close>

type_synonym case_fetch = "string \<Rightarrow> string \<Rightarrow> fetch"

definition case_post ::
  "access_signer \<Rightarrow> case_fetch \<Rightarrow> string \<Rightarrow> string \<Rightarrow> string \<Rightarrow> string \<Rightarrow> WorkflowJourneyAccess \<Rightarrow> string \<Rightarrow> json \<Rightarrow> Purpose \<Rightarrow> string result" where
  "case_post sign fetch expectedTenantId expectedEnvironmentId path workflowId access key body purpose =
     bindE (scope_check expectedTenantId expectedEnvironmentId access) (\<lambda>_.
     bindE (sign \<lparr> wi_workflowId = workflowId, wi_access = access, wi_purpose = purpose \<rparr>) (\<lambda>assertion.
     case fetch path key body assertion of
        Inl _ \<Rightarrow> Inl (Error ''Human Operations case request failed'')
      | Inr (status, payload) \<Rightarrow>
          if \<not> response_ok status then Inl (Error (''Human Operations returned '' @ show_nat status))
          else bindE payload (parse_with acceptedCaseResponseSchema)))"

definition client_openHumanCase :: "access_signer \<Rightarrow> case_fetch \<Rightarrow> string \<Rightarrow> string \<Rightarrow> OpenHumanCaseInput \<Rightarrow> string result" where
  "client_openHumanCase sign fetch expectedTenantId expectedEnvironmentId input =
     case_post sign fetch expectedTenantId expectedEnvironmentId ''/internal/v1/refund-cases'' (oc_workflowId input) (oc_access input) (oc_idempotencyKey input)
       (JObj [(''workflow_id'', JStr (oc_workflowId input)), (''case_type'', JStr (case_type_string (oc_caseType input))),
          (''review_packet'', toHumanOperationsReviewPacket input), (''policy_version'', JStr (pk_policyVersion (pk_policy (oc_reviewPacket input))))])
       P_human_case_open"

definition client_closeHumanCase ::
  "(string \<Rightarrow> string) \<Rightarrow> access_signer \<Rightarrow> case_fetch \<Rightarrow> string \<Rightarrow> string \<Rightarrow> CloseHumanCaseInput \<Rightarrow> unit result" where
  "client_closeHumanCase encodeURIComponent sign fetch expectedTenantId expectedEnvironmentId input =
     bindE (case_post sign fetch expectedTenantId expectedEnvironmentId
       (''/internal/v1/refund-cases/'' @ encodeURIComponent (cc_caseId input) @ ''/close'') (cc_workflowId input) (cc_access input) (cc_idempotencyKey input)
       (JObj [(''workflow_id'', JStr (cc_workflowId input))]) P_human_case_close) (\<lambda>_. Inr ())"

section \<open>Refund evidence\<close>

text \<open>
  The answer of the evidence service: \<^verbatim>\<open>Inr (status, Some (bytes, json))\<close> has a body of that many bytes;
  the body is read up to 65536 bytes.
\<close>

type_synonym evidence_fetch = "string \<Rightarrow> json option \<Rightarrow> string option \<Rightarrow> string \<Rightarrow> (nat \<times> (nat \<times> json result) option) result"

definition evidence_call ::
  "access_signer \<Rightarrow> evidence_fetch \<Rightarrow> string \<Rightarrow> string \<Rightarrow> string \<Rightarrow> WorkflowJourneyAccess \<Rightarrow> string \<Rightarrow> Purpose \<Rightarrow> json option \<Rightarrow> string option
   \<Rightarrow> json result" where
  "evidence_call sign fetch expectedTenantId expectedEnvironmentId workflowId access path purpose body key =
     bindE (scope_check expectedTenantId expectedEnvironmentId access) (\<lambda>_.
     bindE (sign \<lparr> wi_workflowId = workflowId, wi_access = access, wi_purpose = purpose \<rparr>) (\<lambda>assertion.
     bindE (fetch path body key assertion) (\<lambda>(status, content).
       if \<not> response_ok status then Inl (Error (''REFUND_EVIDENCE_UNAVAILABLE_'' @ show_nat status))
       else (case content of
          None \<Rightarrow> Inl (Error ''EMPTY_EVIDENCE_RESPONSE'')
        | Some (bytes, json) \<Rightarrow> if bytes > 65536 then Inl (Error ''EVIDENCE_RESPONSE_TOO_LARGE'') else json))))"

definition evidence_path :: "(string \<Rightarrow> string) \<Rightarrow> string \<Rightarrow> string" where
  "evidence_path encodeURIComponent i = ''/internal/v1/refund-evidence/'' @ encodeURIComponent i"

definition client_openRefundEvidence ::
  "(string \<Rightarrow> bool) \<Rightarrow> access_signer \<Rightarrow> evidence_fetch \<Rightarrow> string \<Rightarrow> string \<Rightarrow> int \<Rightarrow> OpenHumanCaseInput \<Rightarrow> EvidenceSnapshot result" where
  "client_openRefundEvidence is_uuid sign fetch expectedTenantId expectedEnvironmentId now input =
     (let proposal = pk_proposal (oc_reviewPacket input); ver = pk_policyVersion (pk_policy (oc_reviewPacket input)) in
      bindE (evidence_call sign fetch expectedTenantId expectedEnvironmentId (oc_workflowId input) (oc_access input)
        ''/internal/v1/refund-evidence/collections'' P_refund_evidence_open
        (Some (JObj [(''workflow_id'', JStr (oc_workflowId input)), (''order_id'', JStr (orderId (intent proposal))),
          (''proposal_id'', JStr (proposalId proposal)), (''selected_item_ids'', JArr (map JStr (itemIds (intent proposal)))),
          (''review_packet'', toHumanOperationsReviewPacket input), (''policy_version'', JStr ver)]))
        (Some (''workflow:'' @ oc_workflowId input @ '':evidence:open'')))
      (\<lambda>data. parseEvidenceSnapshot is_uuid data proposal ver now))"

definition client_readRefundEvidence ::
  "(string \<Rightarrow> bool) \<Rightarrow> (string \<Rightarrow> string) \<Rightarrow> access_signer \<Rightarrow> evidence_fetch \<Rightarrow> string \<Rightarrow> string \<Rightarrow> int \<Rightarrow> EvidenceAccess \<Rightarrow> EvidenceSnapshot result" where
  "client_readRefundEvidence is_uuid encodeURIComponent sign fetch expectedTenantId expectedEnvironmentId now input =
     (let i = ea_refresh input in
      bindE (evidence_call sign fetch expectedTenantId expectedEnvironmentId (rf_workflowId i) (rf_access i)
        (evidence_path encodeURIComponent (rf_workflowId i)) P_refund_evidence_read None None)
      (\<lambda>data. parseEvidenceSnapshot is_uuid data (rf_proposal i) (ea_policyVersion input) now))"

definition client_transitionRefundEvidence ::
  "(string \<Rightarrow> string) \<Rightarrow> access_signer \<Rightarrow> evidence_fetch \<Rightarrow> string \<Rightarrow> string \<Rightarrow> OpenHumanCaseInput \<Rightarrow> int \<Rightarrow> string result" where
  "client_transitionRefundEvidence encodeURIComponent sign fetch expectedTenantId expectedEnvironmentId input version =
     bindE (evidence_call sign fetch expectedTenantId expectedEnvironmentId (oc_workflowId input) (oc_access input)
       (evidence_path encodeURIComponent (oc_workflowId input) @ ''/transition'') P_human_case_transition
       (Some (JObj [(''case_type'', JStr (case_type_string (oc_caseType input))), (''review_packet'', toHumanOperationsReviewPacket input),
          (''policy_version'', JStr (pk_policyVersion (pk_policy (oc_reviewPacket input)))), (''expected_evidence_version'', JNum version)]))
       (Some (''workflow:'' @ oc_workflowId input @ '':evidence:transition:'' @ case_type_string (oc_caseType input) @ '':'' @ show_int version)))
     (parse_with acceptedCaseResponseSchema)"

definition close_outcome_string :: "EvidenceCloseOutcome \<Rightarrow> string" where
  "close_outcome_string o' = (case o' of EVIDENCE_REVIEW_COMPLETED \<Rightarrow> ''EVIDENCE_REVIEW_COMPLETED''
     | EVIDENCE_COLLECTION_EXPIRED_OUTCOME \<Rightarrow> ''EVIDENCE_COLLECTION_EXPIRED'')"

definition client_closeRefundEvidence ::
  "(string \<Rightarrow> string) \<Rightarrow> access_signer \<Rightarrow> evidence_fetch \<Rightarrow> string \<Rightarrow> string \<Rightarrow> EvidenceAccess \<Rightarrow> string \<Rightarrow> EvidenceCloseOutcome \<Rightarrow> unit result" where
  "client_closeRefundEvidence encodeURIComponent sign fetch expectedTenantId expectedEnvironmentId input caseId outcome =
     (let i = ea_refresh input in
      bindE (evidence_call sign fetch expectedTenantId expectedEnvironmentId (rf_workflowId i) (rf_access i)
        (''/internal/v1/refund-cases/'' @ encodeURIComponent caseId @ ''/close'') P_human_case_close
        (Some (JObj [(''workflow_id'', JStr (rf_workflowId i)), (''outcome'', JStr (close_outcome_string outcome))]))
        (Some (''workflow:'' @ rf_workflowId i @ '':evidence:close:'' @ close_outcome_string outcome)))
      (\<lambda>_. Inr ()))"

section \<open>The activities\<close>

record ActivityDependencies =
  dep_fetchRefundContext :: "RefreshRefundContextInput \<Rightarrow> RefundContext result"
  dep_executeRefund :: "ExecuteRefundInput \<Rightarrow> ExecuteRefundResult result"
  dep_reconcileRefund :: "ExecuteRefundInput \<Rightarrow> ReconcileRefundResult result"
  dep_openHumanCase :: "OpenHumanCaseInput \<Rightarrow> string result"
  dep_closeHumanCase :: "CloseHumanCaseInput \<Rightarrow> unit result"
  dep_getPolicyRelease :: "string \<Rightarrow> RefundPolicyRelease result"
  dep_createDecisionContext :: "EvaluateRefundPolicyInput \<Rightarrow> PolicyDecisionContext"
  dep_createPreviewContext :: "string \<times> string"
  dep_openRefundEvidence :: "OpenHumanCaseInput \<Rightarrow> EvidenceSnapshot result"
  dep_readRefundEvidence :: "EvidenceAccess \<Rightarrow> EvidenceSnapshot result"
  dep_transitionRefundEvidence :: "OpenHumanCaseInput \<Rightarrow> int \<Rightarrow> string result"
  dep_closeRefundEvidence :: "EvidenceAccess \<Rightarrow> string \<Rightarrow> EvidenceCloseOutcome \<Rightarrow> unit result"

text \<open>\<^verbatim>\<open>createRefundWorkflowActivities\<close>: what each activity does with its dependencies. Telemetry wraps the calls only.\<close>

definition perform :: "(string \<Rightarrow> string) \<Rightarrow> ActivityDependencies \<Rightarrow> call \<Rightarrow> reply result" where
  "perform sha256_hex deps c =
     (case c of
        RefreshRefundContext i \<Rightarrow> map_sum id R_Context (dep_fetchRefundContext deps i)
      | EvaluateRefundPolicy i \<Rightarrow>
          bindE (createRefundPolicyInput (ev_proposal i) (ev_refundContext i) (ev_policyVersion i) (ev_damageEvidence i)) (\<lambda>input.
          bindE (dep_getPolicyRelease deps (ev_policyVersion i)) (\<lambda>release.
          map_sum id R_Decision (evaluateRefundPolicy sha256_hex input release (dep_createDecisionContext deps i))))
      | CreateRefundPreview i \<Rightarrow>
          map_sum id R_Preview (createRefundPreview (cp_proposal i) (cp_refundContext i) (cp_decision i) (cp_authorization i)
            (fst (dep_createPreviewContext deps)) (snd (dep_createPreviewContext deps)))
      | RecordRefundConfirmation \<Rightarrow> Inr R_Void
      | ExecuteRefund i \<Rightarrow> map_sum id R_Execute (dep_executeRefund deps i)
      | ReconcileRefund i \<Rightarrow> map_sum id R_Reconcile (dep_reconcileRefund deps i)
      | OpenHumanCase i \<Rightarrow> map_sum id R_Case (dep_openHumanCase deps i)
      | CloseHumanCase i \<Rightarrow> map_sum id (\<lambda>_. R_Void) (dep_closeHumanCase deps i)
      | OpenRefundEvidence i \<Rightarrow> map_sum id R_Evidence (dep_openRefundEvidence deps i)
      | ReadRefundEvidence i \<Rightarrow> map_sum id R_Evidence (dep_readRefundEvidence deps i)
      | TransitionRefundEvidence i v \<Rightarrow> map_sum id R_Case (dep_transitionRefundEvidence deps i v)
      | CloseRefundEvidence i caseId outcome \<Rightarrow> map_sum id (\<lambda>_. R_Void) (dep_closeRefundEvidence deps i caseId outcome))"

section \<open>The worker and the gateway understand each other\<close>

definition http_response :: "('a \<Rightarrow> json) \<Rightarrow> 'a http \<Rightarrow> nat \<times> json result" where
  "http_response encode r = (case r of
       Inl (status, code) \<Rightarrow> (status, Inr (JObj [(''error'', JObj [(''code'', JStr code)])]))
     | Inr a \<Rightarrow> (200, Inr (encode a)))"

definition refund_context_json :: "RefundContext \<Rightarrow> json" where
  "refund_context_json c = JObj [(''schemaVersion'', JStr ''1''), (''observationId'', JStr (observationId c)), (''observedAt'', JStr (ctx_observedAt c)),
     (''source'', JObj [(''provider'', JStr (provider (ctx_source c))), (''orderId'', JStr (src_orderId (ctx_source c))),
        (''factsVersion'', JStr (factsVersion (ctx_source c)))]),
     (''selection'', selection_json (selection c)), (''facts'', context_facts_json (ctx_facts c))]"

definition execution_status_string :: "ExecutionStatus \<Rightarrow> string" where
  "execution_status_string st = (case st of SUBMITTED \<Rightarrow> ''SUBMITTED'' | SUCCEEDED \<Rightarrow> ''SUCCEEDED'' | FAILED \<Rightarrow> ''FAILED''
     | PENDING_RECONCILIATION \<Rightarrow> ''PENDING_RECONCILIATION'')"

definition execution_json :: "ExecuteRefundResult \<Rightarrow> json" where
  "execution_json r = JObj ((''status'', JStr (execution_status_string (er_status r)))
     # (case er_providerRefundId r of None \<Rightarrow> [] | Some p \<Rightarrow> [(''providerRefundId'', JStr p)]))"

text \<open>An exchange with the gateway that is not interrupted.\<close>

definition gateway_context_fetch ::
  "(string \<Rightarrow> string) \<Rightarrow> access_verifier \<Rightarrow> access_verifier option \<Rightarrow> (string \<Rightarrow> CommerceOrder option result) \<Rightarrow> string \<Rightarrow> int \<Rightarrow> fetch" where
  "gateway_context_fetch sha256_hex verifyContext verifyWorkflow getOrder oid now body assertion =
     Inr (http_response refund_context_json (post_refund_contexts sha256_hex verifyContext verifyWorkflow getOrder oid now body None (Some assertion)))"

definition gateway_execution_fetch ::
  "'s RefundExecutionRepository \<Rightarrow> access_verifier option \<Rightarrow> (string \<Rightarrow> CommerceOrder option result)
   \<Rightarrow> (ProviderCall \<Rightarrow> (ProviderStatus \<times> string option) result) \<Rightarrow> 's \<Rightarrow> int \<Rightarrow> string \<Rightarrow> fetch" where
  "gateway_execution_fetch repo verify getOrder executeRefund s now eid body assertion =
     Inr (http_response execution_json (snd (post_refunds repo verify True getOrder executeRefund s now eid body (Some assertion))))"

lemma z_all_map_JStr: "z_all z_string (map JStr xs) = Some xs"
  by (induction xs) simp_all

lemma z_all_trimmed: "z_all (z_trimmed n) (map JStr xs) = Some ys \<Longrightarrow> ys = map trim xs"
  by (induction xs arbitrary: ys) (auto simp: bind_eq_Some_conv z_trimmed_def Let_def split: if_split_asm)

lemma scope_enum_string: "sc \<noteq> SCOPE_UNSPECIFIED \<Longrightarrow> scope_enum (JStr (scope_string sc)) = Some sc"
  by (cases sc) (simp_all add: scope_enum_def z_enum_def scope_string_def)

lemma refundContextSchema_json:
  assumes "refundContextSchema (refund_context_json c) = Some c'" and "ctx_customerVerified (ctx_facts c)"
    and "ctx_refundDestination (ctx_facts c) = ORIGINAL_PAYMENT_METHOD" and "sel_scope (selection c) \<noteq> SCOPE_UNSPECIFIED"
  shows "c' = c"
  using assms scope_enum_string [OF assms(4)]
  by (auto simp: refundContextSchema_def refund_context_json_def get_prop_JObj z_object_JObj selection_json_def context_facts_json_def money_json_def
      moneySchema_def bind_eq_Some_conv z_array_def z_all_map_JStr z_bool_def money_def dest!: z_int_min_SomeD)

lemma refundExecutionSchema_json [simp]: "refundExecutionSchema (execution_json r) = Some r"
  by (cases "er_status r"; cases "er_providerRefundId r")
    (simp_all add: refundExecutionSchema_def execution_json_def get_prop_JObj z_object_JObj z_enum_def execution_status_table_def
      execution_status_string_def z_optional_def)

lemma refund_context_body_parses:
  assumes "refundContextRequestSchema (refund_context_body proposal) = Some (order, sel)"
    and "trim (orderId (intent proposal)) = orderId (intent proposal)" and "map trim (itemIds (intent proposal)) = itemIds (intent proposal)"
  shows "order = orderId (intent proposal) \<and> sel = \<lparr> sel_scope = scope (intent proposal), sel_itemIds = itemIds (intent proposal) \<rparr>"
proof (cases "scope (intent proposal)")
  case FULL_ORDER
  with assms show ?thesis
    by (auto simp: refundContextRequestSchema_def refund_context_body_def isRecord_def get_prop_JObj scope_string_def z_array_def z_all_map_JStr
        bind_eq_Some_conv z_trimmed_def Let_def split: if_split_asm)
next
  case SELECTED_ITEMS
  with assms show ?thesis
    by (auto simp: refundContextRequestSchema_def refund_context_body_def isRecord_def get_prop_JObj scope_string_def z_array_def
        bind_eq_Some_conv z_trimmed_def [of 160] Let_def dest!: z_all_trimmed split: if_split_asm)
next
  case SCOPE_UNSPECIFIED
  with assms(1) show ?thesis
    by (auto simp: refundContextRequestSchema_def refund_context_body_def isRecord_def get_prop_JObj scope_string_def bind_eq_Some_conv Let_def split: if_split_asm)
qed

text \<open>What the worker sends for an execution, as the gateway reads it.\<close>

definition execution_request :: "ExecuteRefundInput \<Rightarrow> ExecutionRequest" where
  "execution_request input = \<lparr> xq_orderId = orderId (intent (ex_proposal input)), xq_reasonCode = reasonCode (intent (ex_proposal input)),
     xq_amount = pre_requestedAmount (ex_preview input), xq_selection = pre_selection (ex_preview input),
     xq_idempotencyKey = idempotency_key input, xq_previewId = previewId (ex_preview input) \<rparr>"

definition trimmed_upto :: "nat \<Rightarrow> string \<Rightarrow> bool" where
  "trimmed_upto n s \<longleftrightarrow> trim s = s \<and> s \<noteq> [] \<and> length s \<le> n"

definition execution_input_ok :: "ExecuteRefundInput \<Rightarrow> bool" where
  "execution_input_ok input \<longleftrightarrow> trimmed_upto 160 (orderId (intent (ex_proposal input))) \<and> trimmed_upto 100 (reasonCode (intent (ex_proposal input)))
     \<and> trimmed_upto 160 (previewId (ex_preview input)) \<and> length (idempotency_key input) \<le> 240
     \<and> 0 < amountMinor (pre_requestedAmount (ex_preview input)) \<and> isSafeInteger (amountMinor (pre_requestedAmount (ex_preview input)))
     \<and> currency (pre_requestedAmount (ex_preview input)) = ''USD''
     \<and> sel_scope (pre_selection (ex_preview input)) \<noteq> SCOPE_UNSPECIFIED \<and> length (sel_itemIds (pre_selection (ex_preview input))) \<le> 100"

lemma z_trimmed_JStr [simp]: "trimmed_upto n s \<Longrightarrow> z_trimmed n (JStr s) = Some s"
  by (simp add: z_trimmed_def trimmed_upto_def Suc_le_eq Let_def)

lemma execution_body_parses:
  assumes "execution_input_ok input"
  shows "execution_requestSchema (execution_body input) = Some (execution_request input)"
proof -
  have "scope_enum (JStr (scope_string (sel_scope (pre_selection (ex_preview input))))) = Some (sel_scope (pre_selection (ex_preview input)))"
    using assms by (simp add: execution_input_ok_def scope_enum_string)
  moreover have "idempotency_key input \<noteq> []" by (simp add: idempotency_key_def)
  ultimately show ?thesis
    using assms
    by (simp add: execution_requestSchema_def execution_body_def get_prop_JObj z_object_JObj selection_json_def money_json_def usd_amount_schema_def
        scope_enum_def z_array_max_def z_array_def z_all_map_JStr execution_input_ok_def execution_request_def money_def)
qed

lemma client_executeRefund_gateway:
  assumes "scope_check t e (ex_access input) = Inr ()"
    and "sign \<lparr> wi_workflowId = ex_workflowId input, wi_access = ex_access input, wi_purpose = P_refund_execute \<rparr> = Inr assertion"
    and "snd (post_refunds repo verify True getOrder executeRefund s now eid (execution_body input) (Some assertion)) = r"
  shows "client_executeRefund sign (gateway_execution_fetch repo verify getOrder executeRefund s now eid) t e input
    = (case r of Inr x \<Rightarrow> Inr x | Inl (status, code) \<Rightarrow>
        if status \<ge> 500 then Inr \<lparr> er_status = PENDING_RECONCILIATION, er_providerRefundId = None \<rparr>
        else if \<not> response_ok status then Inr \<lparr> er_status = FAILED, er_providerRefundId = None \<rparr>
        else Inl ZodError)"
proof (cases r)
  case (Inl sc)
  obtain st code where "sc = (st, code)" by (cases sc)
  with Inl assms show ?thesis
    by (simp add: client_executeRefund_def gateway_execution_fetch_def http_response_def parse_with_def refundExecutionSchema_def z_object_JObj)
next
  case (Inr x)
  with assms show ?thesis
    by (simp add: client_executeRefund_def gateway_execution_fetch_def http_response_def parse_with_def response_ok_def)
qed

lemma getRefundContext_found:
  assumes "getRefundContext sha256_hex lookup sel customer oid at = Inr (Some ctx)"
  obtains order where "lookup = Inr (Some order)" "map_option cu_id (co_customer order) = Some customer" "ctx = toRefundContext sha256_hex order sel oid at"
proof -
  obtain o' where l: "lookup = Inr o'" using assms by (cases lookup) (simp_all add: getRefundContext_def)
  show thesis
  proof (cases o')
    case (Some order)
    with assms l show thesis
      by (intro that [of order]) (simp_all add: getRefundContext_def split: option.split_asm if_split_asm)
  qed (use assms l in \<open>simp add: getRefundContext_def\<close>)
qed

lemma post_refund_contexts_Inr:
  assumes "post_refund_contexts sha256_hex verifyContext (Some verifyWorkflow) getOrder oid now body None (Some assertion) = Inr ctx"
  obtains order sel access ord where "refundContextRequestSchema body = Some (order, sel)" "verifyWorkflow (Some assertion) = Inr access"
    "getOrder order = Inr (Some ord)" "map_option cu_id (co_customer ord) = Some (ac_subjectCustomerId access)"
    "ctx = toRefundContext sha256_hex ord sel oid (iso_string now)"
proof -
  obtain order sel access where r: "refundContextRequestSchema body = Some (order, sel)" "verifyWorkflow (Some assertion) = Inr access"
      "getRefundContext sha256_hex (getOrder order) sel (ac_subjectCustomerId access) oid (iso_string now) = Inr (Some ctx)"
    using assms by (auto simp: post_refund_contexts_def refund_context_access_def split: option.split_asm prod.split_asm sum.split_asm)
  from r(3) obtain ord where "getOrder order = Inr (Some ord)" "map_option cu_id (co_customer ord) = Some (ac_subjectCustomerId access)"
      "ctx = toRefundContext sha256_hex ord sel oid (iso_string now)" by (rule getRefundContext_found)
  with r(1,2) show thesis by (rule that)
qed

lemma client_fetchRefundContext_Inr:
  assumes "client_fetchRefundContext sign fetch t e input = Inr ctx"
  obtains assertion status payload where "scope (intent (rf_proposal input)) \<noteq> SCOPE_UNSPECIFIED"
    "sign \<lparr> wi_workflowId = rf_workflowId input, wi_access = rf_access input, wi_purpose = P_refund_fact_refresh \<rparr> = Inr assertion"
    "fetch (refund_context_body (rf_proposal input)) assertion = Inr (status, payload)"
    "response_ok status" "bindE payload (parse_with refundContextSchema) = Inr ctx"
proof -
  from assms obtain assertion where s: "scope (intent (rf_proposal input)) \<noteq> SCOPE_UNSPECIFIED"
      "sign \<lparr> wi_workflowId = rf_workflowId input, wi_access = rf_access input, wi_purpose = P_refund_fact_refresh \<rparr> = Inr assertion"
    and c: "(case fetch (refund_context_body (rf_proposal input)) assertion of
        Inl _ \<Rightarrow> Inl (Error ''Integration Gateway refund context request failed'')
      | Inr (status, payload) \<Rightarrow>
          if \<not> response_ok status then Inl (Error (''Integration Gateway returned '' @ show_nat status))
          else bindE payload (parse_with refundContextSchema)) = Inr ctx"
    unfolding client_fetchRefundContext_def bindE_eq_Inr [of "scope_check t e (rf_access input)"] bindE_eq_Inr [of "throw_if a b" for a b] bindE_eq_Inr [of "sign i" for i]
    by (auto simp: throw_if_def split: if_split_asm)
  show thesis
  proof (cases "fetch (refund_context_body (rf_proposal input)) assertion")
    case (Inr r)
    with c s show thesis by (cases r) (auto split: if_split_asm intro: that)
  qed (use c in simp)
qed

lemma fetched_context:
  assumes "client_fetchRefundContext sign (gateway_context_fetch sha256_hex verifyContext (Some verifyWorkflow) getOrder oid now) t e input = Inr ctx"
    and "trim (orderId (intent (rf_proposal input))) = orderId (intent (rf_proposal input))"
    and "map trim (itemIds (intent (rf_proposal input))) = itemIds (intent (rf_proposal input))"
  obtains assertion access order where
    "sign \<lparr> wi_workflowId = rf_workflowId input, wi_access = rf_access input, wi_purpose = P_refund_fact_refresh \<rparr> = Inr assertion"
    "verifyWorkflow (Some assertion) = Inr access" "getOrder (orderId (intent (rf_proposal input))) = Inr (Some order)"
    "map_option cu_id (co_customer order) = Some (ac_subjectCustomerId access)"
    "ctx = toRefundContext sha256_hex order \<lparr> sel_scope = scope (intent (rf_proposal input)), sel_itemIds = itemIds (intent (rf_proposal input)) \<rparr> oid (iso_string now)"
proof -
  let ?p = "rf_proposal input"
  obtain assertion status payload where f: "scope (intent ?p) \<noteq> SCOPE_UNSPECIFIED"
      "sign \<lparr> wi_workflowId = rf_workflowId input, wi_access = rf_access input, wi_purpose = P_refund_fact_refresh \<rparr> = Inr assertion"
      "gateway_context_fetch sha256_hex verifyContext (Some verifyWorkflow) getOrder oid now (refund_context_body ?p) assertion = Inr (status, payload)"
      "response_ok status" "bindE payload (parse_with refundContextSchema) = Inr ctx"
    using client_fetchRefundContext_Inr [OF assms(1)] by metis
  then obtain c where c: "post_refund_contexts sha256_hex verifyContext (Some verifyWorkflow) getOrder oid now (refund_context_body ?p) None (Some assertion) = Inr c"
      "refundContextSchema (refund_context_json c) = Some ctx"
    by (auto simp: gateway_context_fetch_def http_response_def parse_with_def refundContextSchema_def [of "JObj _"] z_object_JObj
        split: option.split_asm prod.split_asm sum.split_asm)
  from c(1) obtain order sel access ord where
      g: "refundContextRequestSchema (refund_context_body ?p) = Some (order, sel)" "verifyWorkflow (Some assertion) = Inr access"
         "getOrder order = Inr (Some ord)" "map_option cu_id (co_customer ord) = Some (ac_subjectCustomerId access)"
         "c = toRefundContext sha256_hex ord sel oid (iso_string now)"
    by (rule post_refund_contexts_Inr)
  then have "order = orderId (intent ?p)" "sel = \<lparr> sel_scope = scope (intent ?p), sel_itemIds = itemIds (intent ?p) \<rparr>"
    using refund_context_body_parses [OF g(1) assms(2,3)] by auto
  moreover from this f(1) have "ctx = toRefundContext sha256_hex ord sel oid (iso_string now)"
    unfolding g(5) [symmetric] by (intro refundContextSchema_json [OF c(2)]) (simp_all add: g(5) toRefundContext_def Let_def context_facts_def)
  ultimately show ?thesis
    using f(2) g(2-4) by (intro that [of assertion access ord]) simp_all
qed

text \<open>
  The facts a worker decides on are the gateway's facts. When the worker's request for facts is
  answered by the gateway, the gateway has verified the worker's assertion, found the order of the
  proposal, and found that it belongs to the customer of the journey; the worker's context carries
  exactly the facts computed from that order for the selection of the proposal, and where the
  provider returned the order that was asked for, the context is accepted for the policy input.
\<close>

theorem fetched_context_is_gateway_context:
  assumes "client_fetchRefundContext sign (gateway_context_fetch sha256_hex verifyContext (Some verifyWorkflow) getOrder oid now) t e input = Inr ctx"
    and "trim (orderId (intent (rf_proposal input))) = orderId (intent (rf_proposal input))"
    and "map trim (itemIds (intent (rf_proposal input))) = itemIds (intent (rf_proposal input))"
  shows "\<exists>assertion access order. sign \<lparr> wi_workflowId = rf_workflowId input, wi_access = rf_access input, wi_purpose = P_refund_fact_refresh \<rparr> = Inr assertion
    \<and> verifyWorkflow (Some assertion) = Inr access \<and> getOrder (orderId (intent (rf_proposal input))) = Inr (Some order)
    \<and> map_option cu_id (co_customer order) = Some (ac_subjectCustomerId access)
    \<and> selection ctx = \<lparr> sel_scope = scope (intent (rf_proposal input)), sel_itemIds = itemIds (intent (rf_proposal input)) \<rparr>
    \<and> ctx_facts ctx = context_facts order (selection ctx)
    \<and> (co_orderId order = orderId (intent (rf_proposal input)) \<longrightarrow> (\<exists>pin. createRefundPolicyInput (rf_proposal input) ctx version ev = Inr pin))"
proof -
  obtain assertion access order where "sign \<lparr> wi_workflowId = rf_workflowId input, wi_access = rf_access input, wi_purpose = P_refund_fact_refresh \<rparr> = Inr assertion"
    "verifyWorkflow (Some assertion) = Inr access" "getOrder (orderId (intent (rf_proposal input))) = Inr (Some order)"
    "map_option cu_id (co_customer order) = Some (ac_subjectCustomerId access)"
    "ctx = toRefundContext sha256_hex order \<lparr> sel_scope = scope (intent (rf_proposal input)), sel_itemIds = itemIds (intent (rf_proposal input)) \<rparr> oid (iso_string now)"
    using assms by (rule fetched_context)
  then show ?thesis
    by (intro exI [of _ assertion] exI [of _ access] exI [of _ order])
      (simp add: toRefundContext_def Let_def createRefundPolicyInput_def assertMatchingOrder_def assertMatchingSelection_def throw_if_def sameItemIds_iff)
qed

text \<open>
  What the worker learns from repeating an execution that the gateway has already recorded. While
  the order still has room for the amount it gets the recorded outcome; once the refund has used up
  the balance it is told that the refund failed, also when the recorded outcome is a success.
\<close>

theorem retried_execution_result:
  assumes "execution_input_ok input" and "tenantId (ex_access input) = t" and "environmentId (ex_access input) = e"
    and "sign \<lparr> wi_workflowId = ex_workflowId input, wi_access = ex_access input, wi_purpose = P_refund_execute \<rparr> = Inr assertion"
    and "verify (Some assertion) = Inr access" and "getOrder (orderId (intent (ex_proposal input))) = Inr (Some order)"
    and "map_option cu_id (co_customer order) = Some (ac_subjectCustomerId access)"
    and "pg_ok s" and "ts (iso_string now) = Some at"
    and "pg_execution_of s (ac_tenantId access, ac_environmentId access, idempotency_key input) = Some x"
  shows "client_executeRefund sign (gateway_execution_fetch (postgresRepository ts) (Some verify) getOrder executeRefund s now eid) t e input
      = Inr (if refund_ineligible order (execution_request input) then \<lparr> er_status = FAILED, er_providerRefundId = None \<rparr> else existing_reply x)
    \<and> (\<forall>payment. settled_payment order = Some payment
        \<longrightarrow> amountMinor (py_amount payment) - consumedAmountMinor (Some payment) < amountMinor (pre_requestedAmount (ex_preview input))
        \<longrightarrow> refund_ineligible order (execution_request input))"
proof -
  note req = execution_body_parses [OF assms(1)]
  have sc: "scope_check t e (ex_access input) = Inr ()" using assms(2,3) by (simp add: scope_check_def throw_if_def)
  have "refund_submit (postgresRepository ts) (Some verify) True getOrder s now eid (execution_body input) (Some assertion)
      = (s, Reply (if refund_ineligible order (execution_request input) then Inl (409, ''refund_no_longer_eligible'') else Inr (existing_reply x)))"
    using refund_submit_repeated [OF req, of verify "Some assertion" access getOrder order s ts now at x eid] assms by (simp add: execution_request_def)
  then have "snd (post_refunds (postgresRepository ts) (Some verify) True getOrder executeRefund s now eid (execution_body input) (Some assertion))
      = (if refund_ineligible order (execution_request input) then Inl (409, ''refund_no_longer_eligible'') else Inr (existing_reply x))" (is "?post = ?r")
    by (simp add: post_refunds_def)
  with client_executeRefund_gateway [of t e input sign assertion "postgresRepository ts" "Some verify" getOrder executeRefund s now eid ?r] sc assms(4)
  have "client_executeRefund sign (gateway_execution_fetch (postgresRepository ts) (Some verify) getOrder executeRefund s now eid) t e input
      = Inr (if refund_ineligible order (execution_request input) then \<lparr> er_status = FAILED, er_providerRefundId = None \<rparr> else existing_reply x)"
    by (simp add: response_ok_def)
  moreover have "amountMinor (pre_requestedAmount (ex_preview input)) = amountMinor (xq_amount (execution_request input))" by (simp add: execution_request_def)
  moreover have "0 < amountMinor (xq_amount (execution_request input))" using execution_requestSchema_positive [OF req] by simp
  ultimately show ?thesis by (auto intro: exhausted_ineligible)
qed

section \<open>A concrete exchange\<close>

definition sample_fetch_input :: RefreshRefundContextInput where
  "sample_fetch_input = \<lparr> rf_proposal = sample_proposal, rf_workflowId = ''wf1'', rf_access = sample_journey_access \<rparr>"

definition sample_context_at :: "int \<Rightarrow> RefundContext" where
  "sample_context_at now = toRefundContext (\<lambda>_. ''v1'') sample_order \<lparr> sel_scope = FULL_ORDER, sel_itemIds = [] \<rparr> ''obs1'' (iso_string now)"

lemma sample_context_at_schema: "refundContextSchema (refund_context_json (sample_context_at now)) = Some (sample_context_at now)"
  using sample_remaining
  by (simp add: sample_context_at_def toRefundContext_def Let_def context_facts_def context_itemSelectionValid_def selectedMaximumMinor_def sample_payment
      refundContextSchema_def refund_context_json_def get_prop_JObj z_object_JObj selection_json_def context_facts_json_def money_json_def scope_enum_def
      z_enum_def scope_string_def destination_string_def moneySchema_def z_array_def z_bool_def money_def sample_order_parts isSafeInteger_def MAX_SAFE_INTEGER_def)

lemma sample_context_body: "refundContextRequestSchema (refund_context_body sample_proposal) = Some (''o1'', \<lparr> sel_scope = FULL_ORDER, sel_itemIds = [] \<rparr>)"
  by code_simp

theorem fetched_context_is_gateway_context_witness:
  "\<exists>ctx pin. client_fetchRefundContext (\<lambda>_. Inr ''token'') (gateway_context_fetch (\<lambda>_. ''v1'') (\<lambda>_. Inl FetchError) (Some sample_verify) sample_getOrder ''obs1'' 0)
      ''t1'' ''dev'' sample_fetch_input = Inr ctx
    \<and> ctx_facts ctx = context_facts sample_order (selection ctx) \<and> createRefundPolicyInput sample_proposal ctx ''refund-policy-v2'' None = Inr pin"
proof -
  have f: "client_fetchRefundContext (\<lambda>_. Inr ''token'') (gateway_context_fetch (\<lambda>_. ''v1'') (\<lambda>_. Inl FetchError) (Some sample_verify) sample_getOrder ''obs1'' 0)
      ''t1'' ''dev'' sample_fetch_input = Inr (sample_context_at 0)"
    using sample_context_at_schema [of 0]
    by (simp add: client_fetchRefundContext_def scope_check_def sample_fetch_input_def sample_journey_access_def throw_if_def sample_proposal_def [THEN arg_cong, of "\<lambda>p. scope (intent p)"]
        gateway_context_fetch_def post_refund_contexts_def sample_context_body refund_context_access_def sample_verify_def sample_getOrder_def
        getRefundContext_def sample_order_parts sample_workflow_access_def http_response_def response_ok_def parse_with_def sample_context_at_def)
  have t: "trim ''o1'' = ''o1''" by code_simp
  from fetched_context_is_gateway_context [OF f, of "''refund-policy-v2''" None] t f show ?thesis
    by (auto simp: sample_fetch_input_def sample_proposal_def sample_getOrder_def sample_order_parts)
qed

definition sample_offer :: RefundPreview where
  "sample_offer = \<lparr> previewId = ''pv1'', createdAt = ''now'', pre_proposalId = ''p1'', pre_orderId = ''o1'',
     pre_selection = \<lparr> sel_scope = FULL_ORDER, sel_itemIds = [] \<rparr>, pre_requestedAmount = money 500 ''USD'', pre_refundDestination = ORIGINAL_PAYMENT_METHOD,
     pre_policyVersion = ''v'', pre_decisionId = ''d1'', pre_inputFactsHash = ''h'', pre_validUntil = ''later'' \<rparr>"

definition sample_execute_input :: ExecuteRefundInput where
  "sample_execute_input = \<lparr> ex_proposal = sample_proposal, ex_preview = sample_offer, ex_workflowId = ''wf1'', ex_access = sample_journey_access \<rparr>"

lemma sample_execute_input_ok: "execution_input_ok sample_execute_input" "idempotency_key sample_execute_input = ''refund:wf1:pv1''"
  by code_simp+

definition sample_spent_order :: CommerceOrder where
  "sample_spent_order = sample_order\<lparr> co_payments := [(hd (co_payments sample_order))\<lparr> py_refunds :=
     [\<lparr> cr_id = ''r9'', cr_status = ''Settled'', cr_amount = money 2000 ''USD'', cr_lineIds = [] \<rparr>] \<rparr>] \<rparr>"

definition sample_done_db :: RefundDb where
  "sample_done_db = sample_db\<lparr> db_executions := [sample_row\<lparr> xr_status := Outcome SUCCEEDED, xr_idempotencyKey := ''refund:wf1:pv1'' \<rparr>] \<rparr>"

lemma sample_spent:
  "\<exists>p. settled_payment sample_spent_order = Some p \<and> amountMinor (py_amount p) - consumedAmountMinor (Some p) = 0"
  using upper_samples
  by (simp add: sample_spent_order_def sample_order_def sample_vendure_order_def toCommerceOrder_def Let_def or_empty_def settled_payment_def
      consumedAmountMinor_def priorRefunds_def refundConsumesBalance_def money_def)

theorem retried_execution_result_witness:
  "pg_execution_of sample_done_db (''t1'', ''dev'', ''refund:wf1:pv1'') = Some sample_execution \<and> execution_status sample_execution = Outcome SUCCEEDED
   \<and> client_executeRefund (\<lambda>_. Inr ''token'') (gateway_execution_fetch (postgresRepository (\<lambda>_. Some 0)) (Some sample_verify) (\<lambda>_. Inr (Some sample_spent_order))
       (\<lambda>_. Inl FetchError) sample_done_db 0 ''x2'') ''t1'' ''dev'' sample_execute_input = Inr \<lparr> er_status = FAILED, er_providerRefundId = None \<rparr>"
proof -
  have x: "pg_ok sample_done_db" "pg_execution_of sample_done_db (''t1'', ''dev'', ''refund:wf1:pv1'') = Some sample_execution"
    by (simp_all add: sample_done_db_def sample_db_def sample_row_def pg_ok_def pg_execution_of_def row_key_def toExecution_def sample_execution_def)
  obtain p where p: "settled_payment sample_spent_order = Some p" "amountMinor (py_amount p) - consumedAmountMinor (Some p) = 0" using sample_spent by blast
  have a: "pre_requestedAmount (ex_preview sample_execute_input) = money 500 ''USD''" by (simp add: sample_execute_input_def sample_offer_def)
  from retried_execution_result [OF sample_execute_input_ok(1), of "''t1''" "''dev''" "\<lambda>_. Inr ''token''" "''token''" sample_verify sample_workflow_access
      "\<lambda>_. Inr (Some sample_spent_order)" sample_spent_order sample_done_db "\<lambda>_. Some 0" 0 0 sample_execution "\<lambda>_. Inl FetchError" "''x2''"] x p a
  show ?thesis
    by (auto simp: sample_execute_input_ok(2) sample_execute_input_def [THEN arg_cong, of ex_access] sample_journey_access_def sample_verify_def sample_workflow_access_def
        sample_spent_order_def sample_order_parts money_def sample_execution_def)
qed

end
