(* ===== verification/Human_Cases.thy ===== *)
theory Human_Cases
  imports Worker_Clients "HOL-Library.Product_Lexorder"
begin

text \<open>
  The cases of human operations, under \<^verbatim>\<open>src/apps/services/human-operations/src/\<close>: \<^verbatim>\<open>human-case.ts\<close>,
  \<^verbatim>\<open>human-case-repository.ts\<close> (the interface and the in-memory repository) and
  \<^verbatim>\<open>postgres-human-case-repository.ts\<close>. A transaction is one function on the tables; an exception
  rolls back, so an error leaves them as they were. The \<^verbatim>\<open>n\<close>-th \<^verbatim>\<open>randomUUID()\<close> of an operation is
  \<^verbatim>\<open>ids n\<close>; the clock is an argument. Unique keys of the migrations are branches that throw. Row level
  security restricts every statement to the tenant and environment of the transaction. The locale
  \<^verbatim>\<open>human_case_repository\<close> states what the routes rely on and is interpreted for both repositories.
\<close>

section \<open>Cases\<close>

datatype HumanCaseStatus = OPEN | CLAIMED | DECISION_PENDING | CLOSED

record RefundReviewPacket =
  rp_order_reference :: "string option"
  rp_selected_item_ids :: "string list option"
  rp_requested_amount :: "(int \<times> string) option"
  rp_refund_reason :: "string option"
  rp_policy_reason_codes :: "string list"
  rp_evidence_ids :: "string list"
  rp_knowledge_release_id :: "string option"
  rp_policy_version :: string

definition currency_code :: "string \<Rightarrow> bool" where
  "currency_code s \<longleftrightarrow> length s = 3 \<and> list_all (\<lambda>c. CHR ''A'' \<le> c \<and> c \<le> CHR ''Z'') s"

definition requested_amount_schema :: "json \<Rightarrow> (int \<times> string) option" where
  "requested_amount_schema v =
     do { v \<leftarrow> z_object [''amount_minor'', ''currency''] v; n \<leftarrow> z_int_min 0 (get_prop ''amount_minor'' v);
          c \<leftarrow> z_regex currency_code (get_prop ''currency'' v); Some (n, c) }"

definition refundReviewPacketSchema :: "json \<Rightarrow> RefundReviewPacket option" where
  "refundReviewPacketSchema body =
     do {
       v \<leftarrow> z_object [''order_reference'', ''selected_item_ids'', ''requested_amount'', ''refund_reason'', ''policy_reason_codes'',
              ''evidence_ids'', ''knowledge_release_id'', ''policy_version''] body;
       ref \<leftarrow> z_optional (z_string_max 200) (get_prop ''order_reference'' v);
       items \<leftarrow> z_optional (z_array_max 100 (z_string_max 200)) (get_prop ''selected_item_ids'' v);
       amount \<leftarrow> z_optional requested_amount_schema (get_prop ''requested_amount'' v);
       reason \<leftarrow> z_optional (z_string_max 2000) (get_prop ''refund_reason'' v);
       codes \<leftarrow> z_array_max 50 (z_string_max 160) (get_prop ''policy_reason_codes'' v);
       evidence \<leftarrow> z_array_max 100 (z_string_max 200) (get_prop ''evidence_ids'' v);
       knowledge \<leftarrow> z_optional (z_string_max 200) (get_prop ''knowledge_release_id'' v);
       version \<leftarrow> z_string_max 200 (get_prop ''policy_version'' v);
       Some \<lparr> rp_order_reference = ref, rp_selected_item_ids = items, rp_requested_amount = amount, rp_refund_reason = reason,
         rp_policy_reason_codes = codes, rp_evidence_ids = evidence, rp_knowledge_release_id = knowledge, rp_policy_version = version \<rparr>
     }"

record HumanCase =
  hc_caseId :: string
  hc_tenantId :: string
  hc_environmentId :: string
  hc_workflowId :: string
  hc_caseType :: HumanCaseType
  hc_status :: HumanCaseStatus
  hc_allowedActions :: "HumanCaseAction list"
  hc_assignedStaffId :: "string option"
  hc_caseVersion :: int
  hc_reviewPacket :: RefundReviewPacket
  hc_policyVersion :: string
  hc_createdAt :: string
  hc_updatedAt :: string
  hc_decidedAt :: "string option"

datatype AuditEventType = CASE_OPENED | CASE_CLAIMED | DECISION_RECORDED | CASE_CLOSED | EVIDENCE_UPLOAD_RESERVED | EVIDENCE_VALIDATED
  | EVIDENCE_REVIEWED | EVIDENCE_PURGED | CASE_PHASE_CHANGED

datatype ActorType = BY_WORKFLOW | BY_HUMAN | BY_CUSTOMER

record HumanCaseAuditEvent =
  ae_eventId :: string
  ae_caseId :: string
  ae_eventType :: AuditEventType
  ae_occurredAt :: string
  ae_actorType :: ActorType
  ae_actorId :: string
  ae_caseVersion :: int
  ae_details :: "(string \<times> string) list"

record HumanDecisionOutboxEvent =
  ob_eventId :: string
  ob_caseId :: string
  ob_workflowId :: string
  ob_tenantId :: string
  ob_environmentId :: string
  ob_decision :: HumanCaseAction
  ob_decidedBy :: string
  ob_decidedAt :: string
  ob_reasonCode :: "string option"
  ob_note :: "string option"
  ob_createdAt :: string

definition allowedActionsForCaseType :: "HumanCaseType \<Rightarrow> HumanCaseAction list" where
  "allowedActionsForCaseType t =
     (if t = REFUND_EVIDENCE_REVIEW then []
      else if t = REFUND_APPROVAL then [APPROVE, REJECT]
      else [APPROVE_EXCEPTIONAL_REFUND, RESOLVE_TAKEOVER, REJECT])"

section \<open>The interface\<close>

datatype CaseFailure = CASE_NOT_FOUND | CASE_CONFLICT | STALE_CASE_VERSION | IDEMPOTENCY_CONFLICT | Unexpected string

type_synonym scope_key = "string \<times> string"

record OpenCaseInput =
  oi_workflowId :: string
  oi_caseType :: HumanCaseType
  oi_reviewPacket :: RefundReviewPacket
  oi_policyVersion :: string

record ClaimInput =
  ci_caseId :: string
  ci_staffId :: string
  ci_expectedVersion :: int
  ci_key :: string

record DecideInput =
  di_caseId :: string
  di_staffId :: string
  di_decision :: HumanCaseAction
  di_reasonCode :: "string option"
  di_note :: "string option"
  di_expectedVersion :: int
  di_key :: string

datatype Assignee = Me string | Unassigned

text \<open>The methods of \<^verbatim>\<open>HumanCaseRepository\<close>; tenant and environment come first.\<close>

record 's HumanCaseRepository =
  hr_open :: "'s \<Rightarrow> int \<Rightarrow> (nat \<Rightarrow> string) \<Rightarrow> scope_key \<Rightarrow> OpenCaseInput \<Rightarrow> CaseFailure + 's \<times> HumanCase"
  hr_close :: "'s \<Rightarrow> int \<Rightarrow> (nat \<Rightarrow> string) \<Rightarrow> scope_key \<Rightarrow> string \<Rightarrow> string \<Rightarrow> string option \<Rightarrow> CaseFailure + 's \<times> HumanCase"
  hr_list :: "'s \<Rightarrow> scope_key \<Rightarrow> HumanCaseStatus option \<Rightarrow> Assignee option \<Rightarrow> HumanCase list"
  hr_get :: "'s \<Rightarrow> scope_key \<Rightarrow> string \<Rightarrow> CaseFailure + HumanCase"
  hr_auditEvents :: "'s \<Rightarrow> scope_key \<Rightarrow> string \<Rightarrow> CaseFailure + HumanCaseAuditEvent list"
  hr_claim :: "'s \<Rightarrow> int \<Rightarrow> (nat \<Rightarrow> string) \<Rightarrow> scope_key \<Rightarrow> ClaimInput \<Rightarrow> CaseFailure + 's \<times> HumanCase"
  hr_reassign :: "'s \<Rightarrow> int \<Rightarrow> (nat \<Rightarrow> string) \<Rightarrow> scope_key \<Rightarrow> ClaimInput \<Rightarrow> CaseFailure + 's \<times> HumanCase"
  hr_decide :: "'s \<Rightarrow> int \<Rightarrow> (nat \<Rightarrow> string) \<Rightarrow> scope_key \<Rightarrow> DecideInput \<Rightarrow> CaseFailure + 's \<times> HumanCase \<times> HumanDecisionOutboxEvent"
  hr_listPendingOutbox :: "'s \<Rightarrow> scope_key \<Rightarrow> nat \<Rightarrow> HumanDecisionOutboxEvent list"
  hr_isOutboxPending :: "'s \<Rightarrow> scope_key \<Rightarrow> string \<Rightarrow> bool"
  hr_markOutboxDelivered :: "'s \<Rightarrow> int \<Rightarrow> scope_key \<Rightarrow> string \<Rightarrow> 's"

definition or_blank :: "string option \<Rightarrow> string" where
  "or_blank v = (case v of None \<Rightarrow> [] | Some s \<Rightarrow> s)"

definition claim_fingerprint :: "ClaimInput \<Rightarrow> string" where
  "claim_fingerprint i = ''claim:'' @ show_int (ci_expectedVersion i) @ '':'' @ ci_staffId i"

definition reassign_fingerprint :: "ClaimInput \<Rightarrow> string" where
  "reassign_fingerprint i = ''reassign:'' @ show_int (ci_expectedVersion i) @ '':'' @ ci_staffId i"

definition decision_fingerprint :: "DecideInput \<Rightarrow> string" where
  "decision_fingerprint i = ''decision:'' @ show_int (di_expectedVersion i) @ '':'' @ di_staffId i @ '':'' @ action_string (di_decision i)
     @ '':'' @ or_blank (di_reasonCode i) @ '':'' @ or_blank (di_note i)"

section \<open>The Postgres repository\<close>

record CaseRow =
  cr_case_id :: string
  cr_tenant_id :: string
  cr_environment_id :: string
  cr_workflow_id :: string
  cr_case_type :: HumanCaseType
  cr_case_status :: HumanCaseStatus
  cr_assigned_staff_id :: "string option"
  cr_case_version :: int
  cr_review_packet :: RefundReviewPacket
  cr_policy_version :: string
  cr_created_at :: int
  cr_updated_at :: int
  cr_decided_at :: "int option"

record CaseAuditRow =
  ca_scope :: scope_key
  ca_event_id :: string
  ca_case_id :: string
  ca_event_type :: AuditEventType
  ca_occurred_at :: int
  ca_actor_type :: ActorType
  ca_actor_id :: string
  ca_case_version :: int
  ca_details :: "(string \<times> string) list"

record OutboxRow =
  or_event_id :: string
  or_case_id :: string
  or_workflow_id :: string
  or_tenant_id :: string
  or_environment_id :: string
  or_decision :: HumanCaseAction
  or_decided_by :: string
  or_decided_at :: int
  or_reason_code :: "string option"
  or_note :: "string option"
  or_delivered_at :: "int option"
  or_created_at :: int

record IdempotencyRow =
  ir_scope :: scope_key
  ir_action :: string
  ir_case_id :: string
  ir_key :: string
  ir_fingerprint :: string
  ir_outbox_event_id :: "string option"

record HumanDb =
  hd_cases :: "CaseRow list"
  hd_audit :: "CaseAuditRow list"
  hd_idempotency :: "IdempotencyRow list"
  hd_outbox :: "OutboxRow list"

definition toHumanCase :: "CaseRow \<Rightarrow> HumanCase" where
  "toHumanCase row = \<lparr> hc_caseId = cr_case_id row, hc_tenantId = cr_tenant_id row, hc_environmentId = cr_environment_id row,
     hc_workflowId = cr_workflow_id row, hc_caseType = cr_case_type row, hc_status = cr_case_status row,
     hc_allowedActions = allowedActionsForCaseType (cr_case_type row), hc_assignedStaffId = cr_assigned_staff_id row,
     hc_caseVersion = cr_case_version row, hc_reviewPacket = cr_review_packet row, hc_policyVersion = cr_policy_version row,
     hc_createdAt = iso_string (cr_created_at row), hc_updatedAt = iso_string (cr_updated_at row), hc_decidedAt = map_option iso_string (cr_decided_at row) \<rparr>"

definition toOutboxEvent :: "OutboxRow \<Rightarrow> HumanDecisionOutboxEvent" where
  "toOutboxEvent row = \<lparr> ob_eventId = or_event_id row, ob_caseId = or_case_id row, ob_workflowId = or_workflow_id row,
     ob_tenantId = or_tenant_id row, ob_environmentId = or_environment_id row, ob_decision = or_decision row, ob_decidedBy = or_decided_by row,
     ob_decidedAt = iso_string (or_decided_at row), ob_reasonCode = or_reason_code row, ob_note = or_note row, ob_createdAt = iso_string (or_created_at row) \<rparr>"

definition toAuditEvent :: "CaseAuditRow \<Rightarrow> HumanCaseAuditEvent" where
  "toAuditEvent row = \<lparr> ae_eventId = ca_event_id row, ae_caseId = ca_case_id row, ae_eventType = ca_event_type row,
     ae_occurredAt = iso_string (ca_occurred_at row), ae_actorType = ca_actor_type row, ae_actorId = ca_actor_id row,
     ae_caseVersion = ca_case_version row, ae_details = ca_details row \<rparr>"

definition row_scope :: "CaseRow \<Rightarrow> scope_key" where
  "row_scope row = (cr_tenant_id row, cr_environment_id row)"

definition case_key :: "CaseRow \<Rightarrow> scope_key \<times> string" where
  "case_key row = (row_scope row, cr_case_id row)"

definition requireCase :: "'z HumanDb_scheme \<Rightarrow> scope_key \<Rightarrow> string \<Rightarrow> CaseFailure + CaseRow" where
  "requireCase db sc caseId = (case List.find (\<lambda>row. case_key row = (sc, caseId)) (hd_cases db) of
     None \<Rightarrow> Inl CASE_NOT_FOUND | Some row \<Rightarrow> Inr row)"

definition assertExpectedVersion :: "CaseRow \<Rightarrow> int \<Rightarrow> CaseFailure + unit" where
  "assertExpectedVersion row expected = (if cr_case_version row \<noteq> expected then Inl STALE_CASE_VERSION else Inr ())"

definition bindF :: "'e + 'a \<Rightarrow> ('a \<Rightarrow> 'e + 'b) \<Rightarrow> 'e + 'b" where
  "bindF r f = (case r of Inl e \<Rightarrow> Inl e | Inr a \<Rightarrow> f a)"

definition replace_case :: "CaseRow \<Rightarrow> 'z HumanDb_scheme \<Rightarrow> 'z HumanDb_scheme" where
  "replace_case row db = db\<lparr> hd_cases := map (\<lambda>r. if case_key r = case_key row then row else r) (hd_cases db) \<rparr>"

definition appendAudit ::
  "string \<Rightarrow> CaseRow \<Rightarrow> AuditEventType \<Rightarrow> ActorType \<Rightarrow> string \<Rightarrow> (string \<times> string) list \<Rightarrow> int \<Rightarrow> 'z HumanDb_scheme \<Rightarrow> CaseFailure + 'z HumanDb_scheme" where
  "appendAudit uuid row eventType actorType actorId details at db =
     (let event = ''audit-'' @ uuid in
      if \<exists>a \<in> set (hd_audit db). ca_scope a = row_scope row \<and> ca_event_id a = event then Inl (Unexpected ''case_audit_events_pkey'')
      else Inr (db\<lparr> hd_audit := hd_audit db @ [\<lparr> ca_scope = row_scope row, ca_event_id = event, ca_case_id = cr_case_id row,
        ca_event_type = eventType, ca_occurred_at = at, ca_actor_type = actorType, ca_actor_id = actorId,
        ca_case_version = cr_case_version row, ca_details = details \<rparr>] \<rparr>))"

definition opened_row :: "string \<Rightarrow> int \<Rightarrow> scope_key \<Rightarrow> OpenCaseInput \<Rightarrow> CaseRow" where
  "opened_row caseId now sc i = \<lparr> cr_case_id = caseId, cr_tenant_id = fst sc, cr_environment_id = snd sc, cr_workflow_id = oi_workflowId i,
     cr_case_type = oi_caseType i, cr_case_status = OPEN, cr_assigned_staff_id = None, cr_case_version = 1,
     cr_review_packet = oi_reviewPacket i, cr_policy_version = oi_policyVersion i, cr_created_at = now, cr_updated_at = now, cr_decided_at = None \<rparr>"

definition pg_case_open ::
  "'z HumanDb_scheme \<Rightarrow> int \<Rightarrow> (nat \<Rightarrow> string) \<Rightarrow> scope_key \<Rightarrow> OpenCaseInput \<Rightarrow> CaseFailure + 'z HumanDb_scheme \<times> HumanCase" where
  "pg_case_open db now ids sc i =
     (case List.find (\<lambda>row. row_scope row = sc \<and> cr_workflow_id row = oi_workflowId i) (hd_cases db) of
        Some current \<Rightarrow>
          if cr_case_type current \<noteq> oi_caseType i \<or> cr_policy_version current \<noteq> oi_policyVersion i then Inl CASE_CONFLICT
          else Inr (db, toHumanCase current)
      | None \<Rightarrow>
          (let caseId = ''case-'' @ ids 0;
               created = opened_row caseId now sc i
           in if (sc, caseId) \<in> case_key ` set (hd_cases db) then Inl (Unexpected ''refund_cases_pkey'')
              else bindF (appendAudit (ids 1) created CASE_OPENED BY_WORKFLOW (oi_workflowId i) [(''case_type'', case_type_string (oi_caseType i))] now
                    (db\<lparr> hd_cases := hd_cases db @ [created] \<rparr>)) (\<lambda>db'. Inr (db', toHumanCase created))))"

definition pg_case_close ::
  "'z HumanDb_scheme \<Rightarrow> int \<Rightarrow> (nat \<Rightarrow> string) \<Rightarrow> scope_key \<Rightarrow> string \<Rightarrow> string \<Rightarrow> string option \<Rightarrow> CaseFailure + 'z HumanDb_scheme \<times> HumanCase" where
  "pg_case_close db now ids sc caseId workflowId outcome =
     bindF (requireCase db sc caseId) (\<lambda>current.
       if cr_workflow_id current \<noteq> workflowId then Inl CASE_NOT_FOUND
       else if cr_case_status current = CLOSED then Inr (db, toHumanCase current)
       else (let closed = current\<lparr> cr_case_status := CLOSED, cr_case_version := cr_case_version current + 1, cr_updated_at := now \<rparr> in
         bindF (appendAudit (ids 0) closed CASE_CLOSED BY_WORKFLOW workflowId (case outcome of None \<Rightarrow> [] | Some v \<Rightarrow> [(''outcome'', v)]) now
           (replace_case closed db)) (\<lambda>db'. Inr (db', toHumanCase closed))))"

definition pg_case_list :: "'z HumanDb_scheme \<Rightarrow> scope_key \<Rightarrow> HumanCaseStatus option \<Rightarrow> Assignee option \<Rightarrow> HumanCase list" where
  "pg_case_list db sc status assignee =
     map toHumanCase (sort_key (\<lambda>row. - cr_updated_at row) (filter (\<lambda>row. row_scope row = sc
       \<and> (case status of None \<Rightarrow> True | Some st \<Rightarrow> cr_case_status row = st)
       \<and> (case assignee of None \<Rightarrow> True | Some (Me staff) \<Rightarrow> cr_assigned_staff_id row = Some staff | Some Unassigned \<Rightarrow> cr_assigned_staff_id row = None))
       (hd_cases db)))"

definition pg_case_get :: "'z HumanDb_scheme \<Rightarrow> scope_key \<Rightarrow> string \<Rightarrow> CaseFailure + HumanCase" where
  "pg_case_get db sc caseId = bindF (requireCase db sc caseId) (\<lambda>row. Inr (toHumanCase row))"

definition pg_auditEvents :: "'z HumanDb_scheme \<Rightarrow> scope_key \<Rightarrow> string \<Rightarrow> CaseFailure + HumanCaseAuditEvent list" where
  "pg_auditEvents db sc caseId = bindF (requireCase db sc caseId) (\<lambda>_.
     Inr (map toAuditEvent (sort_key (\<lambda>a. (ca_occurred_at a, ca_event_id a))
       (filter (\<lambda>a. ca_scope a = sc \<and> ca_case_id a = caseId) (hd_audit db)))))"

text \<open>\<^verbatim>\<open>reserveIdempotency\<close>: the row of an earlier request under the same key, or nothing and a new row.\<close>

definition same_request :: "scope_key \<Rightarrow> string \<Rightarrow> string \<Rightarrow> string \<Rightarrow> IdempotencyRow \<Rightarrow> bool" where
  "same_request sc action caseId key row \<longleftrightarrow> ir_scope row = sc \<and> ir_action row = action \<and> ir_case_id row = caseId \<and> ir_key row = key"

definition reserveIdempotency ::
  "'z HumanDb_scheme \<Rightarrow> scope_key \<Rightarrow> string \<Rightarrow> string \<Rightarrow> string \<Rightarrow> string \<Rightarrow> CaseFailure + 'z HumanDb_scheme \<times> IdempotencyRow option" where
  "reserveIdempotency db sc action caseId key fingerprint =
     (case List.find (same_request sc action caseId key) (hd_idempotency db) of
        None \<Rightarrow> Inr (db\<lparr> hd_idempotency := hd_idempotency db @ [\<lparr> ir_scope = sc, ir_action = action, ir_case_id = caseId, ir_key = key,
                  ir_fingerprint = fingerprint, ir_outbox_event_id = None \<rparr>] \<rparr>, None)
      | Some existing \<Rightarrow> if ir_fingerprint existing \<noteq> fingerprint then Inl IDEMPOTENCY_CONFLICT else Inr (db, Some existing))"

definition assign_case :: "string \<Rightarrow> int \<Rightarrow> CaseRow \<Rightarrow> CaseRow" where
  "assign_case staff now row = row\<lparr> cr_case_status := CLAIMED, cr_assigned_staff_id := Some staff,
     cr_case_version := cr_case_version row + 1, cr_updated_at := now \<rparr>"

definition pg_claim ::
  "(string \<Rightarrow> string) \<Rightarrow> 'z HumanDb_scheme \<Rightarrow> int \<Rightarrow> (nat \<Rightarrow> string) \<Rightarrow> scope_key \<Rightarrow> ClaimInput \<Rightarrow> CaseFailure + 'z HumanDb_scheme \<times> HumanCase" where
  "pg_claim hash db now ids sc i =
     bindF (reserveIdempotency db sc ''claim'' (ci_caseId i) (ci_key i) (hash (claim_fingerprint i))) (\<lambda>(db1, replay).
       if replay \<noteq> None then bindF (requireCase db1 sc (ci_caseId i)) (\<lambda>row. Inr (db1, toHumanCase row))
       else bindF (requireCase db1 sc (ci_caseId i)) (\<lambda>current.
         bindF (assertExpectedVersion current (ci_expectedVersion i)) (\<lambda>_.
           if cr_case_status current = CLOSED \<or> cr_case_status current = DECISION_PENDING
              \<or> (cr_assigned_staff_id current \<noteq> None \<and> cr_assigned_staff_id current \<noteq> Some (ci_staffId i)) then Inl CASE_CONFLICT
           else if cr_assigned_staff_id current = Some (ci_staffId i) then Inr (db1, toHumanCase current)
           else (let claimed = assign_case (ci_staffId i) now current in
             bindF (appendAudit (ids 0) claimed CASE_CLAIMED BY_HUMAN (ci_staffId i) [] now (replace_case claimed db1))
               (\<lambda>db'. Inr (db', toHumanCase claimed))))))"

definition pg_reassign ::
  "(string \<Rightarrow> string) \<Rightarrow> 'z HumanDb_scheme \<Rightarrow> int \<Rightarrow> (nat \<Rightarrow> string) \<Rightarrow> scope_key \<Rightarrow> ClaimInput \<Rightarrow> CaseFailure + 'z HumanDb_scheme \<times> HumanCase" where
  "pg_reassign hash db now ids sc i =
     bindF (reserveIdempotency db sc ''reassign'' (ci_caseId i) (ci_key i) (hash (reassign_fingerprint i))) (\<lambda>(db1, replay).
       if replay \<noteq> None then bindF (requireCase db1 sc (ci_caseId i)) (\<lambda>row. Inr (db1, toHumanCase row))
       else bindF (requireCase db1 sc (ci_caseId i)) (\<lambda>current.
         bindF (assertExpectedVersion current (ci_expectedVersion i)) (\<lambda>_.
           if cr_case_status current = CLOSED \<or> cr_case_status current = DECISION_PENDING then Inl CASE_CONFLICT
           else (let reassigned = assign_case (ci_staffId i) now current in
             bindF (appendAudit (ids 0) reassigned CASE_CLAIMED BY_HUMAN (ci_staffId i) [(''reassigned'', ''true'')] now (replace_case reassigned db1))
               (\<lambda>db'. Inr (db', toHumanCase reassigned))))))"

definition decide_case :: "int \<Rightarrow> CaseRow \<Rightarrow> CaseRow" where
  "decide_case now row = row\<lparr> cr_case_status := DECISION_PENDING, cr_decided_at := Some now, cr_case_version := cr_case_version row + 1, cr_updated_at := now \<rparr>"

definition outbox_row :: "string \<Rightarrow> int \<Rightarrow> CaseRow \<Rightarrow> DecideInput \<Rightarrow> OutboxRow" where
  "outbox_row event now row i = \<lparr> or_event_id = event, or_case_id = cr_case_id row, or_workflow_id = cr_workflow_id row,
     or_tenant_id = cr_tenant_id row, or_environment_id = cr_environment_id row, or_decision = di_decision i, or_decided_by = di_staffId i,
     or_decided_at = now, or_reason_code = di_reasonCode i, or_note = di_note i, or_delivered_at = None, or_created_at = now \<rparr>"

definition outbox_key :: "OutboxRow \<Rightarrow> scope_key \<times> string" where
  "outbox_key row = ((or_tenant_id row, or_environment_id row), or_event_id row)"

definition pg_decide ::
  "(string \<Rightarrow> string) \<Rightarrow> 'z HumanDb_scheme \<Rightarrow> int \<Rightarrow> (nat \<Rightarrow> string) \<Rightarrow> scope_key \<Rightarrow> DecideInput
     \<Rightarrow> CaseFailure + 'z HumanDb_scheme \<times> HumanCase \<times> HumanDecisionOutboxEvent" where
  "pg_decide hash db now ids sc i =
     bindF (reserveIdempotency db sc ''decision'' (di_caseId i) (di_key i) (hash (decision_fingerprint i))) (\<lambda>(db1, replay).
       case replay of
         Some r \<Rightarrow> (case ir_outbox_event_id r of
             None \<Rightarrow> Inl (Unexpected ''Decision idempotency result is missing outbox event'')
           | Some event \<Rightarrow> (case List.find (\<lambda>row. outbox_key row = (sc, event)) (hd_outbox db1) of
               None \<Rightarrow> Inl (Unexpected ''Decision outbox event disappeared'')
             | Some row \<Rightarrow> bindF (requireCase db1 sc (di_caseId i)) (\<lambda>current. Inr (db1, toHumanCase current, toOutboxEvent row))))
       | None \<Rightarrow> bindF (requireCase db1 sc (di_caseId i)) (\<lambda>current.
           bindF (assertExpectedVersion current (di_expectedVersion i)) (\<lambda>_.
             if cr_case_status current \<noteq> CLAIMED \<or> cr_assigned_staff_id current \<noteq> Some (di_staffId i)
                \<or> di_decision i \<notin> set (allowedActionsForCaseType (cr_case_type current)) then Inl CASE_CONFLICT
             else (let decided = decide_case now current; event = ''outbox-'' @ ids 0; row = outbox_row event now decided i in
               if outbox_key row \<in> outbox_key ` set (hd_outbox db1) then Inl (Unexpected ''decision_outbox_pkey'')
               else bindF (appendAudit (ids 1) decided DECISION_RECORDED BY_HUMAN (di_staffId i) [(''decision'', action_string (di_decision i))] now
                     ((replace_case decided db1)\<lparr> hd_outbox := hd_outbox db1 @ [row],
                       hd_idempotency := map (\<lambda>r. if same_request sc ''decision'' (di_caseId i) (di_key i) r then r\<lparr> ir_outbox_event_id := Some event \<rparr> else r)
                         (hd_idempotency db1) \<rparr>))
                 (\<lambda>db'. Inr (db', toHumanCase decided, toOutboxEvent row))))))"

definition pg_isOutboxPending :: "'z HumanDb_scheme \<Rightarrow> scope_key \<Rightarrow> string \<Rightarrow> bool" where
  "pg_isOutboxPending db sc event = (case List.find (\<lambda>row. outbox_key row = (sc, event)) (hd_outbox db) of
     None \<Rightarrow> False | Some row \<Rightarrow> or_delivered_at row = None)"

definition pg_listPendingOutbox :: "'z HumanDb_scheme \<Rightarrow> scope_key \<Rightarrow> nat \<Rightarrow> HumanDecisionOutboxEvent list" where
  "pg_listPendingOutbox db sc limit =
     map toOutboxEvent (take limit (sort_key or_created_at (filter (\<lambda>row. fst (outbox_key row) = sc \<and> or_delivered_at row = None) (hd_outbox db))))"

text \<open>The age of the oldest pending decision is in milliseconds here, in seconds in the code.\<close>

definition pg_getPendingDecisionOutboxSnapshot :: "'z HumanDb_scheme \<Rightarrow> int \<Rightarrow> scope_key \<Rightarrow> nat \<times> int" where
  "pg_getPendingDecisionOutboxSnapshot db now sc =
     (let pending = filter (\<lambda>row. fst (outbox_key row) = sc \<and> or_delivered_at row = None) (hd_outbox db) in
      (length pending, if pending = [] then 0 else max 0 (now - Min (or_created_at ` set pending))))"

definition delivered_row :: "int \<Rightarrow> scope_key \<Rightarrow> string \<Rightarrow> OutboxRow \<Rightarrow> OutboxRow" where
  "delivered_row now sc event row = (if outbox_key row = (sc, event) \<and> or_delivered_at row = None then row\<lparr> or_delivered_at := Some now \<rparr> else row)"

definition pg_markOutboxDelivered :: "'z HumanDb_scheme \<Rightarrow> int \<Rightarrow> scope_key \<Rightarrow> string \<Rightarrow> 'z HumanDb_scheme" where
  "pg_markOutboxDelivered db now sc event = db\<lparr> hd_outbox := map (delivered_row now sc event) (hd_outbox db) \<rparr>"

definition postgresCases :: "(string \<Rightarrow> string) \<Rightarrow> 'z HumanDb_scheme HumanCaseRepository" where
  "postgresCases hash = \<lparr> hr_open = pg_case_open, hr_close = pg_case_close, hr_list = pg_case_list, hr_get = pg_case_get,
     hr_auditEvents = pg_auditEvents, hr_claim = pg_claim hash, hr_reassign = pg_reassign hash, hr_decide = pg_decide hash,
     hr_listPendingOutbox = pg_listPendingOutbox, hr_isOutboxPending = pg_isOutboxPending, hr_markOutboxDelivered = pg_markOutboxDelivered \<rparr>"

section \<open>The in-memory repository\<close>

text \<open>A \<^verbatim>\<open>Map\<close> keeps its entries in the order of their first insertion.\<close>

fun map_set :: "'k \<Rightarrow> 'v \<Rightarrow> ('k \<times> 'v) list \<Rightarrow> ('k \<times> 'v) list" where
  "map_set k v [] = [(k, v)]"
| "map_set k v ((k', v') # m) = (if k' = k then (k, v) # m else (k', v') # map_set k v m)"

record StoredIdempotency =
  si_fingerprint :: string
  si_caseId :: string
  si_outboxEvent :: "HumanDecisionOutboxEvent option"

record CaseMaps =
  cm_cases :: "(string \<times> HumanCase) list"
  cm_workflowIndex :: "(string \<times> string) list"
  cm_auditEvents :: "(string \<times> HumanCaseAuditEvent list) list"
  cm_idempotency :: "(string \<times> StoredIdempotency) list"
  cm_outbox :: "(string \<times> HumanDecisionOutboxEvent) list"

definition workflowKey :: "scope_key \<Rightarrow> string \<Rightarrow> string" where
  "workflowKey sc workflowId = fst sc @ [CHR 0x00] @ snd sc @ [CHR 0x00] @ workflowId"

definition map_requireCase :: "CaseMaps \<Rightarrow> scope_key \<Rightarrow> string \<Rightarrow> CaseFailure + HumanCase" where
  "map_requireCase s sc caseId = (case map_of (cm_cases s) caseId of
     None \<Rightarrow> Inl CASE_NOT_FOUND
   | Some c \<Rightarrow> if (hc_tenantId c, hc_environmentId c) \<noteq> sc then Inl CASE_NOT_FOUND else Inr c)"

definition map_assertVersion :: "HumanCase \<Rightarrow> int \<Rightarrow> CaseFailure + unit" where
  "map_assertVersion c expected = (if hc_caseVersion c \<noteq> expected then Inl STALE_CASE_VERSION else Inr ())"

definition map_appendAudit ::
  "string \<Rightarrow> HumanCase \<Rightarrow> AuditEventType \<Rightarrow> ActorType \<Rightarrow> string \<Rightarrow> (string \<times> string) list \<Rightarrow> int \<Rightarrow> CaseMaps \<Rightarrow> CaseMaps" where
  "map_appendAudit uuid c eventType actorType actorId details now s =
     (let events = (case map_of (cm_auditEvents s) (hc_caseId c) of None \<Rightarrow> [] | Some es \<Rightarrow> es) in
      s\<lparr> cm_auditEvents := map_set (hc_caseId c) (events @ [\<lparr> ae_eventId = ''audit-'' @ uuid, ae_caseId = hc_caseId c, ae_eventType = eventType,
        ae_occurredAt = iso_string now, ae_actorType = actorType, ae_actorId = actorId, ae_caseVersion = hc_caseVersion c, ae_details = details \<rparr>])
        (cm_auditEvents s) \<rparr>)"

definition map_replay :: "CaseMaps \<Rightarrow> string \<Rightarrow> string \<Rightarrow> CaseFailure + StoredIdempotency option" where
  "map_replay s key fingerprint = (case map_of (cm_idempotency s) key of
     None \<Rightarrow> Inr None
   | Some existing \<Rightarrow> if si_fingerprint existing \<noteq> fingerprint then Inl IDEMPOTENCY_CONFLICT else Inr (Some existing))"

definition map_put :: "HumanCase \<Rightarrow> CaseMaps \<Rightarrow> CaseMaps" where
  "map_put c s = s\<lparr> cm_cases := map_set (hc_caseId c) c (cm_cases s) \<rparr>"

definition map_remember :: "string \<Rightarrow> StoredIdempotency \<Rightarrow> CaseMaps \<Rightarrow> CaseMaps" where
  "map_remember key v s = s\<lparr> cm_idempotency := map_set key v (cm_idempotency s) \<rparr>"

definition map_open :: "CaseMaps \<Rightarrow> int \<Rightarrow> (nat \<Rightarrow> string) \<Rightarrow> scope_key \<Rightarrow> OpenCaseInput \<Rightarrow> CaseFailure + CaseMaps \<times> HumanCase" where
  "map_open s now ids sc i =
     (case map_of (cm_workflowIndex s) (workflowKey sc (oi_workflowId i)) of
        Some caseId \<Rightarrow> (case map_of (cm_cases s) caseId of
            None \<Rightarrow> Inl (Unexpected ''HUMAN_CASE_INDEX_INVARIANT'')
          | Some existing \<Rightarrow> if hc_caseType existing \<noteq> oi_caseType i \<or> hc_policyVersion existing \<noteq> oi_policyVersion i then Inl CASE_CONFLICT
              else Inr (s, existing))
      | None \<Rightarrow>
          (let created = \<lparr> hc_caseId = ''case-'' @ ids 0, hc_tenantId = fst sc, hc_environmentId = snd sc, hc_workflowId = oi_workflowId i,
                 hc_caseType = oi_caseType i, hc_status = OPEN, hc_allowedActions = allowedActionsForCaseType (oi_caseType i), hc_assignedStaffId = None,
                 hc_caseVersion = 1, hc_reviewPacket = oi_reviewPacket i, hc_policyVersion = oi_policyVersion i, hc_createdAt = iso_string now,
                 hc_updatedAt = iso_string now, hc_decidedAt = None \<rparr>;
               s1 = map_put created s;
               s2 = s1\<lparr> cm_workflowIndex := map_set (workflowKey sc (oi_workflowId i)) (hc_caseId created) (cm_workflowIndex s1) \<rparr>
           in Inr (map_appendAudit (ids 1) created CASE_OPENED BY_WORKFLOW (oi_workflowId i) [(''case_type'', case_type_string (oi_caseType i))] now s2, created)))"

definition map_close ::
  "CaseMaps \<Rightarrow> int \<Rightarrow> (nat \<Rightarrow> string) \<Rightarrow> scope_key \<Rightarrow> string \<Rightarrow> string \<Rightarrow> string option \<Rightarrow> CaseFailure + CaseMaps \<times> HumanCase" where
  "map_close s now ids sc caseId workflowId outcome =
     bindF (map_requireCase s sc caseId) (\<lambda>current.
       if hc_workflowId current \<noteq> workflowId then Inl CASE_NOT_FOUND
       else if hc_status current = CLOSED then Inr (s, current)
       else (let closed = current\<lparr> hc_status := CLOSED, hc_caseVersion := hc_caseVersion current + 1, hc_updatedAt := iso_string now \<rparr> in
         Inr (map_appendAudit (ids 0) closed CASE_CLOSED BY_WORKFLOW workflowId (case outcome of None \<Rightarrow> [] | Some v \<Rightarrow> [(''outcome'', v)]) now (map_put closed s), closed)))"

text \<open>\<^verbatim>\<open>localeCompare\<close> of two time stamps is the order of the argument \<^verbatim>\<open>collate\<close>; newest first.\<close>

definition map_list :: "(string \<Rightarrow> int) \<Rightarrow> CaseMaps \<Rightarrow> scope_key \<Rightarrow> HumanCaseStatus option \<Rightarrow> Assignee option \<Rightarrow> HumanCase list" where
  "map_list collate s sc status assignee =
     sort_key (\<lambda>c. - collate (hc_updatedAt c)) (filter (\<lambda>c. (hc_tenantId c, hc_environmentId c) = sc
       \<and> (case status of None \<Rightarrow> True | Some st \<Rightarrow> hc_status c = st)
       \<and> (case assignee of None \<Rightarrow> True | Some (Me staff) \<Rightarrow> hc_assignedStaffId c = Some staff | Some Unassigned \<Rightarrow> hc_assignedStaffId c = None))
       (map snd (cm_cases s)))"

definition map_auditEvents :: "CaseMaps \<Rightarrow> scope_key \<Rightarrow> string \<Rightarrow> CaseFailure + HumanCaseAuditEvent list" where
  "map_auditEvents s sc caseId = bindF (map_requireCase s sc caseId) (\<lambda>_.
     Inr (case map_of (cm_auditEvents s) caseId of None \<Rightarrow> [] | Some es \<Rightarrow> es))"

definition map_assign :: "string \<Rightarrow> int \<Rightarrow> HumanCase \<Rightarrow> HumanCase" where
  "map_assign staff now c = c\<lparr> hc_status := CLAIMED, hc_assignedStaffId := Some staff, hc_caseVersion := hc_caseVersion c + 1, hc_updatedAt := iso_string now \<rparr>"

definition map_claim :: "CaseMaps \<Rightarrow> int \<Rightarrow> (nat \<Rightarrow> string) \<Rightarrow> scope_key \<Rightarrow> ClaimInput \<Rightarrow> CaseFailure + CaseMaps \<times> HumanCase" where
  "map_claim s now ids sc i =
     bindF (map_replay s (ci_key i) (claim_fingerprint i)) (\<lambda>replay.
       case replay of
         Some r \<Rightarrow> bindF (map_requireCase s sc (si_caseId r)) (\<lambda>c. Inr (s, c))
       | None \<Rightarrow> bindF (map_requireCase s sc (ci_caseId i)) (\<lambda>current.
           bindF (map_assertVersion current (ci_expectedVersion i)) (\<lambda>_.
             if hc_status current = CLOSED \<or> hc_status current = DECISION_PENDING then Inl CASE_CONFLICT
             else if hc_assignedStaffId current \<noteq> None \<and> hc_assignedStaffId current \<noteq> Some (ci_staffId i) then Inl CASE_CONFLICT
             else (let unchanged = (hc_assignedStaffId current = Some (ci_staffId i));
                       claimed = (if unchanged then current else map_assign (ci_staffId i) now current);
                       s1 = (if unchanged then s else map_appendAudit (ids 0) claimed CASE_CLAIMED BY_HUMAN (ci_staffId i) [] now (map_put claimed s))
                   in Inr (map_remember (ci_key i) \<lparr> si_fingerprint = claim_fingerprint i, si_caseId = hc_caseId claimed, si_outboxEvent = None \<rparr> s1, claimed)))))"

definition map_reassign :: "CaseMaps \<Rightarrow> int \<Rightarrow> (nat \<Rightarrow> string) \<Rightarrow> scope_key \<Rightarrow> ClaimInput \<Rightarrow> CaseFailure + CaseMaps \<times> HumanCase" where
  "map_reassign s now ids sc i =
     bindF (map_replay s (ci_key i) (reassign_fingerprint i)) (\<lambda>replay.
       case replay of
         Some r \<Rightarrow> bindF (map_requireCase s sc (si_caseId r)) (\<lambda>c. Inr (s, c))
       | None \<Rightarrow> bindF (map_requireCase s sc (ci_caseId i)) (\<lambda>current.
           bindF (map_assertVersion current (ci_expectedVersion i)) (\<lambda>_.
             if hc_status current = CLOSED \<or> hc_status current = DECISION_PENDING then Inl CASE_CONFLICT
             else (let reassigned = map_assign (ci_staffId i) now current;
                       s1 = map_appendAudit (ids 0) reassigned CASE_CLAIMED BY_HUMAN (ci_staffId i) [(''reassigned'', ''true'')] now (map_put reassigned s)
                   in Inr (map_remember (ci_key i) \<lparr> si_fingerprint = reassign_fingerprint i, si_caseId = hc_caseId reassigned, si_outboxEvent = None \<rparr> s1, reassigned)))))"

definition outbox_event :: "string \<Rightarrow> string \<Rightarrow> HumanCase \<Rightarrow> DecideInput \<Rightarrow> HumanDecisionOutboxEvent" where
  "outbox_event event at c i = \<lparr> ob_eventId = event, ob_caseId = hc_caseId c, ob_workflowId = hc_workflowId c, ob_tenantId = hc_tenantId c,
     ob_environmentId = hc_environmentId c, ob_decision = di_decision i, ob_decidedBy = di_staffId i, ob_decidedAt = at,
     ob_reasonCode = di_reasonCode i, ob_note = di_note i, ob_createdAt = at \<rparr>"

definition map_decided :: "int \<Rightarrow> HumanCase \<Rightarrow> HumanCase" where
  "map_decided now c = c\<lparr> hc_status := DECISION_PENDING, hc_decidedAt := Some (iso_string now), hc_caseVersion := hc_caseVersion c + 1, hc_updatedAt := iso_string now \<rparr>"

definition map_decide ::
  "CaseMaps \<Rightarrow> int \<Rightarrow> (nat \<Rightarrow> string) \<Rightarrow> scope_key \<Rightarrow> DecideInput \<Rightarrow> CaseFailure + CaseMaps \<times> HumanCase \<times> HumanDecisionOutboxEvent" where
  "map_decide s now ids sc i =
     bindF (map_replay s (di_key i) (decision_fingerprint i)) (\<lambda>replay.
       case Option.bind replay (\<lambda>r. map_option (\<lambda>ev. (si_caseId r, ev)) (si_outboxEvent r)) of
         Some (caseId, ev) \<Rightarrow> bindF (map_requireCase s sc caseId) (\<lambda>c. Inr (s, c, ev))
       | None \<Rightarrow> bindF (map_requireCase s sc (di_caseId i)) (\<lambda>current.
           bindF (map_assertVersion current (di_expectedVersion i)) (\<lambda>_.
             if hc_status current \<noteq> CLAIMED \<or> hc_assignedStaffId current \<noteq> Some (di_staffId i) \<or> di_decision i \<notin> set (hc_allowedActions current)
             then Inl CASE_CONFLICT
             else (let decided = map_decided now current; ev = outbox_event (''outbox-'' @ ids 0) (iso_string now) decided i;
                       s1 = map_put decided s; s2 = s1\<lparr> cm_outbox := map_set (ob_eventId ev) ev (cm_outbox s1) \<rparr>;
                       s3 = map_appendAudit (ids 1) decided DECISION_RECORDED BY_HUMAN (di_staffId i) [(''decision'', action_string (di_decision i))] now s2
                   in Inr (map_remember (di_key i) \<lparr> si_fingerprint = decision_fingerprint i, si_caseId = hc_caseId decided, si_outboxEvent = Some ev \<rparr> s3,
                        decided, ev)))))"

definition map_isOutboxPending :: "CaseMaps \<Rightarrow> scope_key \<Rightarrow> string \<Rightarrow> bool" where
  "map_isOutboxPending s sc event = (case map_of (cm_outbox s) event of None \<Rightarrow> False | Some ev \<Rightarrow> (ob_tenantId ev, ob_environmentId ev) = sc)"

definition map_markOutboxDelivered :: "CaseMaps \<Rightarrow> int \<Rightarrow> scope_key \<Rightarrow> string \<Rightarrow> CaseMaps" where
  "map_markOutboxDelivered s now sc event =
     (if map_isOutboxPending s sc event then s\<lparr> cm_outbox := filter (\<lambda>e. fst e \<noteq> event) (cm_outbox s) \<rparr> else s)"

definition map_listPendingOutbox :: "(string \<Rightarrow> int) \<Rightarrow> CaseMaps \<Rightarrow> scope_key \<Rightarrow> nat \<Rightarrow> HumanDecisionOutboxEvent list" where
  "map_listPendingOutbox collate s sc limit =
     take limit (sort_key (\<lambda>ev. collate (ob_createdAt ev)) (filter (\<lambda>ev. (ob_tenantId ev, ob_environmentId ev) = sc) (map snd (cm_outbox s))))"

definition inMemoryCases :: "(string \<Rightarrow> int) \<Rightarrow> CaseMaps HumanCaseRepository" where
  "inMemoryCases collate = \<lparr> hr_open = map_open, hr_close = map_close, hr_list = map_list collate, hr_get = map_requireCase,
     hr_auditEvents = map_auditEvents, hr_claim = map_claim, hr_reassign = map_reassign, hr_decide = map_decide,
     hr_listPendingOutbox = map_listPendingOutbox collate, hr_isOutboxPending = map_isOutboxPending, hr_markOutboxDelivered = map_markOutboxDelivered \<rparr>"

section \<open>The life of a case\<close>

text \<open>
  What a repository promises, without tables, keys and replays: a map of cases and the decisions
  recorded so far. A case is opened once per workflow, assigned while it is open or claimed, decided
  once by the person it is assigned to, and closed; nothing else happens to it.
\<close>

record CaseSpec =
  sp_cases :: "scope_key \<times> string \<Rightarrow> HumanCase option"
  sp_decisions :: "HumanDecisionOutboxEvent set"

definition key_of :: "HumanCase \<Rightarrow> scope_key \<times> string" where
  "key_of c = ((hc_tenantId c, hc_environmentId c), hc_caseId c)"

definition event_key :: "HumanDecisionOutboxEvent \<Rightarrow> scope_key \<times> string" where
  "event_key ev = ((ob_tenantId ev, ob_environmentId ev), ob_caseId ev)"

definition put_case :: "HumanCase \<Rightarrow> CaseSpec \<Rightarrow> CaseSpec" where
  "put_case c v = v\<lparr> sp_cases := (sp_cases v)(key_of c \<mapsto> c) \<rparr>"

definition close_update :: "int \<Rightarrow> HumanCase \<Rightarrow> HumanCase" where
  "close_update now c = c\<lparr> hc_status := CLOSED, hc_caseVersion := hc_caseVersion c + 1, hc_updatedAt := iso_string now \<rparr>"

inductive case_spec :: "CaseSpec \<Rightarrow> CaseSpec \<Rightarrow> bool" where
  unchanged: "case_spec v v"
| opened: "(\<forall>k x. sp_cases v k = Some x \<longrightarrow> k \<noteq> key_of c \<and> (fst k, hc_workflowId x) \<noteq> (fst (key_of c), hc_workflowId c))
    \<Longrightarrow> hc_status c = OPEN \<Longrightarrow> hc_assignedStaffId c = None \<Longrightarrow> hc_caseVersion c = 1 \<Longrightarrow> hc_allowedActions c = allowedActionsForCaseType (hc_caseType c)
    \<Longrightarrow> case_spec v (put_case c v)"
| assigned: "sp_cases v (key_of c) = Some c \<Longrightarrow> hc_status c \<in> {OPEN, CLAIMED} \<Longrightarrow> case_spec v (put_case (map_assign staff now c) v)"
| decided: "sp_cases v (key_of c) = Some c \<Longrightarrow> hc_status c = CLAIMED \<Longrightarrow> hc_assignedStaffId c = Some (di_staffId i)
    \<Longrightarrow> hc_caseVersion c = di_expectedVersion i \<Longrightarrow> di_decision i \<in> set (hc_allowedActions c)
    \<Longrightarrow> case_spec v ((put_case (map_decided now c) v)\<lparr> sp_decisions := insert (outbox_event event (iso_string now) c i) (sp_decisions v) \<rparr>)"
| closed: "sp_cases v (key_of c) = Some c \<Longrightarrow> hc_status c \<noteq> CLOSED \<Longrightarrow> case_spec v (put_case (close_update now c) v)"

inductive_cases case_spec_cases: "case_spec v v'"

lemmas case_updates = map_assign_def map_decided_def close_update_def key_of_def

lemma key_of_updates [simp]:
  "key_of (map_assign staff now c) = key_of c" "key_of (map_decided now c) = key_of c" "key_of (close_update now c) = key_of c"
  by (simp_all add: case_updates)

lemma event_key_outbox [simp]: "event_key (outbox_event e at c i) = key_of c"
  by (simp add: event_key_def outbox_event_def key_of_def)

text \<open>
  The invariant: a case is under its own key and version numbers start at one; an open case is
  unassigned and a claimed one is assigned; a decision belongs to a case that is no longer open to
  decisions, it was made by the person the case is assigned to, it is one of the actions of the type
  of the case, and it is the only one of its case; and a workflow has one case.
\<close>

definition case_ok :: "scope_key \<times> string \<Rightarrow> HumanCase \<Rightarrow> bool" where
  "case_ok k c \<longleftrightarrow> k = key_of c \<and> 1 \<le> hc_caseVersion c \<and> hc_allowedActions c = allowedActionsForCaseType (hc_caseType c)
     \<and> (hc_status c = OPEN \<longrightarrow> hc_assignedStaffId c = None) \<and> (hc_status c = CLAIMED \<longrightarrow> hc_assignedStaffId c \<noteq> None)"

definition decision_ok :: "HumanDecisionOutboxEvent \<Rightarrow> HumanCase \<Rightarrow> bool" where
  "decision_ok ev c \<longleftrightarrow> hc_status c \<in> {DECISION_PENDING, CLOSED} \<and> hc_assignedStaffId c = Some (ob_decidedBy ev)
     \<and> ob_decision ev \<in> set (allowedActionsForCaseType (hc_caseType c)) \<and> ob_workflowId ev = hc_workflowId c"

definition spec_ok :: "CaseSpec \<Rightarrow> bool" where
  "spec_ok v \<longleftrightarrow> (\<forall>k c. sp_cases v k = Some c \<longrightarrow> case_ok k c)
     \<and> (\<forall>ev \<in> sp_decisions v. \<exists>c. sp_cases v (event_key ev) = Some c \<and> decision_ok ev c)
     \<and> (\<forall>ev \<in> sp_decisions v. \<forall>ev' \<in> sp_decisions v. event_key ev = event_key ev' \<longrightarrow> ev = ev')
     \<and> (\<forall>k c k' c'. sp_cases v k = Some c \<longrightarrow> sp_cases v k' = Some c' \<longrightarrow> fst k = fst k' \<longrightarrow> hc_workflowId c = hc_workflowId c' \<longrightarrow> k = k')"

lemma spec_ok_update:
  assumes "spec_ok v" and "sp_cases v (key_of c) = Some c" and "key_of c' = key_of c" and "hc_workflowId c' = hc_workflowId c"
    and "case_ok (key_of c) c'" and "\<And>ev. decision_ok ev c \<Longrightarrow> decision_ok ev c'"
  shows "spec_ok (put_case c' v)"
  using assms unfolding spec_ok_def put_case_def by (simp split: if_split_asm) (metis option.inject)

lemma spec_ok_case: "spec_ok v \<Longrightarrow> sp_cases v k = Some c \<Longrightarrow> case_ok k c"
  unfolding spec_ok_def by blast

lemma spec_ok_decision: "spec_ok v \<Longrightarrow> ev \<in> sp_decisions v \<Longrightarrow> sp_cases v (event_key ev) = Some c \<Longrightarrow> decision_ok ev c"
  unfolding spec_ok_def by fastforce

lemma case_spec_ok:
  assumes "case_spec v v'" and "spec_ok v"
  shows "spec_ok v'"
  using assms
proof cases
  case (opened c)
  have "sp_cases v (key_of c) \<noteq> Some x" for x using opened(2) by blast
  then have none: "sp_cases v (key_of c) = None" by blast
  have ev: "event_key ev \<noteq> key_of c" if "ev \<in> sp_decisions v" for ev
  proof -
    from assms(2) that obtain x where "sp_cases v (event_key ev) = Some x" unfolding spec_ok_def by blast
    with none show ?thesis by auto
  qed
  have ok: "case_ok (key_of c) c" using opened by (simp add: case_ok_def)
  show ?thesis
    using assms(2) ok ev opened(2) unfolding opened(1) spec_ok_def put_case_def
    by (simp split: if_split_asm) (metis fst_conv snd_conv)
next
  case (assigned c staff now)
  show ?thesis
    unfolding assigned(1) using spec_ok_case [OF assms(2) assigned(2)] assigned(3)
    by (intro spec_ok_update [OF assms(2) assigned(2)]) (auto simp: case_ok_def decision_ok_def map_assign_def key_of_def)
next
  case (decided c i event now)
  have none: "event_key ev \<noteq> key_of c" if "ev \<in> sp_decisions v" for ev
    using spec_ok_decision [OF assms(2) that] decided(2,3) by (auto simp: decision_ok_def)
  have ok: "spec_ok (put_case (map_decided now c) v)"
    using spec_ok_case [OF assms(2) decided(2)] decided(3)
    by (intro spec_ok_update [OF assms(2) decided(2)]) (auto simp: case_ok_def decision_ok_def map_decided_def key_of_def)
  have "decision_ok (outbox_event event (iso_string now) c i) (map_decided now c)"
    using spec_ok_case [OF assms(2) decided(2)] decided by (simp add: case_ok_def decision_ok_def map_decided_def outbox_event_def)
  with ok none show ?thesis
    unfolding decided(1) spec_ok_def by (simp add: put_case_def) metis
next
  case (closed c now)
  show ?thesis
    unfolding closed(1) using spec_ok_case [OF assms(2) closed(2)] closed(3)
    by (intro spec_ok_update [OF assms(2) closed(2)]) (auto simp: case_ok_def decision_ok_def close_update_def key_of_def)
qed simp

section \<open>The contract\<close>

inductive case_step :: "'s HumanCaseRepository \<Rightarrow> ('s \<Rightarrow> (nat \<Rightarrow> string) \<Rightarrow> scope_key \<Rightarrow> OpenCaseInput \<Rightarrow> bool) \<Rightarrow> 's \<Rightarrow> 's \<Rightarrow> bool"
  for repo :: "'s HumanCaseRepository" and fresh :: "'s \<Rightarrow> (nat \<Rightarrow> string) \<Rightarrow> scope_key \<Rightarrow> OpenCaseInput \<Rightarrow> bool" where
  open_step: "fresh s ids sc i \<Longrightarrow> hr_open repo s now ids sc i = Inr (s', c) \<Longrightarrow> case_step repo fresh s s'"
| close_step: "hr_close repo s now ids sc caseId workflowId outcome = Inr (s', c) \<Longrightarrow> case_step repo fresh s s'"
| claim_step: "hr_claim repo s now ids sc j = Inr (s', c) \<Longrightarrow> case_step repo fresh s s'"
| reassign_step: "hr_reassign repo s now ids sc j = Inr (s', c) \<Longrightarrow> case_step repo fresh s s'"
| decide_step: "hr_decide repo s now ids sc d = Inr (s', c, ev) \<Longrightarrow> case_step repo fresh s s'"
| delivered_step: "case_step repo fresh s (hr_markOutboxDelivered repo s now sc e)"

text \<open>A decision records what was asked for, for the case that was named, or nothing new.\<close>

definition new_decision :: "scope_key \<Rightarrow> DecideInput \<Rightarrow> HumanDecisionOutboxEvent \<Rightarrow> CaseSpec \<Rightarrow> CaseSpec \<Rightarrow> bool" where
  "new_decision sc d ev v v' \<longleftrightarrow> sp_decisions v' = sp_decisions v
     \<or> sp_decisions v' = insert ev (sp_decisions v) \<and> event_key ev = (sc, di_caseId d) \<and> ob_decision ev = di_decision d
       \<and> ob_decidedBy ev = di_staffId d \<and> ob_note ev = di_note d"

locale human_case_repository =
  fixes repo :: "'s HumanCaseRepository" and fresh :: "'s \<Rightarrow> (nat \<Rightarrow> string) \<Rightarrow> scope_key \<Rightarrow> OpenCaseInput \<Rightarrow> bool" and view :: "'s \<Rightarrow> CaseSpec" and ok :: "'s \<Rightarrow> bool"
  assumes get: "ok s \<Longrightarrow> hr_get repo s sc caseId = (case sp_cases (view s) (sc, caseId) of None \<Rightarrow> Inl CASE_NOT_FOUND | Some c \<Rightarrow> Inr c)"
    and opens: "ok s \<Longrightarrow> fresh s ids sc i \<Longrightarrow> hr_open repo s now ids sc i = Inr (s', c) \<Longrightarrow> ok s' \<and> case_spec (view s) (view s')
      \<and> sp_cases (view s') (sc, hc_caseId c) = Some c \<and> hc_workflowId c = oi_workflowId i \<and> hc_caseType c = oi_caseType i"
    and closes: "ok s \<Longrightarrow> hr_close repo s now ids sc caseId workflowId outcome = Inr (s', c) \<Longrightarrow> ok s' \<and> case_spec (view s) (view s')"
    and claims: "ok s \<Longrightarrow> hr_claim repo s now ids sc j = Inr (s', c) \<Longrightarrow> ok s' \<and> case_spec (view s) (view s')"
    and reassigns: "ok s \<Longrightarrow> hr_reassign repo s now ids sc j = Inr (s', c) \<Longrightarrow> ok s' \<and> case_spec (view s) (view s')"
    and decides: "ok s \<Longrightarrow> hr_decide repo s now ids sc d = Inr (s', c, ev) \<Longrightarrow> ok s' \<and> case_spec (view s) (view s') \<and> ev \<in> sp_decisions (view s')"
    and decides_new: "ok s \<Longrightarrow> hr_decide repo s now ids sc d = Inr (s', c, ev) \<Longrightarrow> new_decision sc d ev (view s) (view s')"
    and delivers: "ok s \<Longrightarrow> ok (hr_markOutboxDelivered repo s now sc e) \<and> view (hr_markOutboxDelivered repo s now sc e) = view s"
    and pending: "ok s \<Longrightarrow> set (hr_listPendingOutbox repo s sc n) \<subseteq> sp_decisions (view s)"
begin

lemma step_refines:
  assumes "case_step repo fresh s s'" and "ok s"
  shows "ok s' \<and> case_spec (view s) (view s')"
  using assms by cases (auto dest: opens closes claims reassigns decides simp: delivers case_spec.unchanged)

lemma reachable_ok:
  assumes "(case_step repo fresh)\<^sup>*\<^sup>* s0 s" and "ok s0" and "spec_ok (view s0)"
  shows "ok s \<and> spec_ok (view s)"
  using assms by induction (auto dest: step_refines intro: case_spec_ok)

text \<open>Whoever decides a case: the decision is the only one of the case, and its maker was assigned to it.\<close>

lemma decision_unique:
  assumes "(case_step repo fresh)\<^sup>*\<^sup>* s0 s" and "ok s0" and "spec_ok (view s0)"
    and "ev \<in> sp_decisions (view s)" and "ev' \<in> sp_decisions (view s)" and "event_key ev = event_key ev'"
  shows "ev = ev'"
  using reachable_ok [OF assms(1-3)] assms(4-6) unfolding spec_ok_def by blast

lemma decision_case:
  assumes "(case_step repo fresh)\<^sup>*\<^sup>* s0 s" and "ok s0" and "spec_ok (view s0)" and "ev \<in> sp_decisions (view s)"
  obtains c where "sp_cases (view s) (event_key ev) = Some c" "decision_ok ev c"
  using reachable_ok [OF assms(1-3)] assms(4) unfolding spec_ok_def by blast

end

section \<open>Postgres keeps the contract\<close>

definition pg_view :: "'z HumanDb_scheme \<Rightarrow> CaseSpec" where
  "pg_view db = \<lparr> sp_cases = (\<lambda>k. map_option toHumanCase (List.find (\<lambda>row. case_key row = k) (hd_cases db))),
     sp_decisions = toOutboxEvent ` set (hd_outbox db) \<rparr>"

definition pg_cases_ok :: "'z HumanDb_scheme \<Rightarrow> bool" where
  "pg_cases_ok db \<longleftrightarrow> distinct (map case_key (hd_cases db)) \<and> distinct (map (\<lambda>row. (row_scope row, cr_workflow_id row)) (hd_cases db))
     \<and> distinct (map outbox_key (hd_outbox db))"

lemma bindF_eq_Inr [simp]: "bindF r f = Inr b \<longleftrightarrow> (\<exists>a. r = Inr a \<and> f a = Inr b)"
  by (cases r) (simp_all add: bindF_def)

lemma find_replaced:
  "List.find (\<lambda>r. f r = k) (map (\<lambda>r. if f r = f y then y else r) xs)
    = (if k = f y \<and> (\<exists>x \<in> set xs. f x = f y) then Some y else List.find (\<lambda>r. f r = k) xs)"
  by (induction xs) auto

lemma requireCase_Inr: "requireCase db sc caseId = Inr row \<Longrightarrow> row \<in> set (hd_cases db) \<and> case_key row = (sc, caseId)
    \<and> List.find (\<lambda>row. case_key row = (sc, caseId)) (hd_cases db) = Some row"
  by (auto simp: requireCase_def find_Some_iff split: option.split_asm)

lemma key_of_toHumanCase [simp]: "key_of (toHumanCase row) = case_key row"
  by (simp add: key_of_def toHumanCase_def case_key_def row_scope_def)

lemma toHumanCase_simps [simp]:
  "hc_workflowId (toHumanCase row) = cr_workflow_id row" "hc_caseId (toHumanCase row) = cr_case_id row" "hc_caseType (toHumanCase row) = cr_case_type row"
  "hc_status (toHumanCase row) = cr_case_status row" "hc_assignedStaffId (toHumanCase row) = cr_assigned_staff_id row"
  "hc_caseVersion (toHumanCase row) = cr_case_version row" "hc_allowedActions (toHumanCase row) = allowedActionsForCaseType (cr_case_type row)"
  by (simp_all add: toHumanCase_def)

lemma pg_view_requireCase: "requireCase db sc caseId = Inr row \<Longrightarrow> sp_cases (pg_view db) (key_of (toHumanCase row)) = Some (toHumanCase row)"
  by (drule requireCase_Inr) (simp add: pg_view_def)

lemma pg_view_replace:
  assumes "row \<in> set (hd_cases db)" and "case_key row' = case_key row"
  shows "pg_view (replace_case row' db) = put_case (toHumanCase row') (pg_view db)"
proof -
  have "\<exists>x \<in> set (hd_cases db). case_key x = case_key row'" using assms by metis
  then show ?thesis by (auto simp: pg_view_def replace_case_def put_case_def find_replaced fun_eq_iff)
qed

lemma pg_ok_replace:
  assumes "pg_cases_ok db" and "row \<in> set (hd_cases db)" and "case_key row' = case_key row" and "cr_workflow_id row' = cr_workflow_id row"
  shows "pg_cases_ok (replace_case row' db)"
proof -
  have "map f (map (\<lambda>r. if case_key r = case_key row' then row' else r) (hd_cases db)) = map f (hd_cases db)"
    if "f row' = f row" for f :: "CaseRow \<Rightarrow> 'b"
  proof -
    have "r = row" if "r \<in> set (hd_cases db)" "case_key r = case_key row" for r
      using assms(1,2) that by (metis eq_key_imp_eq_value distinct_map inj_onD pg_cases_ok_def)
    then show ?thesis using that assms(3) by auto
  qed
  note e = this [of case_key] this [of "\<lambda>row. (row_scope row, cr_workflow_id row)"]
  have "row_scope row' = row_scope row" using assms(3) by (simp add: case_key_def)
  with e assms show ?thesis by (simp add: pg_cases_ok_def replace_case_def del: map_map)
qed

lemma appendAudit_Inr:
  assumes "appendAudit uuid row t a actor details at db = Inr db'"
  shows "pg_view db' = pg_view db" and "pg_cases_ok db' = pg_cases_ok db" and "hd_outbox db' = hd_outbox db"
  using assms by (auto simp: appendAudit_def Let_def pg_view_def pg_cases_ok_def split: if_split_asm)

lemma reserveIdempotency_Inr:
  assumes "reserveIdempotency db sc action caseId key fp = Inr (db1, replay)"
  shows "pg_view db1 = pg_view db" and "pg_cases_ok db1 = pg_cases_ok db" and "hd_outbox db1 = hd_outbox db"
  using assms by (auto simp: reserveIdempotency_def pg_view_def pg_cases_ok_def split: option.split_asm if_split_asm)

lemmas row_updates = toHumanCase_def assign_case_def decide_case_def case_key_def row_scope_def

lemma toHumanCase_assign: "toHumanCase (assign_case staff now row) = map_assign staff now (toHumanCase row)"
  by (simp add: row_updates map_assign_def)

lemma toHumanCase_decide: "toHumanCase (decide_case now row) = map_decided now (toHumanCase row)"
  by (simp add: row_updates map_decided_def)

lemma case_key_updates [simp]: "case_key (assign_case staff now row) = case_key row" "case_key (decide_case now row) = case_key row"
  by (simp_all add: row_updates)

lemma toOutboxEvent_row: "toOutboxEvent (outbox_row event now (decide_case now row) i) = outbox_event event (iso_string now) (toHumanCase row) i"
  by (simp add: toOutboxEvent_def outbox_row_def outbox_event_def row_updates)

lemma find_key_distinct: "distinct (map f xs) \<Longrightarrow> x \<in> set xs \<Longrightarrow> List.find (\<lambda>r. f r = f x) xs = Some x"
  by (induction xs) (auto simp: image_iff)

lemma find_append1: "List.find P (xs @ [y]) = (case List.find P xs of None \<Rightarrow> if P y then Some y else None | Some x \<Rightarrow> Some x)"
  by (induction xs) auto

lemma pg_view_Some: "sp_cases (pg_view db) k = Some c \<Longrightarrow> \<exists>row \<in> set (hd_cases db). case_key row = k \<and> c = toHumanCase row"
  by (auto simp: pg_view_def find_Some_iff)

lemma pg_view_append:
  assumes "case_key row \<notin> case_key ` set (hd_cases db)"
  shows "pg_view (db\<lparr> hd_cases := hd_cases db @ [row] \<rparr>) = put_case (toHumanCase row) (pg_view db)"
proof -
  have none: "List.find (\<lambda>r. case_key r = case_key row) (hd_cases db) = None" using assms by (auto simp: find_None_iff image_iff)
  have "map_option toHumanCase (List.find (\<lambda>r. case_key r = k) (hd_cases db @ [row]))
      = ((\<lambda>k. map_option toHumanCase (List.find (\<lambda>r. case_key r = k) (hd_cases db)))(case_key row \<mapsto> toHumanCase row)) k" for k
    using none by (cases "k = case_key row") (auto simp: find_append1 split: option.split)
  then show ?thesis unfolding pg_view_def put_case_def by (simp add: fun_eq_iff)
qed

lemma pg_opens:
  assumes "pg_cases_ok db" and "pg_case_open db now ids sc i = Inr (db', c)"
  shows "pg_cases_ok db' \<and> case_spec (pg_view db) (pg_view db') \<and> sp_cases (pg_view db') (sc, hc_caseId c) = Some c
    \<and> hc_workflowId c = oi_workflowId i \<and> hc_caseType c = oi_caseType i"
proof (cases "List.find (\<lambda>row. row_scope row = sc \<and> cr_workflow_id row = oi_workflowId i) (hd_cases db)")
  case (Some row)
  then have r: "row \<in> set (hd_cases db)" "row_scope row = sc" "cr_workflow_id row = oi_workflowId i" by (auto simp: find_Some_iff)
  have "List.find (\<lambda>x. case_key x = case_key row) (hd_cases db) = Some row" using assms(1) r(1) by (intro find_key_distinct) (simp_all add: pg_cases_ok_def)
  then have "sp_cases (pg_view db) (sc, cr_case_id row) = Some (toHumanCase row)" using r(2) by (simp add: pg_view_def case_key_def)
  with Some assms r show ?thesis
    by (auto simp: pg_case_open_def toHumanCase_def case_spec.unchanged split: if_split_asm)
next
  case None
  let ?created = "opened_row (''case-'' @ ids 0) now sc i"
  let ?db = "db\<lparr> hd_cases := hd_cases db @ [?created] \<rparr>"
  have k: "case_key ?created = (sc, ''case-'' @ ids 0)" "row_scope ?created = sc" "cr_workflow_id ?created = oi_workflowId i"
    by (simp_all add: opened_row_def case_key_def row_scope_def)
  obtain a: "appendAudit (ids 1) ?created CASE_OPENED BY_WORKFLOW (oi_workflowId i) [(''case_type'', case_type_string (oi_caseType i))] now ?db = Inr db'"
      and f: "case_key ?created \<notin> case_key ` set (hd_cases db)" and c: "c = toHumanCase ?created"
    using None assms(2) k by (auto simp: pg_case_open_def Let_def split: if_split_asm)
  have w: "row \<in> set (hd_cases db) \<Longrightarrow> (row_scope row, cr_workflow_id row) \<noteq> (sc, oi_workflowId i)" for row
    using None by (auto simp: find_None_iff)
  have v: "pg_view ?db = put_case (toHumanCase ?created) (pg_view db)"
    using f by (rule pg_view_append)
  have "case_spec (pg_view db) (put_case (toHumanCase ?created) (pg_view db))"
  proof (rule case_spec.opened)
    show "\<forall>k x. sp_cases (pg_view db) k = Some x \<longrightarrow> k \<noteq> key_of (toHumanCase ?created)
        \<and> (fst k, hc_workflowId x) \<noteq> (fst (key_of (toHumanCase ?created)), hc_workflowId (toHumanCase ?created))"
    proof (intro allI impI)
      fix k x
      assume "sp_cases (pg_view db) k = Some x"
      then obtain row where "row \<in> set (hd_cases db)" "case_key row = k" "x = toHumanCase row" using pg_view_Some by blast
      with f w [of row] k show "k \<noteq> key_of (toHumanCase ?created) \<and> (fst k, hc_workflowId x) \<noteq> (fst (key_of (toHumanCase ?created)), hc_workflowId (toHumanCase ?created))"
        by (auto simp: case_key_def)
    qed
  qed (simp_all add: toHumanCase_def opened_row_def)
  moreover have "(sc, oi_workflowId i) \<notin> (\<lambda>row. (row_scope row, cr_workflow_id row)) ` set (hd_cases db)" using w by fastforce
  then have "pg_cases_ok ?db" using assms(1) f k by (simp add: pg_cases_ok_def)
  ultimately show ?thesis
    using appendAudit_Inr [OF a] v c k by (simp add: put_case_def) (simp add: toHumanCase_def opened_row_def case_key_def row_scope_def)
qed

lemma pg_closes:
  assumes "pg_cases_ok db" and "pg_case_close db now ids sc caseId workflowId outcome = Inr (db', c)"
  shows "pg_cases_ok db' \<and> case_spec (pg_view db) (pg_view db')"
proof -
  obtain row where r: "requireCase db sc caseId = Inr row" using assms(2) by (auto simp: pg_case_close_def)
  show ?thesis
  proof (cases "cr_case_status row = CLOSED")
    case False
    define closed where "closed = row\<lparr> cr_case_status := CLOSED, cr_case_version := cr_case_version row + 1, cr_updated_at := now \<rparr>"
    have k: "case_key closed = case_key row" "cr_workflow_id closed = cr_workflow_id row" "toHumanCase closed = close_update now (toHumanCase row)"
      by (simp_all add: closed_def row_updates close_update_def)
    obtain uuid t a actor details where ap: "appendAudit uuid closed t a actor details now (replace_case closed db) = Inr db'"
      using assms(2) r False by (auto simp: pg_case_close_def Let_def closed_def [symmetric] split: if_split_asm)
    have "case_spec (pg_view db) (put_case (toHumanCase closed) (pg_view db))"
      unfolding k(3) using pg_view_requireCase [OF r] False by (intro case_spec.closed) (simp_all add: toHumanCase_def)
    with appendAudit_Inr [OF ap] pg_view_replace [of row db closed] pg_ok_replace [OF assms(1), of row closed] requireCase_Inr [OF r] k show ?thesis by simp
  qed (use assms r in \<open>auto simp: pg_case_close_def case_spec.unchanged split: if_split_asm\<close>)
qed

lemma assigned_refines:
  assumes "pg_cases_ok db1" and "requireCase db1 sc caseId = Inr row" and "cr_case_status row \<noteq> CLOSED" and "cr_case_status row \<noteq> DECISION_PENDING"
    and "appendAudit uuid (assign_case staff now row) t a actor details now (replace_case (assign_case staff now row) db1) = Inr db'"
  shows "pg_cases_ok db' \<and> case_spec (pg_view db1) (pg_view db')"
proof -
  have "case_spec (pg_view db1) (put_case (map_assign staff now (toHumanCase row)) (pg_view db1))"
    using pg_view_requireCase [OF assms(2)] assms(3,4)
    by (intro case_spec.assigned) (simp_all add: toHumanCase_def, cases "cr_case_status row", simp_all)
  moreover have "cr_workflow_id (assign_case staff now row) = cr_workflow_id row" by (simp add: assign_case_def)
  ultimately show ?thesis
    using appendAudit_Inr [OF assms(5)] pg_view_replace [of row db1 "assign_case staff now row"]
      pg_ok_replace [OF assms(1), of row "assign_case staff now row"] requireCase_Inr [OF assms(2)]
    by (simp add: toHumanCase_assign)
qed

lemma pg_claims:
  assumes "pg_cases_ok db" and "pg_claim hash db now ids sc j = Inr (db', c)"
  shows "pg_cases_ok db' \<and> case_spec (pg_view db) (pg_view db')"
proof -
  obtain db1 replay where r: "reserveIdempotency db sc ''claim'' (ci_caseId j) (ci_key j) (hash (claim_fingerprint j)) = Inr (db1, replay)"
    using assms(2) by (auto simp: pg_claim_def)
  note same = reserveIdempotency_Inr [OF r]
  obtain row where row: "requireCase db1 sc (ci_caseId j) = Inr row" using assms(2) r by (auto simp: pg_claim_def split: if_split_asm)
  show ?thesis
  proof (cases "db' = db1")
    case True
    with same assms(1) show ?thesis by (simp add: case_spec.unchanged)
  next
    case False
    then have "cr_case_status row \<noteq> CLOSED" "cr_case_status row \<noteq> DECISION_PENDING"
        "appendAudit (ids 0) (assign_case (ci_staffId j) now row) CASE_CLAIMED BY_HUMAN (ci_staffId j) [] now (replace_case (assign_case (ci_staffId j) now row) db1) = Inr db'"
      using assms(2) r row by (auto simp: pg_claim_def Let_def split: if_split_asm)
    from assigned_refines [OF _ row this] same assms(1) show ?thesis by simp
  qed
qed

lemma pg_reassigns:
  assumes "pg_cases_ok db" and "pg_reassign hash db now ids sc j = Inr (db', c)"
  shows "pg_cases_ok db' \<and> case_spec (pg_view db) (pg_view db')"
proof -
  obtain db1 replay where r: "reserveIdempotency db sc ''reassign'' (ci_caseId j) (ci_key j) (hash (reassign_fingerprint j)) = Inr (db1, replay)"
    using assms(2) by (auto simp: pg_reassign_def)
  note same = reserveIdempotency_Inr [OF r]
  obtain row where row: "requireCase db1 sc (ci_caseId j) = Inr row" using assms(2) r by (auto simp: pg_reassign_def split: if_split_asm)
  show ?thesis
  proof (cases "replay = None")
    case True
    then have "cr_case_status row \<noteq> CLOSED" "cr_case_status row \<noteq> DECISION_PENDING"
        "appendAudit (ids 0) (assign_case (ci_staffId j) now row) CASE_CLAIMED BY_HUMAN (ci_staffId j) [(''reassigned'', ''true'')] now
          (replace_case (assign_case (ci_staffId j) now row) db1) = Inr db'"
      using assms(2) r row by (auto simp: pg_reassign_def Let_def split: if_split_asm)
    from assigned_refines [OF _ row this] same assms(1) show ?thesis by simp
  next
    case False
    with assms r row same show ?thesis by (auto simp: pg_reassign_def case_spec.unchanged)
  qed
qed

lemma decided_refines:
  assumes "pg_cases_ok db1" and "requireCase db1 sc caseId = Inr row" and "cr_case_status row = CLAIMED" and "cr_assigned_staff_id row = Some (di_staffId d)"
    and "cr_case_version row = di_expectedVersion d" and "di_decision d \<in> set (allowedActionsForCaseType (cr_case_type row))"
    and "outbox_key (outbox_row event now (decide_case now row) d) \<notin> outbox_key ` set (hd_outbox db1)"
    and "db2 = (replace_case (decide_case now row) db1)\<lparr> hd_outbox := hd_outbox db1 @ [outbox_row event now (decide_case now row) d], hd_idempotency := keys \<rparr>"
  shows "pg_cases_ok db2 \<and> case_spec (pg_view db1) (pg_view db2)
    \<and> sp_decisions (pg_view db2) = insert (toOutboxEvent (outbox_row event now (decide_case now row) d)) (sp_decisions (pg_view db1))"
proof -
  let ?c = "toHumanCase row" and ?row = "outbox_row event now (decide_case now row) d"
  have w: "cr_workflow_id (decide_case now row) = cr_workflow_id row" by (simp add: decide_case_def)
  have v: "pg_view db2 = (put_case (map_decided now ?c) (pg_view db1))\<lparr> sp_decisions := insert (outbox_event event (iso_string now) ?c d) (sp_decisions (pg_view db1)) \<rparr>"
    using pg_view_replace [of row db1 "decide_case now row"] requireCase_Inr [OF assms(2)] unfolding assms(8)
    by (auto simp: pg_view_def put_case_def toHumanCase_decide toOutboxEvent_row)
  have "case_spec (pg_view db1) (pg_view db2)"
    unfolding v using pg_view_requireCase [OF assms(2)] assms(3-6) by (intro case_spec.decided) simp_all
  moreover have "pg_cases_ok db2"
    using pg_ok_replace [OF assms(1), of row "decide_case now row"] requireCase_Inr [OF assms(2)] w assms(7)
    unfolding assms(8) by (auto simp: pg_cases_ok_def replace_case_def)
  ultimately show ?thesis by (simp add: v toOutboxEvent_row)
qed

lemma pg_decide_fresh:
  assumes "pg_decide hash db now ids sc d = Inr (db', c, ev)"
    and "reserveIdempotency db sc ''decision'' (di_caseId d) (di_key d) (hash (decision_fingerprint d)) = Inr (db1, None)"
  obtains row db2 keys where "requireCase db1 sc (di_caseId d) = Inr row" "cr_case_status row = CLAIMED" "cr_assigned_staff_id row = Some (di_staffId d)"
    "cr_case_version row = di_expectedVersion d" "di_decision d \<in> set (allowedActionsForCaseType (cr_case_type row))"
    "outbox_key (outbox_row (''outbox-'' @ ids 0) now (decide_case now row) d) \<notin> outbox_key ` set (hd_outbox db1)"
    "db2 = (replace_case (decide_case now row) db1)\<lparr> hd_outbox := hd_outbox db1 @ [outbox_row (''outbox-'' @ ids 0) now (decide_case now row) d], hd_idempotency := keys \<rparr>"
    "appendAudit (ids 1) (decide_case now row) DECISION_RECORDED BY_HUMAN (di_staffId d) [(''decision'', action_string (di_decision d))] now db2 = Inr db'"
    "c = toHumanCase (decide_case now row)" "ev = toOutboxEvent (outbox_row (''outbox-'' @ ids 0) now (decide_case now row) d)"
  using assms by (auto simp: pg_decide_def Let_def assertExpectedVersion_def split: if_split_asm)

lemma pg_decides:
  assumes "pg_cases_ok db" and "pg_decide hash db now ids sc d = Inr (db', c, ev)"
  shows "(pg_cases_ok db' \<and> case_spec (pg_view db) (pg_view db') \<and> ev \<in> sp_decisions (pg_view db')) \<and> new_decision sc d ev (pg_view db) (pg_view db')"
proof -
  obtain db1 replay where r: "reserveIdempotency db sc ''decision'' (di_caseId d) (di_key d) (hash (decision_fingerprint d)) = Inr (db1, replay)"
    using assms(2) by (auto simp: pg_decide_def)
  note same = reserveIdempotency_Inr [OF r]
  show ?thesis
  proof (cases replay)
    case None
    from pg_decide_fresh [OF assms(2)] r None obtain row db2 keys where
      a: "requireCase db1 sc (di_caseId d) = Inr row" "cr_case_status row = CLAIMED" "cr_assigned_staff_id row = Some (di_staffId d)"
         "cr_case_version row = di_expectedVersion d" "di_decision d \<in> set (allowedActionsForCaseType (cr_case_type row))"
         "outbox_key (outbox_row (''outbox-'' @ ids 0) now (decide_case now row) d) \<notin> outbox_key ` set (hd_outbox db1)"
         "db2 = (replace_case (decide_case now row) db1)\<lparr> hd_outbox := hd_outbox db1 @ [outbox_row (''outbox-'' @ ids 0) now (decide_case now row) d], hd_idempotency := keys \<rparr>"
         "appendAudit (ids 1) (decide_case now row) DECISION_RECORDED BY_HUMAN (di_staffId d) [(''decision'', action_string (di_decision d))] now db2 = Inr db'"
         "ev = toOutboxEvent (outbox_row (''outbox-'' @ ids 0) now (decide_case now row) d)" by metis
    have "event_key ev = (sc, di_caseId d) \<and> ob_decision ev = di_decision d \<and> ob_decidedBy ev = di_staffId d \<and> ob_note ev = di_note d"
      using requireCase_Inr [OF a(1)] unfolding a(9) toOutboxEvent_row event_key_outbox by (simp add: outbox_event_def)
    with decided_refines [OF _ a(1-7)] same assms(1) appendAudit_Inr [OF a(8)] a(9) show ?thesis by (simp add: new_decision_def)
  next
    case (Some x)
    then obtain event row where "List.find (\<lambda>row. outbox_key row = (sc, event)) (hd_outbox db1) = Some row" "db' = db1" "ev = toOutboxEvent row"
      using assms(2) r by (auto simp: pg_decide_def split: option.split_asm)
    moreover from this(1) have "row \<in> set (hd_outbox db1)" by (auto simp: find_Some_iff)
    ultimately show ?thesis using same assms(1) by (auto simp: case_spec.unchanged pg_view_def new_decision_def)
  qed
qed

lemma pg_delivers:
  "pg_cases_ok (pg_markOutboxDelivered db now sc e) = pg_cases_ok db" "pg_view (pg_markOutboxDelivered db now sc e) = pg_view db"
proof -
  have "outbox_key (delivered_row now sc e row) = outbox_key row" "toOutboxEvent (delivered_row now sc e row) = toOutboxEvent row" for row
    by (simp_all add: delivered_row_def outbox_key_def toOutboxEvent_def)
  then show "pg_cases_ok (pg_markOutboxDelivered db now sc e) = pg_cases_ok db" "pg_view (pg_markOutboxDelivered db now sc e) = pg_view db"
    by (simp_all add: pg_cases_ok_def pg_view_def pg_markOutboxDelivered_def image_image comp_def)
qed

interpretation pgc: human_case_repository "postgresCases hash" "\<lambda>_ _ _ _. True" pg_view pg_cases_ok
proof unfold_locales
  show "hr_get (postgresCases hash) s sc caseId = (case sp_cases (pg_view s) (sc, caseId) of None \<Rightarrow> Inl CASE_NOT_FOUND | Some c \<Rightarrow> Inr c)" for s sc caseId
    by (simp add: postgresCases_def pg_case_get_def requireCase_def pg_view_def bindF_def split: option.split)
  show "set (hr_listPendingOutbox (postgresCases hash) s sc n) \<subseteq> sp_decisions (pg_view s)" for s sc n
    by (auto simp: postgresCases_def pg_listPendingOutbox_def pg_view_def dest: in_set_takeD)
qed (auto simp: postgresCases_def pg_delivers dest: pg_opens pg_closes pg_claims pg_reassigns pg_decides)

section \<open>The in-memory repository keeps the contract\<close>

definition case_scope :: "HumanCase \<Rightarrow> scope_key" where
  "case_scope c = (hc_tenantId c, hc_environmentId c)"

definition map_view :: "CaseMaps \<Rightarrow> CaseSpec" where
  "map_view s = \<lparr> sp_cases = (\<lambda>k. case map_of (cm_cases s) (snd k) of None \<Rightarrow> None | Some c \<Rightarrow> if case_scope c = fst k then Some c else None),
     sp_decisions = {ev. \<exists>k r. (k, r) \<in> set (cm_idempotency s) \<and> si_outboxEvent r = Some ev} \<rparr>"

text \<open>The key of the workflow index joins three strings by the zero character: it is unambiguous when none of them has one.\<close>

definition no_nul :: "string \<Rightarrow> bool" where
  "no_nul s \<longleftrightarrow> CHR 0x00 \<notin> set s"

definition plain_key :: "scope_key \<Rightarrow> string \<Rightarrow> bool" where
  "plain_key sc workflowId \<longleftrightarrow> no_nul (fst sc) \<and> no_nul (snd sc) \<and> no_nul workflowId"

definition index_ok :: "CaseMaps \<Rightarrow> bool" where
  "index_ok s \<longleftrightarrow>
     (\<forall>k c. map_of (cm_cases s) k = Some c \<longrightarrow> hc_caseId c = k \<and> plain_key (case_scope c) (hc_workflowId c)
        \<and> map_of (cm_workflowIndex s) (workflowKey (case_scope c) (hc_workflowId c)) = Some k)
     \<and> (\<forall>w k. map_of (cm_workflowIndex s) w = Some k
        \<longrightarrow> (\<exists>c. map_of (cm_cases s) k = Some c \<and> workflowKey (case_scope c) (hc_workflowId c) = w))"

definition map_cases_ok :: "CaseMaps \<Rightarrow> bool" where
  "map_cases_ok s \<longleftrightarrow> distinct (map fst (cm_idempotency s)) \<and> index_ok s
     \<and> (\<forall>k ev. (k, ev) \<in> set (cm_outbox s) \<longrightarrow> ev \<in> sp_decisions (map_view s))"

definition map_fresh :: "CaseMaps \<Rightarrow> (nat \<Rightarrow> string) \<Rightarrow> scope_key \<Rightarrow> OpenCaseInput \<Rightarrow> bool" where
  "map_fresh s ids sc i \<longleftrightarrow> map_of (cm_cases s) (''case-'' @ ids 0) = None \<and> plain_key sc (oi_workflowId i)"

lemma split_at_nul: "no_nul a \<Longrightarrow> no_nul b \<Longrightarrow> a @ CHR 0x00 # x = b @ CHR 0x00 # y \<Longrightarrow> a = b \<and> x = y"
  by (induction a arbitrary: b) (auto simp: no_nul_def Cons_eq_append_conv append_eq_Cons_conv)

lemma workflowKey_inject:
  assumes "plain_key sc w" and "plain_key sc' w'" and "workflowKey sc w = workflowKey sc' w'"
  shows "sc = sc' \<and> w = w'"
proof -
  have "fst sc = fst sc' \<and> snd sc @ CHR 0x00 # w = snd sc' @ CHR 0x00 # w'"
    using assms split_at_nul [of "fst sc" "fst sc'"] by (simp add: workflowKey_def plain_key_def)
  with split_at_nul [of "snd sc" "snd sc'" w w'] assms(1,2) show ?thesis by (simp add: plain_key_def prod_eq_iff)
qed

lemma index_okD:
  assumes "index_ok s"
  shows "map_of (cm_cases s) k = Some c \<Longrightarrow> hc_caseId c = k"
    and "map_of (cm_cases s) k = Some c \<Longrightarrow> plain_key (case_scope c) (hc_workflowId c)"
    and "map_of (cm_cases s) k = Some c \<Longrightarrow> map_of (cm_workflowIndex s) (workflowKey (case_scope c) (hc_workflowId c)) = Some k"
    and "map_of (cm_workflowIndex s) w = Some k \<Longrightarrow> \<exists>c. map_of (cm_cases s) k = Some c \<and> workflowKey (case_scope c) (hc_workflowId c) = w"
  using assms unfolding index_ok_def by blast+

lemma map_of_map_set: "map_of (map_set k v m) = (map_of m)(k \<mapsto> v)"
  by (induction k v m rule: map_set.induct) auto

lemma fst_map_set: "fst ` set (map_set k v m) = insert k (fst ` set m)"
  by (induction k v m rule: map_set.induct) auto

lemma set_map_set: "distinct (map fst m) \<Longrightarrow> set (map_set k v m) = insert (k, v) {e \<in> set m. fst e \<noteq> k}"
  by (induction k v m rule: map_set.induct) (auto simp: image_iff)

lemma distinct_map_set: "distinct (map fst m) \<Longrightarrow> distinct (map fst (map_set k v m))"
  by (induction k v m rule: map_set.induct) (auto simp: fst_map_set)

lemma subset_map_set: "set (map_set k v m) \<subseteq> insert (k, v) (set m)"
  by (induction k v m rule: map_set.induct) auto

lemma key_of_scope: "key_of c = (case_scope c, hc_caseId c)"
  by (simp add: key_of_def case_scope_def)

lemma map_requireCase_Inr: "map_requireCase s sc caseId = Inr c \<longleftrightarrow> map_of (cm_cases s) caseId = Some c \<and> case_scope c = sc"
  by (auto simp: map_requireCase_def case_scope_def split: option.split)

lemma map_view_put:
  assumes "\<And>x. map_of (cm_cases s) (hc_caseId c) = Some x \<Longrightarrow> case_scope x = case_scope c"
  shows "map_view (map_put c s) = put_case c (map_view s)"
  using assms by (auto simp: map_view_def map_put_def put_case_def map_of_map_set key_of_scope fun_eq_iff split: option.split)

lemma map_view_cong: "cm_cases s = cm_cases s' \<Longrightarrow> cm_idempotency s = cm_idempotency s' \<Longrightarrow> map_view s = map_view s'"
  by (simp add: map_view_def)

lemma map_appendAudit_same [simp]:
  "cm_cases (map_appendAudit u c t a actor details now s) = cm_cases s" "cm_idempotency (map_appendAudit u c t a actor details now s) = cm_idempotency s"
  "cm_outbox (map_appendAudit u c t a actor details now s) = cm_outbox s" "cm_workflowIndex (map_appendAudit u c t a actor details now s) = cm_workflowIndex s"
  by (simp_all add: map_appendAudit_def Let_def)

lemma map_appendAudit_view [simp]:
  "map_view (map_appendAudit u c t a actor details now s) = map_view s" "map_cases_ok (map_appendAudit u c t a actor details now s) = map_cases_ok s"
  by (simp_all add: map_cases_ok_def map_view_def index_ok_def)

text \<open>What is remembered under a key that has no decision yet.\<close>

definition undecided_key :: "CaseMaps \<Rightarrow> string \<Rightarrow> bool" where
  "undecided_key s key \<longleftrightarrow> (\<forall>r. map_of (cm_idempotency s) key = Some r \<longrightarrow> si_outboxEvent r = None)"

lemma map_view_remember:
  assumes "distinct (map fst (cm_idempotency s))" and "undecided_key s key"
  shows "map_view (map_remember key v s) = (map_view s)\<lparr> sp_decisions := sp_decisions (map_view s) \<union> set_option (si_outboxEvent v) \<rparr>"
proof -
  have "si_outboxEvent r = None" if "(key, r) \<in> set (cm_idempotency s)" for r
    using assms that by (auto simp: undecided_key_def)
  with assms(1) show ?thesis by (auto simp: map_view_def map_remember_def set_map_set) fastforce+
qed

lemma map_ok_remember:
  assumes "map_cases_ok s" and "undecided_key s key"
  shows "map_cases_ok (map_remember key v s)"
proof -
  have "distinct (map fst (cm_idempotency s))" using assms(1) by (simp add: map_cases_ok_def)
  from map_view_remember [OF this assms(2)] distinct_map_set [OF this] assms(1) show ?thesis
    by (simp add: map_cases_ok_def index_ok_def) (auto simp: map_remember_def)
qed

lemma map_ok_put:
  assumes "map_cases_ok s" and "map_of (cm_cases s) (hc_caseId c) = Some x" and "case_scope c = case_scope x" and "hc_workflowId c = hc_workflowId x"
  shows "map_cases_ok (map_put c s)" and "map_view (map_put c s) = put_case c (map_view s)"
proof -
  show v: "map_view (map_put c s) = put_case c (map_view s)" using assms(2,3) by (intro map_view_put) simp
  have i: "index_ok s" using assms(1) by (simp add: map_cases_ok_def)
  have "index_ok (map_put c s)"
    unfolding index_ok_def map_put_def using index_okD [OF i] assms(2-4)
    by (auto simp: map_of_map_set) (metis option.inject)
  with assms(1) show "map_cases_ok (map_put c s)"
    unfolding map_cases_ok_def v by (simp add: map_put_def put_case_def)
qed

lemma undecided_put [simp]: "undecided_key (map_put c s) key = undecided_key s key" "undecided_key (map_appendAudit u c t a actor details now s) key = undecided_key s key"
  by (simp_all add: undecided_key_def map_put_def)

lemma map_replay_None: "map_replay s key fp = Inr None \<Longrightarrow> undecided_key s key"
  by (auto simp: map_replay_def undecided_key_def split: option.split_asm if_split_asm)

lemma view_current: "map_of (cm_cases s) caseId = Some c \<Longrightarrow> map_cases_ok s \<Longrightarrow> sp_cases (map_view s) (key_of c) = Some c"
  by (auto simp: map_view_def key_of_scope map_cases_ok_def dest: index_okD)

lemma map_opens:
  assumes "map_cases_ok s" and "map_fresh s ids sc i" and "map_open s now ids sc i = Inr (s', c)"
  shows "map_cases_ok s' \<and> case_spec (map_view s) (map_view s')
    \<and> sp_cases (map_view s') (sc, hc_caseId c) = Some c \<and> hc_workflowId c = oi_workflowId i \<and> hc_caseType c = oi_caseType i"
proof (cases "map_of (cm_workflowIndex s) (workflowKey sc (oi_workflowId i))")
  case (Some caseId)
  have ix: "index_ok s" using assms(1) by (simp add: map_cases_ok_def)
  have a: "s' = s" "map_of (cm_cases s) caseId = Some c" "hc_caseType c = oi_caseType i"
    using assms(3) Some by (auto simp: map_open_def split: option.split_asm if_split_asm)
  have "workflowKey (case_scope c) (hc_workflowId c) = workflowKey sc (oi_workflowId i)"
    using index_okD(4) [OF ix Some] a(2) by simp
  then have "case_scope c = sc \<and> hc_workflowId c = oi_workflowId i"
    using workflowKey_inject index_okD(2) [OF ix a(2)] assms(2) unfolding map_fresh_def by metis
  with a index_okD(1) [OF ix a(2)] assms(1) show ?thesis by (simp add: case_spec.unchanged map_view_def)
next
  case None
  let ?id = "''case-'' @ ids 0" and ?w = "workflowKey sc (oi_workflowId i)"
  define s2 where "s2 = (map_put c s)\<lparr> cm_workflowIndex := map_set ?w ?id (cm_workflowIndex s) \<rparr>"
  have c: "hc_caseId c = ?id" "case_scope c = sc" "hc_workflowId c = oi_workflowId i" "hc_caseType c = oi_caseType i" "hc_status c = OPEN"
      "hc_assignedStaffId c = None" "hc_caseVersion c = 1" "hc_allowedActions c = allowedActionsForCaseType (hc_caseType c)"
    using assms(3) None by (auto simp: map_open_def Let_def case_scope_def)
  have s': "s' = map_appendAudit (ids 1) c CASE_OPENED BY_WORKFLOW (oi_workflowId i) [(''case_type'', case_type_string (oi_caseType i))] now s2"
    using assms(3) None by (auto simp: map_open_def Let_def s2_def map_put_def)
  have ix: "index_ok s" using assms(1) by (simp add: map_cases_ok_def)
  have no: "map_of (cm_cases s) ?id = None" and plain: "plain_key sc (oi_workflowId i)" using assms(2) by (simp_all add: map_fresh_def)
  have v: "map_view s2 = put_case c (map_view s)"
    using map_view_put [of s c] no c(1) by (simp add: s2_def map_view_def map_put_def)
  have other: "k \<noteq> key_of c \<and> (fst k, hc_workflowId x) \<noteq> (fst (key_of c), hc_workflowId c)" if "sp_cases (map_view s) k = Some x" for k x
  proof -
    from that have x: "map_of (cm_cases s) (snd k) = Some x" "case_scope x = fst k"
      by (auto simp: map_view_def split: option.split_asm if_split_asm)
    with index_okD(3) [OF ix x(1)] None no c(1-3) show ?thesis by (auto simp: key_of_scope)
  qed
  have cases2: "map_of (cm_cases s2) = (map_of (cm_cases s))(?id \<mapsto> c)" and index2: "map_of (cm_workflowIndex s2) = (map_of (cm_workflowIndex s))(?w \<mapsto> ?id)"
    using c(1) by (simp_all add: s2_def map_put_def map_of_map_set)
  have "hc_caseId x = k \<and> plain_key (case_scope x) (hc_workflowId x) \<and> map_of (cm_workflowIndex s2) (workflowKey (case_scope x) (hc_workflowId x)) = Some k"
    if "map_of (cm_cases s2) k = Some x" for k x
  proof (cases "k = ?id")
    case True
    with that plain c(1-3) show ?thesis by (simp add: cases2 index2)
  next
    case False
    with that have x: "map_of (cm_cases s) k = Some x" by (simp add: cases2)
    from index_okD(1-3) [OF ix x] None show ?thesis by (auto simp: index2)
  qed
  moreover have "\<exists>x. map_of (cm_cases s2) k = Some x \<and> workflowKey (case_scope x) (hc_workflowId x) = w" if "map_of (cm_workflowIndex s2) w = Some k" for w k
    using that index_okD(4) [OF ix, of w k] no c(2,3) by (auto simp: cases2 index2 split: if_split_asm)
  ultimately have "index_ok s2" unfolding index_ok_def by blast
  moreover have "map_cases_ok s2 = (index_ok s2 \<and> distinct (map fst (cm_idempotency s)) \<and> (\<forall>k ev. (k, ev) \<in> set (cm_outbox s) \<longrightarrow> ev \<in> sp_decisions (map_view s)))"
    unfolding map_cases_ok_def v by (auto simp: s2_def map_put_def put_case_def)
  ultimately have "map_cases_ok s2" using assms(1) by (simp add: map_cases_ok_def)
  moreover have "case_spec (map_view s) (map_view s2)" unfolding v using other c by (intro case_spec.opened) blast+
  moreover have "sp_cases (map_view s2) (sc, hc_caseId c) = Some c" unfolding v by (simp add: put_case_def key_of_scope c(2))
  ultimately show ?thesis using c by (simp add: s')
qed

text \<open>A change of a case that keeps its key, with its audit event.\<close>

lemma map_changed:
  assumes "map_cases_ok s" and "map_requireCase s sc caseId = Inr x" and "key_of c = key_of x" and "hc_workflowId c = hc_workflowId x"
  shows "map_cases_ok (map_put c s)" and "map_view (map_put c s) = put_case c (map_view s)" and "sp_cases (map_view s) (key_of x) = Some x"
proof -
  have x: "map_of (cm_cases s) caseId = Some x" using assms(2) by (simp add: map_requireCase_Inr)
  then have "hc_caseId x = caseId" using assms(1) index_okD(1) by (auto simp: map_cases_ok_def)
  then have "map_of (cm_cases s) (hc_caseId c) = Some x" "case_scope c = case_scope x" using x assms(3) by (simp_all add: key_of_scope)
  from map_ok_put [OF assms(1) this assms(4)] view_current [OF x assms(1)]
  show "map_cases_ok (map_put c s)" "map_view (map_put c s) = put_case c (map_view s)" "sp_cases (map_view s) (key_of x) = Some x" by auto
qed

lemma map_closes:
  assumes "map_cases_ok s" and "map_close s now ids sc caseId workflowId outcome = Inr (s', c)"
  shows "map_cases_ok s' \<and> case_spec (map_view s) (map_view s')"
proof -
  obtain x where x: "map_requireCase s sc caseId = Inr x" using assms(2) by (auto simp: map_close_def)
  show ?thesis
  proof (cases "hc_status x = CLOSED")
    case True
    with assms x show ?thesis by (auto simp: map_close_def case_spec.unchanged split: if_split_asm)
  next
    case False
    have w: "hc_workflowId (close_update now x) = hc_workflowId x" by (simp add: close_update_def)
    from False assms(2) x obtain details where
      "s' = map_appendAudit (ids 0) (close_update now x) CASE_CLOSED BY_WORKFLOW workflowId details now (map_put (close_update now x) s)"
      by (auto simp: map_close_def Let_def close_update_def split: if_split_asm)
    with map_changed [OF assms(1) x _ w] False show ?thesis by (auto intro: case_spec.closed)
  qed
qed

lemma map_remembered:
  assumes "map_cases_ok s" and "undecided_key s key" and "si_outboxEvent v = None"
  shows "map_cases_ok (map_remember key v s)" and "map_view (map_remember key v s) = map_view s"
proof -
  show "map_cases_ok (map_remember key v s)" by (rule map_ok_remember [OF assms(1,2)])
  show "map_view (map_remember key v s) = map_view s"
    using map_view_remember [OF _ assms(2)] assms(1,3) by (simp add: map_cases_ok_def)
qed

lemma map_assigned:
  assumes "map_cases_ok s" and "map_requireCase s sc caseId = Inr x" and "hc_status x \<noteq> CLOSED" and "hc_status x \<noteq> DECISION_PENDING"
    and "undecided_key s key" and "si_outboxEvent v = None"
    and "s' = map_remember key v (map_appendAudit u (map_assign staff now x) CASE_CLAIMED BY_HUMAN staff details now (map_put (map_assign staff now x) s))"
  shows "map_cases_ok s' \<and> case_spec (map_view s) (map_view s')"
proof -
  have w: "hc_workflowId (map_assign staff now x) = hc_workflowId x" by (simp add: map_assign_def)
  note m = map_changed [OF assms(1,2) _ w, simplified]
  have "hc_status x \<in> {OPEN, CLAIMED}" using assms(3,4) by (cases "hc_status x") simp_all
  with m(3) have "case_spec (map_view s) (put_case (map_assign staff now x) (map_view s))" by (rule case_spec.assigned)
  with m(1,2) assms(5,6) show ?thesis unfolding assms(7) by (simp add: map_remembered)
qed

lemma map_claims:
  assumes "map_cases_ok s" and "map_claim s now ids sc j = Inr (s', c)"
  shows "map_cases_ok s' \<and> case_spec (map_view s) (map_view s')"
proof -
  obtain replay where r: "map_replay s (ci_key j) (claim_fingerprint j) = Inr replay" using assms(2) by (auto simp: map_claim_def)
  show ?thesis
  proof (cases replay)
    case (Some x)
    with assms r show ?thesis by (auto simp: map_claim_def case_spec.unchanged)
  next
    case None
    note und = map_replay_None [OF r [unfolded None]]
    from None obtain x where x: "map_requireCase s sc (ci_caseId j) = Inr x" using assms(2) r by (auto simp: map_claim_def)
    have st: "hc_status x \<noteq> CLOSED" "hc_status x \<noteq> DECISION_PENDING" using assms(2) r None x by (auto simp: map_claim_def split: if_split_asm)
    show ?thesis
    proof (cases "hc_assignedStaffId x = Some (ci_staffId j)")
      case True
      with assms(2) r None x obtain v where "s' = map_remember (ci_key j) v s" "si_outboxEvent v = None"
        by (auto simp: map_claim_def Let_def split: if_split_asm)
      with map_remembered [OF assms(1) und] show ?thesis by (simp add: case_spec.unchanged)
    next
      case False
      with assms(2) r None x have "s' = map_remember (ci_key j) \<lparr> si_fingerprint = claim_fingerprint j, si_caseId = hc_caseId (map_assign (ci_staffId j) now x), si_outboxEvent = None \<rparr>
          (map_appendAudit (ids 0) (map_assign (ci_staffId j) now x) CASE_CLAIMED BY_HUMAN (ci_staffId j) [] now (map_put (map_assign (ci_staffId j) now x) s))"
        by (auto simp: map_claim_def Let_def split: if_split_asm)
      from map_assigned [OF assms(1) x st und _ this] show ?thesis by simp
    qed
  qed
qed

lemma map_reassigns:
  assumes "map_cases_ok s" and "map_reassign s now ids sc j = Inr (s', c)"
  shows "map_cases_ok s' \<and> case_spec (map_view s) (map_view s')"
proof -
  obtain replay where r: "map_replay s (ci_key j) (reassign_fingerprint j) = Inr replay" using assms(2) by (auto simp: map_reassign_def)
  show ?thesis
  proof (cases replay)
    case (Some x)
    with assms r show ?thesis by (auto simp: map_reassign_def case_spec.unchanged)
  next
    case None
    note und = map_replay_None [OF r [unfolded None]]
    from None obtain x where x: "map_requireCase s sc (ci_caseId j) = Inr x" using assms(2) r by (auto simp: map_reassign_def)
    have st: "hc_status x \<noteq> CLOSED" "hc_status x \<noteq> DECISION_PENDING" using assms(2) r None x by (auto simp: map_reassign_def split: if_split_asm)
    from assms(2) r None x have "s' = map_remember (ci_key j) \<lparr> si_fingerprint = reassign_fingerprint j, si_caseId = hc_caseId (map_assign (ci_staffId j) now x), si_outboxEvent = None \<rparr>
        (map_appendAudit (ids 0) (map_assign (ci_staffId j) now x) CASE_CLAIMED BY_HUMAN (ci_staffId j) [(''reassigned'', ''true'')] now (map_put (map_assign (ci_staffId j) now x) s))"
      by (auto simp: map_reassign_def Let_def split: if_split_asm)
    from map_assigned [OF assms(1) x st und _ this] show ?thesis by simp
  qed
qed

lemma map_decides:
  assumes "map_cases_ok s" and "map_decide s now ids sc d = Inr (s', c, ev)"
  shows "(map_cases_ok s' \<and> case_spec (map_view s) (map_view s') \<and> ev \<in> sp_decisions (map_view s')) \<and> new_decision sc d ev (map_view s) (map_view s')"
proof -
  obtain replay where r: "map_replay s (di_key d) (decision_fingerprint d) = Inr replay" using assms(2) by (auto simp: map_decide_def)
  show ?thesis
  proof (cases "Option.bind replay (\<lambda>r. map_option (\<lambda>ev. (si_caseId r, ev)) (si_outboxEvent r))")
    case (Some p)
    then obtain x where x: "replay = Some x" "si_outboxEvent x = Some (snd p)" by (auto simp: bind_eq_Some_conv)
    have "map_of (cm_idempotency s) (di_key d) = Some x" using r x(1) by (auto simp: map_replay_def split: option.split_asm if_split_asm)
    then have "snd p \<in> sp_decisions (map_view s)" using x(2) by (auto simp: map_view_def dest!: map_of_SomeD)
    moreover have "s' = s" "ev = snd p" using assms(2) r Some by (auto simp: map_decide_def split: prod.split_asm)
    ultimately show ?thesis using assms(1) by (simp add: case_spec.unchanged new_decision_def)
  next
    case None
    have und: "undecided_key s (di_key d)"
    proof (cases replay)
      case None
      with r show ?thesis using map_replay_None by blast
    next
      case (Some y)
      with r have "map_of (cm_idempotency s) (di_key d) = Some y" by (auto simp: map_replay_def split: option.split_asm if_split_asm)
      with Some None show ?thesis by (simp add: undecided_key_def)
    qed
    obtain x where x: "map_requireCase s sc (di_caseId d) = Inr x" using assms(2) r None by (auto simp: map_decide_def)
    have st: "hc_status x = CLAIMED" "hc_assignedStaffId x = Some (di_staffId d)" "hc_caseVersion x = di_expectedVersion d" "di_decision d \<in> set (hc_allowedActions x)"
      using assms(2) r None x by (auto simp: map_decide_def map_assertVersion_def split: if_split_asm)
    let ?s1 = "map_put (map_decided now x) s"
    define v where "v = \<lparr> si_fingerprint = decision_fingerprint d, si_caseId = hc_caseId (map_decided now x), si_outboxEvent = Some ev \<rparr>"
    have ev: "ev = outbox_event (''outbox-'' @ ids 0) (iso_string now) x d"
      using assms(2) r None x by (auto simp: map_decide_def Let_def outbox_event_def map_decided_def split: if_split_asm)
    have s': "s' = map_remember (di_key d) v (map_appendAudit (ids 1) (map_decided now x) DECISION_RECORDED BY_HUMAN (di_staffId d)
        [(''decision'', action_string (di_decision d))] now (?s1\<lparr> cm_outbox := map_set (ob_eventId ev) ev (cm_outbox ?s1) \<rparr>))"
      using assms(2) r None x by (auto simp: map_decide_def Let_def v_def split: if_split_asm)
    have w: "hc_workflowId (map_decided now x) = hc_workflowId x" by (simp add: map_decided_def)
    note m = map_changed [OF assms(1) x _ w, simplified]
    have dist: "distinct (map fst (cm_idempotency ?s1))" using m(1) by (simp add: map_cases_ok_def)
    have und1: "undecided_key ?s1 (di_key d)" using und by simp
    have view: "map_view s' = (put_case (map_decided now x) (map_view s))\<lparr> sp_decisions := insert ev (sp_decisions (map_view s)) \<rparr>"
    proof -
      have "map_view s' = map_view (map_remember (di_key d) v ?s1)" unfolding s' by (simp add: map_view_def map_remember_def)
      then show ?thesis using map_view_remember [OF dist und1, of v] m(2) by (simp add: v_def put_case_def)
    qed
    have "case_spec (map_view s) (map_view s')" unfolding view ev using m(3) st by (rule case_spec.decided)
    moreover have "map_cases_ok s'"
    proof -
      have "set (cm_outbox s') \<subseteq> insert (ob_eventId ev, ev) (set (cm_outbox s))"
        unfolding s' by (simp add: map_remember_def map_put_def subset_map_set)
      moreover have "index_ok s' = index_ok ?s1" unfolding s' by (simp add: index_ok_def map_remember_def)
      moreover have "distinct (map fst (cm_idempotency s'))" unfolding s' using dist by (simp add: map_remember_def distinct_map_set)
      ultimately show ?thesis using m(1) assms(1) unfolding map_cases_ok_def view by auto
    qed
    moreover have "event_key ev = (sc, di_caseId d)"
      unfolding ev event_key_outbox using x assms(1) index_okD(1) by (auto simp: key_of_scope map_requireCase_Inr map_cases_ok_def)
    then have "new_decision sc d ev (map_view s) (map_view s')" by (simp add: new_decision_def view) (simp add: ev outbox_event_def)
    ultimately show ?thesis by (simp add: view)
  qed
qed

lemma map_delivers:
  assumes "map_cases_ok s"
  shows "map_cases_ok (map_markOutboxDelivered s now sc e) \<and> map_view (map_markOutboxDelivered s now sc e) = map_view s"
proof -
  have "map_view (map_markOutboxDelivered s now sc e) = map_view s" by (simp add: map_markOutboxDelivered_def map_view_def)
  with assms show ?thesis by (auto simp: map_cases_ok_def map_markOutboxDelivered_def index_ok_def)
qed

interpretation mmc: human_case_repository "inMemoryCases collate" map_fresh map_view map_cases_ok
proof unfold_locales
  show "hr_get (inMemoryCases collate) s sc caseId = (case sp_cases (map_view s) (sc, caseId) of None \<Rightarrow> Inl CASE_NOT_FOUND | Some c \<Rightarrow> Inr c)" for s sc caseId
    by (simp add: inMemoryCases_def map_requireCase_def map_view_def case_scope_def split: option.split)
  show "set (hr_listPendingOutbox (inMemoryCases collate) s sc n) \<subseteq> sp_decisions (map_view s)" if "map_cases_ok s" for s sc n
    using that by (auto simp: inMemoryCases_def map_listPendingOutbox_def map_cases_ok_def dest!: in_set_takeD)
qed (auto simp: inMemoryCases_def map_delivers dest: map_opens map_closes map_claims map_reassigns map_decides)

section \<open>Properties of the repositories\<close>

lemma event_key_row [simp]: "event_key (toOutboxEvent row) = (fst (outbox_key row), or_case_id row)"
  by (simp add: event_key_def toOutboxEvent_def outbox_key_def)

definition no_cases :: HumanDb where
  "no_cases = \<lparr> hd_cases = [], hd_audit = [], hd_idempotency = [], hd_outbox = [] \<rparr>"

definition no_maps :: CaseMaps where
  "no_maps = \<lparr> cm_cases = [], cm_workflowIndex = [], cm_auditEvents = [], cm_idempotency = [], cm_outbox = [] \<rparr>"

lemma empty_repositories [simp]:
  "pg_cases_ok no_cases" "spec_ok (pg_view no_cases)" "map_cases_ok no_maps" "spec_ok (map_view no_maps)"
  by (simp_all add: pg_cases_ok_def spec_ok_def pg_view_def no_cases_def map_cases_ok_def index_ok_def map_view_def no_maps_def)

lemma find_in_set: "List.find P xs = Some x \<Longrightarrow> x \<in> set xs \<and> P x"
  by (auto simp: find_Some_iff)

lemma outbox_decisions:
  assumes "pg_cases_ok db" and "spec_ok (pg_view db)" and "row \<in> set (hd_outbox db)"
  shows "\<exists>c \<in> set (hd_cases db). case_key c = (fst (outbox_key row), or_case_id row) \<and> cr_case_status c \<in> {DECISION_PENDING, CLOSED}
            \<and> cr_assigned_staff_id c = Some (or_decided_by row) \<and> or_decision row \<in> set (allowedActionsForCaseType (cr_case_type c))
            \<and> or_workflow_id row = cr_workflow_id c"
    and "row' \<in> set (hd_outbox db) \<Longrightarrow> fst (outbox_key row') = fst (outbox_key row) \<and> or_case_id row' = or_case_id row \<Longrightarrow> row' = row"
proof -
  have ev: "toOutboxEvent r \<in> sp_decisions (pg_view db)" if "r \<in> set (hd_outbox db)" for r using that by (simp add: pg_view_def)
  obtain c where c: "sp_cases (pg_view db) (event_key (toOutboxEvent row)) = Some c" "decision_ok (toOutboxEvent row) c"
    using assms(2) ev [OF assms(3)] unfolding spec_ok_def by blast
  then obtain r where "r \<in> set (hd_cases db)" "case_key r = (fst (outbox_key row), or_case_id row)" "c = toHumanCase r"
    by (auto simp: pg_view_def dest: find_in_set)
  with c(2) show "\<exists>c \<in> set (hd_cases db). case_key c = (fst (outbox_key row), or_case_id row) \<and> cr_case_status c \<in> {DECISION_PENDING, CLOSED}
            \<and> cr_assigned_staff_id c = Some (or_decided_by row) \<and> or_decision row \<in> set (allowedActionsForCaseType (cr_case_type c))
            \<and> or_workflow_id row = cr_workflow_id c"
    by (intro bexI [of _ r]) (simp_all add: decision_ok_def toOutboxEvent_def)
  assume row': "row' \<in> set (hd_outbox db)" and same: "fst (outbox_key row') = fst (outbox_key row) \<and> or_case_id row' = or_case_id row"
  then have "toOutboxEvent row' = toOutboxEvent row"
    using assms(2) ev [OF row'] ev [OF assms(3)] unfolding spec_ok_def by (metis event_key_row)
  then have "outbox_key row' = outbox_key row" by (simp add: toOutboxEvent_def outbox_key_def)
  with row' assms(1,3) show "row' = row" by (simp add: pg_cases_ok_def distinct_map inj_on_def)
qed

definition sample_packet :: RefundReviewPacket where
  "sample_packet = \<lparr> rp_order_reference = Some ''O-1'', rp_selected_item_ids = None, rp_requested_amount = Some (2500, ''USD''), rp_refund_reason = None,
     rp_policy_reason_codes = [''amount_above_auto_limit''], rp_evidence_ids = [], rp_knowledge_release_id = None, rp_policy_version = ''v1'' \<rparr>"

definition sample_open :: OpenCaseInput where
  "sample_open = \<lparr> oi_workflowId = ''wf-1'', oi_caseType = REFUND_APPROVAL, oi_reviewPacket = sample_packet, oi_policyVersion = ''v1'' \<rparr>"

definition sample_ids :: "nat \<Rightarrow> string" where
  "sample_ids n = (if n = 0 then ''a'' else ''b'')"

text \<open>
  C18. Every change of the Postgres repository is a step of the abstract life of cases: opening adds a
  case that had neither key nor workflow there, assigning needs an open or claimed case, a decision
  needs the assigned person, the current version and an action of the case's type, and nothing else
  changes a case or the decisions.
\<close>

theorem postgres_refines_case_life:
  assumes "case_step (postgresCases hash) (\<lambda>_ _ _ _. True) db db'" and "pg_cases_ok db"
  shows "pg_cases_ok db' \<and> case_spec (pg_view db) (pg_view db')"
  using pgc.step_refines [OF assms] .

definition opened_db :: HumanDb where
  "opened_db = no_cases\<lparr> hd_cases := [opened_row ''case-a'' 0 (''t'', ''e'') sample_open],
     hd_audit := [\<lparr> ca_scope = (''t'', ''e''), ca_event_id = ''audit-b'', ca_case_id = ''case-a'', ca_event_type = CASE_OPENED, ca_occurred_at = 0,
       ca_actor_type = BY_WORKFLOW, ca_actor_id = ''wf-1'', ca_case_version = 1, ca_details = [(''case_type'', case_type_string REFUND_APPROVAL)] \<rparr>] \<rparr>"

lemma sample_opens: "pg_case_open no_cases 0 sample_ids (''t'', ''e'') sample_open = Inr (opened_db, toHumanCase (opened_row ''case-a'' 0 (''t'', ''e'') sample_open))"
  by (simp add: pg_case_open_def no_cases_def opened_db_def sample_ids_def appendAudit_def bindF_def row_scope_def opened_row_def sample_open_def Let_def)

lemma sample_open_step: "case_step (postgresCases hash) (\<lambda>_ _ _ _. True) no_cases opened_db"
  by (rule case_step.open_step [where ids = sample_ids and now = 0 and sc = "(''t'', ''e'')" and i = sample_open]) (simp_all add: postgresCases_def sample_opens)

theorem postgres_refines_case_life_witness:
  "pg_cases_ok opened_db \<and> case_spec (pg_view no_cases) (pg_view opened_db)"
  using postgres_refines_case_life [OF sample_open_step [of id]] by simp

text \<open>
  C19. The in-memory repository refines the same abstract life of cases, when new case ids are new and
  ids have no zero character.
\<close>

theorem in_memory_refines_case_life:
  assumes "case_step (inMemoryCases collate) map_fresh s s'" and "map_cases_ok s"
  shows "map_cases_ok s' \<and> case_spec (map_view s) (map_view s')"
  using mmc.step_refines [OF assms] .

definition opened_maps :: CaseMaps where
  "opened_maps = (let c = toHumanCase (opened_row ''case-a'' 0 (''t'', ''e'') sample_open) in
     map_appendAudit ''b'' c CASE_OPENED BY_WORKFLOW ''wf-1'' [(''case_type'', case_type_string REFUND_APPROVAL)] 0
       (no_maps\<lparr> cm_cases := [(''case-a'', c)], cm_workflowIndex := [(workflowKey (''t'', ''e'') ''wf-1'', ''case-a'')] \<rparr>))"

lemma sample_map_step: "case_step (inMemoryCases collate) map_fresh no_maps opened_maps"
proof (rule case_step.open_step)
  show "map_fresh no_maps sample_ids (''t'', ''e'') sample_open"
    by (simp add: map_fresh_def no_maps_def plain_key_def no_nul_def sample_open_def)
  show "hr_open (inMemoryCases collate) no_maps 0 sample_ids (''t'', ''e'') sample_open = Inr (opened_maps, toHumanCase (opened_row ''case-a'' 0 (''t'', ''e'') sample_open))"
    by (simp add: inMemoryCases_def map_open_def no_maps_def opened_maps_def sample_open_def sample_ids_def Let_def map_put_def toHumanCase_def opened_row_def)
qed

theorem in_memory_refines_case_life_witness:
  "map_cases_ok opened_maps \<and> case_spec (map_view no_maps) (map_view opened_maps)"
  using in_memory_refines_case_life [OF sample_map_step [of "\<lambda>_. 0"]] by simp

end
