(* ===== verification/Refund_Evidence.thy ===== *)
theory Refund_Evidence
  imports Human_Cases
begin

text \<open>
  Damage photos of a refund, under \<^verbatim>\<open>src/apps/services/human-operations/src/\<close>: \<^verbatim>\<open>refund-evidence.ts\<close> and
  \<^verbatim>\<open>postgres-refund-evidence-repository.ts\<close>. The evidence of a workflow is one JSON document beside its
  case; the table is an extension of the tables of \<^verbatim>\<open>Human_Cases\<close>, so that the operations of both
  repositories act on the same cases. Times inside the document are instants. The hash is an
  argument, as is the order of \<^verbatim>\<open>localeCompare\<close>.
\<close>

section \<open>Documents\<close>

definition MAX_PHOTO_BYTES :: int where "MAX_PHOTO_BYTES = 10 * 1024 * 1024"
definition MAX_SET_BYTES :: int where "MAX_SET_BYTES = 25 * 1024 * 1024"
definition MAX_PHOTOS :: nat where "MAX_PHOTOS = 5"
definition MAX_UPLOAD_ATTEMPTS :: nat where "MAX_UPLOAD_ATTEMPTS = 20"

datatype ImageType = Image_jpeg | Image_png

datatype RejectionCode = FILE_TOO_LARGE | UNSUPPORTED_TYPE | INVALID_IMAGE | IMAGE_LIMIT_EXCEEDED | UNSAFE_FILE | VALIDATION_UNAVAILABLE

record StoredPhoto =
  ph_evidence_id :: string
  ph_display_label :: string
  ph_byte_size :: int
  ph_uploaded_at :: int
  ph_technical_status :: TechnicalStatus
  ph_content_type :: ImageType
  ph_dimensions :: "(int \<times> int) option"
  ph_rejection_code :: "RejectionCode option"
  ph_storageKey :: string
  ph_sha256 :: "string option"
  ph_uploadKey :: string
  ph_fingerprint :: string
  ph_purged :: bool
  ph_superseded :: bool

record EvidenceDocument =
  ed_revision :: int
  ed_assessment :: Assessment
  ed_reasonCode :: "string option"
  ed_assessmentId :: "string option"
  ed_manifestHash :: "string option"
  ed_ensureFingerprint :: string
  ed_attachments :: "StoredPhoto list"
  ed_reviewKeys :: "(string \<times> string) list"
  ed_transitionKeys :: "(string \<times> string) list"
  ed_retired :: bool

record EvidenceBinding =
  bi_order_id :: string
  bi_proposal_id :: string
  bi_selected_item_ids :: "string list"
  bi_policy_version :: string

record EvidenceScope =
  es_key :: scope_key
  es_subjectCustomerId :: "string option"

record EvidenceRecord =
  er_case :: HumanCase
  er_customerId :: string
  er_binding :: EvidenceBinding
  er_document :: EvidenceDocument

datatype EvidenceFailure = EvidenceError string nat | EvidenceUnexpected string

datatype ReviewAction = ACCEPT_EVIDENCE | REQUEST_MORE_EVIDENCE

record EvidenceReview =
  rv_action :: ReviewAction
  rv_expected_case_version :: int
  rv_expected_evidence_version :: int
  rv_reason_code :: string
  rv_note :: "string option"

text \<open>\<^verbatim>\<open>evidenceReviewSchema\<close>: the reason \<^verbatim>\<open>DAMAGE_VISIBLE\<close> goes with acceptance and with nothing else.\<close>

definition review_reasons :: "string list" where
  "review_reasons = [''DAMAGE_VISIBLE'', ''PHOTO_UNCLEAR'', ''DAMAGED_ITEM_NOT_VISIBLE'', ''ORDER_ITEM_NOT_IDENTIFIABLE'']"

definition evidenceReviewSchema :: "json \<Rightarrow> EvidenceReview option" where
  "evidenceReviewSchema body =
     do {
       v \<leftarrow> z_object [''version'', ''action'', ''expected_case_version'', ''expected_evidence_version'', ''reason_code'', ''note''] body;
       _ \<leftarrow> z_literal ''v1'' (get_prop ''version'' v);
       action \<leftarrow> z_enum [(''ACCEPT_EVIDENCE'', ACCEPT_EVIDENCE), (''REQUEST_MORE_EVIDENCE'', REQUEST_MORE_EVIDENCE)] (get_prop ''action'' v);
       caseVersion \<leftarrow> z_int_min 1 (get_prop ''expected_case_version'' v);
       evidenceVersion \<leftarrow> z_int_min 1 (get_prop ''expected_evidence_version'' v);
       reason \<leftarrow> z_regex (\<lambda>s. s \<in> set review_reasons) (get_prop ''reason_code'' v);
       note \<leftarrow> z_optional (z_regex (\<lambda>s. length s \<le> 2000 \<and> list_ex (\<lambda>c. \<not> is_js_space c) s)) (get_prop ''note'' v);
       (if (action = ACCEPT_EVIDENCE) \<noteq> (reason = ''DAMAGE_VISIBLE'') then None
        else Some \<lparr> rv_action = action, rv_expected_case_version = caseVersion, rv_expected_evidence_version = evidenceVersion,
               rv_reason_code = reason, rv_note = note \<rparr>)
     }"

section \<open>Who may review, and what is shown\<close>

definition current_photo :: "StoredPhoto \<Rightarrow> bool" where
  "current_photo p \<longleftrightarrow> \<not> ph_purged p \<and> \<not> ph_superseded p"

definition active_photo :: "StoredPhoto \<Rightarrow> bool" where
  "active_photo p \<longleftrightarrow> ph_technical_status p \<noteq> TECH_REJECTED \<and> current_photo p"

definition canReviewEvidence :: "HumanAccess \<Rightarrow> EvidenceRecord \<Rightarrow> bool" where
  "canReviewEvidence access r \<longleftrightarrow> ha_role access \<in> {REFUND_APPROVER, REFUND_SUPERVISOR}
     \<and> hc_caseType (er_case r) = REFUND_EVIDENCE_REVIEW \<and> hc_status (er_case r) = CLAIMED
     \<and> hc_tenantId (er_case r) = ha_tenantId access \<and> hc_environmentId (er_case r) = ha_environmentId access
     \<and> hc_assignedStaffId (er_case r) = Some (ha_staffId access) \<and> ed_assessment (er_document r) \<noteq> ACCEPTED
     \<and> list_ex (\<lambda>p. ph_technical_status p = READY \<and> \<not> ph_purged p \<and> \<not> ph_superseded p) (ed_attachments (er_document r))
     \<and> \<not> list_ex (\<lambda>p. ph_technical_status p = PROCESSING \<and> \<not> ph_superseded p) (ed_attachments (er_document r))"

text \<open>\<^verbatim>\<open>xs.slice(-n)\<close>: the last \<^verbatim>\<open>n\<close> elements, and all of them for \<^verbatim>\<open>-0\<close>; for a negative \<^verbatim>\<open>n\<close> the elements from there on.\<close>

definition slice_last :: "int \<Rightarrow> 'a list \<Rightarrow> 'a list" where
  "slice_last n xs = (if n \<le> 0 then drop (nat (- n)) xs else drop (length xs - nat n) xs)"

record EvidenceSummary =
  su_evidence_version :: int
  su_assessment :: Assessment
  su_can_upload :: bool
  su_customer_message_code :: "string option"
  su_attachments :: "StoredPhoto list"

record CaseEvidence =
  ce_case_id :: string
  ce_case_status :: HumanCaseStatus
  ce_evidence :: EvidenceSummary
  ce_binding :: EvidenceBinding
  ce_accepted_manifest_hash :: "string option"
  ce_assessment_id :: "string option"

definition byte_sum :: "StoredPhoto list \<Rightarrow> int" where
  "byte_sum ps = sum_list (map ph_byte_size ps)"

definition visible_photos :: "EvidenceDocument \<Rightarrow> StoredPhoto list" where
  "visible_photos doc =
     (let available = filter current_photo (ed_attachments doc);
          readyOrProcessing = filter (\<lambda>p. ph_technical_status p \<noteq> TECH_REJECTED) available
      in if ed_assessment doc = ACCEPTED then filter (\<lambda>p. ph_technical_status p = READY) available
         else take MAX_PHOTOS (readyOrProcessing
           @ slice_last (int MAX_PHOTOS - int (length readyOrProcessing)) (filter (\<lambda>p. ph_technical_status p = TECH_REJECTED) available)))"

definition photo_label :: "nat \<Rightarrow> string" where
  "photo_label i = ''Photo '' @ show_nat i"

definition label_photos :: "StoredPhoto list \<Rightarrow> StoredPhoto list" where
  "label_photos ps = map (\<lambda>(i, p). p\<lparr> ph_display_label := photo_label (i + 1) \<rparr>) (zip [0..<length ps] ps)"

definition evidenceSnapshot :: "EvidenceRecord \<Rightarrow> CaseEvidence" where
  "evidenceSnapshot r =
     (let doc = er_document r;
          readyOrProcessing = filter (\<lambda>p. ph_technical_status p \<noteq> TECH_REJECTED) (filter current_photo (ed_attachments doc));
          can_upload = (\<not> ed_retired doc \<and> ed_assessment doc \<noteq> ACCEPTED \<and> hc_caseType (er_case r) = REFUND_EVIDENCE_REVIEW
            \<and> hc_status (er_case r) \<in> {OPEN, CLAIMED} \<and> length readyOrProcessing < MAX_PHOTOS
            \<and> length (ed_attachments doc) < MAX_UPLOAD_ATTEMPTS \<and> byte_sum readyOrProcessing < MAX_SET_BYTES);
          evidence = \<lparr> su_evidence_version = ed_revision doc, su_assessment = (if ed_retired doc then UNREVIEWED else ed_assessment doc),
            su_can_upload = can_upload,
            su_customer_message_code = (if \<not> ed_retired doc \<and> ed_assessment doc = MORE_REQUIRED then ed_reasonCode doc else None),
            su_attachments = (if ed_retired doc then [] else label_photos (visible_photos doc)) \<rparr>
      in \<lparr> ce_case_id = hc_caseId (er_case r), ce_case_status = hc_status (er_case r), ce_evidence = evidence, ce_binding = er_binding r,
           ce_accepted_manifest_hash = ed_manifestHash doc, ce_assessment_id = ed_assessmentId doc \<rparr>)"

section \<open>The repository\<close>

record EvidenceRow =
  ew_scope :: scope_key
  ew_workflow_id :: string
  ew_case_id :: string
  ew_subject_customer_id :: string
  ew_order_id :: string
  ew_proposal_id :: string
  ew_selected_item_ids :: "string list"
  ew_document :: EvidenceDocument

record EvidenceDb = HumanDb +
  hd_evidence :: "EvidenceRow list"

definition evidence_key :: "EvidenceRow \<Rightarrow> scope_key \<times> string" where
  "evidence_key e = (ew_scope e, ew_workflow_id e)"

text \<open>The row of the join of the two tables, and what \<^verbatim>\<open>load\<close> makes of it.\<close>

definition joined_case :: "EvidenceDb \<Rightarrow> EvidenceRow \<Rightarrow> CaseRow option" where
  "joined_case db e = List.find (\<lambda>row. case_key row = (ew_scope e, ew_case_id e)) (hd_cases db)"

definition evidence_record :: "EvidenceRow \<Rightarrow> CaseRow \<Rightarrow> EvidenceRecord" where
  "evidence_record e row = \<lparr> er_case = toHumanCase row, er_customerId = ew_subject_customer_id e,
     er_binding = \<lparr> bi_order_id = ew_order_id e, bi_proposal_id = ew_proposal_id e, bi_selected_item_ids = ew_selected_item_ids e,
       bi_policy_version = cr_policy_version row \<rparr>, er_document = ew_document e \<rparr>"

definition select_evidence :: "EvidenceDb \<Rightarrow> scope_key \<Rightarrow> string \<Rightarrow> EvidenceRow option" where
  "select_evidence db sc workflowId = List.find (\<lambda>e. evidence_key e = (sc, workflowId) \<and> joined_case db e \<noteq> None) (hd_evidence db)"

definition ev_load :: "EvidenceDb \<Rightarrow> EvidenceScope \<Rightarrow> string \<Rightarrow> EvidenceFailure + EvidenceRecord" where
  "ev_load db esc workflowId =
     (case select_evidence db (es_key esc) workflowId of
        None \<Rightarrow> Inl (EvidenceError ''evidence_not_found'' 404)
      | Some e \<Rightarrow> if es_subjectCustomerId esc \<noteq> None \<and> es_subjectCustomerId esc \<noteq> Some (ew_subject_customer_id e)
          then Inl (EvidenceError ''evidence_not_found'' 404)
          else Inr (evidence_record e (the (joined_case db e))))"

definition touch_case :: "int \<Rightarrow> CaseRow \<Rightarrow> CaseRow" where
  "touch_case now row = row\<lparr> cr_case_version := cr_case_version row + 1,
     cr_updated_at := (if cr_case_status row = CLOSED then cr_updated_at row else now) \<rparr>"

definition put_document :: "scope_key \<Rightarrow> string \<Rightarrow> EvidenceDocument \<Rightarrow> EvidenceRow \<Rightarrow> EvidenceRow" where
  "put_document sc workflowId doc e = (if evidence_key e = (sc, workflowId) then e\<lparr> ew_document := doc \<rparr> else e)"

definition ev_audit ::
  "string \<Rightarrow> CaseRow \<Rightarrow> AuditEventType \<Rightarrow> ActorType \<Rightarrow> string \<Rightarrow> (string \<times> string) list \<Rightarrow> int \<Rightarrow> EvidenceDb \<Rightarrow> EvidenceFailure + EvidenceDb" where
  "ev_audit uuid row event actorType actorId details now db = (case appendAudit uuid row event actorType actorId details now db of
     Inl _ \<Rightarrow> Inl (EvidenceUnexpected ''case_audit_events_pkey'') | Inr db' \<Rightarrow> Inr db')"

definition ev_save ::
  "EvidenceDb \<Rightarrow> int \<Rightarrow> string \<Rightarrow> scope_key \<Rightarrow> EvidenceRecord \<Rightarrow> AuditEventType \<Rightarrow> ActorType \<Rightarrow> string \<Rightarrow> (string \<times> string) list
   \<Rightarrow> EvidenceFailure + EvidenceDb \<times> EvidenceRecord" where
  "ev_save db now uuid sc r event actorType actorId details =
     (case List.find (\<lambda>row. case_key row = (sc, hc_caseId (er_case r))) (hd_cases db) of
        None \<Rightarrow> Inl (EvidenceUnexpected ''refund case is missing'')
      | Some row \<Rightarrow>
          (let db1 = db\<lparr> hd_evidence := map (put_document sc (hc_workflowId (er_case r)) (er_document r)) (hd_evidence db) \<rparr>;
               changed = touch_case now row
           in bindF (ev_audit uuid changed event actorType actorId details now (replace_case changed db1))
                (\<lambda>db'. Inr (db', r\<lparr> er_case := toHumanCase changed \<rparr>))))"

text \<open>\<^verbatim>\<open>JSON.stringify\<close>; a key whose value is \<^verbatim>\<open>undefined\<close> is left out.\<close>

function stringify :: "json \<Rightarrow> string" where
  "stringify (JArr vs) = CHR ''['' # join (map stringify vs) @ '']''"
| "stringify (JObj kvs) = CHR ''{'' # join (map (\<lambda>kv. json_quote (fst kv) @ CHR '':'' # stringify (snd kv)) (filter (\<lambda>kv. snd kv \<noteq> JUndefined) kvs)) @ ''}''"
| "stringify (JStr s) = json_quote s"
| "stringify (JNum n) = show_int n"
| "stringify (JBool b) = (if b then ''true'' else ''false'')"
| "stringify JNull = ''null''"
| "stringify JUndefined = ''null''"
  by pat_completeness auto
termination stringify
  by (relation "measure size") (simp_all only: in_measure size_json_elem size_json_pair set_filter mem_Collect_eq wf_measure)

definition opt_str :: "string option \<Rightarrow> json" where
  "opt_str v = (case v of None \<Rightarrow> JUndefined | Some s \<Rightarrow> JStr s)"

definition packet_json :: "RefundReviewPacket \<Rightarrow> json" where
  "packet_json p = JObj [(''order_reference'', opt_str (rp_order_reference p)),
     (''selected_item_ids'', case rp_selected_item_ids p of None \<Rightarrow> JUndefined | Some is \<Rightarrow> JArr (map JStr is)),
     (''requested_amount'', case rp_requested_amount p of None \<Rightarrow> JUndefined | Some (n, c) \<Rightarrow> JObj [(''amount_minor'', JNum n), (''currency'', JStr c)]),
     (''refund_reason'', opt_str (rp_refund_reason p)), (''policy_reason_codes'', JArr (map JStr (rp_policy_reason_codes p))),
     (''evidence_ids'', JArr (map JStr (rp_evidence_ids p))), (''knowledge_release_id'', opt_str (rp_knowledge_release_id p)),
     (''policy_version'', JStr (rp_policy_version p))]"

text \<open>
  \<^verbatim>\<open>keys[k]\<close> of an object read from JSON: an own entry, or what the object inherits from
  \<^verbatim>\<open>Object.prototype\<close>, which is no string. An empty string counts as absent.
\<close>

datatype Stored = Absent | Own string | Inherited

definition prototype_names :: "string list" where
  "prototype_names = [''constructor'', ''__defineGetter__'', ''__defineSetter__'', ''hasOwnProperty'', ''__lookupGetter__'', ''__lookupSetter__'',
     ''isPrototypeOf'', ''propertyIsEnumerable'', ''toString'', ''valueOf'', ''__proto__'', ''toLocaleString'']"

definition stored_key :: "(string \<times> string) list \<Rightarrow> string \<Rightarrow> Stored" where
  "stored_key keys k = (case map_of keys k of Some v \<Rightarrow> if v = [] then Absent else Own v
     | None \<Rightarrow> if k \<in> set prototype_names then Inherited else Absent)"

record EnsureEvidenceInput =
  en_scope :: EvidenceScope
  en_customer :: string
  en_workflowId :: string
  en_binding :: EvidenceBinding
  en_reviewPacket :: RefundReviewPacket

definition ensure_fingerprint :: "(string \<Rightarrow> string) \<Rightarrow> EnsureEvidenceInput \<Rightarrow> string" where
  "ensure_fingerprint digest i = digest (stringify (JObj [(''customer'', JStr (en_customer i)), (''order'', JStr (bi_order_id (en_binding i))),
     (''proposal'', JStr (bi_proposal_id (en_binding i))), (''items'', JArr (map JStr (sort (bi_selected_item_ids (en_binding i))))),
     (''policy'', JStr (bi_policy_version (en_binding i))), (''packet'', packet_json (en_reviewPacket i))]))"

definition new_document :: "string \<Rightarrow> EvidenceDocument" where
  "new_document fingerprint = \<lparr> ed_revision = 0, ed_assessment = UNREVIEWED, ed_reasonCode = None, ed_assessmentId = None, ed_manifestHash = None,
     ed_ensureFingerprint = fingerprint, ed_attachments = [], ed_reviewKeys = [], ed_transitionKeys = [], ed_retired = False \<rparr>"

definition evidence_case :: "EnsureEvidenceInput \<Rightarrow> OpenCaseInput" where
  "evidence_case i = \<lparr> oi_workflowId = en_workflowId i, oi_caseType = REFUND_EVIDENCE_REVIEW, oi_reviewPacket = en_reviewPacket i,
     oi_policyVersion = bi_policy_version (en_binding i) \<rparr>"

definition new_evidence :: "(string \<Rightarrow> string) \<Rightarrow> string \<Rightarrow> EnsureEvidenceInput \<Rightarrow> EvidenceRow" where
  "new_evidence digest caseId i = \<lparr> ew_scope = es_key (en_scope i), ew_workflow_id = en_workflowId i, ew_case_id = caseId,
     ew_subject_customer_id = en_customer i, ew_order_id = bi_order_id (en_binding i), ew_proposal_id = bi_proposal_id (en_binding i),
     ew_selected_item_ids = bi_selected_item_ids (en_binding i), ew_document = new_document (ensure_fingerprint digest i) \<rparr>"

definition ev_ensure ::
  "(string \<Rightarrow> string) \<Rightarrow> EvidenceDb \<Rightarrow> int \<Rightarrow> (nat \<Rightarrow> string) \<Rightarrow> EnsureEvidenceInput \<Rightarrow> EvidenceFailure + EvidenceDb \<times> CaseEvidence" where
  "ev_ensure digest db now ids i =
     (let sc = es_key (en_scope i) in
      if select_evidence db sc (en_workflowId i) \<noteq> None then
        bindF (ev_load db (en_scope i) (en_workflowId i)) (\<lambda>r.
          if ed_ensureFingerprint (er_document r) \<noteq> ensure_fingerprint digest i then Inl (EvidenceError ''idempotency_conflict'' 409)
          else Inr (db, evidenceSnapshot r))
      else
       (let caseId = ''case-'' @ ids 0; row = opened_row caseId now sc (evidence_case i); e = new_evidence digest caseId i in
        if (sc, en_workflowId i) \<in> (\<lambda>c. (row_scope c, cr_workflow_id c)) ` set (hd_cases db) then Inl (EvidenceError ''evidence_case_conflict'' 409)
        else if (sc, caseId) \<in> case_key ` set (hd_cases db) then Inl (EvidenceUnexpected ''refund_cases_pkey'')
        else if evidence_key e \<in> evidence_key ` set (hd_evidence db) then Inl (EvidenceUnexpected ''refund_evidence_pkey'')
        else (let db1 = db\<lparr> hd_cases := hd_cases db @ [row], hd_evidence := hd_evidence db @ [e] \<rparr> in
          bindF (ev_load db1 (en_scope i) (en_workflowId i)) (\<lambda>r.
          bindF (ev_audit (ids 1) row CASE_OPENED BY_WORKFLOW (en_workflowId i) [(''case_type'', ''REFUND_EVIDENCE_REVIEW'')] now db1)
            (\<lambda>db'. Inr (db', evidenceSnapshot r))))))"

definition ev_get :: "EvidenceDb \<Rightarrow> EvidenceScope \<Rightarrow> string \<Rightarrow> EvidenceFailure + EvidenceRecord" where
  "ev_get db esc workflowId = ev_load db esc workflowId"

record BeginUploadInput =
  bu_expectedRevision :: int
  bu_idempotencyKey :: string
  bu_fingerprint :: string
  bu_byteSize :: int
  bu_contentType :: ImageType

definition new_photo :: "string \<Rightarrow> int \<Rightarrow> BeginUploadInput \<Rightarrow> StoredPhoto" where
  "new_photo evidenceId now i = \<lparr> ph_evidence_id = evidenceId, ph_display_label = ''Photo 1'', ph_byte_size = bu_byteSize i, ph_uploaded_at = now,
     ph_technical_status = PROCESSING, ph_content_type = bu_contentType i, ph_dimensions = None, ph_rejection_code = None,
     ph_storageKey = evidenceId @ (if bu_contentType i = Image_jpeg then ''.jpg'' else ''.png''), ph_sha256 = None,
     ph_uploadKey = bu_idempotencyKey i, ph_fingerprint = bu_fingerprint i, ph_purged = False, ph_superseded = False \<rparr>"

definition add_photo :: "StoredPhoto \<Rightarrow> EvidenceDocument \<Rightarrow> EvidenceDocument" where
  "add_photo p doc = doc\<lparr> ed_attachments := ed_attachments doc @ [p], ed_revision := ed_revision doc + 1, ed_assessment := UNREVIEWED,
     ed_reasonCode := None, ed_assessmentId := None, ed_manifestHash := None \<rparr>"

definition upload_limit :: "EvidenceDocument \<Rightarrow> int \<Rightarrow> bool" where
  "upload_limit doc bytes =
     (let active = filter active_photo (ed_attachments doc) in
      length active \<ge> MAX_PHOTOS \<or> length (ed_attachments doc) \<ge> MAX_UPLOAD_ATTEMPTS \<or> byte_sum active + bytes > MAX_SET_BYTES)"

definition ev_beginUpload ::
  "EvidenceDb \<Rightarrow> int \<Rightarrow> (nat \<Rightarrow> string) \<Rightarrow> EvidenceScope \<Rightarrow> string \<Rightarrow> BeginUploadInput \<Rightarrow> EvidenceFailure + EvidenceDb \<times> EvidenceRecord \<times> StoredPhoto \<times> bool" where
  "ev_beginUpload db now ids esc workflowId i =
     bindF (ev_load db esc workflowId) (\<lambda>r. let doc = er_document r in
       case List.find (\<lambda>p. ph_uploadKey p = bu_idempotencyKey i) (ed_attachments doc) of
         Some existing \<Rightarrow> if ph_fingerprint existing \<noteq> bu_fingerprint i then Inl (EvidenceError ''idempotency_conflict'' 409) else Inr (db, r, existing, False)
       | None \<Rightarrow>
           if ed_assessment doc = ACCEPTED \<or> ed_retired doc \<or> hc_caseType (er_case r) \<noteq> REFUND_EVIDENCE_REVIEW \<or> hc_status (er_case r) \<notin> {OPEN, CLAIMED}
           then Inl (EvidenceError ''evidence_frozen'' 409)
           else if ed_revision doc \<noteq> bu_expectedRevision i then Inl (EvidenceError ''stale_evidence_version'' 409)
           else if upload_limit doc (bu_byteSize i) then Inl (EvidenceError ''evidence_limit_exceeded'' 409)
           else (let photo = new_photo (ids 0) now i; doc' = add_photo photo doc in
             bindF (ev_save db now (ids 1) (es_key esc) (r\<lparr> er_document := doc' \<rparr>) EVIDENCE_UPLOAD_RESERVED BY_CUSTOMER (er_customerId r)
               [(''evidence_id'', ids 0), (''evidence_version'', show_int (ed_revision doc'))]) (\<lambda>(db', r'). Inr (db', r', photo, True))))"

datatype UploadResult = Normalized ImageType int int int string | RejectedUpload RejectionCode

fun mutate_first :: "('a \<Rightarrow> bool) \<Rightarrow> ('a \<Rightarrow> 'a) \<Rightarrow> 'a list \<Rightarrow> 'a list" where
  "mutate_first p f [] = []"
| "mutate_first p f (x # xs) = (if p x then f x # xs else x # mutate_first p f xs)"

definition reject_photo :: "RejectionCode \<Rightarrow> StoredPhoto \<Rightarrow> StoredPhoto" where
  "reject_photo c p = p\<lparr> ph_technical_status := TECH_REJECTED, ph_rejection_code := Some c \<rparr>"

definition technical_string :: "TechnicalStatus \<Rightarrow> string" where
  "technical_string t = (case t of PROCESSING \<Rightarrow> ''PROCESSING'' | READY \<Rightarrow> ''READY'' | TECH_REJECTED \<Rightarrow> ''REJECTED'')"

text \<open>The result of validation, once the limits of the set are applied to it.\<close>

definition upload_result :: "EvidenceRecord \<Rightarrow> string \<Rightarrow> UploadResult \<Rightarrow> UploadResult" where
  "upload_result r evidenceId result =
     (let result1 = (if hc_status (er_case r) = CLOSED \<or> ed_retired (er_document r) then RejectedUpload VALIDATION_UNAVAILABLE else result) in
      case result1 of
        RejectedUpload c \<Rightarrow> RejectedUpload c
      | Normalized t bytes w h sha \<Rightarrow>
          if byte_sum (filter (\<lambda>p. ph_evidence_id p \<noteq> evidenceId \<and> active_photo p) (ed_attachments (er_document r))) + bytes > MAX_SET_BYTES
          then RejectedUpload FILE_TOO_LARGE else result1)"

definition finish_photo :: "UploadResult \<Rightarrow> StoredPhoto \<Rightarrow> StoredPhoto" where
  "finish_photo result p = (case result of
       RejectedUpload c \<Rightarrow> reject_photo c p
     | Normalized t bytes w h sha \<Rightarrow> p\<lparr> ph_technical_status := READY, ph_content_type := t, ph_byte_size := bytes, ph_dimensions := Some (w, h), ph_sha256 := Some sha \<rparr>)"

definition finish_document :: "string \<Rightarrow> UploadResult \<Rightarrow> EvidenceDocument \<Rightarrow> EvidenceDocument" where
  "finish_document evidenceId result doc = doc\<lparr> ed_attachments := mutate_first (\<lambda>p. ph_evidence_id p = evidenceId) (finish_photo result) (ed_attachments doc),
     ed_revision := ed_revision doc + 1 \<rparr>"

definition ev_finishUpload ::
  "EvidenceDb \<Rightarrow> int \<Rightarrow> (nat \<Rightarrow> string) \<Rightarrow> EvidenceScope \<Rightarrow> string \<Rightarrow> string \<Rightarrow> UploadResult \<Rightarrow> EvidenceFailure + EvidenceDb \<times> CaseEvidence" where
  "ev_finishUpload db now ids esc workflowId evidenceId result =
     bindF (ev_load db esc workflowId) (\<lambda>r.
       case List.find (\<lambda>p. ph_evidence_id p = evidenceId) (ed_attachments (er_document r)) of
         None \<Rightarrow> Inl (EvidenceError ''evidence_not_found'' 404)
       | Some photo \<Rightarrow>
           if ph_technical_status photo \<noteq> PROCESSING then Inr (db, evidenceSnapshot r)
           else (let result1 = upload_result r evidenceId result; doc' = finish_document evidenceId result1 (er_document r) in
             bindF (ev_save db now (ids 0) (es_key esc) (r\<lparr> er_document := doc' \<rparr>) EVIDENCE_VALIDATED BY_WORKFLOW workflowId
               [(''evidence_id'', evidenceId), (''technical_status'', technical_string (ph_technical_status (finish_photo result1 photo))),
                (''evidence_version'', show_int (ed_revision doc'))]) (\<lambda>(db', r'). Inr (db', evidenceSnapshot r'))))"

definition review_action_string :: "ReviewAction \<Rightarrow> string" where
  "review_action_string a = (case a of ACCEPT_EVIDENCE \<Rightarrow> ''ACCEPT_EVIDENCE'' | REQUEST_MORE_EVIDENCE \<Rightarrow> ''REQUEST_MORE_EVIDENCE'')"

definition review_fingerprint :: "(string \<Rightarrow> string) \<Rightarrow> string \<Rightarrow> EvidenceReview \<Rightarrow> string" where
  "review_fingerprint digest staffId c = digest (stringify (JObj [(''staff'', JStr staffId), (''version'', JStr ''v1''), (''action'', JStr (review_action_string (rv_action c))),
     (''expected_case_version'', JNum (rv_expected_case_version c)), (''expected_evidence_version'', JNum (rv_expected_evidence_version c)),
     (''reason_code'', JStr (rv_reason_code c)), (''note'', opt_str (rv_note c))]))"

text \<open>The manifest of the accepted photos: their ids and hashes, in the order of \<^verbatim>\<open>localeCompare\<close>.\<close>

definition ready_photos :: "StoredPhoto list \<Rightarrow> StoredPhoto list" where
  "ready_photos ps = filter (\<lambda>p. current_photo p \<and> ph_technical_status p = READY) ps"

definition manifest_hash :: "(string \<Rightarrow> string) \<Rightarrow> (string \<Rightarrow> int) \<Rightarrow> StoredPhoto list \<Rightarrow> string" where
  "manifest_hash digest collate ps = ''sha256:'' @ digest (stringify (JArr (map (\<lambda>p. JObj [(''id'', JStr (ph_evidence_id p)), (''sha256'', opt_str (ph_sha256 p))])
     (sort_key (\<lambda>p. collate (ph_evidence_id p)) (ready_photos ps)))))"

definition supersede :: "StoredPhoto \<Rightarrow> StoredPhoto" where
  "supersede p = (if current_photo p then p\<lparr> ph_superseded := True \<rparr> else p)"

definition review_document ::
  "(string \<Rightarrow> string) \<Rightarrow> (string \<Rightarrow> int) \<Rightarrow> string \<Rightarrow> string \<Rightarrow> string \<Rightarrow> EvidenceReview \<Rightarrow> EvidenceDocument \<Rightarrow> EvidenceDocument" where
  "review_document digest collate aid key fingerprint c doc =
     (let doc1 = doc\<lparr> ed_reasonCode := Some (rv_reason_code c), ed_assessmentId := Some aid,
            ed_reviewKeys := map_set key fingerprint (ed_reviewKeys doc) \<rparr> in
      if rv_action c = ACCEPT_EVIDENCE then doc1\<lparr> ed_assessment := ACCEPTED, ed_manifestHash := Some (manifest_hash digest collate (ed_attachments doc)) \<rparr>
      else doc1\<lparr> ed_assessment := MORE_REQUIRED, ed_attachments := map supersede (ed_attachments doc), ed_revision := ed_revision doc + 1, ed_manifestHash := None \<rparr>)"

definition assessment_string :: "Assessment \<Rightarrow> string" where
  "assessment_string a = (case a of UNREVIEWED \<Rightarrow> ''UNREVIEWED'' | ACCEPTED \<Rightarrow> ''ACCEPTED'' | MORE_REQUIRED \<Rightarrow> ''MORE_REQUIRED'')"

definition review_details :: "EvidenceReview \<Rightarrow> EvidenceDocument \<Rightarrow> EvidenceDocument \<Rightarrow> (string \<times> string) list" where
  "review_details c doc doc' = [(''assessment'', assessment_string (ed_assessment doc')), (''assessment_id'', or_blank (ed_assessmentId doc')),
     (''reviewed_evidence_version'', show_int (ed_revision doc)), (''evidence_version'', show_int (ed_revision doc')),
     (''reviewed_evidence_ids'', stringify (JArr (map (\<lambda>p. JStr (ph_evidence_id p)) (filter current_photo (ed_attachments doc)))))]
     @ (case ed_manifestHash doc' of None \<Rightarrow> [] | Some h \<Rightarrow> [(''accepted_manifest_hash'', h)])
     @ [(''reason_code'', rv_reason_code c)] @ (case rv_note c of None \<Rightarrow> [] | Some n \<Rightarrow> [(''note'', n)])"

definition ev_review ::
  "(string \<Rightarrow> string) \<Rightarrow> (string \<Rightarrow> int) \<Rightarrow> EvidenceDb \<Rightarrow> int \<Rightarrow> (nat \<Rightarrow> string) \<Rightarrow> EvidenceScope \<Rightarrow> string \<Rightarrow> HumanAccess \<Rightarrow> EvidenceReview \<Rightarrow> string
   \<Rightarrow> EvidenceFailure + EvidenceDb \<times> CaseEvidence" where
  "ev_review digest collate db now ids esc workflowId access c key =
     bindF (ev_load db esc workflowId) (\<lambda>r.
       let doc = er_document r; fingerprint = review_fingerprint digest (ha_staffId access) c in
       case stored_key (ed_reviewKeys doc) key of
         Own v \<Rightarrow> if v \<noteq> fingerprint then Inl (EvidenceError ''idempotency_conflict'' 409) else Inr (db, evidenceSnapshot r)
       | Inherited \<Rightarrow> Inl (EvidenceError ''idempotency_conflict'' 409)
       | Absent \<Rightarrow>
           if \<not> canReviewEvidence access r then Inl (EvidenceError ''evidence_review_forbidden'' 403)
           else if hc_caseVersion (er_case r) \<noteq> rv_expected_case_version c then Inl (EvidenceError ''stale_case_version'' 409)
           else if ed_revision doc \<noteq> rv_expected_evidence_version c then Inl (EvidenceError ''stale_evidence_version'' 409)
           else if length (ed_reviewKeys doc) \<ge> 100 then Inl (EvidenceError ''evidence_limit_exceeded'' 409)
           else (let doc' = review_document digest collate (ids 0) key fingerprint c doc in
             bindF (ev_save db now (ids 1) (es_key esc) (r\<lparr> er_document := doc' \<rparr>) EVIDENCE_REVIEWED BY_HUMAN (ha_staffId access) (review_details c doc doc'))
               (\<lambda>(db', r'). Inr (db', evidenceSnapshot r'))))"

record TransitionInput =
  tr_caseType :: HumanCaseType
  tr_reviewPacket :: RefundReviewPacket
  tr_policyVersion :: string
  tr_expectedEvidenceVersion :: int
  tr_key :: string

definition transition_fingerprint :: "(string \<Rightarrow> string) \<Rightarrow> TransitionInput \<Rightarrow> string" where
  "transition_fingerprint digest i = digest (stringify (JObj [(''type'', JStr (case_type_string (tr_caseType i))), (''packet'', packet_json (tr_reviewPacket i)),
     (''policy'', JStr (tr_policyVersion i)), (''revision'', JNum (tr_expectedEvidenceVersion i))]))"

definition packet_items :: "RefundReviewPacket \<Rightarrow> string list" where
  "packet_items p = (case rp_selected_item_ids p of None \<Rightarrow> [] | Some is \<Rightarrow> is)"

definition transition_refusal :: "EvidenceRecord \<Rightarrow> TransitionInput \<Rightarrow> EvidenceFailure option" where
  "transition_refusal r i =
     (let doc = er_document r; c = er_case r; p = tr_reviewPacket i in
      if ed_assessment doc \<noteq> ACCEPTED \<or> ed_retired doc \<or> ed_revision doc \<noteq> tr_expectedEvidenceVersion i then Some (EvidenceError ''evidence_not_accepted'' 409)
      else if bi_policy_version (er_binding r) \<noteq> tr_policyVersion i \<or> rp_policy_version p \<noteq> tr_policyVersion i then Some (EvidenceError ''evidence_binding_conflict'' 409)
      else if hc_caseType c \<noteq> REFUND_EVIDENCE_REVIEW \<or> hc_status c = CLOSED then Some (EvidenceError ''evidence_case_conflict'' 409)
      else if sort (packet_items p) \<noteq> sort (bi_selected_item_ids (er_binding r)) then Some (EvidenceError ''evidence_binding_conflict'' 409)
      else if rp_order_reference p \<noteq> rp_order_reference (hc_reviewPacket c) \<or> rp_refund_reason p \<noteq> rp_refund_reason (hc_reviewPacket c)
      then Some (EvidenceError ''evidence_binding_conflict'' 409)
      else if rp_requested_amount p \<noteq> rp_requested_amount (hc_reviewPacket c) then Some (EvidenceError ''evidence_binding_conflict'' 409)
      else None)"

definition phase_case :: "TransitionInput \<Rightarrow> CaseRow \<Rightarrow> CaseRow" where
  "phase_case i row = row\<lparr> cr_case_type := tr_caseType i, cr_case_status := OPEN, cr_assigned_staff_id := None, cr_review_packet := tr_reviewPacket i \<rparr>"

definition ev_transition ::
  "(string \<Rightarrow> string) \<Rightarrow> EvidenceDb \<Rightarrow> int \<Rightarrow> (nat \<Rightarrow> string) \<Rightarrow> EvidenceScope \<Rightarrow> string \<Rightarrow> TransitionInput \<Rightarrow> EvidenceFailure + EvidenceDb \<times> CaseEvidence" where
  "ev_transition digest db now ids esc workflowId i =
     bindF (ev_load db esc workflowId) (\<lambda>r.
       let doc = er_document r; fingerprint = transition_fingerprint digest i in
       case stored_key (ed_transitionKeys doc) (tr_key i) of
         Own v \<Rightarrow> if v \<noteq> fingerprint then Inl (EvidenceError ''idempotency_conflict'' 409) else Inr (db, evidenceSnapshot r)
       | Inherited \<Rightarrow> Inl (EvidenceError ''idempotency_conflict'' 409)
       | Absent \<Rightarrow>
          (case transition_refusal r i of
             Some e \<Rightarrow> Inl e
           | None \<Rightarrow>
               (let db1 = db\<lparr> hd_cases := map (\<lambda>row. if case_key row = (es_key esc, hc_caseId (er_case r)) then phase_case i row else row) (hd_cases db) \<rparr>;
                    doc' = doc\<lparr> ed_transitionKeys := map_set (tr_key i) fingerprint (ed_transitionKeys doc) \<rparr>
                in bindF (ev_save db1 now (ids 0) (es_key esc) (r\<lparr> er_document := doc' \<rparr>) CASE_PHASE_CHANGED BY_WORKFLOW workflowId
                     [(''case_type'', case_type_string (tr_caseType i)), (''evidence_version'', show_int (ed_revision doc'))])
                   (\<lambda>(db', r'). Inr (db', evidenceSnapshot r')))))"

text \<open>The rows of the join in a scope, with their cases.\<close>

definition joined_rows :: "EvidenceDb \<Rightarrow> scope_key \<Rightarrow> (EvidenceRow \<times> CaseRow) list" where
  "joined_rows db sc = map (\<lambda>e. (e, the (joined_case db e))) (filter (\<lambda>e. ew_scope e = sc \<and> joined_case db e \<noteq> None) (hd_evidence db))"

definition batch :: "((EvidenceRow \<times> CaseRow) \<Rightarrow> bool) \<Rightarrow> EvidenceDb \<Rightarrow> scope_key \<Rightarrow> (EvidenceRow \<times> CaseRow) list" where
  "batch p db sc = take 100 (sort_key (\<lambda>(e, row). cr_updated_at row) (filter p (joined_rows db sc)))"

definition stale_photo :: "int \<Rightarrow> StoredPhoto \<Rightarrow> bool" where
  "stale_photo cutoff p \<longleftrightarrow> ph_technical_status p = PROCESSING \<and> ph_uploaded_at p \<le> cutoff"

definition recover_photo :: "int \<Rightarrow> StoredPhoto \<Rightarrow> StoredPhoto" where
  "recover_photo cutoff p = (if stale_photo cutoff p then reject_photo VALIDATION_UNAVAILABLE p else p)"

definition recover_document :: "int \<Rightarrow> EvidenceDocument \<Rightarrow> EvidenceDocument" where
  "recover_document cutoff doc = doc\<lparr> ed_attachments := map (recover_photo cutoff) (ed_attachments doc),
     ed_revision := ed_revision doc + 1 \<rparr>"

fun recover_rows :: "EvidenceDb \<Rightarrow> int \<Rightarrow> (nat \<Rightarrow> string) \<Rightarrow> EvidenceScope \<Rightarrow> int \<Rightarrow> nat \<Rightarrow> (EvidenceRow \<times> CaseRow) list \<Rightarrow> EvidenceFailure + EvidenceDb" where
  "recover_rows db now ids esc cutoff n [] = Inr db"
| "recover_rows db now ids esc cutoff n ((e, row) # rows) =
     bindF (ev_load db esc (ew_workflow_id e)) (\<lambda>r.
     bindF (ev_save db now (ids n) (es_key esc) (r\<lparr> er_document := recover_document cutoff (er_document r) \<rparr>) EVIDENCE_VALIDATED BY_WORKFLOW (hc_workflowId (er_case r))
       [(''technical_status'', ''REJECTED''), (''reason'', ''STALE_PROCESSING_RECOVERED'')])
       (\<lambda>(db', _). recover_rows db' now ids esc cutoff (Suc n) rows))"

definition ev_recoverStaleUploads :: "EvidenceDb \<Rightarrow> int \<Rightarrow> (nat \<Rightarrow> string) \<Rightarrow> EvidenceScope \<Rightarrow> EvidenceFailure + EvidenceDb" where
  "ev_recoverStaleUploads db now ids esc =
     (let cutoff = now - 600000 in
      recover_rows db now ids esc cutoff 0 (batch (\<lambda>(e, row). list_ex (stale_photo cutoff) (ed_attachments (ew_document e))) db (es_key esc)))"

text \<open>\<^verbatim>\<open>purge\<close>: what \<^verbatim>\<open>options.remove\<close> removes is an answer of the model; it may fail.\<close>

definition purge_photo :: "int \<Rightarrow> bool \<Rightarrow> StoredPhoto \<Rightarrow> StoredPhoto" where
  "purge_photo now closedExpired p =
     (let age = now - ph_uploaded_at p;
          p1 = (if ph_technical_status p = PROCESSING \<and> age \<ge> 10 * 60000 then reject_photo VALIDATION_UNAVAILABLE p else p)
      in if \<not> ph_purged p1 \<and> (closedExpired \<or> (ph_technical_status p1 = TECH_REJECTED \<and> age \<ge> 86400000)) then p1\<lparr> ph_purged := True \<rparr> else p1)"

definition removed_keys :: "int \<Rightarrow> bool \<Rightarrow> EvidenceDocument \<Rightarrow> string list" where
  "removed_keys now closedExpired doc =
     map ph_storageKey (filter (\<lambda>p. \<not> ph_purged p \<and> ph_purged (purge_photo now closedExpired p)) (ed_attachments doc))"

definition purge_document :: "int \<Rightarrow> bool \<Rightarrow> EvidenceDocument \<Rightarrow> EvidenceDocument" where
  "purge_document now closedExpired doc =
     (let doc1 = doc\<lparr> ed_attachments := map (purge_photo now closedExpired) (ed_attachments doc), ed_retired := ed_retired doc \<or> closedExpired \<rparr> in
      if doc1 \<noteq> doc \<and> (ed_assessment doc \<noteq> ACCEPTED \<or> ed_retired doc1) then doc1\<lparr> ed_revision := ed_revision doc + 1 \<rparr> else doc1)"

definition closed_expired :: "int \<Rightarrow> int \<Rightarrow> CaseRow \<Rightarrow> bool" where
  "closed_expired now retentionDays row \<longleftrightarrow> cr_case_status row = CLOSED \<and> now - cr_updated_at row \<ge> retentionDays * 86400000"

definition purge_due :: "int \<Rightarrow> int \<Rightarrow> EvidenceRow \<times> CaseRow \<Rightarrow> bool" where
  "purge_due now retentionDays = (\<lambda>(e, row).
     (cr_case_status row = CLOSED \<and> \<not> ed_retired (ew_document e) \<and> cr_updated_at row \<le> now - retentionDays * 86400000)
     \<or> list_ex (\<lambda>p. (ph_technical_status p = PROCESSING \<and> ph_uploaded_at p \<le> now - 600000)
          \<or> (ph_technical_status p = TECH_REJECTED \<and> \<not> ph_purged p \<and> ph_uploaded_at p \<le> now - 86400000)) (ed_attachments (ew_document e)))"

fun purge_rows ::
  "(string \<Rightarrow> bool) \<Rightarrow> int \<Rightarrow> int \<Rightarrow> int \<Rightarrow> (nat \<Rightarrow> string) \<Rightarrow> scope_key \<Rightarrow> EvidenceDb \<Rightarrow> nat \<Rightarrow> (EvidenceRow \<times> CaseRow) list \<Rightarrow> EvidenceFailure + EvidenceDb \<times> string list" where
  "purge_rows remove now retentionDays clock ids sc db n [] = Inr (db, [])"
| "purge_rows remove now retentionDays clock ids sc db n ((e, row) # rows) =
     (let r = evidence_record e row; expired = closed_expired now retentionDays row; doc = er_document r;
          gone = removed_keys now expired doc; doc' = purge_document now expired doc
      in if \<not> list_all remove gone then Inl (EvidenceUnexpected ''remove failed'')
         else bindF (if doc' = doc then Inr db
               else bindF (ev_save db clock (ids n) sc (r\<lparr> er_document := doc' \<rparr>) EVIDENCE_PURGED BY_WORKFLOW (hc_workflowId (er_case r))
                 [(''retired'', if ed_retired doc' then ''true'' else ''false'')]) (\<lambda>(db', _). Inr db')) (\<lambda>db'.
              bindF (purge_rows remove now retentionDays clock ids sc db' (Suc n) rows) (\<lambda>(db'', more). Inr (db'', gone @ more))))"

definition ev_purge ::
  "(string \<Rightarrow> bool) \<Rightarrow> EvidenceDb \<Rightarrow> int \<Rightarrow> int \<Rightarrow> int \<Rightarrow> (nat \<Rightarrow> string) \<Rightarrow> EvidenceScope \<Rightarrow> EvidenceFailure + EvidenceDb \<times> string list" where
  "ev_purge remove db now retentionDays clock ids esc = purge_rows remove now retentionDays clock ids (es_key esc) db 0 (batch (purge_due now retentionDays) db (es_key esc))"

section \<open>The invariant of a document\<close>

text \<open>
  A photo that was superseded has been validated. The photos that count are at most five and at most
  25 MiB, and at most twenty were ever uploaded. While evidence is accepted and its case is retained,
  there are no photos in processing, at least one is ready, and the manifest describes the ready ones.
\<close>

definition photo_ok :: "StoredPhoto \<Rightarrow> bool" where
  "photo_ok p \<longleftrightarrow> 0 \<le> ph_byte_size p \<and> (ph_superseded p \<longrightarrow> ph_technical_status p \<noteq> PROCESSING)"

definition set_ok :: "StoredPhoto list \<Rightarrow> bool" where
  "set_ok ps \<longleftrightarrow> length (filter active_photo ps) \<le> MAX_PHOTOS \<and> length ps \<le> MAX_UPLOAD_ATTEMPTS \<and> byte_sum (filter active_photo ps) \<le> MAX_SET_BYTES"

definition accepted_ok :: "(string \<Rightarrow> string) \<Rightarrow> (string \<Rightarrow> int) \<Rightarrow> EvidenceDocument \<Rightarrow> bool" where
  "accepted_ok digest collate doc \<longleftrightarrow> ed_assessment doc = ACCEPTED \<longrightarrow>
     list_all (\<lambda>p. ph_technical_status p \<noteq> PROCESSING) (ed_attachments doc) \<and> ed_assessmentId doc \<noteq> None \<and> 1 \<le> ed_revision doc
     \<and> (\<not> ed_retired doc \<longrightarrow> ready_photos (ed_attachments doc) \<noteq> [] \<and> ed_manifestHash doc = Some (manifest_hash digest collate (ed_attachments doc)))"

definition document_ok :: "(string \<Rightarrow> string) \<Rightarrow> (string \<Rightarrow> int) \<Rightarrow> EvidenceDocument \<Rightarrow> bool" where
  "document_ok digest collate doc \<longleftrightarrow> list_all photo_ok (ed_attachments doc) \<and> set_ok (ed_attachments doc) \<and> accepted_ok digest collate doc \<and> 0 \<le> ed_revision doc
     \<and> (ed_attachments doc \<noteq> [] \<longrightarrow> 1 \<le> ed_revision doc) \<and> distinct (map ph_evidence_id (ed_attachments doc)) \<and> length (ed_reviewKeys doc) \<le> 100"

lemmas photo_defs = photo_ok_def active_photo_def current_photo_def

lemma document_okD:
  assumes "document_ok digest collate doc"
  shows "list_all photo_ok (ed_attachments doc)" "set_ok (ed_attachments doc)" "accepted_ok digest collate doc" "0 \<le> ed_revision doc"
    "ed_attachments doc \<noteq> [] \<Longrightarrow> 1 \<le> ed_revision doc" "distinct (map ph_evidence_id (ed_attachments doc))" "length (ed_reviewKeys doc) \<le> 100"
  using assms by (simp_all add: document_ok_def)

lemma byte_sum_simps [simp]: "byte_sum [] = 0" "byte_sum (p # ps) = ph_byte_size p + byte_sum ps" "byte_sum (ps @ qs) = byte_sum ps + byte_sum qs"
  by (simp_all add: byte_sum_def)

lemma byte_sum_filter_le:
  assumes "list_all photo_ok ps" and "\<And>p. p \<in> set ps \<Longrightarrow> A p \<Longrightarrow> B p"
  shows "byte_sum (filter A ps) \<le> byte_sum (filter B ps)"
  using assms
proof (induction ps)
  case (Cons p ps)
  then have "byte_sum (filter A ps) \<le> byte_sum (filter B ps)" by simp
  moreover have "0 \<le> ph_byte_size p" "A p \<Longrightarrow> B p" using Cons.prems by (simp_all add: photo_ok_def)
  ultimately show ?case by auto
qed simp

text \<open>A change of photos that makes none active again and leaves the sizes of active ones alone keeps the limits.\<close>

lemma set_ok_map:
  assumes "set_ok ps" and "list_all photo_ok ps" and f: "\<And>p. p \<in> set ps \<Longrightarrow> active_photo (f p) \<Longrightarrow> active_photo p \<and> ph_byte_size (f p) = ph_byte_size p"
  shows "set_ok (map f ps)"
proof -
  have "length (filter active_photo (map f ps)) \<le> length (filter active_photo ps) \<and> byte_sum (filter active_photo (map f ps)) \<le> byte_sum (filter active_photo ps)"
    using assms(2) f
  proof (induction ps)
    case (Cons p ps)
    then have "length (filter active_photo (map f ps)) \<le> length (filter active_photo ps) \<and> byte_sum (filter active_photo (map f ps)) \<le> byte_sum (filter active_photo ps)"
      by simp
    moreover have "0 \<le> ph_byte_size p" using Cons.prems(1) by (simp add: photo_ok_def)
    moreover have "active_photo (f p) \<Longrightarrow> active_photo p \<and> ph_byte_size (f p) = ph_byte_size p" using Cons.prems(2) by simp
    ultimately show ?case by (cases "active_photo (f p)"; cases "active_photo p") simp_all
  qed simp
  with assms(1) show ?thesis by (simp add: set_ok_def)
qed

lemma length_filter_le_filter: "(\<And>x. x \<in> set xs \<Longrightarrow> P x \<Longrightarrow> Q x) \<Longrightarrow> length (filter P xs) \<le> length (filter Q xs)"
  by (induction xs) (auto simp: le_Suc_eq)

lemma new_document_ok: "document_ok digest collate (new_document fp)"
  by (simp add: document_ok_def new_document_def set_ok_def accepted_ok_def MAX_SET_BYTES_def)

lemma add_photo_ok:
  assumes "document_ok digest collate doc" and "\<not> upload_limit doc (bu_byteSize i)" and "0 \<le> bu_byteSize i"
    and "evidenceId \<notin> ph_evidence_id ` set (ed_attachments doc)"
  shows "document_ok digest collate (add_photo (new_photo evidenceId now i) doc)"
  using document_okD [OF assms(1)] assms(2-4)
  by (simp add: document_ok_def add_photo_def new_photo_def set_ok_def upload_limit_def accepted_ok_def photo_defs Let_def)

lemma mutate_first_map: "map g (mutate_first p f xs) = map g xs" if "\<And>x. g (f x) = g x"
  using that by (induction xs) simp_all

lemma mutate_first_found:
  assumes "List.find (\<lambda>p. ph_evidence_id p = i) ps = Some x" and "distinct (map ph_evidence_id ps)"
  shows "mutate_first (\<lambda>p. ph_evidence_id p = i) f ps = map (\<lambda>p. if ph_evidence_id p = i then f x else p) ps"
  using assms
proof (induction ps)
  case (Cons p ps)
  show ?case
  proof (cases "ph_evidence_id p = i")
    case True
    then have "\<forall>q \<in> set ps. ph_evidence_id q \<noteq> i" using Cons.prems(2) by (simp add: image_iff) metis
    then have "map (\<lambda>p. if ph_evidence_id p = i then f x else p) ps = ps" by (intro map_idI) simp
    with True Cons.prems(1) show ?thesis by simp
  qed (use Cons in simp)
qed simp

lemma byte_sum_replaced:
  assumes "distinct (map ph_evidence_id ps)" and "ph_evidence_id y = i"
  shows "byte_sum (filter active_photo (map (\<lambda>p. if ph_evidence_id p = i then y else p) ps))
    \<le> byte_sum (filter (\<lambda>p. ph_evidence_id p \<noteq> i \<and> active_photo p) ps) + (if active_photo y then max 0 (ph_byte_size y) else 0)"
  using assms(1)
proof (induction ps)
  case (Cons p ps)
  show ?case
  proof (cases "ph_evidence_id p = i")
    case True
    then have "\<forall>q \<in> set ps. ph_evidence_id q \<noteq> i" using Cons.prems by (simp add: image_iff) metis
    then have "map (\<lambda>p. if ph_evidence_id p = i then y else p) ps = ps" and "filter (\<lambda>p. ph_evidence_id p \<noteq> i \<and> active_photo p) ps = filter active_photo ps"
      by (auto intro: map_idI filter_cong)
    with True show ?thesis by simp
  next
    case False
    with Cons show ?thesis by (cases "active_photo y") simp_all
  qed
qed simp

lemma finish_photo_simps [simp]: "ph_evidence_id (finish_photo result p) = ph_evidence_id p" "current_photo (finish_photo result p) = current_photo p"
  "ph_superseded (finish_photo result p) = ph_superseded p" "ph_technical_status (finish_photo result p) \<noteq> PROCESSING"
  by (cases result; simp add: finish_photo_def reject_photo_def current_photo_def)+

text \<open>Bytes of what validation produced.\<close>

definition result_bytes :: "UploadResult \<Rightarrow> int" where
  "result_bytes result = (case result of RejectedUpload _ \<Rightarrow> 0 | Normalized _ bytes _ _ _ \<Rightarrow> bytes)"

lemma finish_document_ok:
  assumes "document_ok digest collate (er_document r)" and "List.find (\<lambda>p. ph_evidence_id p = i) (ed_attachments (er_document r)) = Some x"
    and "ph_technical_status x = PROCESSING" and "0 \<le> result_bytes result"
  shows "document_ok digest collate (finish_document i (upload_result r i result) (er_document r))"
proof -
  let ?doc = "er_document r" and ?y = "finish_photo (upload_result r i result) x"
  let ?ps = "map (\<lambda>p. if ph_evidence_id p = i then ?y else p) (ed_attachments ?doc)"
  note d = document_okD [OF assms(1)]
  have x: "x \<in> set (ed_attachments ?doc)" "ph_evidence_id x = i" using find_in_set [OF assms(2)] by simp_all
  have ps: "ed_attachments (finish_document i (upload_result r i result) ?doc) = ?ps"
    by (simp add: finish_document_def mutate_first_found [OF assms(2) d(6)])
  have xok: "photo_ok x" using d(1) x(1) by (simp add: list_all_iff)
  have yok: "photo_ok ?y"
    using xok assms(4) by (auto simp: photo_ok_def finish_photo_def reject_photo_def upload_result_def result_bytes_def Let_def split: UploadResult.split)
  have small: "byte_sum (filter (\<lambda>p. ph_evidence_id p \<noteq> i \<and> active_photo p) (ed_attachments ?doc)) + (if active_photo ?y then max 0 (ph_byte_size ?y) else 0) \<le> MAX_SET_BYTES"
  proof (cases "active_photo ?y")
    case True
    then have "\<exists>t b w h sha. upload_result r i result = Normalized t b w h sha \<and> ph_byte_size ?y = b
        \<and> byte_sum (filter (\<lambda>p. ph_evidence_id p \<noteq> i \<and> active_photo p) (ed_attachments ?doc)) + b \<le> MAX_SET_BYTES"
      by (auto simp: upload_result_def Let_def finish_photo_def reject_photo_def active_photo_def split: UploadResult.split_asm if_split_asm)
    with True yok show ?thesis by (auto simp: photo_ok_def)
  next
    case False
    have "byte_sum (filter (\<lambda>p. ph_evidence_id p \<noteq> i \<and> active_photo p) (ed_attachments ?doc)) \<le> byte_sum (filter active_photo (ed_attachments ?doc))"
      by (rule byte_sum_filter_le [OF d(1)]) simp
    with False d(2) show ?thesis by (simp add: set_ok_def)
  qed
  have cnt: "length (filter active_photo ?ps) \<le> length (filter active_photo (ed_attachments ?doc))"
  proof -
    have "active_photo p" if "p \<in> set (ed_attachments ?doc)" "ph_evidence_id p = i" "active_photo ?y" for p
    proof -
      have "p = x" using d(6) x that(1,2) by (auto simp: distinct_map inj_on_def)
      with that(3) assms(3) show ?thesis by (simp add: active_photo_def)
    qed
    then show ?thesis by (simp add: filter_map) (intro length_filter_le_filter, auto split: if_split_asm)
  qed
  have "set_ok ?ps"
    using byte_sum_replaced [OF d(6), of ?y i] x(2) small cnt d(2) by (simp add: set_ok_def)
  moreover have "list_all photo_ok ?ps" using d(1) yok by (auto simp: list_all_iff)
  moreover have "ed_assessment ?doc \<noteq> ACCEPTED"
    using d(3) x(1) assms(3) by (auto simp: accepted_ok_def list_all_iff)
  moreover have "map ph_evidence_id ?ps = map ph_evidence_id (ed_attachments ?doc)" using x(2) by auto
  then have "distinct (map ph_evidence_id ?ps)" using d(6) by (rule ssubst)
  ultimately show ?thesis
    using d ps by (simp add: document_ok_def finish_document_def accepted_ok_def)
qed

lemma length_map_set: "length (map_set k v m) \<le> Suc (length m)"
  by (induction k v m rule: map_set.induct) simp_all

lemma review_document_ok:
  assumes "document_ok digest collate (er_document r)" and "canReviewEvidence access r" and "length (ed_reviewKeys (er_document r)) < 100"
  shows "document_ok digest collate (review_document digest collate aid key fp c (er_document r))"
proof -
  let ?doc = "er_document r"
  note d = document_okD [OF assms(1)]
  have keys: "length (map_set key fp (ed_reviewKeys ?doc)) \<le> 100" using length_map_set [of key fp "ed_reviewKeys ?doc"] assms(3) by simp
  have idle: "ph_technical_status p \<noteq> PROCESSING" if "p \<in> set (ed_attachments ?doc)" for p
    using assms(2) d(1) that by (auto simp: canReviewEvidence_def photo_ok_def list_all_iff list_ex_iff)
  have ready: "ready_photos (ed_attachments ?doc) \<noteq> []" "ed_attachments ?doc \<noteq> []"
    using assms(2) by (auto simp: canReviewEvidence_def ready_photos_def current_photo_def list_ex_iff filter_empty_conv)
  show ?thesis
  proof (cases "rv_action c")
    case ACCEPT_EVIDENCE
    with d keys idle ready show ?thesis by (simp add: document_ok_def review_document_def accepted_ok_def list_all_iff Let_def)
  next
    case REQUEST_MORE_EVIDENCE
    have "map ph_evidence_id (map supersede ps) = map ph_evidence_id ps" for ps by (simp add: supersede_def)
    then have "distinct (map ph_evidence_id (map supersede (ed_attachments ?doc)))" using d(6) by (rule ssubst)
    moreover
    have "filter active_photo (map supersede ps) = []" for ps by (induction ps) (simp_all add: supersede_def photo_defs)
    then have "set_ok (map supersede (ed_attachments ?doc))" using d(2) by (simp add: set_ok_def MAX_SET_BYTES_def)
    moreover have "photo_ok (supersede p)" if "p \<in> set (ed_attachments ?doc)" for p
      using d(1) idle [OF that] that by (simp add: list_all_iff supersede_def photo_ok_def)
    then have "list_all photo_ok (map supersede (ed_attachments ?doc))" by (simp add: list_all_iff)
    ultimately show ?thesis
      using REQUEST_MORE_EVIDENCE d keys unfolding document_ok_def review_document_def Let_def
      by (simp add: accepted_ok_def)
  qed
qed

lemma transition_document_ok: "document_ok digest collate doc \<Longrightarrow> document_ok digest collate (doc\<lparr> ed_transitionKeys := ks \<rparr>)"
  by (simp add: document_ok_def accepted_ok_def)

lemma recover_photo_simps:
  "ph_evidence_id (recover_photo cutoff p) = ph_evidence_id p" "active_photo (recover_photo cutoff p) \<Longrightarrow> active_photo p \<and> ph_byte_size (recover_photo cutoff p) = ph_byte_size p"
  "photo_ok p \<Longrightarrow> photo_ok (recover_photo cutoff p)" "ph_technical_status p \<noteq> PROCESSING \<Longrightarrow> recover_photo cutoff p = p"
  by (auto simp: recover_photo_def reject_photo_def photo_defs stale_photo_def)

lemma recover_document_ok:
  assumes "document_ok digest collate doc"
  shows "document_ok digest collate (recover_document cutoff doc)"
proof -
  let ?f = "recover_photo cutoff"
  note d = document_okD [OF assms] and f = recover_photo_simps
  have "set_ok (map ?f (ed_attachments doc))" by (rule set_ok_map [OF d(2,1)]) (rule f(2))
  moreover have "list_all photo_ok (map ?f (ed_attachments doc))" using d(1) f(3) by (simp add: list_all_iff)
  moreover have "map ph_evidence_id (map ?f (ed_attachments doc)) = map ph_evidence_id (ed_attachments doc)" using f(1) by simp
  then have "distinct (map ph_evidence_id (map ?f (ed_attachments doc)))" using d(6) by (rule ssubst)
  moreover have "map ?f (ed_attachments doc) = ed_attachments doc" if "ed_assessment doc = ACCEPTED"
    using d(3) that f(4) by (intro map_idI) (auto simp: accepted_ok_def list_all_iff)
  ultimately show ?thesis
    using d unfolding document_ok_def recover_document_def by (simp add: accepted_ok_def)
qed

lemma purge_photo_simps:
  "ph_evidence_id (purge_photo now ex p) = ph_evidence_id p" "active_photo (purge_photo now ex p) \<Longrightarrow> active_photo p \<and> ph_byte_size (purge_photo now ex p) = ph_byte_size p"
  "photo_ok p \<Longrightarrow> photo_ok (purge_photo now ex p)" "ph_technical_status p \<noteq> PROCESSING \<Longrightarrow> ph_technical_status (purge_photo now ex p) = ph_technical_status p"
  "ph_technical_status p = READY \<Longrightarrow> \<not> ex \<Longrightarrow> purge_photo now ex p = p"
  by (auto simp: purge_photo_def reject_photo_def photo_defs Let_def split: if_split_asm)

lemma ready_photos_map:
  assumes "\<And>p. p \<in> set ps \<Longrightarrow> ph_technical_status p = READY \<Longrightarrow> f p = p" and "\<And>p. p \<in> set ps \<Longrightarrow> ph_technical_status p \<noteq> READY \<Longrightarrow> ph_technical_status (f p) \<noteq> READY"
  shows "ready_photos (map f ps) = ready_photos ps"
  using assms
proof (induction ps)
  case (Cons p ps)
  then have "ready_photos (map f ps) = ready_photos ps" by simp
  with Cons.prems [of p] show ?case by (cases "ph_technical_status p = READY") (simp_all add: ready_photos_def)
qed (simp add: ready_photos_def)

lemma purge_ready:
  assumes "list_all (\<lambda>p. ph_technical_status p \<noteq> PROCESSING) ps"
  shows "ready_photos (map (purge_photo now False) ps) = ready_photos ps"
  using assms by (intro ready_photos_map) (simp_all add: purge_photo_simps list_all_iff)

lemma purge_document_ok:
  assumes "document_ok digest collate doc"
  shows "document_ok digest collate (purge_document now ex doc)"
proof -
  let ?ps = "map (purge_photo now ex) (ed_attachments doc)"
  define doc1 where "doc1 = doc\<lparr> ed_attachments := ?ps, ed_retired := ed_retired doc \<or> ex \<rparr>"
  note d = document_okD [OF assms]
  have "set_ok ?ps" by (rule set_ok_map [OF d(2,1)]) (rule purge_photo_simps(2))
  moreover have "list_all photo_ok ?ps" using d(1) purge_photo_simps(3) by (simp add: list_all_iff)
  moreover have "map ph_evidence_id ?ps = map ph_evidence_id (ed_attachments doc)" using purge_photo_simps(1) by simp
  then have "distinct (map ph_evidence_id ?ps)" using d(6) by (rule ssubst)
  moreover have "accepted_ok digest collate doc1"
  proof (cases "ed_assessment doc = ACCEPTED")
    case True
    then have idle: "list_all (\<lambda>p. ph_technical_status p \<noteq> PROCESSING) (ed_attachments doc)" using d(3) by (simp add: accepted_ok_def)
    then have "list_all (\<lambda>p. ph_technical_status p \<noteq> PROCESSING) ?ps" using purge_photo_simps(4) by (simp add: list_all_iff)
    moreover have "ready_photos ?ps = ready_photos (ed_attachments doc)" if "\<not> ex" using purge_ready [OF idle] that by simp
    then have "\<not> ex \<Longrightarrow> manifest_hash digest collate ?ps = manifest_hash digest collate (ed_attachments doc)" "\<not> ex \<Longrightarrow> ready_photos ?ps = ready_photos (ed_attachments doc)"
      by (simp_all add: manifest_hash_def)
    ultimately show ?thesis using d(3) True by (simp add: accepted_ok_def doc1_def)
  qed (simp add: accepted_ok_def doc1_def)
  ultimately have ok: "document_ok digest collate doc1" using d by (simp add: document_ok_def doc1_def)
  moreover have "document_ok digest collate (doc1\<lparr> ed_revision := ed_revision doc + 1 \<rparr>)"
    using document_okD [OF ok] d(4) by (simp add: document_ok_def accepted_ok_def)
  ultimately show ?thesis by (simp add: purge_document_def Let_def flip: doc1_def)
qed

end
