(* ===== verification/Evidence_Life.thy ===== *)
theory Evidence_Life
  imports Refund_Evidence
begin

text \<open>
  Human operations as one system: cases and evidence over the same tables. Every operation of either
  repository keeps the invariant of the tables; a document changes only by the steps of
  \<^verbatim>\<open>doc_step\<close>; and accepted evidence stays as it was accepted until its case has been closed and
  its photos are retired.
\<close>

section \<open>The life of a document\<close>

inductive doc_step :: "(string \<Rightarrow> string) \<Rightarrow> (string \<Rightarrow> int) \<Rightarrow> EvidenceDocument \<Rightarrow> EvidenceDocument \<Rightarrow> bool"
  for digest :: "string \<Rightarrow> string" and collate :: "string \<Rightarrow> int" where
  uploaded: "ed_assessment d \<noteq> ACCEPTED \<Longrightarrow> \<not> upload_limit d (bu_byteSize i) \<Longrightarrow> 0 \<le> bu_byteSize i \<Longrightarrow> evidenceId \<notin> ph_evidence_id ` set (ed_attachments d)
    \<Longrightarrow> doc_step digest collate d (add_photo (new_photo evidenceId now i) d)"
| finished: "List.find (\<lambda>p. ph_evidence_id p = i) (ed_attachments (er_document r)) = Some x \<Longrightarrow> ph_technical_status x = PROCESSING \<Longrightarrow> 0 \<le> result_bytes result
    \<Longrightarrow> doc_step digest collate (er_document r) (finish_document i (upload_result r i result) (er_document r))"
| reviewed: "canReviewEvidence access r \<Longrightarrow> length (ed_reviewKeys (er_document r)) < 100
    \<Longrightarrow> doc_step digest collate (er_document r) (review_document digest collate aid key fp c (er_document r))"
| transitioned: "doc_step digest collate d (d\<lparr> ed_transitionKeys := ks \<rparr>)"
| recovered: "list_ex (stale_photo cutoff) (ed_attachments d) \<Longrightarrow> doc_step digest collate d (recover_document cutoff d)"
| purged: "doc_step digest collate d (purge_document now ex d)"

lemma doc_step_ok: "doc_step digest collate d d' \<Longrightarrow> document_ok digest collate d \<Longrightarrow> document_ok digest collate d'"
  by (induction rule: doc_step.induct)
    (simp_all add: add_photo_ok finish_document_ok review_document_ok transition_document_ok recover_document_ok purge_document_ok)

definition frozen :: "EvidenceDocument \<Rightarrow> EvidenceDocument \<Rightarrow> bool" where
  "frozen d d' \<longleftrightarrow> ed_assessment d' = ACCEPTED \<and> ed_manifestHash d' = ed_manifestHash d \<and> ed_assessmentId d' = ed_assessmentId d
     \<and> ed_revision d' = ed_revision d \<and> ready_photos (ed_attachments d') = ready_photos (ed_attachments d) \<and> \<not> ed_retired d'"

lemma doc_step_frozen:
  assumes "doc_step digest collate d d'" and "document_ok digest collate d" and "ed_assessment d = ACCEPTED" and "\<not> ed_retired d'"
  shows "frozen d d'"
  using assms
proof (induction rule: doc_step.induct)
  case (finished i r x result)
  then show ?case using find_in_set [OF finished(1)] document_okD(3) by (auto simp: accepted_ok_def list_all_iff)
next
  case (recovered cutoff d)
  then show ?case using document_okD(3) by (auto simp: accepted_ok_def list_all_iff list_ex_iff stale_photo_def)
next
  case (purged d now ex)
  then have idle: "list_all (\<lambda>p. ph_technical_status p \<noteq> PROCESSING) (ed_attachments d)"
    using document_okD(3) [OF purged(1)] by (simp add: accepted_ok_def)
  have "ed_retired (purge_document now ex d) = (ed_retired d \<or> ex)" by (simp add: purge_document_def Let_def)
  with purged(3) have "\<not> ex" "\<not> ed_retired d" by simp_all
  with purged purge_ready [OF idle, of now] show ?case by (simp add: purge_document_def frozen_def Let_def)
qed (simp_all add: canReviewEvidence_def frozen_def)

lemma doc_step_retired: "doc_step digest collate d d' \<Longrightarrow> ed_retired d \<Longrightarrow> ed_retired d'"
  by (induction rule: doc_step.induct)
    (simp_all add: add_photo_def finish_document_def review_document_def recover_document_def purge_document_def Let_def)

lemma doc_steps_frozen:
  assumes "(doc_step digest collate)\<^sup>*\<^sup>* d d'" and "document_ok digest collate d" and "ed_assessment d = ACCEPTED" and "\<not> ed_retired d'"
  shows "document_ok digest collate d' \<and> frozen d d'"
  using assms
proof (induction rule: rtranclp_induct)
  case (step d1 d2)
  from doc_step_retired [OF step(2)] step(6) have "\<not> ed_retired d1" by blast
  with step have "document_ok digest collate d1 \<and> frozen d d1" by blast
  with doc_step_ok [OF step(2)] doc_step_frozen [OF step(2) _ _ step(6)] show ?case by (simp add: frozen_def)
qed (simp add: frozen_def)

lemma doc_steps_ok: "(doc_step digest collate)\<^sup>*\<^sup>* d d' \<Longrightarrow> document_ok digest collate d \<Longrightarrow> document_ok digest collate d'"
  by (induction rule: rtranclp_induct) (simp_all add: doc_step_ok)

section \<open>The invariant of the tables\<close>

definition row_ok :: "(string \<Rightarrow> string) \<Rightarrow> (string \<Rightarrow> int) \<Rightarrow> EvidenceDb \<Rightarrow> EvidenceRow \<Rightarrow> bool" where
  "row_ok digest collate db e \<longleftrightarrow> document_ok digest collate (ew_document e)
     \<and> (\<exists>c. sp_cases (pg_view db) (ew_scope e, ew_case_id e) = Some c \<and> hc_workflowId c = ew_workflow_id e)"

definition tables_ok :: "(string \<Rightarrow> string) \<Rightarrow> (string \<Rightarrow> int) \<Rightarrow> EvidenceDb \<Rightarrow> bool" where
  "tables_ok digest collate db \<longleftrightarrow> pg_cases_ok db \<and> spec_ok (pg_view db) \<and> distinct (map evidence_key (hd_evidence db))
     \<and> (\<forall>e \<in> set (hd_evidence db). row_ok digest collate db e)"

definition same_row :: "EvidenceRow \<Rightarrow> EvidenceRow \<Rightarrow> bool" where
  "same_row e e' \<longleftrightarrow> (\<exists>d. e' = e\<lparr> ew_document := d \<rparr>)"

text \<open>Every row of the evidence table is still there, for the same case and proposal, and its document has moved on by steps.\<close>

definition evolves :: "(string \<Rightarrow> string) \<Rightarrow> (string \<Rightarrow> int) \<Rightarrow> EvidenceDb \<Rightarrow> EvidenceDb \<Rightarrow> bool" where
  "evolves digest collate db db' \<longleftrightarrow> (\<forall>e \<in> set (hd_evidence db). \<exists>e' \<in> set (hd_evidence db'). same_row e e'
     \<and> (doc_step digest collate)\<^sup>*\<^sup>* (ew_document e) (ew_document e'))"

lemma same_row_refl: "same_row e e"
  unfolding same_row_def by (rule exI [of _ "ew_document e"]) simp

lemma same_row_trans: "same_row a b \<Longrightarrow> same_row b c \<Longrightarrow> same_row a c"
  by (auto simp: same_row_def)

lemma same_row_key: "same_row e e' \<Longrightarrow> evidence_key e' = evidence_key e \<and> ew_case_id e' = ew_case_id e \<and> ew_scope e' = ew_scope e \<and> ew_workflow_id e' = ew_workflow_id e"
  by (auto simp: same_row_def evidence_key_def)

lemma evolves_refl: "evolves digest collate db db"
  unfolding evolves_def using same_row_refl by blast

lemma evolves_eq: "hd_evidence db' = hd_evidence db \<Longrightarrow> evolves digest collate db db'"
  using evolves_refl unfolding evolves_def by metis

lemma evolves_trans: "evolves digest collate a b \<Longrightarrow> evolves digest collate b c \<Longrightarrow> evolves digest collate a c"
  unfolding evolves_def by (meson rtranclp_trans same_row_trans)

section \<open>Loading and saving\<close>

lemma joined_caseD:
  assumes "joined_case db e = Some row"
  shows "row \<in> set (hd_cases db)" "case_key row = (ew_scope e, ew_case_id e)" "sp_cases (pg_view db) (ew_scope e, ew_case_id e) = Some (toHumanCase row)"
  using assms find_in_set by (fastforce simp: joined_case_def pg_view_def)+

lemma ev_load_Inr:
  assumes "ev_load db esc w = Inr r"
  obtains e row where "e \<in> set (hd_evidence db)" "evidence_key e = (es_key esc, w)" "joined_case db e = Some row" "r = evidence_record e row"
    "es_subjectCustomerId esc \<in> {None, Some (ew_subject_customer_id e)}"
proof -
  from assms obtain e where e: "select_evidence db (es_key esc) w = Some e" "r = evidence_record e (the (joined_case db e))"
      "es_subjectCustomerId esc \<in> {None, Some (ew_subject_customer_id e)}"
    by (auto simp: ev_load_def split: option.split_asm if_split_asm)
  from find_in_set [OF e(1) [unfolded select_evidence_def]] obtain row where "e \<in> set (hd_evidence db)" "evidence_key e = (es_key esc, w)" "joined_case db e = Some row" by auto
  with e show thesis by (intro that) simp_all
qed

lemma evidence_record_simps [simp]: "er_document (evidence_record e row) = ew_document e" "er_case (evidence_record e row) = toHumanCase row"
  by (simp_all add: evidence_record_def)

lemma toHumanCase_touch: "case_key (touch_case now row) = case_key row" "cr_workflow_id (touch_case now row) = cr_workflow_id row"
  "decision_ok ev (toHumanCase (touch_case now row)) = decision_ok ev (toHumanCase row)" "case_ok k (toHumanCase row) \<Longrightarrow> case_ok k (toHumanCase (touch_case now row))"
  by (simp_all add: touch_case_def case_key_def row_scope_def decision_ok_def case_ok_def key_of_def toHumanCase_def)

lemma ev_audit_Inr:
  assumes "ev_audit uuid row t a actor details now db = Inr db'"
  shows "pg_view db' = pg_view db" and "pg_cases_ok db' = pg_cases_ok db" and "hd_evidence db' = hd_evidence db"
proof -
  from assms have a: "appendAudit uuid row t a actor details now db = Inr db'" by (auto simp: ev_audit_def split: sum.split_asm)
  from appendAudit_Inr [OF this] show "pg_view db' = pg_view db" "pg_cases_ok db' = pg_cases_ok db" by simp_all
  from a show "hd_evidence db' = hd_evidence db" by (auto simp: appendAudit_def Let_def split: if_split_asm)
qed

lemma pg_view_evidence [simp]: "pg_view (db\<lparr> hd_evidence := es \<rparr>) = pg_view db" "pg_cases_ok (db\<lparr> hd_evidence := es \<rparr>) = pg_cases_ok db"
  by (simp_all add: pg_view_def pg_cases_ok_def)

text \<open>A case that is replaced by a version of itself, with a document that is well formed.\<close>

lemma replaced_ok:
  assumes "tables_ok digest collate db" and "row \<in> set (hd_cases db)" and "case_key row' = case_key row" and "cr_workflow_id row' = cr_workflow_id row"
    and "case_ok (case_key row) (toHumanCase row')" and "\<And>ev. decision_ok ev (toHumanCase row) \<Longrightarrow> decision_ok ev (toHumanCase row')"
    and "document_ok digest collate doc" and "pg_view db' = pg_view (replace_case row' db)" and "pg_cases_ok db' = pg_cases_ok (replace_case row' db)"
    and "hd_evidence db' = map (put_document sc w doc) (hd_evidence db)"
  shows "tables_ok digest collate db'"
proof -
  have ok: "pg_cases_ok db" "spec_ok (pg_view db)" "distinct (map evidence_key (hd_evidence db))" "\<forall>e \<in> set (hd_evidence db). row_ok digest collate db e"
    using assms(1) by (simp_all add: tables_ok_def)
  have find: "List.find (\<lambda>r. case_key r = case_key row) (hd_cases db) = Some row"
    using ok(1) assms(2) by (intro find_key_distinct) (simp_all add: pg_cases_ok_def)
  then have cur: "sp_cases (pg_view db) (key_of (toHumanCase row)) = Some (toHumanCase row)" by (simp add: pg_view_def)
  have v: "pg_view db' = put_case (toHumanCase row') (pg_view db)" using pg_view_replace [OF assms(2,3)] assms(8) by simp
  have "spec_ok (pg_view db')" unfolding v using assms(3-6) by (intro spec_ok_update [OF ok(2) cur]) simp_all
  moreover have "pg_cases_ok db'" using pg_ok_replace [OF ok(1) assms(2-4)] assms(9) by simp
  moreover have key: "evidence_key (put_document sc w doc e) = evidence_key e" for e by (simp add: put_document_def evidence_key_def)
  then have "map evidence_key (hd_evidence db') = map evidence_key (hd_evidence db)" by (simp add: assms(10))
  then have "distinct (map evidence_key (hd_evidence db'))" using ok(3) by (rule ssubst)
  moreover have "row_ok digest collate db' (put_document sc w doc e)" if "e \<in> set (hd_evidence db)" for e
  proof -
    from ok(4) that obtain c where c: "sp_cases (pg_view db) (ew_scope e, ew_case_id e) = Some c" "hc_workflowId c = ew_workflow_id e"
        and d: "document_ok digest collate (ew_document e)" unfolding row_ok_def by blast
    have "\<exists>c'. sp_cases (pg_view db') (ew_scope e, ew_case_id e) = Some c' \<and> hc_workflowId c' = ew_workflow_id e"
      using c cur assms(3,4) by (auto simp: v put_case_def)
    with d assms(7) show ?thesis by (simp add: row_ok_def put_document_def)
  qed
  then have "\<forall>e \<in> set (hd_evidence db'). row_ok digest collate db' e" by (auto simp: assms(10))
  ultimately show ?thesis by (simp add: tables_ok_def)
qed

lemma ev_save_Inr:
  assumes "ev_save db now uuid sc r t a actor details = Inr (db', r')"
  obtains row where "row \<in> set (hd_cases db)" "case_key row = (sc, hc_caseId (er_case r))" "r' = r\<lparr> er_case := toHumanCase (touch_case now row) \<rparr>"
    "pg_view db' = pg_view (replace_case (touch_case now row) db)" "pg_cases_ok db' = pg_cases_ok (replace_case (touch_case now row) db)"
    "hd_evidence db' = map (put_document sc (hc_workflowId (er_case r)) (er_document r)) (hd_evidence db)"
proof -
  from assms obtain row where row: "List.find (\<lambda>row. case_key row = (sc, hc_caseId (er_case r))) (hd_cases db) = Some row"
    by (auto simp: ev_save_def split: option.split_asm)
  let ?db1 = "db\<lparr> hd_evidence := map (put_document sc (hc_workflowId (er_case r)) (er_document r)) (hd_evidence db) \<rparr>"
  from assms row have a: "ev_audit uuid (touch_case now row) t a actor details now (replace_case (touch_case now row) ?db1) = Inr db'"
      and r': "r' = r\<lparr> er_case := toHumanCase (touch_case now row) \<rparr>"
    by (auto simp: ev_save_def Let_def)
  have s: "replace_case x ?db1 = (replace_case x db)\<lparr> hd_evidence := map (put_document sc (hc_workflowId (er_case r)) (er_document r)) (hd_evidence db) \<rparr>" for x
    by (simp add: replace_case_def)
  from find_in_set [OF row] r' ev_audit_Inr [OF a] show thesis by (intro that) (simp_all add: s)
qed

lemma saved_ok:
  assumes "tables_ok digest collate db" and "document_ok digest collate (er_document r)" and "ev_save db now uuid sc r t a actor details = Inr (db', r')"
  shows "tables_ok digest collate db'"
proof -
  obtain row where row: "row \<in> set (hd_cases db)" "pg_view db' = pg_view (replace_case (touch_case now row) db)"
      "pg_cases_ok db' = pg_cases_ok (replace_case (touch_case now row) db)"
      "hd_evidence db' = map (put_document sc (hc_workflowId (er_case r)) (er_document r)) (hd_evidence db)"
    using ev_save_Inr [OF assms(3)] by metis
  have "case_ok (case_key row) (toHumanCase row)"
  proof -
    have "List.find (\<lambda>r. case_key r = case_key row) (hd_cases db) = Some row"
      using assms(1) row(1) by (intro find_key_distinct) (simp_all add: pg_cases_ok_def tables_ok_def)
    then have "sp_cases (pg_view db) (case_key row) = Some (toHumanCase row)" by (simp add: pg_view_def)
    then show ?thesis using assms(1) spec_ok_case unfolding tables_ok_def by blast
  qed
  then show ?thesis
    using replaced_ok [OF assms(1) row(1) toHumanCase_touch(1,2) _ _ assms(2) row(2,3,4)] toHumanCase_touch(3,4) by blast
qed

lemma saved_evolves:
  assumes "tables_ok digest collate db" and "e \<in> set (hd_evidence db)" and "evidence_key e = (sc, hc_workflowId (er_case r))"
    and "(doc_step digest collate)\<^sup>*\<^sup>* (ew_document e) (er_document r)" and "ev_save db now uuid sc r t a actor details = Inr (db', r')"
  shows "tables_ok digest collate db' \<and> evolves digest collate db db'"
proof -
  have d: "document_ok digest collate (er_document r)"
    using assms(1,2) doc_steps_ok [OF assms(4)] by (auto simp: tables_ok_def row_ok_def)
  have es: "hd_evidence db' = map (put_document sc (hc_workflowId (er_case r)) (er_document r)) (hd_evidence db)"
    using ev_save_Inr [OF assms(5)] by metis
  have "same_row x (put_document sc (hc_workflowId (er_case r)) (er_document r) x)
      \<and> (doc_step digest collate)\<^sup>*\<^sup>* (ew_document x) (ew_document (put_document sc (hc_workflowId (er_case r)) (er_document r) x))" if "x \<in> set (hd_evidence db)" for x
  proof (cases "evidence_key x = evidence_key e")
    case True
    then have "x = e" using assms(1,2) that by (auto simp: tables_ok_def distinct_map inj_on_def)
    with assms(3,4) show ?thesis by (auto simp: put_document_def same_row_def)
  next
    case False
    with assms(3) show ?thesis by (simp add: put_document_def same_row_refl)
  qed
  with saved_ok [OF assms(1) d assms(5)] show ?thesis unfolding evolves_def es by auto
qed

section \<open>Every operation keeps the invariant\<close>

definition keeps :: "(string \<Rightarrow> string) \<Rightarrow> (string \<Rightarrow> int) \<Rightarrow> EvidenceDb \<Rightarrow> EvidenceDb \<Rightarrow> bool" where
  "keeps digest collate db db' \<longleftrightarrow> tables_ok digest collate db' \<and> evolves digest collate db db'"

lemma keeps_refl: "tables_ok digest collate db \<Longrightarrow> keeps digest collate db db"
  by (simp add: keeps_def evolves_refl)

lemma row_okD:
  assumes "tables_ok digest collate db" and "e \<in> set (hd_evidence db)"
  shows "document_ok digest collate (ew_document e)"
    and "joined_case db e = Some row \<Longrightarrow> cr_workflow_id row = ew_workflow_id e"
    and "\<exists>row. joined_case db e = Some row"
proof -
  have r: "row_ok digest collate db e" using assms by (simp add: tables_ok_def)
  then show "document_ok digest collate (ew_document e)" by (simp add: row_ok_def)
  show "joined_case db e = Some row \<Longrightarrow> cr_workflow_id row = ew_workflow_id e"
    using r joined_caseD(3) by (fastforce simp: row_ok_def)
  from r show "\<exists>row. joined_case db e = Some row" by (auto simp: row_ok_def joined_case_def pg_view_def)
qed

lemma loaded:
  assumes "tables_ok digest collate db" and "ev_load db esc w = Inr r"
  obtains e where "e \<in> set (hd_evidence db)" "evidence_key e = (es_key esc, hc_workflowId (er_case r))" "ew_document e = er_document r"
    "document_ok digest collate (er_document r)" "w = hc_workflowId (er_case r)"
proof -
  from ev_load_Inr [OF assms(2)] obtain e row where e: "e \<in> set (hd_evidence db)" "evidence_key e = (es_key esc, w)" "joined_case db e = Some row" "r = evidence_record e row"
    by metis
  with row_okD [OF assms(1) e(1)] have "cr_workflow_id row = w" "document_ok digest collate (ew_document e)" by (simp_all add: evidence_key_def)
  with e show thesis by (intro that [of e]) simp_all
qed

text \<open>Loading, one step of the document, saving.\<close>

lemma load_save:
  assumes "tables_ok digest collate db" and "ev_load db esc w = Inr r" and "(doc_step digest collate)\<^sup>*\<^sup>* (er_document r) doc"
    and "ev_save db now uuid (es_key esc) (r\<lparr> er_document := doc \<rparr>) t a actor details = Inr (db', r')"
  shows "keeps digest collate db db'"
proof -
  from loaded [OF assms(1,2)] obtain e where e: "e \<in> set (hd_evidence db)" "evidence_key e = (es_key esc, hc_workflowId (er_case r))" "ew_document e = er_document r"
    by metis
  with assms(3) show ?thesis
    unfolding keeps_def by (intro saved_evolves [OF assms(1) e(1) _ _ assms(4)]) simp_all
qed

definition new_evidence_id :: "EvidenceDb \<Rightarrow> string \<Rightarrow> bool" where
  "new_evidence_id db x \<longleftrightarrow> (\<forall>e \<in> set (hd_evidence db). x \<notin> ph_evidence_id ` set (ed_attachments (ew_document e)))"

lemma bindF_InrE: "bindF r f = Inr b \<Longrightarrow> (\<And>a. r = Inr a \<Longrightarrow> f a = Inr b \<Longrightarrow> thesis) \<Longrightarrow> thesis"
  by auto

lemma begin_keeps:
  assumes "tables_ok digest collate db" and "ev_beginUpload db now ids esc w i = Inr (db', r', photo, created)" and "0 \<le> bu_byteSize i" and "new_evidence_id db (ids 0)"
  shows "keeps digest collate db db'"
proof -
  obtain r where r: "ev_load db esc w = Inr r" using assms(2) by (auto simp: ev_beginUpload_def)
  show ?thesis
  proof (cases "List.find (\<lambda>p. ph_uploadKey p = bu_idempotencyKey i) (ed_attachments (er_document r))")
    case (Some p)
    with assms r show ?thesis by (auto simp: ev_beginUpload_def keeps_refl split: if_split_asm)
  next
    case None
    from loaded [OF assms(1) r] obtain e where "e \<in> set (hd_evidence db)" "ew_document e = er_document r" by metis
    with assms(4) have fresh: "ids 0 \<notin> ph_evidence_id ` set (ed_attachments (er_document r))" unfolding new_evidence_id_def by metis
    let ?doc = "add_photo (new_photo (ids 0) now i) (er_document r)"
    from None assms(2) r have c: "ed_assessment (er_document r) \<noteq> ACCEPTED" "\<not> upload_limit (er_document r) (bu_byteSize i)"
      by (auto simp: ev_beginUpload_def Let_def split: if_split_asm)
    from None assms(2) r have s: "\<exists>details r'. ev_save db now (ids 1) (es_key esc) (r\<lparr> er_document := ?doc \<rparr>) EVIDENCE_UPLOAD_RESERVED BY_CUSTOMER (er_customerId r) details = Inr (db', r')"
      by (auto simp: ev_beginUpload_def Let_def split: if_split_asm)
    have "doc_step digest collate (er_document r) ?doc" using c assms(3) fresh by (intro doc_step.uploaded)
    with s load_save [OF assms(1) r] show ?thesis by (metis r_into_rtranclp)
  qed
qed

lemma finish_keeps:
  assumes "tables_ok digest collate db" and "ev_finishUpload db now ids esc w evidenceId result = Inr (db', snap)" and "0 \<le> result_bytes result"
  shows "keeps digest collate db db'"
proof -
  obtain r where r: "ev_load db esc w = Inr r" using assms(2) by (auto simp: ev_finishUpload_def)
  obtain p where p: "List.find (\<lambda>p. ph_evidence_id p = evidenceId) (ed_attachments (er_document r)) = Some p"
    using assms(2) r by (auto simp: ev_finishUpload_def split: option.split_asm)
  show ?thesis
  proof (cases "ph_technical_status p = PROCESSING")
    case False
    with assms r p show ?thesis by (auto simp: ev_finishUpload_def keeps_refl)
  next
    case True
    let ?doc = "finish_document evidenceId (upload_result r evidenceId result) (er_document r)"
    from True p assms(2) r have s: "\<exists>details r'. ev_save db now (ids 0) (es_key esc) (r\<lparr> er_document := ?doc \<rparr>) EVIDENCE_VALIDATED BY_WORKFLOW w details = Inr (db', r')"
      by (auto simp: ev_finishUpload_def Let_def)
    have "doc_step digest collate (er_document r) ?doc" using p True assms(3) by (intro doc_step.finished)
    with s load_save [OF assms(1) r] show ?thesis by (metis r_into_rtranclp)
  qed
qed

lemma review_keeps:
  assumes "tables_ok digest collate db" and "ev_review digest collate db now ids esc w access c key = Inr (db', snap)"
  shows "keeps digest collate db db'"
proof -
  obtain r where r: "ev_load db esc w = Inr r" using assms(2) by (auto simp: ev_review_def)
  show ?thesis
  proof (cases "stored_key (ed_reviewKeys (er_document r)) key")
    case Absent
    define fp where "fp = review_fingerprint digest (ha_staffId access) c"
    let ?doc = "review_document digest collate (ids 0) key fp c (er_document r)"
    from Absent assms(2) r have g: "canReviewEvidence access r" "length (ed_reviewKeys (er_document r)) < 100"
      by (auto simp: ev_review_def Let_def split: if_split_asm)
    from Absent assms(2) r have s: "\<exists>details r'. ev_save db now (ids 1) (es_key esc) (r\<lparr> er_document := ?doc \<rparr>) EVIDENCE_REVIEWED BY_HUMAN (ha_staffId access) details = Inr (db', r')"
      by (auto simp: ev_review_def Let_def fp_def split: if_split_asm)
    have "doc_step digest collate (er_document r) ?doc" using g by (intro doc_step.reviewed)
    with s load_save [OF assms(1) r] show ?thesis by (metis r_into_rtranclp)
  qed (use assms r in \<open>auto simp: ev_review_def keeps_refl split: if_split_asm\<close>)
qed

lemma replace_found:
  assumes "distinct (map f xs)" and "row \<in> set xs"
  shows "map (\<lambda>x. if f x = f row then g x else x) xs = map (\<lambda>x. if f x = f row then g row else x) xs"
  using assms by (auto simp: distinct_map inj_on_def)

lemma phase_case_simps: "case_key (phase_case i row) = case_key row" "cr_workflow_id (phase_case i row) = cr_workflow_id row"
  "case_ok k (toHumanCase row) \<Longrightarrow> case_ok k (toHumanCase (phase_case i row))"
  by (simp_all add: phase_case_def case_key_def row_scope_def case_ok_def key_of_def toHumanCase_def)

lemma put_document_same: "distinct (map evidence_key es) \<Longrightarrow> e \<in> set es \<Longrightarrow> evidence_key e = (sc, w) \<Longrightarrow> map (put_document sc w (ew_document e)) es = es"
proof (intro map_idI)
  fix x assume "distinct (map evidence_key es)" "e \<in> set es" "evidence_key e = (sc, w)" "x \<in> set es"
  then have "evidence_key x = (sc, w) \<Longrightarrow> x = e" by (auto simp: distinct_map inj_on_def)
  then show "put_document sc w (ew_document e) x = x" by (auto simp: put_document_def)
qed

lemma transition_keeps:
  assumes "tables_ok digest collate db" and "ev_transition digest db now ids esc w i = Inr (db', snap)"
  shows "keeps digest collate db db'"
proof -
  obtain r where r: "ev_load db esc w = Inr r" using assms(2) by (auto simp: ev_transition_def)
  show ?thesis
  proof (cases "stored_key (ed_transitionKeys (er_document r)) (tr_key i)")
    case Absent
    define fp where "fp = transition_fingerprint digest i"
    let ?doc = "(er_document r)\<lparr> ed_transitionKeys := map_set (tr_key i) fp (ed_transitionKeys (er_document r)) \<rparr>"
    from Absent assms(2) r have none: "transition_refusal r i = None" by (auto simp: ev_transition_def Let_def split: option.split_asm)
    from ev_load_Inr [OF r] obtain e row where e: "e \<in> set (hd_evidence db)" "evidence_key e = (es_key esc, w)" "joined_case db e = Some row" "r = evidence_record e row"
      by metis
    note row = joined_caseD [OF e(3)] and okD = row_okD [OF assms(1) e(1)]
    define db1 where "db1 = db\<lparr> hd_cases := map (\<lambda>x. if case_key x = (es_key esc, hc_caseId (er_case r)) then phase_case i x else x) (hd_cases db) \<rparr>"
    have cid: "(es_key esc, hc_caseId (er_case r)) = case_key row" using e(2,4) row(2) by (simp add: evidence_key_def case_key_def)
    have d1: "distinct (map case_key (hd_cases db))" "distinct (map evidence_key (hd_evidence db))" using assms(1) by (simp_all add: tables_ok_def pg_cases_ok_def)
    have db1: "db1 = replace_case (phase_case i row) db"
      unfolding db1_def cid using replace_found [OF d1(1) row(1), of "phase_case i"] by (simp add: replace_case_def phase_case_simps(1))
    from Absent none assms(2) r have s: "\<exists>details r'. ev_save db1 now (ids 0) (es_key esc) (r\<lparr> er_document := ?doc \<rparr>) CASE_PHASE_CHANGED BY_WORKFLOW w details = Inr (db', r')"
      by (auto simp: ev_transition_def Let_def fp_def db1_def)
    have cok: "case_ok (case_key row) (toHumanCase row)"
      using row(2,3) assms(1) spec_ok_case unfolding tables_ok_def by metis
    have nodec: "\<not> decision_ok ev (toHumanCase row)" for ev
      using none e(4) by (auto simp: transition_refusal_def Let_def decision_ok_def allowedActionsForCaseType_def split: if_split_asm)
    have ev1: "hd_evidence db1 = hd_evidence db" by (simp add: db1_def)
    have "hd_evidence db1 = map (put_document (es_key esc) w (ew_document e)) (hd_evidence db)"
      using put_document_same [OF d1(2) e(1,2)] ev1 by simp
    then have ok1: "tables_ok digest collate db1"
      using replaced_ok [OF assms(1) row(1) phase_case_simps(1) [of i] phase_case_simps(2) [of i] phase_case_simps(3) [OF cok, of i] _ okD(1), where sc = "es_key esc" and w = w and db' = db1] nodec by (simp add: db1)
    have key: "evidence_key e = (es_key esc, hc_workflowId (er_case (r\<lparr> er_document := ?doc \<rparr>)))" using e(2,3,4) okD(2) by (simp add: evidence_key_def)
    have st: "(doc_step digest collate)\<^sup>*\<^sup>* (ew_document e) (er_document (r\<lparr> er_document := ?doc \<rparr>))"
      using doc_step.transitioned [of digest collate "er_document r"] e(4) by (simp add: r_into_rtranclp)
    from s obtain details r' where "ev_save db1 now (ids 0) (es_key esc) (r\<lparr> er_document := ?doc \<rparr>) CASE_PHASE_CHANGED BY_WORKFLOW w details = Inr (db', r')" by blast
    from saved_evolves [OF ok1 _ key st this] e(1) ev1 have "tables_ok digest collate db' \<and> evolves digest collate db1 db'" by simp
    with ev1 show ?thesis unfolding keeps_def evolves_def by simp
  qed (use assms r in \<open>auto simp: ev_transition_def keeps_refl split: if_split_asm\<close>)
qed

text \<open>A case that is new, with its evidence.\<close>

lemma ensure_keeps:
  assumes "tables_ok digest collate db" and "ev_ensure digest db now ids i = Inr (db', snap)"
  shows "keeps digest collate db db'"
proof (cases "select_evidence db (es_key (en_scope i)) (en_workflowId i)")
  case (Some e)
  with assms show ?thesis by (auto simp: ev_ensure_def Let_def keeps_refl split: if_split_asm)
next
  case None
  let ?sc = "es_key (en_scope i)" and ?id = "''case-'' @ ids 0"
  define row where "row = opened_row ?id now ?sc (evidence_case i)"
  define e where "e = new_evidence digest ?id i"
  define db1 where "db1 = db\<lparr> hd_cases := hd_cases db @ [row], hd_evidence := hd_evidence db @ [e] \<rparr>"
  have ok: "pg_cases_ok db" "spec_ok (pg_view db)" "distinct (map evidence_key (hd_evidence db))" "\<forall>e \<in> set (hd_evidence db). row_ok digest collate db e"
    using assms(1) by (simp_all add: tables_ok_def)
  from None assms(2) have g: "(?sc, en_workflowId i) \<notin> (\<lambda>c. (row_scope c, cr_workflow_id c)) ` set (hd_cases db)" "(?sc, ?id) \<notin> case_key ` set (hd_cases db)"
      "evidence_key e \<notin> evidence_key ` set (hd_evidence db)"
    by (auto simp: ev_ensure_def Let_def e_def split: if_split_asm)
  from None assms(2) g obtain details where a: "ev_audit (ids 1) row CASE_OPENED BY_WORKFLOW (en_workflowId i) details now db1 = Inr db'"
    by (auto simp: ev_ensure_def Let_def db1_def row_def e_def)
  have k: "case_key row = (?sc, ?id)" "row_scope row = ?sc" "cr_workflow_id row = en_workflowId i"
    by (simp_all add: row_def opened_row_def case_key_def row_scope_def evidence_case_def)
  have e: "ew_scope e = ?sc" "ew_case_id e = ?id" "ew_workflow_id e = en_workflowId i" "document_ok digest collate (ew_document e)"
    by (simp_all add: e_def new_evidence_def new_document_ok)
  have v: "pg_view db1 = put_case (toHumanCase row) (pg_view db)"
  proof -
    have "pg_view db1 = pg_view (db\<lparr> hd_cases := hd_cases db @ [row] \<rparr>)" by (simp add: db1_def pg_view_def)
    with pg_view_append [of row db] g(2) k(1) show ?thesis by simp
  qed
  have other: "k \<noteq> key_of (toHumanCase row) \<and> (fst k, hc_workflowId x) \<noteq> (fst (key_of (toHumanCase row)), hc_workflowId (toHumanCase row))"
    if "sp_cases (pg_view db) k = Some x" for k x
  proof -
    from pg_view_Some [OF that] obtain r where r: "r \<in> set (hd_cases db)" "case_key r = k" "x = toHumanCase r" by blast
    from imageI [OF r(1), of case_key] imageI [OF r(1), of "\<lambda>c. (row_scope c, cr_workflow_id c)"] g(1,2)
    have "case_key r \<noteq> (?sc, ?id)" "(row_scope r, cr_workflow_id r) \<noteq> (?sc, en_workflowId i)" by metis+
    with r(2,3) k show ?thesis by (auto simp: case_key_def)
  qed
  have "case_spec (pg_view db) (pg_view db1)"
    unfolding v by (rule case_spec.opened) (use other in \<open>blast\<close>, simp_all add: row_def opened_row_def toHumanCase_def)
  with ok(2) have "spec_ok (pg_view db1)" using case_spec_ok by blast
  moreover have "pg_cases_ok db1" using ok(1) g(1,2) k by (simp add: pg_cases_ok_def db1_def)
  moreover have "distinct (map evidence_key (hd_evidence db1))" using ok(3) g(3) by (simp add: db1_def)
  moreover have "row_ok digest collate db1 x" if "x \<in> set (hd_evidence db)" for x
  proof -
    from ok(4) that obtain c where c: "sp_cases (pg_view db) (ew_scope x, ew_case_id x) = Some c" "hc_workflowId c = ew_workflow_id x" "document_ok digest collate (ew_document x)"
      unfolding row_ok_def by blast
    with other [OF c(1)] show ?thesis by (simp add: row_ok_def v put_case_def)
  qed
  moreover have "row_ok digest collate db1 e" using e k by (simp add: row_ok_def v put_case_def)
  ultimately have "tables_ok digest collate db1" by (auto simp: tables_ok_def db1_def)
  then have "tables_ok digest collate db'" using ev_audit_Inr [OF a] by (simp add: tables_ok_def row_ok_def)
  moreover have "evolves digest collate db db'" using same_row_refl ev_audit_Inr(3) [OF a] by (auto simp: evolves_def db1_def)
  ultimately show ?thesis by (simp add: keeps_def)
qed

text \<open>The two batches: a row of the batch is still in the table as it was selected when its turn comes.\<close>

definition pending_rows :: "EvidenceDb \<Rightarrow> scope_key \<Rightarrow> (EvidenceRow \<times> CaseRow) list \<Rightarrow> bool" where
  "pending_rows db sc rows \<longleftrightarrow> distinct (map (evidence_key \<circ> fst) rows) \<and> (\<forall>(e, row) \<in> set rows. e \<in> set (hd_evidence db) \<and> ew_scope e = sc
     \<and> case_key row = (ew_scope e, ew_case_id e) \<and> cr_workflow_id row = ew_workflow_id e)"

lemma batch_pending:
  assumes "tables_ok digest collate db"
  shows "pending_rows db sc (batch p db sc)"
proof -
  let ?rows = "joined_rows db sc"
  have m: "map (evidence_key \<circ> fst) ?rows = map evidence_key (filter (\<lambda>e. ew_scope e = sc \<and> joined_case db e \<noteq> None) (hd_evidence db))"
    by (simp add: joined_rows_def)
  have "distinct (map (evidence_key \<circ> fst) ?rows)" unfolding m using assms by (simp add: tables_ok_def distinct_map_filter)
  then have "distinct (map (evidence_key \<circ> fst) (filter p ?rows))" by (rule distinct_map_filter)
  then have "distinct (map (evidence_key \<circ> fst) (sort_key (\<lambda>(e, row). cr_updated_at row) (filter p ?rows)))"
    by (metis distinct_map distinct_sort set_sort)
  then have "distinct (map (evidence_key \<circ> fst) (batch p db sc))" unfolding batch_def take_map [symmetric] by (rule distinct_take)
  moreover have "x \<in> set (hd_evidence db) \<and> ew_scope x = sc \<and> case_key row = (ew_scope x, ew_case_id x) \<and> cr_workflow_id row = ew_workflow_id x"
    if "(x, row) \<in> set (batch p db sc)" for x row
  proof -
    from that have "(x, row) \<in> set ?rows" unfolding batch_def by (auto dest: in_set_takeD)
    then have x: "x \<in> set (hd_evidence db)" "ew_scope x = sc" "joined_case db x = Some row" by (auto simp: joined_rows_def)
    with joined_caseD(2) [OF x(3)] row_okD(2) [OF assms x(1,3)] show ?thesis by simp
  qed
  ultimately show ?thesis by (auto simp: pending_rows_def)
qed

lemma pending_rows_saved:
  assumes "pending_rows db sc ((e, row) # rows)" and "hd_evidence db' = map (put_document sc (ew_workflow_id e) doc) (hd_evidence db)"
  shows "pending_rows db' sc rows"
proof -
  have "x \<in> set (hd_evidence db')" if "(x, y) \<in> set rows" for x y
  proof -
    from assms(1) that have x: "x \<in> set (hd_evidence db)" "ew_scope x = sc" "evidence_key x \<noteq> evidence_key e" "ew_scope e = sc"
      by (auto simp: pending_rows_def) (metis (no_types, lifting) comp_apply fst_conv image_eqI)
    then have "put_document sc (ew_workflow_id e) doc x = x" by (auto simp: put_document_def evidence_key_def)
    with x(1) show ?thesis unfolding assms(2) by (metis image_eqI list.set_map)
  qed
  with assms(1) show ?thesis unfolding pending_rows_def by fastforce
qed

lemma recover_rows_keeps:
  assumes "recover_rows db now ids esc cutoff n rows = Inr db'" and "tables_ok digest collate db" and "pending_rows db (es_key esc) rows"
    and "\<forall>(e, row) \<in> set rows. list_ex (stale_photo cutoff) (ed_attachments (ew_document e))"
  shows "keeps digest collate db db'"
  using assms
proof (induction rows arbitrary: db n)
  case (Cons x rows)
  obtain e row where x: "x = (e, row)" by fastforce
  obtain r db1 r1 where r: "ev_load db esc (ew_workflow_id e) = Inr r"
    and s: "ev_save db now (ids n) (es_key esc) (r\<lparr> er_document := recover_document cutoff (er_document r) \<rparr>) EVIDENCE_VALIDATED BY_WORKFLOW (hc_workflowId (er_case r))
       [(''technical_status'', ''REJECTED''), (''reason'', ''STALE_PROCESSING_RECOVERED'')] = Inr (db1, r1)"
    and rest: "recover_rows db1 now ids esc cutoff (Suc n) rows = Inr db'"
    using Cons.prems(1) by (auto simp: x)
  from loaded [OF Cons.prems(2) r] obtain e' where e': "e' \<in> set (hd_evidence db)" "evidence_key e' = (es_key esc, hc_workflowId (er_case r))" "ew_document e' = er_document r"
      "ew_workflow_id e = hc_workflowId (er_case r)" by metis
  have e: "e \<in> set (hd_evidence db)" "ew_scope e = es_key esc" using Cons.prems(3) by (auto simp: x pending_rows_def)
  have "e' = e" using e e' Cons.prems(2) by (auto simp: tables_ok_def distinct_map inj_on_def evidence_key_def)
  then have "doc_step digest collate (er_document r) (recover_document cutoff (er_document r))"
    using e'(3) Cons.prems(4) by (intro doc_step.recovered) (auto simp: x)
  then have k: "keeps digest collate db db1" using load_save [OF Cons.prems(2) r _ s] by blast
  have "hd_evidence db1 = map (put_document (es_key esc) (ew_workflow_id e) (recover_document cutoff (er_document r))) (hd_evidence db)"
    using ev_save_Inr [OF s] e'(4) by (metis EvidenceRecord.select_convs(1,4) EvidenceRecord.surjective EvidenceRecord.update_convs(4))
  from pending_rows_saved [OF _ this] Cons.prems(3) have "pending_rows db1 (es_key esc) rows" by (simp add: x)
  with Cons.IH [OF rest] k Cons.prems(4) have "keeps digest collate db1 db'" by (auto simp: keeps_def)
  with k show ?case using evolves_trans by (auto simp: keeps_def)
qed (simp add: keeps_refl)

lemma recover_keeps:
  assumes "tables_ok digest collate db" and "ev_recoverStaleUploads db now ids esc = Inr db'"
  shows "keeps digest collate db db'"
proof (rule recover_rows_keeps [OF _ assms(1) batch_pending [OF assms(1)]])
  show "recover_rows db now ids esc (now - 600000) 0 (batch (\<lambda>(e, row). list_ex (stale_photo (now - 600000)) (ed_attachments (ew_document e))) db (es_key esc)) = Inr db'"
    using assms(2) by (simp add: ev_recoverStaleUploads_def Let_def)
qed (auto simp: batch_def dest: in_set_takeD)

lemma purge_rows_keeps:
  assumes "purge_rows remove now days clock ids sc db n rows = Inr (db', gone)" and "tables_ok digest collate db" and "pending_rows db sc rows"
  shows "keeps digest collate db db'"
  using assms
proof (induction rows arbitrary: db n gone)
  case (Cons x rows)
  obtain e row where x: "x = (e, row)" by fastforce
  let ?doc = "purge_document now (closed_expired now days row) (ew_document e)"
  have e: "e \<in> set (hd_evidence db)" "ew_scope e = sc" "cr_workflow_id row = ew_workflow_id e" using Cons.prems(3) by (auto simp: x pending_rows_def)
  obtain db1 more where one: "(if ?doc = ew_document e then Inr db
        else bindF (ev_save db clock (ids n) sc ((evidence_record e row)\<lparr> er_document := ?doc \<rparr>) EVIDENCE_PURGED BY_WORKFLOW (hc_workflowId (toHumanCase row))
          [(''retired'', if ed_retired ?doc then ''true'' else ''false'')]) (\<lambda>(db', _). Inr db')) = Inr db1"
      and rest: "purge_rows remove now days clock ids sc db1 (Suc n) rows = Inr (db', more)"
    using Cons.prems(1) by (auto simp: x Let_def split: if_split_asm)
  have "keeps digest collate db db1 \<and> pending_rows db1 sc rows"
  proof (cases "?doc = ew_document e")
    case True
    with one Cons.prems(2,3) show ?thesis by (auto simp: x keeps_refl pending_rows_def)
  next
    case False
    with one obtain r1 where s: "ev_save db clock (ids n) sc ((evidence_record e row)\<lparr> er_document := ?doc \<rparr>) EVIDENCE_PURGED BY_WORKFLOW (hc_workflowId (toHumanCase row))
          [(''retired'', if ed_retired ?doc then ''true'' else ''false'')] = Inr (db1, r1)" by auto
    have "keeps digest collate db db1"
      unfolding keeps_def using e doc_step.purged [of digest collate] by (intro saved_evolves [OF Cons.prems(2) e(1) _ _ s]) (auto simp: evidence_key_def)
    moreover have "hd_evidence db1 = map (put_document sc (hc_workflowId (er_case ((evidence_record e row)\<lparr> er_document := ?doc \<rparr>))) ?doc) (hd_evidence db)"
      using ev_save_Inr [OF s] by (metis EvidenceRecord.select_convs(4) EvidenceRecord.surjective EvidenceRecord.update_convs(4))
    then have es: "hd_evidence db1 = map (put_document sc (ew_workflow_id e) ?doc) (hd_evidence db)" using e(3) by simp
    ultimately show ?thesis using pending_rows_saved [OF _ es] Cons.prems(3) by (simp add: x)
  qed
  with Cons.IH [OF rest] show ?case using evolves_trans by (auto simp: keeps_def)
qed (simp add: keeps_refl)

lemma purge_keeps:
  assumes "tables_ok digest collate db" and "ev_purge remove db now days clock ids esc = Inr (db', gone)"
  shows "keeps digest collate db db'"
  using purge_rows_keeps [OF _ assms(1) batch_pending [OF assms(1)]] assms(2) by (auto simp: ev_purge_def)

section \<open>Cases and evidence together\<close>

lemma case_evidence_same [simp]: "hd_evidence (replace_case row db) = hd_evidence db" "hd_evidence (pg_markOutboxDelivered db now sc ev) = hd_evidence db"
  by (simp_all add: replace_case_def pg_markOutboxDelivered_def)

lemma appendAudit_evidence: "appendAudit u row t a actor details now db = Inr db' \<Longrightarrow> hd_evidence db' = hd_evidence db"
  by (auto simp: appendAudit_def Let_def split: if_split_asm)

lemma reserve_evidence: "reserveIdempotency db sc action caseId key fp = Inr (db1, replay) \<Longrightarrow> hd_evidence db1 = hd_evidence db"
  by (auto simp: reserveIdempotency_def split: option.split_asm if_split_asm)

lemma case_step_evidence:
  assumes "case_step (postgresCases hash) (\<lambda>_ _ _ _. True) db db'"
  shows "hd_evidence db' = hd_evidence db"
  using assms
proof cases
  case (open_step ids now sc i c)
  then show ?thesis by (auto simp: postgresCases_def pg_case_open_def Let_def dest!: appendAudit_evidence split: option.split_asm if_split_asm)
next
  case (close_step now ids sc caseId workflowId outcome c)
  then show ?thesis by (auto simp: postgresCases_def pg_case_close_def Let_def dest!: appendAudit_evidence split: if_split_asm)
next
  case (claim_step now ids sc j c)
  then show ?thesis by (auto simp: postgresCases_def pg_claim_def Let_def dest!: appendAudit_evidence reserve_evidence split: if_split_asm)
next
  case (reassign_step now ids sc j c)
  then show ?thesis by (auto simp: postgresCases_def pg_reassign_def Let_def dest!: appendAudit_evidence reserve_evidence split: if_split_asm)
next
  case (decide_step now ids sc d c ev)
  then show ?thesis
    by (auto simp: postgresCases_def pg_decide_def Let_def dest!: appendAudit_evidence reserve_evidence split: if_split_asm option.split_asm)
qed (simp add: postgresCases_def)

lemma case_spec_workflow:
  assumes "case_spec v v'" and "sp_cases v k = Some c" and "spec_ok v"
  shows "\<exists>c'. sp_cases v' k = Some c' \<and> hc_workflowId c' = hc_workflowId c"
  using assms
proof cases
  case (opened x)
  have "k \<noteq> key_of x" using opened(2) assms(2) by blast
  with assms(2) show ?thesis by (simp add: opened(1) put_case_def)
qed (auto simp: put_case_def case_updates)

lemma case_step_keeps:
  assumes "tables_ok digest collate db" and "case_step (postgresCases hash) (\<lambda>_ _ _ _. True) db db'"
  shows "keeps digest collate db db'"
proof -
  have ok: "pg_cases_ok db" "spec_ok (pg_view db)" using assms(1) by (simp_all add: tables_ok_def)
  note s = pgc.step_refines [OF assms(2) ok(1)]
  have "row_ok digest collate db' e" if "e \<in> set (hd_evidence db)" for e
  proof -
    from assms(1) that obtain c where c: "sp_cases (pg_view db) (ew_scope e, ew_case_id e) = Some c" "hc_workflowId c = ew_workflow_id e" "document_ok digest collate (ew_document e)"
      unfolding tables_ok_def row_ok_def by blast
    with case_spec_workflow [OF _ c(1) ok(2), of "pg_view db'"] s show ?thesis by (auto simp: row_ok_def)
  qed
  moreover have "spec_ok (pg_view db')" using s ok(2) case_spec_ok by blast
  ultimately show ?thesis
    using assms(1) s case_step_evidence [OF assms(2)] evolves_eq by (simp add: keeps_def tables_ok_def)
qed

inductive human_step :: "(string \<Rightarrow> string) \<Rightarrow> (string \<Rightarrow> int) \<Rightarrow> EvidenceDb \<Rightarrow> EvidenceDb \<Rightarrow> bool"
  for digest :: "string \<Rightarrow> string" and collate :: "string \<Rightarrow> int" where
  cases_step: "case_step (postgresCases digest) (\<lambda>_ _ _ _. True) db db' \<Longrightarrow> human_step digest collate db db'"
| ensure_step: "ev_ensure digest db now ids i = Inr (db', snap) \<Longrightarrow> human_step digest collate db db'"
| begin_step: "ev_beginUpload db now ids esc w i = Inr (db', r, photo, created) \<Longrightarrow> 0 \<le> bu_byteSize i \<Longrightarrow> new_evidence_id db (ids 0) \<Longrightarrow> human_step digest collate db db'"
| finish_step: "ev_finishUpload db now ids esc w evidenceId result = Inr (db', snap) \<Longrightarrow> 0 \<le> result_bytes result \<Longrightarrow> human_step digest collate db db'"
| review_step: "ev_review digest collate db now ids esc w access c key = Inr (db', snap) \<Longrightarrow> human_step digest collate db db'"
| transition_step: "ev_transition digest db now ids esc w i = Inr (db', snap) \<Longrightarrow> human_step digest collate db db'"
| recover_step: "ev_recoverStaleUploads db now ids esc = Inr db' \<Longrightarrow> human_step digest collate db db'"
| purge_step: "ev_purge remove db now days clock ids esc = Inr (db', gone) \<Longrightarrow> human_step digest collate db db'"

lemma human_step_keeps: "human_step digest collate db db' \<Longrightarrow> tables_ok digest collate db \<Longrightarrow> keeps digest collate db db'"
  by (induction rule: human_step.induct)
    (blast intro: case_step_keeps ensure_keeps begin_keeps finish_keeps review_keeps transition_keeps recover_keeps purge_keeps)+

lemma human_steps_keep:
  assumes "(human_step digest collate)\<^sup>*\<^sup>* db db'" and "tables_ok digest collate db"
  shows "keeps digest collate db db'"
  using assms
proof (induction rule: rtranclp_induct)
  case (step y z)
  then show ?case using human_step_keeps evolves_trans unfolding keeps_def by blast
qed (rule keeps_refl)

definition no_evidence :: EvidenceDb where
  "no_evidence = \<lparr> hd_cases = [], hd_audit = [], hd_idempotency = [], hd_outbox = [], hd_evidence = [] \<rparr>"

lemma no_evidence_ok [simp]: "tables_ok digest collate no_evidence"
  by (simp add: tables_ok_def no_evidence_def pg_cases_ok_def spec_ok_def pg_view_def)

lemma reachable_tables: "(human_step digest collate)\<^sup>*\<^sup>* no_evidence db \<Longrightarrow> tables_ok digest collate db"
  using human_steps_keep [of digest collate no_evidence db] by (simp add: keeps_def)

section \<open>Properties\<close>

text \<open>
  C8. Over any history of cases and evidence, phase changes of a case included: a case has at most
  one decision, the decision was made by the person the case is assigned to, is one of the actions of
  the type of the case, names the workflow of the case, and its case is pending or closed.
\<close>

theorem one_decision_per_case:
  assumes "(human_step digest collate)\<^sup>*\<^sup>* no_evidence db" and "row \<in> set (hd_outbox db)"
  shows "(\<exists>c \<in> set (hd_cases db). case_key c = (fst (outbox_key row), or_case_id row) \<and> cr_case_status c \<in> {DECISION_PENDING, CLOSED}
            \<and> cr_assigned_staff_id c = Some (or_decided_by row) \<and> or_decision row \<in> set (allowedActionsForCaseType (cr_case_type c))
            \<and> or_workflow_id row = cr_workflow_id c)
       \<and> (\<forall>row' \<in> set (hd_outbox db). fst (outbox_key row') = fst (outbox_key row) \<and> or_case_id row' = or_case_id row \<longrightarrow> row' = row)"
proof -
  have "pg_cases_ok db" "spec_ok (pg_view db)" using reachable_tables [OF assms(1)] by (simp_all add: tables_ok_def)
  from outbox_decisions [OF this assms(2)] show ?thesis by blast
qed

text \<open>
  C35. The limits of an evidence set hold at every moment, whatever the order of uploads, validations,
  reviews, recoveries and purges: at most five photos count, they have at most 25 MiB together, at
  most twenty were ever uploaded; and accepted evidence has nothing in processing, and as long as it
  is retained at least one ready photo and the manifest of exactly the ready photos.
\<close>

theorem evidence_set_limits:
  assumes "(human_step digest collate)\<^sup>*\<^sup>* no_evidence db" and "e \<in> set (hd_evidence db)"
  shows "length (filter active_photo (ed_attachments (ew_document e))) \<le> 5
    \<and> byte_sum (filter active_photo (ed_attachments (ew_document e))) \<le> 26214400 \<and> length (ed_attachments (ew_document e)) \<le> 20
    \<and> (ed_assessment (ew_document e) = ACCEPTED \<longrightarrow> (\<forall>p \<in> set (ed_attachments (ew_document e)). ph_technical_status p \<noteq> PROCESSING)
         \<and> (\<not> ed_retired (ew_document e) \<longrightarrow> ready_photos (ed_attachments (ew_document e)) \<noteq> []
              \<and> ed_manifestHash (ew_document e) = Some (manifest_hash digest collate (ed_attachments (ew_document e)))))"
proof -
  have "document_ok digest collate (ew_document e)" using row_okD(1) [OF reachable_tables [OF assms(1)] assms(2)] .
  from document_okD(2,3) [OF this] show ?thesis
    by (simp add: set_ok_def accepted_ok_def MAX_PHOTOS_def MAX_SET_BYTES_def MAX_UPLOAD_ATTEMPTS_def list_all_iff)
qed

text \<open>
  C10. Once accepted, evidence stays what was accepted: whatever happens to it and to its case, its
  row is still there for the same order and proposal, and until its photos are retired its revision,
  its assessment, its manifest and its ready photos are those of the acceptance.
\<close>

theorem accepted_evidence_frozen:
  assumes "(human_step digest collate)\<^sup>*\<^sup>* no_evidence db" and "e \<in> set (hd_evidence db)" and "ed_assessment (ew_document e) = ACCEPTED"
    and "(human_step digest collate)\<^sup>*\<^sup>* db db'"
  shows "\<exists>e' \<in> set (hd_evidence db'). same_row e e' \<and> (ed_retired (ew_document e') \<or> frozen (ew_document e) (ew_document e'))"
proof -
  note ok = reachable_tables [OF assms(1)]
  then obtain e' where "e' \<in> set (hd_evidence db')" "same_row e e'" "(doc_step digest collate)\<^sup>*\<^sup>* (ew_document e) (ew_document e')"
    using human_steps_keep [OF assms(4)] assms(2) by (auto simp: keeps_def evolves_def)
  then show ?thesis using doc_steps_frozen row_okD(1) [OF ok assms(2)] assms(3) by blast
qed

section \<open>A sample history\<close>

definition sample_hash :: string where
  "sample_hash = ''d1d1d1d1d1d1d1d1d1d1d1d1d1d1d1d1d1d1d1d1d1d1d1d1d1d1d1d1d1d1d1d1''"

lemma sample_hash_nonempty [simp]: "sample_hash \<noteq> []" "[] \<noteq> sample_hash"
  by (simp_all add: sample_hash_def)

definition plain_digest :: "string \<Rightarrow> string" where
  "plain_digest s = sample_hash"

definition plain_order :: "string \<Rightarrow> int" where
  "plain_order s = 0"

definition outcome_of :: "EvidenceDb \<Rightarrow> 'e + EvidenceDb \<times> 'a \<Rightarrow> EvidenceDb" where
  "outcome_of db r = (case r of Inl _ \<Rightarrow> db | Inr (db', _) \<Rightarrow> db')"

definition two_ids :: "string \<Rightarrow> string \<Rightarrow> nat \<Rightarrow> string" where
  "two_ids a b n = (if n = 0 then a else b)"

definition sample_scope :: EvidenceScope where
  "sample_scope = \<lparr> es_key = (''t'', ''e''), es_subjectCustomerId = None \<rparr>"

definition sample_owner :: EvidenceScope where
  "sample_owner = \<lparr> es_key = (''t'', ''e''), es_subjectCustomerId = Some ''cust'' \<rparr>"

definition sample_photo :: string where
  "sample_photo = ''0a1b2c3d-0000-4000-8000-000000000001''"

definition sample_ensure :: EnsureEvidenceInput where
  "sample_ensure = \<lparr> en_scope = sample_owner, en_customer = ''cust'', en_workflowId = ''wf-1'',
     en_binding = \<lparr> bi_order_id = ''order-1'', bi_proposal_id = ''prop-1'', bi_selected_item_ids = [], bi_policy_version = ''v1'' \<rparr>, en_reviewPacket = sample_packet \<rparr>"

definition sample_upload :: BeginUploadInput where
  "sample_upload = \<lparr> bu_expectedRevision = 0, bu_idempotencyKey = ''upload-key-1'', bu_fingerprint = sample_hash, bu_byteSize = 4, bu_contentType = Image_jpeg \<rparr>"

definition sample_reviewer :: HumanAccess where
  "sample_reviewer = \<lparr> ha_staffId = ''staff-1'', ha_tenantId = ''t'', ha_environmentId = ''e'', ha_role = REFUND_APPROVER \<rparr>"

definition sample_claim_at :: "int \<Rightarrow> string \<Rightarrow> ClaimInput" where
  "sample_claim_at ver key = \<lparr> ci_caseId = ''case-1'', ci_staffId = ''staff-1'', ci_expectedVersion = ver, ci_key = key \<rparr>"

definition sample_review :: EvidenceReview where
  "sample_review = \<lparr> rv_action = ACCEPT_EVIDENCE, rv_expected_case_version = 4, rv_expected_evidence_version = 2, rv_reason_code = ''DAMAGE_VISIBLE'', rv_note = None \<rparr>"

definition sample_decision :: DecideInput where
  "sample_decision = \<lparr> di_caseId = ''case-1'', di_staffId = ''staff-1'', di_decision = APPROVE, di_reasonCode = None, di_note = None,
     di_expectedVersion = 2, di_key = ''decision-key-1'' \<rparr>"

lemmas sample_input_defs = sample_ensure_def sample_scope_def sample_owner_def sample_photo_def sample_upload_def sample_reviewer_def sample_claim_at_def sample_review_def
  sample_decision_def outcome_of_def plain_digest_def two_ids_def

lemmas table_defs = no_evidence_def opened_row_def evidence_case_def new_evidence_def new_document_def case_key_def row_scope_def evidence_key_def
  select_evidence_def joined_case_def ev_load_def ev_audit_def appendAudit_def bindF_def Let_def ev_save_def replace_case_def touch_case_def put_document_def
  evidence_record_def

lemmas claim_defs = pg_claim_def pg_decide_def reserveIdempotency_def same_request_def requireCase_def assertExpectedVersion_def assign_case_def decide_case_def
  outbox_row_def outbox_key_def allowedActionsForCaseType_def

lemmas document_defs = ev_beginUpload_def ev_finishUpload_def ev_review_def ensure_fingerprint_def upload_limit_def new_photo_def add_photo_def finish_document_def
  upload_result_def finish_photo_def stored_key_def prototype_names_def canReviewEvidence_def review_document_def review_fingerprint_def manifest_hash_def review_details_def
  photo_defs MAX_PHOTOS_def MAX_SET_BYTES_def MAX_UPLOAD_ATTEMPTS_def

lemma toHumanCase_more [simp]: "hc_tenantId (toHumanCase row) = cr_tenant_id row" "hc_environmentId (toHumanCase row) = cr_environment_id row"
  "hc_reviewPacket (toHumanCase row) = cr_review_packet row"
  by (simp_all add: toHumanCase_def)

lemmas sample_sets = sample_input_defs table_defs claim_defs document_defs

definition ensured_db :: EvidenceDb where
  "ensured_db = outcome_of no_evidence (ev_ensure plain_digest no_evidence 0 (two_ids ''1'' ''2'') sample_ensure)"

lemmas ensured_val = ensured_db_def [simplified ev_ensure_def sample_sets, simplified]

definition reserved_db :: EvidenceDb where
  "reserved_db = outcome_of ensured_db (ev_beginUpload ensured_db 0 (two_ids sample_photo ''3'') sample_owner ''wf-1'' sample_upload)"

lemmas reserved_val = reserved_db_def [simplified ensured_val sample_sets, simplified]

definition validated_db :: EvidenceDb where
  "validated_db = outcome_of reserved_db (ev_finishUpload reserved_db 0 (two_ids ''4'' ''4'') sample_owner ''wf-1'' sample_photo (Normalized Image_jpeg 4 640 480 ''hash''))"

lemmas validated_val = validated_db_def [simplified reserved_val sample_sets, simplified]

definition claimed_db :: EvidenceDb where
  "claimed_db = outcome_of validated_db (pg_claim plain_digest validated_db 0 (two_ids ''5'' ''5'') (''t'', ''e'') (sample_claim_at 3 ''claim-key-1''))"

lemmas claimed_val = claimed_db_def [simplified validated_val sample_sets, simplified]

definition accepted_db :: EvidenceDb where
  "accepted_db = outcome_of claimed_db (ev_review plain_digest plain_order claimed_db 0 (two_ids ''review'' ''6'') sample_scope ''wf-1'' sample_reviewer sample_review ''review-key-1'')"

lemmas accepted_val = accepted_db_def [simplified claimed_val sample_sets, simplified]

definition accepted_closed_db :: EvidenceDb where
  "accepted_closed_db = outcome_of accepted_db (pg_case_close accepted_db 0 (two_ids ''7'' ''7'') (''t'', ''e'') ''case-1'' ''wf-1'' None)"

definition opened_case_db :: EvidenceDb where
  "opened_case_db = outcome_of no_evidence (pg_case_open no_evidence 0 (two_ids ''1'' ''2'') (''t'', ''e'') sample_open)"

lemmas opened_case_val = opened_case_db_def [simplified pg_case_open_def sample_open_def sample_sets, simplified]

definition claimed_case_db :: EvidenceDb where
  "claimed_case_db = outcome_of opened_case_db (pg_claim plain_digest opened_case_db 0 (two_ids ''3'' ''3'') (''t'', ''e'') (sample_claim_at 1 ''claim-key-1''))"

lemmas claimed_case_val = claimed_case_db_def [simplified opened_case_val sample_sets, simplified]

definition decided_case_db :: EvidenceDb where
  "decided_case_db = outcome_of claimed_case_db (pg_decide plain_digest claimed_case_db 0 (two_ids ''4'' ''5'') (''t'', ''e'') sample_decision)"

lemma outcome_ofI: "outcome_of db r = db' \<Longrightarrow> db' \<noteq> db \<Longrightarrow> \<exists>x. r = Inr (db', x)"
  by (auto simp: outcome_of_def split: sum.split_asm prod.split_asm)

lemma sample_history:
  "human_step plain_digest plain_order no_evidence ensured_db" "human_step plain_digest plain_order ensured_db reserved_db"
  "human_step plain_digest plain_order reserved_db validated_db" "human_step plain_digest plain_order validated_db claimed_db"
  "human_step plain_digest plain_order claimed_db accepted_db"
proof -
  show "human_step plain_digest plain_order no_evidence ensured_db"
    using outcome_ofI [OF ensured_db_def [symmetric]] by (auto simp: ensured_val no_evidence_def intro: human_step.ensure_step)
  show "human_step plain_digest plain_order ensured_db reserved_db"
    using outcome_ofI [OF reserved_db_def [symmetric]]
    by (auto simp: reserved_val ensured_val new_evidence_id_def sample_upload_def intro: human_step.begin_step)
  show "human_step plain_digest plain_order reserved_db validated_db"
    using outcome_ofI [OF validated_db_def [symmetric]] by (auto simp: reserved_val validated_val result_bytes_def intro: human_step.finish_step)
  show "human_step plain_digest plain_order claimed_db accepted_db"
    using outcome_ofI [OF accepted_db_def [symmetric]] by (auto simp: claimed_val accepted_val intro: human_step.review_step)
  obtain c where "hr_claim (postgresCases plain_digest) validated_db 0 (two_ids ''5'' ''5'') (''t'', ''e'') (sample_claim_at 3 ''claim-key-1'') = Inr (claimed_db, c)"
    using outcome_ofI [OF claimed_db_def [symmetric]] by (auto simp: claimed_val validated_val postgresCases_def)
  then show "human_step plain_digest plain_order validated_db claimed_db" by (intro human_step.cases_step case_step.claim_step)
qed

lemma accepted_reachable: "(human_step plain_digest plain_order)\<^sup>*\<^sup>* no_evidence accepted_db"
  using sample_history by (meson r_into_rtranclp rtranclp_trans)

lemma accepted_row: "\<exists>e \<in> set (hd_evidence accepted_db). ed_assessment (ew_document e) = ACCEPTED \<and> ed_revision (ew_document e) = 2"
  by (simp add: accepted_val put_document_def evidence_key_def)

lemma accepted_closes: "\<exists>c. pg_case_close accepted_db 0 (two_ids ''7'' ''7'') (''t'', ''e'') ''case-1'' ''wf-1'' None = Inr (accepted_closed_db, c)"
  by (simp add: accepted_closed_db_def pg_case_close_def accepted_val requireCase_def case_key_def row_scope_def bindF_def Let_def appendAudit_def replace_case_def
      outcome_of_def two_ids_def)

lemma accepted_close_step: "(human_step plain_digest plain_order)\<^sup>*\<^sup>* accepted_db accepted_closed_db"
proof -
  from accepted_closes obtain c where "hr_close (postgresCases plain_digest) accepted_db 0 (two_ids ''7'' ''7'') (''t'', ''e'') ''case-1'' ''wf-1'' None = Inr (accepted_closed_db, c)"
    by (auto simp: postgresCases_def)
  then have "human_step plain_digest plain_order accepted_db accepted_closed_db" by (intro human_step.cases_step case_step.close_step)
  then show ?thesis by blast
qed

theorem evidence_set_limits_witness:
  "\<exists>e \<in> set (hd_evidence accepted_db). ed_manifestHash (ew_document e) = Some (manifest_hash plain_digest plain_order (ed_attachments (ew_document e)))
     \<or> ed_retired (ew_document e)"
proof -
  from accepted_row obtain e where "e \<in> set (hd_evidence accepted_db)" "ed_assessment (ew_document e) = ACCEPTED" by blast
  with evidence_set_limits [OF accepted_reachable this(1)] show ?thesis by blast
qed

theorem accepted_evidence_frozen_witness:
  "\<exists>e \<in> set (hd_evidence accepted_closed_db). ed_retired (ew_document e) \<or> ed_revision (ew_document e) = 2"
proof -
  from accepted_row obtain e where "e \<in> set (hd_evidence accepted_db)" "ed_assessment (ew_document e) = ACCEPTED" "ed_revision (ew_document e) = 2" by blast
  with accepted_evidence_frozen [OF accepted_reachable this(1,2) accepted_close_step] show ?thesis by (auto simp: frozen_def)
qed

lemma decided_case_outbox: "\<exists>x row. pg_decide plain_digest claimed_case_db 0 (two_ids ''4'' ''5'') (''t'', ''e'') sample_decision = Inr (decided_case_db, x)
    \<and> hd_outbox decided_case_db = [row] \<and> or_decided_by row = ''staff-1''"
  by (simp add: decided_case_db_def claimed_case_val sample_input_defs claim_defs case_key_def row_scope_def bindF_def Let_def appendAudit_def replace_case_def)

lemma claimed_case_reachable: "(human_step plain_digest plain_order)\<^sup>*\<^sup>* no_evidence claimed_case_db"
proof -
  let ?step = "human_step plain_digest plain_order"
  obtain c where "hr_open (postgresCases plain_digest) no_evidence 0 (two_ids ''1'' ''2'') (''t'', ''e'') sample_open = Inr (opened_case_db, c)"
    using outcome_ofI [OF opened_case_db_def [symmetric]] by (auto simp: opened_case_val no_evidence_def postgresCases_def)
  then have 1: "?step no_evidence opened_case_db" by (intro human_step.cases_step case_step.open_step) simp_all
  obtain c where "hr_claim (postgresCases plain_digest) opened_case_db 0 (two_ids ''3'' ''3'') (''t'', ''e'') (sample_claim_at 1 ''claim-key-1'') = Inr (claimed_case_db, c)"
    using outcome_ofI [OF claimed_case_db_def [symmetric]] by (auto simp: opened_case_val claimed_case_val postgresCases_def)
  then have "?step opened_case_db claimed_case_db" by (intro human_step.cases_step case_step.claim_step)
  with 1 show ?thesis by (meson r_into_rtranclp rtranclp_trans)
qed

lemma decided_case_reachable: "(human_step plain_digest plain_order)\<^sup>*\<^sup>* no_evidence decided_case_db"
proof -
  obtain c ev where "hr_decide (postgresCases plain_digest) claimed_case_db 0 (two_ids ''4'' ''5'') (''t'', ''e'') sample_decision = Inr (decided_case_db, c, ev)"
    using decided_case_outbox by (auto simp: postgresCases_def)
  then have "human_step plain_digest plain_order claimed_case_db decided_case_db" by (intro human_step.cases_step case_step.decide_step)
  with claimed_case_reachable show ?thesis by (rule rtranclp.rtrancl_into_rtrancl)
qed

theorem one_decision_per_case_witness:
  "\<exists>c \<in> set (hd_cases decided_case_db). cr_case_status c \<in> {DECISION_PENDING, CLOSED} \<and> cr_assigned_staff_id c = Some ''staff-1''"
proof -
  from decided_case_outbox obtain row where "row \<in> set (hd_outbox decided_case_db)" "or_decided_by row = ''staff-1''" by auto
  with one_decision_per_case [OF decided_case_reachable this(1)] show ?thesis by auto
qed

end
