(* ===== verification/Human_Routes.thy ===== *)
theory Human_Routes
  imports Evidence_Life
begin

text \<open>
  The routes of human operations, \<^verbatim>\<open>src/apps/services/human-operations/src/app.ts\<close>, and the delivery of
  decisions to the workflow, \<^verbatim>\<open>sendDecision\<close> and \<^verbatim>\<open>dispatchPendingOutbox\<close> of \<^verbatim>\<open>server.ts\<close>. The case
  repository is any value of \<^verbatim>\<open>HumanCaseRepository\<close>; verifiers, the reader of evidence and the call of
  the workflow are arguments. A handler answers with the state, the decisions it handed to the
  workflow, and \<^verbatim>\<open>Inl (status, code)\<close> for an error or \<^verbatim>\<open>Inr (status, body)\<close>.
\<close>

section \<open>Requests\<close>

definition opaque200 :: "json \<Rightarrow> string option" where
  "opaque200 v = z_regex (opaque_id_upto 200) v"

definition idempotency_ok :: "string \<Rightarrow> bool" where
  "idempotency_ok s \<longleftrightarrow> 8 \<le> length s \<and> opaque_id_upto 200 s"

definition parseIdempotencyKey :: "string option \<Rightarrow> string option" where
  "parseIdempotencyKey v = (case v of None \<Rightarrow> None | Some s \<Rightarrow> if idempotency_ok s then Some s else None)"

definition case_type_table :: "(string \<times> HumanCaseType) list" where
  "case_type_table = [(''REFUND_APPROVAL'', REFUND_APPROVAL), (''REFUND_TAKEOVER'', REFUND_TAKEOVER), (''REFUND_EVIDENCE_REVIEW'', REFUND_EVIDENCE_REVIEW)]"

definition decision_table :: "(string \<times> HumanCaseAction) list" where
  "decision_table = [(''APPROVE'', APPROVE), (''REJECT'', REJECT), (''RESOLVE_TAKEOVER'', RESOLVE_TAKEOVER), (''APPROVE_EXCEPTIONAL_REFUND'', APPROVE_EXCEPTIONAL_REFUND)]"

definition status_table :: "(string \<times> HumanCaseStatus) list" where
  "status_table = [(''OPEN'', OPEN), (''CLAIMED'', CLAIMED), (''DECISION_PENDING'', DECISION_PENDING), (''CLOSED'', CLOSED)]"

definition workerOpenCaseSchema :: "json \<Rightarrow> OpenCaseInput option" where
  "workerOpenCaseSchema body =
     do {
       v \<leftarrow> z_object [''workflow_id'', ''case_type'', ''review_packet'', ''policy_version''] body;
       w \<leftarrow> opaque200 (get_prop ''workflow_id'' v);
       t \<leftarrow> z_enum case_type_table (get_prop ''case_type'' v);
       p \<leftarrow> refundReviewPacketSchema (get_prop ''review_packet'' v);
       version \<leftarrow> z_string_max 200 (get_prop ''policy_version'' v);
       Some \<lparr> oi_workflowId = w, oi_caseType = t, oi_reviewPacket = p, oi_policyVersion = version \<rparr>
     }"

definition workerCloseCaseSchema :: "json \<Rightarrow> (string \<times> string option) option" where
  "workerCloseCaseSchema body =
     do {
       v \<leftarrow> z_object [''workflow_id'', ''outcome''] body;
       w \<leftarrow> opaque200 (get_prop ''workflow_id'' v);
       outcome \<leftarrow> z_optional (z_regex (\<lambda>s. s \<in> {''EVIDENCE_REVIEW_COMPLETED'', ''EVIDENCE_COLLECTION_EXPIRED''})) (get_prop ''outcome'' v);
       Some (w, outcome)
     }"

definition claimBodySchema :: "json \<Rightarrow> int option" where
  "claimBodySchema body = do { v \<leftarrow> z_object [''expected_case_version''] body; z_int_min 1 (get_prop ''expected_case_version'' v) }"

definition reassignBodySchema :: "json \<Rightarrow> (string \<times> int) option" where
  "reassignBodySchema body =
     do {
       v \<leftarrow> z_object [''assigned_staff_id'', ''expected_case_version''] body;
       staff \<leftarrow> opaque200 (get_prop ''assigned_staff_id'' v);
       version \<leftarrow> z_int_min 1 (get_prop ''expected_case_version'' v);
       Some (staff, version)
     }"

record DecisionBody =
  db_decision :: HumanCaseAction
  db_reason_code :: "string option"
  db_note :: "string option"
  db_expected_case_version :: int

definition decisionBodySchema :: "json \<Rightarrow> DecisionBody option" where
  "decisionBodySchema body =
     do {
       v \<leftarrow> z_object [''decision'', ''reason_code'', ''note'', ''expected_case_version''] body;
       d \<leftarrow> z_enum decision_table (get_prop ''decision'' v);
       reason \<leftarrow> z_optional (z_string_max 100) (get_prop ''reason_code'' v);
       note \<leftarrow> z_optional (z_string_max 2000) (get_prop ''note'' v);
       version \<leftarrow> z_int_min 1 (get_prop ''expected_case_version'' v);
       (if d \<in> {REJECT, RESOLVE_TAKEOVER, APPROVE_EXCEPTIONAL_REFUND} \<and> note = None then None
        else Some \<lparr> db_decision = d, db_reason_code = reason, db_note = note, db_expected_case_version = version \<rparr>)
     }"

definition listQuerySchema :: "json \<Rightarrow> (HumanCaseStatus option \<times> string option) option" where
  "listQuerySchema q =
     do {
       v \<leftarrow> z_object [''status'', ''assignee''] q;
       st \<leftarrow> z_optional (z_enum status_table) (get_prop ''status'' v);
       a \<leftarrow> z_optional (z_regex (\<lambda>s. s \<in> {''me'', ''unassigned''})) (get_prop ''assignee'' v);
       Some (st, a)
     }"

definition legacyBodySchema :: "json \<Rightarrow> (HumanCaseAction \<times> string option) option" where
  "legacyBodySchema body =
     do {
       v \<leftarrow> z_object [''decision'', ''reasonCode''] body;
       d \<leftarrow> z_enum decision_table (get_prop ''decision'' v);
       reason \<leftarrow> z_optional (z_string_max 100) (get_prop ''reasonCode'' v);
       Some (d, reason)
     }"

section \<open>Permissions\<close>

definition hasCaseRole :: "HumanAccess \<Rightarrow> HumanCase \<Rightarrow> bool" where
  "hasCaseRole access c =
     (if hc_caseType c = REFUND_EVIDENCE_REVIEW then ha_role access \<in> {REFUND_APPROVER, REFUND_SUPERVISOR}
      else if hc_caseType c = REFUND_APPROVAL then ha_role access = REFUND_APPROVER
      else ha_role access = REFUND_SUPERVISOR)"

definition canViewCase :: "HumanAccess \<Rightarrow> HumanCase \<Rightarrow> bool" where
  "canViewCase access c \<longleftrightarrow> ha_role access = REFUND_SUPERVISOR \<or> hc_caseType c = REFUND_APPROVAL \<or> hc_caseType c = REFUND_EVIDENCE_REVIEW"

definition canClaimCase :: "HumanAccess \<Rightarrow> HumanCase \<Rightarrow> bool" where
  "canClaimCase access c \<longleftrightarrow> hc_status c = OPEN \<and> hc_assignedStaffId c = None \<and> hasCaseRole access c"

definition canSubmitClaim :: "HumanAccess \<Rightarrow> HumanCase \<Rightarrow> bool" where
  "canSubmitClaim access c \<longleftrightarrow> hasCaseRole access c \<and> (canClaimCase access c \<or> hc_assignedStaffId c = Some (ha_staffId access))"

definition allowedActionsForHuman :: "HumanAccess \<Rightarrow> HumanCase \<Rightarrow> HumanCaseAction list" where
  "allowedActionsForHuman access c =
     (if hc_caseType c = REFUND_EVIDENCE_REVIEW then []
      else if hc_status c \<noteq> CLAIMED \<or> hc_assignedStaffId c \<noteq> Some (ha_staffId access) \<or> \<not> hasCaseRole access c then []
      else if hc_caseType c = REFUND_APPROVAL then [APPROVE, REJECT]
      else [APPROVE_EXCEPTIONAL_REFUND, RESOLVE_TAKEOVER, REJECT])"

definition canRetryPendingDecision :: "HumanAccess \<Rightarrow> HumanCase \<Rightarrow> HumanCaseAction \<Rightarrow> bool" where
  "canRetryPendingDecision access c d \<longleftrightarrow> hc_status c = DECISION_PENDING \<and> hc_assignedStaffId c = Some (ha_staffId access) \<and> hasCaseRole access c
     \<and> d \<in> set (hc_allowedActions c)"

definition canSubmitDecision :: "HumanAccess \<Rightarrow> HumanCase \<Rightarrow> HumanCaseAction \<Rightarrow> bool" where
  "canSubmitDecision access c d = (if d \<in> set (allowedActionsForHuman access c) then True else canRetryPendingDecision access c d)"

section \<open>Answers\<close>

type_synonym answer = "(nat \<times> string) + (nat \<times> json)"

definition repositoryFailure :: "CaseFailure \<Rightarrow> nat \<times> string" where
  "repositoryFailure e = (case e of CASE_NOT_FOUND \<Rightarrow> (404, ''refund_case_not_found'') | STALE_CASE_VERSION \<Rightarrow> (409, ''stale_case_version'')
     | CASE_CONFLICT \<Rightarrow> (409, ''case_conflict'') | IDEMPOTENCY_CONFLICT \<Rightarrow> (409, ''idempotency_conflict'') | Unexpected _ \<Rightarrow> (500, ''human_operations_failure''))"

definition status_string :: "HumanCaseStatus \<Rightarrow> string" where
  "status_string s = (case s of OPEN \<Rightarrow> ''OPEN'' | CLAIMED \<Rightarrow> ''CLAIMED'' | DECISION_PENDING \<Rightarrow> ''DECISION_PENDING'' | CLOSED \<Rightarrow> ''CLOSED'')"

definition toHumanCaseResponse :: "HumanCase \<Rightarrow> HumanAccess option \<Rightarrow> (string \<times> json) list" where
  "toHumanCaseResponse c access =
     [(''case_id'', JStr (hc_caseId c)), (''workflow_id'', JStr (hc_workflowId c)), (''case_type'', JStr (case_type_string (hc_caseType c))),
      (''status'', JStr (status_string (hc_status c))),
      (''allowed_actions'', JArr (map (\<lambda>a. JStr (action_string a)) (case access of None \<Rightarrow> hc_allowedActions c | Some h \<Rightarrow> allowedActionsForHuman h c)))]
     @ (case access of None \<Rightarrow> [] | Some h \<Rightarrow> [(''can_claim'', JBool (canClaimCase h c))])
     @ (case hc_assignedStaffId c of None \<Rightarrow> [] | Some s \<Rightarrow> [(''assigned_staff_id'', JStr s)])
     @ [(''case_version'', JNum (hc_caseVersion c)), (''review_packet'', packet_json (hc_reviewPacket c)), (''policy_version'', JStr (hc_policyVersion c)),
        (''created_at'', JStr (hc_createdAt c)), (''updated_at'', JStr (hc_updatedAt c))]
     @ (case hc_decidedAt c of None \<Rightarrow> [] | Some d \<Rightarrow> [(''decided_at'', JStr d)])"

definition event_type_string :: "AuditEventType \<Rightarrow> string" where
  "event_type_string t = (case t of CASE_OPENED \<Rightarrow> ''CASE_OPENED'' | CASE_CLAIMED \<Rightarrow> ''CASE_CLAIMED'' | DECISION_RECORDED \<Rightarrow> ''DECISION_RECORDED''
     | CASE_CLOSED \<Rightarrow> ''CASE_CLOSED'' | EVIDENCE_UPLOAD_RESERVED \<Rightarrow> ''EVIDENCE_UPLOAD_RESERVED'' | EVIDENCE_VALIDATED \<Rightarrow> ''EVIDENCE_VALIDATED''
     | EVIDENCE_REVIEWED \<Rightarrow> ''EVIDENCE_REVIEWED'' | EVIDENCE_PURGED \<Rightarrow> ''EVIDENCE_PURGED'' | CASE_PHASE_CHANGED \<Rightarrow> ''CASE_PHASE_CHANGED'')"

definition actor_string :: "ActorType \<Rightarrow> string" where
  "actor_string t = (case t of BY_WORKFLOW \<Rightarrow> ''WORKFLOW'' | BY_HUMAN \<Rightarrow> ''HUMAN'' | BY_CUSTOMER \<Rightarrow> ''CUSTOMER'')"

definition toAuditEventResponse :: "HumanCaseAuditEvent \<Rightarrow> json" where
  "toAuditEventResponse ev = JObj [(''event_id'', JStr (ae_eventId ev)), (''event_type'', JStr (event_type_string (ae_eventType ev))),
     (''occurred_at'', JStr (ae_occurredAt ev)), (''actor_type'', JStr (actor_string (ae_actorType ev))), (''actor_id'', JStr (ae_actorId ev)),
     (''case_version'', JNum (ae_caseVersion ev)), (''details'', JObj (map (\<lambda>(k, v). (k, JStr v)) (ae_details ev)))]"

text \<open>The summary of evidence as it is sent, and the fields it adds to a case.\<close>

definition image_string :: "ImageType \<Rightarrow> string" where
  "image_string t = (case t of Image_jpeg \<Rightarrow> ''image/jpeg'' | Image_png \<Rightarrow> ''image/png'')"

definition rejection_string :: "RejectionCode \<Rightarrow> string" where
  "rejection_string c = (case c of FILE_TOO_LARGE \<Rightarrow> ''FILE_TOO_LARGE'' | UNSUPPORTED_TYPE \<Rightarrow> ''UNSUPPORTED_TYPE'' | INVALID_IMAGE \<Rightarrow> ''INVALID_IMAGE''
     | IMAGE_LIMIT_EXCEEDED \<Rightarrow> ''IMAGE_LIMIT_EXCEEDED'' | UNSAFE_FILE \<Rightarrow> ''UNSAFE_FILE'' | VALIDATION_UNAVAILABLE \<Rightarrow> ''VALIDATION_UNAVAILABLE'')"

definition photo_json :: "StoredPhoto \<Rightarrow> json" where
  "photo_json p = JObj ([(''evidence_id'', JStr (ph_evidence_id p)), (''display_label'', JStr (ph_display_label p)), (''byte_size'', JNum (ph_byte_size p)),
      (''uploaded_at'', JStr (iso_string (ph_uploaded_at p))), (''technical_status'', JStr (technical_string (ph_technical_status p))),
      (''content_type'', JStr (image_string (ph_content_type p)))]
     @ (case ph_dimensions p of None \<Rightarrow> [] | Some (w, h) \<Rightarrow> [(''width'', JNum w), (''height'', JNum h)])
     @ (case ph_rejection_code p of None \<Rightarrow> [] | Some c \<Rightarrow> [(''rejection_code'', JStr (rejection_string c))]))"

definition evidence_json :: "EvidenceSummary \<Rightarrow> json" where
  "evidence_json s = JObj ([(''version'', JStr ''v1''), (''requirement'', JStr ''DAMAGE_PHOTO''), (''evidence_version'', JNum (su_evidence_version s)),
      (''assessment'', JStr (assessment_string (su_assessment s))), (''can_upload'', JBool (su_can_upload s)),
      (''attachments'', JArr (map photo_json (su_attachments s)))]
     @ (case su_customer_message_code s of None \<Rightarrow> [] | Some m \<Rightarrow> [(''customer_message_code'', JStr m)]))"

type_synonym 's evidence_reader = "'s \<Rightarrow> EvidenceScope \<Rightarrow> string \<Rightarrow> EvidenceFailure + EvidenceRecord"

definition evidenceCaseFields :: "'s evidence_reader \<Rightarrow> 's \<Rightarrow> HumanCase \<Rightarrow> HumanAccess option \<Rightarrow> EvidenceFailure + (string \<times> json) list" where
  "evidenceCaseFields read s c access =
     (case read s \<lparr> es_key = (hc_tenantId c, hc_environmentId c), es_subjectCustomerId = None \<rparr> (hc_workflowId c) of
        Inr r \<Rightarrow> Inr [(''evidence'', evidence_json (ce_evidence (evidenceSnapshot r))),
          (''allowed_evidence_actions'', JArr (case access of
             Some h \<Rightarrow> if canReviewEvidence h r then [JStr ''ACCEPT_EVIDENCE'', JStr ''REQUEST_MORE_EVIDENCE''] else [] | None \<Rightarrow> []))]
      | Inl e \<Rightarrow> (case e of
            EvidenceError code status \<Rightarrow> if status = 404 \<and> hc_caseType c \<noteq> REFUND_EVIDENCE_REVIEW then Inr [] else Inl e
          | EvidenceUnexpected _ \<Rightarrow> Inl e))"

definition caseResponse :: "'s evidence_reader option \<Rightarrow> 's \<Rightarrow> HumanCase \<Rightarrow> HumanAccess option \<Rightarrow> EvidenceFailure + json" where
  "caseResponse evidence s c access =
     (case evidence of
        None \<Rightarrow> Inr (JObj (toHumanCaseResponse c access))
      | Some read \<Rightarrow> bindF (evidenceCaseFields read s c access) (\<lambda>fields. Inr (JObj (toHumanCaseResponse c access @ fields))))"

definition case_answer :: "'s evidence_reader option \<Rightarrow> 's \<Rightarrow> HumanCase \<Rightarrow> HumanAccess \<Rightarrow> answer" where
  "case_answer evidence s c access = (case caseResponse evidence s c (Some access) of
     Inl _ \<Rightarrow> Inl (500, ''human_operations_failure'') | Inr j \<Rightarrow> Inr (200, JObj [(''refund_case'', j)]))"

section \<open>Handlers\<close>

type_synonym human_verifier = "string option \<Rightarrow> HumanAccess result"
type_synonym case_verifier = "string option \<Rightarrow> Purpose \<Rightarrow> WorkflowCaseAccess result"

record SentDecision =
  sd_workflowId :: string
  sd_staffId :: string
  sd_scope :: scope_key
  sd_decision :: HumanCaseAction
  sd_decidedAt :: "string option"
  sd_reasonCode :: "string option"

definition access_scope :: "HumanAccess \<Rightarrow> scope_key" where
  "access_scope access = (ha_tenantId access, ha_environmentId access)"

definition verifyHuman :: "human_verifier \<Rightarrow> string option \<Rightarrow> (HumanAccess \<Rightarrow> 'b) \<Rightarrow> ((nat \<times> string) \<Rightarrow> 'b) \<Rightarrow> 'b" where
  "verifyHuman verify header k fail = (case verify header of Inl _ \<Rightarrow> fail (401, ''human_unauthorized'') | Inr access \<Rightarrow> k access)"

definition verifyWorkflow :: "case_verifier option \<Rightarrow> Purpose \<Rightarrow> string option \<Rightarrow> (WorkflowCaseAccess \<Rightarrow> 'b) \<Rightarrow> ((nat \<times> string) \<Rightarrow> 'b) \<Rightarrow> 'b" where
  "verifyWorkflow verify purpose header k fail = (case verify of
     None \<Rightarrow> fail (503, ''workflow_auth_unavailable'')
   | Some v \<Rightarrow> (case v header purpose of Inl _ \<Rightarrow> fail (401, ''workflow_unauthorized'') | Inr access \<Rightarrow> k access))"

definition case_fields :: "HumanCase \<Rightarrow> json" where
  "case_fields c = JObj [(''refund_case'', JObj (toHumanCaseResponse c None))]"

definition post_refund_cases ::
  "'s HumanCaseRepository \<Rightarrow> case_verifier option \<Rightarrow> 's \<Rightarrow> int \<Rightarrow> (nat \<Rightarrow> string) \<Rightarrow> json \<Rightarrow> string option \<Rightarrow> string option \<Rightarrow> 's \<times> answer" where
  "post_refund_cases repo verify s now ids body key header =
     (case workerOpenCaseSchema body of
        None \<Rightarrow> (s, Inl (400, ''invalid_human_case''))
      | Some i \<Rightarrow>
          if parseIdempotencyKey key = None \<or> oi_caseType i = REFUND_EVIDENCE_REVIEW then (s, Inl (400, ''invalid_human_case''))
          else verifyWorkflow verify P_human_case_open header (\<lambda>access.
            if wa_workflowId access \<noteq> oi_workflowId i then (s, Inl (403, ''workflow_case_mismatch''))
            else (case hr_open repo s now ids (wa_tenantId access, wa_environmentId access) i of
                Inl e \<Rightarrow> (s, Inl (repositoryFailure e))
              | Inr (s', c) \<Rightarrow> (s', Inr (201, case_fields c)))) (\<lambda>e. (s, Inl e)))"

definition post_refund_case_close ::
  "'s HumanCaseRepository \<Rightarrow> case_verifier option \<Rightarrow> 's \<Rightarrow> int \<Rightarrow> (nat \<Rightarrow> string) \<Rightarrow> json \<Rightarrow> json \<Rightarrow> string option \<Rightarrow> string option \<Rightarrow> 's \<times> answer" where
  "post_refund_case_close repo verify s now ids param body key header =
     (case (opaque200 param, workerCloseCaseSchema body, parseIdempotencyKey key) of
        (Some caseId, Some (workflowId, outcome), Some _) \<Rightarrow>
          verifyWorkflow verify P_human_case_close header (\<lambda>access. let sc = (wa_tenantId access, wa_environmentId access) in
            if wa_workflowId access \<noteq> workflowId then (s, Inl (403, ''workflow_case_mismatch''))
            else (case (if outcome = None then Inr None
                        else bindF (hr_get repo s sc caseId) (\<lambda>current. if hc_caseType current \<noteq> REFUND_EVIDENCE_REVIEW then Inr (Some (400, ''invalid_human_case'')) else Inr None)) of
                Inl e \<Rightarrow> (s, Inl (repositoryFailure e))
              | Inr (Some refusal) \<Rightarrow> (s, Inl refusal)
              | Inr None \<Rightarrow> (case hr_close repo s now ids sc caseId workflowId outcome of
                    Inl e \<Rightarrow> (s, Inl (repositoryFailure e))
                  | Inr (s', c) \<Rightarrow> (s', Inr (200, case_fields c))))) (\<lambda>e. (s, Inl e))
      | _ \<Rightarrow> (s, Inl (400, ''invalid_human_case'')))"

definition get_refund_cases :: "'s HumanCaseRepository \<Rightarrow> human_verifier \<Rightarrow> 's \<Rightarrow> json \<Rightarrow> string option \<Rightarrow> answer" where
  "get_refund_cases repo verify s query header =
     (case listQuerySchema query of
        None \<Rightarrow> Inl (400, ''invalid_refund_case_query'')
      | Some (st, assignee) \<Rightarrow> verifyHuman verify header (\<lambda>access.
          let cs = hr_list repo s (access_scope access) st
                (map_option (\<lambda>a. if a = ''me'' then Me (ha_staffId access) else Unassigned) assignee)
          in Inr (200, JObj [(''refund_cases'', JArr (map (\<lambda>c. JObj (toHumanCaseResponse c (Some access))) (filter (canViewCase access) cs)))])) Inl)"

definition get_refund_case :: "'s HumanCaseRepository \<Rightarrow> 's evidence_reader option \<Rightarrow> human_verifier \<Rightarrow> 's \<Rightarrow> json \<Rightarrow> string option \<Rightarrow> answer" where
  "get_refund_case repo evidence verify s param header =
     (case opaque200 param of
        None \<Rightarrow> Inl (400, ''invalid_refund_case'')
      | Some caseId \<Rightarrow> verifyHuman verify header (\<lambda>access. let sc = access_scope access in
          case hr_get repo s sc caseId of
            Inl e \<Rightarrow> Inl (repositoryFailure e)
          | Inr c \<Rightarrow>
              if \<not> canViewCase access c then Inl (404, ''refund_case_not_found'')
              else (case hr_auditEvents repo s sc (hc_caseId c) of
                  Inl e \<Rightarrow> Inl (repositoryFailure e)
                | Inr events \<Rightarrow> (case caseResponse evidence s c (Some access) of
                      Inl _ \<Rightarrow> Inl (500, ''human_operations_failure'')
                    | Inr j \<Rightarrow> Inr (200, JObj [(''refund_case'', j), (''audit_events'', JArr (map toAuditEventResponse events))])))) Inl)"

definition post_claim ::
  "'s HumanCaseRepository \<Rightarrow> 's evidence_reader option \<Rightarrow> human_verifier \<Rightarrow> 's \<Rightarrow> int \<Rightarrow> (nat \<Rightarrow> string) \<Rightarrow> json \<Rightarrow> json \<Rightarrow> string option \<Rightarrow> string option \<Rightarrow> 's \<times> answer" where
  "post_claim repo evidence verify s now ids param body key header =
     (case (opaque200 param, claimBodySchema body, parseIdempotencyKey key) of
        (Some caseId, Some version, Some k) \<Rightarrow> verifyHuman verify header (\<lambda>access. let sc = access_scope access in
          case hr_get repo s sc caseId of
            Inl e \<Rightarrow> (s, Inl (repositoryFailure e))
          | Inr current \<Rightarrow>
              if \<not> canSubmitClaim access current then (s, Inl (403, ''human_action_forbidden''))
              else (case hr_claim repo s now ids sc \<lparr> ci_caseId = hc_caseId current, ci_staffId = ha_staffId access, ci_expectedVersion = version, ci_key = k \<rparr> of
                  Inl e \<Rightarrow> (s, Inl (repositoryFailure e))
                | Inr (s', c) \<Rightarrow> (s', case_answer evidence s' c access))) (\<lambda>e. (s, Inl e))
      | _ \<Rightarrow> (s, Inl (400, ''invalid_refund_case_claim'')))"

definition post_reassign ::
  "'s HumanCaseRepository \<Rightarrow> 's evidence_reader option \<Rightarrow> human_verifier \<Rightarrow> 's \<Rightarrow> int \<Rightarrow> (nat \<Rightarrow> string) \<Rightarrow> json \<Rightarrow> json \<Rightarrow> string option \<Rightarrow> string option \<Rightarrow> 's \<times> answer" where
  "post_reassign repo evidence verify s now ids param body key header =
     (case (opaque200 param, reassignBodySchema body, parseIdempotencyKey key) of
        (Some caseId, Some (staff, version), Some k) \<Rightarrow> verifyHuman verify header (\<lambda>access.
          if ha_role access \<noteq> REFUND_SUPERVISOR then (s, Inl (403, ''human_action_forbidden''))
          else (case hr_reassign repo s now ids (access_scope access) \<lparr> ci_caseId = caseId, ci_staffId = staff, ci_expectedVersion = version, ci_key = k \<rparr> of
              Inl e \<Rightarrow> (s, Inl (repositoryFailure e))
            | Inr (s', c) \<Rightarrow> (s', case_answer evidence s' c access))) (\<lambda>e. (s, Inl e))
      | _ \<Rightarrow> (s, Inl (400, ''invalid_refund_case_reassignment'')))"

text \<open>\<^verbatim>\<open>deliverOutbox\<close>: the decision is marked delivered only when it was sent; a failure is not reported.\<close>

type_synonym sender = "SentDecision \<Rightarrow> unit result"

definition sent_decision :: "HumanDecisionOutboxEvent \<Rightarrow> SentDecision" where
  "sent_decision ev = \<lparr> sd_workflowId = ob_workflowId ev, sd_staffId = ob_decidedBy ev, sd_scope = (ob_tenantId ev, ob_environmentId ev),
     sd_decision = ob_decision ev, sd_decidedAt = Some (ob_decidedAt ev), sd_reasonCode = ob_reasonCode ev \<rparr>"

definition deliverOutbox :: "sender \<Rightarrow> 's HumanCaseRepository \<Rightarrow> int \<Rightarrow> 's \<Rightarrow> HumanDecisionOutboxEvent \<Rightarrow> 's \<times> bool" where
  "deliverOutbox send repo now s ev = (case send (sent_decision ev) of
     Inl _ \<Rightarrow> (s, False)
   | Inr _ \<Rightarrow> (hr_markOutboxDelivered repo s now (ob_tenantId ev, ob_environmentId ev) (ob_eventId ev), True))"

definition decide_input :: "HumanCase \<Rightarrow> HumanAccess \<Rightarrow> DecisionBody \<Rightarrow> string \<Rightarrow> DecideInput" where
  "decide_input c access b key = \<lparr> di_caseId = hc_caseId c, di_staffId = ha_staffId access, di_decision = db_decision b, di_reasonCode = db_reason_code b,
     di_note = db_note b, di_expectedVersion = db_expected_case_version b, di_key = key \<rparr>"

definition post_decision ::
  "'s HumanCaseRepository \<Rightarrow> sender \<Rightarrow> human_verifier \<Rightarrow> 's \<Rightarrow> int \<Rightarrow> (nat \<Rightarrow> string) \<Rightarrow> json \<Rightarrow> json \<Rightarrow> string option \<Rightarrow> string option \<Rightarrow> 's \<times> answer" where
  "post_decision repo send verify s now ids param body key header =
     (case (opaque200 param, decisionBodySchema body, parseIdempotencyKey key) of
        (Some caseId, Some b, Some k) \<Rightarrow> verifyHuman verify header (\<lambda>access. let sc = access_scope access in
          case hr_get repo s sc caseId of
            Inl e \<Rightarrow> (s, Inl (repositoryFailure e))
          | Inr current \<Rightarrow>
              if \<not> canSubmitDecision access current (db_decision b) then (s, Inl (403, ''human_action_forbidden''))
              else (case hr_decide repo s now ids sc (decide_input current access b k) of
                  Inl e \<Rightarrow> (s, Inl (repositoryFailure e))
                | Inr (s1, c, ev) \<Rightarrow>
                    (let s2 = (if hr_isOutboxPending repo s1 sc (ob_eventId ev) then fst (deliverOutbox send repo now s1 ev) else s1)
                     in (s2, Inr (202, JObj [(''refund_case'', JObj (toHumanCaseResponse c (Some access)))]))))) (\<lambda>e. (s, Inl e))
      | _ \<Rightarrow> (s, Inl (400, ''invalid_human_decision'')))"

text \<open>The deprecated route hands a decision to a workflow without a case.\<close>

definition post_workflow_decision ::
  "'s evidence_reader option \<Rightarrow> sender \<Rightarrow> human_verifier \<Rightarrow> 's \<Rightarrow> json \<Rightarrow> json \<Rightarrow> string option \<Rightarrow> SentDecision list \<times> answer" where
  "post_workflow_decision evidence send verify s param body header =
     (case (opaque200 param, legacyBodySchema body) of
        (Some workflowId, Some (d, reason)) \<Rightarrow> verifyHuman verify header (\<lambda>access.
          let governed = (case evidence of None \<Rightarrow> Inr False
                | Some read \<Rightarrow> (case read s \<lparr> es_key = access_scope access, es_subjectCustomerId = None \<rparr> workflowId of
                      Inr _ \<Rightarrow> Inr True
                    | Inl (EvidenceError code status) \<Rightarrow> if status = 404 then Inr False else Inl ()
                    | Inl (EvidenceUnexpected _) \<Rightarrow> Inl ()));
              input = \<lparr> sd_workflowId = workflowId, sd_staffId = ha_staffId access, sd_scope = access_scope access, sd_decision = d,
                sd_decidedAt = None, sd_reasonCode = reason \<rparr>
          in case governed of
               Inl _ \<Rightarrow> ([], Inl (502, ''workflow_unavailable''))
             | Inr True \<Rightarrow> ([], Inl (409, ''evidence_governed_case_required''))
             | Inr False \<Rightarrow> (case send input of
                   Inl _ \<Rightarrow> ([], Inl (502, ''workflow_unavailable''))
                 | Inr _ \<Rightarrow> ([input], Inr (202, JObj [(''workflow_id'', JStr workflowId), (''status'', JStr ''decision_received'')])))) (\<lambda>e. ([], Inl e))
      | _ \<Rightarrow> ([], Inl (400, ''invalid_human_decision'')))"

section \<open>Delivery to the workflow\<close>

text \<open>
  \<^verbatim>\<open>sendDecision\<close> of the server: the workflow is asked for its tenant and environment, and only then
  signalled. The two calls of the workflow service are arguments.
\<close>

definition sendDecision ::
  "(string \<Rightarrow> scope_key result) \<Rightarrow> (string \<Rightarrow> RefundHumanDecision \<Rightarrow> unit result) \<Rightarrow> int \<Rightarrow> sender" where
  "sendDecision query signal now i =
     bindE (query (sd_workflowId i)) (\<lambda>sc.
       if sc \<noteq> sd_scope i then Inl (Error ''WORKFLOW_ACCESS_DENIED'')
       else signal (sd_workflowId i) \<lparr> hd_decision = sd_decision i, hd_decidedBy = sd_staffId i,
              hd_decidedAt = (case sd_decidedAt i of None \<Rightarrow> iso_string now | Some t \<Rightarrow> t), hd_reasonCode = sd_reasonCode i \<rparr>)"

fun deliver_pending :: "sender \<Rightarrow> 's HumanCaseRepository \<Rightarrow> int \<Rightarrow> 's \<Rightarrow> HumanDecisionOutboxEvent list \<Rightarrow> 's" where
  "deliver_pending send repo now s [] = s"
| "deliver_pending send repo now s (ev # evs) = deliver_pending send repo now (fst (deliverOutbox send repo now s ev)) evs"

definition dispatchPendingOutbox :: "sender \<Rightarrow> 's HumanCaseRepository \<Rightarrow> int \<Rightarrow> 's \<Rightarrow> scope_key \<Rightarrow> 's" where
  "dispatchPendingOutbox send repo now s sc = deliver_pending send repo now s (hr_listPendingOutbox repo s sc 50)"


section \<open>A decision needs the case and the role\<close>

lemma outbox_event_fields [simp]: "ob_decidedBy (outbox_event e t c i) = di_staffId i" "ob_decision (outbox_event e t c i) = di_decision i"
  by (simp_all add: outbox_event_def)

lemma decisions_grow:
  assumes "case_spec v v'" and "ev \<in> sp_decisions v'" and "ev \<notin> sp_decisions v"
  shows "\<exists>c. sp_cases v (event_key ev) = Some c \<and> hc_status c = CLAIMED \<and> hc_assignedStaffId c = Some (ob_decidedBy ev) \<and> ob_decision ev \<in> set (hc_allowedActions c)"
  using assms by cases (auto simp: put_case_def)

lemma decisionBody_note: "decisionBodySchema body = Some b \<Longrightarrow> db_decision b = APPROVE \<or> db_note b \<noteq> None"
  by (cases "db_decision b") (auto simp: decisionBodySchema_def bind_eq_Some_conv split: if_split_asm)

lemma canSubmitDecision_role: "canSubmitDecision access c d \<Longrightarrow> hasCaseRole access c \<and> hc_assignedStaffId c = Some (ha_staffId access)"
  by (auto simp: canSubmitDecision_def canRetryPendingDecision_def allowedActionsForHuman_def split: if_split_asm)

text \<open>What stands behind a decision: who made it, on which case, in which role, with which words.\<close>

definition decision_authorized :: "human_verifier \<Rightarrow> string option \<Rightarrow> HumanCase \<Rightarrow> HumanDecisionOutboxEvent \<Rightarrow> bool" where
  "decision_authorized verify header c ev \<longleftrightarrow> (case verify header of Inl _ \<Rightarrow> False
     | Inr access \<Rightarrow> ob_decidedBy ev = ha_staffId access \<and> fst (event_key ev) = access_scope access \<and> hasCaseRole access c
         \<and> hc_status c = CLAIMED \<and> hc_assignedStaffId c = Some (ha_staffId access) \<and> hc_caseType c \<noteq> REFUND_EVIDENCE_REVIEW
         \<and> ob_decision ev \<in> set (allowedActionsForCaseType (hc_caseType c)) \<and> (ob_decision ev = APPROVE \<or> ob_note ev \<noteq> None))"

context human_case_repository
begin

lemma deliver_view: "ok s \<Longrightarrow> ok (fst (deliverOutbox send repo now s ev)) \<and> view (fst (deliverOutbox send repo now s ev)) = view s"
  using delivers [of s now "(ob_tenantId ev, ob_environmentId ev)" "ob_eventId ev"] by (simp add: deliverOutbox_def split: sum.split)

lemma post_decision_decides:
  assumes "post_decision repo send verify s now ids param body key header = (s', a)" and "ok s" and "s' \<noteq> s"
  obtains access caseId c b k s1 c1 ev where "verify header = Inr access" "decisionBodySchema body = Some b"
    "hr_get repo s (access_scope access) caseId = Inr c" "canSubmitDecision access c (db_decision b)"
    "hr_decide repo s now ids (access_scope access) (decide_input c access b k) = Inr (s1, c1, ev)" "view s' = view s1"
proof -
  from assms(1,3) obtain access caseId c b k s1 c1 ev where d: "verify header = Inr access" "decisionBodySchema body = Some b"
    "hr_get repo s (access_scope access) caseId = Inr c" "canSubmitDecision access c (db_decision b)"
    "hr_decide repo s now ids (access_scope access) (decide_input c access b k) = Inr (s1, c1, ev)"
    "s' = (if hr_isOutboxPending repo s1 (access_scope access) (ob_eventId ev) then fst (deliverOutbox send repo now s1 ev) else s1)"
    by (auto simp: post_decision_def verifyHuman_def Let_def split: option.split_asm sum.split_asm if_split_asm)
  have "ok s1" using decides [OF assms(2) d(5)] by simp
  then have "view s' = view s1" using d(6) deliver_view by simp
  with d that show thesis by blast
qed

lemma new_decision_authorized:
  assumes "post_decision repo send verify s now ids param body key header = (s', a)" and "ok s" and "spec_ok (view s)"
    and "ev \<in> sp_decisions (view s')" and "ev \<notin> sp_decisions (view s)"
  shows "\<exists>c. sp_cases (view s) (event_key ev) = Some c \<and> decision_authorized verify header c ev"
proof -
  have "s' \<noteq> s" using assms(4,5) by auto
  from post_decision_decides [OF assms(1,2) this] obtain access caseId c b k s1 c1 ev' where d: "verify header = Inr access"
    "decisionBodySchema body = Some b" "hr_get repo s (access_scope access) caseId = Inr c" "canSubmitDecision access c (db_decision b)"
    "hr_decide repo s now ids (access_scope access) (decide_input c access b k) = Inr (s1, c1, ev')" "view s' = view s1" .
  have found: "sp_cases (view s) (access_scope access, caseId) = Some c"
    using d(3) unfolding get [OF assms(2)] by (simp split: option.split_asm)
  then have c: "key_of c = (access_scope access, caseId)" "hc_allowedActions c = allowedActionsForCaseType (hc_caseType c)"
    using spec_ok_case [OF assms(3)] by (auto simp: case_ok_def)
  have "ev' = ev" "event_key ev = (access_scope access, hc_caseId c)" "ob_decision ev = db_decision b" "ob_decidedBy ev = ha_staffId access"
    "ob_note ev = db_note b"
    using decides_new [OF assms(2) d(5)] assms(4,5) d(6) by (auto simp: new_decision_def decide_input_def)
  moreover have "event_key ev = key_of c" using c(1) calculation(2) by (simp add: key_of_def)
  moreover from decisions_grow [of "view s" "view s1" ev] decides [OF assms(2) d(5)] assms(4,5) d(6) found c calculation
  have "hc_status c = CLAIMED" "ob_decision ev \<in> set (hc_allowedActions c)" by auto
  ultimately show ?thesis
    using found c d(1) decisionBody_note [OF d(2)] canSubmitDecision_role [OF d(4)]
    by (auto simp: decision_authorized_def allowedActionsForCaseType_def)
qed

end

text \<open>
  C9. A decision that the governed route adds to the outbox was made by the verified caller, in the
  caller's tenant and environment, on a case that is claimed by and assigned to the caller, in the
  role for its type; it is an action of that type, never an evidence review, and it carries a note
  unless it is a plain approval.
\<close>

theorem governed_decision_authorized:
  assumes "(human_step digest collate)\<^sup>*\<^sup>* no_evidence db"
    and "post_decision (postgresCases digest) send verify db now ids param body key header = (db', a)"
    and "row \<in> set (hd_outbox db')" and "outbox_key row \<notin> outbox_key ` set (hd_outbox db)"
  shows "\<exists>c \<in> set (hd_cases db). case_key c = (fst (outbox_key row), or_case_id row)
    \<and> decision_authorized verify header (toHumanCase c) (toOutboxEvent row)"
proof -
  have ok: "pg_cases_ok db" "spec_ok (pg_view db)" using reachable_tables [OF assms(1)] by (simp_all add: tables_ok_def)
  have "toOutboxEvent row \<in> sp_decisions (pg_view db')" using assms(3) by (simp add: pg_view_def)
  moreover have "toOutboxEvent row \<notin> sp_decisions (pg_view db)"
    using assms(4) by (auto simp: pg_view_def toOutboxEvent_def outbox_key_def image_iff)
  ultimately obtain c where "sp_cases (pg_view db) (event_key (toOutboxEvent row)) = Some c" "decision_authorized verify header c (toOutboxEvent row)"
    using pgc.new_decision_authorized [OF assms(2) ok] by blast
  then show ?thesis by (auto simp: pg_view_def dest!: find_in_set)
qed


definition sample_decision_body :: json where
  "sample_decision_body = JObj [(''decision'', JStr ''APPROVE''), (''expected_case_version'', JNum 2)]"

definition signed_in :: human_verifier where
  "signed_in header = Inr sample_reviewer"

definition workflow_down :: sender where
  "workflow_down d = Inl (Error ''workflow unavailable'')"

lemma sample_decision_parses: "decisionBodySchema sample_decision_body
    = Some \<lparr> db_decision = APPROVE, db_reason_code = None, db_note = None, db_expected_case_version = 2 \<rparr>"
  by (simp add: decisionBodySchema_def sample_decision_body_def decision_table_def) code_simp

lemma sample_post_decision:
  "fst (post_decision (postgresCases plain_digest) workflow_down signed_in claimed_case_db 0 (two_ids ''4'' ''5'') (JStr ''case-1'') sample_decision_body
     (Some ''decision-key-1'') None) = decided_case_db"
proof -
  obtain c ev where d: "pg_decide plain_digest claimed_case_db 0 (two_ids ''4'' ''5'') (''t'', ''e'') sample_decision = Inr (decided_case_db, c, ev)"
    using decided_case_outbox by auto
  have ids: "opaque200 (JStr ''case-1'') = Some ''case-1''" "parseIdempotencyKey (Some ''decision-key-1'') = Some ''decision-key-1''"
    by code_simp+
  obtain current where get: "pg_case_get claimed_case_db (''t'', ''e'') ''case-1'' = Inr current" "hc_caseId current = ''case-1''"
    "hc_status current = CLAIMED" "hc_assignedStaffId current = Some ''staff-1''" "hc_caseType current = REFUND_APPROVAL"
    by (simp add: pg_case_get_def claimed_case_val claim_defs case_key_def row_scope_def bindF_def)
  have sc: "access_scope sample_reviewer = (''t'', ''e'')" by (simp add: access_scope_def sample_reviewer_def)
  have can: "canSubmitDecision sample_reviewer current APPROVE"
    using get by (simp add: canSubmitDecision_def allowedActionsForHuman_def hasCaseRole_def sample_reviewer_def)
  have input: "decide_input current sample_reviewer \<lparr> db_decision = APPROVE, db_reason_code = None, db_note = None, db_expected_case_version = 2 \<rparr> ''decision-key-1'' = sample_decision"
    using get by (simp add: decide_input_def sample_decision_def sample_reviewer_def)
  show ?thesis
    using get(1) can d by (simp add: post_decision_def ids sample_decision_parses verifyHuman_def signed_in_def sc Let_def postgresCases_def input deliverOutbox_def workflow_down_def)
qed

theorem governed_decision_authorized_witness:
  "\<exists>c \<in> set (hd_cases claimed_case_db). \<exists>row \<in> set (hd_outbox decided_case_db). decision_authorized signed_in None (toHumanCase c) (toOutboxEvent row)"
proof -
  obtain a where run: "post_decision (postgresCases plain_digest) workflow_down signed_in claimed_case_db 0 (two_ids ''4'' ''5'') (JStr ''case-1'')
      sample_decision_body (Some ''decision-key-1'') None = (decided_case_db, a)"
    using sample_post_decision by (metis prod.collapse)
  obtain row where row: "row \<in> set (hd_outbox decided_case_db)" using decided_case_outbox by auto
  have "hd_outbox claimed_case_db = []" by (simp add: claimed_case_val)
  with governed_decision_authorized [OF claimed_case_reachable run row] row show ?thesis by auto
qed


section \<open>Delivery of decisions\<close>

definition sends :: "sender \<Rightarrow> HumanDecisionOutboxEvent \<Rightarrow> bool" where
  "sends send ev \<longleftrightarrow> (case send (sent_decision ev) of Inl _ \<Rightarrow> False | Inr _ \<Rightarrow> True)"

definition undelivered :: "'z HumanDb_scheme \<Rightarrow> scope_key \<Rightarrow> OutboxRow list" where
  "undelivered db sc = filter (\<lambda>row. fst (outbox_key row) = sc \<and> or_delivered_at row = None) (hd_outbox db)"

definition due :: "'z HumanDb_scheme \<Rightarrow> scope_key \<Rightarrow> OutboxRow list" where
  "due db sc = take 50 (sort_key or_created_at (undelivered db sc))"

definition deliver_row :: "int \<Rightarrow> (scope_key \<times> string) set \<Rightarrow> OutboxRow \<Rightarrow> OutboxRow" where
  "deliver_row now ks row = (if outbox_key row \<in> ks \<and> or_delivered_at row = None then row\<lparr> or_delivered_at := Some now \<rparr> else row)"

definition row_key :: "HumanDecisionOutboxEvent \<Rightarrow> scope_key \<times> string" where
  "row_key ev = ((ob_tenantId ev, ob_environmentId ev), ob_eventId ev)"

lemma row_key_event [simp]: "row_key (toOutboxEvent row) = outbox_key row"
  by (simp add: row_key_def toOutboxEvent_def outbox_key_def)

lemma deliver_row_key [simp]: "outbox_key (deliver_row now ks row) = outbox_key row"
  by (simp add: deliver_row_def outbox_key_def)

lemma deliver_row_pending: "or_delivered_at (deliver_row now ks row) = None \<longleftrightarrow> or_delivered_at row = None \<and> outbox_key row \<notin> ks"
  by (auto simp: deliver_row_def)

lemma deliver_row_empty [simp]: "deliver_row now {} = (\<lambda>row. row)"
  by (simp add: deliver_row_def fun_eq_iff)

lemma deliver_row_insert: "deliver_row now ks (deliver_row now {k} row) = deliver_row now (insert k ks) row"
  by (auto simp: deliver_row_def outbox_key_def)

lemma deliverOutbox_pg:
  "fst (deliverOutbox send (postgresCases h) now db ev) = db\<lparr> hd_outbox := map (deliver_row now (if sends send ev then {row_key ev} else {})) (hd_outbox db) \<rparr>"
proof (cases "send (sent_decision ev)")
  case (Inr u)
  have "delivered_row now (ob_tenantId ev, ob_environmentId ev) (ob_eventId ev) = deliver_row now {row_key ev}"
    by (simp add: fun_eq_iff delivered_row_def deliver_row_def row_key_def)
  with Inr show ?thesis by (simp add: deliverOutbox_def sends_def postgresCases_def pg_markOutboxDelivered_def)
qed (simp add: deliverOutbox_def sends_def)

lemma deliver_pending_pg:
  "deliver_pending send (postgresCases h) now db evs
    = db\<lparr> hd_outbox := map (deliver_row now (row_key ` {ev \<in> set evs. sends send ev})) (hd_outbox db) \<rparr>"
proof (induction evs arbitrary: db)
  case (Cons ev evs)
  have "{e \<in> set (ev # evs). sends send e} = (if sends send ev then insert ev {e \<in> set evs. sends send e} else {e \<in> set evs. sends send e})" by auto
  then show ?case by (simp add: Cons.IH deliverOutbox_pg deliver_row_insert o_def)
qed simp

lemma dispatch_pg:
  "dispatchPendingOutbox send (postgresCases h) now db sc
    = db\<lparr> hd_outbox := map (deliver_row now (outbox_key ` {row \<in> set (due db sc). sends send (toOutboxEvent row)})) (hd_outbox db) \<rparr>"
proof -
  have "row_key ` {ev \<in> toOutboxEvent ` set (due db sc). sends send ev} = outbox_key ` {row \<in> set (due db sc). sends send (toOutboxEvent row)}"
    by (force simp: image_iff)
  then show ?thesis
    by (simp add: dispatchPendingOutbox_def deliver_pending_pg) (simp add: postgresCases_def pg_listPendingOutbox_def due_def undelivered_def)
qed

lemma due_undelivered: "row \<in> set (due db sc) \<Longrightarrow> row \<in> set (undelivered db sc)"
  by (auto simp: due_def dest: in_set_takeD)

lemma filter_map_same: "(\<And>x. x \<in> set xs \<Longrightarrow> P (f x) \<Longrightarrow> f x = x) \<Longrightarrow> filter P (map f xs) = filter (\<lambda>x. P (f x)) xs"
  by (induction xs) auto

lemma undelivered_dispatch:
  assumes "distinct (map outbox_key (hd_outbox db))"
  shows "undelivered (dispatchPendingOutbox send (postgresCases h) now db sc) sc
    = filter (\<lambda>row. \<not> (row \<in> set (due db sc) \<and> sends send (toOutboxEvent row))) (undelivered db sc)"
proof -
  let ?ks = "outbox_key ` {row \<in> set (due db sc). sends send (toOutboxEvent row)}"
  have same: "outbox_key row \<in> ?ks \<longleftrightarrow> row \<in> set (due db sc) \<and> sends send (toOutboxEvent row)" if "row \<in> set (hd_outbox db)" for row
    using assms that due_undelivered [of _ db sc] by (auto simp: undelivered_def distinct_map inj_on_def image_iff)
  have "undelivered (dispatchPendingOutbox send (postgresCases h) now db sc) sc
      = filter (\<lambda>row. fst (outbox_key row) = sc \<and> or_delivered_at row = None) (map (deliver_row now ?ks) (hd_outbox db))"
    by (simp add: undelivered_def dispatch_pg)
  also have "\<dots> = filter (\<lambda>row. fst (outbox_key row) = sc \<and> or_delivered_at (deliver_row now ?ks row) = None) (hd_outbox db)"
    by (subst filter_map_same) (auto simp: deliver_row_def)
  also have "\<dots> = filter (\<lambda>row. \<not> (row \<in> set (due db sc) \<and> sends send (toOutboxEvent row))) (undelivered db sc)"
    unfolding undelivered_def filter_filter by (intro filter_cong) (auto simp: deliver_row_pending same)
  finally show ?thesis .
qed


lemma not_taken: "distinct xs \<Longrightarrow> filter (\<lambda>x. x \<notin> set (take n xs)) xs = drop n xs"
proof (induction xs arbitrary: n)
  case (Cons a xs)
  have "filter (\<lambda>x. x \<noteq> a \<and> x \<notin> set (take m xs)) xs = filter (\<lambda>x. x \<notin> set (take m xs)) xs" for m
    using Cons.prems by (intro filter_cong) auto
  with Cons show ?case by (cases n) simp_all
qed simp

lemma length_not_due:
  assumes "distinct (undelivered db sc)"
  shows "length (filter (\<lambda>row. row \<notin> set (due db sc)) (undelivered db sc)) = length (undelivered db sc) - 50"
proof -
  let ?s = "sort_key or_created_at (undelivered db sc)"
  have "length (filter P (undelivered db sc)) = length (filter P ?s)" for P
    by (metis mset_filter mset_sort size_mset)
  with not_taken [of ?s 50] assms show ?thesis by (simp add: due_def)
qed

lemma dispatch_keys: "map outbox_key (hd_outbox (dispatchPendingOutbox send (postgresCases h) now db sc)) = map outbox_key (hd_outbox db)"
  by (simp add: dispatch_pg)

text \<open>
  C36. The outbox drains: when the workflow accepts the pending decisions of a tenant, every run of
  the dispatcher delivers the fifty oldest, so that a run for each fifty of them leaves none.
\<close>

theorem outbox_drains:
  assumes "(human_step digest collate)\<^sup>*\<^sup>* no_evidence db" and "\<forall>row \<in> set (undelivered db sc). sends send (toOutboxEvent row)"
    and "length (undelivered db sc) \<le> 50 * length nows"
  shows "undelivered (fold (\<lambda>now db. dispatchPendingOutbox send (postgresCases digest) now db sc) nows db) sc = []"
proof -
  have "distinct (map outbox_key (hd_outbox db))" using reachable_tables [OF assms(1)] by (simp add: tables_ok_def pg_cases_ok_def)
  then show ?thesis using assms(2,3)
  proof (induction nows arbitrary: db)
    case (Cons now nows)
    let ?db = "dispatchPendingOutbox send (postgresCases digest) now db sc"
    have rest: "undelivered ?db sc = filter (\<lambda>row. row \<notin> set (due db sc)) (undelivered db sc)"
      unfolding undelivered_dispatch [OF Cons.prems(1)] using Cons.prems(2) by (intro filter_cong) auto
    have "distinct (undelivered db sc)" using Cons.prems(1) by (simp add: undelivered_def distinct_map)
    then have "length (undelivered ?db sc) \<le> 50 * length nows" using length_not_due [of db sc] Cons.prems(3) by (simp add: rest)
    moreover have "\<forall>row \<in> set (undelivered ?db sc). sends send (toOutboxEvent row)" using Cons.prems(2) by (simp add: rest)
    ultimately show ?case using Cons.IH [of ?db] Cons.prems(1) by (simp add: dispatch_keys)
  qed simp
qed

text \<open>
  A run of the dispatcher reads the fifty oldest pending decisions and nothing else: when none of
  them can be sent, nothing changes, so no later decision is ever delivered by the dispatcher while
  those fifty fail, however often it runs.
\<close>

theorem outbox_blocked:
  assumes "\<forall>row \<in> set (due db sc). \<not> sends send (toOutboxEvent row)"
  shows "fold (\<lambda>now db. dispatchPendingOutbox send (postgresCases digest) now db sc) nows db = db"
proof -
  have "{row \<in> set (due db sc). sends send (toOutboxEvent row)} = {}" using assms by auto
  then have "dispatchPendingOutbox send (postgresCases digest) now db sc = db" for now by (simp only: dispatch_pg image_empty deliver_row_empty) simp
  then show ?thesis by (induction nows) simp_all
qed


definition workflow_up :: sender where
  "workflow_up d = Inr ()"

theorem outbox_drains_witness:
  "undelivered decided_case_db (''t'', ''e'') \<noteq> []
    \<and> undelivered (dispatchPendingOutbox workflow_up (postgresCases plain_digest) 1 decided_case_db (''t'', ''e'')) (''t'', ''e'') = []"
proof -
  have pending: "length (undelivered decided_case_db (''t'', ''e'')) = 1"
    by (simp add: undelivered_def decided_case_db_def claimed_case_val sample_input_defs claim_defs case_key_def row_scope_def bindF_def Let_def appendAudit_def replace_case_def)
  have "undelivered (fold (\<lambda>now db. dispatchPendingOutbox workflow_up (postgresCases plain_digest) now db (''t'', ''e'')) [1] decided_case_db) (''t'', ''e'') = []"
    by (rule outbox_drains [OF decided_case_reachable]) (simp_all add: pending sends_def workflow_up_def)
  with pending show ?thesis by auto
qed

theorem outbox_blocked_witness:
  "fold (\<lambda>now db. dispatchPendingOutbox workflow_down (postgresCases plain_digest) now db (''t'', ''e'')) [1, 2, 3] decided_case_db = decided_case_db"
  by (rule outbox_blocked) (simp add: sends_def workflow_down_def)

section \<open>The deprecated route\<close>

text \<open>
  The deprecated route hands the workflow whatever decision a signed-in member of staff asks for,
  whatever the role and without a case, an assignment or a note: an approver may grant the exceptional
  refund that the governed route keeps for the supervisor a takeover case is assigned to. Only a
  workflow with evidence of its own is refused.
\<close>

theorem deprecated_route_ungoverned:
  assumes "verify header = Inr access" and "opaque200 param = Some workflowId" and "legacyBodySchema body = Some (d, reason)"
    and "send \<lparr> sd_workflowId = workflowId, sd_staffId = ha_staffId access, sd_scope = access_scope access, sd_decision = d, sd_decidedAt = None,
           sd_reasonCode = reason \<rparr> = Inr u"
    and "\<nexists>e. e \<in> set (hd_evidence db) \<and> evidence_key e = (access_scope access, workflowId)"
  shows "\<exists>sent body'. post_workflow_decision (Some ev_get) send verify db param body header = ([sent], Inr (202, body'))
    \<and> sd_workflowId sent = workflowId \<and> sd_decision sent = d \<and> sd_staffId sent = ha_staffId access"
proof -
  have "ev_get db \<lparr> es_key = access_scope access, es_subjectCustomerId = None \<rparr> workflowId = Inl (EvidenceError ''evidence_not_found'' 404)"
    using assms(5) by (auto simp: ev_get_def ev_load_def select_evidence_def find_None_iff split: option.split)
  with assms(1-4) show ?thesis by (simp add: post_workflow_decision_def verifyHuman_def Let_def)
qed

definition sample_exception :: json where
  "sample_exception = JObj [(''decision'', JStr ''APPROVE_EXCEPTIONAL_REFUND'')]"

theorem deprecated_route_ungoverned_witness:
  "ha_role sample_reviewer = REFUND_APPROVER \<and> (\<exists>sent body'.
     post_workflow_decision (Some ev_get) workflow_up signed_in claimed_case_db (JStr ''wf-9'') sample_exception None = ([sent], Inr (202, body'))
     \<and> sd_decision sent = APPROVE_EXCEPTIONAL_REFUND)"
proof -
  have parsed: "opaque200 (JStr ''wf-9'') = Some ''wf-9''" "legacyBodySchema sample_exception = Some (APPROVE_EXCEPTIONAL_REFUND, None)" by code_simp+
  have "\<nexists>e. e \<in> set (hd_evidence claimed_case_db) \<and> evidence_key e = (access_scope sample_reviewer, ''wf-9'')" by (simp add: claimed_case_val)
  from deprecated_route_ungoverned [where verify = signed_in and header = None and access = sample_reviewer and send = workflow_up and u = "()", OF _ parsed _ this]
  show ?thesis by (auto simp: signed_in_def workflow_up_def sample_reviewer_def)
qed

end
