(* ===== verification/Evidence_Routes.thy ===== *)
theory Evidence_Routes
  imports Human_Routes "HOL-Library.Word"
begin

text \<open>
  The routes of photo evidence, under \<^verbatim>\<open>src/apps/services/human-operations/src/\<close>: \<^verbatim>\<open>private-evidence-store.ts\<close>
  and \<^verbatim>\<open>refund-evidence-routes.ts\<close>. Photos are lists of bytes; the directory of the store is a map from
  file names to bytes. The image library, the hash of bytes and the test for a \<^verbatim>\<open>uuid\<close> are arguments.
  A request goes through the gate of at most four uploads before its body is read.
\<close>

section \<open>The private store\<close>

type_synonym bytes = "8 word list"
type_synonym files = "string \<Rightarrow> bytes option"

text \<open>A file name is a lower-case \<^verbatim>\<open>uuid\<close> and one of two extensions; nothing else reaches the disk.\<close>

definition key_char :: "char \<Rightarrow> bool" where
  "key_char c \<longleftrightarrow> (CHR ''a'' \<le> c \<and> c \<le> CHR ''f'') \<or> (CHR ''0'' \<le> c \<and> c \<le> CHR ''9'') \<or> c = CHR ''-''"

definition storage_key :: "string \<Rightarrow> bool" where
  "storage_key key \<longleftrightarrow> length key = 40 \<and> list_all key_char (take 36 key) \<and> drop 36 key \<in> {''.jpg'', ''.png''}"

definition store_filename :: "string \<Rightarrow> EvidenceFailure + string" where
  "store_filename key = (if storage_key key then Inr key else Inl (EvidenceError ''evidence_not_found'' 404))"

definition store_put :: "files \<Rightarrow> string \<Rightarrow> bytes \<Rightarrow> EvidenceFailure + files" where
  "store_put fs key bytes = bindF (store_filename key) (\<lambda>name.
     case fs name of Some _ \<Rightarrow> Inl (EvidenceUnexpected ''EEXIST'') | None \<Rightarrow> Inr (fs(name \<mapsto> bytes)))"

definition store_read :: "(bytes \<Rightarrow> string) \<Rightarrow> files \<Rightarrow> string \<Rightarrow> string \<Rightarrow> EvidenceFailure + bytes" where
  "store_read digest fs key expectedHash = bindF (store_filename key) (\<lambda>name.
     case fs name of
       None \<Rightarrow> Inl (EvidenceUnexpected ''ENOENT'')
     | Some bytes \<Rightarrow> if int (length bytes) > MAX_PHOTO_BYTES \<or> digest bytes \<noteq> expectedHash then Inl (EvidenceError ''evidence_unavailable'' 503) else Inr bytes)"

definition store_remove :: "files \<Rightarrow> string \<Rightarrow> EvidenceFailure + files" where
  "store_remove fs key = bindF (store_filename key) (\<lambda>name. Inr (fs(name := None)))"

section \<open>Validation of a photo\<close>

text \<open>What the image library tells of an image and makes of it; an exception is \<^const>\<open>None\<close>.\<close>

record ImageLibrary =
  im_metadata :: "bytes \<Rightarrow> (nat option \<times> nat option \<times> nat option) option"
  im_encode :: "ImageType \<Rightarrow> bytes \<Rightarrow> (bytes \<times> int \<times> int) option"

record ValidatedPhoto =
  vp_bytes :: bytes
  vp_contentType :: ImageType
  vp_width :: int
  vp_height :: int
  vp_sha256 :: string

definition is_jpeg :: "bytes \<Rightarrow> bool" where
  "is_jpeg bs \<longleftrightarrow> take 3 bs = [255, 216, 255]"

definition is_png :: "bytes \<Rightarrow> bool" where
  "is_png bs \<longleftrightarrow> take 8 bs = [137, 80, 78, 71, 13, 10, 26, 10]"

definition image_limits :: "nat option \<times> nat option \<times> nat option \<Rightarrow> bool" where
  "image_limits md = (case md of (pages, width, height) \<Rightarrow>
     (case pages of None \<Rightarrow> True | Some n \<Rightarrow> n \<le> 1)
     \<and> (case width of None \<Rightarrow> False | Some w \<Rightarrow> w \<noteq> 0 \<and> w \<le> 8192) \<and> (case height of None \<Rightarrow> False | Some h \<Rightarrow> h \<noteq> 0 \<and> h \<le> 8192))"

definition validatePhoto :: "ImageLibrary \<Rightarrow> (bytes \<Rightarrow> string) \<Rightarrow> bytes \<Rightarrow> ImageType \<Rightarrow> EvidenceFailure + ValidatedPhoto" where
  "validatePhoto lib digest bs declared =
     (let kind = (if is_jpeg bs then Image_jpeg else Image_png) in
      if bs = [] \<or> int (length bs) > MAX_PHOTO_BYTES then Inl (EvidenceError ''FILE_TOO_LARGE'' 409)
      else if (\<not> is_jpeg bs \<and> \<not> is_png bs) \<or> kind \<noteq> declared then Inl (EvidenceError ''INVALID_IMAGE'' 409)
      else (case im_metadata lib bs of
          None \<Rightarrow> Inl (EvidenceError ''INVALID_IMAGE'' 409)
        | Some md \<Rightarrow>
            if \<not> image_limits md then Inl (EvidenceError ''IMAGE_LIMIT_EXCEEDED'' 409)
            else (case im_encode lib kind bs of
                None \<Rightarrow> Inl (EvidenceError ''INVALID_IMAGE'' 409)
              | Some (out, w, h) \<Rightarrow>
                  if int (length out) > MAX_PHOTO_BYTES then Inl (EvidenceError ''FILE_TOO_LARGE'' 409)
                  else Inr \<lparr> vp_bytes = out, vp_contentType = kind, vp_width = w, vp_height = h, vp_sha256 = digest out \<rparr>)))"


section \<open>Requests\<close>

definition evidenceWorkflowId :: "json \<Rightarrow> string option" where
  "evidenceWorkflowId v = z_regex (opaque_id_upto 200) v"

record EnsureBody =
  eb_workflow_id :: string
  eb_binding :: EvidenceBinding
  eb_review_packet :: RefundReviewPacket

definition ensureSchema :: "json \<Rightarrow> EnsureBody option" where
  "ensureSchema body =
     do {
       v \<leftarrow> z_object [''workflow_id'', ''order_id'', ''proposal_id'', ''selected_item_ids'', ''review_packet'', ''policy_version''] body;
       w \<leftarrow> evidenceWorkflowId (get_prop ''workflow_id'' v);
       order \<leftarrow> opaqueId (get_prop ''order_id'' v);
       proposal \<leftarrow> opaqueId (get_prop ''proposal_id'' v);
       items \<leftarrow> z_array_max 100 opaqueId (get_prop ''selected_item_ids'' v);
       packet \<leftarrow> refundReviewPacketSchema (get_prop ''review_packet'' v);
       version \<leftarrow> opaqueId (get_prop ''policy_version'' v);
       (if \<not> distinct items \<or> version \<noteq> rp_policy_version packet \<or> sort items \<noteq> sort (packet_items packet) then None
        else Some \<lparr> eb_workflow_id = w, eb_binding = \<lparr> bi_order_id = order, bi_proposal_id = proposal, bi_selected_item_ids = items,
               bi_policy_version = version \<rparr>, eb_review_packet = packet \<rparr>)
     }"

definition transitionSchema :: "json \<Rightarrow> (HumanCaseType \<times> RefundReviewPacket \<times> string \<times> int) option" where
  "transitionSchema body =
     do {
       v \<leftarrow> z_object [''case_type'', ''review_packet'', ''policy_version'', ''expected_evidence_version''] body;
       t \<leftarrow> z_enum [(''REFUND_APPROVAL'', REFUND_APPROVAL), (''REFUND_TAKEOVER'', REFUND_TAKEOVER)] (get_prop ''case_type'' v);
       packet \<leftarrow> refundReviewPacketSchema (get_prop ''review_packet'' v);
       version \<leftarrow> opaqueId (get_prop ''policy_version'' v);
       revision \<leftarrow> z_int_min 1 (get_prop ''expected_evidence_version'' v);
       Some (t, packet, version, revision)
     }"

definition parsed :: "'a option \<Rightarrow> EvidenceFailure + 'a" where
  "parsed v = (case v of None \<Rightarrow> Inl (EvidenceError ''invalid_evidence'' 400) | Some x \<Rightarrow> Inr x)"

definition idempotencyKey :: "string option \<Rightarrow> EvidenceFailure + string" where
  "idempotencyKey key = parsed (parseIdempotencyKey key)"

text \<open>The header of the expected revision: digits without a leading zero, a safe integer.\<close>

definition digits_value :: "string \<Rightarrow> int" where
  "digits_value s = foldl (\<lambda>n c. 10 * n + (of_char c - 48)) 0 s"

definition revision_header :: "string option \<Rightarrow> EvidenceFailure + int" where
  "revision_header h = (case h of
     None \<Rightarrow> Inl (EvidenceError ''invalid_evidence'' 400)
   | Some s \<Rightarrow> if s \<noteq> [] \<and> list_all is_digit s \<and> (s = ''0'' \<or> hd s \<noteq> CHR ''0'') \<and> digits_value s \<le> MAX_SAFE_INTEGER then Inr (digits_value s)
       else Inl (EvidenceError ''invalid_evidence'' 400))"

definition content_type_header :: "string option \<Rightarrow> EvidenceFailure + ImageType" where
  "content_type_header h = (case map_option (takeWhile (\<lambda>c. c \<noteq> CHR '';'')) h of
     Some t \<Rightarrow> if t = ''image/jpeg'' then Inr Image_jpeg else if t = ''image/png'' then Inr Image_png else Inl (EvidenceError ''unsupported_evidence_type'' 415)
   | None \<Rightarrow> Inl (EvidenceError ''unsupported_evidence_type'' 415))"

section \<open>Answers\<close>

definition fail :: "EvidenceFailure \<Rightarrow> nat \<times> string" where
  "fail e = (case e of EvidenceError code status \<Rightarrow> (status, code) | EvidenceUnexpected _ \<Rightarrow> (503, ''evidence_unavailable''))"

definition case_failure :: "CaseFailure \<Rightarrow> EvidenceFailure" where
  "case_failure e = (if e = CASE_NOT_FOUND then EvidenceError ''evidence_not_found'' 404 else EvidenceUnexpected ''case repository'')"

definition from_cases :: "CaseFailure + 'a \<Rightarrow> EvidenceFailure + 'a" where
  "from_cases r = map_sum case_failure id r"

definition reply :: "EvidenceFailure + json \<Rightarrow> answer" where
  "reply r = (case r of Inl e \<Rightarrow> Inl (fail e) | Inr body \<Rightarrow> Inr (200, body))"

definition binding_json :: "EvidenceBinding \<Rightarrow> json" where
  "binding_json b = JObj [(''order_id'', JStr (bi_order_id b)), (''proposal_id'', JStr (bi_proposal_id b)),
     (''selected_item_ids'', JArr (map JStr (bi_selected_item_ids b))), (''policy_version'', JStr (bi_policy_version b))]"

definition snapshot_json :: "CaseEvidence \<Rightarrow> json" where
  "snapshot_json s = JObj ([(''case_id'', JStr (ce_case_id s)), (''case_status'', JStr (status_string (ce_case_status s))),
      (''evidence'', evidence_json (ce_evidence s)), (''binding'', binding_json (ce_binding s))]
     @ (case ce_accepted_manifest_hash s of None \<Rightarrow> [] | Some h \<Rightarrow> [(''accepted_manifest_hash'', JStr h)])
     @ (case ce_assessment_id s of None \<Rightarrow> [] | Some i \<Rightarrow> [(''assessment_id'', JStr i)]))"

section \<open>Who asks\<close>

type_synonym evidence_verifier = "string option \<Rightarrow> Purpose \<Rightarrow> CustomerEvidenceAccess result"

definition customer :: "evidence_verifier \<Rightarrow> string option \<Rightarrow> Purpose \<Rightarrow> EvidenceFailure + CustomerEvidenceAccess" where
  "customer verify header purpose = (case verify header purpose of Inl _ \<Rightarrow> Inl (EvidenceError ''evidence_unauthorized'' 401) | Inr a \<Rightarrow> Inr a)"

definition worker :: "case_verifier option \<Rightarrow> string option \<Rightarrow> Purpose \<Rightarrow> EvidenceFailure + WorkflowCaseAccess" where
  "worker verify header purpose = (case verify of
     None \<Rightarrow> Inl (EvidenceError ''evidence_unavailable'' 503)
   | Some v \<Rightarrow> (case v header purpose of Inl _ \<Rightarrow> Inl (EvidenceError ''evidence_unauthorized'' 401) | Inr a \<Rightarrow> Inr a))"

definition sameWorkflow :: "string \<Rightarrow> string \<Rightarrow> EvidenceFailure + unit" where
  "sameWorkflow a b = (if a \<noteq> b then Inl (EvidenceError ''evidence_not_found'' 404) else Inr ())"

definition customer_scope :: "CustomerEvidenceAccess \<Rightarrow> EvidenceScope" where
  "customer_scope a = \<lparr> es_key = (ce_tenantId a, ce_environmentId a), es_subjectCustomerId = Some (ce_subjectCustomerId a) \<rparr>"

definition worker_scope :: "WorkflowCaseAccess \<Rightarrow> EvidenceScope" where
  "worker_scope a = \<lparr> es_key = (wa_tenantId a, wa_environmentId a), es_subjectCustomerId = Some (wa_subjectCustomerId a) \<rparr>"

definition staff_scope :: "HumanAccess \<Rightarrow> EvidenceScope" where
  "staff_scope a = \<lparr> es_key = access_scope a, es_subjectCustomerId = None \<rparr>"

definition staff_eligible :: "HumanAccess \<Rightarrow> HumanCase \<Rightarrow> bool" where
  "staff_eligible access c \<longleftrightarrow> ha_role access \<in> {REFUND_APPROVER, REFUND_SUPERVISOR}
     \<and> (hc_caseType c = REFUND_EVIDENCE_REVIEW \<or> (if hc_caseType c = REFUND_APPROVAL then ha_role access = REFUND_APPROVER else ha_role access = REFUND_SUPERVISOR))"

definition staff :: "'s HumanCaseRepository \<Rightarrow> human_verifier \<Rightarrow> 's \<Rightarrow> string option \<Rightarrow> string \<Rightarrow> EvidenceFailure + HumanAccess \<times> HumanCase" where
  "staff cases verify s header caseId = (case verify header of
     Inl _ \<Rightarrow> Inl (EvidenceError ''evidence_unauthorized'' 401)
   | Inr access \<Rightarrow> bindF (from_cases (hr_get cases s (access_scope access) caseId)) (\<lambda>c.
       if \<not> staff_eligible access c \<or> hc_assignedStaffId c \<noteq> Some (ha_staffId access) \<or> hc_status c \<notin> {CLAIMED, DECISION_PENDING, CLOSED}
       then Inl (EvidenceError ''evidence_not_found'' 404) else Inr (access, c)))"

definition content :: "(bytes \<Rightarrow> string) \<Rightarrow> files \<Rightarrow> EvidenceRecord \<Rightarrow> string \<Rightarrow> EvidenceFailure + ImageType \<times> bytes" where
  "content digest fs r evidenceId =
     (case List.find (\<lambda>p. ph_evidence_id p = evidenceId \<and> \<not> ph_purged p \<and> \<not> ph_superseded p \<and> ph_technical_status p = READY) (ed_attachments (er_document r)) of
        None \<Rightarrow> Inl (EvidenceError ''evidence_not_found'' 404)
      | Some p \<Rightarrow> (case ph_sha256 p of
            None \<Rightarrow> Inl (EvidenceError ''evidence_not_found'' 404)
          | Some sha \<Rightarrow> if sha = [] \<or> ed_retired (er_document r) then Inl (EvidenceError ''evidence_not_found'' 404)
              else bindF (store_read digest fs (ph_storageKey p) sha) (\<lambda>bytes. Inr (ph_content_type p, bytes))))"

fun read_all :: "(bytes \<Rightarrow> string) \<Rightarrow> files \<Rightarrow> StoredPhoto list \<Rightarrow> EvidenceFailure + unit" where
  "read_all digest fs [] = Inr ()"
| "read_all digest fs (p # ps) = (case ph_sha256 p of
     None \<Rightarrow> Inl (EvidenceError ''evidence_unavailable'' 503)
   | Some sha \<Rightarrow> if sha = [] then Inl (EvidenceError ''evidence_unavailable'' 503)
       else bindF (store_read digest fs (ph_storageKey p) sha) (\<lambda>_. read_all digest fs ps))"

definition authoritativeSnapshot :: "(bytes \<Rightarrow> string) \<Rightarrow> files \<Rightarrow> EvidenceRecord \<Rightarrow> EvidenceFailure + CaseEvidence" where
  "authoritativeSnapshot digest fs r =
     (let s = evidenceSnapshot r in
      if su_assessment (ce_evidence s) = ACCEPTED then bindF (read_all digest fs (ready_photos (ed_attachments (er_document r)))) (\<lambda>_. Inr s) else Inr s)"


section \<open>Handlers\<close>

definition ensure_input :: "WorkflowCaseAccess \<Rightarrow> EnsureBody \<Rightarrow> EnsureEvidenceInput" where
  "ensure_input access b = \<lparr> en_scope = worker_scope access, en_customer = wa_subjectCustomerId access, en_workflowId = eb_workflow_id b,
     en_binding = eb_binding b, en_reviewPacket = eb_review_packet b \<rparr>"

text \<open>A request that fails once its transaction is committed: the tables stay as they were committed.\<close>

definition committed :: "'s \<Rightarrow> nat \<Rightarrow> EvidenceFailure + json \<Rightarrow> 's \<times> answer" where
  "committed s status r = (case r of Inl e \<Rightarrow> (s, Inl (fail e)) | Inr j \<Rightarrow> (s, Inr (status, j)))"

definition post_collections ::
  "(string \<Rightarrow> string) \<Rightarrow> (bytes \<Rightarrow> string) \<Rightarrow> case_verifier option \<Rightarrow> files \<Rightarrow> EvidenceDb \<Rightarrow> int \<Rightarrow> (nat \<Rightarrow> string) \<Rightarrow> json \<Rightarrow> string option \<Rightarrow> string option
   \<Rightarrow> EvidenceDb \<times> answer" where
  "post_collections digest digest_bytes verify fs db now ids body key header =
     (case bindF (worker verify header P_refund_evidence_open) (\<lambda>access.
       bindF (parsed (ensureSchema body)) (\<lambda>b.
       bindF (sameWorkflow (wa_workflowId access) (eb_workflow_id b)) (\<lambda>_.
       bindF (idempotencyKey key) (\<lambda>_.
       bindF (ev_ensure digest db now ids (ensure_input access b)) (\<lambda>(db', snapshot). Inr (db', access, b, snapshot)))))) of
        Inl e \<Rightarrow> (db, Inl (fail e))
      | Inr (db', access, b, snapshot) \<Rightarrow> committed db' 201 (map_sum id snapshot_json
          (if su_assessment (ce_evidence snapshot) = ACCEPTED
           then bindF (ev_get db' (worker_scope access) (eb_workflow_id b)) (authoritativeSnapshot digest_bytes fs) else Inr snapshot)))"

definition get_evidence ::
  "(bytes \<Rightarrow> string) \<Rightarrow> case_verifier option \<Rightarrow> files \<Rightarrow> EvidenceDb \<Rightarrow> json \<Rightarrow> string option \<Rightarrow> answer" where
  "get_evidence digest_bytes verify fs db param header =
     reply (bindF (worker verify header P_refund_evidence_read) (\<lambda>access.
       bindF (parsed (evidenceWorkflowId param)) (\<lambda>workflowId.
       bindF (sameWorkflow (wa_workflowId access) workflowId) (\<lambda>_.
       bindF (ev_get db (worker_scope access) workflowId) (\<lambda>r.
       bindF (authoritativeSnapshot digest_bytes fs r) (\<lambda>s. Inr (snapshot_json s)))))))"

definition transition_input :: "HumanCaseType \<times> RefundReviewPacket \<times> string \<times> int \<Rightarrow> string \<Rightarrow> TransitionInput" where
  "transition_input b key = (case b of (t, packet, version, revision) \<Rightarrow>
     \<lparr> tr_caseType = t, tr_reviewPacket = packet, tr_policyVersion = version, tr_expectedEvidenceVersion = revision, tr_key = key \<rparr>)"

definition case_body :: "'s HumanCaseRepository \<Rightarrow> 's evidence_reader \<Rightarrow> 's \<Rightarrow> scope_key \<Rightarrow> string \<Rightarrow> HumanAccess option \<Rightarrow> EvidenceFailure + json" where
  "case_body cases read s sc caseId access = bindF (from_cases (hr_get cases s sc caseId)) (\<lambda>c.
     bindF (caseResponse (Some read) s c access) (\<lambda>j. Inr (JObj [(''refund_case'', j)])))"

definition post_transition ::
  "(string \<Rightarrow> string) \<Rightarrow> (bytes \<Rightarrow> string) \<Rightarrow> case_verifier option \<Rightarrow> files \<Rightarrow> EvidenceDb \<Rightarrow> int \<Rightarrow> (nat \<Rightarrow> string) \<Rightarrow> json \<Rightarrow> json \<Rightarrow> string option \<Rightarrow> string option
   \<Rightarrow> EvidenceDb \<times> answer" where
  "post_transition digest digest_bytes verify fs db now ids param body key header =
     (case bindF (worker verify header P_human_case_transition) (\<lambda>access.
       bindF (parsed (evidenceWorkflowId param)) (\<lambda>workflowId.
       bindF (sameWorkflow (wa_workflowId access) workflowId) (\<lambda>_.
       bindF (parsed (transitionSchema body)) (\<lambda>b.
       bindF (bindF (ev_get db (worker_scope access) workflowId) (authoritativeSnapshot digest_bytes fs)) (\<lambda>_.
       bindF (idempotencyKey key) (\<lambda>k.
       bindF (ev_transition digest db now ids (worker_scope access) workflowId (transition_input b k)) (\<lambda>(db', snapshot).
       Inr (db', access, snapshot)))))))) of
        Inl e \<Rightarrow> (db, Inl (fail e))
      | Inr (db', access, snapshot) \<Rightarrow>
          committed db' 200 (case_body (postgresCases digest) ev_get db' (es_key (worker_scope access)) (ce_case_id snapshot) None))"

definition get_customer_evidence :: "evidence_verifier \<Rightarrow> EvidenceDb \<Rightarrow> json \<Rightarrow> string option \<Rightarrow> answer" where
  "get_customer_evidence verify db param header =
     reply (bindF (customer verify header P_refund_evidence_read) (\<lambda>access.
       bindF (parsed (evidenceWorkflowId param)) (\<lambda>workflowId.
       bindF (sameWorkflow (ce_workflowId access) workflowId) (\<lambda>_.
       bindF (ev_get db (customer_scope access) workflowId) (\<lambda>r.
       Inr (JObj [(''evidence'', evidence_json (ce_evidence (evidenceSnapshot r)))]))))))"

text \<open>What the check before the body of an upload decides, apart from the limit on concurrent uploads.\<close>

definition upload_request :: "evidence_verifier \<Rightarrow> EvidenceDb \<Rightarrow> json \<Rightarrow> string option \<Rightarrow> EvidenceFailure + CustomerEvidenceAccess" where
  "upload_request verify db param header =
     bindF (customer verify header P_refund_evidence_upload) (\<lambda>access.
     bindF (parsed (evidenceWorkflowId param)) (\<lambda>workflowId.
     bindF (sameWorkflow (ce_workflowId access) workflowId) (\<lambda>_.
     bindF (ev_get db (customer_scope access) workflowId) (\<lambda>_. Inr access))))"

definition upload_fingerprint :: "(string \<Rightarrow> string) \<Rightarrow> (bytes \<Rightarrow> string) \<Rightarrow> int \<Rightarrow> ImageType \<Rightarrow> bytes \<Rightarrow> string" where
  "upload_fingerprint digest digest_bytes revision t bytes =
     digest (stringify (JObj [(''revision'', JNum revision), (''contentType'', JStr (image_string t)), (''sha256'', JStr (digest_bytes bytes))]))"

definition rejection_of :: "EvidenceFailure \<Rightarrow> RejectionCode" where
  "rejection_of e = (case e of
     EvidenceError code _ \<Rightarrow> if code = ''FILE_TOO_LARGE'' then FILE_TOO_LARGE else if code = ''INVALID_IMAGE'' then INVALID_IMAGE
       else if code = ''IMAGE_LIMIT_EXCEEDED'' then IMAGE_LIMIT_EXCEEDED else VALIDATION_UNAVAILABLE
   | EvidenceUnexpected _ \<Rightarrow> VALIDATION_UNAVAILABLE)"

definition store_photo :: "ImageLibrary \<Rightarrow> (bytes \<Rightarrow> string) \<Rightarrow> files \<Rightarrow> string \<Rightarrow> bytes \<Rightarrow> ImageType \<Rightarrow> files \<times> UploadResult" where
  "store_photo lib digest_bytes fs key bytes t =
     (case bindF (validatePhoto lib digest_bytes bytes t) (\<lambda>p. bindF (store_put fs key (vp_bytes p)) (\<lambda>fs'. Inr (fs', p))) of
        Inl e \<Rightarrow> (fs, RejectedUpload (rejection_of e))
      | Inr (fs', p) \<Rightarrow> (fs', Normalized (vp_contentType p) (int (length (vp_bytes p))) (vp_width p) (vp_height p) (vp_sha256 p)))"

record UploadRequest =
  ur_access :: "CustomerEvidenceAccess option"
  ur_content_type :: "string option"
  ur_revision :: "string option"
  ur_key :: "string option"
  ur_body :: "bytes option"

definition upload_input :: "(string \<Rightarrow> string) \<Rightarrow> (bytes \<Rightarrow> string) \<Rightarrow> UploadRequest \<Rightarrow> EvidenceFailure + CustomerEvidenceAccess \<times> BeginUploadInput \<times> bytes" where
  "upload_input digest digest_bytes rq = (case ur_access rq of
     None \<Rightarrow> Inl (EvidenceError ''evidence_unauthorized'' 401)
   | Some access \<Rightarrow>
       bindF (content_type_header (ur_content_type rq)) (\<lambda>t.
       bindF (revision_header (ur_revision rq)) (\<lambda>revision.
       case ur_body rq of
         None \<Rightarrow> Inl (EvidenceError ''invalid_evidence'' 400)
       | Some bytes \<Rightarrow>
           if bytes = [] then Inl (EvidenceError ''invalid_evidence'' 400)
           else if int (length bytes) > MAX_PHOTO_BYTES then Inl (EvidenceError ''evidence_too_large'' 413)
           else bindF (idempotencyKey (ur_key rq)) (\<lambda>k.
             Inr (access, \<lparr> bu_expectedRevision = revision, bu_idempotencyKey = k, bu_fingerprint = upload_fingerprint digest digest_bytes revision t bytes,
               bu_byteSize = int (length bytes), bu_contentType = t \<rparr>, bytes)))))"

definition post_photo ::
  "ImageLibrary \<Rightarrow> (string \<Rightarrow> string) \<Rightarrow> (bytes \<Rightarrow> string) \<Rightarrow> files \<Rightarrow> EvidenceDb \<Rightarrow> int \<Rightarrow> (nat \<Rightarrow> string) \<Rightarrow> UploadRequest \<Rightarrow> files \<times> EvidenceDb \<times> answer" where
  "post_photo lib digest digest_bytes fs db now ids rq =
     (case upload_input digest digest_bytes rq of
        Inl e \<Rightarrow> (fs, db, Inl (fail e))
      | Inr (access, i, bytes) \<Rightarrow>
          (case ev_beginUpload db now ids (customer_scope access) (ce_workflowId access) i of
             Inl e \<Rightarrow> (fs, db, Inl (fail e))
           | Inr (db1, r, photo, created) \<Rightarrow>
               if \<not> created then (fs, db1, Inr (202, JObj [(''evidence'', evidence_json (ce_evidence (evidenceSnapshot r)))]))
               else (case store_photo lib digest_bytes fs (ph_storageKey photo) bytes (bu_contentType i) of (fs', result) \<Rightarrow>
                 (case ev_finishUpload db1 now (\<lambda>n. ids (n + 2)) (customer_scope access) (ce_workflowId access) (ph_evidence_id photo) result of
                    Inl e \<Rightarrow> (fs', db1, Inl (fail e))
                  | Inr (db2, snapshot) \<Rightarrow> (fs', db2, Inr (202, JObj [(''evidence'', evidence_json (ce_evidence snapshot))]))))))"

definition get_customer_photo ::
  "(string \<Rightarrow> bool) \<Rightarrow> (bytes \<Rightarrow> string) \<Rightarrow> evidence_verifier \<Rightarrow> files \<Rightarrow> EvidenceDb \<Rightarrow> json \<Rightarrow> json \<Rightarrow> string option \<Rightarrow> EvidenceFailure + ImageType \<times> bytes" where
  "get_customer_photo is_uuid digest_bytes verify fs db param evidenceParam header =
     bindF (customer verify header P_refund_evidence_content) (\<lambda>access.
     bindF (parsed (evidenceWorkflowId param)) (\<lambda>workflowId.
     bindF (parsed (z_regex is_uuid evidenceParam)) (\<lambda>evidenceId.
     bindF (sameWorkflow (ce_workflowId access) workflowId) (\<lambda>_.
     bindF (ev_get db (customer_scope access) workflowId) (\<lambda>r. content digest_bytes fs r evidenceId)))))"

definition get_case_photo ::
  "(string \<Rightarrow> bool) \<Rightarrow> (string \<Rightarrow> string) \<Rightarrow> (bytes \<Rightarrow> string) \<Rightarrow> human_verifier \<Rightarrow> files \<Rightarrow> EvidenceDb \<Rightarrow> json \<Rightarrow> json \<Rightarrow> string option \<Rightarrow> EvidenceFailure + ImageType \<times> bytes" where
  "get_case_photo is_uuid digest digest_bytes verify fs db param evidenceParam header =
     bindF (parsed (opaqueId param)) (\<lambda>caseId.
     bindF (parsed (z_regex is_uuid evidenceParam)) (\<lambda>evidenceId.
     bindF (staff (postgresCases digest) verify db header caseId) (\<lambda>(access, c).
     bindF (ev_get db (staff_scope access) (hc_workflowId c)) (\<lambda>r. content digest_bytes fs r evidenceId))))"

definition post_evidence_review ::
  "(string \<Rightarrow> string) \<Rightarrow> (string \<Rightarrow> int) \<Rightarrow> human_verifier \<Rightarrow> EvidenceDb \<Rightarrow> int \<Rightarrow> (nat \<Rightarrow> string) \<Rightarrow> json \<Rightarrow> json \<Rightarrow> string option \<Rightarrow> string option \<Rightarrow> EvidenceDb \<times> answer" where
  "post_evidence_review digest collate verify db now ids param body key header =
     (case bindF (parsed (opaqueId param)) (\<lambda>caseId.
       bindF (staff (postgresCases digest) verify db header caseId) (\<lambda>(access, c).
       bindF (parsed (evidenceReviewSchema body)) (\<lambda>command.
       bindF (idempotencyKey key) (\<lambda>k.
       bindF (ev_review digest collate db now ids (staff_scope access) (hc_workflowId c) access command k) (\<lambda>(db', _).
       Inr (db', access, caseId)))))) of
        Inl e \<Rightarrow> (db, Inl (fail e))
      | Inr (db', access, caseId) \<Rightarrow> committed db' 200 (case_body (postgresCases digest) ev_get db' (access_scope access) caseId (Some access)))"


section \<open>The gate of uploads\<close>

text \<open>
  Requests are numbered. A lease holds what the check of the request established; while its photo is
  processed, a disconnected client does not give the lease back.
\<close>

record UploadLease =
  ul_access :: CustomerEvidenceAccess
  ul_processing :: bool

record UploadGate =
  ug_uploads :: "(nat \<times> UploadLease) list"
  ug_activeUploads :: int

definition releaseUpload :: "UploadGate \<Rightarrow> nat \<Rightarrow> UploadGate" where
  "releaseUpload g rq = (case map_of (ug_uploads g) rq of
     None \<Rightarrow> g
   | Some lease \<Rightarrow> if ul_processing lease then g
       else g\<lparr> ug_uploads := filter (\<lambda>e. fst e \<noteq> rq) (ug_uploads g), ug_activeUploads := ug_activeUploads g - 1 \<rparr>)"

definition on_upload_request :: "evidence_verifier \<Rightarrow> EvidenceDb \<Rightarrow> UploadGate \<Rightarrow> nat \<Rightarrow> bool \<Rightarrow> json \<Rightarrow> string option \<Rightarrow> EvidenceFailure + UploadGate" where
  "on_upload_request verify db g rq aborted param header =
     bindF (upload_request verify db param header) (\<lambda>access.
       if aborted then Inr g
       else if ug_activeUploads g \<ge> 4 then Inl (EvidenceError ''evidence_unavailable'' 503)
       else Inr (g\<lparr> ug_uploads := map_set rq \<lparr> ul_access = access, ul_processing = False \<rparr> (ug_uploads g), ug_activeUploads := ug_activeUploads g + 1 \<rparr>))"

definition set_processing :: "bool \<Rightarrow> UploadGate \<Rightarrow> nat \<Rightarrow> UploadGate" where
  "set_processing b g rq = g\<lparr> ug_uploads := map (\<lambda>(k, l). if k = rq then (k, l\<lparr> ul_processing := b \<rparr>) else (k, l)) (ug_uploads g) \<rparr>"

definition upload_started :: "UploadGate \<Rightarrow> nat \<Rightarrow> UploadGate \<times> CustomerEvidenceAccess option" where
  "upload_started g rq = (set_processing True g rq, map_option ul_access (map_of (ug_uploads g) rq))"

definition upload_settled :: "UploadGate \<Rightarrow> nat \<Rightarrow> UploadGate" where
  "upload_settled g rq = releaseUpload (set_processing False g rq) rq"

text \<open>The hook runs once for a request, so a request that asks for a lease has none.\<close>

inductive gate_step :: "evidence_verifier \<Rightarrow> EvidenceDb \<Rightarrow> UploadGate \<Rightarrow> UploadGate \<Rightarrow> bool" for verify db where
  requested: "map_of (ug_uploads g) rq = None \<Longrightarrow> on_upload_request verify db g rq aborted param header = Inr g' \<Longrightarrow> gate_step verify db g g'"
| started: "gate_step verify db g (fst (upload_started g rq))"
| settled: "gate_step verify db g (upload_settled g rq)"
| released: "gate_step verify db g (releaseUpload g rq)"

definition gate_ok :: "UploadGate \<Rightarrow> bool" where
  "gate_ok g \<longleftrightarrow> distinct (map fst (ug_uploads g)) \<and> ug_activeUploads g = int (length (ug_uploads g)) \<and> ug_activeUploads g \<le> 4"

definition idle_gate :: UploadGate where
  "idle_gate = \<lparr> ug_uploads = [], ug_activeUploads = 0 \<rparr>"

lemma map_set_new: "map_of m k = None \<Longrightarrow> map_set k v m = m @ [(k, v)]"
  by (induction m) (auto split: if_split_asm)

lemma length_without: "distinct (map fst m) \<Longrightarrow> map_of m k = Some v \<Longrightarrow> int (length (filter (\<lambda>e. fst e \<noteq> k) m)) = int (length m) - 1"
proof (induction m)
  case (Cons e m)
  show ?case
  proof (cases "fst e = k")
    case True
    with Cons.prems(1) have "filter (\<lambda>e. fst e \<noteq> k) m = m" by (intro filter_True) (force simp: image_iff)
    with True show ?thesis by simp
  qed (use Cons in auto)
qed simp

lemma distinct_without: "distinct (map fst m) \<Longrightarrow> distinct (map fst (filter P m))"
  by (induction m) auto

lemma processing_keys [simp]: "map fst (ug_uploads (set_processing b g rq)) = map fst (ug_uploads g)"
  by (simp add: set_processing_def split_def comp_def if_distrib cong: if_cong)

lemma processing_ok: "gate_ok g \<Longrightarrow> gate_ok (set_processing b g rq)"
  unfolding gate_ok_def processing_keys by (simp add: set_processing_def)

lemma release_ok: "gate_ok g \<Longrightarrow> gate_ok (releaseUpload g rq)"
  by (auto simp: releaseUpload_def gate_ok_def length_without distinct_without split: option.split)

lemma gate_step_ok: "gate_step verify db g g' \<Longrightarrow> gate_ok g \<Longrightarrow> gate_ok g'"
proof (induction rule: gate_step.induct)
  case (requested g rq aborted param header g')
  then show ?case by (auto simp: on_upload_request_def gate_ok_def map_set_new weak_map_of_SomeI map_of_eq_None_iff split: if_split_asm)
qed (simp_all add: upload_started_def upload_settled_def processing_ok release_ok)

lemma map_of_processing: "map_of (ug_uploads (set_processing b g rq)) rq = map_option (ul_processing_update (\<lambda>_. b)) (map_of (ug_uploads g) rq)"
proof -
  have "map_of (map (\<lambda>(k, l). if k = rq then (k, l\<lparr> ul_processing := b \<rparr>) else (k, l)) m) rq = map_option (ul_processing_update (\<lambda>_. b)) (map_of m rq)" for m
    by (induction m) auto
  then show ?thesis by (simp add: set_processing_def)
qed

text \<open>
  The gate of uploads: however requests arrive, disconnect, time out, start and settle, the
  counter is the number of leases held and never exceeds four; and a request whose processing has
  settled holds none.
\<close>

theorem at_most_four_uploads:
  assumes "(gate_step verify db)\<^sup>*\<^sup>* idle_gate g"
  shows "ug_activeUploads g = int (length (ug_uploads g)) \<and> length (ug_uploads g) \<le> 4 \<and> map_of (ug_uploads (upload_settled g rq)) rq = None"
proof -
  have "gate_ok g" using assms by induction (auto simp: gate_ok_def idle_gate_def dest: gate_step_ok [unfolded gate_ok_def])
  moreover have "map_of (filter (\<lambda>e. fst e \<noteq> rq) m) rq = None" for m :: "(nat \<times> UploadLease) list" by (induction m) auto
  ultimately show ?thesis
    using map_of_processing [of False g rq] by (auto simp: gate_ok_def upload_settled_def releaseUpload_def split: option.split)
qed


definition sample_customer :: CustomerEvidenceAccess where
  "sample_customer = \<lparr> ce_tenantId = ''t'', ce_environmentId = ''e'', ce_subjectCustomerId = ''cust'', ce_workflowId = ''wf-1'' \<rparr>"

definition customer_in :: evidence_verifier where
  "customer_in header purpose = Inr sample_customer"

theorem at_most_four_uploads_witness:
  "\<exists>g. on_upload_request customer_in ensured_db idle_gate 7 False (JStr ''wf-1'') None = Inr g \<and> length (ug_uploads g) = 1 \<and> ug_activeUploads g = 1"
proof -
  have wf: "evidenceWorkflowId (JStr ''wf-1'') = Some ''wf-1''" by code_simp
  have "\<exists>r. ev_get ensured_db (customer_scope sample_customer) ''wf-1'' = Inr r"
    by (simp add: ev_get_def ensured_val sample_sets customer_scope_def sample_customer_def)
  then obtain g where g: "on_upload_request customer_in ensured_db idle_gate 7 False (JStr ''wf-1'') None = Inr g" "length (ug_uploads g) = 1"
    by (auto simp: on_upload_request_def upload_request_def customer_def customer_in_def wf parsed_def sameWorkflow_def idle_gate_def sample_customer_def)
  have "(gate_step customer_in ensured_db)\<^sup>*\<^sup>* idle_gate g"
    using gate_step.requested [OF _ g(1)] by (simp add: idle_gate_def)
  from at_most_four_uploads [OF this] g show ?thesis by simp
qed

end
