(* ===== verification/Evidence_Service.thy ===== *)
theory Evidence_Service
  imports Evidence_Routes
begin

text \<open>
  Human operations as a running service: the tables, the private store and the uploads in flight. A
  step is a request of one of the routes, one of the two halves of an upload, a run of one of the two
  timers of \<^verbatim>\<open>server.ts\<close>, or the loss of the process. Every step is a sequence of steps of
  \<^verbatim>\<open>Evidence_Life\<close>, and photos that count stay readable.
\<close>

section \<open>Steps of the service\<close>

record Upload =
  up_access :: CustomerEvidenceAccess
  up_photo :: StoredPhoto
  up_bytes :: bytes
  up_type :: ImageType

record Service =
  sv_files :: files
  sv_db :: EvidenceDb
  sv_uploads :: "Upload list"

definition upload_key :: "Upload \<Rightarrow> string" where
  "upload_key u = ph_evidence_id (up_photo u)"

definition begin_upload ::
  "EvidenceDb \<Rightarrow> int \<Rightarrow> (nat \<Rightarrow> string) \<Rightarrow> CustomerEvidenceAccess \<times> BeginUploadInput \<times> bytes \<Rightarrow> EvidenceFailure + EvidenceDb \<times> EvidenceRecord \<times> Upload \<times> bool" where
  "begin_upload db now ids x = (case x of (access, i, bytes) \<Rightarrow>
     bindF (ev_beginUpload db now ids (customer_scope access) (ce_workflowId access) i) (\<lambda>(db', r, photo, created).
       Inr (db', r, \<lparr> up_access = access, up_photo = photo, up_bytes = bytes, up_type = bu_contentType i \<rparr>, created)))"

definition stored_upload :: "ImageLibrary \<Rightarrow> (bytes \<Rightarrow> string) \<Rightarrow> files \<Rightarrow> Upload \<Rightarrow> files \<times> UploadResult" where
  "stored_upload lib digest_bytes fs u = store_photo lib digest_bytes fs (ph_storageKey (up_photo u)) (up_bytes u) (up_type u)"

definition finish_upload :: "EvidenceDb \<Rightarrow> int \<Rightarrow> (nat \<Rightarrow> string) \<Rightarrow> Upload \<Rightarrow> UploadResult \<Rightarrow> EvidenceFailure + EvidenceDb \<times> CaseEvidence" where
  "finish_upload db now ids u result =
     ev_finishUpload db now ids (customer_scope (up_access u)) (ce_workflowId (up_access u)) (ph_evidence_id (up_photo u)) result"

definition after :: "'s \<Rightarrow> 'e + 's \<times> 'a \<Rightarrow> 's" where
  "after s r = (case r of Inl _ \<Rightarrow> s | Inr (s', _) \<Rightarrow> s')"

text \<open>The handler of an upload is its two halves, with the photo stored in between.\<close>

lemma post_photo_halves:
  "post_photo lib digest digest_bytes fs db now ids rq =
     (case bindF (upload_input digest digest_bytes rq) (begin_upload db now ids) of
        Inl e \<Rightarrow> (fs, db, Inl (fail e))
      | Inr (db1, r, u, created) \<Rightarrow>
          if \<not> created then (fs, db1, Inr (202, JObj [(''evidence'', evidence_json (ce_evidence (evidenceSnapshot r)))]))
          else (let (fs', result) = stored_upload lib digest_bytes fs u; finished = finish_upload db1 now (\<lambda>n. ids (n + 2)) u result
                in (fs', after db1 finished, case finished of Inl e \<Rightarrow> Inl (fail e)
                      | Inr (_, snapshot) \<Rightarrow> Inr (202, JObj [(''evidence'', evidence_json (ce_evidence snapshot))]))))"
  by (auto simp: post_photo_def begin_upload_def stored_upload_def finish_upload_def after_def bindF_def Let_def split: sum.split prod.split)

inductive service_step ::
  "ImageLibrary \<Rightarrow> (string \<Rightarrow> string) \<Rightarrow> (string \<Rightarrow> int) \<Rightarrow> (bytes \<Rightarrow> string) \<Rightarrow> (string \<Rightarrow> bool) \<Rightarrow> Service \<Rightarrow> Service \<Rightarrow> bool"
  for lib :: ImageLibrary and digest :: "string \<Rightarrow> string" and collate :: "string \<Rightarrow> int" and digest_bytes :: "bytes \<Rightarrow> string" and is_uuid :: "string \<Rightarrow> bool" where
  opened: "post_refund_cases (postgresCases digest) verify (sv_db s) now ids body key header = (db', a) \<Longrightarrow> service_step lib digest collate digest_bytes is_uuid s (s\<lparr> sv_db := db' \<rparr>)"
| closed: "post_refund_case_close (postgresCases digest) verify (sv_db s) now ids param body key header = (db', a)
    \<Longrightarrow> service_step lib digest collate digest_bytes is_uuid s (s\<lparr> sv_db := db' \<rparr>)"
| claimed: "post_claim (postgresCases digest) evidence human (sv_db s) now ids param body key header = (db', a)
    \<Longrightarrow> service_step lib digest collate digest_bytes is_uuid s (s\<lparr> sv_db := db' \<rparr>)"
| reassigned: "post_reassign (postgresCases digest) evidence human (sv_db s) now ids param body key header = (db', a)
    \<Longrightarrow> service_step lib digest collate digest_bytes is_uuid s (s\<lparr> sv_db := db' \<rparr>)"
| decided: "post_decision (postgresCases digest) send human (sv_db s) now ids param body key header = (db', a)
    \<Longrightarrow> service_step lib digest collate digest_bytes is_uuid s (s\<lparr> sv_db := db' \<rparr>)"
| dispatched: "service_step lib digest collate digest_bytes is_uuid s (s\<lparr> sv_db := dispatchPendingOutbox send (postgresCases digest) now (sv_db s) sc \<rparr>)"
| collected: "post_collections digest digest_bytes verify (sv_files s) (sv_db s) now ids body key header = (db', a)
    \<Longrightarrow> service_step lib digest collate digest_bytes is_uuid s (s\<lparr> sv_db := db' \<rparr>)"
| transitioned: "post_transition digest digest_bytes verify (sv_files s) (sv_db s) now ids param body key header = (db', a)
    \<Longrightarrow> service_step lib digest collate digest_bytes is_uuid s (s\<lparr> sv_db := db' \<rparr>)"
| reviewed: "post_evidence_review digest collate human (sv_db s) now ids param body key header = (db', a) \<Longrightarrow> is_uuid (ids 0)
    \<Longrightarrow> service_step lib digest collate digest_bytes is_uuid s (s\<lparr> sv_db := db' \<rparr>)"
| reserved: "bindF (upload_input digest digest_bytes rq) (begin_upload (sv_db s) now ids) = Inr (db', r, u, True) \<Longrightarrow> is_uuid (ids 0)
    \<Longrightarrow> new_evidence_id (sv_db s) (ids 0) \<Longrightarrow> ids 0 \<notin> upload_key ` set (sv_uploads s)
    \<Longrightarrow> service_step lib digest collate digest_bytes is_uuid s (s\<lparr> sv_db := db', sv_uploads := u # sv_uploads s \<rparr>)"
| settled: "u \<in> set (sv_uploads s) \<Longrightarrow> stored_upload lib digest_bytes (sv_files s) u = (fs', result)
    \<Longrightarrow> service_step lib digest collate digest_bytes is_uuid s
          (s\<lparr> sv_files := fs', sv_db := after (sv_db s) (finish_upload (sv_db s) now ids u result), sv_uploads := remove1 u (sv_uploads s) \<rparr>)"
| crashed: "set us \<subseteq> set (sv_uploads s) \<Longrightarrow> u \<in> set (sv_uploads s) \<Longrightarrow> stored_upload lib digest_bytes (sv_files s) u = (fs', result)
    \<Longrightarrow> service_step lib digest collate digest_bytes is_uuid s (s\<lparr> sv_files := fs', sv_uploads := us \<rparr>)"
| recovered: "ev_recoverStaleUploads (sv_db s) now ids esc = Inr db' \<Longrightarrow> service_step lib digest collate digest_bytes is_uuid s (s\<lparr> sv_db := db' \<rparr>)"

section \<open>Every step is a sequence of steps of the tables\<close>


abbreviation tables_steps :: "(string \<Rightarrow> string) \<Rightarrow> (string \<Rightarrow> int) \<Rightarrow> EvidenceDb \<Rightarrow> EvidenceDb \<Rightarrow> bool" where
  "tables_steps digest collate \<equiv> (human_step digest collate)\<^sup>*\<^sup>*"

abbreviation case_steps :: "(string \<Rightarrow> string) \<Rightarrow> EvidenceDb \<Rightarrow> EvidenceDb \<Rightarrow> bool" where
  "case_steps digest \<equiv> (case_step (postgresCases digest) (\<lambda>_ _ _ _. True))\<^sup>*\<^sup>*"

lemma case_steps_tables: "case_steps digest db db' \<Longrightarrow> tables_steps digest collate db db'"
  by (rule rtranclp_mono [THEN predicate2D]) (auto intro: human_step.cases_step)

lemma case_steps_evidence: "case_steps digest db db' \<Longrightarrow> hd_evidence db' = hd_evidence db"
  by (induction rule: rtranclp_induct) (auto dest: case_step_evidence)

lemma one_case_step: "case_step (postgresCases digest) (\<lambda>_ _ _ _. True) db db' \<Longrightarrow> case_steps digest db db'"
  by (rule r_into_rtranclp)

lemma one_step: "human_step digest collate db db' \<Longrightarrow> tables_steps digest collate db db'"
  by (rule r_into_rtranclp)

lemma opened_steps: "post_refund_cases (postgresCases digest) verify db now ids body key header = (db', a) \<Longrightarrow> case_steps digest db db'"
  by (auto simp: post_refund_cases_def verifyWorkflow_def intro!: one_case_step intro: case_step.open_step split: option.split_asm sum.split_asm if_split_asm)

lemma closed_steps: "post_refund_case_close (postgresCases digest) verify db now ids param body key header = (db', a) \<Longrightarrow> case_steps digest db db'"
  by (auto simp: post_refund_case_close_def verifyWorkflow_def Let_def intro!: one_case_step intro: case_step.close_step
      split: option.split_asm sum.split_asm if_split_asm prod.split_asm)

lemma claimed_steps: "post_claim (postgresCases digest) evidence human db now ids param body key header = (db', a) \<Longrightarrow> case_steps digest db db'"
  by (auto simp: post_claim_def verifyHuman_def Let_def intro!: one_case_step intro: case_step.claim_step
      split: option.split_asm sum.split_asm if_split_asm prod.split_asm)

lemma reassigned_steps: "post_reassign (postgresCases digest) evidence human db now ids param body key header = (db', a) \<Longrightarrow> case_steps digest db db'"
  by (auto simp: post_reassign_def verifyHuman_def Let_def intro!: one_case_step intro: case_step.reassign_step
      split: option.split_asm sum.split_asm if_split_asm prod.split_asm)

lemma delivered_steps: "case_steps digest db (fst (deliverOutbox send (postgresCases digest) now db ev))"
  by (auto simp: deliverOutbox_def intro!: one_case_step case_step.delivered_step split: sum.split)

lemma decided_steps:
  assumes "post_decision (postgresCases digest) send human db now ids param body key header = (db', a)"
  shows "case_steps digest db db'"
proof (cases "db' = db")
  case False
  with assms obtain access input db1 c ev where d: "hr_decide (postgresCases digest) db now ids (access_scope access) input = Inr (db1, c, ev)"
      and db': "db' = db1 \<or> db' = fst (deliverOutbox send (postgresCases digest) now db1 ev)"
    by (auto simp: post_decision_def verifyHuman_def Let_def split: option.split_asm sum.split_asm if_split_asm)
  have one: "case_steps digest db db1" using d by (intro one_case_step case_step.decide_step)
  from db' show ?thesis using one rtranclp_trans [OF one delivered_steps] by (elim disjE) simp_all
qed simp

lemma dispatched_steps: "case_steps digest db (dispatchPendingOutbox send (postgresCases digest) now db sc)"
proof -
  have "case_steps digest db (deliver_pending send (postgresCases digest) now db evs)" for evs
  proof (induction evs arbitrary: db)
    case (Cons ev evs)
    then show ?case using delivered_steps rtranclp_trans [of "case_step (postgresCases digest) (\<lambda>_ _ _ _. True)"] by simp blast
  qed simp
  then show ?thesis by (simp add: dispatchPendingOutbox_def)
qed

lemmas case_request_steps = opened_steps closed_steps claimed_steps reassigned_steps decided_steps

lemma collected_steps: "post_collections digest digest_bytes verify fs db now ids body key header = (db', a) \<Longrightarrow> tables_steps digest collate db db'"
  by (auto simp: post_collections_def committed_def intro!: one_step intro: human_step.ensure_step split: sum.split_asm)

lemma transitioned_steps: "post_transition digest digest_bytes verify fs db now ids param body key header = (db', a) \<Longrightarrow> tables_steps digest collate db db'"
  by (auto simp: post_transition_def committed_def intro!: one_step intro: human_step.transition_step split: sum.split_asm)

lemma reviewed_steps: "post_evidence_review digest collate human db now ids param body key header = (db', a) \<Longrightarrow> tables_steps digest collate db db'"
  by (auto simp: post_evidence_review_def committed_def intro!: one_step intro: human_step.review_step split: sum.split_asm)

lemma upload_input_bytes:
  assumes "upload_input digest digest_bytes rq = Inr (access, i, bytes)"
  shows "bu_byteSize i = int (length bytes)"
proof -
  from assms obtain a where "ur_access rq = Some a" by (cases "ur_access rq") (simp_all add: upload_input_def)
  moreover from assms this obtain b where "ur_body rq = Some b" by (cases "ur_body rq") (simp_all add: upload_input_def bindF_eq_Inr)
  ultimately show ?thesis using assms by (cases "b = []"; cases "MAX_PHOTO_BYTES < int (length b)") (simp_all add: upload_input_def, auto)
qed

lemma stored_result:
  assumes "stored_upload lib digest_bytes fs u = (fs', result)"
  shows "fs \<subseteq>\<^sub>m fs'" and "0 \<le> result_bytes result"
    and "result = Normalized t n w h sha \<Longrightarrow> storage_key (ph_storageKey (up_photo u)) \<and>
      (\<exists>bytes. fs' (ph_storageKey (up_photo u)) = Some bytes \<and> int (length bytes) \<le> MAX_PHOTO_BYTES \<and> digest_bytes bytes = sha)"
proof -
  from assms consider (rejected) e where "fs' = fs" "result = RejectedUpload e"
    | (kept) p where "validatePhoto lib digest_bytes (up_bytes u) (up_type u) = Inr p" "store_put fs (ph_storageKey (up_photo u)) (vp_bytes p) = Inr fs'"
        "result = Normalized (vp_contentType p) (int (length (vp_bytes p))) (vp_width p) (vp_height p) (vp_sha256 p)"
    by (auto simp: stored_upload_def store_photo_def split: sum.split_asm)
  then have "fs \<subseteq>\<^sub>m fs' \<and> 0 \<le> result_bytes result \<and> (result = Normalized t n w h sha \<longrightarrow> storage_key (ph_storageKey (up_photo u)) \<and>
      (\<exists>bytes. fs' (ph_storageKey (up_photo u)) = Some bytes \<and> int (length bytes) \<le> MAX_PHOTO_BYTES \<and> digest_bytes bytes = sha))"
  proof cases
    case kept
    from kept(1) have p: "int (length (vp_bytes p)) \<le> MAX_PHOTO_BYTES" "vp_sha256 p = digest_bytes (vp_bytes p)"
      by (auto simp: validatePhoto_def Let_def split: if_split_asm option.split_asm)
    from kept(2) have "storage_key (ph_storageKey (up_photo u))" "fs (ph_storageKey (up_photo u)) = None" "fs' = fs(ph_storageKey (up_photo u) \<mapsto> vp_bytes p)"
      by (auto simp: store_put_def store_filename_def split: if_split_asm option.split_asm)
    with p kept(3) show ?thesis by (auto simp: map_le_def result_bytes_def)
  qed (simp add: result_bytes_def)
  then show "fs \<subseteq>\<^sub>m fs'" and "0 \<le> result_bytes result" and "result = Normalized t n w h sha \<Longrightarrow> storage_key (ph_storageKey (up_photo u)) \<and>
      (\<exists>bytes. fs' (ph_storageKey (up_photo u)) = Some bytes \<and> int (length bytes) \<le> MAX_PHOTO_BYTES \<and> digest_bytes bytes = sha)" by simp_all
qed

lemma begin_upload_Inr:
  assumes "bindF (upload_input digest digest_bytes rq) (begin_upload db now ids) = Inr (db', r, u, created)"
  obtains i where "ev_beginUpload db now ids (customer_scope (up_access u)) (ce_workflowId (up_access u)) i = Inr (db', r, up_photo u, created)" "0 \<le> bu_byteSize i"
  using assms upload_input_bytes by (fastforce simp: begin_upload_def)

lemma reserved_steps:
  assumes "bindF (upload_input digest digest_bytes rq) (begin_upload db now ids) = Inr (db', r, u, created)" and "new_evidence_id db (ids 0)"
  shows "tables_steps digest collate db db'"
proof -
  from begin_upload_Inr [OF assms(1)] obtain i where
    "ev_beginUpload db now ids (customer_scope (up_access u)) (ce_workflowId (up_access u)) i = Inr (db', r, up_photo u, created)" "0 \<le> bu_byteSize i" .
  then show ?thesis using assms(2) by (rule one_step [OF human_step.begin_step])
qed

lemma settled_steps:
  assumes "stored_upload lib digest_bytes fs u = (fs', result)"
  shows "tables_steps digest collate db (after db (finish_upload db now ids u result))"
  using human_step.finish_step [OF _ stored_result(2) [OF assms]]
  by (cases "finish_upload db now ids u result") (auto simp: after_def finish_upload_def intro: one_step)

lemma service_refines:
  assumes "service_step lib digest collate digest_bytes is_uuid s s'"
  shows "tables_steps digest collate (sv_db s) (sv_db s')"
  using assms
proof (induction rule: service_step.induct)
  case (recovered s now ids esc db')
  then show ?case by (simp add: one_step human_step.recover_step)
qed (simp_all add: case_request_steps [THEN case_steps_tables] dispatched_steps [THEN case_steps_tables] collected_steps transitioned_steps
    reviewed_steps reserved_steps settled_steps)


section \<open>Photos that count stay readable\<close>

definition photo_stored :: "(bytes \<Rightarrow> string) \<Rightarrow> files \<Rightarrow> StoredPhoto \<Rightarrow> bool" where
  "photo_stored digest_bytes fs p \<longleftrightarrow> ph_technical_status p = READY \<longrightarrow> storage_key (ph_storageKey p) \<and>
     (\<exists>bytes. fs (ph_storageKey p) = Some bytes \<and> int (length bytes) \<le> MAX_PHOTO_BYTES \<and> ph_sha256 p = Some (digest_bytes bytes))"

definition doc_stored :: "(bytes \<Rightarrow> string) \<Rightarrow> (string \<Rightarrow> bool) \<Rightarrow> files \<Rightarrow> Upload list \<Rightarrow> EvidenceDocument \<Rightarrow> bool" where
  "doc_stored digest_bytes is_uuid fs us doc \<longleftrightarrow> (\<forall>p \<in> set (ed_attachments doc). photo_stored digest_bytes fs p \<and> is_uuid (ph_evidence_id p) \<and> ph_purged p = False
       \<and> (\<forall>u \<in> set us. upload_key u = ph_evidence_id p \<longrightarrow> ph_storageKey (up_photo u) = ph_storageKey p))
     \<and> (\<forall>a. ed_assessmentId doc = Some a \<longrightarrow> is_uuid a) \<and> \<not> ed_retired doc"

definition all_docs :: "(EvidenceDocument \<Rightarrow> bool) \<Rightarrow> EvidenceDb \<Rightarrow> bool" where
  "all_docs q db \<longleftrightarrow> (\<forall>e \<in> set (hd_evidence db). q (ew_document e))"

definition service_ok :: "(bytes \<Rightarrow> string) \<Rightarrow> (string \<Rightarrow> bool) \<Rightarrow> Service \<Rightarrow> bool" where
  "service_ok digest_bytes is_uuid s \<longleftrightarrow> all_docs (doc_stored digest_bytes is_uuid (sv_files s) (sv_uploads s)) (sv_db s)"

lemma all_docs_load: "all_docs q db \<Longrightarrow> ev_load db esc w = Inr r \<Longrightarrow> q (er_document r)"
  by (erule ev_load_Inr) (auto simp: all_docs_def)

lemma all_docs_save:
  assumes "all_docs q db" and "q doc" and "ev_save db now uuid sc (r\<lparr> er_document := doc \<rparr>) t a actor details = Inr (db', r')"
  shows "all_docs q db'"
proof -
  have "hd_evidence db' = map (put_document sc (hc_workflowId (er_case r)) doc) (hd_evidence db)" using ev_save_Inr [OF assms(3)] by simp
  with assms(1,2) show ?thesis by (auto simp: all_docs_def put_document_def)
qed

lemma all_docs_mono: "all_docs q db \<Longrightarrow> (\<And>doc. q doc \<Longrightarrow> q' doc) \<Longrightarrow> all_docs q' db"
  by (simp add: all_docs_def)

lemma all_docs_same: "hd_evidence db' = hd_evidence db \<Longrightarrow> all_docs q db' = all_docs q db"
  by (simp add: all_docs_def)

lemma photo_stored_mono: "photo_stored digest_bytes fs p \<Longrightarrow> fs \<subseteq>\<^sub>m fs' \<Longrightarrow> photo_stored digest_bytes fs' p"
  unfolding photo_stored_def map_le_def by (metis domI)

lemma doc_stored_mono: "doc_stored digest_bytes is_uuid fs us doc \<Longrightarrow> fs \<subseteq>\<^sub>m fs' \<Longrightarrow> set us' \<subseteq> set us \<Longrightarrow> doc_stored digest_bytes is_uuid fs' us' doc"
  unfolding doc_stored_def using photo_stored_mono by blast

text \<open>The documents that the operations write.\<close>

lemma doc_stored_map:
  assumes "doc_stored digest_bytes is_uuid fs us doc" and "ed_attachments doc' = map f (ed_attachments doc)" and "ed_retired doc' = ed_retired doc"
    and "\<And>p. ph_evidence_id (f p) = ph_evidence_id p \<and> ph_storageKey (f p) = ph_storageKey p \<and> ph_sha256 (f p) = ph_sha256 p \<and> ph_purged (f p) = ph_purged p
           \<and> (ph_technical_status (f p) = READY \<longrightarrow> ph_technical_status p = READY)"
    and "\<And>a. ed_assessmentId doc' = Some a \<Longrightarrow> is_uuid a"
  shows "doc_stored digest_bytes is_uuid fs us doc'"
  using assms by (auto simp: doc_stored_def photo_stored_def)

lemma review_stored:
  assumes "doc_stored digest_bytes is_uuid fs us doc" and "is_uuid aid"
  shows "doc_stored digest_bytes is_uuid fs us (review_document digest collate aid key fp c doc)"
proof (cases "rv_action c")
  case ACCEPT_EVIDENCE
  with assms show ?thesis by (simp add: doc_stored_def review_document_def)
next
  case REQUEST_MORE_EVIDENCE
  show ?thesis
    by (rule doc_stored_map [OF assms(1), where f = supersede]) (use REQUEST_MORE_EVIDENCE assms(2) in \<open>auto simp: review_document_def supersede_def\<close>)
qed

lemma recover_stored: "doc_stored digest_bytes is_uuid fs us doc \<Longrightarrow> doc_stored digest_bytes is_uuid fs us (recover_document cutoff doc)"
  by (rule doc_stored_map [where f = "recover_photo cutoff"]) (auto simp: recover_document_def recover_photo_def reject_photo_def doc_stored_def)

lemma mutate_first_in: "x \<in> set (mutate_first p f xs) \<Longrightarrow> x \<in> set xs \<or> (\<exists>y \<in> set xs. p y \<and> x = f y)"
  by (induction xs) (auto split: if_split_asm)

lemma finish_stored:
  assumes "doc_stored digest_bytes is_uuid fs us (er_document r)" and "u \<in> set us" and "stored_upload lib digest_bytes fs u = (fs', result)"
  shows "doc_stored digest_bytes is_uuid fs' us (finish_document (ph_evidence_id (up_photo u)) (upload_result r i result) (er_document r))"
proof -
  have photo: "photo_stored digest_bytes fs' x \<and> is_uuid (ph_evidence_id x) \<and> ph_purged x = False \<and> (\<forall>u \<in> set us. upload_key u = ph_evidence_id x \<longrightarrow> ph_storageKey (up_photo u) = ph_storageKey x)"
    if x: "x \<in> set (mutate_first (\<lambda>p. ph_evidence_id p = ph_evidence_id (up_photo u)) (finish_photo (upload_result r i result)) (ed_attachments (er_document r)))" for x
  proof -
    from mutate_first_in [OF x] consider "x \<in> set (ed_attachments (er_document r))"
      | p where "p \<in> set (ed_attachments (er_document r))" "ph_evidence_id p = ph_evidence_id (up_photo u)" "x = finish_photo (upload_result r i result) p" by blast
    then show ?thesis
    proof cases
      case 1
      with assms(1) stored_result(1) [OF assms(3)] show ?thesis unfolding doc_stored_def using photo_stored_mono by blast
    next
      case 2
      have key: "ph_storageKey (up_photo u) = ph_storageKey p" using assms(1,2) 2(1,2) by (auto simp: doc_stored_def upload_key_def)
      show ?thesis
      proof (cases "upload_result r i result")
        case (RejectedUpload c)
        with 2 assms(1) show ?thesis by (auto simp: finish_photo_def reject_photo_def doc_stored_def photo_stored_def)
      next
        case (Normalized t n w h sha)
        then have "result = Normalized t n w h sha" by (auto simp: upload_result_def Let_def split: if_split_asm UploadResult.split_asm)
        from stored_result(3) [OF assms(3) this] key Normalized 2 assms(1) show ?thesis by (auto simp: finish_photo_def doc_stored_def photo_stored_def)
      qed
    qed
  qed
  with assms(1) show ?thesis by (simp add: finish_document_def doc_stored_def)
qed


lemma ensure_docs:
  assumes "all_docs (doc_stored digest_bytes is_uuid fs us) db" and "ev_ensure digest db now ids i = Inr (db', snap)"
  shows "all_docs (doc_stored digest_bytes is_uuid fs us) db'"
proof -
  have "db' = db \<or> hd_evidence db' = hd_evidence db @ [new_evidence digest (''case-'' @ ids 0) i]"
    using assms(2) by (auto simp: ev_ensure_def Let_def dest!: ev_audit_Inr(3) split: if_split_asm)
  with assms(1) show ?thesis by (auto simp: all_docs_def new_evidence_def new_document_def doc_stored_def)
qed

lemma review_docs:
  assumes "all_docs (doc_stored digest_bytes is_uuid fs us) db" and "ev_review digest collate db now ids esc w access c key = Inr (db', snap)" and "is_uuid (ids 0)"
  shows "all_docs (doc_stored digest_bytes is_uuid fs us) db'"
proof -
  from assms(2) obtain r where r: "ev_load db esc w = Inr r" by (auto simp: ev_review_def)
  note q = review_stored [OF all_docs_load [OF assms(1) r] assms(3)]
  from assms(2) r consider "db' = db" | fp details r' where
    "ev_save db now (ids 1) (es_key esc) (r\<lparr> er_document := review_document digest collate (ids 0) key fp c (er_document r) \<rparr>) EVIDENCE_REVIEWED BY_HUMAN (ha_staffId access) details = Inr (db', r')"
    by (auto simp: ev_review_def Let_def split: Stored.split_asm if_split_asm)
  then show ?thesis using assms(1) all_docs_save [OF assms(1) q] by cases auto
qed

lemma transition_docs:
  assumes "all_docs (doc_stored digest_bytes is_uuid fs us) db" and "ev_transition digest db now ids esc w i = Inr (db', snap)"
  shows "all_docs (doc_stored digest_bytes is_uuid fs us) db'"
proof -
  from assms(2) obtain r where r: "ev_load db esc w = Inr r" by (auto simp: ev_transition_def)
  have q: "doc_stored digest_bytes is_uuid fs us ((er_document r)\<lparr> ed_transitionKeys := ks \<rparr>)" for ks
    using all_docs_load [OF assms(1) r] by (simp add: doc_stored_def)
  from assms(2) r consider "db' = db" | cs ks details r' where
    "ev_save (db\<lparr> hd_cases := cs \<rparr>) now (ids 0) (es_key esc) (r\<lparr> er_document := (er_document r)\<lparr> ed_transitionKeys := ks \<rparr> \<rparr>) CASE_PHASE_CHANGED BY_WORKFLOW w details = Inr (db', r')"
    by (auto simp: ev_transition_def Let_def split: Stored.split_asm option.split_asm if_split_asm)
  then show ?thesis
  proof cases
    case 2
    have "all_docs (doc_stored digest_bytes is_uuid fs us) (db\<lparr> hd_cases := cs \<rparr>)" using assms(1) by (simp add: all_docs_def)
    from all_docs_save [OF this q 2] show ?thesis .
  qed (use assms(1) in simp)
qed

lemma recover_docs:
  assumes "all_docs (doc_stored digest_bytes is_uuid fs us) db" and "ev_recoverStaleUploads db now ids esc = Inr db'"
  shows "all_docs (doc_stored digest_bytes is_uuid fs us) db'"
proof -
  have "recover_rows db now ids esc cutoff n rows = Inr db' \<Longrightarrow> all_docs (doc_stored digest_bytes is_uuid fs us) db \<Longrightarrow> all_docs (doc_stored digest_bytes is_uuid fs us) db'" for cutoff n rows
  proof (induction rows arbitrary: db n)
    case (Cons x rows)
    obtain e row where x: "x = (e, row)" by fastforce
    obtain r db1 details r1 where r: "ev_load db esc (ew_workflow_id e) = Inr r"
      and s: "ev_save db now (ids n) (es_key esc) (r\<lparr> er_document := recover_document cutoff (er_document r) \<rparr>) EVIDENCE_VALIDATED BY_WORKFLOW (hc_workflowId (er_case r)) details = Inr (db1, r1)"
      and rest: "recover_rows db1 now ids esc cutoff (Suc n) rows = Inr db'"
      using Cons.prems(1) by (auto simp: x)
    have "all_docs (doc_stored digest_bytes is_uuid fs us) db1"
      using all_docs_save [OF Cons.prems(2) recover_stored [OF all_docs_load [OF Cons.prems(2) r]] s] .
    with Cons.IH [OF rest] show ?case .
  qed simp
  with assms show ?thesis by (simp add: ev_recoverStaleUploads_def Let_def)
qed

lemma finish_docs:
  assumes "all_docs (doc_stored digest_bytes is_uuid fs us) db" and "u \<in> set us" and "stored_upload lib digest_bytes fs u = (fs', result)"
  shows "all_docs (doc_stored digest_bytes is_uuid fs' us) (after db (finish_upload db now ids u result))"
proof (cases "after db (finish_upload db now ids u result) = db")
  case True
  with assms(1) stored_result(1) [OF assms(3)] show ?thesis by (auto intro: all_docs_mono doc_stored_mono)
next
  case False
  let ?i = "ph_evidence_id (up_photo u)" and ?esc = "customer_scope (up_access u)"
  from False obtain r where r: "ev_load db ?esc (ce_workflowId (up_access u)) = Inr r"
    by (cases "ev_load db ?esc (ce_workflowId (up_access u))") (auto simp: after_def finish_upload_def ev_finishUpload_def bindF_def)
  have q: "doc_stored digest_bytes is_uuid fs' us (finish_document ?i (upload_result r ?i result) (er_document r))"
    using finish_stored [OF all_docs_load [OF assms(1) r] assms(2,3)] .
  have mono: "all_docs (doc_stored digest_bytes is_uuid fs' us) db"
    using assms(1) stored_result(1) [OF assms(3)] by (auto intro: all_docs_mono doc_stored_mono)
  from False r obtain db' details r' where "ev_save db now (ids 0) (es_key ?esc) (r\<lparr> er_document := finish_document ?i (upload_result r ?i result) (er_document r) \<rparr>)
      EVIDENCE_VALIDATED BY_WORKFLOW (ce_workflowId (up_access u)) details = Inr (db', r')" "after db (finish_upload db now ids u result) = db'"
    by (auto simp: after_def finish_upload_def ev_finishUpload_def Let_def bindF_def split: option.split_asm if_split_asm sum.split_asm)
  with all_docs_save [OF mono q] show ?thesis by simp
qed


lemma begin_docs:
  assumes "all_docs (doc_stored digest_bytes is_uuid fs us) db" and "ev_beginUpload db now ids esc w i = Inr (db', r', up_photo u, True)"
    and "is_uuid (ids 0)" and "new_evidence_id db (ids 0)" and "ids 0 \<notin> upload_key ` set us"
  shows "all_docs (doc_stored digest_bytes is_uuid fs (u # us)) db'"
proof -
  from assms(2) obtain r where r: "ev_load db esc w = Inr r" by (auto simp: ev_beginUpload_def)
  let ?p = "new_photo (ids 0) now i"
  from assms(2) r obtain details where photo: "up_photo u = ?p"
    and s: "ev_save db now (ids 1) (es_key esc) (r\<lparr> er_document := add_photo ?p (er_document r) \<rparr>) EVIDENCE_UPLOAD_RESERVED BY_CUSTOMER (er_customerId r) details = Inr (db', r')"
    by (auto simp: ev_beginUpload_def Let_def split: option.split_asm if_split_asm)
  have old: "all_docs (\<lambda>doc. doc_stored digest_bytes is_uuid fs (u # us) doc \<and> ids 0 \<notin> ph_evidence_id ` set (ed_attachments doc)) db"
    using assms(1,4) photo by (auto simp: all_docs_def doc_stored_def new_evidence_id_def upload_key_def new_photo_def)
  have other: "upload_key v \<noteq> ids 0" if "v \<in> set us" for v using assms(5) that by (metis image_eqI)
  have p: "ph_evidence_id ?p = ids 0" "ph_technical_status ?p = PROCESSING" "\<not> ph_purged ?p" by (simp_all add: new_photo_def)
  have new: "doc_stored digest_bytes is_uuid fs (u # us) (add_photo ?p (er_document r))"
    using all_docs_load [OF old r] assms(3) photo p other by (auto simp: doc_stored_def add_photo_def photo_stored_def)
  have "all_docs (doc_stored digest_bytes is_uuid fs (u # us)) db" using old by (rule all_docs_mono) simp
  from all_docs_save [OF this new s] show ?thesis .
qed

lemma service_step_ok:
  assumes "service_step lib digest collate digest_bytes is_uuid s s'" and "service_ok digest_bytes is_uuid s"
  shows "service_ok digest_bytes is_uuid s'"
  using assms
proof (induction rule: service_step.induct)
  case (collected verify s now ids body key header db' a)
  then show ?case
    by (auto simp: service_ok_def post_collections_def committed_def intro: ensure_docs split: sum.split_asm)
next
  case (transitioned verify s now ids param body key header db' a)
  then show ?case
    by (auto simp: service_ok_def post_transition_def committed_def intro: transition_docs split: sum.split_asm)
next
  case (reviewed human s now ids param body key header db' a)
  then show ?case
    by (auto simp: service_ok_def post_evidence_review_def committed_def intro: review_docs split: sum.split_asm)
next
  case (reserved rq s now ids db' r u)
  from begin_upload_Inr [OF reserved(1)] obtain i where
    "ev_beginUpload (sv_db s) now ids (customer_scope (up_access u)) (ce_workflowId (up_access u)) i = Inr (db', r, up_photo u, True)" by metis
  from begin_docs [where is_uuid = is_uuid and ids = ids, OF _ this reserved(2,3,4)] reserved(5) show ?case by (simp add: service_ok_def)
next
  case (settled u s fs' result now ids)
  have "set (remove1 u (sv_uploads s)) \<subseteq> set (sv_uploads s)" by (rule set_remove1_subset)
  then have "doc_stored digest_bytes is_uuid fs' (remove1 u (sv_uploads s)) doc" if "doc_stored digest_bytes is_uuid fs' (sv_uploads s) doc" for doc
    using that by (intro doc_stored_mono [OF that]) simp_all
  then show ?case using finish_docs [OF _ settled(1,2), of is_uuid "sv_db s" now ids, THEN all_docs_mono] settled(3) by (simp add: service_ok_def)
next
  case (crashed us s u fs' result)
  with stored_result(1) [OF crashed(3)] show ?case by (auto simp: service_ok_def intro: all_docs_mono doc_stored_mono)
next
  case (recovered s now ids esc db')
  then show ?case by (simp add: service_ok_def recover_docs)
qed (simp_all add: service_ok_def all_docs_same [OF case_steps_evidence [OF case_request_steps(1)]] all_docs_same [OF case_steps_evidence [OF case_request_steps(2)]]
    all_docs_same [OF case_steps_evidence [OF case_request_steps(3)]] all_docs_same [OF case_steps_evidence [OF case_request_steps(4)]]
    all_docs_same [OF case_steps_evidence [OF case_request_steps(5)]] all_docs_same [OF case_steps_evidence [OF dispatched_steps]])

definition new_service :: Service where
  "new_service = \<lparr> sv_files = Map.empty, sv_db = no_evidence, sv_uploads = [] \<rparr>"

lemma reachable_service:
  assumes "(service_step lib digest collate digest_bytes is_uuid)\<^sup>*\<^sup>* new_service s"
  shows "service_ok digest_bytes is_uuid s" and "(human_step digest collate)\<^sup>*\<^sup>* no_evidence (sv_db s)"
proof -
  have "service_ok digest_bytes is_uuid s \<and> (human_step digest collate)\<^sup>*\<^sup>* no_evidence (sv_db s)"
    using assms
  proof (induction rule: rtranclp_induct)
    case (step s s')
    then show ?case using service_step_ok service_refines [of lib digest collate digest_bytes is_uuid s s'] by (meson rtranclp_trans)
  qed (simp add: new_service_def service_ok_def all_docs_def no_evidence_def)
  then show "service_ok digest_bytes is_uuid s" and "(human_step digest collate)\<^sup>*\<^sup>* no_evidence (sv_db s)" by simp_all
qed

lemma read_all_stored:
  assumes "\<forall>p \<in> set ps. photo_stored digest_bytes fs p \<and> ph_technical_status p = READY" and "\<And>b. digest_bytes b \<noteq> []"
  shows "read_all digest_bytes fs ps = Inr ()"
  using assms(1)
proof (induction ps)
  case (Cons p ps)
  then obtain bytes where "storage_key (ph_storageKey p)" "fs (ph_storageKey p) = Some bytes" "int (length bytes) \<le> MAX_PHOTO_BYTES" "ph_sha256 p = Some (digest_bytes bytes)"
    by (auto simp: photo_stored_def)
  with Cons assms(2) show ?case by (simp add: store_read_def store_filename_def)
qed simp

lemma served_evidence:
  assumes "all_docs (doc_stored digest_bytes is_uuid fs us) db" and "\<And>b. digest_bytes b \<noteq> []"
    and "verify header P_refund_evidence_read = Inr access" and "evidenceWorkflowId param = Some (wa_workflowId access)"
    and "ev_get db (worker_scope access) (wa_workflowId access) = Inr r"
  shows "get_evidence digest_bytes (Some verify) fs db param header = Inr (200, snapshot_json (evidenceSnapshot r))"
proof -
  from all_docs_load [OF assms(1)] assms(5) have "doc_stored digest_bytes is_uuid fs us (er_document r)" by (simp add: ev_get_def)
  then have "read_all digest_bytes fs (ready_photos (ed_attachments (er_document r))) = Inr ()"
    by (intro read_all_stored [OF _ assms(2)]) (auto simp: doc_stored_def ready_photos_def)
  then have "authoritativeSnapshot digest_bytes fs r = Inr (evidenceSnapshot r)" by (simp add: authoritativeSnapshot_def Let_def)
  with assms(3-5) show ?thesis by (simp add: get_evidence_def worker_def parsed_def sameWorkflow_def reply_def bindF_def)
qed

text \<open>
  C20. Accepted evidence is readable: in every state of the service, whatever uploads overlapped with
  the review and wherever the process was lost, the check of the stored photos behind an accepted
  answer succeeds, so that a worker who may ask gets the snapshot and not an error.
\<close>

theorem accepted_evidence_readable:
  assumes "(service_step lib digest collate digest_bytes is_uuid)\<^sup>*\<^sup>* new_service s" and "\<And>b. digest_bytes b \<noteq> []"
    and "verify header P_refund_evidence_read = Inr access" and "evidenceWorkflowId param = Some (wa_workflowId access)"
    and "ev_get (sv_db s) (worker_scope access) (wa_workflowId access) = Inr r"
  shows "get_evidence digest_bytes (Some verify) (sv_files s) (sv_db s) param header = Inr (200, snapshot_json (evidenceSnapshot r))"
proof -
  have "all_docs (doc_stored digest_bytes is_uuid (sv_files s) (sv_uploads s)) (sv_db s)" using reachable_service(1) [OF assms(1)] by (simp add: service_ok_def)
  then show ?thesis using assms(2-5) by (rule served_evidence)
qed

section \<open>A sample run of the service\<close>

text \<open>A small image library, a hash, and the signed-in workflow, customer and reviewer.\<close>

definition sample_library :: ImageLibrary where
  "sample_library = \<lparr> im_metadata = (\<lambda>_. Some (None, Some 640, Some 480)), im_encode = (\<lambda>_ bytes. Some (bytes, 640, 480)) \<rparr>"

definition plain_bytes :: "bytes \<Rightarrow> string" where
  "plain_bytes b = ''hash''"

definition some_text :: "string \<Rightarrow> bool" where
  "some_text s \<longleftrightarrow> s \<noteq> []"

definition sample_worker :: WorkflowCaseAccess where
  "sample_worker = \<lparr> wa_workflowId = ''wf-1'', wa_tenantId = ''t'', wa_environmentId = ''e'', wa_subjectCustomerId = ''cust'', wa_purpose = P_refund_evidence_read \<rparr>"

definition worker_in :: case_verifier where
  "worker_in header purpose = Inr sample_worker"

definition sample_collection :: json where
  "sample_collection = JObj [(''workflow_id'', JStr ''wf-1''), (''order_id'', JStr ''order-1''), (''proposal_id'', JStr ''prop-1''), (''selected_item_ids'', JArr []),
     (''review_packet'', JObj [(''order_reference'', JStr ''O-1''), (''requested_amount'', JObj [(''amount_minor'', JNum 2500), (''currency'', JStr ''USD'')]),
        (''policy_reason_codes'', JArr [JStr ''amount_above_auto_limit'']), (''evidence_ids'', JArr []), (''policy_version'', JStr ''v1'')]),
     (''policy_version'', JStr ''v1'')]"

definition sample_image :: bytes where
  "sample_image = [255, 216, 255, 1]"

definition sample_post :: UploadRequest where
  "sample_post = \<lparr> ur_access = Some sample_customer, ur_content_type = Some ''image/jpeg'', ur_revision = Some ''0'', ur_key = Some ''upload-key-1'', ur_body = Some sample_image \<rparr>"

definition sample_uploading :: Upload where
  "sample_uploading = \<lparr> up_access = sample_customer, up_photo = new_photo sample_photo 0 sample_upload, up_bytes = sample_image, up_type = Image_jpeg \<rparr>"

abbreviation sample_step :: "Service \<Rightarrow> Service \<Rightarrow> bool" where
  "sample_step \<equiv> service_step sample_library plain_digest plain_order plain_bytes some_text"

definition stored_files :: files where
  "stored_files = [sample_photo @ ''.jpg'' \<mapsto> sample_image]"

lemma sample_collects: "fst (post_collections plain_digest plain_bytes (Some worker_in) Map.empty no_evidence 0 (two_ids ''1'' ''2'') sample_collection (Some ''collect-key-1'') None) = ensured_db"
proof -
  have parse: "ensureSchema sample_collection = Some \<lparr> eb_workflow_id = ''wf-1'', eb_binding = en_binding sample_ensure, eb_review_packet = sample_packet \<rparr>" by code_simp
  have key: "parseIdempotencyKey (Some ''collect-key-1'') = Some ''collect-key-1''" by code_simp
  have input: "ensure_input sample_worker \<lparr> eb_workflow_id = ''wf-1'', eb_binding = en_binding sample_ensure, eb_review_packet = sample_packet \<rparr> = sample_ensure"
    by (simp add: ensure_input_def worker_scope_def sample_worker_def sample_ensure_def sample_owner_def)
  obtain snap where "ev_ensure plain_digest no_evidence 0 (two_ids ''1'' ''2'') sample_ensure = Inr (ensured_db, snap)"
    using outcome_ofI [OF ensured_db_def [symmetric]] by (auto simp: ensured_val no_evidence_def)
  then show ?thesis
    by (simp add: post_collections_def worker_def worker_in_def parse parsed_def sameWorkflow_def idempotencyKey_def key input bindF_def committed_def split: sum.split)
      (simp add: sample_worker_def)
qed

lemma sample_reserves: "\<exists>r. bindF (upload_input plain_digest plain_bytes sample_post) (begin_upload ensured_db 0 (two_ids sample_photo ''3'')) = Inr (reserved_db, r, sample_uploading, True)"
proof -
  have input: "upload_input plain_digest plain_bytes sample_post = Inr (sample_customer, sample_upload, sample_image)" by code_simp
  have sc: "customer_scope sample_customer = sample_owner" "ce_workflowId sample_customer = ''wf-1''"
    by (simp_all add: customer_scope_def sample_customer_def sample_owner_def)
  have "\<exists>r. ev_beginUpload ensured_db 0 (two_ids sample_photo ''3'') sample_owner ''wf-1'' sample_upload = Inr (reserved_db, r, new_photo sample_photo 0 sample_upload, True)"
    by (simp add: reserved_db_def ensured_val sample_sets)
  then show ?thesis by (auto simp: input begin_upload_def sc sample_uploading_def bindF_def sample_upload_def)
qed

lemma sample_stores: "stored_upload sample_library plain_bytes Map.empty sample_uploading = (stored_files, Normalized Image_jpeg 4 640 480 ''hash'')"
proof -
  have "validatePhoto sample_library plain_bytes sample_image Image_jpeg
      = Inr \<lparr> vp_bytes = sample_image, vp_contentType = Image_jpeg, vp_width = 640, vp_height = 480, vp_sha256 = ''hash'' \<rparr>"
    by (simp add: validatePhoto_def sample_image_def sample_library_def is_jpeg_def image_limits_def plain_bytes_def MAX_PHOTO_BYTES_def Let_def)
  moreover have "ph_storageKey (up_photo sample_uploading) = sample_photo @ ''.jpg''" by (simp add: sample_uploading_def new_photo_def sample_upload_def)
  moreover have "storage_key (sample_photo @ ''.jpg'')" by code_simp
  ultimately show ?thesis
    by (simp add: stored_upload_def store_photo_def sample_uploading_def store_put_def store_filename_def bindF_def stored_files_def sample_image_def)
qed


lemma sample_settles: "after reserved_db (finish_upload reserved_db 0 (two_ids ''4'' ''4'') sample_uploading (Normalized Image_jpeg 4 640 480 ''hash'')) = validated_db"
proof -
  have u: "customer_scope (up_access sample_uploading) = sample_owner" "ce_workflowId (up_access sample_uploading) = ''wf-1''" "ph_evidence_id (up_photo sample_uploading) = sample_photo"
    by (simp_all add: sample_uploading_def customer_scope_def sample_customer_def sample_owner_def new_photo_def)
  show ?thesis by (simp add: after_def finish_upload_def u validated_db_def outcome_of_def)
qed

definition sample_claim_body :: json where
  "sample_claim_body = JObj [(''expected_case_version'', JNum 3)]"

definition sample_review_body :: json where
  "sample_review_body = JObj [(''version'', JStr ''v1''), (''action'', JStr ''ACCEPT_EVIDENCE''), (''expected_case_version'', JNum 4), (''expected_evidence_version'', JNum 2),
     (''reason_code'', JStr ''DAMAGE_VISIBLE'')]"

lemma sample_claims:
  "fst (post_claim (postgresCases plain_digest) None signed_in validated_db 0 (two_ids ''5'' ''5'') (JStr ''case-1'') sample_claim_body (Some ''claim-key-1'') None) = claimed_db"
proof -
  obtain c where claim: "pg_claim plain_digest validated_db 0 (two_ids ''5'' ''5'') (''t'', ''e'') (sample_claim_at 3 ''claim-key-1'') = Inr (claimed_db, c)"
    using outcome_ofI [OF claimed_db_def [symmetric]] by (auto simp: claimed_val validated_val)
  have parse: "opaque200 (JStr ''case-1'') = Some ''case-1''" "claimBodySchema sample_claim_body = Some 3" "parseIdempotencyKey (Some ''claim-key-1'') = Some ''claim-key-1''"
    by code_simp+
  obtain current where get: "pg_case_get validated_db (''t'', ''e'') ''case-1'' = Inr current" "hc_caseId current = ''case-1''" "hc_status current = OPEN"
    "hc_assignedStaffId current = None" "hc_caseType current = REFUND_EVIDENCE_REVIEW"
    by (simp add: pg_case_get_def validated_val claim_defs case_key_def row_scope_def bindF_def)
  have sc: "access_scope sample_reviewer = (''t'', ''e'')" by (simp add: access_scope_def sample_reviewer_def)
  have can: "canSubmitClaim sample_reviewer current" using get by (simp add: canSubmitClaim_def canClaimCase_def hasCaseRole_def sample_reviewer_def)
  have input: "\<lparr> ci_caseId = hc_caseId current, ci_staffId = ha_staffId sample_reviewer, ci_expectedVersion = 3, ci_key = ''claim-key-1'' \<rparr> = sample_claim_at 3 ''claim-key-1''"
    using get by (simp add: sample_claim_at_def sample_reviewer_def)
  show ?thesis using get(1) can claim by (simp add: post_claim_def parse verifyHuman_def signed_in_def sc Let_def postgresCases_def input)
qed

lemma sample_reviews:
  "fst (post_evidence_review plain_digest plain_order signed_in claimed_db 0 (two_ids ''review'' ''6'') (JStr ''case-1'') sample_review_body (Some ''review-key-1'') None) = accepted_db"
proof -
  obtain snap where review: "ev_review plain_digest plain_order claimed_db 0 (two_ids ''review'' ''6'') sample_scope ''wf-1'' sample_reviewer sample_review ''review-key-1'' = Inr (accepted_db, snap)"
    using outcome_ofI [OF accepted_db_def [symmetric]] by (auto simp: claimed_val accepted_val)
  have parse: "opaqueId (JStr ''case-1'') = Some ''case-1''" "evidenceReviewSchema sample_review_body = Some sample_review" "parseIdempotencyKey (Some ''review-key-1'') = Some ''review-key-1''"
    by code_simp+
  obtain current where get: "pg_case_get claimed_db (''t'', ''e'') ''case-1'' = Inr current" "hc_workflowId current = ''wf-1''" "hc_status current = CLAIMED"
    "hc_assignedStaffId current = Some ''staff-1''" "hc_caseType current = REFUND_EVIDENCE_REVIEW"
    by (simp add: pg_case_get_def claimed_val claim_defs case_key_def row_scope_def bindF_def)
  have sc: "access_scope sample_reviewer = (''t'', ''e'')" "staff_scope sample_reviewer = sample_scope"
    by (simp_all add: access_scope_def staff_scope_def sample_reviewer_def sample_scope_def)
  have "staff (postgresCases plain_digest) signed_in claimed_db None ''case-1'' = Inr (sample_reviewer, current)"
    using get by (simp add: staff_def signed_in_def sc postgresCases_def from_cases_def bindF_def staff_eligible_def) (simp add: sample_reviewer_def)
  with get(2) review show ?thesis
    by (simp add: post_evidence_review_def parse parsed_def idempotencyKey_def sc bindF_def committed_def split: sum.split)
qed

definition accepted_service :: Service where
  "accepted_service = \<lparr> sv_files = stored_files, sv_db = accepted_db, sv_uploads = [] \<rparr>"

lemma accepted_service_reachable: "sample_step\<^sup>*\<^sup>* new_service accepted_service"
proof -
  let ?s = "\<lambda>fs db us. \<lparr> sv_files = fs, sv_db = db, sv_uploads = us \<rparr>"
  have 1: "sample_step new_service (?s Map.empty ensured_db [])"
    using service_step.collected [where s = new_service, simplified new_service_def, simplified] sample_collects by (metis new_service_def prod.collapse)
  obtain r where r: "bindF (upload_input plain_digest plain_bytes sample_post) (begin_upload ensured_db 0 (two_ids sample_photo ''3'')) = Inr (reserved_db, r, sample_uploading, True)"
    using sample_reserves by blast
  have new: "some_text (two_ids sample_photo ''3'' 0)" "new_evidence_id ensured_db (two_ids sample_photo ''3'' 0)"
    by (simp_all add: some_text_def two_ids_def sample_photo_def new_evidence_id_def ensured_val)
  have 2: "sample_step (?s Map.empty ensured_db []) (?s Map.empty reserved_db [sample_uploading])"
    using service_step.reserved [where s = "?s Map.empty ensured_db []" and lib = sample_library and collate = plain_order and is_uuid = some_text and rq = sample_post
        and digest = plain_digest and digest_bytes = plain_bytes and now = 0 and ids = "two_ids sample_photo ''3''" and db' = reserved_db and r = r and u = sample_uploading] r new
    by (simp del: bindF_eq_Inr)
  have 3: "sample_step (?s Map.empty reserved_db [sample_uploading]) (?s stored_files validated_db [])"
    using service_step.settled [where s = "?s Map.empty reserved_db [sample_uploading]" and now = 0 and ids = "two_ids ''4'' ''4''", simplified, OF refl sample_stores] sample_settles by simp
  have 4: "sample_step (?s stored_files validated_db []) (?s stored_files claimed_db [])"
    using service_step.claimed [where s = "?s stored_files validated_db []", simplified] sample_claims by (metis prod.collapse)
  have "sample_step (?s stored_files claimed_db []) (?s stored_files accepted_db [])"
    using service_step.reviewed [where s = "?s stored_files claimed_db []" and ids = "two_ids ''review'' ''6''", simplified] sample_reviews by (metis list.distinct(1) prod.collapse some_text_def two_ids_def)
  with 1 2 3 4 show ?thesis unfolding accepted_service_def by (meson r_into_rtranclp rtranclp_trans)
qed


theorem accepted_evidence_readable_witness:
  "\<exists>r. ed_assessment (er_document r) = ACCEPTED
    \<and> get_evidence plain_bytes (Some worker_in) stored_files accepted_db (JStr ''wf-1'') None = Inr (200, snapshot_json (evidenceSnapshot r))"
proof -
  have wf: "evidenceWorkflowId (JStr ''wf-1'') = Some (wa_workflowId sample_worker)" by code_simp
  obtain r where r: "ev_get accepted_db (worker_scope sample_worker) (wa_workflowId sample_worker) = Inr r" "ed_assessment (er_document r) = ACCEPTED"
    by (simp add: ev_get_def accepted_val sample_sets worker_scope_def sample_worker_def)
  have "get_evidence plain_bytes (Some worker_in) (sv_files accepted_service) (sv_db accepted_service) (JStr ''wf-1'') None = Inr (200, snapshot_json (evidenceSnapshot r))"
    by (rule accepted_evidence_readable [OF accepted_service_reachable _ _ wf]) (use r in \<open>simp_all add: plain_bytes_def worker_in_def accepted_service_def\<close>)
  with r show ?thesis by (auto simp: accepted_service_def)
qed

end
