(* ===== verification/Evidence_Exchange.thy ===== *)
theory Evidence_Exchange
  imports Evidence_Service
begin

text \<open>
  Human operations and those it answers: who gets to see a photo, and what the refund worker's client
  (\<^verbatim>\<open>Worker_Clients\<close>) reads from the answers of the routes.
\<close>

section \<open>Photos are shown to their owner and to the assigned reviewer\<close>

definition shows_photo :: "(bytes \<Rightarrow> string) \<Rightarrow> EvidenceRow \<Rightarrow> bytes \<Rightarrow> bool" where
  "shows_photo digest_bytes e bytes \<longleftrightarrow> \<not> ed_retired (ew_document e) \<and> (\<exists>p \<in> set (ready_photos (ed_attachments (ew_document e))). ph_sha256 p = Some (digest_bytes bytes))"

lemma content_Inr:
  assumes "content digest_bytes fs r i = Inr (t, bytes)"
  shows "\<not> ed_retired (er_document r) \<and> (\<exists>p \<in> set (ready_photos (ed_attachments (er_document r))). ph_sha256 p = Some (digest_bytes bytes))"
proof -
  from assms obtain p where p: "List.find (\<lambda>p. ph_evidence_id p = i \<and> \<not> ph_purged p \<and> \<not> ph_superseded p \<and> ph_technical_status p = READY) (ed_attachments (er_document r)) = Some p"
    by (auto simp: content_def split: option.split_asm)
  with assms have s: "\<not> ed_retired (er_document r)" "ph_sha256 p = Some (digest_bytes bytes)"
    by (auto simp: content_def store_read_def split: option.split_asm if_split_asm)
  from find_in_set [OF p] have "p \<in> set (ready_photos (ed_attachments (er_document r)))" by (simp add: ready_photos_def current_photo_def)
  with s show ?thesis by blast
qed

lemma staff_Inr:
  assumes "staff (postgresCases digest) verify db header caseId = Inr (access, c)"
  obtains row where "verify header = Inr access" "row \<in> set (hd_cases db)" "case_key row = (access_scope access, caseId)" "c = toHumanCase row"
    "cr_assigned_staff_id row = Some (ha_staffId access)" "cr_case_status row \<noteq> OPEN" "hasCaseRole access c"
proof -
  from assms have v: "verify header = Inr access" by (auto simp: staff_def split: sum.split_asm if_split_asm)
  with assms have g: "pg_case_get db (access_scope access) caseId = Inr c"
      and s: "staff_eligible access c" "hc_assignedStaffId c = Some (ha_staffId access)" "hc_status c \<in> {CLAIMED, DECISION_PENDING, CLOSED}"
    by (auto simp: staff_def from_cases_def postgresCases_def map_sum_def split: sum.split_asm if_split_asm)
  from g obtain row where row: "requireCase db (access_scope access) caseId = Inr row" "c = toHumanCase row" by (auto simp: pg_case_get_def)
  from s(1) have "hasCaseRole access c" by (cases "ha_role access"; cases "hc_caseType c") (auto simp: staff_eligible_def hasCaseRole_def)
  with v row requireCase_Inr [OF row(1)] s(2,3) show thesis by (intro that) auto
qed

text \<open>
  C21. Who sees a photo: the bytes that the customer's route answers belong to evidence of the signed-in
  customer's own workflow, and those of the staff route to the workflow of a case that is assigned to
  the signed-in member of staff, in the role for its type. Either way the evidence is not retired, and
  the bytes have the hash that was recorded for a ready photo that was neither superseded nor purged.
\<close>

theorem photos_are_private:
  "(get_customer_photo is_uuid digest_bytes verify fs db param evidenceParam header = Inr (t, bytes) \<longrightarrow>
      (\<exists>access. verify header P_refund_evidence_content = Inr access \<and> (\<exists>e \<in> set (hd_evidence db).
         evidence_key e = ((ce_tenantId access, ce_environmentId access), ce_workflowId access) \<and> ew_subject_customer_id e = ce_subjectCustomerId access
         \<and> shows_photo digest_bytes e bytes)))
   \<and> (get_case_photo is_uuid digest digest_bytes human fs db param evidenceParam header = Inr (t, bytes) \<longrightarrow>
      (\<exists>access. human header = Inr access \<and> (\<exists>row \<in> set (hd_cases db). row_scope row = access_scope access \<and> hasCaseRole access (toHumanCase row)
         \<and> cr_assigned_staff_id row = Some (ha_staffId access) \<and> (\<exists>e \<in> set (hd_evidence db). evidence_key e = (access_scope access, cr_workflow_id row)
         \<and> shows_photo digest_bytes e bytes))))"
proof (intro conjI impI)
  assume "get_customer_photo is_uuid digest_bytes verify fs db param evidenceParam header = Inr (t, bytes)"
  then obtain access i r where a: "verify header P_refund_evidence_content = Inr access" "ev_get db (customer_scope access) (ce_workflowId access) = Inr r"
      "content digest_bytes fs r i = Inr (t, bytes)"
    by (auto simp: get_customer_photo_def customer_def sameWorkflow_def split: sum.split_asm if_split_asm)
  from ev_load_Inr [OF a(2) [unfolded ev_get_def]] obtain e row where e: "e \<in> set (hd_evidence db)"
      "evidence_key e = (es_key (customer_scope access), ce_workflowId access)" "r = evidence_record e row"
      "es_subjectCustomerId (customer_scope access) \<in> {None, Some (ew_subject_customer_id e)}" by metis
  with a(1) content_Inr [OF a(3)] show "\<exists>access. verify header P_refund_evidence_content = Inr access \<and> (\<exists>e \<in> set (hd_evidence db).
         evidence_key e = ((ce_tenantId access, ce_environmentId access), ce_workflowId access) \<and> ew_subject_customer_id e = ce_subjectCustomerId access
         \<and> shows_photo digest_bytes e bytes)"
    by (intro exI [of _ access] conjI bexI [of _ e]) (auto simp: customer_scope_def shows_photo_def)
next
  assume "get_case_photo is_uuid digest digest_bytes human fs db param evidenceParam header = Inr (t, bytes)"
  then obtain caseId access c i r where a: "staff (postgresCases digest) human db header caseId = Inr (access, c)"
      "ev_get db (staff_scope access) (hc_workflowId c) = Inr r" "content digest_bytes fs r i = Inr (t, bytes)"
    by (auto simp: get_case_photo_def)
  from staff_Inr [OF a(1)] obtain row where row: "human header = Inr access" "row \<in> set (hd_cases db)" "case_key row = (access_scope access, caseId)" "c = toHumanCase row"
    "cr_assigned_staff_id row = Some (ha_staffId access)" "hasCaseRole access c" by metis
  from ev_load_Inr [OF a(2) [unfolded ev_get_def]] obtain e row' where e: "e \<in> set (hd_evidence db)"
      "evidence_key e = (es_key (staff_scope access), hc_workflowId c)" "r = evidence_record e row'" by metis
  with row content_Inr [OF a(3)] show "\<exists>access. human header = Inr access \<and> (\<exists>row \<in> set (hd_cases db). row_scope row = access_scope access \<and> hasCaseRole access (toHumanCase row)
         \<and> cr_assigned_staff_id row = Some (ha_staffId access) \<and> (\<exists>e \<in> set (hd_evidence db). evidence_key e = (access_scope access, cr_workflow_id row)
         \<and> shows_photo digest_bytes e bytes))"
    by (intro exI [of _ access] conjI bexI [of _ row] bexI [of _ e]) (auto simp: staff_scope_def shows_photo_def case_key_def)
qed


lemma sample_customer_photo: "get_customer_photo some_text plain_bytes customer_in stored_files accepted_db (JStr ''wf-1'') (JStr sample_photo) None = Inr (Image_jpeg, sample_image)"
proof -
  have wf: "evidenceWorkflowId (JStr ''wf-1'') = Some ''wf-1''" "storage_key (sample_photo @ ''.jpg'')" by code_simp+
  have some: "some_text sample_photo" by (simp add: some_text_def sample_photo_def)
  obtain r where r: "ev_get accepted_db (customer_scope sample_customer) ''wf-1'' = Inr r"
    and p: "content plain_bytes stored_files r sample_photo = bindF (store_read plain_bytes stored_files (sample_photo @ ''.jpg'') ''hash'') (\<lambda>bytes. Inr (Image_jpeg, bytes))"
    by (simp add: ev_get_def accepted_val sample_sets customer_scope_def sample_customer_def content_def)
  have "store_read plain_bytes stored_files (sample_photo @ ''.jpg'') ''hash'' = Inr sample_image"
    using wf(2) by (simp add: store_read_def store_filename_def bindF_def stored_files_def plain_bytes_def sample_image_def MAX_PHOTO_BYTES_def)
  with r p some show ?thesis
    by (simp add: get_customer_photo_def customer_def customer_in_def wf parsed_def sameWorkflow_def bindF_def sample_customer_def)
qed

theorem photos_are_private_witness:
  "\<exists>e \<in> set (hd_evidence accepted_db). evidence_key e = ((''t'', ''e''), ''wf-1'') \<and> ew_subject_customer_id e = ''cust'' \<and> shows_photo plain_bytes e sample_image"
  using photos_are_private [of some_text plain_bytes customer_in stored_files accepted_db "JStr ''wf-1''" "JStr sample_photo" None Image_jpeg sample_image plain_digest signed_in]
    sample_customer_photo by (auto simp: customer_in_def sample_customer_def)

section \<open>What the worker reads is what was accepted\<close>

text \<open>The exchange of the worker's client with the route, uninterrupted; how many bytes an answer has is for the server to say.\<close>

definition evidence_answer :: "(json \<Rightarrow> nat) \<Rightarrow> answer \<Rightarrow> (nat \<times> (nat \<times> json result) option) result" where
  "evidence_answer bytes_of a = (case a of
     Inl (status, code) \<Rightarrow> Inr (status, Some (0, Inr (JObj [(''error'', JObj [(''code'', JStr code)])])))
   | Inr (status, body) \<Rightarrow> Inr (status, Some (bytes_of body, Inr body)))"

definition evidence_read_fetch :: "(json \<Rightarrow> nat) \<Rightarrow> (bytes \<Rightarrow> string) \<Rightarrow> case_verifier \<Rightarrow> files \<Rightarrow> EvidenceDb \<Rightarrow> string \<Rightarrow> evidence_fetch" where
  "evidence_read_fetch bytes_of digest_bytes verify fs db workflowId path body key assertion =
     evidence_answer bytes_of (get_evidence digest_bytes (Some verify) fs db (JStr workflowId) (Some assertion))"

lemma label_photos_ids: "map (\<lambda>p. (ph_evidence_id p, ph_technical_status p)) (label_photos ps) = map (\<lambda>p. (ph_evidence_id p, ph_technical_status p)) ps"
  unfolding label_photos_def by (rule nth_equalityI) simp_all

lemma attachment_parses:
  assumes "is_uuid (ph_evidence_id p)"
  shows "attachment_schema is_uuid (photo_json p) = Some (ph_evidence_id p, ph_technical_status p)"
  using assms by (cases "ph_technical_status p")
    (simp_all add: attachment_schema_def photo_json_def isRecord_def get_prop_JObj z_enum_def technical_table_def technical_string_def)

lemma attachments_parse:
  assumes "\<forall>p \<in> set ps. is_uuid (ph_evidence_id p)"
  shows "z_array (attachment_schema is_uuid) (JArr (map photo_json ps)) = Some (map (\<lambda>p. (ph_evidence_id p, ph_technical_status p)) ps)"
proof -
  have "z_all (attachment_schema is_uuid) (map photo_json ps) = Some (map (\<lambda>p. (ph_evidence_id p, ph_technical_status p)) ps)"
    using assms by (induction ps) (simp_all add: attachment_parses)
  then show ?thesis by (simp add: z_array_def)
qed

lemma z_all_nonempty: "[] \<notin> set xs \<Longrightarrow> z_all z_string_min1 (map JStr xs) = Some xs"
  by (induction xs) (auto simp: z_string_min1_def)

definition binding_named :: "string \<Rightarrow> EvidenceBinding \<Rightarrow> bool" where
  "binding_named caseId b \<longleftrightarrow> caseId \<noteq> [] \<and> bi_order_id b \<noteq> [] \<and> bi_proposal_id b \<noteq> [] \<and> bi_policy_version b \<noteq> [] \<and> [] \<notin> set (bi_selected_item_ids b)"

definition read_value :: "EvidenceRecord \<Rightarrow> SnapshotValue" where
  "read_value r = (let doc = er_document r; b = er_binding r in
     \<lparr> sv_case_id = hc_caseId (er_case r), sv_evidence_version = ed_revision doc, sv_assessment = ACCEPTED, sv_can_upload = False,
       sv_attachments = map (\<lambda>p. (ph_evidence_id p, ph_technical_status p)) (ready_photos (ed_attachments doc)), sv_order_id = bi_order_id b,
       sv_proposal_id = bi_proposal_id b, sv_selected_item_ids = bi_selected_item_ids b, sv_policy_version = bi_policy_version b,
       sv_accepted_manifest_hash = ed_manifestHash doc, sv_assessment_id = ed_assessmentId doc \<rparr>)"

lemma accepted_snapshot_parses:
  assumes "ed_assessment (er_document r) = ACCEPTED" and "\<not> ed_retired (er_document r)" and "binding_named (hc_caseId (er_case r)) (er_binding r)"
    and "0 \<le> ed_revision (er_document r)" and "ed_revision (er_document r) \<le> MAX_SAFE_INTEGER" and "length (ready_photos (ed_attachments (er_document r))) \<le> 5"
    and "\<forall>p \<in> set (ed_attachments (er_document r)). is_uuid (ph_evidence_id p)"
    and "ed_manifestHash (er_document r) = Some h" and "sha256_ref h" and "ed_assessmentId (er_document r) = Some a" and "is_uuid a"
  shows "snapshotSchema is_uuid (snapshot_json (evidenceSnapshot r)) = Some (read_value r)"
proof -
  let ?ps = "label_photos (ready_photos (ed_attachments (er_document r)))"
  have vis: "visible_photos (er_document r) = ready_photos (ed_attachments (er_document r))"
    using assms(1) by (simp add: visible_photos_def ready_photos_def Let_def conj_commute)
  have "\<forall>p \<in> set (ready_photos (ed_attachments (er_document r))). is_uuid (ph_evidence_id p)" using assms(7) by (simp add: ready_photos_def)
  then have "\<forall>x \<in> set (map (\<lambda>p. (ph_evidence_id p, ph_technical_status p)) ?ps). is_uuid (fst x)" unfolding label_photos_ids by simp
  then have files: "z_array (attachment_schema is_uuid) (JArr (map photo_json ?ps)) = Some (map (\<lambda>p. (ph_evidence_id p, ph_technical_status p)) (ready_photos (ed_attachments (er_document r))))"
    by (subst label_photos_ids [symmetric]) (rule attachments_parse, simp)
  note files = files [unfolded z_array_def, simplified]
  show ?thesis
    using assms by (cases "hc_status (er_case r)")
      (simp_all add: snapshotSchema_def snapshot_json_def evidenceSnapshot_def Let_def get_prop_JObj z_strict_def isRecord_def object_keys_def evidence_json_def binding_json_def
        vis files z_string_min1_def z_enum_def case_status_table_def status_string_def z_nonneg_safe_def assessment_table_def assessment_string_def z_bool_def
        z_array_def z_all_nonempty binding_named_def z_optional_def read_value_def)
qed


text \<open>
  C11. The evidence that the worker's client reads for a refund, through the worker's signature, the
  route and the client's own checks, is exactly what the reviewer accepted: the revision, the
  assessment, and the hash of the manifest of the ready photos of the stored document, with all of
  them counted as ready and none in processing.
\<close>

theorem worker_reads_accepted_evidence:
  assumes "(service_step lib digest collate digest_bytes is_uuid)\<^sup>*\<^sup>* new_service s" and "\<And>b. digest_bytes b \<noteq> []"
    and "\<And>t. sha256_ref (''sha256:'' @ digest t)"
    and "scope_check expectedTenantId expectedEnvironmentId (rf_access (ea_refresh input)) = Inr ()"
    and "sign \<lparr> wi_workflowId = rf_workflowId (ea_refresh input), wi_access = rf_access (ea_refresh input), wi_purpose = P_refund_evidence_read \<rparr> = Inr assertion"
    and "verify (Some assertion) P_refund_evidence_read = Inr access" and "wa_workflowId access = rf_workflowId (ea_refresh input)"
    and "opaque_id_upto 200 (rf_workflowId (ea_refresh input))"
    and "ev_get (sv_db s) (worker_scope access) (wa_workflowId access) = Inr r" and "ed_assessment (er_document r) = ACCEPTED"
    and "ed_revision (er_document r) \<le> MAX_SAFE_INTEGER" and "binding_named (hc_caseId (er_case r)) (er_binding r)"
    and "bi_order_id (er_binding r) = orderId (intent (rf_proposal (ea_refresh input)))" and "bi_proposal_id (er_binding r) = proposalId (rf_proposal (ea_refresh input))"
    and "bi_policy_version (er_binding r) = ea_policyVersion input"
    and "mset (bi_selected_item_ids (er_binding r)) = mset (itemIds (intent (rf_proposal (ea_refresh input))))"
    and "bytes_of (snapshot_json (evidenceSnapshot r)) \<le> 65536" and "toISOString now = Inr at"
  shows "client_readRefundEvidence is_uuid encodeURIComponent sign (evidence_read_fetch bytes_of digest_bytes verify (sv_files s) (sv_db s) (rf_workflowId (ea_refresh input)))
      expectedTenantId expectedEnvironmentId now input
    = Inr \<lparr> snap_caseId = hc_caseId (er_case r), assessment = ACCEPTED, evidenceVersion = ed_revision (er_document r),
        readyCount = length (ready_photos (ed_attachments (er_document r))), processingCount = 0,
        accepted_evidence = Some \<lparr> acc_evidenceVersion = ed_revision (er_document r), assessmentId = the (ed_assessmentId (er_document r)),
          manifestHash = manifest_hash digest collate (ed_attachments (er_document r)), acc_observedAt = at \<rparr> \<rparr>"
proof -
  let ?doc = "er_document r"
  have docs: "all_docs (doc_stored digest_bytes is_uuid (sv_files s) (sv_uploads s)) (sv_db s)" using reachable_service(1) [OF assms(1)] by (simp add: service_ok_def)
  have load: "ev_load (sv_db s) (worker_scope access) (wa_workflowId access) = Inr r" using assms(9) by (simp add: ev_get_def)
  have stored: "doc_stored digest_bytes is_uuid (sv_files s) (sv_uploads s) ?doc" using all_docs_load [OF docs load] .
  have ok: "document_ok digest collate ?doc" using loaded [OF reachable_tables [OF reachable_service(2) [OF assms(1)]] load] by metis
  from stored have live: "\<not> ed_retired ?doc" and uuids: "\<forall>p \<in> set (ed_attachments ?doc). is_uuid (ph_evidence_id p)" by (simp_all add: doc_stored_def)
  from document_okD(3) [OF ok] assms(10) live obtain a where acc: "ed_assessmentId ?doc = Some a" "1 \<le> ed_revision ?doc" "ready_photos (ed_attachments ?doc) \<noteq> []"
      "ed_manifestHash ?doc = Some (manifest_hash digest collate (ed_attachments ?doc))"
    by (auto simp: accepted_ok_def)
  have "length (ready_photos (ed_attachments ?doc)) \<le> length (filter active_photo (ed_attachments ?doc))"
    unfolding ready_photos_def by (rule length_filter_le_filter) (simp add: active_photo_def)
  then have five: "length (ready_photos (ed_attachments ?doc)) \<le> 5" using document_okD(2) [OF ok] by (simp add: set_ok_def MAX_PHOTOS_def)
  have hash: "sha256_ref (manifest_hash digest collate (ed_attachments ?doc))" unfolding manifest_hash_def by (rule assms(3))
  have "is_uuid a" using stored acc(1) by (simp add: doc_stored_def)
  from accepted_snapshot_parses [OF assms(10) live assms(12) document_okD(4) [OF ok] assms(11) five uuids acc(4) hash acc(1) this]
  have parse: "snapshotSchema is_uuid (snapshot_json (evidenceSnapshot r)) = Some (read_value r)" .
  have "get_evidence digest_bytes (Some verify) (sv_files s) (sv_db s) (JStr (rf_workflowId (ea_refresh input))) (Some assertion) = Inr (200, snapshot_json (evidenceSnapshot r))"
    by (rule served_evidence [where verify = verify and header = "Some assertion", OF docs assms(2) assms(6) _ assms(9)]) (use assms(7,8) in \<open>simp add: evidenceWorkflowId_def\<close>)
  then have answer: "client_readRefundEvidence is_uuid encodeURIComponent sign (evidence_read_fetch bytes_of digest_bytes verify (sv_files s) (sv_db s) (rf_workflowId (ea_refresh input)))
      expectedTenantId expectedEnvironmentId now input
    = parseEvidenceSnapshot is_uuid (snapshot_json (evidenceSnapshot r)) (rf_proposal (ea_refresh input)) (ea_policyVersion input) now"
    using assms(4,5,17) by (simp add: client_readRefundEvidence_def evidence_call_def Let_def evidence_read_fetch_def evidence_answer_def response_ok_def)
  have status: "\<forall>p \<in> set (ready_photos (ed_attachments ?doc)). ph_technical_status p = READY" by (simp add: ready_photos_def)
  have ids: "distinct (map ph_evidence_id (ready_photos (ed_attachments ?doc)))" using document_okD(6) [OF ok] by (simp add: ready_photos_def distinct_map_filter)
  have items: "sort (bi_selected_item_ids (er_binding r)) = sort (itemIds (intent (rf_proposal (ea_refresh input))))"
    using assms(16) by (metis mset_sort properties_for_sort sorted_sort)
  have none: "filter (\<lambda>p. ph_technical_status p = PROCESSING) (ready_photos (ed_attachments ?doc)) = []" using status by (auto simp: filter_empty_conv)
  have all: "filter (\<lambda>p. ph_technical_status p = READY) (ready_photos (ed_attachments ?doc)) = ready_photos (ed_attachments ?doc)" using status by (simp add: filter_id_conv)
  show ?thesis
    unfolding answer parseEvidenceSnapshot_def parse
    using assms(13-15,18) acc ids items status none all
    by (simp add: read_value_def Let_def list_ex_iff comp_def filter_map)
qed


text \<open>The record behind the accepted sample, and the worker that asks for it.\<close>

definition accepted_record :: EvidenceRecord where
  "accepted_record = (case ev_get accepted_db (worker_scope sample_worker) ''wf-1'' of Inr r \<Rightarrow> r)"

lemmas accepted_record_val = accepted_record_def [simplified ev_get_def accepted_val sample_sets worker_scope_def sample_worker_def, simplified]

definition sample_read :: EvidenceAccess where
  "sample_read = \<lparr> ea_refresh = \<lparr> rf_proposal = \<lparr> proposalId = ''prop-1'', intent = \<lparr> orderId = ''order-1'', reasonCode = ''DAMAGED'', scope = FULL_ORDER,
       itemIds = [], requestedAmount = Some (usd 2500) \<rparr> \<rparr>, rf_workflowId = ''wf-1'',
     rf_access = \<lparr> tenantId = ''t'', environmentId = ''e'', subjectCustomerId = ''cust'', requestId = ''r1'', traceId = ''x1'' \<rparr> \<rparr>, ea_policyVersion = ''v1'' \<rparr>"

definition plain_signature :: access_signer where
  "plain_signature i = Inr ''assertion''"

lemma sample_hash_ref: "sha256_ref (''sha256:'' @ plain_digest t)"
  by (simp add: plain_digest_def) code_simp

theorem worker_reads_accepted_evidence_witness:
  "\<exists>snap e. client_readRefundEvidence some_text (\<lambda>s. s) plain_signature (evidence_read_fetch (\<lambda>_. 900) plain_bytes worker_in stored_files accepted_db ''wf-1'') ''t'' ''e'' 0 sample_read = Inr snap
    \<and> accepted_evidence snap = Some e \<and> acc_evidenceVersion e = 2 \<and> readyCount snap = 1"
proof -
  have r: "ev_get (sv_db accepted_service) (worker_scope sample_worker) (wa_workflowId sample_worker) = Inr accepted_record"
    by (simp add: accepted_service_def accepted_record_def ev_get_def accepted_val sample_sets worker_scope_def sample_worker_def)
  have doc: "ed_assessment (er_document accepted_record) = ACCEPTED" "ed_revision (er_document accepted_record) = 2" "length (ready_photos (ed_attachments (er_document accepted_record))) = 1"
    "er_binding accepted_record = en_binding sample_ensure" "hc_caseId (er_case accepted_record) = ''case-1''"
    by (simp_all add: accepted_record_val ready_photos_def sample_ensure_def current_photo_def)
  have "\<exists>at. toISOString 0 = Inr at" by (simp add: toISOString_def MAX_TIME_def)
  then obtain at where at: "toISOString 0 = Inr at" by blast
  have "client_readRefundEvidence some_text (\<lambda>s. s) plain_signature (evidence_read_fetch (\<lambda>_. 900) plain_bytes worker_in (sv_files accepted_service) (sv_db accepted_service) (rf_workflowId (ea_refresh sample_read)))
      ''t'' ''e'' 0 sample_read
    = Inr \<lparr> snap_caseId = hc_caseId (er_case accepted_record), assessment = ACCEPTED, evidenceVersion = ed_revision (er_document accepted_record),
        readyCount = length (ready_photos (ed_attachments (er_document accepted_record))), processingCount = 0,
        accepted_evidence = Some \<lparr> acc_evidenceVersion = ed_revision (er_document accepted_record), assessmentId = the (ed_assessmentId (er_document accepted_record)),
          manifestHash = manifest_hash plain_digest plain_order (ed_attachments (er_document accepted_record)), acc_observedAt = at \<rparr> \<rparr>"
  proof (rule worker_reads_accepted_evidence [where assertion = "''assertion''", OF accepted_service_reachable _ sample_hash_ref _ _ _ _ _ r doc(1) _ _ _ _ _ _ _ at])
    show "opaque_id_upto 200 (rf_workflowId (ea_refresh sample_read))" by code_simp
  qed (simp_all add: doc plain_bytes_def scope_check_def throw_if_def sample_read_def plain_signature_def worker_in_def sample_worker_def MAX_SAFE_INTEGER_def binding_named_def sample_ensure_def)
  then show ?thesis using doc by (auto simp: accepted_service_def sample_read_def)
qed


section \<open>The worker opens a case\<close>

text \<open>What a review packet must satisfy to be shown: the limits of \<^verbatim>\<open>refundReviewPacketSchema\<close> on what the workflow puts into it.\<close>

definition short :: "nat \<Rightarrow> string \<Rightarrow> bool" where
  "short n s \<longleftrightarrow> s \<noteq> [] \<and> length s \<le> n"

definition presentable :: "OpenHumanCaseInput \<Rightarrow> bool" where
  "presentable input = (let packet = oc_reviewPacket input; i = intent (pk_proposal packet); policy = pk_policy packet in
     pred_option (short 200) (pk_orderReference packet) \<and> length (itemIds i) \<le> 100 \<and> list_all (short 200) (itemIds i)
     \<and> pred_option (\<lambda>m. 0 \<le> amountMinor m \<and> isSafeInteger (amountMinor m) \<and> currency_code (currency m)) (requestedAmount i) \<and> short 2000 (reasonCode i)
     \<and> length (pk_reasonCodes policy) \<le> 50 \<and> list_all (short 160) (pk_reasonCodes policy) \<and> length (pk_factRefs policy) \<le> 100
     \<and> list_all (\<lambda>r. short 200 (factId r)) (pk_factRefs policy) \<and> short 200 (pk_policyVersion policy))"

definition display_packet :: "OpenHumanCaseInput \<Rightarrow> RefundReviewPacket" where
  "display_packet input = (let packet = oc_reviewPacket input; i = intent (pk_proposal packet); policy = pk_policy packet in
     \<lparr> rp_order_reference = pk_orderReference packet, rp_selected_item_ids = Some (itemIds i),
       rp_requested_amount = map_option (\<lambda>m. (amountMinor m, currency m)) (requestedAmount i), rp_refund_reason = Some (reasonCode i),
       rp_policy_reason_codes = pk_reasonCodes policy, rp_evidence_ids = map factId (pk_factRefs policy), rp_knowledge_release_id = None,
       rp_policy_version = pk_policyVersion policy \<rparr>)"

lemma z_all_short: "list_all (short n) xs \<Longrightarrow> z_all (z_string_max n) (map JStr xs) = Some xs"
  by (induction xs) (simp_all add: short_def)

lemma z_array_short: "list_all (short n) xs \<Longrightarrow> length xs \<le> k \<Longrightarrow> z_array_max k (z_string_max n) (JArr (map JStr xs)) = Some xs"
  by (simp add: z_array_max_def z_array_def z_all_short)

lemma packet_parses:
  assumes "presentable input"
  shows "refundReviewPacketSchema (toHumanOperationsReviewPacket input) = Some (display_packet input)"
proof -
  let ?refs = "pk_factRefs (pk_policy (oc_reviewPacket input))"
  have refs: "z_array_max 100 (z_string_max 200) (JArr (map (\<lambda>r. JStr (factId r)) ?refs)) = Some (map factId ?refs)"
    using z_array_short [of 200 "map factId ?refs" 100] assms by (simp add: presentable_def Let_def list_all_iff comp_def)
  note arrays = refs z_array_short
  show ?thesis
    using assms
    by (cases "pk_orderReference (oc_reviewPacket input)"; cases "requestedAmount (intent (pk_proposal (oc_reviewPacket input)))")
      (simp_all add: refundReviewPacketSchema_def toHumanOperationsReviewPacket_def Let_def z_object_JObj get_prop_JObj z_optional_def requested_amount_schema_def
        reason_code_strings_def arrays presentable_def display_packet_def short_def [of 200] short_def [of 2000])
qed

definition open_body :: "OpenHumanCaseInput \<Rightarrow> json" where
  "open_body input = JObj [(''workflow_id'', JStr (oc_workflowId input)), (''case_type'', JStr (case_type_string (oc_caseType input))),
     (''review_packet'', toHumanOperationsReviewPacket input), (''policy_version'', JStr (pk_policyVersion (pk_policy (oc_reviewPacket input))))]"

definition open_input :: "OpenHumanCaseInput \<Rightarrow> OpenCaseInput" where
  "open_input input = \<lparr> oi_workflowId = oc_workflowId input, oi_caseType = oc_caseType input, oi_reviewPacket = display_packet input,
     oi_policyVersion = pk_policyVersion (pk_policy (oc_reviewPacket input)) \<rparr>"

lemma open_body_parses:
  assumes "presentable input" and "opaque_id_upto 200 (oc_workflowId input)"
  shows "workerOpenCaseSchema (open_body input) = Some (open_input input)"
proof -
  have "short 200 (pk_policyVersion (pk_policy (oc_reviewPacket input)))" using assms(1) by (simp add: presentable_def Let_def)
  with assms(2) show ?thesis
    by (cases "oc_caseType input")
      (simp_all add: workerOpenCaseSchema_def open_body_def open_input_def z_object_JObj get_prop_JObj opaque200_def z_enum_def case_type_table_def case_type_string_def
        packet_parses [OF assms(1)] short_def)
qed

definition case_answer_response :: "answer \<Rightarrow> nat \<times> json result" where
  "case_answer_response a = (case a of Inl (status, code) \<Rightarrow> (status, Inr (JObj [(''error'', JObj [(''code'', JStr code)])])) | Inr (status, body) \<Rightarrow> (status, Inr body))"

definition case_open_fetch :: "(string \<Rightarrow> string) \<Rightarrow> case_verifier \<Rightarrow> EvidenceDb \<Rightarrow> int \<Rightarrow> (nat \<Rightarrow> string) \<Rightarrow> case_fetch" where
  "case_open_fetch digest verify db now ids path key body assertion =
     Inr (case_answer_response (snd (post_refund_cases (postgresCases digest) (Some verify) db now ids body (Some key) (Some assertion))))"

text \<open>
  C37. Opening a case: for a review packet within the limits, the worker's client gets the id of a case
  in the tables that belongs to its workflow, in its tenant, and has the type it asked for; the packet
  the worker sends is read back field by field by the schema of human operations.
\<close>

theorem worker_opens_case:
  assumes "(human_step digest collate)\<^sup>*\<^sup>* no_evidence db" and "presentable input" and "opaque_id_upto 200 (oc_workflowId input)"
    and "idempotency_ok (oc_idempotencyKey input)" and "oc_caseType input \<noteq> REFUND_EVIDENCE_REVIEW"
    and "scope_check expectedTenantId expectedEnvironmentId (oc_access input) = Inr ()"
    and "sign \<lparr> wi_workflowId = oc_workflowId input, wi_access = oc_access input, wi_purpose = P_human_case_open \<rparr> = Inr assertion"
    and "verify (Some assertion) P_human_case_open = Inr access" and "wa_workflowId access = oc_workflowId input"
    and "pg_case_open db now ids (wa_tenantId access, wa_environmentId access) (open_input input) = Inr (db', c)" and "hc_caseId c \<noteq> []"
  shows "client_openHumanCase sign (case_open_fetch digest verify db now ids) expectedTenantId expectedEnvironmentId input = Inr (hc_caseId c)
    \<and> (\<exists>row \<in> set (hd_cases db'). case_key row = ((wa_tenantId access, wa_environmentId access), hc_caseId c) \<and> cr_workflow_id row = oc_workflowId input
         \<and> cr_case_type row = oc_caseType input)
    \<and> refundReviewPacketSchema (toHumanOperationsReviewPacket input) = Some (display_packet input)"
proof (intro conjI)
  let ?sc = "(wa_tenantId access, wa_environmentId access)"
  have "pg_cases_ok db" using reachable_tables [OF assms(1)] by (simp add: tables_ok_def)
  from pg_opens [OF this] assms(10) have "sp_cases (pg_view db') (?sc, hc_caseId c) = Some c" "hc_workflowId c = oc_workflowId input" "hc_caseType c = oc_caseType input"
    by (auto simp: open_input_def)
  then show "\<exists>row \<in> set (hd_cases db'). case_key row = (?sc, hc_caseId c) \<and> cr_workflow_id row = oc_workflowId input \<and> cr_case_type row = oc_caseType input"
    by (auto simp: pg_view_def dest!: find_in_set)
  have "snd (post_refund_cases (postgresCases digest) (Some verify) db now ids (open_body input) (Some (oc_idempotencyKey input)) (Some assertion)) = Inr (201, case_fields c)"
    using assms(4,5,8-10) by (simp add: post_refund_cases_def open_body_parses [OF assms(2,3)] parseIdempotencyKey_def open_input_def verifyWorkflow_def postgresCases_def)
  then have "case_open_fetch digest verify db now ids path (oc_idempotencyKey input) (open_body input) assertion = Inr (201, Inr (case_fields c))" for path
    by (simp add: case_open_fetch_def case_answer_response_def)
  with assms(6,7,11) show "client_openHumanCase sign (case_open_fetch digest verify db now ids) expectedTenantId expectedEnvironmentId input = Inr (hc_caseId c)"
    by (simp add: client_openHumanCase_def case_post_def open_body_def [symmetric] response_ok_def parse_with_def acceptedCaseResponseSchema_def case_fields_def
        toHumanCaseResponse_def get_prop_JObj isRecord_def z_string_min1_def)
qed (rule packet_parses [OF assms(2)])


definition sample_opening :: OpenHumanCaseInput where
  "sample_opening = \<lparr> oc_caseId = ''case-1'', oc_workflowId = ''wf-1'', oc_idempotencyKey = ''workflow:wf-1:case'',
     oc_access = rf_access (ea_refresh sample_read), oc_caseType = REFUND_APPROVAL, oc_allowedActions = [APPROVE, REJECT],
     oc_reviewPacket = \<lparr> pk_orderReference = Some ''O-1'', pk_proposal = rf_proposal (ea_refresh sample_read),
       pk_policy = \<lparr> pk_decisionId = ''d-1'', pk_effect = APPROVAL_REQUIRED, pk_policyVersion = ''v1'', pk_inputFactsHash = ''h'',
         pk_reasonCodes = [''amount_above_auto_limit''], pk_factRefs = [] \<rparr>, pk_preview = None \<rparr> \<rparr>"

theorem worker_opens_case_witness:
  "client_openHumanCase plain_signature (case_open_fetch plain_digest worker_in no_evidence 0 (two_ids ''1'' ''2'')) ''t'' ''e'' sample_opening = Inr ''case-1''"
proof -
  have "currency_code ''USD''" "isSafeInteger 2500" by code_simp+
  then have ok1: "presentable sample_opening"
    by (simp add: presentable_def sample_opening_def sample_read_def Let_def short_def usd_def money_def)
  have ok: "opaque_id_upto 200 (oc_workflowId sample_opening)" "idempotency_ok (oc_idempotencyKey sample_opening)" by code_simp+
  obtain db' c where opens: "pg_case_open no_evidence 0 (two_ids ''1'' ''2'') (''t'', ''e'') (open_input sample_opening) = Inr (db', c)" "hc_caseId c = ''case-1''"
    by (simp add: pg_case_open_def no_evidence_def Let_def two_ids_def appendAudit_def bindF_def opened_row_def)
  have "client_openHumanCase plain_signature (case_open_fetch plain_digest worker_in no_evidence 0 (two_ids ''1'' ''2'')) ''t'' ''e'' sample_opening = Inr (hc_caseId c)
    \<and> (\<exists>row \<in> set (hd_cases db'). case_key row = ((wa_tenantId sample_worker, wa_environmentId sample_worker), hc_caseId c) \<and> cr_workflow_id row = oc_workflowId sample_opening
         \<and> cr_case_type row = oc_caseType sample_opening)
    \<and> refundReviewPacketSchema (toHumanOperationsReviewPacket sample_opening) = Some (display_packet sample_opening)"
    by (rule worker_opens_case [where assertion = "''assertion''" and collate = plain_order, OF rtranclp.rtrancl_refl ok1 ok])
      (use opens in \<open>simp_all add: sample_opening_def scope_check_def throw_if_def sample_read_def plain_signature_def worker_in_def sample_worker_def\<close>)
  with opens(2) show ?thesis by simp
qed

end
