(* ===== verification/Case_Access.thy ===== *)
theory Case_Access
  imports Evidence_Service
begin

text \<open>
  Who changes what in the human-operations service. Every change of a case, and every change of its
  evidence (which counts up the version of the case), comes from a request whose caller may make it:
  a worker whose assertion names the workflow of the case, a person on the staff with the role and
  the assignment the action needs, or the customer the evidence belongs to.
\<close>

section \<open>The rows an operation writes\<close>

definition new_row :: "CaseRow \<Rightarrow> 'z HumanDb_scheme \<Rightarrow> 'z HumanDb_scheme \<Rightarrow> bool" where
  "new_row row db db' \<longleftrightarrow> row \<in> set (hd_cases db') \<and> row \<notin> set (hd_cases db)"

lemma new_row_same [simp]: "\<not> new_row row db db"
  by (simp add: new_row_def)

lemma audit_cases: "appendAudit u row t a actor details now db = Inr db' \<Longrightarrow> hd_cases db' = hd_cases db"
  by (auto simp: appendAudit_def Let_def split: if_split_asm)

lemma reserve_cases: "reserveIdempotency db sc action caseId key fp = Inr (db1, replay) \<Longrightarrow> hd_cases db1 = hd_cases db"
  by (auto simp: reserveIdempotency_def split: option.split_asm if_split_asm)

lemma replaced_row:
  assumes "hd_cases db1 = hd_cases (replace_case row' db)" and "new_row row db db1"
  shows "row = row'"
  using assms by (auto simp: new_row_def replace_case_def split: if_split_asm)

lemma updated_key [simp]:
  "case_key (assign_case member now row) = case_key row" "case_key (decide_case now row) = case_key row" "case_key (touch_case now row) = case_key row"
  "cr_workflow_id (touch_case now row) = cr_workflow_id row"
  by (simp_all add: row_updates touch_case_def)

lemma opened_new:
  assumes "pg_case_open db now ids sc i = Inr (db', c)" and "new_row row db db'"
  shows "row_scope row = sc \<and> cr_workflow_id row = oi_workflowId i"
  using assms by (auto simp: pg_case_open_def Let_def new_row_def opened_row_def row_scope_def dest!: audit_cases split: option.split_asm if_split_asm)

lemma closed_new:
  assumes "pg_case_close db now ids sc caseId workflowId outcome = Inr (db', c)" and "new_row row db db'"
  shows "row_scope row = sc \<and> cr_workflow_id row = workflowId"
proof -
  from assms obtain current where c: "requireCase db sc caseId = Inr current" "cr_workflow_id current = workflowId"
    and a: "hd_cases db' = hd_cases (replace_case (current\<lparr> cr_case_status := CLOSED, cr_case_version := cr_case_version current + 1, cr_updated_at := now \<rparr>) db)"
    by (auto simp: pg_case_close_def Let_def dest!: audit_cases split: if_split_asm)
  from replaced_row [OF a assms(2)] requireCase_Inr [OF c(1)] c(2) show ?thesis by (auto simp: case_key_def row_scope_def)
qed

lemma claimed_new:
  assumes "pg_claim hash db now ids sc j = Inr (db', c)" and "new_row row db db'"
  shows "case_key row = (sc, ci_caseId j)"
proof -
  from assms(1) obtain db1 replay where r: "reserveIdempotency db sc ''claim'' (ci_caseId j) (ci_key j) (hash (claim_fingerprint j)) = Inr (db1, replay)"
    by (auto simp: pg_claim_def)
  note s = reserve_cases [OF r]
  have n: "new_row row db1 db'" using assms(2) s by (simp add: new_row_def)
  from assms(1) r have "db' = db1 \<or> (\<exists>current. requireCase db1 sc (ci_caseId j) = Inr current
      \<and> hd_cases db' = hd_cases (replace_case (assign_case (ci_staffId j) now current) db1))"
    unfolding pg_claim_def by (auto simp: Let_def dest!: audit_cases split: if_split_asm)
  with n obtain current where c: "requireCase db1 sc (ci_caseId j) = Inr current"
    and a: "hd_cases db' = hd_cases (replace_case (assign_case (ci_staffId j) now current) db1)" by auto
  from replaced_row [OF a n] requireCase_Inr [OF c] show ?thesis by simp
qed

lemma reassigned_new:
  assumes "pg_reassign hash db now ids sc j = Inr (db', c)" and "new_row row db db'"
  shows "case_key row = (sc, ci_caseId j)" and "\<exists>old \<in> set (hd_cases db). case_key old = case_key row"
proof -
  from assms(1) obtain db1 replay where r: "reserveIdempotency db sc ''reassign'' (ci_caseId j) (ci_key j) (hash (reassign_fingerprint j)) = Inr (db1, replay)"
    by (auto simp: pg_reassign_def)
  note s = reserve_cases [OF r]
  have n: "new_row row db1 db'" using assms(2) s by (simp add: new_row_def)
  from assms(1) r have "db' = db1 \<or> (\<exists>current. requireCase db1 sc (ci_caseId j) = Inr current
      \<and> hd_cases db' = hd_cases (replace_case (assign_case (ci_staffId j) now current) db1))"
    unfolding pg_reassign_def by (auto simp: Let_def dest!: audit_cases split: if_split_asm)
  with n obtain current where c: "requireCase db1 sc (ci_caseId j) = Inr current"
    and a: "hd_cases db' = hd_cases (replace_case (assign_case (ci_staffId j) now current) db1)" by auto
  from replaced_row [OF a n] requireCase_Inr [OF c] s show "case_key row = (sc, ci_caseId j)" "\<exists>old \<in> set (hd_cases db). case_key old = case_key row" by auto
qed

lemma decided_new:
  assumes "pg_decide hash db now ids sc d = Inr (db', c, ev)" and "new_row row db db'"
  shows "case_key row = (sc, di_caseId d)"
proof -
  from assms(1) obtain db1 replay where r: "reserveIdempotency db sc ''decision'' (di_caseId d) (di_key d) (hash (decision_fingerprint d)) = Inr (db1, replay)"
    by (auto simp: pg_decide_def)
  note s = reserve_cases [OF r]
  have n: "new_row row db1 db'" using assms(2) s by (simp add: new_row_def)
  show ?thesis
  proof (cases replay)
    case None
    with assms(1) r have "\<exists>current. requireCase db1 sc (di_caseId d) = Inr current
        \<and> hd_cases db' = hd_cases (replace_case (decide_case now current) db1)"
      unfolding pg_decide_def by (auto simp: Let_def dest!: audit_cases split: if_split_asm)
    then obtain current where c: "requireCase db1 sc (di_caseId d) = Inr current"
      and a: "hd_cases db' = hd_cases (replace_case (decide_case now current) db1)" by blast
    from replaced_row [OF a n] requireCase_Inr [OF c] show ?thesis by simp
  next
    case (Some old)
    with assms(1) r have "db' = db1" unfolding pg_decide_def by (auto split: option.split_asm)
    with n show ?thesis by simp
  qed
qed

lemma saved_new:
  assumes "ev_save db now uuid sc r t a actor details = Inr (db', r')" and "new_row row db db'"
  obtains old where "old \<in> set (hd_cases db)" "case_key old = (sc, hc_caseId (er_case r))" "row = touch_case now old"
proof -
  from assms(1) obtain old where old: "List.find (\<lambda>row. case_key row = (sc, hc_caseId (er_case r))) (hd_cases db) = Some old"
    by (auto simp: ev_save_def split: option.split_asm)
  let ?db1 = "db\<lparr> hd_evidence := map (put_document sc (hc_workflowId (er_case r)) (er_document r)) (hd_evidence db) \<rparr>"
  from assms(1) old have "hd_cases db' = hd_cases (replace_case (touch_case now old) ?db1)"
    by (auto simp: ev_save_def ev_audit_def Let_def dest!: audit_cases split: sum.split_asm)
  then have "hd_cases db' = hd_cases (replace_case (touch_case now old) db)" by (simp add: replace_case_def)
  with replaced_row [OF _ assms(2)] find_in_set [OF old] show thesis by (intro that) auto
qed


lemma ensured_new:
  assumes "ev_ensure digest db now ids i = Inr (db', snap)" and "new_row row db db'"
  shows "row_scope row = es_key (en_scope i) \<and> cr_workflow_id row = en_workflowId i"
  using assms
  by (auto simp: ev_ensure_def ev_audit_def Let_def new_row_def opened_row_def evidence_case_def row_scope_def dest!: audit_cases
      split: if_split_asm sum.split_asm)

text \<open>The evidence a request loads, with its case; the case is the only one of its workflow.\<close>

lemma loaded_case:
  assumes "tables_ok digest collate db" and "ev_load db esc w = Inr r"
  obtains e old where "e \<in> set (hd_evidence db)" "evidence_key e = (es_key esc, w)" "es_subjectCustomerId esc \<in> {None, Some (ew_subject_customer_id e)}"
    "er_document r = ew_document e" "er_case r = toHumanCase old" "old \<in> set (hd_cases db)" "row_scope old = es_key esc" "cr_workflow_id old = w"
proof -
  from ev_load_Inr [OF assms(2)] obtain e old where e: "e \<in> set (hd_evidence db)" "evidence_key e = (es_key esc, w)" "joined_case db e = Some old"
    "r = evidence_record e old" "es_subjectCustomerId esc \<in> {None, Some (ew_subject_customer_id e)}" .
  have "cr_workflow_id old = ew_workflow_id e" using row_okD(2) [OF assms(1) e(1,3)] .
  moreover from e(3) have "old \<in> set (hd_cases db)" "case_key old = (ew_scope e, ew_case_id e)" by (auto simp: joined_case_def dest!: find_in_set)
  ultimately show thesis using e by (intro that [of e old]) (auto simp: evidence_key_def case_key_def)
qed

lemma same_case:
  assumes "tables_ok digest collate db" and "x \<in> set (hd_cases db)" and "y \<in> set (hd_cases db)"
    and "case_key x = case_key y \<or> (row_scope x, cr_workflow_id x) = (row_scope y, cr_workflow_id y)"
  shows "x = y"
proof -
  have d: "distinct (map case_key (hd_cases db))" "distinct (map (\<lambda>row. (row_scope row, cr_workflow_id row)) (hd_cases db))"
    using assms(1) by (simp_all add: tables_ok_def pg_cases_ok_def)
  from assms(4) show ?thesis
  proof
    assume "case_key x = case_key y"
    with d(1) assms(2,3) show ?thesis by (metis distinct_map inj_onD)
  next
    assume "(row_scope x, cr_workflow_id x) = (row_scope y, cr_workflow_id y)"
    with d(2) assms(2,3) show ?thesis by (auto simp: distinct_map dest: inj_onD)
  qed
qed

lemma loaded_saved:
  assumes "tables_ok digest collate db" and "ev_load db esc w = Inr r"
    and "ev_save db now u (es_key esc) (r\<lparr> er_document := doc \<rparr>) t a actor details = Inr (db', r')" and "new_row row db db'"
  obtains old where "old \<in> set (hd_cases db)" "er_case r = toHumanCase old" "case_key row = case_key old" "row_scope row = es_key esc" "cr_workflow_id row = w"
    "cr_workflow_id old = w"
proof -
  from loaded_case [OF assms(1,2)] obtain old where old: "er_case r = toHumanCase old" "old \<in> set (hd_cases db)" "row_scope old = es_key esc" "cr_workflow_id old = w" .
  from saved_new [OF assms(3,4)] obtain x where x: "x \<in> set (hd_cases db)" "case_key x = (es_key esc, hc_caseId (er_case r))" "row = touch_case now x"
    by auto
  with old have "case_key x = case_key old" by (simp add: case_key_def)
  with same_case [OF assms(1) x(1) old(2)] have "x = old" by blast
  with x(3) old show thesis by (intro that [of old]) (auto simp: touch_case_def row_scope_def case_key_def)
qed

lemma uploads_new:
  assumes "tables_ok digest collate db"
  shows "ev_beginUpload db now ids esc w i = Inr (db', r, photo, created) \<Longrightarrow> new_row row db db' \<Longrightarrow> row_scope row = es_key esc \<and> cr_workflow_id row = w"
    and "ev_finishUpload db now ids esc w evidenceId result = Inr (db', snap) \<Longrightarrow> new_row row db db' \<Longrightarrow> row_scope row = es_key esc \<and> cr_workflow_id row = w"
proof -
  assume b: "ev_beginUpload db now ids esc w i = Inr (db', r, photo, created)" and n: "new_row row db db'"
  from b obtain r0 where l: "ev_load db esc w = Inr r0" by (auto simp: ev_beginUpload_def)
  from b l n obtain doc details where "ev_save db now (ids 1) (es_key esc) (r0\<lparr> er_document := doc \<rparr>) EVIDENCE_UPLOAD_RESERVED BY_CUSTOMER (er_customerId r0) details = Inr (db', r)"
    by (auto simp: ev_beginUpload_def Let_def split: option.split_asm if_split_asm)
  from loaded_saved [OF assms l this n] show "row_scope row = es_key esc \<and> cr_workflow_id row = w" by blast
next
  assume b: "ev_finishUpload db now ids esc w evidenceId result = Inr (db', snap)" and n: "new_row row db db'"
  from b obtain r0 where l: "ev_load db esc w = Inr r0" by (auto simp: ev_finishUpload_def)
  from b l n obtain doc details r' where "ev_save db now (ids 0) (es_key esc) (r0\<lparr> er_document := doc \<rparr>) EVIDENCE_VALIDATED BY_WORKFLOW w details = Inr (db', r')"
    by (auto simp: ev_finishUpload_def Let_def split: option.split_asm if_split_asm)
  from loaded_saved [OF assms l this n] show "row_scope row = es_key esc \<and> cr_workflow_id row = w" by blast
qed

lemma reviewed_new:
  assumes "tables_ok digest collate db" and "ev_review digest' collate' db now ids esc w access c key = Inr (db', snap)" and "new_row row db db'"
  obtains old where "old \<in> set (hd_cases db)" "case_key row = case_key old" "row_scope row = es_key esc" "cr_workflow_id row = w" "cr_workflow_id old = w"
proof -
  from assms(2) obtain r0 where l: "ev_load db esc w = Inr r0" by (auto simp: ev_review_def)
  from assms(2,3) l obtain doc details r' where
    "ev_save db now (ids 1) (es_key esc) (r0\<lparr> er_document := doc \<rparr>) EVIDENCE_REVIEWED BY_HUMAN (ha_staffId access) details = Inr (db', r')"
    by (auto simp: ev_review_def Let_def split: Stored.split_asm if_split_asm)
  from loaded_saved [OF assms(1) l this assms(3)] that show thesis by metis
qed

lemma phased_key [simp]: "case_key (phase_case i row) = case_key row" "row_scope (phase_case i row) = row_scope row" "cr_workflow_id (phase_case i row) = cr_workflow_id row"
  by (simp_all add: phase_case_def case_key_def row_scope_def)

lemma transitioned_new:
  assumes "tables_ok digest collate db" and "ev_transition digest' db now ids esc w i = Inr (db', snap)" and "new_row row db db'"
  shows "row_scope row = es_key esc \<and> cr_workflow_id row = w \<and> (\<exists>r. ev_load db esc w = Inr r \<and> ed_assessment (er_document r) = ACCEPTED \<and> \<not> ed_retired (er_document r))"
proof -
  from assms(2) obtain r where l: "ev_load db esc w = Inr r" by (auto simp: ev_transition_def)
  define key where "key = (es_key esc, hc_caseId (er_case r))"
  define db1 where "db1 = db\<lparr> hd_cases := map (\<lambda>row. if case_key row = key then phase_case i row else row) (hd_cases db) \<rparr>"
  have absent: "stored_key (ed_transitionKeys (er_document r)) (tr_key i) = Absent"
    using assms(2,3) l by (auto simp: ev_transition_def Let_def split: Stored.split_asm if_split_asm)
  have acc: "transition_refusal r i = None"
    using assms(2) l absent by (simp add: ev_transition_def Let_def bindF_def split: option.split_asm)
  then have acc': "ed_assessment (er_document r) = ACCEPTED" "\<not> ed_retired (er_document r)"
    by (simp_all add: transition_refusal_def Let_def split: if_split_asm)
  have bound: "bindF (Inr x) f = f x" for x :: EvidenceRecord and f :: "EvidenceRecord \<Rightarrow> EvidenceFailure + EvidenceDb \<times> CaseEvidence"
    by (simp add: bindF_def)
  define doc where "doc = (er_document r)\<lparr> ed_transitionKeys := map_set (tr_key i) (transition_fingerprint digest' i) (ed_transitionKeys (er_document r)) \<rparr>"
  have "bindF (ev_save db1 now (ids 0) (es_key esc) (r\<lparr> er_document := doc \<rparr>) CASE_PHASE_CHANGED BY_WORKFLOW w
      [(''case_type'', case_type_string (tr_caseType i)), (''evidence_version'', show_int (ed_revision doc))]) (\<lambda>(db', r'). Inr (db', evidenceSnapshot r')) = Inr (db', snap)"
    using assms(2) unfolding ev_transition_def l bound Let_def absent acc db1_def key_def doc_def Stored.case option.case .
  then obtain details r' where
    s: "ev_save db1 now (ids 0) (es_key esc) (r\<lparr> er_document := doc \<rparr>) CASE_PHASE_CHANGED BY_WORKFLOW w details = Inr (db', r')" by auto
  from loaded_case [OF assms(1) l] obtain old where old: "er_case r = toHumanCase old" "old \<in> set (hd_cases db)" "row_scope old = es_key esc" "cr_workflow_id old = w" .
  have k: "case_key old = key" using old by (simp add: key_def case_key_def)
  have one: "row_scope x = es_key esc \<and> cr_workflow_id x = w" if "x \<in> set (hd_cases db1)" "case_key x = key" for x
  proof -
    from that(1) have "x \<in> (\<lambda>row. if case_key row = key then phase_case i row else row) ` set (hd_cases db)" by (simp add: db1_def)
    then obtain y where y: "x = (if case_key y = key then phase_case i y else y)" "y \<in> set (hd_cases db)" by (rule imageE)
    have "case_key y = case_key old" using that(2) y(1) k by (cases "case_key y = key") simp_all
    with same_case [OF assms(1) y(2) old(2)] have "y = old" by blast
    with y old k show ?thesis by simp
  qed
  have "row_scope row = es_key esc \<and> cr_workflow_id row = w"
  proof (cases "new_row row db1 db'")
    case True
    from saved_new [OF s this] obtain x where "x \<in> set (hd_cases db1)" "case_key x = key" "row = touch_case now x" by (auto simp: key_def)
    with one [of x] show ?thesis by (auto simp: touch_case_def row_scope_def)
  next
    case False
    with assms(3) have "row \<in> set (hd_cases db1)" "row \<notin> set (hd_cases db)" by (auto simp: new_row_def)
    then have "case_key row = key" by (auto simp: db1_def split: if_split_asm)
    with one \<open>row \<in> set (hd_cases db1)\<close> show ?thesis by blast
  qed
  with l acc' show ?thesis by blast
qed


section \<open>Who may write them\<close>

text \<open>A worker's assertion for the purpose names the workflow and the scope of the case.\<close>

definition worker_writes :: "case_verifier option \<Rightarrow> Purpose \<Rightarrow> string option \<Rightarrow> CaseRow \<Rightarrow> bool" where
  "worker_writes verify purpose header row \<longleftrightarrow> (\<exists>v access. verify = Some v \<and> v header purpose = Inr access
     \<and> row_scope row = (wa_tenantId access, wa_environmentId access) \<and> cr_workflow_id row = wa_workflowId access)"

text \<open>A person signed in for the scope of the case may do the action on the case as it was.\<close>

definition staff_writes :: "human_verifier \<Rightarrow> (HumanAccess \<Rightarrow> HumanCase \<Rightarrow> bool) \<Rightarrow> string option \<Rightarrow> EvidenceDb \<Rightarrow> CaseRow \<Rightarrow> bool" where
  "staff_writes verify allowed header db row \<longleftrightarrow> (\<exists>access. verify header = Inr access \<and> row_scope row = access_scope access
     \<and> (\<exists>old \<in> set (hd_cases db). case_key old = case_key row \<and> allowed access (toHumanCase old)))"

text \<open>A customer whose own evidence the case collects.\<close>

definition customer_writes :: "CustomerEvidenceAccess \<Rightarrow> EvidenceDb \<Rightarrow> CaseRow \<Rightarrow> bool" where
  "customer_writes access db row \<longleftrightarrow> row_scope row = (ce_tenantId access, ce_environmentId access) \<and> cr_workflow_id row = ce_workflowId access
     \<and> (\<exists>e \<in> set (hd_evidence db). evidence_key e = (row_scope row, cr_workflow_id row) \<and> ew_subject_customer_id e = ce_subjectCustomerId access)"

text \<open>The accepted evidence of the case, with every photo behind it in the store as it was recorded.\<close>

definition accepted_and_stored :: "(bytes \<Rightarrow> string) \<Rightarrow> files \<Rightarrow> EvidenceDb \<Rightarrow> CaseRow \<Rightarrow> bool" where
  "accepted_and_stored digest_bytes fs db row \<longleftrightarrow> (\<exists>e \<in> set (hd_evidence db). evidence_key e = (row_scope row, cr_workflow_id row)
     \<and> ed_assessment (ew_document e) = ACCEPTED \<and> (\<forall>p \<in> set (ready_photos (ed_attachments (ew_document e))).
          \<exists>sha bytes. ph_sha256 p = Some sha \<and> store_read digest_bytes fs (ph_storageKey p) sha = Inr bytes))"

lemma read_all_each: "read_all digest_bytes fs ps = Inr () \<Longrightarrow> p \<in> set ps
    \<Longrightarrow> \<exists>sha bytes. ph_sha256 p = Some sha \<and> store_read digest_bytes fs (ph_storageKey p) sha = Inr bytes"
  by (induction ps) (auto split: option.split_asm if_split_asm)

lemma got_case: "hr_get (postgresCases digest) db sc caseId = Inr c \<Longrightarrow> \<exists>old \<in> set (hd_cases db). case_key old = (sc, caseId) \<and> c = toHumanCase old"
  by (auto simp: postgresCases_def pg_case_get_def dest!: requireCase_Inr)

lemma from_cases_Inr: "from_cases r = Inr c \<longleftrightarrow> r = Inr c"
  by (cases r) (auto simp: from_cases_def)

lemma case_key_scope: "case_key row = (sc, i) \<Longrightarrow> row_scope row = sc"
  by (simp add: case_key_def)

lemma worker_requests:
  assumes "new_row row db db'"
  shows "post_refund_cases (postgresCases digest) verify db now ids body key header = (db', a) \<Longrightarrow> worker_writes verify P_human_case_open header row"
    and "post_refund_case_close (postgresCases digest) verify db now ids param body key header = (db', a) \<Longrightarrow> worker_writes verify P_human_case_close header row"
proof -
  assume "post_refund_cases (postgresCases digest) verify db now ids body key header = (db', a)"
  with assms obtain v access i c where "verify = Some v" "v header P_human_case_open = Inr access" "wa_workflowId access = oi_workflowId i"
      "pg_case_open db now ids (wa_tenantId access, wa_environmentId access) i = Inr (db', c)"
    by (auto simp: post_refund_cases_def verifyWorkflow_def postgresCases_def split: option.split_asm sum.split_asm if_split_asm)
  with opened_new [OF this(4) assms] show "worker_writes verify P_human_case_open header row" by (simp add: worker_writes_def)
next
  assume "post_refund_case_close (postgresCases digest) verify db now ids param body key header = (db', a)"
  with assms obtain v access caseId outcome c where "verify = Some v" "v header P_human_case_close = Inr access"
      "pg_case_close db now ids (wa_tenantId access, wa_environmentId access) caseId (wa_workflowId access) outcome = Inr (db', c)"
    by (auto simp: post_refund_case_close_def verifyWorkflow_def postgresCases_def Let_def split: option.split_asm sum.split_asm if_split_asm)
  with closed_new [OF this(3) assms] show "worker_writes verify P_human_case_close header row" by (simp add: worker_writes_def)
qed

lemma staff_requests:
  assumes "new_row row db db'"
  shows "post_claim (postgresCases digest) evidence human db now ids param body key header = (db', a) \<Longrightarrow> staff_writes human canSubmitClaim header db row"
    and "post_reassign (postgresCases digest) evidence human db now ids param body key header = (db', a)
      \<Longrightarrow> staff_writes human (\<lambda>access c. ha_role access = REFUND_SUPERVISOR) header db row"
proof -
  assume "post_claim (postgresCases digest) evidence human db now ids param body key header = (db', a)"
  with assms obtain access current caseId version k c where h: "human header = Inr access" "hr_get (postgresCases digest) db (access_scope access) caseId = Inr current"
      "canSubmitClaim access current"
      "pg_claim digest db now ids (access_scope access) \<lparr> ci_caseId = hc_caseId current, ci_staffId = ha_staffId access, ci_expectedVersion = version, ci_key = k \<rparr> = Inr (db', c)"
    by (auto simp: post_claim_def verifyHuman_def postgresCases_def Let_def split: option.split_asm sum.split_asm if_split_asm)
  from claimed_new [OF h(4) assms] got_case [OF h(2)] h(1,3) show "staff_writes human canSubmitClaim header db row"
    by (auto simp: staff_writes_def case_key_def)
next
  assume "post_reassign (postgresCases digest) evidence human db now ids param body key header = (db', a)"
  with assms obtain access j c where h: "human header = Inr access" "ha_role access = REFUND_SUPERVISOR"
      "pg_reassign digest db now ids (access_scope access) j = Inr (db', c)"
    by (auto simp: post_reassign_def verifyHuman_def postgresCases_def Let_def split: option.split_asm sum.split_asm if_split_asm)
  have k: "case_key row = (access_scope access, ci_caseId j)" by (rule reassigned_new(1) [OF h(3) assms])
  have "\<exists>old \<in> set (hd_cases db). case_key old = case_key row" by (rule reassigned_new(2) [OF h(3) assms])
  with h k show "staff_writes human (\<lambda>access c. ha_role access = REFUND_SUPERVISOR) header db row"
    by (auto simp: staff_writes_def dest: case_key_scope)
qed


lemma delivered_cases: "hd_cases (fst (deliverOutbox send (postgresCases digest) now db ev)) = hd_cases db"
  by (auto simp: deliverOutbox_def postgresCases_def pg_markOutboxDelivered_def split: sum.split)

lemma decision_request:
  assumes "new_row row db db'" and "post_decision (postgresCases digest) send human db now ids param body key header = (db', a)"
  shows "\<exists>b. decisionBodySchema body = Some b \<and> staff_writes human (\<lambda>access c. canSubmitDecision access c (db_decision b)) header db row"
proof -
  have "db' \<noteq> db" using assms(1) by auto
  with assms(2) obtain access current caseId b k db1 c ev where body: "decisionBodySchema body = Some b" and h: "human header = Inr access" "hr_get (postgresCases digest) db (access_scope access) caseId = Inr current"
      "canSubmitDecision access current (db_decision b)"
      "hr_decide (postgresCases digest) db now ids (access_scope access) (decide_input current access b k) = Inr (db1, c, ev)"
      and s: "db' = db1 \<or> db' = fst (deliverOutbox send (postgresCases digest) now db1 ev)"
    by (auto simp: post_decision_def verifyHuman_def Let_def split: option.split_asm sum.split_asm if_split_asm)
  from s have "hd_cases db' = hd_cases db1" using delivered_cases by auto
  with assms(1) have n: "new_row row db db1" by (simp add: new_row_def)
  have "pg_decide digest db now ids (access_scope access) (decide_input current access b k) = Inr (db1, c, ev)"
    using h(4) by (simp add: postgresCases_def)
  from decided_new [OF this n] got_case [OF h(2)] h(1,3) have "staff_writes human (\<lambda>access c. canSubmitDecision access c (db_decision b)) header db row"
    by (auto simp: staff_writes_def case_key_def decide_input_def)
  with body show ?thesis by blast
qed

lemma evidence_requests:
  assumes "tables_ok digest collate db" and "new_row row db db'"
  shows "post_collections digest' digest_bytes verify fs db now ids body key header = (db', a) \<Longrightarrow> worker_writes verify P_refund_evidence_open header row"
    and "post_transition digest' digest_bytes verify fs db now ids param body key header = (db', a)
      \<Longrightarrow> worker_writes verify P_human_case_transition header row \<and> accepted_and_stored digest_bytes fs db row"
    and "post_evidence_review digest' collate' human db now ids param body key header = (db', a)
      \<Longrightarrow> staff_writes human (\<lambda>access c. staff_eligible access c \<and> hc_assignedStaffId c = Some (ha_staffId access)) header db row"
proof -
  have d: "db' \<noteq> db" using assms(2) by auto
  assume "post_collections digest' digest_bytes verify fs db now ids body key header = (db', a)"
  with d obtain v access b snap where h: "verify = Some v" "v header P_refund_evidence_open = Inr access" "wa_workflowId access = eb_workflow_id b"
      "ev_ensure digest' db now ids (ensure_input access b) = Inr (db', snap)"
    by (auto simp: post_collections_def worker_def parsed_def sameWorkflow_def committed_def split: sum.split_asm option.split_asm if_split_asm)
  from ensured_new [OF h(4) assms(2)] h(1-3) show "worker_writes verify P_refund_evidence_open header row"
    by (simp add: worker_writes_def ensure_input_def worker_scope_def)
next
  have d: "db' \<noteq> db" using assms(2) by auto
  assume "post_transition digest' digest_bytes verify fs db now ids param body key header = (db', a)"
  with d obtain v access i r snap0 snap where h: "verify = Some v" "v header P_human_case_transition = Inr access"
      "ev_get db (worker_scope access) (wa_workflowId access) = Inr r" "authoritativeSnapshot digest_bytes fs r = Inr snap0"
      "ev_transition digest' db now ids (worker_scope access) (wa_workflowId access) i = Inr (db', snap)"
    by (auto simp: post_transition_def worker_def parsed_def sameWorkflow_def committed_def split: sum.split_asm option.split_asm if_split_asm)
  from transitioned_new [OF assms(1) h(5) assms(2)] h(3) have row: "row_scope row = es_key (worker_scope access)" "cr_workflow_id row = wa_workflowId access"
      and acc: "ed_assessment (er_document r) = ACCEPTED" "\<not> ed_retired (er_document r)"
    by (auto simp: ev_get_def)
  from loaded_case [OF assms(1) h(3) [unfolded ev_get_def]] obtain e where e: "e \<in> set (hd_evidence db)"
      "evidence_key e = (es_key (worker_scope access), wa_workflowId access)" "er_document r = ew_document e" .
  have "su_assessment (ce_evidence (evidenceSnapshot r)) = ACCEPTED" using acc by (simp add: evidenceSnapshot_def Let_def)
  with h(4) have "read_all digest_bytes fs (ready_photos (ed_attachments (ew_document e))) = Inr ()"
    by (auto simp: authoritativeSnapshot_def Let_def e(3))
  with e acc row have "accepted_and_stored digest_bytes fs db row"
    unfolding accepted_and_stored_def using read_all_each by (intro bexI [of _ e]) auto
  with h(1,2) row show "worker_writes verify P_human_case_transition header row \<and> accepted_and_stored digest_bytes fs db row"
    by (simp add: worker_writes_def worker_scope_def)
next
  have d: "db' \<noteq> db" using assms(2) by auto
  assume "post_evidence_review digest' collate' human db now ids param body key header = (db', a)"
  with d obtain caseId access c command k snap where h: "staff (postgresCases digest') human db header caseId = Inr (access, c)"
      "ev_review digest' collate' db now ids (staff_scope access) (hc_workflowId c) access command k = Inr (db', snap)"
    by (auto simp: post_evidence_review_def committed_def split: sum.split_asm)
  from h(1) have v: "human header = Inr access" "staff_eligible access c" "hc_assignedStaffId c = Some (ha_staffId access)"
      and g: "hr_get (postgresCases digest') db (access_scope access) caseId = Inr c"
    by (auto simp: staff_def from_cases_Inr split: sum.split_asm if_split_asm)
  from got_case [OF g] obtain old where old: "old \<in> set (hd_cases db)" "case_key old = (access_scope access, caseId)" "c = toHumanCase old" by blast
  from reviewed_new [OF assms(1) h(2) assms(2)] obtain x where x: "x \<in> set (hd_cases db)" "case_key row = case_key x"
      "row_scope row = access_scope access" "cr_workflow_id x = cr_workflow_id old" by (auto simp: staff_scope_def old(3))
  have "row_scope x = row_scope old" using x(2,3) old(2) by (simp add: case_key_def)
  with x(4) have eq: "x = old" by (intro same_case [OF assms(1) x(1) old(1)]) simp
  show "staff_writes human (\<lambda>access c. staff_eligible access c \<and> hc_assignedStaffId c = Some (ha_staffId access)) header db row"
    unfolding staff_writes_def using v [unfolded old(3)] x(2,3) old(1) unfolding eq by (intro exI [of _ access] conjI bexI [of _ old]) (simp_all add: eq)
qed

lemma upload_requests:
  assumes "tables_ok digest collate db" and "new_row row db db'"
  shows "bindF (upload_input digest' digest_bytes rq) (begin_upload db now ids) = Inr (db', r, u, created)
      \<Longrightarrow> ur_access rq = Some (up_access u) \<and> customer_writes (up_access u) db row"
    and "finish_upload db now ids u result = Inr (db', snap) \<Longrightarrow> customer_writes (up_access u) db row"
proof -
  have c: "customer_writes access db row" if l: "ev_load db (customer_scope access) (ce_workflowId access) = Inr r0"
    and k: "row_scope row = es_key (customer_scope access) \<and> cr_workflow_id row = ce_workflowId access" for access r0
  proof -
    from loaded_case [OF assms(1) l] obtain e where "e \<in> set (hd_evidence db)" "evidence_key e = (es_key (customer_scope access), ce_workflowId access)"
      "es_subjectCustomerId (customer_scope access) \<in> {None, Some (ew_subject_customer_id e)}" .
    with k show ?thesis by (auto simp: customer_writes_def customer_scope_def)
  qed
  {
    assume "bindF (upload_input digest' digest_bytes rq) (begin_upload db now ids) = Inr (db', r, u, created)"
    then obtain i bytes photo where h: "upload_input digest' digest_bytes rq = Inr (up_access u, i, bytes)"
        "ev_beginUpload db now ids (customer_scope (up_access u)) (ce_workflowId (up_access u)) i = Inr (db', r, photo, created)"
      by (auto simp: begin_upload_def)
    from h(1) have "ur_access rq = Some (up_access u)" by (auto simp: upload_input_def split: option.split_asm if_split_asm)
    moreover from h(2) obtain r0 where "ev_load db (customer_scope (up_access u)) (ce_workflowId (up_access u)) = Inr r0"
      by (auto simp: ev_beginUpload_def)
    ultimately show "ur_access rq = Some (up_access u) \<and> customer_writes (up_access u) db row"
      using c uploads_new(1) [OF assms(1) h(2) assms(2)] by blast
  next
    assume f: "finish_upload db now ids u result = Inr (db', snap)"
    then obtain r0 where "ev_load db (customer_scope (up_access u)) (ce_workflowId (up_access u)) = Inr r0"
      by (auto simp: finish_upload_def ev_finishUpload_def)
    with c uploads_new(2) [OF assms(1) f [unfolded finish_upload_def] assms(2)] show "customer_writes (up_access u) db row" by blast
  }
qed

text \<open>
  C12. Nobody changes a case without being entitled to. Over any history of the tables, a case that a
  request opens or changes, its evidence included, belongs to the tenant and the workflow the
  caller's assertion names, when a worker opens or closes a case, opens its evidence or moves it to
  the monetary review; the last only when the evidence is accepted and every photo behind it is
  stored as it was recorded. A person claims a case only with the role it needs, while it is open or
  already theirs; only a supervisor reassigns it; only the person it is assigned to, with the role,
  reviews its evidence, and decides it with the action of the request, which the case allows. And an upload, when it is
  reserved and when it is settled, changes only the case that collects the customer's own evidence.
\<close>

theorem case_changes_authorized:
  assumes "(human_step digest collate)\<^sup>*\<^sup>* no_evidence db" and "row \<in> set (hd_cases db')" and "row \<notin> set (hd_cases db)"
  shows "(post_refund_cases (postgresCases digest) verify db now ids body key header = (db', a)
        \<longrightarrow> worker_writes verify P_human_case_open header row)
    \<and> (post_refund_case_close (postgresCases digest) verify db now ids param body key header = (db', a)
        \<longrightarrow> worker_writes verify P_human_case_close header row)
    \<and> (post_collections digest digest_bytes verify fs db now ids body key header = (db', a)
        \<longrightarrow> worker_writes verify P_refund_evidence_open header row)
    \<and> (post_transition digest digest_bytes verify fs db now ids param body key header = (db', a)
        \<longrightarrow> worker_writes verify P_human_case_transition header row \<and> accepted_and_stored digest_bytes fs db row)
    \<and> (post_claim (postgresCases digest) evidence human db now ids param body key header = (db', a)
        \<longrightarrow> staff_writes human canSubmitClaim header db row)
    \<and> (post_reassign (postgresCases digest) evidence human db now ids param body key header = (db', a)
        \<longrightarrow> staff_writes human (\<lambda>access c. ha_role access = REFUND_SUPERVISOR) header db row)
    \<and> (post_decision (postgresCases digest) send human db now ids param body key header = (db', a)
        \<longrightarrow> (\<exists>b. decisionBodySchema body = Some b \<and> staff_writes human (\<lambda>access c. canSubmitDecision access c (db_decision b)) header db row))
    \<and> (post_evidence_review digest collate human db now ids param body key header = (db', a)
        \<longrightarrow> staff_writes human (\<lambda>access c. staff_eligible access c \<and> hc_assignedStaffId c = Some (ha_staffId access)) header db row)
    \<and> (\<forall>r u created. bindF (upload_input digest digest_bytes rq) (begin_upload db now ids) = Inr (db', r, u, created)
        \<longrightarrow> ur_access rq = Some (up_access u) \<and> customer_writes (up_access u) db row)
    \<and> (\<forall>u snap. finish_upload db now ids u result = Inr (db', snap) \<longrightarrow> customer_writes (up_access u) db row)"
proof -
  have n: "new_row row db db'" using assms(2,3) by (simp add: new_row_def)
  note ev = evidence_requests [OF reachable_tables [OF assms(1)] n] and up = upload_requests [OF reachable_tables [OF assms(1)] n]
  show ?thesis
    by (intro conjI impI allI)
      (rule worker_requests [OF n] staff_requests [OF n] decision_request [OF n] ev(1) conjunct1 [OF ev(2)] conjunct2 [OF ev(2)] ev(3)
        conjunct1 [OF up(1)] conjunct2 [OF up(1)] up(2), assumption)+
qed


text \<open>The sample decision changes the case the reviewer claimed.\<close>

theorem case_changes_authorized_witness:
  "\<exists>row. row \<in> set (hd_cases decided_case_db) \<and> row \<notin> set (hd_cases claimed_case_db)
    \<and> (\<exists>b. decisionBodySchema sample_decision_body = Some b
        \<and> staff_writes signed_in (\<lambda>access c. canSubmitDecision access c (db_decision b)) None claimed_case_db row)"
proof -
  obtain a where run: "post_decision (postgresCases plain_digest) workflow_down signed_in claimed_case_db 0 (two_ids ''4'' ''5'') (JStr ''case-1'')
      sample_decision_body (Some ''decision-key-1'') None = (decided_case_db, a)"
    using sample_post_decision by (metis prod.collapse)
  obtain row where row: "row \<in> set (hd_cases decided_case_db)" "row \<notin> set (hd_cases claimed_case_db)"
    by (simp add: decided_case_db_def claimed_case_val sample_input_defs claim_defs case_key_def row_scope_def bindF_def Let_def appendAudit_def
        replace_case_def decide_case_def)
  note auth = case_changes_authorized [OF claimed_case_reachable row]
  from auth [THEN conjunct2, THEN conjunct2, THEN conjunct2, THEN conjunct2, THEN conjunct2, THEN conjunct2, THEN conjunct1, rule_format, OF run]
  show ?thesis using row by blast
qed

end
