(* ===== verification/Message_Protection.thy ===== *)
theory Message_Protection
  imports Evidence_Routes
begin

text \<open>
  The protection of message texts at rest,
  \<^verbatim>\<open>src/apps/services/conversation-runtime/src/message-protection.ts\<close>. A text is encoded in UTF-8,
  encrypted with AES-256-GCM under a fresh initialization vector and stored with the digest and the
  length of its plain bytes. The cipher of \<^verbatim>\<open>node:crypto\<close> and SHA-256 are arguments; \<^verbatim>\<open>cipher_ok\<close>
  states that deciphering undoes enciphering. UTF-8 itself is modelled: strings hold code units below
  256, so a character takes one byte or two, and the round trip is proved for every text.
\<close>

section \<open>UTF-8\<close>

definition utf8_char :: "char \<Rightarrow> bytes" where
  "utf8_char c = (let n = of_char c :: nat in if n < 128 then [of_nat n] else [of_nat (192 + n div 64), of_nat (128 + n mod 64)])"

text \<open>\<^verbatim>\<open>Buffer.from(text, 'utf8')\<close>\<close>

definition utf8_bytes :: "string \<Rightarrow> bytes" where
  "utf8_bytes s = concat (map utf8_char s)"

text \<open>
  \<^verbatim>\<open>buffer.toString('utf8')\<close>. \<^const>\<open>None\<close> stands for bytes whose text has a character from 256 on, or that
  are not UTF-8 at all: such a text is outside the strings of the model.
\<close>

fun utf8_string :: "bytes \<Rightarrow> string option" where
  "utf8_string [] = Some []"
| "utf8_string (b # bs) =
     (if b < 128 then map_option (\<lambda>s. char_of (unat b) # s) (utf8_string bs)
      else case bs of
        [] \<Rightarrow> None
      | b' # bs' \<Rightarrow> if 194 \<le> b \<and> b < 196 \<and> 128 \<le> b' \<and> b' < 192
                  then map_option (\<lambda>s. char_of ((unat b - 192) * 64 + (unat b' - 128)) # s) (utf8_string bs') else None)"

section \<open>Protectors\<close>

record ProtectedMessage =
  pm_ciphertext :: bytes
  pm_initializationVector :: bytes
  pm_authenticationTag :: bytes
  pm_plaintextSha256 :: string
  pm_plaintextByteLength :: int
  pm_encryptionKeyVersion :: string

text \<open>The cipher gives the ciphertext and the tag of key, vector and plain bytes; the decipherer may refuse.\<close>

type_synonym cipher = "bytes \<Rightarrow> bytes \<Rightarrow> bytes \<Rightarrow> bytes \<times> bytes"
type_synonym decipher = "bytes \<Rightarrow> bytes \<Rightarrow> bytes \<Rightarrow> bytes \<Rightarrow> bytes result"

type_synonym protect_message = "bytes \<Rightarrow> string \<Rightarrow> ProtectedMessage result"
type_synonym unprotect_message = "ProtectedMessage \<Rightarrow> string result"

text \<open>The vector that \<^verbatim>\<open>createInitializationVector\<close> gives is the first argument of the protector.\<close>

definition createAesGcmMessageProtector :: "cipher \<Rightarrow> (bytes \<Rightarrow> string) \<Rightarrow> bytes \<Rightarrow> string \<Rightarrow> protect_message result" where
  "createAesGcmMessageProtector aes sha256 key keyVersion =
     (if length key \<noteq> 32 then Inl (Error ''AES-256-GCM requires a 32-byte encryption key'')
      else if trim keyVersion = [] then Inl (Error ''Message encryption key version is required'')
      else Inr (\<lambda>vector plaintext.
        let plaintextBytes = utf8_bytes plaintext in
        if length vector \<noteq> 12 then Inl (Error ''AES-GCM initialization vector must contain 12 bytes'')
        else (let (ciphertext, tag) = aes key vector plaintextBytes in
          Inr \<lparr> pm_ciphertext = ciphertext, pm_initializationVector = vector, pm_authenticationTag = tag,
            pm_plaintextSha256 = sha256 plaintextBytes, pm_plaintextByteLength = int (length plaintextBytes),
            pm_encryptionKeyVersion = keyVersion \<rparr>)))"

definition createAesGcmMessageUnprotector :: "decipher \<Rightarrow> bytes \<Rightarrow> string \<Rightarrow> unprotect_message result" where
  "createAesGcmMessageUnprotector unaes key keyVersion =
     (if length key \<noteq> 32 then Inl (Error ''AES-256-GCM requires a 32-byte encryption key'')
      else if trim keyVersion = [] then Inl (Error ''Message encryption key version is required'')
      else Inr (\<lambda>m.
        if pm_encryptionKeyVersion m \<noteq> keyVersion then Inl (Error ''Message encryption key version is unavailable'')
        else bindE (unaes key (pm_initializationVector m) (pm_authenticationTag m) (pm_ciphertext m)) (\<lambda>plain.
          case utf8_string plain of Some text \<Rightarrow> Inr text | None \<Rightarrow> Inl (Error ''text outside the model''))))"

definition cipher_ok :: "cipher \<Rightarrow> decipher \<Rightarrow> bool" where
  "cipher_ok aes unaes \<longleftrightarrow> (\<forall>key vector plain. length (snd (aes key vector plain)) = 16
     \<and> unaes key vector (snd (aes key vector plain)) (fst (aes key vector plain)) = Inr plain)"

section \<open>Round trips\<close>

lemma of_char_less [simp]: "(of_char c :: nat) < 256"
  by (simp add: of_char_def)

lemma unat_byte: "n < 256 \<Longrightarrow> unat (of_nat n :: 8 word) = n"
  by (simp add: unat_of_nat)

lemma utf8_string_char: "utf8_string (utf8_char c @ bs) = map_option (\<lambda>s. c # s) (utf8_string bs)"
proof -
  define n where "n = (of_char c :: nat)"
  have bound: "n < 256" unfolding n_def by simp
  have c: "c = char_of n" unfolding n_def by simp
  show ?thesis
  proof (cases "n < 128")
    case True
    then have "(of_nat n :: 8 word) < 128" using bound by (simp add: word_less_nat_alt unat_byte)
    then show ?thesis using True bound by (simp add: utf8_char_def c unat_byte flip: n_def)
  next
    case False
    define hi lo where "hi = 192 + n div 64" and "lo = 128 + n mod 64"
    have range: "194 \<le> hi" "hi < 196" "128 \<le> lo" "lo < 192" "(hi - 192) * 64 + (lo - 128) = n" using False bound unfolding hi_def lo_def by auto
    have words: "\<not> (of_nat hi :: 8 word) < 128" "(194 :: 8 word) \<le> of_nat hi" "(of_nat hi :: 8 word) < 196"
      "(128 :: 8 word) \<le> of_nat lo" "(of_nat lo :: 8 word) < 192" "unat (of_nat hi :: 8 word) = hi" "unat (of_nat lo :: 8 word) = lo"
      using range by (simp_all add: word_less_nat_alt word_le_nat_alt unat_byte)
    have "utf8_char c = [of_nat hi, of_nat lo]" using False by (simp add: utf8_char_def hi_def lo_def flip: n_def)
    then show ?thesis using words range(5) by (simp add: c)
  qed
qed

lemma utf8_roundtrip [simp]: "utf8_string (utf8_bytes s) = Some s"
  by (induction s) (simp_all add: utf8_bytes_def utf8_string_char)

lemma utf8_bytes_inject: "utf8_bytes s = utf8_bytes t \<longleftrightarrow> s = t"
  by (metis option.inject utf8_roundtrip)

lemma length_utf8_bytes: "length (utf8_bytes s) = utf8_length s"
  by (induction s) (simp_all add: utf8_bytes_def utf8_length_def utf8_char_def Let_def)

lemma length_le_utf8_length: "length s \<le> utf8_length s"
  by (induction s) (simp_all add: utf8_length_def)

text \<open>What the two functions, made with the same key and version, promise of each other.\<close>

definition protection_ok :: "(bytes \<Rightarrow> string) \<Rightarrow> protect_message \<Rightarrow> unprotect_message \<Rightarrow> bool" where
  "protection_ok sha256 protect unprotect \<longleftrightarrow> (\<forall>vector text m. protect vector text = Inr m \<longrightarrow>
     length (pm_initializationVector m) = 12 \<and> length (pm_authenticationTag m) = 16
     \<and> pm_plaintextSha256 m = sha256 (utf8_bytes text) \<and> pm_plaintextByteLength m = int (utf8_length text) \<and> unprotect m = Inr text)"

lemma aes_protection_ok:
  assumes "createAesGcmMessageProtector aes sha256 key keyVersion = Inr protect"
    and "createAesGcmMessageUnprotector unaes key keyVersion = Inr unprotect" and "cipher_ok aes unaes"
  shows "protection_ok sha256 protect unprotect"
  unfolding protection_ok_def
proof (intro allI impI)
  fix vector "text" m
  assume m: "protect vector text = Inr m"
  have p: "protect = (\<lambda>vector plaintext. if length vector \<noteq> 12 then Inl (Error ''AES-GCM initialization vector must contain 12 bytes'')
      else (let (ciphertext, tag) = aes key vector (utf8_bytes plaintext) in
          Inr \<lparr> pm_ciphertext = ciphertext, pm_initializationVector = vector, pm_authenticationTag = tag,
            pm_plaintextSha256 = sha256 (utf8_bytes plaintext), pm_plaintextByteLength = int (length (utf8_bytes plaintext)),
            pm_encryptionKeyVersion = keyVersion \<rparr>))"
    using assms(1) by (auto simp: createAesGcmMessageProtector_def Let_def split: if_splits)
  have u: "unprotect m = (if pm_encryptionKeyVersion m \<noteq> keyVersion then Inl (Error ''Message encryption key version is unavailable'')
        else bindE (unaes key (pm_initializationVector m) (pm_authenticationTag m) (pm_ciphertext m)) (\<lambda>plain.
          case utf8_string plain of Some text \<Rightarrow> Inr text | None \<Rightarrow> Inl (Error ''text outside the model'')))"
    using assms(2) by (auto simp: createAesGcmMessageUnprotector_def split: if_splits)
  have "length vector = 12" and "m = \<lparr> pm_ciphertext = fst (aes key vector (utf8_bytes text)), pm_initializationVector = vector,
      pm_authenticationTag = snd (aes key vector (utf8_bytes text)), pm_plaintextSha256 = sha256 (utf8_bytes text),
      pm_plaintextByteLength = int (length (utf8_bytes text)), pm_encryptionKeyVersion = keyVersion \<rparr>"
    using m by (auto simp: p Let_def split_beta split: if_splits)
  then show "length (pm_initializationVector m) = 12 \<and> length (pm_authenticationTag m) = 16 \<and> pm_plaintextSha256 m = sha256 (utf8_bytes text)
     \<and> pm_plaintextByteLength m = int (utf8_length text) \<and> unprotect m = Inr text"
    using assms(3) unfolding u by (simp add: cipher_ok_def length_utf8_bytes)
qed

lemma protection_okD:
  assumes "protection_ok sha256 protect unprotect" and "protect vector text = Inr m"
  shows "unprotect m = Inr text" "pm_plaintextByteLength m = int (utf8_length text)" "pm_plaintextSha256 m = sha256 (utf8_bytes text)"
    "length (pm_initializationVector m) = 12" "length (pm_authenticationTag m) = 16"
  using assms unfolding protection_ok_def by blast+

end
