(* ===== verification/Conversations.thy ===== *)
theory Conversations
  imports Message_Protection
begin

text \<open>
  The conversations of the conversation runtime, under
  \<^verbatim>\<open>src/apps/services/conversation-runtime/src/\<close>: the types, errors and operations of
  \<^verbatim>\<open>conversation-service.ts\<close> and the tables and transactions of
  \<^verbatim>\<open>postgres-conversation-repository.ts\<close>. A transaction is one function on the tables; an exception
  rolls back, so an error leaves them as they were. Keys and checks of the migrations are branches that
  throw. A column of type \<^verbatim>\<open>uuid\<close> compares request identifiers in canonical form (\<^verbatim>\<open>pg_uuid\<close>); the text
  column \<^verbatim>\<open>resource_scope\<close> keeps them as given. Identifiers of \<^verbatim>\<open>uuidv7()\<close> are canonical.
\<close>

section \<open>The interface of the service\<close>

datatype ConversationStatus = Status_OPEN | Status_CLOSED

datatype ControlMode = Mode_AI | Mode_QUEUED | Mode_HUMAN

datatype SenderKind = END_CUSTOMER | ASSISTANT | WORKFORCE

record Conversation =
  cn_conversationId :: string
  cn_status :: ConversationStatus
  cn_controlMode :: ControlMode

record AcceptedMessage =
  as_conversationId :: string
  as_messageId :: string
  as_sequenceNumber :: int

record TranscriptMessage =
  tm_messageId :: string
  tm_sequenceNumber :: int
  tm_senderKind :: SenderKind
  tm_text :: string
  tm_createdAt :: string
  tm_refundWorkflowId :: "string option"

record ConversationTranscript = Conversation +
  ct_messages :: "TranscriptMessage list"

datatype ConversationFailure = IdempotencyConflictError | ConversationUnavailableError | MessageTooLargeError | InternalFailure js_error

record CreateConversationRecord =
  cc_context :: OrderAccessContext
  cc_conversationId :: string
  cc_idempotencyKey :: string
  cc_canonicalRequestHash :: string
  cc_channel :: string
  cc_createdAt :: int

text \<open>The records of \<^verbatim>\<open>acceptMessage\<close> and \<^verbatim>\<open>appendAssistantMessage\<close> differ in the type of their context only.\<close>

record AppendMessageRecord =
  am_context :: ServiceAccess
  am_conversationId :: string
  am_messageId :: string
  am_payloadId :: string
  am_eventId :: string
  am_idempotencyKey :: string
  am_canonicalRequestHash :: string
  am_clientMessageId :: string
  am_protectedMessage :: ProtectedMessage
  am_occurredAt :: int

record LinkRefundWorkflowRecord =
  lr_context :: ServiceAccess
  lr_conversationId :: string
  lr_messageId :: string
  lr_workflowId :: string
  lr_eventId :: string
  lr_idempotencyKey :: string
  lr_canonicalRequestHash :: string
  lr_occurredAt :: int

datatype CreatePersistence = Created string | DuplicateConversation string

datatype AppendPersistence = Accepted string int | DuplicateMessage string int

datatype LinkPersistence = Linked string | DuplicateLink string

definition customer_access :: "OrderAccessContext \<Rightarrow> ServiceAccess" where
  "customer_access c = \<lparr> sa_tenantId = ac_tenantId c, sa_environmentId = ac_environmentId c, sa_subjectCustomerId = ac_subjectCustomerId c,
     sa_routingEpoch = ac_routingEpoch c, sa_requestId = ac_requestId c, sa_traceId = ac_traceId c \<rparr>"

record 's ConversationRepository =
  rep_createConversation :: "'s \<Rightarrow> CreateConversationRecord \<Rightarrow> ConversationFailure + 's \<times> CreatePersistence"
  rep_acceptMessage :: "'s \<Rightarrow> AppendMessageRecord \<Rightarrow> ConversationFailure + 's \<times> AppendPersistence"
  rep_appendAssistantMessage :: "'s \<Rightarrow> AppendMessageRecord \<Rightarrow> ConversationFailure + 's \<times> AppendPersistence"
  rep_readConversation :: "'s \<Rightarrow> ServiceAccess \<Rightarrow> string \<Rightarrow> ConversationFailure + ConversationTranscript"
  rep_linkRefundWorkflow :: "'s \<Rightarrow> LinkRefundWorkflowRecord \<Rightarrow> ConversationFailure + 's \<times> LinkPersistence"

section \<open>The service\<close>

text \<open>
  The keys of the two kinds of request are ASCII words, which \<^verbatim>\<open>localeCompare\<close> orders as \<^verbatim>\<open>sort\<close> does; the
  digest \<^verbatim>\<open>sha256\<close> is an argument.
\<close>

definition hashCanonicalRequest :: "(string \<Rightarrow> string) \<Rightarrow> (string \<times> string) list \<Rightarrow> string" where
  "hashCanonicalRequest sha256 value =
     sha256 (''{'' @ join (map (\<lambda>(k, v). json_quote k @ '':'' @ json_quote v) (sort_key fst value)) @ ''}'')"

definition service_createConversation ::
  "'s ConversationRepository \<Rightarrow> (string \<Rightarrow> string) \<Rightarrow> 's \<Rightarrow> int \<Rightarrow> (nat \<Rightarrow> string) \<Rightarrow> OrderAccessContext \<Rightarrow> string \<Rightarrow> string
     \<Rightarrow> ConversationFailure + 's \<times> Conversation" where
  "service_createConversation repo sha256 s now ids context key channel =
     bindE (rep_createConversation repo s \<lparr> cc_context = context, cc_conversationId = ids 0, cc_idempotencyKey = key,
         cc_canonicalRequestHash = hashCanonicalRequest sha256 [(''channel'', channel), (''subjectCustomerId'', ac_subjectCustomerId context)],
         cc_channel = channel, cc_createdAt = now \<rparr>) (\<lambda>(s', result).
       Inr (s', \<lparr> cn_conversationId = (case result of Created c \<Rightarrow> c | DuplicateConversation c \<Rightarrow> c), cn_status = Status_OPEN, cn_controlMode = Mode_AI \<rparr>))"

definition MAX_MESSAGE_BYTES :: nat where
  "MAX_MESSAGE_BYTES = 32 * 1024"

definition append_record ::
  "(string \<Rightarrow> string) \<Rightarrow> int \<Rightarrow> (nat \<Rightarrow> string) \<Rightarrow> ServiceAccess \<Rightarrow> string \<Rightarrow> string \<Rightarrow> string \<Rightarrow> string \<Rightarrow> ProtectedMessage \<Rightarrow> AppendMessageRecord" where
  "append_record sha256 now ids context conversationId key clientMessageId text m =
     \<lparr> am_context = context, am_conversationId = conversationId, am_messageId = ids 0, am_payloadId = ids 1, am_eventId = ids 2,
       am_idempotencyKey = key, am_canonicalRequestHash = hashCanonicalRequest sha256 [(''clientMessageId'', clientMessageId), (''text'', text)],
       am_clientMessageId = clientMessageId, am_protectedMessage = m, am_occurredAt = now \<rparr>"

definition accepted_message :: "string \<Rightarrow> AppendPersistence \<Rightarrow> AcceptedMessage" where
  "accepted_message conversationId result = (case result of
     Accepted m n \<Rightarrow> \<lparr> as_conversationId = conversationId, as_messageId = m, as_sequenceNumber = n \<rparr>
   | DuplicateMessage m n \<Rightarrow> \<lparr> as_conversationId = conversationId, as_messageId = m, as_sequenceNumber = n \<rparr>)"

definition protected_text :: "protect_message \<Rightarrow> bytes \<Rightarrow> string \<Rightarrow> ConversationFailure + ProtectedMessage" where
  "protected_text protect vector text = (case protect vector text of Inl e \<Rightarrow> Inl (InternalFailure e) | Inr m \<Rightarrow> Inr m)"

definition service_acceptMessage ::
  "'s ConversationRepository \<Rightarrow> (string \<Rightarrow> string) \<Rightarrow> protect_message \<Rightarrow> 's \<Rightarrow> int \<Rightarrow> (nat \<Rightarrow> string) \<Rightarrow> bytes
     \<Rightarrow> OrderAccessContext \<Rightarrow> string \<Rightarrow> string \<Rightarrow> string \<Rightarrow> string \<Rightarrow> ConversationFailure + 's \<times> AcceptedMessage" where
  "service_acceptMessage repo sha256 protect s now ids vector context conversationId key clientMessageId text =
     (if utf8_length text > MAX_MESSAGE_BYTES then Inl MessageTooLargeError
      else bindE (protected_text protect vector text) (\<lambda>m.
        bindE (rep_acceptMessage repo s (append_record sha256 now ids (customer_access context) conversationId key clientMessageId text m)) (\<lambda>(s', result).
          Inr (s', accepted_message conversationId result))))"

definition service_appendAssistantMessage ::
  "'s ConversationRepository \<Rightarrow> (string \<Rightarrow> string) \<Rightarrow> protect_message \<Rightarrow> 's \<Rightarrow> int \<Rightarrow> (nat \<Rightarrow> string) \<Rightarrow> bytes
     \<Rightarrow> ServiceAccess \<Rightarrow> string \<Rightarrow> string \<Rightarrow> string \<Rightarrow> string \<Rightarrow> ConversationFailure + 's \<times> AcceptedMessage" where
  "service_appendAssistantMessage repo sha256 protect s now ids vector context conversationId key clientMessageId text =
     (if utf8_length text > MAX_MESSAGE_BYTES then Inl MessageTooLargeError
      else bindE (protected_text protect vector text) (\<lambda>m.
        bindE (rep_appendAssistantMessage repo s (append_record sha256 now ids context conversationId key clientMessageId text m)) (\<lambda>(s', result).
          Inr (s', accepted_message conversationId result))))"

definition service_linkRefundWorkflow ::
  "'s ConversationRepository \<Rightarrow> (string \<Rightarrow> string) \<Rightarrow> 's \<Rightarrow> int \<Rightarrow> (nat \<Rightarrow> string) \<Rightarrow> ServiceAccess \<Rightarrow> string \<Rightarrow> string \<Rightarrow> string \<Rightarrow> string
     \<Rightarrow> ConversationFailure + 's \<times> LinkPersistence" where
  "service_linkRefundWorkflow repo sha256 s now ids context conversationId messageId workflowId key =
     rep_linkRefundWorkflow repo s \<lparr> lr_context = context, lr_conversationId = conversationId, lr_messageId = messageId,
       lr_workflowId = workflowId, lr_eventId = ids 0, lr_idempotencyKey = key,
       lr_canonicalRequestHash = hashCanonicalRequest sha256 [(''messageId'', messageId), (''workflowId'', workflowId)], lr_occurredAt = now \<rparr>"

definition service_getConversation ::
  "'s ConversationRepository \<Rightarrow> 's \<Rightarrow> OrderAccessContext \<Rightarrow> string \<Rightarrow> ConversationFailure + ConversationTranscript" where
  "service_getConversation repo s context conversationId = rep_readConversation repo s (customer_access context) conversationId"


section \<open>What a repository promises\<close>

text \<open>
  The abstract view of the tables: for every conversation its owner and the messages it holds, in order.
  A message is never removed or rewritten; a refund workflow is linked to an assistant message at most once.
\<close>

record Entry =
  en_messageId :: string
  en_sender :: SenderKind
  en_text :: string
  en_at :: int
  en_workflow :: "string option"

type_synonym conversation_log = "scope_key \<times> string \<Rightarrow> (string \<times> Entry list) option"

definition access_scope_of :: "ServiceAccess \<Rightarrow> scope_key" where
  "access_scope_of a = (sa_tenantId a, sa_environmentId a)"

text \<open>How a column of type \<^verbatim>\<open>uuid\<close> reads an identifier.\<close>

definition lower_char :: "char \<Rightarrow> char" where
  "lower_char c = (if is_upper c then char_of (of_char c + 32 :: nat) else c)"

definition pg_uuid :: "string \<Rightarrow> string" where
  "pg_uuid s = map lower_char s"

definition am_key :: "AppendMessageRecord \<Rightarrow> scope_key \<times> string" where
  "am_key r = (access_scope_of (am_context r), pg_uuid (am_conversationId r))"

definition lr_key :: "LinkRefundWorkflowRecord \<Rightarrow> scope_key \<times> string" where
  "lr_key r = (access_scope_of (lr_context r), pg_uuid (lr_conversationId r))"

definition numbered_entry :: "int \<Rightarrow> Entry \<Rightarrow> TranscriptMessage" where
  "numbered_entry n e = \<lparr> tm_messageId = en_messageId e, tm_sequenceNumber = n, tm_senderKind = en_sender e, tm_text = en_text e,
     tm_createdAt = iso_string (en_at e), tm_refundWorkflowId = en_workflow e \<rparr>"

definition numbered :: "Entry list \<Rightarrow> TranscriptMessage list" where
  "numbered es = map2 numbered_entry [1..int (length es)] es"

definition new_entry :: "AppendMessageRecord \<Rightarrow> SenderKind \<Rightarrow> string \<Rightarrow> Entry" where
  "new_entry r sender text = \<lparr> en_messageId = am_messageId r, en_sender = sender, en_text = text, en_at = am_occurredAt r, en_workflow = None \<rparr>"

definition genuine :: "(bytes \<Rightarrow> string) \<Rightarrow> unprotect_message \<Rightarrow> ProtectedMessage \<Rightarrow> string \<Rightarrow> bool" where
  "genuine digest unprotect m text \<longleftrightarrow> unprotect m = Inr text \<and> pm_plaintextSha256 m = digest (utf8_bytes text) \<and> pm_plaintextByteLength m = int (utf8_length text)"

text \<open>
  What the service gives the repository: the protected form of the text, and the digest of a request with
  this text. Digests identify texts only where they do not collide (\<^verbatim>\<open>collision_free\<close>).
\<close>

definition canonical_message :: "(string \<Rightarrow> string) \<Rightarrow> string \<Rightarrow> string \<Rightarrow> string" where
  "canonical_message sha256 clientMessageId words = hashCanonicalRequest sha256 [(''clientMessageId'', clientMessageId), (''text'', words)]"

definition faithful_request :: "(string \<Rightarrow> string) \<Rightarrow> (bytes \<Rightarrow> string) \<Rightarrow> unprotect_message \<Rightarrow> AppendMessageRecord \<Rightarrow> string \<Rightarrow> bool" where
  "faithful_request sha256 digest unprotect r words \<longleftrightarrow> genuine digest unprotect (am_protectedMessage r) words
     \<and> (\<exists>clientMessageId. am_canonicalRequestHash r = canonical_message sha256 clientMessageId words)"

definition collision_free :: "(string \<Rightarrow> string) \<Rightarrow> (bytes \<Rightarrow> string) \<Rightarrow> bool" where
  "collision_free sha256 digest \<longleftrightarrow> inj sha256 \<and> inj digest"

definition holds_message ::
  "(string \<Rightarrow> string) \<Rightarrow> (bytes \<Rightarrow> string) \<Rightarrow> conversation_log \<Rightarrow> scope_key \<times> string \<Rightarrow> string \<Rightarrow> string \<Rightarrow> int \<Rightarrow> string \<Rightarrow> bool" where
  "holds_message sha256 digest L key who m n words \<longleftrightarrow> (\<exists>es. L key = Some (who, es) \<and> 1 \<le> n \<and> n \<le> int (length es)
     \<and> en_messageId (es ! nat (n - 1)) = m \<and> (collision_free sha256 digest \<longrightarrow> en_text (es ! nat (n - 1)) = words))"

definition canonical_link :: "(string \<Rightarrow> string) \<Rightarrow> string \<Rightarrow> string \<Rightarrow> string" where
  "canonical_link sha256 messageId workflowId = hashCanonicalRequest sha256 [(''messageId'', messageId), (''workflowId'', workflowId)]"

definition faithful_link :: "(string \<Rightarrow> string) \<Rightarrow> LinkRefundWorkflowRecord \<Rightarrow> bool" where
  "faithful_link sha256 r \<longleftrightarrow> lr_canonicalRequestHash r = canonical_link sha256 (lr_messageId r) (lr_workflowId r)"

definition holds_link :: "conversation_log \<Rightarrow> scope_key \<times> string \<Rightarrow> string \<Rightarrow> string \<Rightarrow> bool" where
  "holds_link L key m w \<longleftrightarrow> (\<exists>who es i. L key = Some (who, es) \<and> i < length es \<and> en_messageId (es ! i) = m \<and> en_workflow (es ! i) = Some w)"

inductive log_step :: "conversation_log \<Rightarrow> conversation_log \<Rightarrow> bool" where
  log_stay: "log_step L L"
| log_open: "L key = None \<Longrightarrow> log_step L (L(key \<mapsto> (who, [])))"
| log_append: "L key = Some (who, es) \<Longrightarrow> en_sender e \<in> {END_CUSTOMER, ASSISTANT} \<Longrightarrow> en_workflow e = None
    \<Longrightarrow> log_step L (L(key \<mapsto> (who, es @ [e])))"
| log_link: "L key = Some (who, es) \<Longrightarrow> i < length es \<Longrightarrow> en_sender (es ! i) = ASSISTANT \<Longrightarrow> en_workflow (es ! i) = None
    \<Longrightarrow> log_step L (L(key \<mapsto> (who, es[i := (es ! i)\<lparr> en_workflow := Some w \<rparr>])))"

definition entry_kept :: "Entry \<Rightarrow> Entry \<Rightarrow> bool" where
  "entry_kept e e' \<longleftrightarrow> e' = e\<lparr> en_workflow := en_workflow e' \<rparr> \<and> (en_workflow e = None \<or> en_workflow e' = en_workflow e)"

definition log_extends :: "conversation_log \<Rightarrow> conversation_log \<Rightarrow> bool" where
  "log_extends L L' \<longleftrightarrow> (\<forall>key who es. L key = Some (who, es) \<longrightarrow>
     (\<exists>es'. L' key = Some (who, es') \<and> length es \<le> length es' \<and> (\<forall>i < length es. entry_kept (es ! i) (es' ! i))))"

locale conversation_repository =
  fixes repo :: "'s ConversationRepository"
    and sha256 :: "string \<Rightarrow> string"
    and digest :: "bytes \<Rightarrow> string"
    and unprotect :: unprotect_message
    and valid :: "'s \<Rightarrow> bool"
    and log :: "'s \<Rightarrow> conversation_log"
  assumes create_new: "\<lbrakk> valid s; rep_createConversation repo s req = Inr (s', Created c); key = ((ac_tenantId (cc_context req), ac_environmentId (cc_context req)), c) \<rbrakk>
      \<Longrightarrow> valid s' \<and> c = cc_conversationId req \<and> log s key = None \<and> log s' = (log s)(key \<mapsto> (ac_subjectCustomerId (cc_context req), []))"
    and create_duplicate: "\<lbrakk> valid s; rep_createConversation repo s req = Inr (s', DuplicateConversation c) \<rbrakk> \<Longrightarrow> s' = s"
    and accept_new: "\<lbrakk> valid s; faithful_request sha256 digest unprotect r words; rep_acceptMessage repo s r = Inr (s', Accepted m n) \<rbrakk>
      \<Longrightarrow> valid s' \<and> m = am_messageId r \<and> (\<exists>es. log s (am_key r) = Some (sa_subjectCustomerId (am_context r), es) \<and> n = int (length es) + 1
            \<and> log s' = (log s)(am_key r \<mapsto> (sa_subjectCustomerId (am_context r), es @ [new_entry r END_CUSTOMER words])))"
    and assistant_new: "\<lbrakk> valid s; faithful_request sha256 digest unprotect r words; rep_appendAssistantMessage repo s r = Inr (s', Accepted m n) \<rbrakk>
      \<Longrightarrow> valid s' \<and> m = am_messageId r \<and> (\<exists>es. log s (am_key r) = Some (sa_subjectCustomerId (am_context r), es) \<and> n = int (length es) + 1
            \<and> log s' = (log s)(am_key r \<mapsto> (sa_subjectCustomerId (am_context r), es @ [new_entry r ASSISTANT words])))"
    and accept_duplicate: "\<lbrakk> valid s; faithful_request sha256 digest unprotect r words; rep_acceptMessage repo s r = Inr (s', DuplicateMessage m n) \<rbrakk>
      \<Longrightarrow> valid s' \<and> log s' = log s \<and> holds_message sha256 digest (log s) (am_key r) (sa_subjectCustomerId (am_context r)) m n words"
    and assistant_duplicate: "\<lbrakk> valid s; faithful_request sha256 digest unprotect r words; rep_appendAssistantMessage repo s r = Inr (s', DuplicateMessage m n) \<rbrakk>
      \<Longrightarrow> valid s' \<and> log s' = log s \<and> holds_message sha256 digest (log s) (am_key r) (sa_subjectCustomerId (am_context r)) m n words"
    and link_new: "\<lbrakk> valid s; faithful_link sha256 link; rep_linkRefundWorkflow repo s link = Inr (s', Linked w) \<rbrakk>
      \<Longrightarrow> valid s' \<and> w = lr_workflowId link \<and> (\<exists>es i. log s (lr_key link) = Some (sa_subjectCustomerId (lr_context link), es) \<and> i < length es
            \<and> en_messageId (es ! i) = pg_uuid (lr_messageId link) \<and> en_sender (es ! i) = ASSISTANT \<and> en_workflow (es ! i) = None
            \<and> log s' = (log s)(lr_key link \<mapsto> (sa_subjectCustomerId (lr_context link), es[i := (es ! i)\<lparr> en_workflow := Some w \<rparr>])))"
    and link_duplicate: "\<lbrakk> valid s; faithful_link sha256 link; rep_linkRefundWorkflow repo s link = Inr (s', DuplicateLink w) \<rbrakk>
      \<Longrightarrow> valid s' \<and> log s' = log s \<and> (inj sha256 \<longrightarrow> w = lr_workflowId link \<and> holds_link (log s) (lr_key link) (pg_uuid (lr_messageId link)) w)"
    and read: "valid s \<Longrightarrow> rep_readConversation repo s context conversationId =
      (case log s (access_scope_of context, pg_uuid conversationId) of
         None \<Rightarrow> Inl ConversationUnavailableError
       | Some (who, es) \<Rightarrow>
           if who \<noteq> sa_subjectCustomerId context then Inl ConversationUnavailableError
           else Inr \<lparr> cn_conversationId = conversationId, cn_status = Status_OPEN, cn_controlMode = Mode_AI, ct_messages = numbered es \<rparr>)"

section \<open>Laws of the abstract log\<close>

lemma entry_kept_refl [simp]: "entry_kept e e"
  by (simp add: entry_kept_def)

lemma entry_kept_trans: "entry_kept a b \<Longrightarrow> entry_kept b c \<Longrightarrow> entry_kept a c"
  by (cases a, cases b, cases c) (auto simp: entry_kept_def)

lemma log_extends_refl: "log_extends L L"
  by (auto simp: log_extends_def)

lemma log_extends_trans: "log_extends A B \<Longrightarrow> log_extends B C \<Longrightarrow> log_extends A C"
  unfolding log_extends_def by (meson entry_kept_trans order_trans order_less_le_trans)

lemma log_step_extends: "log_step L L' \<Longrightarrow> log_extends L L'"
proof (induction rule: log_step.induct)
  case (log_append L key who es e)
  then show ?case by (auto simp: log_extends_def nth_append)
next
  case (log_link L key who es i w)
  then show ?case by (auto simp: log_extends_def entry_kept_def nth_list_update)
qed (auto simp: log_extends_def)

lemma log_steps_extend: "log_step\<^sup>*\<^sup>* L L' \<Longrightarrow> log_extends L L'"
  by (induction rule: rtranclp_induct) (blast intro: log_extends_refl log_extends_trans log_step_extends)+

lemma length_numbered [simp]: "length (numbered es) = length es"
  by (simp add: numbered_def)

lemma nth_numbered: "i < length es \<Longrightarrow> numbered es ! i = numbered_entry (int i + 1) (es ! i)"
  by (simp add: numbered_def add.commute)

lemma numbered_append: "numbered (es @ [e]) = numbered es @ [numbered_entry (int (length es) + 1) e]"
  by (rule nth_equalityI) (auto simp: nth_numbered nth_append less_Suc_eq)

lemma numbered_sequence: "map tm_sequenceNumber (numbered es) = [1..int (length es)]"
  by (rule nth_equalityI) (auto simp: nth_numbered numbered_entry_def)

lemma genuine_protected:
  assumes "protection_ok digest protect unprotect" and "protected_text protect vector text = Inr m"
  shows "genuine digest unprotect m text"
  using assms by (auto simp: protected_text_def genuine_def protection_okD split: sum.splits)

lemma canonical_message_inject:
  assumes "inj sha256" and "canonical_message sha256 c words = canonical_message sha256 c' words'"
  shows "c = c' \<and> words = words'"
proof -
  have body: "canonical_message sha256 c words = sha256 (''{'' @ json_quote ''clientMessageId'' @ '':'' @ json_quote c @ '','' @ json_quote ''text'' @ '':'' @ json_quote words @ ''}'')" for c words
    by (simp add: canonical_message_def hashCanonicalRequest_def)
  from assms have "json_quote c @ '','' @ json_quote ''text'' @ '':'' @ json_quote words @ ''}'' = json_quote c' @ '','' @ json_quote ''text'' @ '':'' @ json_quote words' @ ''}''"
    unfolding body by (auto dest!: injD)
  from json_quote_prefix [OF this] show ?thesis using json_quote_prefix [of words _ words'] by auto
qed

lemma canonical_link_inject:
  assumes "inj sha256" and "canonical_link sha256 m w = canonical_link sha256 m' w'"
  shows "m = m' \<and> w = w'"
proof -
  have body: "canonical_link sha256 m w = sha256 (''{'' @ json_quote ''messageId'' @ '':'' @ json_quote m @ '','' @ json_quote ''workflowId'' @ '':'' @ json_quote w @ ''}'')" for m w
    by (simp add: canonical_link_def hashCanonicalRequest_def)
  from assms have "json_quote m @ '','' @ json_quote ''workflowId'' @ '':'' @ json_quote w @ ''}'' = json_quote m' @ '','' @ json_quote ''workflowId'' @ '':'' @ json_quote w' @ ''}''"
    unfolding body by (auto dest!: injD)
  from json_quote_prefix [OF this] show ?thesis using json_quote_prefix [of w _ w'] by auto
qed

lemma append_record_faithful:
  assumes "protection_ok digest protect unprotect" and "protected_text protect vector words = Inr m"
  shows "faithful_request sha256 digest unprotect (append_record sha256 now ids context conversationId k clientMessageId words m) words"
  using genuine_protected [OF assms] by (auto simp: faithful_request_def append_record_def canonical_message_def)

end
