(* ===== verification/Conversation_Store.thy ===== *)
theory Conversation_Store
  imports Conversations
begin

text \<open>
  The Postgres repository of the conversation runtime,
  \<^verbatim>\<open>src/apps/services/conversation-runtime/src/postgres-conversation-repository.ts\<close>, over the tables of
  its migrations, and the invariant \<^verbatim>\<open>store_ok\<close> that every transaction preserves: the messages of a
  conversation are numbered from one without gap, every message has one readable payload and one
  outbox event, and keys are unique.
\<close>

section \<open>Tables\<close>

datatype MessageStatus = COMMITTED | DISCARDED

datatype OutboxStatus = PENDING_EVENT | PUBLISHED_EVENT

record ConversationRow =
  cv_scope :: scope_key
  cv_conversation_id :: string
  cv_subject_customer_id :: string
  cv_channel :: string
  cv_status :: ConversationStatus
  cv_control_mode :: ControlMode
  cv_next_sequence_number :: int
  cv_record_version :: int
  cv_created_at :: int
  cv_updated_at :: int

record PayloadRow =
  py_scope :: scope_key
  py_payload_id :: string
  py_ciphertext :: bytes
  py_initialization_vector :: bytes
  py_authentication_tag :: bytes
  py_encryption_key_version :: string
  py_created_at :: int

record MessageRow =
  mr_scope :: scope_key
  mr_conversation_id :: string
  mr_sequence_number :: int
  mr_message_id :: string
  mr_client_message_id :: string
  mr_sender_kind :: SenderKind
  mr_payload_id :: string
  mr_content_type :: string
  mr_content_length :: int
  mr_content_sha256 :: string
  mr_refund_workflow_id :: "string option"
  mr_status :: MessageStatus
  mr_created_at :: int

record KeyRow =
  ky_scope :: scope_key
  ky_operation :: string
  ky_resource_scope :: string
  ky_idempotency_key :: string
  ky_canonical_request_hash :: string
  ky_result_json :: json
  ky_created_at :: int

record EventRow =
  ev_scope :: scope_key
  ev_event_id :: string
  ev_event_type :: string
  ev_aggregate_type :: string
  ev_aggregate_id :: string
  ev_aggregate_sequence :: int
  ev_routing_epoch :: int
  ev_trace_id :: string
  ev_payload :: json
  ev_status :: OutboxStatus
  ev_occurred_at :: int

record ConversationDb =
  cd_conversations :: "ConversationRow list"
  cd_payloads :: "PayloadRow list"
  cd_messages :: "MessageRow list"
  cd_idempotency :: "KeyRow list"
  cd_outbox :: "EventRow list"

definition cv_key :: "ConversationRow \<Rightarrow> scope_key \<times> string" where
  "cv_key row = (cv_scope row, cv_conversation_id row)"

definition mr_key :: "MessageRow \<Rightarrow> scope_key \<times> string" where
  "mr_key m = (mr_scope m, mr_conversation_id m)"

definition client_key :: "MessageRow \<Rightarrow> (scope_key \<times> string) \<times> string" where
  "client_key m = (mr_key m, mr_client_message_id m)"

definition py_key :: "PayloadRow \<Rightarrow> scope_key \<times> string" where
  "py_key p = (py_scope p, py_payload_id p)"

definition ky_key :: "KeyRow \<Rightarrow> scope_key \<times> string \<times> string \<times> string" where
  "ky_key k = (ky_scope k, ky_operation k, ky_resource_scope k, ky_idempotency_key k)"

definition violates :: "string \<Rightarrow> ConversationFailure" where
  "violates constraint = InternalFailure (Error constraint)"

section \<open>Idempotency records\<close>

definition findIdempotencyResult :: "ConversationDb \<Rightarrow> scope_key \<Rightarrow> string \<Rightarrow> string \<Rightarrow> string \<Rightarrow> KeyRow option" where
  "findIdempotencyResult db sc operation resourceScope key =
     List.find (\<lambda>k. ky_key k = (sc, operation, resourceScope, key)) (cd_idempotency db)"

definition readIdempotencyResult :: "ConversationDb \<Rightarrow> scope_key \<Rightarrow> string \<Rightarrow> string \<Rightarrow> string \<Rightarrow> ConversationFailure + KeyRow" where
  "readIdempotencyResult db sc operation resourceScope key =
     (case findIdempotencyResult db sc operation resourceScope key of
        None \<Rightarrow> Inl (InternalFailure (Error ''Idempotency record disappeared during transaction''))
      | Some existing \<Rightarrow> Inr existing)"

definition insertIdempotencyResult ::
  "ConversationDb \<Rightarrow> scope_key \<Rightarrow> string \<Rightarrow> string \<Rightarrow> string \<Rightarrow> string \<Rightarrow> json \<Rightarrow> int \<Rightarrow> ConversationFailure + ConversationDb" where
  "insertIdempotencyResult db sc operation resourceScope key hash result at =
     (if findIdempotencyResult db sc operation resourceScope key \<noteq> None then Inl (violates ''idempotency_keys_pkey'')
      else Inr (db\<lparr> cd_idempotency := cd_idempotency db @ [\<lparr> ky_scope = sc, ky_operation = operation, ky_resource_scope = resourceScope,
        ky_idempotency_key = key, ky_canonical_request_hash = hash, ky_result_json = result, ky_created_at = at \<rparr>] \<rparr>))"

definition ensureMatchingRequest :: "KeyRow \<Rightarrow> string \<Rightarrow> ConversationFailure + unit" where
  "ensureMatchingRequest existing hash = throw_if (ky_canonical_request_hash existing \<noteq> hash) IdempotencyConflictError"

definition parseConversationResult :: "json \<Rightarrow> ConversationFailure + string" where
  "parseConversationResult value = (case get_prop ''conversationId'' value of
     JStr c \<Rightarrow> Inr c | _ \<Rightarrow> Inl (InternalFailure (Error ''Stored conversation idempotency result is invalid'')))"

definition parseMessageResult :: "json \<Rightarrow> ConversationFailure + string \<times> int" where
  "parseMessageResult value = (case (get_prop ''messageId'' value, get_prop ''sequenceNumber'' value) of
     (JStr m, JNum n) \<Rightarrow> Inr (m, n) | _ \<Rightarrow> Inl (InternalFailure (Error ''Stored message idempotency result is invalid'')))"

definition parseRefundWorkflowLinkResult :: "json \<Rightarrow> ConversationFailure + string" where
  "parseRefundWorkflowLinkResult value = (case get_prop ''workflowId'' value of
     JStr w \<Rightarrow> Inr w | _ \<Rightarrow> Inl (InternalFailure (Error ''Stored refund workflow link result is invalid'')))"

definition message_result :: "string \<Rightarrow> int \<Rightarrow> json" where
  "message_result m n = JObj [(''messageId'', JStr m), (''sequenceNumber'', JNum n)]"

section \<open>Creating a conversation\<close>

definition pg_createConversation :: "ConversationDb \<Rightarrow> CreateConversationRecord \<Rightarrow> ConversationFailure + ConversationDb \<times> CreatePersistence" where
  "pg_createConversation db r =
     (let sc = (ac_tenantId (cc_context r), ac_environmentId (cc_context r)); who = ac_subjectCustomerId (cc_context r) in
      case insertIdempotencyResult db sc ''conversation.create'' who (cc_idempotencyKey r) (cc_canonicalRequestHash r)
             (JObj [(''conversationId'', JStr (cc_conversationId r))]) (cc_createdAt r) of
        Inl _ \<Rightarrow>
          bindE (readIdempotencyResult db sc ''conversation.create'' who (cc_idempotencyKey r)) (\<lambda>existing.
          bindE (ensureMatchingRequest existing (cc_canonicalRequestHash r)) (\<lambda>_.
          bindE (parseConversationResult (ky_result_json existing)) (\<lambda>c. Inr (db, DuplicateConversation c))))
      | Inr db1 \<Rightarrow>
          if (sc, cc_conversationId r) \<in> cv_key ` set (cd_conversations db1) then Inl (violates ''conversations_pkey'')
          else if cc_channel r \<noteq> ''web'' then Inl (violates ''conversations_channel_check'')
          else Inr (db1\<lparr> cd_conversations := cd_conversations db1 @ [\<lparr> cv_scope = sc, cv_conversation_id = cc_conversationId r,
                 cv_subject_customer_id = who, cv_channel = cc_channel r, cv_status = Status_OPEN, cv_control_mode = Mode_AI,
                 cv_next_sequence_number = 1, cv_record_version = 1, cv_created_at = cc_createdAt r, cv_updated_at = cc_createdAt r \<rparr>] \<rparr>,
               Created (cc_conversationId r)))"

section \<open>Appending a message\<close>

record AppendMessageOptions =
  ao_operation :: string
  ao_eventType :: string
  ao_senderKind :: SenderKind
  ao_storedClientMessageId :: string

definition find_conversation :: "ConversationDb \<Rightarrow> scope_key \<times> string \<Rightarrow> ConversationRow option" where
  "find_conversation db key = List.find (\<lambda>row. cv_key row = key) (cd_conversations db)"

definition advance :: "int \<Rightarrow> ConversationRow \<Rightarrow> ConversationRow" where
  "advance at row = row\<lparr> cv_next_sequence_number := cv_next_sequence_number row + 1, cv_record_version := cv_record_version row + 1, cv_updated_at := at \<rparr>"

definition allocate_sequence :: "ConversationDb \<Rightarrow> AppendMessageRecord \<Rightarrow> ConversationRow \<Rightarrow> ConversationFailure + ConversationDb \<times> int" where
  "allocate_sequence db r row =
     (let n = cv_next_sequence_number row in
      if \<not> isSafeInteger n \<or> n < 1 then Inl (InternalFailure (Error ''Conversation sequence allocation failed''))
      else Inr (db\<lparr> cd_conversations := map (\<lambda>c. if cv_key c = am_key r then advance (am_occurredAt r) c else c) (cd_conversations db) \<rparr>, n))"

definition payload_row :: "AppendMessageRecord \<Rightarrow> PayloadRow" where
  "payload_row r = \<lparr> py_scope = access_scope_of (am_context r), py_payload_id = am_payloadId r,
     py_ciphertext = pm_ciphertext (am_protectedMessage r), py_initialization_vector = pm_initializationVector (am_protectedMessage r),
     py_authentication_tag = pm_authenticationTag (am_protectedMessage r), py_encryption_key_version = pm_encryptionKeyVersion (am_protectedMessage r),
     py_created_at = am_occurredAt r \<rparr>"

definition insert_payload :: "AppendMessageRecord \<Rightarrow> ConversationDb \<Rightarrow> ConversationFailure + ConversationDb" where
  "insert_payload r db =
     (let p = payload_row r in
      if py_key p \<in> py_key ` set (cd_payloads db) then Inl (violates ''message_payloads_pkey'')
      else if length (py_initialization_vector p) \<noteq> 12 \<or> length (py_authentication_tag p) \<noteq> 16 then Inl (violates ''message_payloads_check'')
      else Inr (db\<lparr> cd_payloads := cd_payloads db @ [p] \<rparr>))"

definition message_row :: "AppendMessageRecord \<Rightarrow> AppendMessageOptions \<Rightarrow> int \<Rightarrow> MessageRow" where
  "message_row r opt n = \<lparr> mr_scope = access_scope_of (am_context r), mr_conversation_id = pg_uuid (am_conversationId r), mr_sequence_number = n,
     mr_message_id = am_messageId r, mr_client_message_id = ao_storedClientMessageId opt, mr_sender_kind = ao_senderKind opt,
     mr_payload_id = am_payloadId r, mr_content_type = ''text/plain'', mr_content_length = pm_plaintextByteLength (am_protectedMessage r),
     mr_content_sha256 = pm_plaintextSha256 (am_protectedMessage r), mr_refund_workflow_id = None, mr_status = COMMITTED, mr_created_at = am_occurredAt r \<rparr>"

definition insert_message :: "AppendMessageRecord \<Rightarrow> AppendMessageOptions \<Rightarrow> int \<Rightarrow> ConversationDb \<Rightarrow> ConversationFailure + ConversationDb" where
  "insert_message r opt n db =
     (let m = message_row r opt n in
      if \<exists>x \<in> set (cd_messages db). mr_key x = mr_key m \<and> mr_sequence_number x = n then Inl (violates ''messages_pkey'')
      else if \<exists>x \<in> set (cd_messages db). mr_scope x = mr_scope m \<and> mr_message_id x = mr_message_id m then Inl (violates ''messages_message_id_key'')
      else if \<exists>x \<in> set (cd_messages db). mr_key x = mr_key m \<and> mr_client_message_id x = mr_client_message_id m then Inl (violates ''messages_client_message_id_key'')
      else if mr_content_length m < 0 \<or> 32768 < mr_content_length m then Inl (violates ''messages_content_length_check'')
      else Inr (db\<lparr> cd_messages := cd_messages db @ [m] \<rparr>))"

definition event_payload :: "AppendMessageRecord \<Rightarrow> AppendMessageOptions \<Rightarrow> int \<Rightarrow> json" where
  "event_payload r opt n = JObj [
     (''eventId'', JStr (am_eventId r)), (''eventType'', JStr (ao_eventType opt)), (''occurredAt'', JStr (iso_string (am_occurredAt r))),
     (''producer'', JStr ''conversation-runtime''), (''tenantId'', JStr (sa_tenantId (am_context r))), (''environmentId'', JStr (sa_environmentId (am_context r))),
     (''aggregateType'', JStr ''conversation''), (''aggregateId'', JStr (am_conversationId r)), (''aggregateSequence'', JNum n),
     (''routingEpoch'', JNum (sa_routingEpoch (am_context r))), (''traceId'', JStr (sa_traceId (am_context r))), (''schemaVersion'', JNum 1),
     (''payload'', JObj [(''messageId'', JStr (am_messageId r))])]"

definition event_row :: "AppendMessageRecord \<Rightarrow> AppendMessageOptions \<Rightarrow> int \<Rightarrow> EventRow" where
  "event_row r opt n = \<lparr> ev_scope = access_scope_of (am_context r), ev_event_id = am_eventId r, ev_event_type = ao_eventType opt,
     ev_aggregate_type = ''conversation'', ev_aggregate_id = pg_uuid (am_conversationId r), ev_aggregate_sequence = n,
     ev_routing_epoch = sa_routingEpoch (am_context r), ev_trace_id = sa_traceId (am_context r), ev_payload = event_payload r opt n,
     ev_status = PENDING_EVENT, ev_occurred_at = am_occurredAt r \<rparr>"

definition insert_event :: "AppendMessageRecord \<Rightarrow> AppendMessageOptions \<Rightarrow> int \<Rightarrow> ConversationDb \<Rightarrow> ConversationFailure + ConversationDb" where
  "insert_event r opt n db =
     (let e = event_row r opt n in
      if \<exists>x \<in> set (cd_outbox db). ev_scope x = ev_scope e \<and> ev_event_id x = ev_event_id e then Inl (violates ''outbox_pkey'')
      else if \<exists>x \<in> set (cd_outbox db). ev_scope x = ev_scope e \<and> ev_event_type x = ev_event_type e \<and> ev_aggregate_id x = ev_aggregate_id e
                \<and> ev_aggregate_sequence x = n then Inl (violates ''outbox_aggregate_sequence_key'')
      else if ev_routing_epoch e < 1 then Inl (violates ''outbox_routing_epoch_check'')
      else Inr (db\<lparr> cd_outbox := cd_outbox db @ [e] \<rparr>))"

definition same_client_message :: "AppendMessageRecord \<Rightarrow> AppendMessageOptions \<Rightarrow> MessageRow \<Rightarrow> bool" where
  "same_client_message r opt m \<longleftrightarrow> mr_key m = am_key r \<and> mr_client_message_id m = ao_storedClientMessageId opt"

definition remember_message :: "AppendMessageRecord \<Rightarrow> AppendMessageOptions \<Rightarrow> string \<Rightarrow> int \<Rightarrow> ConversationDb \<Rightarrow> ConversationFailure + ConversationDb" where
  "remember_message r opt messageId n db = insertIdempotencyResult db (access_scope_of (am_context r)) (ao_operation opt) (am_conversationId r)
     (am_idempotencyKey r) (am_canonicalRequestHash r) (message_result messageId n) (am_occurredAt r)"

definition store_message :: "ConversationDb \<Rightarrow> AppendMessageRecord \<Rightarrow> AppendMessageOptions \<Rightarrow> ConversationRow \<Rightarrow> ConversationFailure + ConversationDb \<times> AppendPersistence" where
  "store_message db r opt row =
     bindE (allocate_sequence db r row) (\<lambda>(db1, n).
     bindE (insert_payload r db1) (\<lambda>db2.
     bindE (insert_message r opt n db2) (\<lambda>db3.
     bindE (insert_event r opt n db3) (\<lambda>db4.
     bindE (remember_message r opt (am_messageId r) n db4) (\<lambda>db5.
       Inr (db5, Accepted (am_messageId r) n))))))"

definition pg_appendMessage :: "ConversationDb \<Rightarrow> AppendMessageRecord \<Rightarrow> AppendMessageOptions \<Rightarrow> ConversationFailure + ConversationDb \<times> AppendPersistence" where
  "pg_appendMessage db r opt =
     (case find_conversation db (am_key r) of
        None \<Rightarrow> Inl ConversationUnavailableError
      | Some row \<Rightarrow>
          if cv_status row \<noteq> Status_OPEN \<or> cv_subject_customer_id row \<noteq> sa_subjectCustomerId (am_context r) then Inl ConversationUnavailableError
          else (case findIdempotencyResult db (access_scope_of (am_context r)) (ao_operation opt) (am_conversationId r) (am_idempotencyKey r) of
              Some existing \<Rightarrow>
                bindE (ensureMatchingRequest existing (am_canonicalRequestHash r)) (\<lambda>_.
                bindE (parseMessageResult (ky_result_json existing)) (\<lambda>(m, n). Inr (db, DuplicateMessage m n)))
            | None \<Rightarrow> (case List.find (same_client_message r opt) (cd_messages db) of
                Some existing \<Rightarrow>
                  if mr_content_sha256 existing \<noteq> pm_plaintextSha256 (am_protectedMessage r) then Inl IdempotencyConflictError
                  else bindE (remember_message r opt (mr_message_id existing) (mr_sequence_number existing) db) (\<lambda>db'.
                    Inr (db', DuplicateMessage (mr_message_id existing) (mr_sequence_number existing)))
              | None \<Rightarrow> store_message db r opt row)))"

definition customer_options :: "AppendMessageRecord \<Rightarrow> AppendMessageOptions" where
  "customer_options r = \<lparr> ao_operation = ''conversation.accept-message'', ao_eventType = ''conversation.message.received.v1'',
     ao_senderKind = END_CUSTOMER, ao_storedClientMessageId = am_clientMessageId r \<rparr>"

definition assistant_options :: "AppendMessageRecord \<Rightarrow> AppendMessageOptions" where
  "assistant_options r = \<lparr> ao_operation = ''conversation.append-assistant-message'', ao_eventType = ''conversation.assistant-message.committed.v1'',
     ao_senderKind = ASSISTANT, ao_storedClientMessageId = ''assistant:'' @ am_clientMessageId r \<rparr>"

definition pg_acceptMessage :: "ConversationDb \<Rightarrow> AppendMessageRecord \<Rightarrow> ConversationFailure + ConversationDb \<times> AppendPersistence" where
  "pg_acceptMessage db r = pg_appendMessage db r (customer_options r)"

definition pg_appendAssistantMessage :: "ConversationDb \<Rightarrow> AppendMessageRecord \<Rightarrow> ConversationFailure + ConversationDb \<times> AppendPersistence" where
  "pg_appendAssistantMessage db r = pg_appendMessage db r (assistant_options r)"

section \<open>Reading a conversation\<close>

definition toProtectedMessage :: "MessageRow \<Rightarrow> PayloadRow \<Rightarrow> ProtectedMessage" where
  "toProtectedMessage m p = \<lparr> pm_ciphertext = py_ciphertext p, pm_initializationVector = py_initialization_vector p,
     pm_authenticationTag = py_authentication_tag p, pm_plaintextSha256 = mr_content_sha256 m, pm_plaintextByteLength = mr_content_length m,
     pm_encryptionKeyVersion = py_encryption_key_version p \<rparr>"

definition visible :: "scope_key \<times> string \<Rightarrow> MessageRow \<Rightarrow> bool" where
  "visible key m \<longleftrightarrow> mr_key m = key \<and> mr_status m = COMMITTED \<and> mr_sender_kind m \<in> {END_CUSTOMER, ASSISTANT}"

definition joined_payloads :: "ConversationDb \<Rightarrow> MessageRow \<Rightarrow> (MessageRow \<times> PayloadRow) list" where
  "joined_payloads db m = map (Pair m) (filter (\<lambda>p. py_key p = (mr_scope m, mr_payload_id m)) (cd_payloads db))"

definition toTranscriptMessage :: "unprotect_message \<Rightarrow> MessageRow \<times> PayloadRow \<Rightarrow> TranscriptMessage result" where
  "toTranscriptMessage unprotect mp = (case mp of (m, p) \<Rightarrow>
     bindE (unprotect (toProtectedMessage m p)) (\<lambda>text. Inr \<lparr> tm_messageId = mr_message_id m, tm_sequenceNumber = mr_sequence_number m,
       tm_senderKind = mr_sender_kind m, tm_text = text, tm_createdAt = iso_string (mr_created_at m), tm_refundWorkflowId = mr_refund_workflow_id m \<rparr>))"

definition pg_readConversation :: "unprotect_message \<Rightarrow> ConversationDb \<Rightarrow> ServiceAccess \<Rightarrow> string \<Rightarrow> ConversationFailure + ConversationTranscript" where
  "pg_readConversation unprotect db context conversationId =
     (let key = (access_scope_of context, pg_uuid conversationId) in
      case find_conversation db key of
        None \<Rightarrow> Inl ConversationUnavailableError
      | Some row \<Rightarrow>
          if cv_subject_customer_id row \<noteq> sa_subjectCustomerId context then Inl ConversationUnavailableError
          else (case mapE (toTranscriptMessage unprotect) (concat (map (joined_payloads db) (sort_key mr_sequence_number (filter (visible key) (cd_messages db))))) of
              Inl e \<Rightarrow> Inl (InternalFailure e)
            | Inr messages \<Rightarrow> Inr \<lparr> cn_conversationId = conversationId, cn_status = cv_status row, cn_controlMode = cv_control_mode row, ct_messages = messages \<rparr>))"

section \<open>Linking a refund workflow\<close>

definition linkable :: "LinkRefundWorkflowRecord \<Rightarrow> MessageRow \<Rightarrow> bool" where
  "linkable r m \<longleftrightarrow> mr_key m = lr_key r \<and> mr_message_id m = pg_uuid (lr_messageId r) \<and> mr_sender_kind m = ASSISTANT \<and> mr_status m = COMMITTED"

definition set_link :: "LinkRefundWorkflowRecord \<Rightarrow> MessageRow \<Rightarrow> MessageRow" where
  "set_link r m = (if mr_key m = lr_key r \<and> mr_message_id m = pg_uuid (lr_messageId r) then m\<lparr> mr_refund_workflow_id := Some (lr_workflowId r) \<rparr> else m)"

definition remember_link :: "LinkRefundWorkflowRecord \<Rightarrow> ConversationDb \<Rightarrow> ConversationFailure + ConversationDb" where
  "remember_link r db = insertIdempotencyResult db (access_scope_of (lr_context r)) ''conversation.link-refund-workflow'' (lr_conversationId r)
     (lr_idempotencyKey r) (lr_canonicalRequestHash r) (JObj [(''workflowId'', JStr (lr_workflowId r))]) (lr_occurredAt r)"

definition pg_linkRefundWorkflow :: "ConversationDb \<Rightarrow> LinkRefundWorkflowRecord \<Rightarrow> ConversationFailure + ConversationDb \<times> LinkPersistence" where
  "pg_linkRefundWorkflow db r =
     (case findIdempotencyResult db (access_scope_of (lr_context r)) ''conversation.link-refund-workflow'' (lr_conversationId r) (lr_idempotencyKey r) of
        Some existing \<Rightarrow>
          bindE (ensureMatchingRequest existing (lr_canonicalRequestHash r)) (\<lambda>_.
          bindE (parseRefundWorkflowLinkResult (ky_result_json existing)) (\<lambda>w. Inr (db, DuplicateLink w)))
      | None \<Rightarrow> (case (List.find (linkable r) (cd_messages db), find_conversation db (lr_key r)) of
          (Some m, Some row) \<Rightarrow>
            if cv_subject_customer_id row \<noteq> sa_subjectCustomerId (lr_context r) then Inl ConversationUnavailableError
            else (case mr_refund_workflow_id m of
                Some w \<Rightarrow>
                  if w \<noteq> lr_workflowId r then Inl IdempotencyConflictError
                  else bindE (remember_link r db) (\<lambda>db'. Inr (db', DuplicateLink (lr_workflowId r)))
              | None \<Rightarrow>
                  if \<not> opaque_id_upto 200 (lr_workflowId r) then Inl (violates ''messages_refund_workflow_id_format'')
                  else bindE (remember_link r (db\<lparr> cd_messages := map (set_link r) (cd_messages db) \<rparr>)) (\<lambda>db'. Inr (db', Linked (lr_workflowId r))))
        | _ \<Rightarrow> Inl ConversationUnavailableError))"

definition postgres_repository :: "unprotect_message \<Rightarrow> ConversationDb ConversationRepository" where
  "postgres_repository unprotect = \<lparr> rep_createConversation = pg_createConversation, rep_acceptMessage = pg_acceptMessage,
     rep_appendAssistantMessage = pg_appendAssistantMessage, rep_readConversation = pg_readConversation unprotect,
     rep_linkRefundWorkflow = pg_linkRefundWorkflow \<rparr>"


section \<open>The invariant\<close>

definition messages_of :: "ConversationDb \<Rightarrow> scope_key \<times> string \<Rightarrow> MessageRow list" where
  "messages_of db key = filter (\<lambda>m. mr_key m = key) (cd_messages db)"

definition readable :: "(bytes \<Rightarrow> string) \<Rightarrow> unprotect_message \<Rightarrow> ConversationDb \<Rightarrow> MessageRow \<Rightarrow> bool" where
  "readable digest unprotect db m \<longleftrightarrow> (\<exists>p \<in> set (cd_payloads db). \<exists>text. py_key p = (mr_scope m, mr_payload_id m)
     \<and> genuine digest unprotect (toProtectedMessage m p) text \<and> mr_content_length m \<le> 32768)"

definition sender_event :: "SenderKind \<Rightarrow> string" where
  "sender_event k = (if k = ASSISTANT then ''conversation.assistant-message.committed.v1'' else ''conversation.message.received.v1'')"

text \<open>What an outbox event says of its message, and what the message says of itself.\<close>

definition event_view :: "EventRow \<Rightarrow> (scope_key \<times> string) \<times> int \<times> string \<times> json" where
  "event_view e = ((ev_scope e, ev_aggregate_id e), ev_aggregate_sequence e, ev_event_type e, get_prop ''messageId'' (get_prop ''payload'' (ev_payload e)))"

definition message_view :: "MessageRow \<Rightarrow> (scope_key \<times> string) \<times> int \<times> string \<times> json" where
  "message_view m = (mr_key m, mr_sequence_number m, sender_event (mr_sender_kind m), JStr (mr_message_id m))"

definition append_operation :: "string \<Rightarrow> bool" where
  "append_operation op \<longleftrightarrow> op \<in> {''conversation.accept-message'', ''conversation.append-assistant-message''}"

definition key_answered :: "(string \<Rightarrow> string) \<Rightarrow> (bytes \<Rightarrow> string) \<Rightarrow> ConversationDb \<Rightarrow> KeyRow \<Rightarrow> bool" where
  "key_answered sha256 digest db k \<longleftrightarrow> (append_operation (ky_operation k) \<longrightarrow> (\<exists>m \<in> set (cd_messages db). \<exists>clientMessageId words.
     mr_key m = (ky_scope k, pg_uuid (ky_resource_scope k)) \<and> ky_result_json k = message_result (mr_message_id m) (mr_sequence_number m)
     \<and> ky_canonical_request_hash k = canonical_message sha256 clientMessageId words \<and> mr_content_sha256 m = digest (utf8_bytes words)))"

definition link_answered :: "(string \<Rightarrow> string) \<Rightarrow> ConversationDb \<Rightarrow> KeyRow \<Rightarrow> bool" where
  "link_answered sha256 db k \<longleftrightarrow> (ky_operation k = ''conversation.link-refund-workflow'' \<longrightarrow> (\<exists>m \<in> set (cd_messages db). \<exists>messageId w.
     mr_key m = (ky_scope k, pg_uuid (ky_resource_scope k)) \<and> mr_message_id m = pg_uuid messageId \<and> mr_refund_workflow_id m = Some w
     \<and> ky_canonical_request_hash k = canonical_link sha256 messageId w \<and> ky_result_json k = JObj [(''workflowId'', JStr w)]))"

definition conversation_ok :: "ConversationDb \<Rightarrow> ConversationRow \<Rightarrow> bool" where
  "conversation_ok db row \<longleftrightarrow> cv_status row = Status_OPEN \<and> cv_control_mode row = Mode_AI \<and> 1 \<le> cv_next_sequence_number row
     \<and> map mr_sequence_number (messages_of db (cv_key row)) = [1..cv_next_sequence_number row - 1]"

definition message_ok :: "(bytes \<Rightarrow> string) \<Rightarrow> unprotect_message \<Rightarrow> ConversationDb \<Rightarrow> MessageRow \<Rightarrow> bool" where
  "message_ok digest unprotect db m \<longleftrightarrow> mr_key m \<in> cv_key ` set (cd_conversations db) \<and> mr_status m = COMMITTED
     \<and> mr_sender_kind m \<in> {END_CUSTOMER, ASSISTANT} \<and> readable digest unprotect db m"

definition store_ok :: "(string \<Rightarrow> string) \<Rightarrow> (bytes \<Rightarrow> string) \<Rightarrow> unprotect_message \<Rightarrow> ConversationDb \<Rightarrow> bool" where
  "store_ok sha256 digest unprotect db \<longleftrightarrow> distinct (map cv_key (cd_conversations db)) \<and> distinct (map py_key (cd_payloads db))
     \<and> distinct (map (\<lambda>m. (mr_scope m, mr_message_id m)) (cd_messages db)) \<and> distinct (map client_key (cd_messages db))
     \<and> list_all (conversation_ok db) (cd_conversations db) \<and> list_all (message_ok digest unprotect db) (cd_messages db)
     \<and> list_all (key_answered sha256 digest db) (cd_idempotency db) \<and> list_all (link_answered sha256 db) (cd_idempotency db)
     \<and> map event_view (cd_outbox db) = map message_view (cd_messages db)"

definition entry_of :: "unprotect_message \<Rightarrow> ConversationDb \<Rightarrow> MessageRow \<Rightarrow> Entry" where
  "entry_of unprotect db m = \<lparr> en_messageId = mr_message_id m, en_sender = mr_sender_kind m,
     en_text = (case List.find (\<lambda>p. py_key p = (mr_scope m, mr_payload_id m)) (cd_payloads db) of
        None \<Rightarrow> [] | Some p \<Rightarrow> (case unprotect (toProtectedMessage m p) of Inl _ \<Rightarrow> [] | Inr text \<Rightarrow> text)),
     en_at = mr_created_at m, en_workflow = mr_refund_workflow_id m \<rparr>"

definition store_log :: "unprotect_message \<Rightarrow> ConversationDb \<Rightarrow> conversation_log" where
  "store_log unprotect db key = map_option (\<lambda>row. (cv_subject_customer_id row, map (entry_of unprotect db) (messages_of db key))) (find_conversation db key)"

definition new_store :: ConversationDb where
  "new_store = \<lparr> cd_conversations = [], cd_payloads = [], cd_messages = [], cd_idempotency = [], cd_outbox = [] \<rparr>"

lemma new_store_ok: "store_ok sha256 digest unprotect new_store"
  by (simp add: store_ok_def new_store_def)

section \<open>Reading gives the log\<close>

lemma find_as_filter: "List.find P xs = (case filter P xs of [] \<Rightarrow> None | x # _ \<Rightarrow> Some x)"
  by (induction xs) auto

lemma find_unique:
  assumes "distinct (map f xs)" and "x \<in> set xs" and "f x = k"
  shows "List.find (\<lambda>y. f y = k) xs = Some x" and "filter (\<lambda>y. f y = k) xs = [x]"
proof -
  show "filter (\<lambda>y. f y = k) xs = [x]" using assms by (induction xs) (auto simp: filter_empty_conv image_iff)
  then show "List.find (\<lambda>y. f y = k) xs = Some x" by (simp add: find_as_filter)
qed

lemma toTranscriptMessage_readable:
  assumes "distinct (map py_key (cd_payloads db))" and "readable digest unprotect db m"
  obtains p where "joined_payloads db m = [(m, p)]"
    and "toTranscriptMessage unprotect (m, p) = Inr (numbered_entry (mr_sequence_number m) (entry_of unprotect db m))"
proof -
  from assms(2) obtain p t where p: "p \<in> set (cd_payloads db)" "py_key p = (mr_scope m, mr_payload_id m)"
    and t: "unprotect (toProtectedMessage m p) = Inr t" by (auto simp: readable_def genuine_def)
  note u = find_unique [OF assms(1) p]
  show thesis
    by (rule that [of p]) (simp_all add: joined_payloads_def u t toTranscriptMessage_def entry_of_def numbered_entry_def)
qed

lemma read_messages:
  assumes "distinct (map py_key (cd_payloads db))" and "\<forall>m \<in> set ms. readable digest unprotect db m"
  shows "mapE (toTranscriptMessage unprotect) (concat (map (joined_payloads db) ms))
    = Inr (map (\<lambda>m. numbered_entry (mr_sequence_number m) (entry_of unprotect db m)) ms)"
  using assms(2)
proof (induction ms)
  case (Cons m ms)
  then obtain p where "joined_payloads db m = [(m, p)]"
    and "toTranscriptMessage unprotect (m, p) = Inr (numbered_entry (mr_sequence_number m) (entry_of unprotect db m))"
    using toTranscriptMessage_readable [OF assms(1)] by (metis list.set_intros(1))
  then show ?case using Cons by simp
qed simp

lemma sort_key_sorted: "sorted (map f xs) \<Longrightarrow> sort_key f xs = xs"
  by (simp add: sort_key_id_if_sorted)

lemma find_conversation_SomeD: "find_conversation db key = Some row \<Longrightarrow> row \<in> set (cd_conversations db) \<and> cv_key row = key"
  unfolding find_conversation_def by (rule find_SomeD)

lemma visible_messages_of:
  assumes "store_ok sha256 digest unprotect db"
  shows "filter (visible key) (cd_messages db) = messages_of db key"
  unfolding messages_of_def using assms
  by (intro filter_cong) (auto simp: visible_def store_ok_def message_ok_def list_all_iff)

lemma numbered_messages:
  assumes "map mr_sequence_number ms = [1..int (length ms)]"
  shows "map (\<lambda>m. numbered_entry (mr_sequence_number m) (f m)) ms = numbered (map f ms)"
proof (rule nth_equalityI)
  fix i assume "i < length (map (\<lambda>m. numbered_entry (mr_sequence_number m) (f m)) ms)"
  then have i: "i < length ms" by simp
  then have "mr_sequence_number (ms ! i) = int i + 1" using arg_cong [where f = "\<lambda>xs. xs ! i", OF assms] by simp
  then show "map (\<lambda>m. numbered_entry (mr_sequence_number m) (f m)) ms ! i = numbered (map f ms) ! i"
    using i by (simp add: nth_numbered)
qed simp

lemma conversation_sequence:
  assumes "store_ok sha256 digest unprotect db" and "find_conversation db key = Some row"
  shows "map mr_sequence_number (messages_of db key) = [1..int (length (messages_of db key))]"
    and "cv_next_sequence_number row = int (length (messages_of db key)) + 1"
proof -
  from find_conversation_SomeD [OF assms(2)] have "conversation_ok db row" and key: "cv_key row = key"
    using assms(1) by (simp_all add: store_ok_def list_all_iff)
  then have seq: "map mr_sequence_number (messages_of db key) = [1..cv_next_sequence_number row - 1]" and pos: "1 \<le> cv_next_sequence_number row"
    by (simp_all add: conversation_ok_def)
  from arg_cong [where f = length, OF seq] pos show nxt: "cv_next_sequence_number row = int (length (messages_of db key)) + 1" by simp
  show "map mr_sequence_number (messages_of db key) = [1..int (length (messages_of db key))]" using seq by (simp add: nxt)
qed

lemma read_log:
  assumes "store_ok sha256 digest unprotect db"
  shows "pg_readConversation unprotect db context conversationId =
      (case store_log unprotect db (access_scope_of context, pg_uuid conversationId) of
         None \<Rightarrow> Inl ConversationUnavailableError
       | Some (who, es) \<Rightarrow>
           if who \<noteq> sa_subjectCustomerId context then Inl ConversationUnavailableError
           else Inr \<lparr> cn_conversationId = conversationId, cn_status = Status_OPEN, cn_controlMode = Mode_AI, ct_messages = numbered es \<rparr>)"
proof (cases "find_conversation db (access_scope_of context, pg_uuid conversationId)")
  case None
  then show ?thesis by (simp add: pg_readConversation_def store_log_def)
next
  case (Some row)
  let ?key = "(access_scope_of context, pg_uuid conversationId)"
  note seq = conversation_sequence(1) [OF assms Some]
  have "conversation_ok db row" using find_conversation_SomeD [OF Some] assms by (simp add: store_ok_def list_all_iff)
  then have opened: "cv_status row = Status_OPEN" "cv_control_mode row = Mode_AI" by (simp_all add: conversation_ok_def)
  have readable: "\<forall>m \<in> set (messages_of db ?key). readable digest unprotect db m" and distinct: "distinct (map py_key (cd_payloads db))"
    using assms by (auto simp: store_ok_def message_ok_def messages_of_def list_all_iff)
  have "mapE (toTranscriptMessage unprotect) (concat (map (joined_payloads db) (messages_of db ?key)))
      = Inr (numbered (map (entry_of unprotect db) (messages_of db ?key)))"
    unfolding read_messages [OF distinct readable] numbered_messages [OF seq, where f = "entry_of unprotect db"] ..
  moreover have "sort_key mr_sequence_number (messages_of db ?key) = messages_of db ?key" by (rule sort_key_sorted) (simp add: seq)
  ultimately show ?thesis
    using Some opened by (simp add: pg_readConversation_def store_log_def visible_messages_of [OF assms])
qed


section \<open>Appending keeps the invariant and extends the log\<close>

definition message_key_row :: "AppendMessageRecord \<Rightarrow> AppendMessageOptions \<Rightarrow> string \<Rightarrow> int \<Rightarrow> KeyRow" where
  "message_key_row r opt m n = \<lparr> ky_scope = access_scope_of (am_context r), ky_operation = ao_operation opt, ky_resource_scope = am_conversationId r,
     ky_idempotency_key = am_idempotencyKey r, ky_canonical_request_hash = am_canonicalRequestHash r, ky_result_json = message_result m n, ky_created_at = am_occurredAt r \<rparr>"

definition with_message :: "ConversationDb \<Rightarrow> AppendMessageRecord \<Rightarrow> AppendMessageOptions \<Rightarrow> int \<Rightarrow> ConversationDb" where
  "with_message db r opt n = \<lparr> cd_conversations = map (\<lambda>c. if cv_key c = am_key r then advance (am_occurredAt r) c else c) (cd_conversations db),
     cd_payloads = cd_payloads db @ [payload_row r], cd_messages = cd_messages db @ [message_row r opt n],
     cd_idempotency = cd_idempotency db @ [message_key_row r opt (am_messageId r) n], cd_outbox = cd_outbox db @ [event_row r opt n] \<rparr>"

lemma insertIdempotencyResult_Inr:
  "insertIdempotencyResult db sc operation resourceScope key hash result at = Inr db' \<longleftrightarrow>
     findIdempotencyResult db sc operation resourceScope key = None
     \<and> db' = db\<lparr> cd_idempotency := cd_idempotency db @ [\<lparr> ky_scope = sc, ky_operation = operation, ky_resource_scope = resourceScope,
        ky_idempotency_key = key, ky_canonical_request_hash = hash, ky_result_json = result, ky_created_at = at \<rparr>] \<rparr>"
  by (auto simp: insertIdempotencyResult_def)

lemma remember_message_Inr:
  "remember_message r opt m n db = Inr db' \<longleftrightarrow>
     findIdempotencyResult db (access_scope_of (am_context r)) (ao_operation opt) (am_conversationId r) (am_idempotencyKey r) = None
     \<and> db' = db\<lparr> cd_idempotency := cd_idempotency db @ [message_key_row r opt m n] \<rparr>"
  by (simp add: remember_message_def insertIdempotencyResult_Inr message_key_row_def)

lemma store_message_Inr:
  assumes "store_message db r opt row = Inr (db', result)"
  defines "n \<equiv> cv_next_sequence_number row"
  shows "result = Accepted (am_messageId r) n" and "db' = with_message db r opt n" and "isSafeInteger n" and "1 \<le> n"
    and "py_key (payload_row r) \<notin> py_key ` set (cd_payloads db)"
    and "\<forall>x \<in> set (cd_messages db). (mr_scope x, mr_message_id x) \<noteq> (access_scope_of (am_context r), am_messageId r)"
    and "mr_content_length (message_row r opt n) \<le> 32768"
    and "client_key (message_row r opt n) \<notin> client_key ` set (cd_messages db)"
  using assms(1)
  by (auto simp: store_message_def result_simps split_beta allocate_sequence_def insert_payload_def insert_message_def insert_event_def
      remember_message_Inr with_message_def message_row_def client_key_def Let_def simp flip: n_def split: if_splits)

text \<open>The ways \<^verbatim>\<open>appendMessage\<close> succeeds.\<close>

lemma pg_appendMessage_cases:
  assumes "pg_appendMessage db r opt = Inr (db', result)"
  obtains row where "find_conversation db (am_key r) = Some row" and "cv_status row = Status_OPEN" and "cv_subject_customer_id row = sa_subjectCustomerId (am_context r)"
    and "findIdempotencyResult db (access_scope_of (am_context r)) (ao_operation opt) (am_conversationId r) (am_idempotencyKey r) = None"
    and "List.find (same_client_message r opt) (cd_messages db) = None" and "store_message db r opt row = Inr (db', result)"
  | row k m n where "find_conversation db (am_key r) = Some row" and "cv_status row = Status_OPEN" and "cv_subject_customer_id row = sa_subjectCustomerId (am_context r)"
    and "findIdempotencyResult db (access_scope_of (am_context r)) (ao_operation opt) (am_conversationId r) (am_idempotencyKey r) = Some k"
    and "ky_canonical_request_hash k = am_canonicalRequestHash r" and "parseMessageResult (ky_result_json k) = Inr (m, n)"
    and "db' = db" and "result = DuplicateMessage m n"
  | row x where "find_conversation db (am_key r) = Some row" and "cv_status row = Status_OPEN" and "cv_subject_customer_id row = sa_subjectCustomerId (am_context r)"
    and "findIdempotencyResult db (access_scope_of (am_context r)) (ao_operation opt) (am_conversationId r) (am_idempotencyKey r) = None"
    and "List.find (same_client_message r opt) (cd_messages db) = Some x" and "mr_content_sha256 x = pm_plaintextSha256 (am_protectedMessage r)"
    and "db' = db\<lparr> cd_idempotency := cd_idempotency db @ [message_key_row r opt (mr_message_id x) (mr_sequence_number x)] \<rparr>"
    and "result = DuplicateMessage (mr_message_id x) (mr_sequence_number x)"
proof -
  from assms obtain row where row: "find_conversation db (am_key r) = Some row" "cv_status row = Status_OPEN" "cv_subject_customer_id row = sa_subjectCustomerId (am_context r)"
    by (auto simp: pg_appendMessage_def split: option.splits if_splits)
  show thesis
  proof (cases "findIdempotencyResult db (access_scope_of (am_context r)) (ao_operation opt) (am_conversationId r) (am_idempotencyKey r)")
    case (Some k)
    with assms row have "ky_canonical_request_hash k = am_canonicalRequestHash r"
      and "\<exists>m n. parseMessageResult (ky_result_json k) = Inr (m, n) \<and> db' = db \<and> result = DuplicateMessage m n"
      by (auto simp: pg_appendMessage_def result_simps ensureMatchingRequest_def split_beta)
    with that(2) [OF row Some] show thesis by blast
  next
    case None
    show thesis
    proof (cases "List.find (same_client_message r opt) (cd_messages db)")
      case none: None
      with assms row None have "store_message db r opt row = Inr (db', result)" by (simp add: pg_appendMessage_def)
      with that(1) [OF row None none] show thesis by blast
    next
      case (Some x)
      with assms row None have "mr_content_sha256 x = pm_plaintextSha256 (am_protectedMessage r)"
        and "db' = db\<lparr> cd_idempotency := cd_idempotency db @ [message_key_row r opt (mr_message_id x) (mr_sequence_number x)] \<rparr>"
        and "result = DuplicateMessage (mr_message_id x) (mr_sequence_number x)"
        by (auto simp: pg_appendMessage_def result_simps remember_message_Inr split: if_splits)
      with that(3) [OF row None Some] show thesis by blast
    qed
  qed
qed


lemma advance_simps [simp]: "cv_key (advance at row) = cv_key row" "cv_status (advance at row) = cv_status row"
  "cv_control_mode (advance at row) = cv_control_mode row" "cv_subject_customer_id (advance at row) = cv_subject_customer_id row"
  "cv_next_sequence_number (advance at row) = cv_next_sequence_number row + 1"
  by (simp_all add: advance_def cv_key_def)

lemma message_row_simps [simp]: "mr_key (message_row r opt n) = am_key r" "mr_sequence_number (message_row r opt n) = n"
  "mr_message_id (message_row r opt n) = am_messageId r" "mr_scope (message_row r opt n) = access_scope_of (am_context r)"
  "mr_payload_id (message_row r opt n) = am_payloadId r" "mr_sender_kind (message_row r opt n) = ao_senderKind opt"
  "mr_status (message_row r opt n) = COMMITTED" "mr_refund_workflow_id (message_row r opt n) = None" "mr_created_at (message_row r opt n) = am_occurredAt r"
  "mr_content_sha256 (message_row r opt n) = pm_plaintextSha256 (am_protectedMessage r)" "mr_client_message_id (message_row r opt n) = ao_storedClientMessageId opt"
  by (simp_all add: message_row_def mr_key_def am_key_def)

lemma py_key_payload_row [simp]: "py_key (payload_row r) = (access_scope_of (am_context r), am_payloadId r)"
  by (simp add: py_key_def payload_row_def)

lemma toProtectedMessage_row [simp]: "toProtectedMessage (message_row r opt n) (payload_row r) = am_protectedMessage r"
  by (simp add: toProtectedMessage_def message_row_def payload_row_def)

lemma event_view_row:
  "ao_eventType opt = sender_event (ao_senderKind opt) \<Longrightarrow> event_view (event_row r opt n) = message_view (message_row r opt n)"
  by (simp add: event_view_def message_view_def event_row_def event_payload_def am_key_def get_prop_def)

lemma messages_of_append: "messages_of (db\<lparr> cd_messages := cd_messages db @ [m] \<rparr>) key = messages_of db key @ (if mr_key m = key then [m] else [])"
  by (simp add: messages_of_def)

lemma messages_of_with_message: "messages_of (with_message db r opt n) key = messages_of db key @ (if am_key r = key then [message_row r opt n] else [])"
  by (simp add: messages_of_def with_message_def)

lemma readable_mono:
  "readable digest unprotect db m \<Longrightarrow> set (cd_payloads db) \<subseteq> set (cd_payloads db') \<Longrightarrow> readable digest unprotect db' m"
  unfolding readable_def by blast

lemma key_answered_mono: "key_answered sha256 digest db k \<Longrightarrow> set (cd_messages db) \<subseteq> set (cd_messages db') \<Longrightarrow> key_answered sha256 digest db' k"
  unfolding key_answered_def by blast

lemma link_answered_mono: "link_answered sha256 db k \<Longrightarrow> set (cd_messages db) \<subseteq> set (cd_messages db') \<Longrightarrow> link_answered sha256 db' k"
  unfolding link_answered_def by blast

lemma append_not_link: "append_operation op \<Longrightarrow> op \<noteq> ''conversation.link-refund-workflow''"
  by (auto simp: append_operation_def)

lemma find_advanced:
  "List.find (\<lambda>row. cv_key row = key) (map (\<lambda>c. if cv_key c = k then advance at c else c) rows)
     = map_option (\<lambda>c. if cv_key c = k then advance at c else c) (List.find (\<lambda>row. cv_key row = key) rows)"
  by (induction rows) auto

lemma find_append: "List.find P (xs @ ys) = (case List.find P xs of None \<Rightarrow> List.find P ys | Some x \<Rightarrow> Some x)"
  by (induction xs) auto

lemma with_message_keys: "map cv_key (cd_conversations (with_message db r opt n)) = map cv_key (cd_conversations db)"
  by (simp add: with_message_def)

lemma with_message_key_set: "cv_key ` set (cd_conversations (with_message db r opt n)) = cv_key ` set (cd_conversations db)"
  using arg_cong [where f = set, OF with_message_keys] by simp

lemma entry_of_mono:
  assumes "readable digest unprotect db m" and "cd_payloads db' = cd_payloads db @ ps"
  shows "entry_of unprotect db' m = entry_of unprotect db m"
proof -
  have "List.find (\<lambda>p. py_key p = (mr_scope m, mr_payload_id m)) (cd_payloads db) \<noteq> None"
    using assms(1) by (auto simp: readable_def find_None_conv)
  then show ?thesis by (auto simp: entry_of_def assms(2) find_append)
qed

lemma safe_upto: "1 \<le> n \<Longrightarrow> [1..n - 1] @ [n] = [1..n]" for n :: int
  by (simp add: upto_rec2)

lemma with_message_conversations:
  assumes "store_ok sha256 digest unprotect db" and "find_conversation db (am_key r) = Some row" and "c \<in> set (cd_conversations (with_message db r opt (cv_next_sequence_number row)))"
  shows "conversation_ok (with_message db r opt (cv_next_sequence_number row)) c"
proof -
  let ?n = "cv_next_sequence_number row"
  from assms(3) obtain c0 where c0: "c0 \<in> set (cd_conversations db)" and c: "c = (if cv_key c0 = am_key r then advance (am_occurredAt r) c0 else c0)"
    by (auto simp: with_message_def)
  have ok: "conversation_ok db c0" and distinct: "distinct (map cv_key (cd_conversations db))" using assms(1) c0 by (simp_all add: store_ok_def list_all_iff)
  show ?thesis
  proof (cases "cv_key c0 = am_key r")
    case True
    have "c0 = row" using assms(2) find_unique(1) [OF distinct c0 True] by (simp add: find_conversation_def)
    then show ?thesis using ok c True by (simp add: conversation_ok_def messages_of_with_message safe_upto)
  next
    case False
    then show ?thesis using ok c by (simp add: conversation_ok_def messages_of_with_message)
  qed
qed

lemma with_message_ok:
  assumes ok: "store_ok sha256 digest unprotect db" and row: "find_conversation db (am_key r) = Some row" and stored: "store_message db r opt row = Inr (db', result)"
    and faithful: "faithful_request sha256 digest unprotect r words" and opt: "ao_senderKind opt \<in> {END_CUSTOMER, ASSISTANT}" "ao_eventType opt = sender_event (ao_senderKind opt)" "append_operation (ao_operation opt)"
  shows "store_ok sha256 digest unprotect db'"
proof -
  define n where "n = cv_next_sequence_number row"
  note facts = store_message_Inr [OF stored, folded n_def]
  have db': "db' = with_message db r opt n" by (rule facts(2))
  have genuine: "genuine digest unprotect (am_protectedMessage r) words" using faithful by (simp add: faithful_request_def)
  have known: "am_key r \<in> cv_key ` set (cd_conversations db)" using find_conversation_SomeD [OF row] by (metis imageI)
  have new: "message_ok digest unprotect db' (message_row r opt n)"
    using known genuine opt(1) facts(7) unfolding message_ok_def readable_def db' with_message_key_set by (auto simp: with_message_def)
  have "\<forall>m \<in> set (cd_messages db). message_ok digest unprotect db' m"
  proof
    fix m assume "m \<in> set (cd_messages db)"
    then have "message_ok digest unprotect db m" using ok by (simp add: store_ok_def list_all_iff)
    then show "message_ok digest unprotect db' m"
      unfolding message_ok_def db' with_message_key_set by (auto simp: with_message_def elim!: readable_mono)
  qed
  then have "list_all (message_ok digest unprotect db') (cd_messages db')" using new by (simp add: list_all_iff db' with_message_def)
  moreover have "list_all (key_answered sha256 digest db') (cd_idempotency db')"
  proof -
    from faithful obtain c where "am_canonicalRequestHash r = canonical_message sha256 c words" "pm_plaintextSha256 (am_protectedMessage r) = digest (utf8_bytes words)"
      by (auto simp: faithful_request_def genuine_def)
    then have "key_answered sha256 digest db' (message_key_row r opt (am_messageId r) n)" unfolding key_answered_def
      by (intro impI bexI [of _ "message_row r opt n"] exI [of _ c] exI [of _ words]) (simp_all add: db' with_message_def message_key_row_def am_key_def)
    then show ?thesis using ok by (auto simp: store_ok_def list_all_iff db' with_message_def elim!: key_answered_mono)
  qed
  moreover have "list_all (link_answered sha256 db') (cd_idempotency db')"
    using ok append_not_link [OF opt(3)] by (auto simp: store_ok_def list_all_iff db' with_message_def link_answered_def message_key_row_def)
  moreover have "list_all (conversation_ok db') (cd_conversations db')"
    using with_message_conversations [OF ok row, of _ opt] by (simp add: list_all_iff db' n_def)
  moreover have "map cv_key (cd_conversations db') = map cv_key (cd_conversations db)" unfolding db' by (rule with_message_keys)
  moreover have "map event_view (cd_outbox db') = map message_view (cd_messages db')"
    using ok event_view_row [OF opt(2)] by (simp add: store_ok_def db' with_message_def)
  moreover have "distinct (map py_key (cd_payloads db'))" using ok facts(5) by (auto simp: store_ok_def db' with_message_def)
  moreover have "distinct (map (\<lambda>m. (mr_scope m, mr_message_id m)) (cd_messages db'))" using ok facts(6) by (auto simp: store_ok_def db' with_message_def)
  moreover have "distinct (map client_key (cd_messages db'))" using ok facts(8) by (auto simp: store_ok_def db' with_message_def)
  ultimately show ?thesis using ok by (simp only: store_ok_def)
qed


lemma with_message_log:
  assumes ok: "store_ok sha256 digest unprotect db" and row: "find_conversation db (am_key r) = Some row" and stored: "store_message db r opt row = Inr (db', result)"
    and genuine: "genuine digest unprotect (am_protectedMessage r) text"
  shows "\<exists>es. store_log unprotect db (am_key r) = Some (cv_subject_customer_id row, es) \<and> result = Accepted (am_messageId r) (int (length es) + 1)
     \<and> store_log unprotect db' = (store_log unprotect db)(am_key r \<mapsto> (cv_subject_customer_id row, es @ [new_entry r (ao_senderKind opt) text]))"
proof -
  define n where "n = cv_next_sequence_number row"
  note facts = store_message_Inr [OF stored, folded n_def]
  have db': "db' = with_message db r opt n" by (rule facts(2))
  have payloads: "cd_payloads db' = cd_payloads db @ [payload_row r]" by (simp add: db' with_message_def)
  have old: "map (entry_of unprotect db') (messages_of db key) = map (entry_of unprotect db) (messages_of db key)" for key
    using ok by (intro map_cong refl entry_of_mono [OF _ payloads]) (auto simp: store_ok_def message_ok_def messages_of_def list_all_iff)
  have "List.find (\<lambda>p. py_key p = (access_scope_of (am_context r), am_payloadId r)) (cd_payloads db) = None"
    using facts(5) unfolding find_None_conv py_key_payload_row by (metis imageI)
  then have new: "entry_of unprotect db' (message_row r opt n) = new_entry r (ao_senderKind opt) text"
    using genuine by (simp add: entry_of_def new_entry_def payloads find_append genuine_def)
  have found: "find_conversation db' key = map_option (\<lambda>c. if cv_key c = am_key r then advance (am_occurredAt r) c else c) (find_conversation db key)" for key
    by (simp add: find_conversation_def db' with_message_def find_advanced)
  have "store_log unprotect db' key = ((store_log unprotect db)(am_key r \<mapsto> (cv_subject_customer_id row,
      map (entry_of unprotect db) (messages_of db (am_key r)) @ [new_entry r (ao_senderKind opt) text]))) key" for key
  proof (cases "key = am_key r")
    case True
    moreover have "messages_of db' (am_key r) = messages_of db (am_key r) @ [message_row r opt n]" by (simp add: db' messages_of_with_message)
    ultimately show ?thesis using row find_conversation_SomeD [OF row] by (simp add: store_log_def found old new)
  next
    case False
    then have "messages_of db' key = messages_of db key" by (simp add: db' messages_of_with_message)
    then show ?thesis using False find_conversation_SomeD [of db key]
      by (cases "find_conversation db key") (auto simp: store_log_def found old)
  qed
  then show ?thesis using row facts(1) conversation_sequence(2) [OF ok row] by (auto simp: store_log_def n_def)
qed


lemma message_position:
  assumes "store_ok sha256 digest unprotect db" and "find_conversation db key = Some row" and "m \<in> set (cd_messages db)" and "mr_key m = key"
  obtains i where "i < length (messages_of db key)" and "messages_of db key ! i = m" and "mr_sequence_number m = int i + 1"
proof -
  have "m \<in> set (messages_of db key)" using assms(3, 4) by (simp add: messages_of_def)
  then obtain i where i: "i < length (messages_of db key)" "messages_of db key ! i = m" by (auto simp: in_set_conv_nth)
  have "mr_sequence_number m = int i + 1" using arg_cong [where f = "\<lambda>xs. xs ! i", OF conversation_sequence(1) [OF assms(1, 2)]] i by simp
  with i show thesis by (rule that)
qed

lemma entry_digest:
  assumes "store_ok sha256 digest unprotect db" and "m \<in> set (cd_messages db)"
  shows "mr_content_sha256 m = digest (utf8_bytes (en_text (entry_of unprotect db m)))"
proof -
  from assms have "readable digest unprotect db m" and distinct: "distinct (map py_key (cd_payloads db))"
    by (simp_all add: store_ok_def message_ok_def list_all_iff)
  then obtain p t where p: "p \<in> set (cd_payloads db)" "py_key p = (mr_scope m, mr_payload_id m)" and t: "genuine digest unprotect (toProtectedMessage m p) t"
    by (auto simp: readable_def)
  show ?thesis using t by (simp add: entry_of_def find_unique(1) [OF distinct p] genuine_def) (simp add: toProtectedMessage_def)
qed

lemma store_holds_message:
  assumes "store_ok sha256 digest unprotect db" and "find_conversation db key = Some row" and "m \<in> set (cd_messages db)" and "mr_key m = key"
    and "collision_free sha256 digest \<Longrightarrow> mr_content_sha256 m = digest (utf8_bytes words)"
  shows "holds_message sha256 digest (store_log unprotect db) key (cv_subject_customer_id row) (mr_message_id m) (mr_sequence_number m) words"
proof -
  obtain i where i: "i < length (messages_of db key)" "messages_of db key ! i = m" "mr_sequence_number m = int i + 1"
    using message_position [OF assms(1-4)] by blast
  have "en_text (entry_of unprotect db m) = words" if "collision_free sha256 digest"
    using assms(5) [OF that] entry_digest [OF assms(1, 3)] that by (auto simp: collision_free_def utf8_bytes_inject dest!: injD)
  then show ?thesis using assms(2) i by (auto simp: holds_message_def store_log_def entry_of_def [where m = m])
qed

lemma same_tables:
  assumes "cd_payloads db' = cd_payloads db" and "cd_messages db' = cd_messages db"
  shows "entry_of unprotect db' = entry_of unprotect db" and "messages_of db' = messages_of db"
    and "readable digest unprotect db' = readable digest unprotect db" and "key_answered sha256 digest db' = key_answered sha256 digest db" and "link_answered sha256 db' = link_answered sha256 db" and "conversation_ok db' = conversation_ok db"
  using assms by (simp_all add: fun_eq_iff entry_of_def messages_of_def readable_def key_answered_def link_answered_def conversation_ok_def)

lemma idempotency_only_ok:
  assumes "store_ok sha256 digest unprotect db" and "key_answered sha256 digest db k" and "link_answered sha256 db k"
  shows "store_ok sha256 digest unprotect (db\<lparr> cd_idempotency := cd_idempotency db @ [k] \<rparr>)"
    and "store_log unprotect (db\<lparr> cd_idempotency := cd_idempotency db @ [k] \<rparr>) = store_log unprotect db"
proof -
  let ?db = "db\<lparr> cd_idempotency := cd_idempotency db @ [k] \<rparr>"
  have tables: "cd_payloads ?db = cd_payloads db" "cd_messages ?db = cd_messages db" by simp_all
  note views = same_tables [OF tables]
  have "message_ok digest unprotect ?db = message_ok digest unprotect db" by (simp add: fun_eq_iff message_ok_def views)
  then show "store_ok sha256 digest unprotect ?db" using assms by (simp add: store_ok_def views)
  show "store_log unprotect ?db = store_log unprotect db" by (rule ext) (simp add: store_log_def views find_conversation_def)
qed

lemma findIdempotencyResult_SomeD:
  "findIdempotencyResult db sc operation resourceScope key = Some k \<Longrightarrow> k \<in> set (cd_idempotency db) \<and> ky_scope k = sc \<and> ky_operation k = operation
     \<and> ky_resource_scope k = resourceScope \<and> ky_idempotency_key k = key"
  by (auto simp: findIdempotencyResult_def ky_key_def dest: find_SomeD)

lemma parse_message_result [simp]: "parseMessageResult (message_result m n) = Inr (m, n)"
  by (simp add: parseMessageResult_def message_result_def get_prop_def)

lemma pg_appendMessage_duplicate:
  assumes ok: "store_ok sha256 digest unprotect db" and run: "pg_appendMessage db r opt = Inr (db', DuplicateMessage m n)"
    and faithful: "faithful_request sha256 digest unprotect r words" and op: "append_operation (ao_operation opt)"
  shows "store_ok sha256 digest unprotect db' \<and> store_log unprotect db' = store_log unprotect db
     \<and> holds_message sha256 digest (store_log unprotect db) (am_key r) (sa_subjectCustomerId (am_context r)) m n words"
  using run
proof (cases rule: pg_appendMessage_cases)
  case (1 row)
  then show ?thesis using store_message_Inr(1) by fastforce
next
  case (2 row k m' n')
  from findIdempotencyResult_SomeD [OF 2(4)] obtain x c t where x: "x \<in> set (cd_messages db)" "mr_key x = am_key r"
      and k: "ky_result_json k = message_result (mr_message_id x) (mr_sequence_number x)"
      "ky_canonical_request_hash k = canonical_message sha256 c t" "mr_content_sha256 x = digest (utf8_bytes t)"
    using ok op by (auto simp: store_ok_def list_all_iff key_answered_def am_key_def)
  have "mr_content_sha256 x = digest (utf8_bytes words)" if "collision_free sha256 digest"
  proof -
    from faithful obtain c' where "am_canonicalRequestHash r = canonical_message sha256 c' words" by (auto simp: faithful_request_def)
    then have "canonical_message sha256 c t = canonical_message sha256 c' words" using 2(5) k(2) by simp
    then show ?thesis using canonical_message_inject that k(3) by (metis collision_free_def)
  qed
  from store_holds_message [OF ok 2(1) x this] show ?thesis using 2 ok k(1) by auto
next
  case (3 row x)
  from find_SomeD [OF 3(5)] have x: "x \<in> set (cd_messages db)" "mr_key x = am_key r" by (simp_all add: same_client_message_def)
  have digest: "mr_content_sha256 x = digest (utf8_bytes words)" using faithful 3(6) by (simp add: faithful_request_def genuine_def)
  have "key_answered sha256 digest db (message_key_row r opt (mr_message_id x) (mr_sequence_number x))"
    using x digest faithful by (auto simp: key_answered_def message_key_row_def am_key_def faithful_request_def)
  moreover have "link_answered sha256 db (message_key_row r opt (mr_message_id x) (mr_sequence_number x))"
    using append_not_link [OF op] by (simp add: link_answered_def message_key_row_def)
  ultimately show ?thesis using store_holds_message [OF ok 3(1) x digest] 3 idempotency_only_ok [OF ok] by simp
qed

lemma pg_appendMessage_new:
  assumes ok: "store_ok sha256 digest unprotect db" and run: "pg_appendMessage db r opt = Inr (db', Accepted m n)"
    and faithful: "faithful_request sha256 digest unprotect r words" and opt: "ao_senderKind opt \<in> {END_CUSTOMER, ASSISTANT}" "ao_eventType opt = sender_event (ao_senderKind opt)" "append_operation (ao_operation opt)"
  shows "store_ok sha256 digest unprotect db' \<and> m = am_messageId r \<and> (\<exists>es. store_log unprotect db (am_key r) = Some (sa_subjectCustomerId (am_context r), es) \<and> n = int (length es) + 1
     \<and> store_log unprotect db' = (store_log unprotect db)(am_key r \<mapsto> (sa_subjectCustomerId (am_context r), es @ [new_entry r (ao_senderKind opt) words])))"
  using run
proof (cases rule: pg_appendMessage_cases)
  case (1 row)
  have genuine: "genuine digest unprotect (am_protectedMessage r) words" using faithful by (simp add: faithful_request_def)
  show ?thesis using with_message_ok [OF ok 1(1, 6) faithful opt] with_message_log [OF ok 1(1, 6) genuine] 1(3) by auto
qed simp_all

section \<open>Creating and linking\<close>

lemma pg_createConversation_new:
  assumes ok: "store_ok sha256 digest unprotect db" and run: "pg_createConversation db r = Inr (db', Created c)"
    and key: "key = ((ac_tenantId (cc_context r), ac_environmentId (cc_context r)), c)"
  shows "store_ok sha256 digest unprotect db' \<and> c = cc_conversationId r \<and> store_log unprotect db key = None
     \<and> store_log unprotect db' = (store_log unprotect db)(key \<mapsto> (ac_subjectCustomerId (cc_context r), []))"
proof -
  let ?sc = "(ac_tenantId (cc_context r), ac_environmentId (cc_context r))"
  from run obtain k row where c: "c = cc_conversationId r" and fresh: "key \<notin> cv_key ` set (cd_conversations db)"
      and db': "db' = db\<lparr> cd_idempotency := cd_idempotency db @ [k], cd_conversations := cd_conversations db @ [row] \<rparr>"
      and k: "\<not> append_operation (ky_operation k)" "ky_operation k \<noteq> ''conversation.link-refund-workflow''"
      and row: "cv_key row = key" "cv_status row = Status_OPEN" "cv_control_mode row = Mode_AI" "cv_next_sequence_number row = 1" "cv_subject_customer_id row = ac_subjectCustomerId (cc_context r)"
    by (auto simp: pg_createConversation_def insertIdempotencyResult_Inr result_simps Let_def cv_key_def append_operation_def key split: sum.splits if_splits)
  have none: "messages_of db key = []" using ok fresh by (auto simp: messages_of_def filter_empty_conv store_ok_def message_ok_def list_all_iff)
  have missing: "find_conversation db key = None" using fresh by (auto simp: find_conversation_def find_None_conv)
  have tables: "cd_payloads db' = cd_payloads db" "cd_messages db' = cd_messages db" "cd_outbox db' = cd_outbox db"
    "cd_conversations db' = cd_conversations db @ [row]" "cd_idempotency db' = cd_idempotency db @ [k]" by (simp_all add: db')
  note views = same_tables [OF tables(1, 2)]
  have "conversation_ok db row" using row none by (simp add: conversation_ok_def)
  moreover have "message_ok digest unprotect db' m" if "message_ok digest unprotect db m" for m
    using that by (auto simp: message_ok_def views tables(4))
  ultimately have "store_ok sha256 digest unprotect db'"
    using ok fresh row(1) k by (auto simp: store_ok_def list_all_iff tables views key_answered_def link_answered_def)
  moreover have "store_log unprotect db' x = ((store_log unprotect db)(key \<mapsto> (ac_subjectCustomerId (cc_context r), []))) x" for x
    using none missing row by (auto simp: store_log_def views find_conversation_def tables(4) find_append split: option.splits)
  ultimately show ?thesis using c missing by (auto simp: store_log_def)
qed


lemma pg_createConversation_duplicate: "pg_createConversation db r = Inr (db', DuplicateConversation c) \<Longrightarrow> db' = db"
  by (auto simp: pg_createConversation_def result_simps Let_def split: sum.splits if_splits)

lemma set_link_simps [simp]: "mr_key (set_link r m) = mr_key m" "mr_sequence_number (set_link r m) = mr_sequence_number m"
  "mr_message_id (set_link r m) = mr_message_id m" "mr_scope (set_link r m) = mr_scope m" "mr_status (set_link r m) = mr_status m"
  "mr_sender_kind (set_link r m) = mr_sender_kind m" "mr_payload_id (set_link r m) = mr_payload_id m" "mr_content_length (set_link r m) = mr_content_length m"
  "mr_created_at (set_link r m) = mr_created_at m" "toProtectedMessage (set_link r m) p = toProtectedMessage m p" "message_view (set_link r m) = message_view m"
  "mr_client_message_id (set_link r m) = mr_client_message_id m" "mr_content_sha256 (set_link r m) = mr_content_sha256 m" "client_key (set_link r m) = client_key m"
  by (simp_all add: client_key_def set_link_def mr_key_def toProtectedMessage_def message_view_def)

lemma linked_ok:
  assumes ok: "store_ok sha256 digest unprotect db" and db': "db' = db\<lparr> cd_messages := map (set_link r) (cd_messages db), cd_idempotency := cd_idempotency db @ [k] \<rparr>"
    and k: "\<not> append_operation (ky_operation k)" "link_answered sha256 db' k"
    and m: "m \<in> set (cd_messages db)" "linkable r m" and none: "mr_refund_workflow_id m = None"
  shows "store_ok sha256 digest unprotect db'"
proof -
  have untouched: "set_link r x = x" if "x \<in> set (cd_messages db)" and "mr_refund_workflow_id x \<noteq> None" for x
  proof (rule ccontr)
    assume "set_link r x \<noteq> x"
    then have "mr_key x = mr_key m" "mr_message_id x = mr_message_id m" using m(2) by (simp_all add: set_link_def linkable_def split: if_splits)
    then have "(mr_scope x, mr_message_id x) = (mr_scope m, mr_message_id m)" by (simp add: mr_key_def)
    moreover have "distinct (map (\<lambda>m. (mr_scope m, mr_message_id m)) (cd_messages db))" using ok by (simp add: store_ok_def)
    ultimately have "x = m" using that(1) m(1) by (auto simp: distinct_map inj_on_def)
    then show False using that(2) none by simp
  qed
  then have "link_answered sha256 db' x" if "link_answered sha256 db x" for x
    using that unfolding link_answered_def db' by (fastforce intro: rev_image_eqI)
  moreover have seq: "map mr_sequence_number (messages_of db' key) = map mr_sequence_number (messages_of db key)" for key
    by (simp add: db' messages_of_def filter_map comp_def)
  then have "conversation_ok db' = conversation_ok db" by (simp add: fun_eq_iff conversation_ok_def)
  moreover have "message_ok digest unprotect db' (set_link r m) = message_ok digest unprotect db m" for m
    by (simp add: message_ok_def readable_def db')
  moreover have "key_answered sha256 digest db' x" if "key_answered sha256 digest db x" for x
    using that by (fastforce simp: key_answered_def db')
  moreover have "key_answered sha256 digest db' k" using k(1) by (simp add: key_answered_def)
  moreover have "cd_conversations db' = cd_conversations db" "cd_payloads db' = cd_payloads db" "cd_outbox db' = cd_outbox db"
    "cd_messages db' = map (set_link r) (cd_messages db)" "cd_idempotency db' = cd_idempotency db @ [k]" by (simp_all add: db')
  ultimately show ?thesis using ok k(2) by (simp add: store_ok_def list_all_iff comp_def)
qed

lemma linked_log:
  assumes ok: "store_ok sha256 digest unprotect db" and db': "db' = db\<lparr> cd_messages := map (set_link r) (cd_messages db), cd_idempotency := cd_idempotency db @ [k] \<rparr>"
    and m: "m \<in> set (cd_messages db)" "linkable r m" and none: "mr_refund_workflow_id m = None" and row: "find_conversation db (lr_key r) = Some row"
  shows "\<exists>es i. store_log unprotect db (lr_key r) = Some (cv_subject_customer_id row, es) \<and> i < length es
     \<and> en_messageId (es ! i) = pg_uuid (lr_messageId r) \<and> en_sender (es ! i) = ASSISTANT \<and> en_workflow (es ! i) = None
     \<and> store_log unprotect db' = (store_log unprotect db)(lr_key r \<mapsto> (cv_subject_customer_id row, es[i := (es ! i)\<lparr> en_workflow := Some (lr_workflowId r) \<rparr>]))"
proof -
  define ms where "ms = messages_of db (lr_key r)"
  let ?es = "map (entry_of unprotect db) ms"
  have m': "mr_key m = lr_key r" "mr_message_id m = pg_uuid (lr_messageId r)" "mr_sender_kind m = ASSISTANT" using m(2) by (simp_all add: linkable_def)
  obtain i where i: "i < length ms" "ms ! i = m" using message_position [OF ok row m(1) m'(1)] unfolding ms_def by blast
  have "distinct (map (\<lambda>m. (mr_scope m, mr_message_id m)) ms)" using ok unfolding ms_def messages_of_def store_ok_def by (simp add: distinct_map_filter)
  then have apart: "(mr_scope (ms ! j), mr_message_id (ms ! j)) = (mr_scope (ms ! i), mr_message_id (ms ! i)) \<longleftrightarrow> j = i" if "j < length ms" for j
    using that i(1) by (metis (mono_tags, lifting) length_map nth_eq_iff_index_eq nth_map)
  have at: "mr_key (ms ! j) = lr_key r" if "j < length ms" for j using nth_mem [OF that] by (auto simp: ms_def messages_of_def)
  then have only: "mr_message_id (ms ! j) = pg_uuid (lr_messageId r) \<longleftrightarrow> j = i" if "j < length ms" for j
    using apart [OF that] that i m' by (metis mr_key_def prod.inject)
  have entry: "entry_of unprotect db' (set_link r x) = (if mr_key x = lr_key r \<and> mr_message_id x = pg_uuid (lr_messageId r)
      then (entry_of unprotect db x)\<lparr> en_workflow := Some (lr_workflowId r) \<rparr> else entry_of unprotect db x)" for x
    by (simp add: entry_of_def db' cong: option.case_cong) (simp add: set_link_def)
  have messages: "messages_of db' key = map (set_link r) (messages_of db key)" for key by (simp add: db' messages_of_def filter_map comp_def)
  have found: "find_conversation db' = find_conversation db" by (simp add: fun_eq_iff find_conversation_def db')
  have es: "map (entry_of unprotect db') (messages_of db' (lr_key r)) = ?es[i := (?es ! i)\<lparr> en_workflow := Some (lr_workflowId r) \<rparr>]"
    by (rule nth_equalityI) (auto simp: messages nth_list_update only at entry simp flip: ms_def)
  have "store_log unprotect db' key = ((store_log unprotect db)(lr_key r \<mapsto> (cv_subject_customer_id row, ?es[i := (?es ! i)\<lparr> en_workflow := Some (lr_workflowId r) \<rparr>]))) key" for key
  proof (cases "key = lr_key r")
    case True
    then show ?thesis using row es by (simp add: store_log_def found)
  next
    case False
    then have "map (entry_of unprotect db') (messages_of db' key) = map (entry_of unprotect db) (messages_of db key)"
      unfolding messages by (auto simp: messages_of_def entry)
    then show ?thesis using False by (simp add: store_log_def found)
  qed
  moreover have "entry_of unprotect db m = ?es ! i" using i by simp
  ultimately show ?thesis using row i m' none
    by (intro exI [of _ ?es] exI [of _ i]) (auto simp: store_log_def ms_def entry_of_def)
qed

definition link_key_row :: "LinkRefundWorkflowRecord \<Rightarrow> KeyRow" where
  "link_key_row r = \<lparr> ky_scope = access_scope_of (lr_context r), ky_operation = ''conversation.link-refund-workflow'', ky_resource_scope = lr_conversationId r,
     ky_idempotency_key = lr_idempotencyKey r, ky_canonical_request_hash = lr_canonicalRequestHash r,
     ky_result_json = JObj [(''workflowId'', JStr (lr_workflowId r))], ky_created_at = lr_occurredAt r \<rparr>"

lemma remember_link_Inr: "remember_link r db = Inr db' \<Longrightarrow> db' = db\<lparr> cd_idempotency := cd_idempotency db @ [link_key_row r] \<rparr>"
  by (simp add: remember_link_def insertIdempotencyResult_Inr link_key_row_def)

lemma not_append_link [simp]: "\<not> append_operation (ky_operation (link_key_row r))"
  by (simp add: append_operation_def link_key_row_def)

lemma link_row_answered:
  assumes "faithful_link sha256 r" and "m \<in> set (cd_messages db)" and "mr_key m = lr_key r" and "mr_message_id m = pg_uuid (lr_messageId r)"
    and "mr_refund_workflow_id m = Some (lr_workflowId r)"
  shows "link_answered sha256 db (link_key_row r)"
  unfolding link_answered_def
  by (intro impI bexI [OF _ assms(2)] exI [of _ "lr_messageId r"] exI [of _ "lr_workflowId r"])
    (use assms in \<open>simp add: link_key_row_def lr_key_def faithful_link_def\<close>)

lemma pg_linkRefundWorkflow_new:
  assumes ok: "store_ok sha256 digest unprotect db" and faithful: "faithful_link sha256 r" and run: "pg_linkRefundWorkflow db r = Inr (db', Linked w)"
  shows "store_ok sha256 digest unprotect db' \<and> w = lr_workflowId r \<and> (\<exists>es i. store_log unprotect db (lr_key r) = Some (sa_subjectCustomerId (lr_context r), es) \<and> i < length es
     \<and> en_messageId (es ! i) = pg_uuid (lr_messageId r) \<and> en_sender (es ! i) = ASSISTANT \<and> en_workflow (es ! i) = None
     \<and> store_log unprotect db' = (store_log unprotect db)(lr_key r \<mapsto> (sa_subjectCustomerId (lr_context r), es[i := (es ! i)\<lparr> en_workflow := Some w \<rparr>])))"
proof -
  from run obtain m row where m: "List.find (linkable r) (cd_messages db) = Some m" "mr_refund_workflow_id m = None"
      and row: "find_conversation db (lr_key r) = Some row" "cv_subject_customer_id row = sa_subjectCustomerId (lr_context r)" and w: "w = lr_workflowId r"
      and db': "db' = db\<lparr> cd_messages := map (set_link r) (cd_messages db), cd_idempotency := cd_idempotency db @ [link_key_row r] \<rparr>"
    by (auto simp: pg_linkRefundWorkflow_def result_simps split: option.splits if_splits dest!: remember_link_Inr)
  from find_SomeD [OF m(1)] have m': "m \<in> set (cd_messages db)" "linkable r m" by simp_all
  have "link_answered sha256 db' (link_key_row r)"
    by (rule link_row_answered [OF faithful, of "set_link r m"]) (use m' in \<open>simp_all add: db' linkable_def, simp_all add: set_link_def\<close>)
  from linked_ok [OF ok db' not_append_link this m' m(2)] linked_log [OF ok db' m' m(2) row(1)] show ?thesis unfolding w row(2) by blast
qed

lemma parse_link_result [simp]: "parseRefundWorkflowLinkResult (JObj [(''workflowId'', JStr w)]) = Inr w"
  by (simp add: parseRefundWorkflowLinkResult_def get_prop_def)

lemma store_holds_link:
  assumes "store_ok sha256 digest unprotect db" and "m \<in> set (cd_messages db)" and "mr_refund_workflow_id m = Some w"
  shows "holds_link (store_log unprotect db) (mr_key m) (mr_message_id m) w"
proof -
  from assms(1, 2) have "mr_key m \<in> cv_key ` set (cd_conversations db)" by (simp add: store_ok_def list_all_iff message_ok_def)
  then have "find_conversation db (mr_key m) \<noteq> None" by (auto simp: find_conversation_def find_None_conv)
  then obtain row where row: "find_conversation db (mr_key m) = Some row" by blast
  obtain i where "i < length (messages_of db (mr_key m))" "messages_of db (mr_key m) ! i = m" using message_position [OF assms(1) row assms(2) refl] by blast
  then show ?thesis using row assms(3) by (auto simp: holds_link_def store_log_def entry_of_def)
qed

lemma pg_linkRefundWorkflow_duplicate:
  assumes ok: "store_ok sha256 digest unprotect db" and faithful: "faithful_link sha256 r" and run: "pg_linkRefundWorkflow db r = Inr (db', DuplicateLink w)"
  shows "store_ok sha256 digest unprotect db' \<and> store_log unprotect db' = store_log unprotect db
     \<and> (inj sha256 \<longrightarrow> w = lr_workflowId r \<and> holds_link (store_log unprotect db) (lr_key r) (pg_uuid (lr_messageId r)) w)"
proof -
  from run consider
      (again) k where "findIdempotencyResult db (access_scope_of (lr_context r)) ''conversation.link-refund-workflow'' (lr_conversationId r) (lr_idempotencyKey r) = Some k"
        "ky_canonical_request_hash k = lr_canonicalRequestHash r" "parseRefundWorkflowLinkResult (ky_result_json k) = Inr w" "db' = db"
    | (linked) m where "List.find (linkable r) (cd_messages db) = Some m" "mr_refund_workflow_id m = Some w" "w = lr_workflowId r"
        "db' = db\<lparr> cd_idempotency := cd_idempotency db @ [link_key_row r] \<rparr>"
  proof (cases "findIdempotencyResult db (access_scope_of (lr_context r)) ''conversation.link-refund-workflow'' (lr_conversationId r) (lr_idempotencyKey r)")
    case (Some k)
    show thesis by (rule that(1) [OF Some]) (use run Some in \<open>simp_all add: pg_linkRefundWorkflow_def result_simps ensureMatchingRequest_def\<close>)
  next
    case None
    from run None obtain m where "List.find (linkable r) (cd_messages db) = Some m" by (auto simp: pg_linkRefundWorkflow_def split: option.splits)
    from that(2) [OF this] run None this show thesis
      by (auto simp: pg_linkRefundWorkflow_def result_simps split: option.splits if_splits dest!: remember_link_Inr)
  qed
  then show ?thesis
  proof cases
    case (again k)
    note k = findIdempotencyResult_SomeD [OF again(1)]
    with ok have "link_answered sha256 db k" by (simp add: store_ok_def list_all_iff)
    with k obtain m messageId v where m: "m \<in> set (cd_messages db)" "mr_key m = lr_key r" "mr_message_id m = pg_uuid messageId" "mr_refund_workflow_id m = Some v"
        "ky_canonical_request_hash k = canonical_link sha256 messageId v" "ky_result_json k = JObj [(''workflowId'', JStr v)]"
      by (auto simp: link_answered_def lr_key_def)
    have "w = lr_workflowId r \<and> holds_link (store_log unprotect db) (lr_key r) (pg_uuid (lr_messageId r)) w" if "inj sha256"
    proof -
      have "canonical_link sha256 messageId v = canonical_link sha256 (lr_messageId r) (lr_workflowId r)" using again(2) m(5) faithful by (simp add: faithful_link_def)
      from canonical_link_inject [OF that this] show ?thesis using store_holds_link [OF ok m(1, 4)] m again(3) by simp
    qed
    then show ?thesis using again(4) ok by blast
  next
    case (linked m)
    from find_SomeD [OF linked(1)] have m: "m \<in> set (cd_messages db)" "mr_key m = lr_key r" "mr_message_id m = pg_uuid (lr_messageId r)" by (simp_all add: linkable_def)
    have "link_answered sha256 db (link_key_row r)" by (rule link_row_answered [OF faithful m]) (use linked in simp)
    then show ?thesis using linked m store_holds_link [OF ok m(1) linked(2)] idempotency_only_ok [OF ok, of "link_key_row r"] by (simp add: key_answered_def)
  qed
qed

lemma append_options [simp]: "append_operation (ao_operation (customer_options r))" "append_operation (ao_operation (assistant_options r))"
  "ao_senderKind (customer_options r) = END_CUSTOMER" "ao_senderKind (assistant_options r) = ASSISTANT"
  "ao_eventType (customer_options r) = sender_event END_CUSTOMER" "ao_eventType (assistant_options r) = sender_event ASSISTANT"
  by (simp_all add: append_operation_def customer_options_def assistant_options_def sender_event_def)

interpretation store: conversation_repository "postgres_repository unprotect" sha256 digest unprotect "store_ok sha256 digest unprotect" "store_log unprotect"
proof (unfold_locales, goal_cases)
  case 1 then show ?case by (simp add: postgres_repository_def pg_createConversation_new)
next
  case 2 then show ?case by (simp add: postgres_repository_def pg_createConversation_duplicate)
next
  case (3 s r words s' m n) then show ?case using pg_appendMessage_new [of sha256 digest unprotect s r "customer_options r"] by (simp add: postgres_repository_def pg_acceptMessage_def)
next
  case (4 s r words s' m n) then show ?case using pg_appendMessage_new [of sha256 digest unprotect s r "assistant_options r"] by (simp add: postgres_repository_def pg_appendAssistantMessage_def)
next
  case (5 s r words s' m n) then show ?case using pg_appendMessage_duplicate [of sha256 digest unprotect s r "customer_options r"] by (simp add: postgres_repository_def pg_acceptMessage_def)
next
  case (6 s r words s' m n) then show ?case using pg_appendMessage_duplicate [of sha256 digest unprotect s r "assistant_options r"] by (simp add: postgres_repository_def pg_appendAssistantMessage_def)
next
  case (7 s r s' w) then show ?case using pg_linkRefundWorkflow_new by (simp add: postgres_repository_def)
next
  case (8 s r s' w) then show ?case using pg_linkRefundWorkflow_duplicate by (simp add: postgres_repository_def)
next
  case 9 then show ?case using read_log by (simp add: postgres_repository_def)
qed

end
