(* ===== verification/Conversation_Routes.thy ===== *)
theory Conversation_Routes
  imports Conversation_Store
begin

text \<open>
  The routes of the conversation runtime, \<^verbatim>\<open>src/apps/services/conversation-runtime/src/app.ts\<close>, over any
  repository. The verifiers of context and service assertions (theory \<^verbatim>\<open>Access_Assertions\<close>) and the check
  \<^verbatim>\<open>is_uuid\<close> of \<^verbatim>\<open>z.uuid()\<close> are arguments. A handler answers with the state and \<^verbatim>\<open>Inl (status, code)\<close> for
  an error or \<^verbatim>\<open>Inr (status, body)\<close>. The client lemmas are proved in the locale of the repository, and
  the Postgres repository inherits them.
\<close>

section \<open>Requests\<close>

definition idempotencyKeySchema :: "string option \<Rightarrow> string option" where
  "idempotencyKeySchema header = (case header of None \<Rightarrow> None | Some s \<Rightarrow> if opaque_id_upto 200 s then Some s else None)"

text \<open>\<^verbatim>\<open>request.body ?? {}\<close> and the default of the channel.\<close>

definition createConversationSchema :: "json \<Rightarrow> string option" where
  "createConversationSchema body =
     do {
       v \<leftarrow> z_object [''channel''] (if body = JUndefined \<or> body = JNull then JObj [] else body);
       (if get_prop ''channel'' v = JUndefined then Some ''web'' else do { _ \<leftarrow> z_literal ''web'' (get_prop ''channel'' v); Some ''web'' })
     }"

definition text_content :: "json \<Rightarrow> string option" where
  "text_content value =
     do { v \<leftarrow> z_object [''type'', ''text''] value; _ \<leftarrow> z_literal ''text'' (get_prop ''type'' v); z_trimmed 32768 (get_prop ''text'' v) }"

definition acceptMessageSchema :: "json \<Rightarrow> (string \<times> string) option" where
  "acceptMessageSchema body =
     do {
       v \<leftarrow> z_object [''clientMessageId'', ''content''] body;
       clientMessageId \<leftarrow> z_regex (opaque_id_upto 160) (get_prop ''clientMessageId'' v);
       words \<leftarrow> text_content (get_prop ''content'' v);
       Some (clientMessageId, words)
     }"

definition appendAssistantMessageSchema :: "json \<Rightarrow> (string \<times> string) option" where
  "appendAssistantMessageSchema body =
     do {
       v \<leftarrow> z_object [''client_message_id'', ''content''] body;
       clientMessageId \<leftarrow> z_regex (opaque_id_upto 160) (get_prop ''client_message_id'' v);
       words \<leftarrow> text_content (get_prop ''content'' v);
       Some (clientMessageId, words)
     }"

definition linkRefundWorkflowSchema :: "json \<Rightarrow> string option" where
  "linkRefundWorkflowSchema body = do { v \<leftarrow> z_object [''workflow_id''] body; z_regex (opaque_id_upto 200) (get_prop ''workflow_id'' v) }"

section \<open>Answers\<close>

datatype RuntimeFailure = ContextAssertionFailure | ServiceAssertionFailure | ServiceFailed ConversationFailure

definition sendStableError :: "RuntimeFailure \<Rightarrow> nat \<times> string" where
  "sendStableError e = (case e of
     ContextAssertionFailure \<Rightarrow> (401, ''CONTEXT_UNAUTHORIZED'')
   | ServiceAssertionFailure \<Rightarrow> (401, ''SERVICE_UNAUTHORIZED'')
   | ServiceFailed IdempotencyConflictError \<Rightarrow> (409, ''IDEMPOTENCY_CONFLICT'')
   | ServiceFailed ConversationUnavailableError \<Rightarrow> (404, ''CONVERSATION_NOT_FOUND'')
   | ServiceFailed MessageTooLargeError \<Rightarrow> (400, ''MESSAGE_TOO_LARGE'')
   | ServiceFailed (InternalFailure _) \<Rightarrow> (500, ''INTERNAL_ERROR''))"

definition conversation_status_string :: "ConversationStatus \<Rightarrow> string" where
  "conversation_status_string st = (case st of Status_OPEN \<Rightarrow> ''OPEN'' | Status_CLOSED \<Rightarrow> ''CLOSED'')"

definition control_mode_string :: "ControlMode \<Rightarrow> string" where
  "control_mode_string m = (case m of Mode_AI \<Rightarrow> ''AI'' | Mode_QUEUED \<Rightarrow> ''QUEUED'' | Mode_HUMAN \<Rightarrow> ''HUMAN'')"

definition sender_string :: "SenderKind \<Rightarrow> string" where
  "sender_string k = (case k of END_CUSTOMER \<Rightarrow> ''END_CUSTOMER'' | ASSISTANT \<Rightarrow> ''ASSISTANT'' | WORKFORCE \<Rightarrow> ''WORKFORCE'')"

definition conversation_json :: "('z) Conversation_scheme \<Rightarrow> (string \<times> json) list" where
  "conversation_json c = [(''conversationId'', JStr (cn_conversationId c)), (''status'', JStr (conversation_status_string (cn_status c))),
     (''controlMode'', JStr (control_mode_string (cn_controlMode c)))]"

definition transcript_message_json :: "TranscriptMessage \<Rightarrow> json" where
  "transcript_message_json m = JObj ([(''messageId'', JStr (tm_messageId m)), (''sequenceNumber'', JNum (tm_sequenceNumber m)),
     (''senderKind'', JStr (sender_string (tm_senderKind m))), (''text'', JStr (tm_text m)), (''createdAt'', JStr (tm_createdAt m))]
     @ (case tm_refundWorkflowId m of None \<Rightarrow> [] | Some w \<Rightarrow> [(''refundWorkflowId'', JStr w)]))"

definition transcript_json :: "ConversationTranscript \<Rightarrow> json" where
  "transcript_json t = JObj (conversation_json t @ [(''messages'', JArr (map transcript_message_json (ct_messages t)))])"

definition accepted_json :: "AcceptedMessage \<Rightarrow> json" where
  "accepted_json a = JObj [(''conversationId'', JStr (as_conversationId a)), (''messageId'', JStr (as_messageId a)),
     (''sequenceNumber'', JNum (as_sequenceNumber a)), (''status'', JStr ''ACCEPTED'')]"

definition with_meta :: "string \<Rightarrow> json \<Rightarrow> json" where
  "with_meta reqId d = JObj [(''data'', d), (''meta'', JObj [(''requestId'', JStr reqId), (''apiVersion'', JStr ''2026-08-05'')])]"

section \<open>Routes\<close>

type_synonym context_verifier = "string option \<Rightarrow> OrderAccessContext result"
type_synonym service_verifier = "string option \<Rightarrow> ServiceAccess result"

definition get_runtime_health :: "unit result \<Rightarrow> nat \<times> json" where
  "get_runtime_health check = (case check of
     Inr _ \<Rightarrow> (200, JObj [(''service'', JStr ''conversation-runtime''), (''status'', JStr ''ok'')])
   | Inl _ \<Rightarrow> (503, JObj [(''service'', JStr ''conversation-runtime''), (''status'', JStr ''unavailable'')]))"

definition post_conversations ::
  "'s ConversationRepository \<Rightarrow> (string \<Rightarrow> string) \<Rightarrow> context_verifier \<Rightarrow> 's \<Rightarrow> int \<Rightarrow> (nat \<Rightarrow> string) \<Rightarrow> json \<Rightarrow> string option \<Rightarrow> string option \<Rightarrow> 's \<times> answer" where
  "post_conversations repo sha256 verify s now ids body key header =
     (case (createConversationSchema body, idempotencyKeySchema key) of
        (Some channel, Some k) \<Rightarrow>
          (case verify header of
             Inl _ \<Rightarrow> (s, Inl (sendStableError ContextAssertionFailure))
           | Inr context \<Rightarrow> (case service_createConversation repo sha256 s now ids context k channel of
                 Inl e \<Rightarrow> (s, Inl (sendStableError (ServiceFailed e)))
               | Inr (s', c) \<Rightarrow> (s', Inr (201, with_meta (ac_requestId context) (JObj (conversation_json c))))))
      | _ \<Rightarrow> (s, Inl (400, ''INVALID_CONVERSATION_REQUEST'')))"

definition get_conversation ::
  "(string \<Rightarrow> bool) \<Rightarrow> 's ConversationRepository \<Rightarrow> context_verifier \<Rightarrow> 's \<Rightarrow> string \<Rightarrow> string option \<Rightarrow> answer" where
  "get_conversation is_uuid repo verify s conversationId header =
     (if \<not> is_uuid conversationId then Inl (400, ''INVALID_CONVERSATION_REQUEST'')
      else (case verify header of
          Inl _ \<Rightarrow> Inl (sendStableError ContextAssertionFailure)
        | Inr context \<Rightarrow> (case service_getConversation repo s context conversationId of
              Inl e \<Rightarrow> Inl (sendStableError (ServiceFailed e))
            | Inr t \<Rightarrow> Inr (200, with_meta (ac_requestId context) (transcript_json t)))))"

definition post_message ::
  "(string \<Rightarrow> bool) \<Rightarrow> 's ConversationRepository \<Rightarrow> (string \<Rightarrow> string) \<Rightarrow> protect_message \<Rightarrow> context_verifier \<Rightarrow> 's \<Rightarrow> int \<Rightarrow> (nat \<Rightarrow> string) \<Rightarrow> bytes
     \<Rightarrow> string \<Rightarrow> json \<Rightarrow> string option \<Rightarrow> string option \<Rightarrow> 's \<times> answer" where
  "post_message is_uuid repo sha256 protect verify s now ids vector conversationId body key header =
     (case (is_uuid conversationId, acceptMessageSchema body, idempotencyKeySchema key) of
        (True, Some (clientMessageId, words), Some k) \<Rightarrow>
          (case verify header of
             Inl _ \<Rightarrow> (s, Inl (sendStableError ContextAssertionFailure))
           | Inr context \<Rightarrow> (case service_acceptMessage repo sha256 protect s now ids vector context conversationId k clientMessageId words of
                 Inl e \<Rightarrow> (s, Inl (sendStableError (ServiceFailed e)))
               | Inr (s', a) \<Rightarrow> (s', Inr (202, with_meta (ac_requestId context) (accepted_json a)))))
      | _ \<Rightarrow> (s, Inl (400, ''INVALID_MESSAGE_REQUEST'')))"

definition post_assistant_message ::
  "(string \<Rightarrow> bool) \<Rightarrow> 's ConversationRepository \<Rightarrow> (string \<Rightarrow> string) \<Rightarrow> protect_message \<Rightarrow> service_verifier \<Rightarrow> 's \<Rightarrow> int \<Rightarrow> (nat \<Rightarrow> string) \<Rightarrow> bytes
     \<Rightarrow> string \<Rightarrow> json \<Rightarrow> string option \<Rightarrow> string option \<Rightarrow> 's \<times> answer" where
  "post_assistant_message is_uuid repo sha256 protect verify s now ids vector conversationId body key header =
     (case (is_uuid conversationId, appendAssistantMessageSchema body, idempotencyKeySchema key) of
        (True, Some (clientMessageId, words), Some k) \<Rightarrow>
          (case verify header of
             Inl _ \<Rightarrow> (s, Inl (sendStableError ServiceAssertionFailure))
           | Inr access \<Rightarrow> (case service_appendAssistantMessage repo sha256 protect s now ids vector access conversationId k clientMessageId words of
                 Inl e \<Rightarrow> (s, Inl (sendStableError (ServiceFailed e)))
               | Inr (s', a) \<Rightarrow> (s', Inr (202, with_meta (sa_requestId access) (accepted_json a)))))
      | _ \<Rightarrow> (s, Inl (400, ''INVALID_ASSISTANT_MESSAGE_REQUEST'')))"

definition linked_workflow :: "LinkPersistence \<Rightarrow> string" where
  "linked_workflow result = (case result of Linked w \<Rightarrow> w | DuplicateLink w \<Rightarrow> w)"

definition post_refund_workflow ::
  "(string \<Rightarrow> bool) \<Rightarrow> 's ConversationRepository \<Rightarrow> (string \<Rightarrow> string) \<Rightarrow> service_verifier \<Rightarrow> 's \<Rightarrow> int \<Rightarrow> (nat \<Rightarrow> string)
     \<Rightarrow> string \<Rightarrow> string \<Rightarrow> json \<Rightarrow> string option \<Rightarrow> string option \<Rightarrow> 's \<times> answer" where
  "post_refund_workflow is_uuid repo sha256 verify s now ids conversationId messageId body key header =
     (case (is_uuid conversationId \<and> is_uuid messageId, linkRefundWorkflowSchema body, idempotencyKeySchema key) of
        (True, Some workflowId, Some k) \<Rightarrow>
          (case verify header of
             Inl _ \<Rightarrow> (s, Inl (sendStableError ServiceAssertionFailure))
           | Inr access \<Rightarrow> (case service_linkRefundWorkflow repo sha256 s now ids access conversationId messageId workflowId k of
                 Inl e \<Rightarrow> (s, Inl (sendStableError (ServiceFailed e)))
               | Inr (s', result) \<Rightarrow> (s', Inr (202, with_meta (sa_requestId access) (JObj [(''conversationId'', JStr conversationId),
                   (''messageId'', JStr messageId), (''workflowId'', JStr (linked_workflow result)), (''status'', JStr ''LINKED'')])))))
      | _ \<Rightarrow> (s, Inl (400, ''INVALID_REFUND_WORKFLOW_REFERENCE'')))"

text \<open>One request to the runtime: any of the routes that write, with any clock, identifiers, vector and headers.\<close>

inductive runtime_step ::
  "(string \<Rightarrow> bool) \<Rightarrow> 's ConversationRepository \<Rightarrow> (string \<Rightarrow> string) \<Rightarrow> protect_message \<Rightarrow> context_verifier \<Rightarrow> service_verifier \<Rightarrow> 's \<Rightarrow> 's \<Rightarrow> bool"
  for is_uuid repo sha256 protect verify verify_service where
  step_create: "runtime_step is_uuid repo sha256 protect verify verify_service s (fst (post_conversations repo sha256 verify s now ids body key header))"
| step_message: "runtime_step is_uuid repo sha256 protect verify verify_service s
    (fst (post_message is_uuid repo sha256 protect verify s now ids vector conversationId body key header))"
| step_assistant: "runtime_step is_uuid repo sha256 protect verify verify_service s
    (fst (post_assistant_message is_uuid repo sha256 protect verify_service s now ids vector conversationId body key header))"
| step_link: "runtime_step is_uuid repo sha256 protect verify verify_service s
    (fst (post_refund_workflow is_uuid repo sha256 verify_service s now ids conversationId messageId body key header))"

section \<open>What holds over every repository\<close>

lemma log_appends:
  assumes "L key = Some (owner, es)" and "L' = L(key \<mapsto> (owner, es @ [new_entry r sender words]))" and "sender \<in> {END_CUSTOMER, ASSISTANT}"
  shows "log_step L L'"
  unfolding assms(2) by (rule log_append) (use assms(1, 3) in \<open>simp_all add: new_entry_def\<close>)

context conversation_repository
begin

lemma create_step:
  assumes "valid s" and "service_createConversation repo sha256 s now ids context k channel = Inr (s', c)"
  shows "valid s' \<and> log_step (log s) (log s')"
proof -
  from assms(2) obtain r result where run: "rep_createConversation repo s r = Inr (s', result)"
    by (auto simp: service_createConversation_def result_simps)
  show ?thesis
  proof (cases result)
    case (Created c)
    from create_new [OF assms(1) run [unfolded Created] refl] show ?thesis by (metis log_open)
  next
    case (DuplicateConversation c)
    from create_duplicate [OF assms(1) run [unfolded DuplicateConversation]] show ?thesis using assms(1) log_stay by simp
  qed
qed

lemma accept_append:
  assumes "valid s" and "faithful_request sha256 digest unprotect r words" and "rep_acceptMessage repo s r = Inr (s', result)"
  shows "valid s' \<and> log_step (log s) (log s')"
proof (cases result)
  case (Accepted m n)
  from accept_new [OF assms(1, 2) assms(3) [unfolded Accepted]] show ?thesis by (blast intro: log_appends)
next
  case (DuplicateMessage m n)
  from accept_duplicate [OF assms(1, 2) assms(3) [unfolded DuplicateMessage]] show ?thesis by (simp add: log_stay)
qed

lemma assistant_append:
  assumes "valid s" and "faithful_request sha256 digest unprotect r words" and "rep_appendAssistantMessage repo s r = Inr (s', result)"
  shows "valid s' \<and> log_step (log s) (log s')"
proof (cases result)
  case (Accepted m n)
  from assistant_new [OF assms(1, 2) assms(3) [unfolded Accepted]] show ?thesis by (blast intro: log_appends)
next
  case (DuplicateMessage m n)
  from assistant_duplicate [OF assms(1, 2) assms(3) [unfolded DuplicateMessage]] show ?thesis by (simp add: log_stay)
qed

lemma accept_step:
  assumes "valid s" and "protection_ok digest protect unprotect"
    and "service_acceptMessage repo sha256 protect s now ids vector context conversationId k clientMessageId words = Inr (s', a)"
  shows "valid s' \<and> log_step (log s) (log s')"
proof -
  from assms(3) obtain m result where m: "protected_text protect vector words = Inr m"
      and run: "rep_acceptMessage repo s (append_record sha256 now ids (customer_access context) conversationId k clientMessageId words m) = Inr (s', result)"
    by (auto simp: service_acceptMessage_def result_simps split: if_splits)
  show ?thesis by (rule accept_append [OF assms(1) append_record_faithful [OF assms(2) m] run])
qed

lemma assistant_step:
  assumes "valid s" and "protection_ok digest protect unprotect"
    and "service_appendAssistantMessage repo sha256 protect s now ids vector context conversationId k clientMessageId words = Inr (s', a)"
  shows "valid s' \<and> log_step (log s) (log s')"
proof -
  from assms(3) obtain m result where m: "protected_text protect vector words = Inr m"
      and run: "rep_appendAssistantMessage repo s (append_record sha256 now ids context conversationId k clientMessageId words m) = Inr (s', result)"
    by (auto simp: service_appendAssistantMessage_def result_simps split: if_splits)
  show ?thesis by (rule assistant_append [OF assms(1) append_record_faithful [OF assms(2) m] run])
qed

lemma link_step:
  assumes "valid s" and "service_linkRefundWorkflow repo sha256 s now ids context conversationId messageId workflowId k = Inr (s', result)"
  shows "valid s' \<and> log_step (log s) (log s')"
proof -
  from assms(2) obtain r where run: "rep_linkRefundWorkflow repo s r = Inr (s', result)" and faithful: "faithful_link sha256 r"
    by (auto simp: service_linkRefundWorkflow_def faithful_link_def canonical_link_def)
  show ?thesis
  proof (cases result)
    case (Linked w)
    from link_new [OF assms(1) faithful run [unfolded Linked]] show ?thesis by (metis log_link)
  next
    case (DuplicateLink w)
    from link_duplicate [OF assms(1) faithful run [unfolded DuplicateLink]] show ?thesis by (simp add: log_stay)
  qed
qed

lemma runtime_step_refines:
  assumes "protection_ok digest protect unprotect" and "runtime_step is_uuid repo sha256 protect verify verify_service s s'" and "valid s"
  shows "valid s' \<and> log_step (log s) (log s')"
  using assms(2, 3)
proof (induction rule: runtime_step.induct)
  case (step_create s now ids body key header)
  then show ?case by (auto simp: post_conversations_def log_stay split: option.splits sum.splits dest: create_step)
next
  case (step_message s now ids vector conversationId body key header)
  then show ?case by (auto simp: post_message_def log_stay split: option.splits sum.splits bool.splits dest: accept_step [OF _ assms(1)])
next
  case (step_assistant s now ids vector conversationId body key header)
  then show ?case by (auto simp: post_assistant_message_def log_stay split: option.splits sum.splits bool.splits dest: assistant_step [OF _ assms(1)])
next
  case (step_link s now ids conversationId messageId body key header)
  then show ?case by (auto simp: post_refund_workflow_def log_stay split: option.splits sum.splits bool.splits dest: link_step)
qed

lemma runtime_refines:
  assumes "protection_ok digest protect unprotect" and "(runtime_step is_uuid repo sha256 protect verify verify_service)\<^sup>*\<^sup>* s s'" and "valid s"
  shows "valid s'" and "log_step\<^sup>*\<^sup>* (log s) (log s')"
  using assms(2, 3) by (induction rule: rtranclp_induct) (auto dest: runtime_step_refines [OF assms(1)])

lemma accept_holds:
  assumes "valid s" and "faithful_request sha256 digest unprotect r words" and "rep_acceptMessage repo s r = Inr (s', result)"
    and "accepted_message c result = \<lparr> as_conversationId = c, as_messageId = m, as_sequenceNumber = n \<rparr>"
  shows "holds_message sha256 digest (log s') (am_key r) (sa_subjectCustomerId (am_context r)) m n words"
proof (cases result)
  case (Accepted m' n')
  from accept_new [OF assms(1, 2) assms(3) [unfolded Accepted]] assms(4) show ?thesis
    by (auto simp: holds_message_def Accepted accepted_message_def new_entry_def)
next
  case (DuplicateMessage m' n')
  from accept_duplicate [OF assms(1, 2) assms(3) [unfolded DuplicateMessage]] assms(4) show ?thesis
    by (simp add: DuplicateMessage accepted_message_def)
qed

lemma link_holds:
  assumes "valid s" and "service_linkRefundWorkflow repo sha256 s now ids context conversationId messageId workflowId k = Inr (s', result)" and "inj sha256"
  shows "linked_workflow result = workflowId \<and> holds_link (log s') (access_scope_of context, pg_uuid conversationId) (pg_uuid messageId) workflowId"
proof -
  from assms(2) obtain r where run: "rep_linkRefundWorkflow repo s r = Inr (s', result)" and faithful: "faithful_link sha256 r"
      and r: "lr_key r = (access_scope_of context, pg_uuid conversationId)" "lr_messageId r = messageId" "lr_workflowId r = workflowId"
    by (auto simp: service_linkRefundWorkflow_def faithful_link_def canonical_link_def lr_key_def)
  show ?thesis
  proof (cases result)
    case (Linked w)
    from link_new [OF assms(1) faithful run [unfolded Linked]] obtain es i where "w = workflowId" "i < length es" "en_messageId (es ! i) = pg_uuid messageId"
      "log s' (access_scope_of context, pg_uuid conversationId) = Some (sa_subjectCustomerId (lr_context r), es[i := (es ! i)\<lparr> en_workflow := Some w \<rparr>])"
      by (auto simp: r)
    then show ?thesis unfolding holds_link_def
      by (intro conjI exI [of _ "sa_subjectCustomerId (lr_context r)"] exI [of _ "es[i := (es ! i)\<lparr> en_workflow := Some w \<rparr>]"] exI [of _ i])
        (simp_all add: Linked linked_workflow_def)
  next
    case (DuplicateLink w)
    from link_duplicate [OF assms(1) faithful run [unfolded DuplicateLink]] show ?thesis using assms(3) by (auto simp: DuplicateLink linked_workflow_def r)
  qed
qed

lemma read_holds:
  assumes "valid s" and "holds_message sha256 digest (log s) (access_scope_of (customer_access ctx), pg_uuid c) (ac_subjectCustomerId ctx) m n words"
  obtains t where "service_getConversation repo s ctx c = Inr t" and "1 \<le> n" and "n \<le> int (length (ct_messages t))"
    and "tm_messageId (ct_messages t ! nat (n - 1)) = m" and "tm_sequenceNumber (ct_messages t ! nat (n - 1)) = n"
    and "collision_free sha256 digest \<Longrightarrow> tm_text (ct_messages t ! nat (n - 1)) = words"
proof -
  from assms(2) obtain es where es: "log s (access_scope_of (customer_access ctx), pg_uuid c) = Some (ac_subjectCustomerId ctx, es)"
      and n: "1 \<le> n" "n \<le> int (length es)" and e: "en_messageId (es ! nat (n - 1)) = m" "collision_free sha256 digest \<longrightarrow> en_text (es ! nat (n - 1)) = words"
    by (auto simp: holds_message_def)
  define t where "t = \<lparr> cn_conversationId = c, cn_status = Status_OPEN, cn_controlMode = Mode_AI, ct_messages = numbered es \<rparr>"
  have "numbered es ! nat (n - 1) = numbered_entry n (es ! nat (n - 1))" using nth_numbered [of "nat (n - 1)" es] n by simp
  moreover have "service_getConversation repo s ctx c = Inr t"
    by (simp add: service_getConversation_def read [OF assms(1)] es t_def) (simp add: customer_access_def)
  ultimately show thesis using n e by (intro that) (auto simp: t_def numbered_entry_def)
qed

end

lemma post_message_answered:
  assumes "post_message is_uuid repo sha256 protect verify s now ids vector c body key header = (s', Inr answer)"
  obtains ctx k clientMessageId words m result where "is_uuid c" and "acceptMessageSchema body = Some (clientMessageId, words)" and "idempotencyKeySchema key = Some k"
    and "verify header = Inr ctx" and "utf8_length words \<le> MAX_MESSAGE_BYTES" and "protected_text protect vector words = Inr m"
    and "rep_acceptMessage repo s (append_record sha256 now ids (customer_access ctx) c k clientMessageId words m) = Inr (s', result)"
    and "answer = (202, with_meta (ac_requestId ctx) (accepted_json (accepted_message c result)))"
  using assms that
  by (auto simp: post_message_def service_acceptMessage_def result_simps split: option.splits sum.splits bool.splits if_splits)

lemma post_assistant_answered:
  assumes "post_assistant_message is_uuid repo sha256 protect verify s now ids vector c body key header = (s', Inr answer)"
  obtains access k clientMessageId words m result where "is_uuid c" and "appendAssistantMessageSchema body = Some (clientMessageId, words)" and "idempotencyKeySchema key = Some k"
    and "verify header = Inr access" and "utf8_length words \<le> MAX_MESSAGE_BYTES" and "protected_text protect vector words = Inr m"
    and "rep_appendAssistantMessage repo s (append_record sha256 now ids access c k clientMessageId words m) = Inr (s', result)"
    and "answer = (202, with_meta (sa_requestId access) (accepted_json (accepted_message c result)))"
  using assms that
  by (auto simp: post_assistant_message_def service_appendAssistantMessage_def result_simps split: option.splits sum.splits bool.splits if_splits)

lemma append_record_simps [simp]:
  "am_key (append_record sha256 now ids context c k clientMessageId words m) = (access_scope_of context, pg_uuid c)"
  "am_context (append_record sha256 now ids context c k clientMessageId words m) = context"
  "am_conversationId (append_record sha256 now ids context c k clientMessageId words m) = c"
  "am_idempotencyKey (append_record sha256 now ids context c k clientMessageId words m) = k"
  "am_clientMessageId (append_record sha256 now ids context c k clientMessageId words m) = clientMessageId"
  "am_canonicalRequestHash (append_record sha256 now ids context c k clientMessageId words m) = canonical_message sha256 clientMessageId words"
  "am_protectedMessage (append_record sha256 now ids context c k clientMessageId words m) = m"
  by (simp_all add: append_record_def am_key_def canonical_message_def)

lemma customer_access_simps [simp]: "sa_subjectCustomerId (customer_access ctx) = ac_subjectCustomerId ctx"
  "access_scope_of (customer_access ctx) = (ac_tenantId ctx, ac_environmentId ctx)"
  by (simp_all add: customer_access_def access_scope_of_def)

lemma holds_link_extends:
  assumes "log_extends L L'" and "holds_link L key m w"
  shows "holds_link L' key m w"
proof -
  from assms(2) obtain who es i where es: "L key = Some (who, es)" "i < length es" "en_messageId (es ! i) = m" "en_workflow (es ! i) = Some w"
    by (auto simp: holds_link_def)
  with assms(1) obtain es' where es': "L' key = Some (who, es')" "length es \<le> length es'" "entry_kept (es ! i) (es' ! i)"
    unfolding log_extends_def by fastforce
  then have "en_messageId (es' ! i) = m \<and> en_workflow (es' ! i) = Some w"
    using es(3, 4) by (metis Entry.select_convs(1) Entry.surjective Entry.update_convs(5) entry_kept_def option.distinct(1))
  then show ?thesis using es es' unfolding holds_link_def by (metis order_less_le_trans)
qed

lemma holds_message_extends:
  assumes "log_extends L L'" and "holds_message sha256 digest L key who m n words"
  shows "holds_message sha256 digest L' key who m n words"
proof -
  from assms(2) obtain es where es: "L key = Some (who, es)" "1 \<le> n" "n \<le> int (length es)" "en_messageId (es ! nat (n - 1)) = m"
      "collision_free sha256 digest \<longrightarrow> en_text (es ! nat (n - 1)) = words" by (auto simp: holds_message_def)
  with assms(1) obtain es' where es': "L' key = Some (who, es')" "length es \<le> length es'" "entry_kept (es ! nat (n - 1)) (es' ! nat (n - 1))"
    unfolding log_extends_def by fastforce
  then have "en_messageId (es' ! nat (n - 1)) = en_messageId (es ! nat (n - 1))" "en_text (es' ! nat (n - 1)) = en_text (es ! nat (n - 1))"
    by (metis Entry.select_convs(1, 3) Entry.surjective Entry.update_convs(5) entry_kept_def)+
  then show ?thesis using es es' by (auto simp: holds_message_def)
qed

end
