(* ===== verification/Conversation_History.thy ===== *)
theory Conversation_History
  imports Conversation_Routes
begin

text \<open>
  The conversation runtime over time: the routes on the Postgres repository, from an empty store. What
  a client was told stays true: a message answered with 202 stays readable at its number, a transcript
  only grows, a repeated request is answered as before and changes nothing, and the tables stay in step
  (numbers without gap, one outbox event per message).
\<close>

abbreviation postgres_step ::
  "(string \<Rightarrow> bool) \<Rightarrow> (string \<Rightarrow> string) \<Rightarrow> protect_message \<Rightarrow> unprotect_message \<Rightarrow> context_verifier \<Rightarrow> service_verifier \<Rightarrow> ConversationDb \<Rightarrow> ConversationDb \<Rightarrow> bool" where
  "postgres_step is_uuid sha256 protect unprotect \<equiv> runtime_step is_uuid (postgres_repository unprotect) sha256 protect"

section \<open>Rows are only added\<close>

definition unlinked :: "MessageRow \<Rightarrow> MessageRow" where
  "unlinked m = m\<lparr> mr_refund_workflow_id := None \<rparr>"

lemma unlinked_simps: "mr_key (unlinked m) = mr_key m" "mr_client_message_id (unlinked m) = mr_client_message_id m" "mr_content_sha256 (unlinked m) = mr_content_sha256 m"
  by (simp_all add: unlinked_def mr_key_def)

text \<open>Idempotency records and messages stay, up to the link of a message.\<close>

definition store_grows :: "ConversationDb \<Rightarrow> ConversationDb \<Rightarrow> bool" where
  "store_grows db db' \<longleftrightarrow> (\<exists>ks. cd_idempotency db' = cd_idempotency db @ ks)
     \<and> (\<exists>ms. map unlinked (cd_messages db') = map unlinked (cd_messages db) @ ms)"

lemma store_grows_refl [simp]: "store_grows db db"
  by (simp add: store_grows_def)

lemma store_grows_trans: "store_grows a b \<Longrightarrow> store_grows b c \<Longrightarrow> store_grows a c"
  unfolding store_grows_def by (metis append.assoc)

lemma unlinked_set_link [simp]: "unlinked (set_link r m) = unlinked m"
  by (simp add: unlinked_def set_link_def)

lemma append_grows:
  assumes "pg_appendMessage db r opt = Inr (db', result)"
  shows "store_grows db db'"
  using assms
proof (cases rule: pg_appendMessage_cases)
  case (1 row)
  show ?thesis unfolding store_message_Inr(2) [OF 1(6)] by (simp add: store_grows_def with_message_def)
qed (simp_all add: store_grows_def)

lemma create_grows: "pg_createConversation db r = Inr (db', result) \<Longrightarrow> store_grows db db'"
  by (auto simp: pg_createConversation_def insertIdempotencyResult_Inr result_simps Let_def store_grows_def split: sum.splits if_splits)

lemma link_grows: "pg_linkRefundWorkflow db r = Inr (db', result) \<Longrightarrow> store_grows db db'"
  by (auto simp: pg_linkRefundWorkflow_def result_simps store_grows_def comp_def split: option.splits if_splits dest!: remember_link_Inr)

lemmas postgres_operations = postgres_repository_def pg_acceptMessage_def pg_appendAssistantMessage_def

lemma postgres_step_grows:
  assumes "postgres_step is_uuid sha256 protect unprotect verify verify_service db db'"
  shows "store_grows db db'"
  using assms
proof (induction rule: runtime_step.induct)
  case (step_create s now ids body key header)
  then show ?case
    by (auto simp: post_conversations_def service_createConversation_def result_simps postgres_operations split: option.splits sum.splits dest: create_grows)
next
  case (step_message s now ids vector conversationId body key header)
  then show ?case
    by (auto simp: post_message_def service_acceptMessage_def result_simps postgres_operations split: option.splits sum.splits bool.splits if_splits dest: append_grows)
next
  case (step_assistant s now ids vector conversationId body key header)
  then show ?case
    by (auto simp: post_assistant_message_def service_appendAssistantMessage_def result_simps postgres_operations split: option.splits sum.splits bool.splits if_splits dest: append_grows)
next
  case (step_link s now ids conversationId messageId body key header)
  then show ?case
    by (auto simp: post_refund_workflow_def service_linkRefundWorkflow_def postgres_operations split: option.splits sum.splits bool.splits dest: link_grows)
qed

lemma postgres_steps_grow: "(postgres_step is_uuid sha256 protect unprotect verify verify_service)\<^sup>*\<^sup>* db db' \<Longrightarrow> store_grows db db'"
  by (induction rule: rtranclp_induct) (auto intro: store_grows_trans postgres_step_grows)

lemma key_persists:
  assumes "store_grows db db'" and "findIdempotencyResult db sc operation resourceScope key = Some k"
  shows "findIdempotencyResult db' sc operation resourceScope key = Some k"
  using assms by (auto simp: store_grows_def findIdempotencyResult_def find_append)

lemma message_persists:
  assumes "store_grows db db'" and "m \<in> set (cd_messages db)"
  obtains m' where "m' \<in> set (cd_messages db')" and "unlinked m' = unlinked m"
proof -
  have "unlinked m \<in> unlinked ` set (cd_messages db')" using assms unfolding store_grows_def by (metis UnCI image_eqI list.set_map set_append)
  then show thesis using that by auto
qed

section \<open>Reachable stores\<close>

lemma store_log_new: "store_log unprotect new_store = (\<lambda>_. None)"
  by (simp add: fun_eq_iff store_log_def new_store_def find_conversation_def)

lemma reachable_store:
  assumes "protection_ok digest protect unprotect" and "(postgres_step is_uuid sha256 protect unprotect verify verify_service)\<^sup>*\<^sup>* new_store db"
  shows "store_ok sha256 digest unprotect db"
  using store.runtime_refines(1) [OF assms new_store_ok] .

text \<open>
  C23. Refinement. The runtime on its tables implements an append-only log: from the empty store, any
  sequence of requests is a sequence of steps that open a conversation, append a message at its end or
  link an unlinked assistant message (or change nothing), and a read by the owner returns exactly the
  messages of the log, numbered from one, while anybody else is told that there is no conversation.
\<close>

theorem runtime_refines_log:
  assumes "protection_ok digest protect unprotect" and "(postgres_step is_uuid sha256 protect unprotect verify verify_service)\<^sup>*\<^sup>* new_store db"
  shows "log_step\<^sup>*\<^sup>* (\<lambda>_. None) (store_log unprotect db)
    \<and> pg_readConversation unprotect db context conversationId =
      (case store_log unprotect db (access_scope_of context, pg_uuid conversationId) of
         None \<Rightarrow> Inl ConversationUnavailableError
       | Some (who, es) \<Rightarrow>
           if who \<noteq> sa_subjectCustomerId context then Inl ConversationUnavailableError
           else Inr \<lparr> cn_conversationId = conversationId, cn_status = Status_OPEN, cn_controlMode = Mode_AI, ct_messages = numbered es \<rparr>)"
  using store.runtime_refines(2) [OF assms new_store_ok] read_log [OF reachable_store [OF assms]] by (simp add: store_log_new)

text \<open>
  C28. Invariant. In every reachable store the messages of a conversation, in the order they were stored,
  are numbered 1, 2, 3, ... up to one below the number the conversation will give next; the outbox holds
  exactly one event per message, in the same order, with the message's conversation, number, kind and
  identifier; and every stored text is at most 32 KiB long in UTF-8 and can be decrypted.
\<close>

theorem messages_and_events_in_step:
  assumes "protection_ok digest protect unprotect" and "(postgres_step is_uuid sha256 protect unprotect verify verify_service)\<^sup>*\<^sup>* new_store db"
  shows "list_all (\<lambda>row. map mr_sequence_number (messages_of db (cv_key row)) = [1..cv_next_sequence_number row - 1]) (cd_conversations db)
    \<and> map event_view (cd_outbox db) = map message_view (cd_messages db)
    \<and> list_all (readable digest unprotect db) (cd_messages db)"
  using reachable_store [OF assms] by (simp add: store_ok_def list_all_iff conversation_ok_def message_ok_def)


section \<open>What a customer was told stays true\<close>

definition same_customer :: "OrderAccessContext \<Rightarrow> OrderAccessContext \<Rightarrow> bool" where
  "same_customer a b \<longleftrightarrow> ac_tenantId a = ac_tenantId b \<and> ac_environmentId a = ac_environmentId b \<and> ac_subjectCustomerId a = ac_subjectCustomerId b"

lemma steps_keep:
  assumes "protection_ok digest protect unprotect" and "store_ok sha256 digest unprotect db"
    and "(postgres_step is_uuid sha256 protect unprotect verify verify_service)\<^sup>*\<^sup>* db db'"
  shows "store_ok sha256 digest unprotect db'" and "log_extends (store_log unprotect db) (store_log unprotect db')"
  using store.runtime_refines [OF assms(1, 3, 2)] by (simp_all add: log_steps_extend)

text \<open>
  C24. Read your writes. A message that the runtime answered with 202 can be read by its customer then and
  at any later time, whatever requests come in between: the transcript shows it at the sequence number
  of the answer, with the identifier of the answer and the text that was sent. This covers repeated and
  duplicate posts too, whose answer names the message stored first; there the digests of the requests
  must not collide.
\<close>

theorem posted_message_stays_readable:
  assumes "protection_ok digest protect unprotect" and "collision_free sha256 digest"
    and "(postgres_step is_uuid sha256 protect unprotect verify verify_service)\<^sup>*\<^sup>* new_store db"
    and "acceptMessageSchema body = Some (clientMessageId, words)" and "verify header = Inr ctx"
    and "post_message is_uuid (postgres_repository unprotect) sha256 protect verify db now ids vector c body key header = (db1, Inr answer)"
    and "(postgres_step is_uuid sha256 protect unprotect verify verify_service)\<^sup>*\<^sup>* db1 db2"
    and "verify header2 = Inr ctx2" and "same_customer ctx ctx2"
  shows "\<exists>m n t. answer = (202, with_meta (ac_requestId ctx) (accepted_json \<lparr> as_conversationId = c, as_messageId = m, as_sequenceNumber = n \<rparr>))
    \<and> get_conversation is_uuid (postgres_repository unprotect) verify db2 c header2 = Inr (200, with_meta (ac_requestId ctx2) (transcript_json t))
    \<and> 1 \<le> n \<and> n \<le> int (length (ct_messages t)) \<and> tm_messageId (ct_messages t ! nat (n - 1)) = m
    \<and> tm_sequenceNumber (ct_messages t ! nat (n - 1)) = n \<and> tm_text (ct_messages t ! nat (n - 1)) = words"
proof -
  note ok = reachable_store [OF assms(1, 3)]
  from post_message_answered [OF assms(6)] assms(4, 5) obtain k pm result where uuid: "is_uuid c" and pm: "protected_text protect vector words = Inr pm"
      and run: "rep_acceptMessage (postgres_repository unprotect) db (append_record sha256 now ids (customer_access ctx) c k clientMessageId words pm) = Inr (db1, result)"
      and answer: "answer = (202, with_meta (ac_requestId ctx) (accepted_json (accepted_message c result)))"
    by (metis Pair_inject option.inject sum.inject(2))
  obtain m n where result: "accepted_message c result = \<lparr> as_conversationId = c, as_messageId = m, as_sequenceNumber = n \<rparr>"
    by (cases result) (auto simp: accepted_message_def)
  let ?key = "((ac_tenantId ctx, ac_environmentId ctx), pg_uuid c)"
  note faithful = append_record_faithful [OF assms(1) pm, of sha256 now ids "customer_access ctx" c k clientMessageId]
  have "holds_message sha256 digest (store_log unprotect db1) ?key (ac_subjectCustomerId ctx) m n words"
    using store.accept_holds [OF ok faithful run result] by simp
  moreover have ok1: "store_ok sha256 digest unprotect db1" using store.accept_append [OF ok faithful run] by blast
  ultimately have "holds_message sha256 digest (store_log unprotect db2) (access_scope_of (customer_access ctx2), pg_uuid c) (ac_subjectCustomerId ctx2) m n words"
    using holds_message_extends [OF steps_keep(2) [OF assms(1) ok1 assms(7)]] assms(9) by (simp add: same_customer_def)
  from store.read_holds [OF steps_keep(1) [OF assms(1) ok1 assms(7)] this] obtain t where
    "service_getConversation (postgres_repository unprotect) db2 ctx2 c = Inr t" "1 \<le> n" "n \<le> int (length (ct_messages t))"
    "tm_messageId (ct_messages t ! nat (n - 1)) = m" "tm_sequenceNumber (ct_messages t ! nat (n - 1)) = n" "tm_text (ct_messages t ! nat (n - 1)) = words"
    using assms(2) by metis
  then show ?thesis using answer result uuid assms(8) by (auto simp: get_conversation_def)
qed

definition message_kept :: "TranscriptMessage \<Rightarrow> TranscriptMessage \<Rightarrow> bool" where
  "message_kept a b \<longleftrightarrow> b = a\<lparr> tm_refundWorkflowId := tm_refundWorkflowId b \<rparr> \<and> (tm_refundWorkflowId a = None \<or> tm_refundWorkflowId b = tm_refundWorkflowId a)"

lemma numbered_kept: "entry_kept a b \<Longrightarrow> message_kept (numbered_entry n a) (numbered_entry n b)"
  by (cases a, cases b) (auto simp: entry_kept_def message_kept_def numbered_entry_def)

text \<open>
  C26. A transcript only grows. What a customer has read once is there in every later transcript of the
  conversation: the same messages at the same positions, with the same identifier, number, sender, text
  and time. A refund workflow shown with a message stays the one shown; only a message without one can
  gain it later.
\<close>

theorem transcript_only_grows:
  assumes "protection_ok digest protect unprotect"
    and "(postgres_step is_uuid sha256 protect unprotect verify verify_service)\<^sup>*\<^sup>* new_store db"
    and "service_getConversation (postgres_repository unprotect) db ctx c = Inr t"
    and "(postgres_step is_uuid sha256 protect unprotect verify verify_service)\<^sup>*\<^sup>* db db2" and "same_customer ctx ctx2"
  shows "\<exists>t2. service_getConversation (postgres_repository unprotect) db2 ctx2 c = Inr t2 \<and> length (ct_messages t) \<le> length (ct_messages t2)
    \<and> list_all2 message_kept (ct_messages t) (take (length (ct_messages t)) (ct_messages t2))"
proof -
  let ?key = "((ac_tenantId ctx, ac_environmentId ctx), pg_uuid c)"
  note ok = reachable_store [OF assms(1, 2)]
  note later = steps_keep [OF assms(1) ok assms(4)]
  from assms(3) obtain es where es: "store_log unprotect db ?key = Some (ac_subjectCustomerId ctx, es)" and t: "ct_messages t = numbered es"
    by (auto simp: service_getConversation_def store.read [OF ok] split: option.splits if_splits)
  from later(2) es obtain es2 where es2: "store_log unprotect db2 ?key = Some (ac_subjectCustomerId ctx, es2)" "length es \<le> length es2"
      and kept: "\<forall>i < length es. entry_kept (es ! i) (es2 ! i)"
    unfolding log_extends_def by blast
  have "list_all2 message_kept (numbered es) (take (length es) (numbered es2))"
    using kept es2(2) by (auto simp: list_all2_conv_all_nth nth_numbered intro: numbered_kept)
  then show ?thesis using es2 assms(5) t by (simp add: service_getConversation_def store.read [OF later(1)] same_customer_def)
qed

text \<open>
  C27. Isolation. Only the customer who opened a conversation can use it: a request with a verified
  context or service assertion of any other customer, in the same tenant and environment, is refused
  with an error when it reads or posts a message for the customer or the assistant, and changes no table
  when it tries to link a refund workflow.
\<close>

theorem other_customer_has_no_access:
  assumes "protection_ok digest protect unprotect"
    and "(postgres_step is_uuid sha256 protect unprotect verify verify_service)\<^sup>*\<^sup>* new_store db"
    and "verify header = Inr ctx" and "store_log unprotect db ((ac_tenantId ctx, ac_environmentId ctx), pg_uuid c) = Some (owner, es)"
    and "ac_subjectCustomerId ctx \<noteq> owner" and "verify_service service_header = Inr (customer_access ctx)"
  shows "(\<exists>e. get_conversation is_uuid (postgres_repository unprotect) verify db c header = Inl e)
    \<and> (\<exists>e. post_message is_uuid (postgres_repository unprotect) sha256 protect verify db now ids vector c body key header = (db, Inl e))
    \<and> (\<exists>e. post_assistant_message is_uuid (postgres_repository unprotect) sha256 protect verify_service db now ids vector c body key service_header = (db, Inl e))
    \<and> fst (post_refund_workflow is_uuid (postgres_repository unprotect) sha256 verify_service db now ids c messageId body key service_header) = db"
proof (intro conjI)
  from assms(4) obtain row where row: "find_conversation db ((ac_tenantId ctx, ac_environmentId ctx), pg_uuid c) = Some row" "cv_subject_customer_id row \<noteq> ac_subjectCustomerId ctx"
    using assms(5) by (auto simp: store_log_def)
  have append: "pg_appendMessage db (append_record sha256 now ids (customer_access ctx) c k clientMessageId words m) opt = Inl ConversationUnavailableError" for k clientMessageId words m opt
    using row by (simp add: pg_appendMessage_def)
  show "\<exists>e. get_conversation is_uuid (postgres_repository unprotect) verify db c header = Inl e"
    using row assms(3) by (simp add: get_conversation_def service_getConversation_def postgres_repository_def pg_readConversation_def)
  show "\<exists>e. post_message is_uuid (postgres_repository unprotect) sha256 protect verify db now ids vector c body key header = (db, Inl e)"
    using assms(3) by (auto simp: post_message_def service_acceptMessage_def postgres_operations append protected_text_def split: option.splits sum.splits bool.splits)
  show "\<exists>e. post_assistant_message is_uuid (postgres_repository unprotect) sha256 protect verify_service db now ids vector c body key service_header = (db, Inl e)"
    using assms(6) by (auto simp: post_assistant_message_def service_appendAssistantMessage_def postgres_operations append protected_text_def split: option.splits sum.splits bool.splits)
  have "db' = db" if "pg_linkRefundWorkflow db r = Inr (db', result)" and "lr_context r = customer_access ctx" and "lr_conversationId r = c" for r db' result
    using that row by (auto simp: pg_linkRefundWorkflow_def result_simps lr_key_def split: option.splits if_splits)
  then show "fst (post_refund_workflow is_uuid (postgres_repository unprotect) sha256 verify_service db now ids c messageId body key service_header) = db"
    using assms(6) by (auto simp: post_refund_workflow_def service_linkRefundWorkflow_def postgres_operations split: option.splits sum.splits bool.splits)
qed


text \<open>
  C38. A linked refund workflow stays linked. When the runtime answers the link of a message with 202,
  also on a repetition, the answer names the workflow that was sent, and in every later state the message
  of the request carries that workflow (if the digests of requests do not collide).
\<close>

theorem linked_workflow_stays:
  assumes "protection_ok digest protect unprotect" and "inj sha256"
    and "(postgres_step is_uuid sha256 protect unprotect verify verify_service)\<^sup>*\<^sup>* new_store db"
    and "linkRefundWorkflowSchema body = Some w" and "verify_service header = Inr access"
    and "post_refund_workflow is_uuid (postgres_repository unprotect) sha256 verify_service db now ids c messageId body key header = (db1, Inr answer)"
    and "(postgres_step is_uuid sha256 protect unprotect verify verify_service)\<^sup>*\<^sup>* db1 db2"
  shows "answer = (202, with_meta (sa_requestId access) (JObj [(''conversationId'', JStr c), (''messageId'', JStr messageId), (''workflowId'', JStr w), (''status'', JStr ''LINKED'')]))
    \<and> holds_link (store_log unprotect db2) (access_scope_of access, pg_uuid c) (pg_uuid messageId) w"
proof -
  note ok = reachable_store [OF assms(1, 3)]
  from assms(4-6) obtain k result where run: "service_linkRefundWorkflow (postgres_repository unprotect) sha256 db now ids access c messageId w k = Inr (db1, result)"
      and answer: "answer = (202, with_meta (sa_requestId access) (JObj [(''conversationId'', JStr c), (''messageId'', JStr messageId),
        (''workflowId'', JStr (linked_workflow result)), (''status'', JStr ''LINKED'')]))"
    by (auto simp: post_refund_workflow_def split: option.splits sum.splits bool.splits)
  have one: "store_ok sha256 digest unprotect db1" using store.link_step [OF ok run] by blast
  from store.link_holds [OF ok run assms(2)] have held: "linked_workflow result = w" "holds_link (store_log unprotect db1) (access_scope_of access, pg_uuid c) (pg_uuid messageId) w"
    by simp_all
  show ?thesis using answer held holds_link_extends [OF steps_keep(2) [OF assms(1) one assms(7)]] by simp
qed

section \<open>Repeated requests\<close>

text \<open>The key that a successful append leaves behind.\<close>

lemma append_remembers:
  assumes "pg_appendMessage db r opt = Inr (db', result)"
  obtains k m n where "findIdempotencyResult db' (access_scope_of (am_context r)) (ao_operation opt) (am_conversationId r) (am_idempotencyKey r) = Some k"
    and "ky_canonical_request_hash k = am_canonicalRequestHash r" and "parseMessageResult (ky_result_json k) = Inr (m, n)"
    and "\<And>c. accepted_message c result = accepted_message c (DuplicateMessage m n)"
  using assms
proof (cases rule: pg_appendMessage_cases)
  case (1 row)
  let ?n = "cv_next_sequence_number row"
  have "findIdempotencyResult db' (access_scope_of (am_context r)) (ao_operation opt) (am_conversationId r) (am_idempotencyKey r)
      = Some (message_key_row r opt (am_messageId r) ?n)"
    using 1(4) unfolding store_message_Inr(2) [OF 1(6)]
    by (simp add: findIdempotencyResult_def with_message_def find_append ky_key_def message_key_row_def)
  then show thesis by (rule that) (simp_all add: message_key_row_def store_message_Inr(1) [OF 1(6)] accepted_message_def)
next
  case (2 row k m n)
  show thesis by (rule that [of k m n]) (simp_all add: 2)
next
  case (3 row x)
  have "findIdempotencyResult db' (access_scope_of (am_context r)) (ao_operation opt) (am_conversationId r) (am_idempotencyKey r)
      = Some (message_key_row r opt (mr_message_id x) (mr_sequence_number x))"
    using 3(4) unfolding 3(7) by (simp add: findIdempotencyResult_def find_append ky_key_def message_key_row_def)
  then show thesis by (rule that) (simp_all add: message_key_row_def 3(8))
qed

lemma append_owner:
  assumes "pg_appendMessage db r opt = Inr (db', result)"
  shows "\<exists>row. find_conversation db (am_key r) = Some row \<and> cv_status row = Status_OPEN \<and> cv_subject_customer_id row = sa_subjectCustomerId (am_context r)"
  using assms by (cases rule: pg_appendMessage_cases) blast+

lemma owner_persists:
  assumes "store_ok sha256 digest unprotect db'" and "log_extends (store_log unprotect db) (store_log unprotect db')" and "find_conversation db key = Some row"
  shows "\<exists>row'. find_conversation db' key = Some row' \<and> cv_status row' = Status_OPEN \<and> cv_subject_customer_id row' = cv_subject_customer_id row"
proof -
  have "\<exists>es. store_log unprotect db key = Some (cv_subject_customer_id row, es)" using assms(3) by (simp add: store_log_def)
  then have "\<exists>es. store_log unprotect db' key = Some (cv_subject_customer_id row, es)" using assms(2) unfolding log_extends_def by blast
  then obtain row' where row': "find_conversation db' key = Some row'" "cv_subject_customer_id row' = cv_subject_customer_id row" by (auto simp: store_log_def)
  have "conversation_ok db' row'" using find_conversation_SomeD [OF row'(1)] assms(1) by (simp add: store_ok_def list_all_iff)
  then show ?thesis using row' by (simp add: conversation_ok_def)
qed

lemma append_replayed:
  assumes first: "pg_appendMessage db r opt = Inr (db1, result)" and ok: "store_ok sha256 digest unprotect db"
    and ok2: "store_ok sha256 digest unprotect db2" and later: "log_extends (store_log unprotect db) (store_log unprotect db2)" and grows: "store_grows db1 db2"
    and same: "am_key r' = am_key r" "sa_subjectCustomerId (am_context r') = sa_subjectCustomerId (am_context r)" "am_conversationId r' = am_conversationId r"
      "am_idempotencyKey r' = am_idempotencyKey r" "am_canonicalRequestHash r' = am_canonicalRequestHash r" "ao_operation opt' = ao_operation opt"
  shows "\<exists>m n. pg_appendMessage db2 r' opt' = Inr (db2, DuplicateMessage m n) \<and> (\<forall>c. accepted_message c (DuplicateMessage m n) = accepted_message c result)"
proof -
  from append_remembers [OF first] obtain k m n where
    k: "findIdempotencyResult db1 (access_scope_of (am_context r)) (ao_operation opt) (am_conversationId r) (am_idempotencyKey r) = Some k"
      "ky_canonical_request_hash k = am_canonicalRequestHash r" "parseMessageResult (ky_result_json k) = Inr (m, n)"
    and result: "\<And>c. accepted_message c result = accepted_message c (DuplicateMessage m n)" by blast
  from append_owner [OF first] owner_persists [OF ok2 later] same(2) obtain row where
    "find_conversation db2 (am_key r) = Some row" "cv_status row = Status_OPEN" "cv_subject_customer_id row = sa_subjectCustomerId (am_context r')" by metis
  moreover have "access_scope_of (am_context r') = access_scope_of (am_context r)" using same(1) by (simp add: am_key_def)
  ultimately have "pg_appendMessage db2 r' opt' = Inr (db2, DuplicateMessage m n)"
    using key_persists [OF grows k(1)] k(2, 3) same by (simp add: pg_appendMessage_def ensureMatchingRequest_def)
  then show ?thesis using result by auto
qed

text \<open>
  C25. A repeated post is harmless. When a post of a message was answered with 202 and the same customer
  sends it again under the same key, at once or after any other requests, with whatever clock,
  identifiers and vector, the answer carries the same identifier and number and no table changes. The
  one way the repetition can fail is that the protector itself refuses the new vector.
\<close>

theorem repeated_post_changes_nothing:
  assumes "protection_ok digest protect unprotect"
    and "(postgres_step is_uuid sha256 protect unprotect verify verify_service)\<^sup>*\<^sup>* new_store db"
    and "post_message is_uuid (postgres_repository unprotect) sha256 protect verify db now ids vector c body key header = (db1, Inr (st, answer))"
    and "verify header = Inr ctx" and "(postgres_step is_uuid sha256 protect unprotect verify verify_service)\<^sup>*\<^sup>* db1 db2"
    and "verify header2 = Inr ctx2" and "same_customer ctx ctx2" and "\<And>words. is_ok (protect vector2 words)"
  shows "\<exists>a. answer = with_meta (ac_requestId ctx) (accepted_json a)
    \<and> post_message is_uuid (postgres_repository unprotect) sha256 protect verify db2 now2 ids2 vector2 c body key header2
      = (db2, Inr (202, with_meta (ac_requestId ctx2) (accepted_json a)))"
proof -
  note ok = reachable_store [OF assms(1, 2)]
  from post_message_answered [OF assms(3)] assms(4) obtain k clientMessageId words pm result where uuid: "is_uuid c" and parses: "acceptMessageSchema body = Some (clientMessageId, words)" "idempotencyKeySchema key = Some k"
      and short: "utf8_length words \<le> MAX_MESSAGE_BYTES" and pm: "protected_text protect vector words = Inr pm"
      and run: "rep_acceptMessage (postgres_repository unprotect) db (append_record sha256 now ids (customer_access ctx) c k clientMessageId words pm) = Inr (db1, result)"
      and answer: "answer = with_meta (ac_requestId ctx) (accepted_json (accepted_message c result))"
    by (metis Pair_inject sum.inject(2))
  let ?r = "append_record sha256 now ids (customer_access ctx) c k clientMessageId words pm"
  have first: "pg_appendMessage db ?r (customer_options ?r) = Inr (db1, result)" using run by (simp add: postgres_operations)
  from assms(8) obtain pm2 where pm2: "protected_text protect vector2 words = Inr pm2" by (metis is_ok_iff protected_text_def sum.case(2))
  let ?r2 = "append_record sha256 now2 ids2 (customer_access ctx2) c k clientMessageId words pm2"
  have one: "store_ok sha256 digest unprotect db1 \<and> log_step (store_log unprotect db) (store_log unprotect db1)"
    using store.accept_append [OF ok append_record_faithful [OF assms(1) pm] run] .
  then have later: "log_extends (store_log unprotect db) (store_log unprotect db2)"
    using steps_keep(2) [OF assms(1) _ assms(5)] log_step_extends log_extends_trans by blast
  have ok2: "store_ok sha256 digest unprotect db2" using one steps_keep(1) [OF assms(1) _ assms(5)] by blast
  have same: "am_key ?r2 = am_key ?r" "sa_subjectCustomerId (am_context ?r2) = sa_subjectCustomerId (am_context ?r)"
    using assms(7) by (simp_all add: same_customer_def)
  obtain m n where again: "pg_appendMessage db2 ?r2 (customer_options ?r2) = Inr (db2, DuplicateMessage m n)" "accepted_message c (DuplicateMessage m n) = accepted_message c result"
    using append_replayed [OF first ok ok2 later postgres_steps_grow [OF assms(5)] same, of "customer_options ?r2"] by (auto simp: customer_options_def)
  have "post_message is_uuid (postgres_repository unprotect) sha256 protect verify db2 now2 ids2 vector2 c body key header2
      = (db2, Inr (202, with_meta (ac_requestId ctx2) (accepted_json (accepted_message c result))))"
    using uuid parses short pm2 again assms(6) by (simp add: post_message_def service_acceptMessage_def postgres_operations)
  then show ?thesis using answer by blast
qed

section \<open>Identifiers of the assistant's messages\<close>

text \<open>
  A customer can block an assistant message. The stored identifier of an assistant message is the
  client's identifier behind the prefix \<^verbatim>\<open>assistant:\<close>, in the same column and under the same unique key
  as the identifiers customers choose, which may contain colons. Once a message with such an identifier
  is in the conversation, the assistant's message with the rest of it and a text of another digest is
  refused at any later time with \<^verbatim>\<open>IDEMPOTENCY_CONFLICT\<close>, under every key not used before.
\<close>

theorem customer_can_block_assistant_message:
  assumes "protection_ok digest protect unprotect"
    and "(postgres_step is_uuid sha256 protect unprotect verify verify_service)\<^sup>*\<^sup>* new_store db"
    and "m \<in> set (cd_messages db)" and "mr_key m = (access_scope_of access, pg_uuid c)" and "mr_client_message_id m = ''assistant:'' @ x"
    and "store_log unprotect db (access_scope_of access, pg_uuid c) = Some (sa_subjectCustomerId access, es)"
    and "(postgres_step is_uuid sha256 protect unprotect verify verify_service)\<^sup>*\<^sup>* db db2"
    and "is_uuid c" and "appendAssistantMessageSchema body = Some (x, words)" and "digest (utf8_bytes words) \<noteq> mr_content_sha256 m"
    and "utf8_length words \<le> MAX_MESSAGE_BYTES" and "idempotencyKeySchema key = Some k"
    and "findIdempotencyResult db2 (access_scope_of access) ''conversation.append-assistant-message'' c k = None"
    and "verify_service header = Inr access" and "is_ok (protect vector words)"
  shows "post_assistant_message is_uuid (postgres_repository unprotect) sha256 protect verify_service db2 now ids vector c body key header
    = (db2, Inl (409, ''IDEMPOTENCY_CONFLICT''))"
proof -
  note ok = reachable_store [OF assms(1, 2)]
  note later = steps_keep [OF assms(1) ok assms(7)]
  let ?key = "(access_scope_of access, pg_uuid c)"
  obtain m2 where m2: "m2 \<in> set (cd_messages db2)" "unlinked m2 = unlinked m" using message_persists [OF postgres_steps_grow [OF assms(7)] assms(3)] .
  then have "mr_key m2 = mr_key m" "mr_client_message_id m2 = mr_client_message_id m" "mr_content_sha256 m2 = mr_content_sha256 m"
    by (metis unlinked_simps)+
  then have row2: "client_key m2 = (?key, ''assistant:'' @ x)" "mr_content_sha256 m2 \<noteq> digest (utf8_bytes words)" using assms(4, 5, 10) by (simp_all add: client_key_def)
  from assms(6) obtain row where "find_conversation db ?key = Some row" "cv_subject_customer_id row = sa_subjectCustomerId access" by (auto simp: store_log_def)
  with owner_persists [OF later] obtain row2 where conversation: "find_conversation db2 ?key = Some row2" "cv_status row2 = Status_OPEN" "cv_subject_customer_id row2 = sa_subjectCustomerId access"
    by metis
  from assms(15) obtain pm where "protect vector words = Inr pm" by (auto simp: is_ok_iff)
  then have pm: "protected_text protect vector words = Inr pm" and digest: "pm_plaintextSha256 pm = digest (utf8_bytes words)"
    using protection_okD(3) [OF assms(1)] by (simp_all add: protected_text_def)
  let ?r = "append_record sha256 now ids access c k x words pm"
  have "distinct (map client_key (cd_messages db2))" using later(1) by (simp add: store_ok_def)
  moreover have "same_client_message ?r (assistant_options ?r) = (\<lambda>y. client_key y = (?key, ''assistant:'' @ x))"
    by (auto simp: fun_eq_iff same_client_message_def client_key_def assistant_options_def)
  ultimately have "List.find (same_client_message ?r (assistant_options ?r)) (cd_messages db2) = Some m2" using find_unique(1) m2(1) row2(1) by metis
  then have "pg_appendMessage db2 ?r (assistant_options ?r) = Inl IdempotencyConflictError"
    using conversation assms(13) row2(2) digest by (simp add: pg_appendMessage_def assistant_options_def)
  then show ?thesis using assms(8, 9, 11, 12, 14) pm
    by (simp add: post_assistant_message_def service_appendAssistantMessage_def postgres_operations sendStableError_def)
qed


section \<open>A small conversation\<close>

definition chat_context :: OrderAccessContext where
  "chat_context = \<lparr> ac_contextId = ''X1'', ac_tenantId = ''T1'', ac_environmentId = ''E1'', ac_subjectCustomerId = ''CUS-1'', ac_routingEpoch = 1,
     ac_requestId = ''R1'', ac_traceId = ''TR1'' \<rparr>"

definition chat_stranger :: OrderAccessContext where
  "chat_stranger = chat_context\<lparr> ac_subjectCustomerId := ''CUS-2'' \<rparr>"

text \<open>Two customers, told apart by their token.\<close>

definition chat_verify :: context_verifier where
  "chat_verify header = (if header = Some ''mine'' then Inr chat_context else if header = Some ''other'' then Inr chat_stranger else Inl SyntaxError)"

definition chat_verify_service :: service_verifier where
  "chat_verify_service header = (case chat_verify header of Inl e \<Rightarrow> Inl e | Inr ctx \<Rightarrow> Inr (customer_access ctx))"

definition chat_digest :: "bytes \<Rightarrow> string" where
  "chat_digest b = map (\<lambda>w. char_of (unat w)) b"

definition chat_protect :: protect_message where
  "chat_protect vector words = (if length vector \<noteq> 12 then Inl SyntaxError else Inr \<lparr> pm_ciphertext = utf8_bytes words, pm_initializationVector = vector,
     pm_authenticationTag = replicate 16 0, pm_plaintextSha256 = chat_digest (utf8_bytes words), pm_plaintextByteLength = int (utf8_length words),
     pm_encryptionKeyVersion = ''v1'' \<rparr>)"

definition chat_unprotect :: unprotect_message where
  "chat_unprotect m = (case utf8_string (pm_ciphertext m) of Some words \<Rightarrow> Inr words | None \<Rightarrow> Inl SyntaxError)"

abbreviation chat_repository :: "ConversationDb ConversationRepository" where
  "chat_repository \<equiv> postgres_repository chat_unprotect"

abbreviation chat_step :: "ConversationDb \<Rightarrow> ConversationDb \<Rightarrow> bool" where
  "chat_step \<equiv> postgres_step (\<lambda>_. True) (\<lambda>s. s) chat_protect chat_unprotect chat_verify chat_verify_service"

definition chat_message :: "string \<Rightarrow> string \<Rightarrow> json" where
  "chat_message i words = JObj [(''clientMessageId'', JStr i), (''content'', JObj [(''type'', JStr ''text''), (''text'', JStr words)])]"

definition chat_reply :: "string \<Rightarrow> string \<Rightarrow> json" where
  "chat_reply i words = JObj [(''client_message_id'', JStr i), (''content'', JObj [(''type'', JStr ''text''), (''text'', JStr words)])]"

definition chat_vector :: bytes where
  "chat_vector = replicate 12 0"

definition chat_open_post :: "ConversationDb \<times> answer" where
  "chat_open_post = post_conversations chat_repository (\<lambda>s. s) chat_verify new_store 0 (\<lambda>_. ''c1'') JUndefined (Some ''K0'') (Some ''mine'')"

definition chat_store :: ConversationDb where
  "chat_store = fst chat_open_post"

definition chat_post :: "ConversationDb \<times> answer" where
  "chat_post = post_message (\<lambda>_. True) chat_repository (\<lambda>s. s) chat_protect chat_verify chat_store 0 (\<lambda>_. ''m1'') chat_vector
     ''c1'' (chat_message ''assistant:a1'' ''Hi'') (Some ''K1'') (Some ''mine'')"

lemma chat_protection: "protection_ok chat_digest chat_protect chat_unprotect"
  by (auto simp: protection_ok_def chat_protect_def chat_unprotect_def)

lemma unat_lt256: "unat (w :: 8 word) < 256"
  using unsigned_less [of w] by simp

lemma chat_collision_free: "collision_free (\<lambda>s. s) chat_digest"
proof -
  have "inj (\<lambda>w :: 8 word. char_of (unat w) :: char)"
  proof (rule injI)
    fix v w :: "8 word" assume "char_of (unat v) = (char_of (unat w) :: char)"
    then have "of_char (char_of (unat v) :: char) = (of_char (char_of (unat w) :: char) :: nat)" by simp
    then show "v = w" using unat_lt256 [of v] unat_lt256 [of w] by (simp add: word_unat_eq_iff)
  qed
  then have "inj chat_digest" unfolding chat_digest_def by (rule inj_mapI)
  then show ?thesis by (simp add: collision_free_def inj_def)
qed

lemma chat_opened: "chat_open_post = (chat_store, Inr (201, with_meta ''R1'' (JObj (conversation_json \<lparr> cn_conversationId = ''c1'', cn_status = Status_OPEN, cn_controlMode = Mode_AI \<rparr>))))"
  by (simp add: chat_store_def) (simp add: chat_open_post_def post_conversations_def createConversationSchema_def z_object_def z_strict_def isRecord_def object_keys_def get_prop_def
      idempotencyKeySchema_def opaque_id_upto_def chat_verify_def service_createConversation_def postgres_repository_def pg_createConversation_def Let_def
      insertIdempotencyResult_def findIdempotencyResult_def new_store_def chat_context_def is_alnum_def is_upper_def id_tail_char_def is_digit_def is_lower_def)


lemma chat_store_reached: "chat_step\<^sup>*\<^sup>* new_store chat_store"
  unfolding chat_store_def chat_open_post_def by (rule r_into_rtranclp) (rule runtime_step.step_create)

lemma chat_texts: "trim ''Hi'' = ''Hi''" "trim ''Hello'' = ''Hello''" "utf8_length ''Hi'' = 2" "utf8_length ''Hello'' = 5" "pg_uuid ''c1'' = ''c1''"
  "opaque_id_upto 160 ''assistant:a1''" "opaque_id_upto 160 ''a1''" "opaque_id_upto 200 ''K1''" "opaque_id_upto 200 ''K2''"
  by code_simp+

lemma chat_parses:
  "acceptMessageSchema (chat_message ''assistant:a1'' ''Hi'') = Some (''assistant:a1'', ''Hi'')"
  "appendAssistantMessageSchema (chat_reply ''a1'' ''Hello'') = Some (''a1'', ''Hello'')"
  "idempotencyKeySchema (Some ''K1'') = Some ''K1''" "idempotencyKeySchema (Some ''K2'') = Some ''K2''"
  by (simp_all add: acceptMessageSchema_def appendAssistantMessageSchema_def chat_message_def chat_reply_def z_object_def z_strict_def isRecord_def object_keys_def
      get_prop_def text_content_def z_trimmed_def chat_texts idempotencyKeySchema_def)


lemma chat_store_val: "chat_store = \<lparr> cd_conversations = [\<lparr> cv_scope = (''T1'', ''E1''), cv_conversation_id = ''c1'', cv_subject_customer_id = ''CUS-1'',
    cv_channel = ''web'', cv_status = Status_OPEN, cv_control_mode = Mode_AI, cv_next_sequence_number = 1, cv_record_version = 1, cv_created_at = 0, cv_updated_at = 0 \<rparr>],
    cd_payloads = [], cd_messages = [], cd_idempotency = [\<lparr> ky_scope = (''T1'', ''E1''), ky_operation = ''conversation.create'', ky_resource_scope = ''CUS-1'',
      ky_idempotency_key = ''K0'', ky_canonical_request_hash = hashCanonicalRequest (\<lambda>s. s) [(''channel'', ''web''), (''subjectCustomerId'', ''CUS-1'')],
      ky_result_json = JObj [(''conversationId'', JStr ''c1'')], ky_created_at = 0 \<rparr>], cd_outbox = [] \<rparr>"
  by (simp add: chat_store_def chat_open_post_def post_conversations_def createConversationSchema_def z_object_def z_strict_def isRecord_def object_keys_def get_prop_def
      idempotencyKeySchema_def opaque_id_upto_def chat_verify_def service_createConversation_def postgres_repository_def pg_createConversation_def Let_def
      insertIdempotencyResult_def findIdempotencyResult_def new_store_def chat_context_def is_alnum_def is_upper_def id_tail_char_def is_digit_def is_lower_def)

lemma chat_protected: "chat_protect chat_vector words = Inr \<lparr> pm_ciphertext = utf8_bytes words, pm_initializationVector = chat_vector,
     pm_authenticationTag = replicate 16 0, pm_plaintextSha256 = chat_digest (utf8_bytes words), pm_plaintextByteLength = int (utf8_length words),
     pm_encryptionKeyVersion = ''v1'' \<rparr>" "length chat_vector = 12"
  by (simp_all add: chat_protect_def chat_vector_def)

lemma chat_posted: "chat_post = (fst chat_post, Inr (202, with_meta ''R1'' (accepted_json \<lparr> as_conversationId = ''c1'', as_messageId = ''m1'', as_sequenceNumber = 1 \<rparr>)))"
  "map (\<lambda>m. (mr_key m, mr_client_message_id m, mr_content_sha256 m)) (cd_messages (fst chat_post)) = [(((''T1'', ''E1''), ''c1''), ''assistant:a1'', chat_digest (utf8_bytes ''Hi''))]"
  "ky_operation ` set (cd_idempotency (fst chat_post)) = {''conversation.create'', ''conversation.accept-message''}"
  by (simp_all add: chat_post_def post_message_def chat_parses chat_verify_def service_acceptMessage_def chat_texts MAX_MESSAGE_BYTES_def protected_text_def chat_protected
      postgres_operations pg_appendMessage_def find_conversation_def chat_store_val cv_key_def chat_context_def customer_access_def access_scope_of_def append_record_def am_key_def
      findIdempotencyResult_def ky_key_def customer_options_def store_message_def allocate_sequence_def isSafeInteger_small insert_payload_def payload_row_def
      insert_message_def message_row_def insert_event_def event_row_def remember_message_def insertIdempotencyResult_def Let_def accepted_message_def mr_key_def insert_commute)


lemma chat_posted_later: "chat_step\<^sup>*\<^sup>* chat_store (fst chat_post)"
  unfolding chat_post_def by (rule r_into_rtranclp) (rule runtime_step.step_message)

lemma chat_posted_reached: "chat_step\<^sup>*\<^sup>* new_store (fst chat_post)"
  using chat_store_reached chat_posted_later by (rule rtranclp_trans)

lemma chat_log: "store_log chat_unprotect chat_store ((''T1'', ''E1''), ''c1'') = Some (''CUS-1'', [])"
  by (simp add: store_log_def find_conversation_def messages_of_def chat_store_val cv_key_def)

lemma chat_tokens: "chat_verify (Some ''mine'') = Inr chat_context" "chat_verify (Some ''other'') = Inr chat_stranger"
  "chat_verify_service (Some ''other'') = Inr (customer_access chat_stranger)" "chat_verify_service (Some ''mine'') = Inr (customer_access chat_context)"
  by (simp_all add: chat_verify_def chat_verify_service_def)

theorem runtime_refines_log_witness:
  "log_step\<^sup>*\<^sup>* (\<lambda>_. None) (store_log chat_unprotect (fst chat_post)) \<and> ky_operation ` set (cd_idempotency (fst chat_post)) \<noteq> {}"
  using runtime_refines_log [OF chat_protection chat_posted_reached] chat_posted(3) by simp

theorem messages_and_events_in_step_witness:
  "map event_view (cd_outbox (fst chat_post)) = map message_view (cd_messages (fst chat_post)) \<and> length (cd_messages (fst chat_post)) = 1"
  using messages_and_events_in_step [OF chat_protection chat_posted_reached] arg_cong [where f = length, OF chat_posted(2)] by simp

theorem posted_message_stays_readable_witness:
  "\<exists>n t. get_conversation (\<lambda>_. True) chat_repository chat_verify (fst chat_post) ''c1'' (Some ''mine'') = Inr (200, with_meta ''R1'' (transcript_json t))
    \<and> tm_text (ct_messages t ! nat (n - 1)) = ''Hi''"
  using posted_message_stays_readable [OF chat_protection chat_collision_free chat_store_reached chat_parses(1) chat_tokens(1)
      chat_posted(1) [unfolded chat_post_def] rtranclp.rtrancl_refl chat_tokens(1)]
  by (auto simp: same_customer_def chat_context_def chat_post_def)

text \<open>The posted message is in the transcript, and still is after the next post.\<close>

definition chat_next :: "ConversationDb \<times> answer" where
  "chat_next = post_message (\<lambda>_. True) chat_repository (\<lambda>s. s) chat_protect chat_verify (fst chat_post) 7 (\<lambda>_. ''m2'') chat_vector
     ''c1'' (chat_message ''a2'' ''Hello'') (Some ''K2'') (Some ''mine'')"

lemma chat_next_later: "chat_step\<^sup>*\<^sup>* (fst chat_post) (fst chat_next)"
  unfolding chat_next_def by (rule r_into_rtranclp) (rule runtime_step.step_message)

lemma chat_posted_log: "\<exists>e. store_log chat_unprotect (fst chat_post) ((''T1'', ''E1''), ''c1'') = Some (''CUS-1'', [e])"
proof -
  obtain es where es: "store_log chat_unprotect (fst chat_post) ((''T1'', ''E1''), ''c1'') = Some (''CUS-1'', es)"
    using steps_keep(2) [OF chat_protection reachable_store [OF chat_protection chat_store_reached] chat_posted_later] chat_log
    unfolding log_extends_def by blast
  obtain m where m: "cd_messages (fst chat_post) = [m]" "mr_key m = ((''T1'', ''E1''), ''c1'')"
    using chat_posted(2) by (auto simp: map_eq_Cons_conv)
  from es have "es = map (entry_of chat_unprotect (fst chat_post)) (messages_of (fst chat_post) ((''T1'', ''E1''), ''c1''))" by (auto simp: store_log_def)
  with m have "length es = 1" by (simp add: messages_of_def)
  then obtain e where "es = [e]" by (cases es) auto
  with es show ?thesis by blast
qed

theorem transcript_only_grows_witness:
  "\<exists>t t2. service_getConversation chat_repository (fst chat_post) chat_context ''c1'' = Inr t \<and> length (ct_messages t) = 1
    \<and> service_getConversation chat_repository (fst chat_next) chat_context ''c1'' = Inr t2 \<and> message_kept (hd (ct_messages t)) (hd (ct_messages t2))"
proof -
  obtain e where e: "store_log chat_unprotect (fst chat_post) ((''T1'', ''E1''), ''c1'') = Some (''CUS-1'', [e])" using chat_posted_log by blast
  then obtain t where t: "service_getConversation chat_repository (fst chat_post) chat_context ''c1'' = Inr t" "length (ct_messages t) = 1"
    by (simp add: service_getConversation_def store.read [OF reachable_store [OF chat_protection chat_posted_reached]] chat_texts chat_context_def numbered_def)
  then obtain m where m: "ct_messages t = [m]" by (cases "ct_messages t") auto
  have same: "same_customer chat_context chat_context" by (simp add: same_customer_def)
  obtain t2 where t2: "service_getConversation chat_repository (fst chat_next) chat_context ''c1'' = Inr t2"
      "list_all2 message_kept [m] (take 1 (ct_messages t2))"
    using transcript_only_grows [OF chat_protection chat_posted_reached t(1) chat_next_later same] m by auto
  then have "message_kept m (hd (ct_messages t2))" by (cases "ct_messages t2") auto
  with t t2 m show ?thesis by auto
qed

theorem other_customer_has_no_access_witness:
  "\<exists>e. get_conversation (\<lambda>_. True) chat_repository chat_verify chat_store ''c1'' (Some ''other'') = Inl e"
  using other_customer_has_no_access [OF chat_protection chat_store_reached chat_tokens(2) _ _ chat_tokens(3), of "''c1''" "''CUS-1''" "[]"] chat_log
  by (simp add: chat_stranger_def chat_context_def chat_texts)

theorem repeated_post_changes_nothing_witness:
  "\<exists>a. post_message (\<lambda>_. True) chat_repository (\<lambda>s. s) chat_protect chat_verify (fst chat_post) 7 (\<lambda>_. ''m2'') chat_vector
      ''c1'' (chat_message ''assistant:a1'' ''Hi'') (Some ''K1'') (Some ''mine'') = (fst chat_post, Inr (202, with_meta ''R1'' (accepted_json a)))"
  using repeated_post_changes_nothing [OF chat_protection chat_store_reached chat_posted(1) [unfolded chat_post_def] chat_tokens(1) rtranclp.rtrancl_refl chat_tokens(1),
      of chat_vector 7 "\<lambda>_. ''m2''"]
  by (auto simp: same_customer_def chat_context_def chat_post_def chat_protected)

theorem customer_can_block_assistant_message_witness:
  "post_assistant_message (\<lambda>_. True) chat_repository (\<lambda>s. s) chat_protect chat_verify_service (fst chat_post) 7 (\<lambda>_. ''m2'') chat_vector
     ''c1'' (chat_reply ''a1'' ''Hello'') (Some ''K2'') (Some ''mine'') = (fst chat_post, Inl (409, ''IDEMPOTENCY_CONFLICT''))"
proof -
  obtain m where m: "cd_messages (fst chat_post) = [m]" "mr_key m = ((''T1'', ''E1''), ''c1'')" "mr_client_message_id m = ''assistant:'' @ ''a1''"
      "mr_content_sha256 m = chat_digest (utf8_bytes ''Hi'')"
    using chat_posted(2) by (auto simp: map_eq_Cons_conv)
  have fresh: "findIdempotencyResult (fst chat_post) sc ''conversation.append-assistant-message'' ''c1'' ''K2'' = None" for sc
  proof -
    have "ky_operation k \<in> {''conversation.create'', ''conversation.accept-message''}" if "k \<in> set (cd_idempotency (fst chat_post))" for k
      using imageI [OF that, of ky_operation] unfolding chat_posted(3) .
    then show ?thesis by (fastforce simp: findIdempotencyResult_def find_None_conv ky_key_def)
  qed
  obtain es where "store_log chat_unprotect (fst chat_post) ((''T1'', ''E1''), ''c1'') = Some (''CUS-1'', es)"
    using steps_keep(2) [OF chat_protection reachable_store [OF chat_protection chat_store_reached] chat_posted_later] chat_log
    unfolding log_extends_def by blast
  moreover have "chat_digest (utf8_bytes ''Hello'') \<noteq> chat_digest (utf8_bytes ''Hi'')"
    using chat_collision_free by (auto simp: collision_free_def utf8_bytes_inject dest: injD)
  ultimately show ?thesis
    using customer_can_block_assistant_message [where es = es and m = m, OF chat_protection chat_posted_reached _ _ m(3) _ rtranclp.rtrancl_refl _ chat_parses(2) _ _ chat_parses(4) fresh chat_tokens(4)] m
    by (simp add: chat_texts chat_context_def MAX_MESSAGE_BYTES_def chat_protected)
qed

definition chat_replied :: "ConversationDb \<times> answer" where
  "chat_replied = post_assistant_message (\<lambda>_. True) chat_repository (\<lambda>s. s) chat_protect chat_verify_service chat_store 0 (\<lambda>_. ''m1'') chat_vector
     ''c1'' (chat_reply ''a1'' ''Hello'') (Some ''K1'') (Some ''mine'')"

definition chat_linked :: "ConversationDb \<times> answer" where
  "chat_linked = post_refund_workflow (\<lambda>_. True) chat_repository (\<lambda>s. s) chat_verify_service (fst chat_replied) 0 (\<lambda>_. ''v1'') ''c1'' ''m1''
     (JObj [(''workflow_id'', JStr ''a1'')]) (Some ''K2'') (Some ''mine'')"

lemma chat_replied_reached: "chat_step\<^sup>*\<^sup>* new_store (fst chat_replied)"
  using chat_store_reached unfolding chat_replied_def by (rule rtranclp.rtrancl_into_rtrancl) (rule runtime_step.step_assistant)

lemma chat_link_parses: "linkRefundWorkflowSchema (JObj [(''workflow_id'', JStr ''a1'')]) = Some ''a1''" "opaque_id_upto 200 ''a1''" "pg_uuid ''m1'' = ''m1''"
proof -
  show 1: "opaque_id_upto 200 ''a1''" by code_simp
  show "pg_uuid ''m1'' = ''m1''" by code_simp
  show "linkRefundWorkflowSchema (JObj [(''workflow_id'', JStr ''a1'')]) = Some ''a1''"
    using 1 by (simp add: linkRefundWorkflowSchema_def z_object_def z_strict_def isRecord_def object_keys_def get_prop_def)
qed

lemma chat_replied_val: "find_conversation (fst chat_replied) ((''T1'', ''E1''), ''c1'') \<noteq> None"
  "map cv_subject_customer_id (cd_conversations (fst chat_replied)) = [''CUS-1'']"
  "map (\<lambda>m. (mr_key m, mr_message_id m, mr_sender_kind m, mr_status m, mr_refund_workflow_id m)) (cd_messages (fst chat_replied))
    = [(((''T1'', ''E1''), ''c1''), ''m1'', ASSISTANT, COMMITTED, None)]"
  "map ky_operation (cd_idempotency (fst chat_replied)) = [''conversation.create'', ''conversation.append-assistant-message'']"
  by (simp_all add: chat_replied_def post_assistant_message_def chat_parses chat_verify_def chat_verify_service_def service_appendAssistantMessage_def chat_texts
      MAX_MESSAGE_BYTES_def protected_text_def chat_protected postgres_operations pg_appendMessage_def find_conversation_def chat_store_val cv_key_def chat_context_def
      customer_access_def access_scope_of_def append_record_def am_key_def findIdempotencyResult_def ky_key_def assistant_options_def store_message_def
      allocate_sequence_def isSafeInteger_small insert_payload_def payload_row_def insert_message_def message_row_def insert_event_def event_row_def
      remember_message_def insertIdempotencyResult_def Let_def accepted_message_def mr_key_def advance_def)

lemma chat_linked_ok: "\<exists>answer. chat_linked = (fst chat_linked, Inr answer)"
proof -
  obtain m where m: "cd_messages (fst chat_replied) = [m]" "mr_key m = ((''T1'', ''E1''), ''c1'')" "mr_message_id m = ''m1''" "mr_sender_kind m = ASSISTANT"
      "mr_status m = COMMITTED" "mr_refund_workflow_id m = None" using chat_replied_val(3) by (auto simp: map_eq_Cons_conv)
  obtain row where row: "find_conversation (fst chat_replied) ((''T1'', ''E1''), ''c1'') = Some row" using chat_replied_val(1) by blast
  have "row \<in> set (cd_conversations (fst chat_replied))" using find_conversation_SomeD [OF row] by simp
  then have "cv_subject_customer_id row \<in> set (map cv_subject_customer_id (cd_conversations (fst chat_replied)))" by simp
  then have owner: "cv_subject_customer_id row = ''CUS-1''" unfolding chat_replied_val(2) by simp
  have fresh: "List.find (\<lambda>k. ky_key k = (sc, ''conversation.link-refund-workflow'', c, x)) (cd_idempotency (fst chat_replied)) = None" for sc c x
    using chat_replied_val(4) by (auto simp: find_None_conv ky_key_def map_eq_Cons_conv)
  show ?thesis
    by (simp add: chat_linked_def post_refund_workflow_def chat_link_parses chat_parses chat_tokens service_linkRefundWorkflow_def postgres_operations pg_linkRefundWorkflow_def
        findIdempotencyResult_def fresh lr_key_def m row owner chat_texts chat_context_def customer_access_def access_scope_of_def linkable_def remember_link_def insertIdempotencyResult_def)
qed

theorem linked_workflow_stays_witness: "holds_link (store_log chat_unprotect (fst chat_linked)) ((''T1'', ''E1''), ''c1'') ''m1'' ''a1''"
proof -
  obtain answer where "chat_linked = (fst chat_linked, Inr answer)" using chat_linked_ok by blast
  from linked_workflow_stays [OF chat_protection _ chat_replied_reached chat_link_parses(1) chat_tokens(4) this [unfolded chat_linked_def] rtranclp.rtrancl_refl]
  show ?thesis by (simp add: chat_linked_def chat_texts chat_link_parses chat_context_def)
qed

end
