(* ===== verification/Edge_Context.thy ===== *)
theory Edge_Context
  imports Access_Assertions "HOL-Library.Sublist"
begin

text \<open>
  What the edge reads out of a conversation before it calls the agent, under
  \<^verbatim>\<open>src/apps/services/edge-api/src/\<close>: the bounded, customer-only history of
  \<^verbatim>\<open>customer-conversation-context.ts\<close> and the order reference of \<^verbatim>\<open>order-reference.ts\<close>, whose regular
  expression is written out with its word boundaries and its backtracking.
\<close>

section \<open>The history for the agent\<close>

definition MAX_CUSTOMER_CONVERSATION_MESSAGES :: nat where
  "MAX_CUSTOMER_CONVERSATION_MESSAGES = 8"

definition MAX_CUSTOMER_CONVERSATION_MESSAGE_CHARACTERS :: nat where
  "MAX_CUSTOMER_CONVERSATION_MESSAGE_CHARACTERS = 2000"

definition MAX_CUSTOMER_CONVERSATION_CONTEXT_CHARACTERS :: nat where
  "MAX_CUSTOMER_CONVERSATION_CONTEXT_CHARACTERS = 8000"

text \<open>A message of the transcript as the edge has parsed it.\<close>

record EdgeMessage =
  em_messageId :: string
  em_sequenceNumber :: int
  em_senderKind :: string
  em_text :: string
  em_createdAt :: string
  em_refundWorkflowId :: "string option"

record CustomerConversationMessage =
  cm_sequence_number :: int
  cm_text :: string

definition context_message :: "EdgeMessage \<Rightarrow> CustomerConversationMessage" where
  "context_message m = \<lparr> cm_sequence_number = em_sequenceNumber m, cm_text = em_text m \<rparr>"

text \<open>The loop over the messages, newest first; the arguments are what it has selected and counted.\<close>

fun select_messages :: "CustomerConversationMessage list \<Rightarrow> nat \<Rightarrow> EdgeMessage list \<Rightarrow> CustomerConversationMessage list" where
  "select_messages selected characters [] = selected"
| "select_messages selected characters (m # ms) =
     (if length (em_text m) > MAX_CUSTOMER_CONVERSATION_MESSAGE_CHARACTERS then select_messages selected characters ms
      else if length selected = MAX_CUSTOMER_CONVERSATION_MESSAGES \<or> characters + length (em_text m) > MAX_CUSTOMER_CONVERSATION_CONTEXT_CHARACTERS
        then select_messages selected characters ms
      else select_messages (selected @ [context_message m]) (characters + length (em_text m)) ms)"

definition customer_messages :: "EdgeMessage list \<Rightarrow> EdgeMessage list" where
  "customer_messages messages = sort_key em_sequenceNumber (filter (\<lambda>m. em_senderKind m = ''END_CUSTOMER'') messages)"

definition buildCustomerConversationContext :: "EdgeMessage list \<Rightarrow> string \<Rightarrow> string \<Rightarrow> CustomerConversationMessage list result" where
  "buildCustomerConversationContext messages acceptedId acceptedText =
     (let customerMessages = customer_messages messages in
      case List.find (\<lambda>m. em_messageId m = acceptedId \<and> em_text m = acceptedText) customerMessages of
        None \<Rightarrow> Inl (Error ''The persisted conversation is missing the accepted customer message'')
      | Some acceptedMessage \<Rightarrow>
          (let history = rev (select_messages [] 0 (rev customerMessages)) in
           if \<not> list_ex (\<lambda>c. cm_sequence_number c = em_sequenceNumber acceptedMessage) history
           then Inl (Error ''The accepted customer message exceeds the conversation context limits'')
           else Inr history))"

definition characters_of :: "CustomerConversationMessage list \<Rightarrow> nat" where
  "characters_of cs = sum_list (map (\<lambda>c. length (cm_text c)) cs)"

lemma characters_of_simps [simp]: "characters_of [] = 0" "characters_of (c # cs) = length (cm_text c) + characters_of cs"
  "characters_of (xs @ ys) = characters_of xs + characters_of ys" "characters_of (rev xs) = characters_of xs"
  by (simp_all add: characters_of_def rev_map [symmetric] sum_list_rev)

lemma select_messages_bounds:
  assumes "length selected \<le> MAX_CUSTOMER_CONVERSATION_MESSAGES" and "characters_of selected \<le> MAX_CUSTOMER_CONVERSATION_CONTEXT_CHARACTERS"
  shows "length (select_messages selected (characters_of selected) ms) \<le> MAX_CUSTOMER_CONVERSATION_MESSAGES
    \<and> characters_of (select_messages selected (characters_of selected) ms) \<le> MAX_CUSTOMER_CONVERSATION_CONTEXT_CHARACTERS"
  using assms
proof (induction ms arbitrary: selected)
  case (Cons m ms)
  then show ?case using Cons.IH [of "selected @ [context_message m]"] by (simp add: context_message_def add.commute)
qed simp

lemma select_messages_subseq: "\<exists>picked. select_messages selected n ms = selected @ picked \<and> subseq picked (map context_message ms)
    \<and> (\<forall>c \<in> set picked. length (cm_text c) \<le> MAX_CUSTOMER_CONVERSATION_MESSAGE_CHARACTERS)"
proof (induction ms arbitrary: selected n)
  case (Cons m ms)
  show ?case
  proof (cases "length (em_text m) > MAX_CUSTOMER_CONVERSATION_MESSAGE_CHARACTERS \<or> length selected = MAX_CUSTOMER_CONVERSATION_MESSAGES
      \<or> n + length (em_text m) > MAX_CUSTOMER_CONVERSATION_CONTEXT_CHARACTERS")
    case True
    then have "select_messages selected n (m # ms) = select_messages selected n ms" by auto
    from Cons.IH [of selected n] obtain picked where "select_messages selected n ms = selected @ picked" "subseq picked (map context_message ms)"
      "\<forall>c \<in> set picked. length (cm_text c) \<le> MAX_CUSTOMER_CONVERSATION_MESSAGE_CHARACTERS" by blast
    then show ?thesis unfolding \<open>select_messages selected n (m # ms) = _\<close> by (intro exI [of _ picked]) (simp add: list_emb_Cons)
  next
    case False
    then have step: "select_messages selected n (m # ms) = select_messages (selected @ [context_message m]) (n + length (em_text m)) ms" by simp
    from Cons.IH [of "selected @ [context_message m]" "n + length (em_text m)"] obtain picked where
      "select_messages (selected @ [context_message m]) (n + length (em_text m)) ms = (selected @ [context_message m]) @ picked"
      "subseq picked (map context_message ms)" "\<forall>c \<in> set picked. length (cm_text c) \<le> MAX_CUSTOMER_CONVERSATION_MESSAGE_CHARACTERS" by blast
    moreover have "length (cm_text (context_message m)) \<le> MAX_CUSTOMER_CONVERSATION_MESSAGE_CHARACTERS" using False by (simp add: context_message_def)
    ultimately show ?thesis unfolding step by (intro exI [of _ "context_message m # picked"]) simp
  qed
qed simp

lemma subseq_reversed: "subseq xs ys \<Longrightarrow> subseq (rev xs) (rev ys)"
proof (induction rule: list_emb.induct)
  case (list_emb_Cons xs ys y)
  then show ?case using list_emb_append_mono [of "(=)" "rev xs" "rev ys" "[]" "[y]"] by simp
next
  case (list_emb_Cons2 x y xs ys)
  then show ?case using list_emb_append_mono [of "(=)" "rev xs" "rev ys" "[x]" "[y]"] by simp
qed simp

text \<open>
  C39. The agent's history. What the edge hands to the agent as the history of a conversation are at most
  eight messages with at most 8,000 characters in all and 2,000 in each, all of them messages of the
  customer, in the order of their numbers, each at most once, and the message that was just accepted is
  among them. Nothing the assistant wrote is in it. If the accepted message cannot be part of it, the
  request fails instead.
\<close>

theorem agent_history_bounded:
  assumes "buildCustomerConversationContext messages acceptedId acceptedText = Inr history"
  shows "length history \<le> 8 \<and> characters_of history \<le> 8000 \<and> list_all (\<lambda>c. length (cm_text c) \<le> 2000) history
    \<and> subseq history (map context_message (sort_key em_sequenceNumber (filter (\<lambda>m. em_senderKind m = ''END_CUSTOMER'') messages)))
    \<and> list_ex (\<lambda>m. em_messageId m = acceptedId \<and> em_text m = acceptedText \<and> em_senderKind m = ''END_CUSTOMER''
         \<and> em_sequenceNumber m \<in> cm_sequence_number ` set history) messages"
proof -
  let ?customer = "customer_messages messages"
  from assms obtain m where m: "List.find (\<lambda>m. em_messageId m = acceptedId \<and> em_text m = acceptedText) ?customer = Some m"
      and history: "history = rev (select_messages [] 0 (rev ?customer))" and there: "list_ex (\<lambda>c. cm_sequence_number c = em_sequenceNumber m) history"
    by (auto simp: buildCustomerConversationContext_def Let_def split: option.splits if_splits)
  from select_messages_subseq [of "[]" 0 "rev ?customer"] obtain picked where picked: "select_messages [] 0 (rev ?customer) = picked"
      "subseq picked (map context_message (rev ?customer))" "\<forall>c \<in> set picked. length (cm_text c) \<le> MAX_CUSTOMER_CONVERSATION_MESSAGE_CHARACTERS" by auto
  have "subseq (rev picked) (map context_message ?customer)" using subseq_reversed [OF picked(2)] by (simp add: rev_map)
  moreover have "length history \<le> 8" "characters_of history \<le> 8000"
    using select_messages_bounds [of "[]" "rev ?customer"]
    by (simp_all add: history MAX_CUSTOMER_CONVERSATION_MESSAGES_def MAX_CUSTOMER_CONVERSATION_CONTEXT_CHARACTERS_def)
  moreover from find_SomeD [OF m] have "m \<in> set messages \<and> em_senderKind m = ''END_CUSTOMER'' \<and> em_messageId m = acceptedId \<and> em_text m = acceptedText"
    by (simp add: customer_messages_def)
  moreover have "em_sequenceNumber m \<in> cm_sequence_number ` set history" using there by (force simp: list_ex_iff)
  moreover have "history = rev picked" using history picked(1) by simp
  ultimately show ?thesis using picked(3)
    unfolding list_ex_iff list_all_iff customer_messages_def MAX_CUSTOMER_CONVERSATION_MESSAGE_CHARACTERS_def by auto
qed

section \<open>Order references\<close>

definition is_word_char :: "char \<Rightarrow> bool" where
  "is_word_char c \<longleftrightarrow> is_alnum c \<or> c = CHR ''_''"

definition is_reference_char :: "char \<Rightarrow> bool" where
  "is_reference_char c \<longleftrightarrow> is_alnum c \<or> c = CHR ''-''"

text \<open>\<^verbatim>\<open>\b\<close> between two neighbours, where \<^const>\<open>None\<close> is the start or the end of the text.\<close>

definition word_boundary :: "char option \<Rightarrow> char option \<Rightarrow> bool" where
  "word_boundary before behind \<longleftrightarrow> (case before of None \<Rightarrow> False | Some c \<Rightarrow> is_word_char c) \<noteq> (case behind of None \<Rightarrow> False | Some c \<Rightarrow> is_word_char c)"

definition char_at :: "string \<Rightarrow> nat \<Rightarrow> char option" where
  "char_at s i = (if i < length s then Some (s ! i) else None)"

text \<open>
  How many characters behind the first one \<^verbatim>\<open>/\b[A-Za-z0-9][A-Za-z0-9-]{7,99}\b/\<close> takes from the
  text \<^verbatim>\<open>s\<close> behind \<^verbatim>\<open>before\<close>: as many as it can, given back until a boundary follows.
\<close>

definition match_reference :: "char option \<Rightarrow> string \<Rightarrow> nat option" where
  "match_reference before s = (case s of [] \<Rightarrow> None
   | c # cs \<Rightarrow> if is_alnum c \<and> word_boundary before (Some c)
       then List.find (\<lambda>k. word_boundary (char_at s k) (char_at s (Suc k))) (rev [7..<Suc (length (takeWhile is_reference_char (take 99 cs)))])
       else None)"

function matchAll_references :: "char option \<Rightarrow> string \<Rightarrow> string list" where
  "matchAll_references before [] = []"
| "matchAll_references before (c # cs) = (case match_reference before (c # cs) of
     None \<Rightarrow> matchAll_references (Some c) cs
   | Some k \<Rightarrow> take (Suc k) (c # cs) # matchAll_references (Some ((c # cs) ! k)) (drop k cs))"
  by pat_completeness auto

termination by (relation "measure (\<lambda>(before, s). length s)") auto

datatype OrderReferenceResolution = NoReference | AmbiguousReference | UniqueReference string

definition is_letter :: "char \<Rightarrow> bool" where
  "is_letter c \<longleftrightarrow> is_upper c \<or> is_lower c"

definition reference_candidates :: "string \<Rightarrow> string list" where
  "reference_candidates customerMessage =
     remdups (map toUpperCase (filter (\<lambda>t. list_ex is_letter t \<and> list_ex is_digit t) (matchAll_references None customerMessage)))"

definition resolveOrderReferenceFromText :: "string \<Rightarrow> OrderReferenceResolution" where
  "resolveOrderReferenceFromText customerMessage = (case reference_candidates customerMessage of
     [] \<Rightarrow> NoReference | [v] \<Rightarrow> UniqueReference v | _ \<Rightarrow> AmbiguousReference)"

definition resolveOrderReference :: "string \<Rightarrow> string option \<Rightarrow> string option" where
  "resolveOrderReference customerMessage explicit = (case explicit of Some v \<Rightarrow> Some v
   | None \<Rightarrow> (case resolveOrderReferenceFromText customerMessage of UniqueReference v \<Rightarrow> Some v | _ \<Rightarrow> None))"

fun latest_reference :: "CustomerConversationMessage list \<Rightarrow> string option" where
  "latest_reference [] = None"
| "latest_reference (m # ms) = (case resolveOrderReferenceFromText (cm_text m) of
     AmbiguousReference \<Rightarrow> None | UniqueReference v \<Rightarrow> Some v | NoReference \<Rightarrow> latest_reference ms)"

definition resolveOrderReferenceFromCustomerMessages :: "CustomerConversationMessage list \<Rightarrow> string option \<Rightarrow> string option" where
  "resolveOrderReferenceFromCustomerMessages customerMessages explicit = (case explicit of Some v \<Rightarrow> Some v | None \<Rightarrow> latest_reference (rev customerMessages))"

lemma match_reference_bounds: "match_reference before s = Some k \<Longrightarrow> 7 \<le> k \<and> k \<le> 99 \<and> k < length s \<and> list_all is_reference_char (take (Suc k) s)"
proof (cases s)
  case (Cons c cs)
  assume "match_reference before s = Some k"
  then have alnum: "is_alnum c" and found: "List.find (\<lambda>k. word_boundary (char_at s k) (char_at s (Suc k))) (rev [7..<Suc (length (takeWhile is_reference_char (take 99 cs)))]) = Some k"
    by (simp_all add: match_reference_def Cons split: if_splits)
  from find_SomeD [OF found] have k: "7 \<le> k" "k \<le> length (takeWhile is_reference_char (take 99 cs))" by auto
  have n: "length (takeWhile is_reference_char (take 99 cs)) \<le> length (take 99 cs)" by (rule length_takeWhile_le)
  have "take k cs = take k (takeWhile is_reference_char (take 99 cs))"
    using k(2) n by (metis (no_types, lifting) le_trans length_take min.bounded_iff min_def take_take takeWhile_eq_take)
  then have "list_all is_reference_char (take k cs)" by (metis in_set_takeD list_all_iff set_takeWhileD)
  then show ?thesis using k n alnum by (simp add: Cons is_reference_char_def)
qed (simp add: match_reference_def)

lemma matchAll_references_sublist: "t \<in> set (matchAll_references before s) \<Longrightarrow> sublist t s \<and> 8 \<le> length t \<and> length t \<le> 100 \<and> list_all is_reference_char t"
proof (induction before s rule: matchAll_references.induct)
  case (2 before c cs)
  show ?case
  proof (cases "match_reference before (c # cs)")
    case None
    then show ?thesis using 2 by (auto intro: sublist_Cons_right [THEN iffD2])
  next
    case (Some k)
    note b = match_reference_bounds [OF Some]
    from 2(3) Some consider "t = take (Suc k) (c # cs)" | "t \<in> set (matchAll_references (Some ((c # cs) ! k)) (drop k cs))" by auto
    then show ?thesis
    proof cases
      case 1
      then show ?thesis using b by (simp add: min_def) (metis sublist_take take_Suc_Cons)
    next
      case other: 2
      from 2(2) [OF Some other] have "sublist t (drop k cs)" "8 \<le> length t \<and> length t \<le> 100 \<and> list_all is_reference_char t" by simp_all
      then show ?thesis by (meson sublist_Cons_right sublist_drop sublist_order.order_trans)
    qed
  qed
qed simp

text \<open>
  C40. Order references come from the customer. An explicit reference wins. Otherwise the reference is the
  upper-case form of a token that stands in one of the customer's messages, has 8 to 100 letters, digits
  and hyphens with at least one letter and one digit, is the only such token there, and no later message
  has any; so a later ambiguous message never falls back to an older order.
\<close>

theorem order_reference_from_latest_message:
  assumes "resolveOrderReferenceFromCustomerMessages ms None = Some v"
  shows "\<exists>earlier m later t. ms = earlier @ m # later \<and> list_all (\<lambda>x. reference_candidates (cm_text x) = []) later
    \<and> reference_candidates (cm_text m) = [v] \<and> sublist t (cm_text m) \<and> v = toUpperCase t \<and> 8 \<le> length t \<and> length t \<le> 100
    \<and> list_all is_reference_char t \<and> list_ex is_letter t \<and> list_ex is_digit t"
proof -
  have latest: "\<exists>later m earlier. xs = later @ m # earlier \<and> list_all (\<lambda>x. reference_candidates (cm_text x) = []) later \<and> reference_candidates (cm_text m) = [v]"
    if "latest_reference xs = Some v" for xs
    using that
  proof (induction xs)
    case (Cons x xs)
    show ?case
    proof (cases "reference_candidates (cm_text x)")
      case Nil
      then have "latest_reference xs = Some v" using Cons.prems by (simp add: resolveOrderReferenceFromText_def)
      then obtain later m earlier where "xs = later @ m # earlier" "list_all (\<lambda>x. reference_candidates (cm_text x) = []) later" "reference_candidates (cm_text m) = [v]"
        using Cons.IH by blast
      then show ?thesis using Nil by (intro exI [of _ "x # later"]) simp
    next
      case (Cons a as)
      then have "reference_candidates (cm_text x) = [v]" using Cons.prems by (cases as) (simp_all add: resolveOrderReferenceFromText_def)
      then show ?thesis by (intro exI [of _ "[]"]) simp
    qed
  qed simp
  from assms have "latest_reference (rev ms) = Some v" by (simp add: resolveOrderReferenceFromCustomerMessages_def)
  from latest [OF this] obtain later m earlier where m: "rev ms = later @ m # earlier" "list_all (\<lambda>x. reference_candidates (cm_text x) = []) later"
    "reference_candidates (cm_text m) = [v]" by blast
  have "v \<in> set (reference_candidates (cm_text m))" using m(3) by simp
  then obtain t where "t \<in> set (matchAll_references None (cm_text m))" "v = toUpperCase t" "list_ex is_letter t" "list_ex is_digit t"
    by (auto simp: reference_candidates_def)
  moreover have "ms = rev earlier @ m # rev later" using m(1) by (metis append.assoc append_Cons append_Nil rev.simps(2) rev_append rev_rev_ident)
  ultimately show ?thesis using m matchAll_references_sublist by (metis list_all_rev)
qed


section \<open>Examples\<close>

definition hello_messages :: "EdgeMessage list" where
  "hello_messages = [\<lparr> em_messageId = ''m2'', em_sequenceNumber = 2, em_senderKind = ''ASSISTANT'', em_text = ''Which order?'', em_createdAt = ''t'', em_refundWorkflowId = None \<rparr>,
     \<lparr> em_messageId = ''m3'', em_sequenceNumber = 3, em_senderKind = ''END_CUSTOMER'', em_text = ''Order a-123456 please'', em_createdAt = ''t'', em_refundWorkflowId = None \<rparr>,
     \<lparr> em_messageId = ''m1'', em_sequenceNumber = 1, em_senderKind = ''END_CUSTOMER'', em_text = ''Hi'', em_createdAt = ''t'', em_refundWorkflowId = None \<rparr>]"

definition hello_history :: "CustomerConversationMessage list" where
  "hello_history = [\<lparr> cm_sequence_number = 1, cm_text = ''Hi'' \<rparr>, \<lparr> cm_sequence_number = 3, cm_text = ''Order a-123456 please'' \<rparr>]"

lemma hello_built: "buildCustomerConversationContext hello_messages ''m3'' ''Order a-123456 please'' = Inr hello_history"
  by (simp add: buildCustomerConversationContext_def customer_messages_def hello_messages_def hello_history_def context_message_def
      MAX_CUSTOMER_CONVERSATION_MESSAGES_def MAX_CUSTOMER_CONVERSATION_MESSAGE_CHARACTERS_def MAX_CUSTOMER_CONVERSATION_CONTEXT_CHARACTERS_def Let_def)

theorem agent_history_bounded_witness: "length hello_history \<le> 8 \<and> characters_of hello_history \<le> 8000"
  using agent_history_bounded [OF hello_built] by simp

lemma hello_reference: "resolveOrderReferenceFromCustomerMessages hello_history None = Some ''A-123456''"
  by code_simp

theorem order_reference_from_latest_message_witness: "\<exists>t. ''A-123456'' = toUpperCase t \<and> 8 \<le> length t \<and> length t \<le> 100"
  using order_reference_from_latest_message [OF hello_reference] by metis

end
