(* ===== verification/Edge_Workflows.thy ===== *)
theory Edge_Workflows
  imports Workflow_Safety Access_Assertions
begin

text \<open>
  The edge's side of the refund workflow: \<^verbatim>\<open>temporal-refund-client.ts\<close> of
  \<^verbatim>\<open>src/apps/services/edge-api/src/\<close>. The client library of Temporal is a parameter, \<^verbatim>\<open>TemporalClient\<close>;
  the locale \<^verbatim>\<open>temporal_service\<close> states what its documentation promises over the runs of theory
  \<^verbatim>\<open>Refund_Workflow\<close>: queries answer from the workflow's handlers, a signal is delivered to a run that is not
  closed or not at all, a start makes a new run unless one is open. A call that fails may have taken
  effect. The section on origins shows that a run knows no confirmation it was not sent.
\<close>

section \<open>The client library\<close>

datatype TemporalFailure = WorkflowNotFoundError | WorkflowExecutionAlreadyStartedError | TemporalUnavailable

record 's TemporalClient =
  tc_start :: "'s \<Rightarrow> string \<Rightarrow> RefundWorkflowRequest \<Rightarrow> 's \<times> (TemporalFailure + string)"
  tc_access :: "'s \<Rightarrow> string \<Rightarrow> TemporalFailure + WorkflowJourneyAccess"
  tc_state :: "'s \<Rightarrow> string \<Rightarrow> TemporalFailure + RefundWorkflowState"
  tc_signal :: "'s \<Rightarrow> string \<Rightarrow> RefundCustomerConfirmation \<Rightarrow> 's \<times> (TemporalFailure + unit)"

type_synonym runs = "string \<Rightarrow> WorkflowRun option"

text \<open>A run is closed when it has returned or failed; a run that continues as new stays open under its id.\<close>

definition run_closed :: "WorkflowRun \<Rightarrow> bool" where
  "run_closed run \<longleftrightarrow> wr_pc run = PC_Done \<or> wr_pc run = PC_Failed"

definition signalled :: "(string \<Rightarrow> bool) \<Rightarrow> runs \<Rightarrow> string \<Rightarrow> RefundCustomerConfirmation \<Rightarrow> runs \<Rightarrow> bool" where
  "signalled patched R w c R' \<longleftrightarrow>
     (\<exists>run now. R w = Some run \<and> \<not> run_closed run \<and> R' = R(w \<mapsto> step patched now (SigConfirm c) run))"

definition started_as :: "runs \<Rightarrow> string \<Rightarrow> RefundWorkflowRequest \<Rightarrow> runs \<Rightarrow> bool" where
  "started_as R w request R' \<longleftrightarrow> (\<forall>run. R w = Some run \<longrightarrow> run_closed run) \<and> R' = R(w \<mapsto> start_run request w [])"

section \<open>temporal-refund-client.ts\<close>

record RefundWorkflowStartInput =
  si_workflowId :: string
  si_orderReference :: "string option"
  si_proposal :: RefundProposal
  si_policyVersion :: string
  si_access :: WorkflowJourneyAccess

datatype EdgeWorkflowFailure = RefundWorkflowNotFoundError | RefundPreviewUnavailableError | WorkflowCallFailed TemporalFailure | WorkflowCallThrew js_error

definition acceptsConfirmation :: "RefundWorkflowState \<Rightarrow> string \<Rightarrow> bool" where
  "acceptsConfirmation workflow preview \<longleftrightarrow> stage workflow = S_AWAITING_CUSTOMER_CONFIRMATION \<and> map_option previewId (st_preview workflow) = Some preview"

definition temporal :: "TemporalFailure + 'a \<Rightarrow> EdgeWorkflowFailure + 'a" where
  "temporal r = map_sum WorkflowCallFailed id r"

lemma temporal_simps [simp]: "temporal (Inr a) = Inr a" "temporal (Inl e) = Inl (WorkflowCallFailed e)" "temporal r = Inr a \<longleftrightarrow> r = Inr a"
  by (cases r; simp add: temporal_def)+

lemma map_sum_id_Inr [simp]: "map_sum f id r = Inr y \<longleftrightarrow> r = Inr y"
  by (cases r) simp_all

definition same_owner :: "WorkflowJourneyAccess \<Rightarrow> WorkflowJourneyAccess \<Rightarrow> bool" where
  "same_owner a b \<longleftrightarrow> tenantId a = tenantId b \<and> environmentId a = environmentId b \<and> subjectCustomerId a = subjectCustomerId b"

definition getOwnedHandle :: "'s TemporalClient \<Rightarrow> 's \<Rightarrow> string \<Rightarrow> WorkflowJourneyAccess \<Rightarrow> EdgeWorkflowFailure + unit" where
  "getOwnedHandle client s workflowId access =
     bindE (temporal (tc_access client s workflowId)) (\<lambda>workflowAccess.
       if tenantId workflowAccess \<noteq> tenantId access \<or> environmentId workflowAccess \<noteq> environmentId access
          \<or> subjectCustomerId workflowAccess \<noteq> subjectCustomerId access
       then Inl RefundWorkflowNotFoundError else Inr ())"

definition start_request :: "RefundWorkflowStartInput \<Rightarrow> RefundWorkflowRequest" where
  "start_request input = \<lparr> rq_orderReference = si_orderReference input, rq_proposal = si_proposal input, rq_policyVersion = si_policyVersion input,
     rq_access = si_access input, rq_evidenceRecovery = None, rq_recovery = None \<rparr>"

definition startRefundWorkflow :: "'s TemporalClient \<Rightarrow> 's \<Rightarrow> RefundWorkflowStartInput \<Rightarrow> 's \<times> (EdgeWorkflowFailure + string)" where
  "startRefundWorkflow client s input = map_prod id temporal (tc_start client s (si_workflowId input) (start_request input))"

text \<open>The two queries of \<^verbatim>\<open>getRefundWorkflow\<close> see the service at different times.\<close>

definition getRefundWorkflow :: "'s TemporalClient \<Rightarrow> 's \<Rightarrow> 's \<Rightarrow> string \<Rightarrow> WorkflowJourneyAccess \<Rightarrow> EdgeWorkflowFailure + RefundWorkflowState" where
  "getRefundWorkflow client s1 s2 workflowId access =
     bindE (getOwnedHandle client s1 workflowId access) (\<lambda>_. temporal (tc_state client s2 workflowId))"

text \<open>
  \<^verbatim>\<open>confirmRefundWorkflow\<close> awaits the query of the access at \<^verbatim>\<open>s1\<close>, the query of the state at \<^verbatim>\<open>s2\<close>, the
  signal at \<^verbatim>\<open>s3\<close> and, when the signal found no open run, the state again at \<^verbatim>\<open>s4\<close>.
\<close>

definition confirmRefundWorkflow ::
  "'s TemporalClient \<Rightarrow> 's \<Rightarrow> 's \<Rightarrow> 's \<Rightarrow> 's \<Rightarrow> int \<Rightarrow> string \<Rightarrow> WorkflowJourneyAccess \<Rightarrow> string \<Rightarrow> bool \<Rightarrow> 's \<times> (EdgeWorkflowFailure + unit)" where
  "confirmRefundWorkflow client s1 s2 s3 s4 now workflowId access preview accepted =
     (case bindE (getRefundWorkflow client s1 s2 workflowId access) (\<lambda>workflow.
         if \<not> acceptsConfirmation workflow preview then Inl RefundPreviewUnavailableError
         else map_sum WorkflowCallThrew id (toISOString now)) of
        Inl e \<Rightarrow> (s3, Inl e)
      | Inr at \<Rightarrow>
          (case tc_signal client s3 workflowId \<lparr> cf_previewId = preview, cf_accepted = accepted, cf_confirmedAt = at \<rparr> of
             (s', Inr _) \<Rightarrow> (s', Inr ())
           | (s', Inl e) \<Rightarrow>
               (s', Inl (if e = WorkflowNotFoundError
                  then (case tc_state client s4 workflowId of
                      Inl e' \<Rightarrow> WorkflowCallFailed e'
                    | Inr latest \<Rightarrow> if \<not> acceptsConfirmation latest preview then RefundPreviewUnavailableError else WorkflowCallFailed e)
                  else WorkflowCallFailed e))))"

section \<open>What the service promises\<close>

locale temporal_service =
  fixes client :: "'s TemporalClient" and runs_of :: "'s \<Rightarrow> runs" and patched :: "string \<Rightarrow> bool"
  assumes query_access: "tc_access client s w = Inr a \<Longrightarrow> \<exists>run. runs_of s w = Some run \<and> a = rq_access (wr_request run)"
    and query_state: "tc_state client s w = Inr st \<Longrightarrow> \<exists>run. runs_of s w = Some run \<and> st = wr_state run"
    and signal: "tc_signal client s w c = (s', r) \<Longrightarrow> runs_of s' = runs_of s \<and> r \<noteq> Inr () \<or> signalled patched (runs_of s) w c (runs_of s')"
    and start: "tc_start client s w request = (s', q) \<Longrightarrow> runs_of s' = runs_of s \<and> (\<exists>e. q = Inl e)
      \<or> started_as (runs_of s) w request (runs_of s') \<and> (\<forall>v. q = Inr v \<longrightarrow> v = w)"
begin

lemma owned:
  assumes "getOwnedHandle client s w access = Inr u"
  obtains run where "runs_of s w = Some run" and "same_owner (rq_access (wr_request run)) access"
  using assms query_access [of s w] by (auto simp: getOwnedHandle_def same_owner_def result_simps split: if_splits)

lemma foreign_handle:
  assumes "runs_of s w = Some run" and "\<not> same_owner (rq_access (wr_request run)) access"
  shows "\<exists>e. getOwnedHandle client s w access = Inl e"
proof (cases "getOwnedHandle client s w access")
  case (Inr u)
  from owned [OF this] show ?thesis using assms by auto
qed simp

lemma viewed:
  assumes "getRefundWorkflow client s1 s2 w access = Inr st"
  obtains run run' where "runs_of s1 w = Some run" and "same_owner (rq_access (wr_request run)) access" and "runs_of s2 w = Some run'" and "st = wr_state run'"
proof -
  from assms have h: "getOwnedHandle client s1 w access = Inr ()" and "tc_state client s2 w = Inr st"
    by (auto simp: getRefundWorkflow_def result_simps)
  with owned [OF h] query_state [of s2 w st] show thesis using that by blast
qed

text \<open>Whatever the answer, the runs are as they were or took this confirmation of their owner.\<close>

lemma confirmed:
  assumes "confirmRefundWorkflow client s1 s2 s3 s4 now w access preview accepted = (s', r)"
  shows "runs_of s' = runs_of s3 \<and> r \<noteq> Inr () \<or>
    (\<exists>run run'. runs_of s1 w = Some run \<and> same_owner (rq_access (wr_request run)) access
       \<and> runs_of s2 w = Some run' \<and> acceptsConfirmation (wr_state run') preview
       \<and> signalled patched (runs_of s3) w \<lparr> cf_previewId = preview, cf_accepted = accepted, cf_confirmedAt = iso_string now \<rparr> (runs_of s'))"
proof (cases "bindE (getRefundWorkflow client s1 s2 w access) (\<lambda>workflow.
         if \<not> acceptsConfirmation workflow preview then Inl RefundPreviewUnavailableError else map_sum WorkflowCallThrew id (toISOString now))")
  case (Inl e)
  then show ?thesis using assms by (auto simp: confirmRefundWorkflow_def)
next
  case (Inr at)
  then obtain st where view: "getRefundWorkflow client s1 s2 w access = Inr st" and takes: "acceptsConfirmation st preview" and at: "at = iso_string now"
    by (auto simp: result_simps toISOString_def split: if_splits)
  obtain s1' r' where sig: "tc_signal client s3 w \<lparr> cf_previewId = preview, cf_accepted = accepted, cf_confirmedAt = at \<rparr> = (s1', r')" by fastforce
  then have s': "s1' = s'" and r: "r = Inr () \<longleftrightarrow> r' = Inr ()"
    using assms Inr by (auto simp: confirmRefundWorkflow_def split: sum.splits)
  from viewed [OF view] takes signal [OF sig] show ?thesis unfolding s' r at by metis
qed

end

text \<open>A service that does at once what it is asked, at time \<^verbatim>\<open>now\<close>, over a map of runs.\<close>

definition direct_signal :: "(string \<Rightarrow> bool) \<Rightarrow> int \<Rightarrow> runs \<Rightarrow> string \<Rightarrow> RefundCustomerConfirmation \<Rightarrow> runs \<times> (TemporalFailure + unit)" where
  "direct_signal patched now R w c = (case R w of
     None \<Rightarrow> (R, Inl WorkflowNotFoundError)
   | Some run \<Rightarrow> if run_closed run then (R, Inl WorkflowNotFoundError) else (R(w \<mapsto> step patched now (SigConfirm c) run), Inr ()))"

definition direct_start :: "runs \<Rightarrow> string \<Rightarrow> RefundWorkflowRequest \<Rightarrow> runs \<times> (TemporalFailure + string)" where
  "direct_start R w request =
     (if \<forall>run. R w = Some run \<longrightarrow> run_closed run then (R(w \<mapsto> start_run request w []), Inr w) else (R, Inl WorkflowExecutionAlreadyStartedError))"

definition direct_service :: "(string \<Rightarrow> bool) \<Rightarrow> int \<Rightarrow> runs TemporalClient" where
  "direct_service patched now = \<lparr> tc_start = direct_start,
     tc_access = (\<lambda>R w. case R w of None \<Rightarrow> Inl WorkflowNotFoundError | Some run \<Rightarrow> Inr (rq_access (wr_request run))),
     tc_state = (\<lambda>R w. case R w of None \<Rightarrow> Inl WorkflowNotFoundError | Some run \<Rightarrow> Inr (wr_state run)),
     tc_signal = direct_signal patched now \<rparr>"

interpretation direct: temporal_service "direct_service patched now" "\<lambda>R. R" patched
  by unfold_locales
    (auto simp: direct_service_def direct_signal_def direct_start_def signalled_def started_as_def split: option.splits if_splits)

section \<open>Where the confirmations of a run come from\<close>

definition heard :: "(RefundCustomerConfirmation \<Rightarrow> bool) \<Rightarrow> WorkflowRun \<Rightarrow> bool" where
  "heard P run \<longleftrightarrow> list_all P (buffered_confirmations run) \<and> (\<forall>t c. Confirmed t c \<in> set (wr_journal run) \<longrightarrow> P c)"

named_theorems heard_segments "segments of the workflow that hear no new confirmation"

lemma heard_moves [simp]:
  "heard P (schedule c p run) = heard P run" "heard P (finish st run) = heard P run" "heard P (suspend p run) = heard P run"
  "heard P (set_state st run) = heard P run"
  by (simp_all add: heard_def schedule_def finish_def suspend_def set_state_def)

lemma heard_fields [simp]:
  "heard P (run\<lparr> wr_pc := p \<rparr>) = heard P run" "heard P (run\<lparr> wr_pending := q \<rparr>) = heard P run" "heard P (run\<lparr> wr_humanDecision := h \<rparr>) = heard P run"
  "heard P (run\<lparr> decide_set := b \<rparr>) = heard P run" "heard P (run\<lparr> outcome_set := b \<rparr>) = heard P run" "heard P (run\<lparr> confirm_set := b \<rparr>) = heard P run"
  "heard P (run\<lparr> buffered_decisions := ds \<rparr>) = heard P run" "heard P (run\<lparr> buffered_outcomes := os \<rparr>) = heard P run"
  by (simp_all add: heard_def)

lemma heard_entries [simp]:
  "heard P (record_entries [] run) = heard P run" "heard P (record_entries [Completed c r] run) = heard P run"
  "heard P (record_entries [Decided d] run) = heard P run" "heard P (record_entries [ProviderOutcome po] run) = heard P run"
  "heard P (record_entries (opt_entry ProviderOutcome v) run) = heard P run"
  by (auto simp: heard_def record_entries_def opt_entry_def split: option.splits)

lemma heard_execution [heard_segments]:
  "heard P (executeAuthorizedRefund br dec pre evidence run) = heard P run" "heard P (provider_reconciled dec pre refundId outcome rec run) = heard P run"
  "heard P (pending_reconciled dec pre n rec run) = heard P run" "heard P (execute_evidence_read br dec pre evidence current run) = heard P run"
  "heard P (execute_refreshed br dec pre ctx run) = heard P run" "heard P (executed dec pre result run) = heard P run"
  "heard P (reconcilePendingRefund dec pre n run) = heard P run" "heard P (pending_slept dec pre n run) = heard P run"
  "heard P (provider_reconcile dec pre refundId outcome run) = heard P run"
  by (simp_all add: executeAuthorizedRefund_def execute_refresh_def provider_reconciled_def pending_reconciled_def execute_evidence_read_def
      execute_refreshed_def executed_def awaitProviderRefundOutcome_def provider_reconcile_def reconcilePendingRefund_def pending_slept_def Let_def
      split: ReconciliationStatus.splits ExecutionStatus.splits)

lemma heard_cases [heard_segments]:
  "heard P (openMonetaryCase evidence i p run) = heard P run" "heard P (close_case caseId d o1 p run) = heard P run"
  "heard P (close_evidence snap o2 p run) = heard P run"
  by (simp_all add: openMonetaryCase_def close_case_def close_evidence_def split: option.splits)

lemma heard_confirmation [heard_segments]:
  "heard P (leave_unconfirmed br evidence st run) = heard P run" "heard P (confirmation_observed br dec pre evidence c run) = heard P run"
  "heard P (confirmation_returned patched br dec pre evidence confirmation run) = heard P run"
  by (simp_all add: leave_unconfirmed_def confirmation_observed_def confirmation_returned_def heard_segments split: option.splits)

lemma confirm_handler_heard:
  assumes "list_all P cs" and "fold (confirm_handler patched now pre) cs (confirmation, expired) = (Some c, e)"
  shows "confirmation = Some c \<or> P c"
  using assms
proof (induction cs arbitrary: confirmation expired)
  case (Cons x cs)
  then show ?case by (auto simp: confirm_handler_def split: if_splits)
qed simp

lemma heard_wait [heard_segments]:
  assumes "heard P run"
  shows "heard P (waitForRefundConfirmation patched now br dec pre evidence run)"
proof -
  obtain confirmation expired where f: "fold (confirm_handler patched now pre) (buffered_confirmations run) (None, False) = (confirmation, expired)" by fastforce
  have "heard P (record_entries (opt_entry (Confirmed now) confirmation) (run\<lparr> confirm_set := True, buffered_confirmations := [] \<rparr>))"
    using assms confirm_handler_heard [of P "buffered_confirmations run" patched now pre None False] f
    by (auto simp: heard_def record_entries_def opt_entry_def split: option.splits)
  then show ?thesis unfolding waitForRefundConfirmation_def f prod.case Let_def by (simp add: heard_segments split: option.splits) (auto simp: opt_entry_def)
qed

lemma heard_human [heard_segments]:
  "heard P (approval_decided dec pre evidence caseId human run) = heard P run" "heard P (takeover_decided dec evidence caseId human run) = heard P run"
  by (simp_all add: approval_decided_def takeover_decided_def heard_segments Let_def)

lemma heard_opened [heard_segments]:
  "heard P (approval_opened dec pre evidence caseId run) = heard P run" "heard P (takeover_opened dec evidence caseId run) = heard P run"
  "heard P (exceptional_preview dec evidence caseId ctx run) = heard P run" "heard P (takeover_refreshed dec evidence caseId ctx run) = heard P run"
  "heard P (takeover_evidence_read dec ctx snap caseId current run) = heard P run" "heard P (takeover_reevaluated ctx snap caseId dec run) = heard P run"
  by (simp_all add: approval_opened_def takeover_opened_def exceptional_preview_def takeover_refreshed_def takeover_evidence_read_def
      takeover_reevaluated_def heard_segments Let_def split: option.splits)

lemma heard_dispatch [heard_segments]: "heard P (dispatch ctx dec evidence run) = heard P run"
  by (simp add: dispatch_def heard_segments split: PolicyEffect.splits)

lemma heard_evidence [heard_segments]:
  "heard P (evidence_loop now dec snap deadline polls run) = heard P run" "heard P (evidence_polled now dec deadline polls snap run) = heard P run"
  "heard P (evidence_opened now dec snap run) = heard P run" "heard P (reviewed_decision ctx snap dec run) = heard P run"
  "heard P (first_decision ctx dec run) = heard P run" "heard P (first_context ctx run) = heard P run"
  by (simp_all add: evidence_loop_def evidence_polled_def evidence_opened_def reviewed_decision_def first_decision_def first_context_def
      heard_segments split: option.splits)

lemma heard_preview [heard_segments]: "heard P run \<Longrightarrow> heard P (preview_created patched now br dec evidence pre run)"
  by (simp add: preview_created_def heard_segments)

lemma heard_resume:
  assumes "heard P run" and "resume patched now r run = Some run'"
  shows "heard P run'"
  using assms
  by (cases "wr_pc run") (auto simp: resume_def on_context_def on_decision_def on_preview_def on_void_def on_execute_def on_reconcile_def on_case_def
      on_evidence_def heard_segments split: reply.splits)

lemma heard_start: "heard P (start_run request w J) \<longleftrightarrow> (\<forall>t c. Confirmed t c \<in> set J \<longrightarrow> P c)"
  by (cases "rq_recovery request"; simp add: start_run_def Let_def heard_segments; simp add: heard_def)

lemma heard_complete: "heard P run \<Longrightarrow> heard P (complete patched now r run)"
  by (auto simp: complete_def split: option.splits elim!: heard_resume [rotated])

lemma heard_signals:
  "heard P run \<Longrightarrow> heard P (timer_fired patched run)" "heard P run \<Longrightarrow> heard P (signal_decide d run)" "heard P run \<Longrightarrow> heard P (signal_outcome po run)"
  by (auto simp: timer_fired_def signal_decide_def signal_outcome_def heard_segments split: pc.splits option.splits)

lemma heard_signal_confirm:
  assumes "heard P run" and "P c"
  shows "heard P (signal_confirm patched now c run)"
proof (cases "confirm_set run")
  case False
  then show ?thesis using assms by (auto simp: signal_confirm_def heard_def)
next
  case True
  have confirmed: "heard P (record_entries (opt_entry (Confirmed now) (Some c)) run)" using assms by (auto simp: heard_def record_entries_def opt_entry_def)
  show ?thesis
  proof (cases "wr_pc run")
    case (PC_Confirm br dec pre evidence)
    show ?thesis
      by (simp add: signal_confirm_def True PC_Confirm confirm_handler_def heard_segments assms(1) confirmed) (simp add: opt_entry_def assms(1))
  qed (simp_all add: signal_confirm_def True assms(1))
qed

text \<open>A step adds at most the confirmation it delivers.\<close>

lemma heard_step:
  assumes "heard P run" and "\<And>c. ev = SigConfirm c \<Longrightarrow> P c"
  shows "heard P (step patched now ev run)"
proof (cases ev)
  case Continue
  from assms(1) have "\<forall>t c. Confirmed t c \<in> set (wr_journal run) \<longrightarrow> P c" by (simp add: heard_def)
  then show ?thesis using assms(1) Continue by (cases "wr_pc run") (simp_all add: step_def heard_start)
qed (use assms in \<open>auto simp: step_def heard_complete heard_signals heard_signal_confirm\<close>)

end
