(* ===== verification/Edge_Evidence.thy ===== *)
theory Edge_Evidence
  imports Edge_Workflows Evidence_Routes
begin

text \<open>
  Photo evidence at the edge, \<^verbatim>\<open>refund-evidence-client.ts\<close> and \<^verbatim>\<open>refund-evidence-routes.ts\<close> of
  \<^verbatim>\<open>src/apps/services/edge-api/src/\<close>: the strict schema of a summary, the client of human operations with its
  bounded reads and its closed set of errors, and the two routes with the check that runs before a byte of an
  upload is read. \<^verbatim>\<open>fetch\<close>, \<^verbatim>\<open>JSON.parse\<close> on bytes, \<^verbatim>\<open>z.uuid()\<close> and \<^verbatim>\<open>z.iso.datetime()\<close> are arguments.
\<close>

section \<open>The summary\<close>

datatype Requirement = Requirement_DAMAGE_PHOTO | Requirement_NONE

record EdgeAttachment =
  at_evidence_id :: string
  at_display_label :: string
  at_content_type :: "ImageType option"
  at_byte_size :: int
  at_width :: "int option"
  at_height :: "int option"
  at_uploaded_at :: string
  at_technical_status :: TechnicalStatus
  at_rejection_code :: "RejectionCode option"

record RefundEvidenceSummary =
  re_requirement :: Requirement
  re_evidence_version :: int
  re_assessment :: Assessment
  re_can_upload :: bool
  re_customer_message_code :: "string option"
  re_attachments :: "EdgeAttachment list"

definition safeInteger :: "int \<Rightarrow> bool" where
  "safeInteger n \<longleftrightarrow> 0 \<le> n \<and> n \<le> MAX_SAFE_INTEGER"

definition dimension :: "int option \<Rightarrow> bool" where
  "dimension d \<longleftrightarrow> (case d of None \<Rightarrow> True | Some n \<Rightarrow> 1 \<le> n \<and> n \<le> 65535)"

definition attachment_labels :: "string list" where
  "attachment_labels = [''Photo 1'', ''Photo 2'', ''Photo 3'', ''Photo 4'', ''Photo 5'']"

definition customer_message_codes :: "string list" where
  "customer_message_codes = [''PHOTO_UNCLEAR'', ''DAMAGED_ITEM_NOT_VISIBLE'', ''ORDER_ITEM_NOT_IDENTIFIABLE'']"

text \<open>What \<^verbatim>\<open>attachmentSchema\<close> and \<^verbatim>\<open>refundEvidenceSummarySchema\<close> ask of the values, with their \<^verbatim>\<open>superRefine\<close>.\<close>

definition attachment_valid :: "(string \<Rightarrow> bool) \<Rightarrow> (string \<Rightarrow> bool) \<Rightarrow> EdgeAttachment \<Rightarrow> bool" where
  "attachment_valid is_uuid is_datetime a \<longleftrightarrow> is_uuid (at_evidence_id a) \<and> at_display_label a \<in> set attachment_labels
     \<and> safeInteger (at_byte_size a) \<and> dimension (at_width a) \<and> dimension (at_height a) \<and> is_datetime (at_uploaded_at a)
     \<and> \<not> (if at_technical_status a = READY
          then at_content_type a = None \<or> at_width a = None \<or> at_height a = None \<or> at_byte_size a < 1
          else at_width a \<noteq> None \<or> at_height a \<noteq> None)
     \<and> \<not> ((at_technical_status a = TECH_REJECTED) \<noteq> (at_rejection_code a \<noteq> None))"

definition summary_refined :: "RefundEvidenceSummary \<Rightarrow> bool" where
  "summary_refined s \<longleftrightarrow> distinct (map at_evidence_id (re_attachments s))
     \<and> \<not> (re_requirement s = Requirement_NONE \<and> (re_can_upload s \<or> re_evidence_version s \<noteq> 0 \<or> re_assessment s \<noteq> UNREVIEWED
          \<or> re_attachments s \<noteq> [] \<or> re_customer_message_code s \<noteq> None))
     \<and> \<not> (re_evidence_version s = 0 \<and> (re_assessment s \<noteq> UNREVIEWED \<or> re_attachments s \<noteq> []))
     \<and> \<not> (re_assessment s = ACCEPTED \<and> (re_requirement s \<noteq> Requirement_DAMAGE_PHOTO \<or> re_evidence_version s < 1 \<or> re_can_upload s
          \<or> re_attachments s = [] \<or> list_ex (\<lambda>a. at_technical_status a \<noteq> READY) (re_attachments s)))
     \<and> \<not> (((re_assessment s = MORE_REQUIRED) \<noteq> (re_customer_message_code s \<noteq> None)) \<or> re_assessment s = MORE_REQUIRED \<and> re_evidence_version s < 1)"

definition summary_valid :: "(string \<Rightarrow> bool) \<Rightarrow> (string \<Rightarrow> bool) \<Rightarrow> RefundEvidenceSummary \<Rightarrow> bool" where
  "summary_valid is_uuid is_datetime s \<longleftrightarrow> safeInteger (re_evidence_version s)
     \<and> (case re_customer_message_code s of None \<Rightarrow> True | Some c \<Rightarrow> c \<in> set customer_message_codes)
     \<and> length (re_attachments s) \<le> 5 \<and> list_all (attachment_valid is_uuid is_datetime) (re_attachments s) \<and> summary_refined s"

definition media_types :: "(string \<times> ImageType) list" where
  "media_types = [(''image/jpeg'', Image_jpeg), (''image/png'', Image_png)]"

definition z_number :: "json \<Rightarrow> int option" where
  "z_number v = (case v of JNum n \<Rightarrow> Some n | _ \<Rightarrow> None)"

definition attachmentSchema :: "(string \<Rightarrow> bool) \<Rightarrow> (string \<Rightarrow> bool) \<Rightarrow> json \<Rightarrow> EdgeAttachment option" where
  "attachmentSchema is_uuid is_datetime value =
     do {
       v \<leftarrow> z_object [''evidence_id'', ''display_label'', ''content_type'', ''byte_size'', ''width'', ''height'', ''uploaded_at'', ''technical_status'', ''rejection_code''] value;
       i \<leftarrow> z_string (get_prop ''evidence_id'' v);
       label \<leftarrow> z_string (get_prop ''display_label'' v);
       media \<leftarrow> z_optional (z_enum media_types) (get_prop ''content_type'' v);
       bytes \<leftarrow> z_number (get_prop ''byte_size'' v);
       width \<leftarrow> z_optional z_number (get_prop ''width'' v);
       height \<leftarrow> z_optional z_number (get_prop ''height'' v);
       at \<leftarrow> z_string (get_prop ''uploaded_at'' v);
       technical \<leftarrow> z_enum [(''PROCESSING'', PROCESSING), (''READY'', READY), (''REJECTED'', TECH_REJECTED)] (get_prop ''technical_status'' v);
       rejection \<leftarrow> z_optional (z_enum [(''FILE_TOO_LARGE'', FILE_TOO_LARGE), (''UNSUPPORTED_TYPE'', UNSUPPORTED_TYPE), (''INVALID_IMAGE'', INVALID_IMAGE),
           (''IMAGE_LIMIT_EXCEEDED'', IMAGE_LIMIT_EXCEEDED), (''UNSAFE_FILE'', UNSAFE_FILE), (''VALIDATION_UNAVAILABLE'', VALIDATION_UNAVAILABLE)])
         (get_prop ''rejection_code'' v);
       (let a = \<lparr> at_evidence_id = i, at_display_label = label, at_content_type = media, at_byte_size = bytes, at_width = width, at_height = height,
          at_uploaded_at = at, at_technical_status = technical, at_rejection_code = rejection \<rparr>
        in if attachment_valid is_uuid is_datetime a then Some a else None)
     }"

definition refundEvidenceSummarySchema :: "(string \<Rightarrow> bool) \<Rightarrow> (string \<Rightarrow> bool) \<Rightarrow> json \<Rightarrow> RefundEvidenceSummary option" where
  "refundEvidenceSummarySchema is_uuid is_datetime value =
     do {
       v \<leftarrow> z_object [''version'', ''requirement'', ''evidence_version'', ''assessment'', ''can_upload'', ''customer_message_code'', ''attachments''] value;
       _ \<leftarrow> z_literal ''v1'' (get_prop ''version'' v);
       requirement \<leftarrow> z_enum [(''DAMAGE_PHOTO'', Requirement_DAMAGE_PHOTO), (''NONE'', Requirement_NONE)] (get_prop ''requirement'' v);
       version \<leftarrow> z_number (get_prop ''evidence_version'' v);
       verdict \<leftarrow> z_enum [(''UNREVIEWED'', UNREVIEWED), (''ACCEPTED'', ACCEPTED), (''MORE_REQUIRED'', MORE_REQUIRED)] (get_prop ''assessment'' v);
       upload \<leftarrow> z_bool (get_prop ''can_upload'' v);
       code \<leftarrow> z_optional z_string (get_prop ''customer_message_code'' v);
       attachments \<leftarrow> z_array (attachmentSchema is_uuid is_datetime) (get_prop ''attachments'' v);
       (let s = \<lparr> re_requirement = requirement, re_evidence_version = version, re_assessment = verdict, re_can_upload = upload,
          re_customer_message_code = code, re_attachments = attachments \<rparr>
        in if summary_valid is_uuid is_datetime s then Some s else None)
     }"

lemma summary_schema_valid: "refundEvidenceSummarySchema is_uuid is_datetime v = Some s \<Longrightarrow> summary_valid is_uuid is_datetime s"
  unfolding refundEvidenceSummarySchema_def Option.bind_eq_Some_conv Let_def by (elim exE conjE) (simp split: if_split_asm)

text \<open>Taking the permission to upload away keeps a summary valid.\<close>

lemma summary_refined_closed:
  assumes "summary_refined s" and "u \<longrightarrow> re_can_upload s"
  shows "summary_refined (s\<lparr> re_can_upload := u \<rparr>)"
proof -
  have fields: "re_requirement (s\<lparr> re_can_upload := u \<rparr>) = re_requirement s" "re_evidence_version (s\<lparr> re_can_upload := u \<rparr>) = re_evidence_version s"
    "re_assessment (s\<lparr> re_can_upload := u \<rparr>) = re_assessment s" "re_customer_message_code (s\<lparr> re_can_upload := u \<rparr>) = re_customer_message_code s"
    "re_attachments (s\<lparr> re_can_upload := u \<rparr>) = re_attachments s" "re_can_upload (s\<lparr> re_can_upload := u \<rparr>) = u" by simp_all
  show ?thesis using assms unfolding summary_refined_def fields by blast
qed

lemma summary_valid_closed: "summary_valid is_uuid is_datetime s \<Longrightarrow> summary_valid is_uuid is_datetime (s\<lparr> re_can_upload := re_can_upload s \<and> b \<rparr>)"
  using summary_refined_closed [of s "re_can_upload s \<and> b"] by (simp add: summary_valid_def)

section \<open>The client\<close>

definition MAX_EVIDENCE_BYTES :: nat where
  "MAX_EVIDENCE_BYTES = 10 * 1024 * 1024"

datatype EdgeEvidenceFailure = RefundEvidenceError nat string | EvidenceThrew js_error

record EvidenceUpload =
  eu_body :: bytes
  eu_contentType :: ImageType
  eu_idempotencyKey :: string
  eu_expectedVersion :: int

datatype EvidenceCall = ReadSummary | SendPhoto EvidenceUpload | ReadContent string

record EvidenceResponse =
  er_httpStatus :: nat
  er_content :: "bytes option"          \<comment> \<open>\<^const>\<open>None\<close>: the stream breaks off\<close>
  er_content_type :: "string option"

text \<open>A request goes out for a workflow with an assertion; \<^const>\<open>None\<close> is a rejected \<^verbatim>\<open>fetch\<close>.\<close>

type_synonym photo_fetch = "string \<Rightarrow> EvidenceCall \<Rightarrow> string \<Rightarrow> EvidenceResponse option"
type_synonym evidence_signer = "EvidenceRequestContext \<Rightarrow> Purpose \<Rightarrow> string result"

definition errorStatuses :: "(string \<times> nat) list" where
  "errorStatuses = [(''evidence_unauthorized'', 503), (''evidence_not_found'', 404), (''stale_evidence_version'', 409), (''evidence_frozen'', 409),
     (''evidence_limit_exceeded'', 409), (''idempotency_conflict'', 409), (''invalid_evidence'', 400), (''evidence_too_large'', 413),
     (''unsupported_evidence_type'', 415), (''evidence_unavailable'', 503)]"

definition readBounded :: "EvidenceResponse \<Rightarrow> nat \<Rightarrow> EdgeEvidenceFailure + bytes" where
  "readBounded response maximumBytes = (case er_content response of
     None \<Rightarrow> Inl (EvidenceThrew FetchError)
   | Some body \<Rightarrow> if length body > maximumBytes then Inl (RefundEvidenceError 503 ''evidence_unavailable'') else Inr body)"

text \<open>The code of an error of human operations; a code that is no string is none of the known ones.\<close>

definition upstream_code :: "(bytes \<Rightarrow> json option) \<Rightarrow> bytes \<Rightarrow> string" where
  "upstream_code parse_json body = (case parse_json body of
     None \<Rightarrow> ''evidence_unavailable''
   | Some v \<Rightarrow> (case get_prop ''code'' (get_prop ''error'' v) of
         JStr code \<Rightarrow> if map_of errorStatuses code \<noteq> None then code else ''evidence_unavailable''
       | _ \<Rightarrow> ''evidence_unavailable''))"

definition refused :: "(bytes \<Rightarrow> json option) \<Rightarrow> EvidenceResponse \<Rightarrow> EdgeEvidenceFailure" where
  "refused parse_json response = (case readBounded response 8192 of
     Inl _ \<Rightarrow> RefundEvidenceError 503 ''evidence_unavailable''
   | Inr body \<Rightarrow> (let code = upstream_code parse_json body in
       RefundEvidenceError (case map_of errorStatuses code of Some n \<Rightarrow> n | None \<Rightarrow> 503)
         (if code = ''evidence_unauthorized'' then ''evidence_unavailable'' else code)))"

definition evidence_request ::
  "(bytes \<Rightarrow> json option) \<Rightarrow> evidence_signer \<Rightarrow> photo_fetch \<Rightarrow> EvidenceRequestContext \<Rightarrow> Purpose \<Rightarrow> EvidenceCall \<Rightarrow> EdgeEvidenceFailure + EvidenceResponse" where
  "evidence_request parse_json sign fetch input purpose call =
     (case sign input purpose of
        Inl e \<Rightarrow> Inl (EvidenceThrew e)
      | Inr assertion \<Rightarrow> (case fetch (erc_workflowId input) call assertion of
            None \<Rightarrow> Inl (RefundEvidenceError 503 ''evidence_unavailable'')
          | Some response \<Rightarrow> if 200 \<le> er_httpStatus response \<and> er_httpStatus response < 300 then Inr response else Inl (refused parse_json response)))"

definition evidence_summary :: "(string \<Rightarrow> bool) \<Rightarrow> (string \<Rightarrow> bool) \<Rightarrow> (bytes \<Rightarrow> json option) \<Rightarrow> EvidenceResponse \<Rightarrow> EdgeEvidenceFailure + RefundEvidenceSummary" where
  "evidence_summary is_uuid is_datetime parse_json response =
     (case readBounded response 32768 of
        Inl _ \<Rightarrow> Inl (RefundEvidenceError 503 ''evidence_unavailable'')
      | Inr body \<Rightarrow> (case do { v \<leftarrow> parse_json body; v' \<leftarrow> z_object [''evidence''] v; refundEvidenceSummarySchema is_uuid is_datetime (get_prop ''evidence'' v') } of
            None \<Rightarrow> Inl (RefundEvidenceError 503 ''evidence_unavailable'')
          | Some s \<Rightarrow> Inr s))"

definition client_getSummary ::
  "(string \<Rightarrow> bool) \<Rightarrow> (string \<Rightarrow> bool) \<Rightarrow> (bytes \<Rightarrow> json option) \<Rightarrow> evidence_signer \<Rightarrow> photo_fetch \<Rightarrow> EvidenceRequestContext
     \<Rightarrow> EdgeEvidenceFailure + RefundEvidenceSummary option" where
  "client_getSummary is_uuid is_datetime parse_json sign fetch input =
     (case bindE (evidence_request parse_json sign fetch input P_refund_evidence_read ReadSummary) (evidence_summary is_uuid is_datetime parse_json) of
        Inr s \<Rightarrow> Inr (Some s)
      | Inl e \<Rightarrow> (case e of
            RefundEvidenceError _ code \<Rightarrow> if code = ''evidence_not_found'' then Inr None else Inl e
          | EvidenceThrew _ \<Rightarrow> Inl e))"

definition client_upload ::
  "(string \<Rightarrow> bool) \<Rightarrow> (string \<Rightarrow> bool) \<Rightarrow> (bytes \<Rightarrow> json option) \<Rightarrow> evidence_signer \<Rightarrow> photo_fetch \<Rightarrow> EvidenceRequestContext \<Rightarrow> EvidenceUpload
     \<Rightarrow> EdgeEvidenceFailure + RefundEvidenceSummary" where
  "client_upload is_uuid is_datetime parse_json sign fetch input upload =
     (if eu_body upload = [] \<or> length (eu_body upload) > MAX_EVIDENCE_BYTES then Inl (RefundEvidenceError 413 ''evidence_too_large'')
      else bindE (evidence_request parse_json sign fetch input P_refund_evidence_upload (SendPhoto upload)) (evidence_summary is_uuid is_datetime parse_json))"

definition client_getContent ::
  "(bytes \<Rightarrow> json option) \<Rightarrow> evidence_signer \<Rightarrow> photo_fetch \<Rightarrow> EvidenceRequestContext \<Rightarrow> string \<Rightarrow> EdgeEvidenceFailure + bytes \<times> ImageType" where
  "client_getContent parse_json sign fetch input evidenceId =
     bindE (evidence_request parse_json sign fetch input P_refund_evidence_content (ReadContent evidenceId)) (\<lambda>response.
       case Option.bind (er_content_type response) (map_of media_types) of
         None \<Rightarrow> Inl (RefundEvidenceError 503 ''evidence_unavailable'')
       | Some t \<Rightarrow> bindE (readBounded response MAX_EVIDENCE_BYTES) (\<lambda>body.
           if \<not> (if t = Image_png then is_png body else length body \<ge> 3 \<and> body ! 0 = 255 \<and> body ! 1 = 216 \<and> body ! 2 = 255)
           then Inl (RefundEvidenceError 503 ''evidence_unavailable'') else Inr (body, t)))"

record RefundEvidenceClient =
  rec_getSummary :: "EvidenceRequestContext \<Rightarrow> EdgeEvidenceFailure + RefundEvidenceSummary option"
  rec_upload :: "EvidenceRequestContext \<Rightarrow> EvidenceUpload \<Rightarrow> EdgeEvidenceFailure + RefundEvidenceSummary"
  rec_getContent :: "EvidenceRequestContext \<Rightarrow> string \<Rightarrow> EdgeEvidenceFailure + bytes \<times> ImageType"

definition createRefundEvidenceClient ::
  "(string \<Rightarrow> bool) \<Rightarrow> (string \<Rightarrow> bool) \<Rightarrow> (bytes \<Rightarrow> json option) \<Rightarrow> evidence_signer \<Rightarrow> photo_fetch \<Rightarrow> RefundEvidenceClient" where
  "createRefundEvidenceClient is_uuid is_datetime parse_json sign fetch =
     \<lparr> rec_getSummary = client_getSummary is_uuid is_datetime parse_json sign fetch,
       rec_upload = client_upload is_uuid is_datetime parse_json sign fetch, rec_getContent = client_getContent parse_json sign fetch \<rparr>"

section \<open>The routes\<close>

definition isEvidenceWaitStage :: "Stage \<Rightarrow> bool" where
  "isEvidenceWaitStage s \<longleftrightarrow> s = S_AWAITING_CUSTOMER_EVIDENCE \<or> s = S_AWAITING_EVIDENCE_REVIEW"

definition evidence_messages :: "string list" where
  "evidence_messages = [''evidence_not_found'', ''stale_evidence_version'', ''evidence_frozen'', ''evidence_limit_exceeded'', ''idempotency_conflict'',
     ''invalid_evidence'', ''evidence_too_large'', ''unsupported_evidence_type'', ''evidence_unavailable'']"

definition sendEvidenceFailure :: "EdgeEvidenceFailure \<Rightarrow> nat \<times> string" where
  "sendEvidenceFailure e = (case e of
     RefundEvidenceError status code \<Rightarrow> if code \<in> set evidence_messages then (status, code) else (503, ''evidence_unavailable'')
   | EvidenceThrew _ \<Rightarrow> (503, ''evidence_unavailable''))"

definition refundEvidenceId :: "string \<Rightarrow> bool" where
  "refundEvidenceId s \<longleftrightarrow> opaque_id_upto 200 s"

record EvidenceHeaders =
  eh_content_type :: "string option"
  eh_idempotency_key :: "string option"
  eh_expected_version :: "string option"
  eh_content_encoding :: "string option"
  eh_content_length :: "string option"

definition version_number :: "string \<Rightarrow> int option" where
  "version_number s = (if s \<noteq> [] \<and> list_all is_digit s \<and> (s = ''0'' \<or> hd s \<noteq> CHR ''0'') \<and> digits_value s \<le> MAX_SAFE_INTEGER then Some (digits_value s) else None)"

definition uploadHeaders :: "EvidenceHeaders \<Rightarrow> (ImageType \<times> string \<times> int) option" where
  "uploadHeaders h =
     do {
       t \<leftarrow> Option.bind (eh_content_type h) (map_of media_types);
       k \<leftarrow> Option.bind (eh_idempotency_key h) (\<lambda>s. if opaque_id_upto 200 s then Some s else None);
       n \<leftarrow> Option.bind (eh_expected_version h) version_number;
       Some (t, k, n)
     }"

definition edge_access :: "AuthenticatedCustomer \<Rightarrow> string \<Rightarrow> string \<Rightarrow> WorkflowJourneyAccess" where
  "edge_access identity rid tid = \<lparr> tenantId = id_tenantId identity, environmentId = id_environmentId identity,
     subjectCustomerId = id_customerId identity, requestId = rid, traceId = tid \<rparr>"

type_synonym identity_verifier = "int \<Rightarrow> string option \<Rightarrow> AuthenticatedCustomer result"
type_synonym workflow_reader = "string \<Rightarrow> WorkflowJourneyAccess \<Rightarrow> EdgeWorkflowFailure + RefundWorkflowState"

text \<open>\<^verbatim>\<open>extractBearerToken\<close> of \<^verbatim>\<open>app.ts\<close>: the scheme in any case, one blank, a token without blanks.\<close>

definition extractBearerToken :: "string option \<Rightarrow> string option" where
  "extractBearerToken authorization = (case authorization of
     None \<Rightarrow> None
   | Some s \<Rightarrow> if s = [] \<or> length s > 8200 then None
       else if toUpperCase (take 7 s) = ''BEARER '' \<and> length s > 7 \<and> \<not> list_ex is_js_space (drop 7 s) then Some (drop 7 s) else None)"

definition verifyRequestIdentity :: "identity_verifier \<Rightarrow> int \<Rightarrow> string option \<Rightarrow> AuthenticatedCustomer result" where
  "verifyRequestIdentity verify now authorization = verify now (extractBearerToken authorization)"

text \<open>What the check asks of an upload, from its headers and the summary of the moment.\<close>

definition upload_allowed :: "RefundEvidenceClient \<Rightarrow> EvidenceRequestContext \<Rightarrow> RefundWorkflowState \<Rightarrow> EvidenceHeaders \<Rightarrow> EdgeEvidenceFailure + unit" where
  "upload_allowed client context workflow h =
     (if \<not> isEvidenceWaitStage (stage workflow) then Inl (RefundEvidenceError 409 ''evidence_frozen'')
      else if uploadHeaders h = None
        then (if Option.bind (eh_content_type h) (map_of media_types) = None then Inl (RefundEvidenceError 415 ''unsupported_evidence_type'')
              else Inl (RefundEvidenceError 400 ''invalid_evidence''))
      else if (case eh_content_encoding h of None \<Rightarrow> False | Some s \<Rightarrow> s \<noteq> [] \<and> s \<noteq> ''identity'') then Inl (RefundEvidenceError 415 ''unsupported_evidence_type'')
      else if (case eh_content_length h of None \<Rightarrow> False | Some s \<Rightarrow> \<not> (s \<noteq> [] \<and> list_all is_digit s) \<or> digits_value s > MAX_SAFE_INTEGER)
        then Inl (RefundEvidenceError 400 ''invalid_evidence'')
      else if (case eh_content_length h of None \<Rightarrow> False | Some s \<Rightarrow> digits_value s > int MAX_EVIDENCE_BYTES) then Inl (RefundEvidenceError 413 ''evidence_too_large'')
      else bindE (rec_getSummary client context) (\<lambda>evidence. case evidence of
          None \<Rightarrow> Inl (RefundEvidenceError 404 ''evidence_not_found'')
        | Some s \<Rightarrow> if \<not> re_can_upload s then Inl (RefundEvidenceError 409 ''evidence_frozen'') else Inr ()))"

text \<open>\<^verbatim>\<open>authorize\<close>, which runs before the body is read; \<^verbatim>\<open>ids\<close> are the new identifiers.\<close>

definition authorize_evidence ::
  "(string \<Rightarrow> bool) \<Rightarrow> identity_verifier \<Rightarrow> workflow_reader option \<Rightarrow> RefundEvidenceClient option \<Rightarrow> int \<Rightarrow> (nat \<Rightarrow> string)
     \<Rightarrow> string option \<Rightarrow> string \<Rightarrow> string option \<Rightarrow> EvidenceHeaders option \<Rightarrow> (nat \<times> string) + EvidenceRequestContext" where
  "authorize_evidence is_uuid verify read evidenceClient now ids authorization workflowId evidenceId uploading =
     (case verifyRequestIdentity verify now authorization of
        Inl _ \<Rightarrow> Inl (401, ''customer_unauthorized'')
      | Inr identity \<Rightarrow>
          if \<not> (refundEvidenceId workflowId \<and> (case evidenceId of None \<Rightarrow> True | Some i \<Rightarrow> is_uuid i)) then Inl (sendEvidenceFailure (RefundEvidenceError 400 ''invalid_evidence''))
          else (case (read, evidenceClient) of
              (Some getWorkflow, Some client) \<Rightarrow>
                (let context = \<lparr> erc_workflowId = workflowId, erc_identity = identity, erc_requestId = ids 0, erc_traceId = ids 1 \<rparr> in
                 case getWorkflow workflowId (edge_access identity (ids 0) (ids 1)) of
                   Inl e \<Rightarrow> Inl (if e = RefundWorkflowNotFoundError then (404, ''refund_workflow_not_found'') else (503, ''evidence_unavailable''))
                 | Inr workflow \<Rightarrow> (case (case uploading of None \<Rightarrow> Inr () | Some h \<Rightarrow> upload_allowed client context workflow h) of
                       Inl e \<Rightarrow> Inl (sendEvidenceFailure e) | Inr _ \<Rightarrow> Inr context))
            | _ \<Rightarrow> Inl (sendEvidenceFailure (RefundEvidenceError 503 ''evidence_unavailable''))))"

definition post_edge_evidence ::
  "(string \<Rightarrow> bool) \<Rightarrow> identity_verifier \<Rightarrow> workflow_reader option \<Rightarrow> RefundEvidenceClient option \<Rightarrow> int \<Rightarrow> (nat \<Rightarrow> string)
     \<Rightarrow> string option \<Rightarrow> string \<Rightarrow> EvidenceHeaders \<Rightarrow> bytes \<Rightarrow> (nat \<times> string) + RefundEvidenceSummary" where
  "post_edge_evidence is_uuid verify read evidenceClient now ids authorization workflowId h body =
     (case authorize_evidence is_uuid verify read evidenceClient now ids authorization workflowId None (Some h) of
        Inl e \<Rightarrow> Inl e
      | Inr context \<Rightarrow>
          if length body > MAX_EVIDENCE_BYTES then Inl (sendEvidenceFailure (RefundEvidenceError 413 ''evidence_too_large''))
          else (case (uploadHeaders h, evidenceClient) of
              (Some (t, k, n), Some client) \<Rightarrow>
                if body = [] then Inl (sendEvidenceFailure (RefundEvidenceError 400 ''invalid_evidence''))
                else map_sum sendEvidenceFailure id (rec_upload client context
                  \<lparr> eu_body = body, eu_contentType = t, eu_idempotencyKey = k, eu_expectedVersion = n \<rparr>)
            | _ \<Rightarrow> Inl (sendEvidenceFailure (RefundEvidenceError 400 ''invalid_evidence''))))"

definition get_edge_photo ::
  "(string \<Rightarrow> bool) \<Rightarrow> identity_verifier \<Rightarrow> workflow_reader option \<Rightarrow> RefundEvidenceClient option \<Rightarrow> int \<Rightarrow> (nat \<Rightarrow> string)
     \<Rightarrow> string option \<Rightarrow> string \<Rightarrow> string \<Rightarrow> (nat \<times> string) + bytes \<times> ImageType" where
  "get_edge_photo is_uuid verify read evidenceClient now ids authorization workflowId evidenceId =
     (case authorize_evidence is_uuid verify read evidenceClient now ids authorization workflowId (Some evidenceId) None of
        Inl e \<Rightarrow> Inl e
      | Inr context \<Rightarrow> (case evidenceClient of
            None \<Rightarrow> Inl (503, ''evidence_unavailable'')
          | Some client \<Rightarrow> map_sum sendEvidenceFailure id (rec_getContent client context evidenceId)))"

lemma authorized_evidence:
  assumes "authorize_evidence is_uuid verify read evidenceClient now ids authorization workflowId evidenceId uploading = Inr context"
  obtains identity getWorkflow client workflow where "verifyRequestIdentity verify now authorization = Inr identity" and "read = Some getWorkflow"
    and "evidenceClient = Some client" and "getWorkflow workflowId (edge_access identity (ids 0) (ids 1)) = Inr workflow"
    and "context = \<lparr> erc_workflowId = workflowId, erc_identity = identity, erc_requestId = ids 0, erc_traceId = ids 1 \<rparr>"
    and "\<And>h. uploading = Some h \<Longrightarrow> upload_allowed client context workflow h = Inr ()"
  using assms that
  by (auto simp: authorize_evidence_def Let_def split: sum.splits option.splits if_splits)

end
