(* ===== verification/Edge_Journey.thy ===== *)
theory Edge_Journey
  imports Edge_Evidence
begin

text \<open>
  What a customer sees of a refund: \<^verbatim>\<open>refund-journey-view.ts\<close> and the refund routes of \<^verbatim>\<open>app.ts\<close> of
  \<^verbatim>\<open>src/apps/services/edge-api/src/\<close>: the journey, its event stream, the status and the confirmation. A
  projection of the state of the workflow of theory \<^verbatim>\<open>Refund_Workflow\<close>; what it tells and what confirmations do
  is proved in theory \<^verbatim>\<open>Edge_Customer\<close>.
\<close>

section \<open>refund-journey-view.ts\<close>

datatype JourneyStage =
    J_REQUEST_RECEIVED | J_REFUND_PREVIEW_READY | J_SPECIALIST_REVIEWING | J_REFUND_PROCESSING | J_REFUND_COMPLETED
  | J_MORE_INFORMATION_NEEDED | J_REFUND_NOT_APPROVED | J_REFUND_CANCELLED | J_PREVIEW_EXPIRED | J_REFUND_FAILED
  | J_REQUEST_RESOLVED | J_AWAITING_CUSTOMER_EVIDENCE | J_AWAITING_EVIDENCE_REVIEW | J_EVIDENCE_COLLECTION_EXPIRED

datatype NextActionType = CONFIRM_REFUND | WAIT_FOR_SPECIALIST | WAIT_FOR_REFUND | CONTACT_SUPPORT | PROVIDE_EVIDENCE | NO_ACTION

datatype TimelineId = T_REQUEST_RECEIVED | T_PREVIEW_READY | T_SPECIALIST_REVIEW | T_REFUND_PROCESSING | T_COMPLETED

datatype TimelineStatus = STEP_COMPLETED | STEP_CURRENT | STEP_PENDING | STEP_SKIPPED

record JourneyPreview =
  jp_preview_id :: string
  jp_amount :: Money
  jp_refund_destination :: RefundDestination
  jp_valid_until :: string

record RefundJourneyView =
  jv_workflow_id :: string
  jv_stage :: JourneyStage
  jv_evidence :: "RefundEvidenceSummary option"
  jv_preview :: "JourneyPreview option"
  jv_next_action :: "NextActionType \<times> string"
  jv_timeline :: "(TimelineId \<times> string \<times> TimelineStatus) list"

definition STAGE_BY_WORKFLOW_STAGE :: "Stage \<Rightarrow> JourneyStage" where
  "STAGE_BY_WORKFLOW_STAGE s = (case s of
     S_EVALUATING \<Rightarrow> J_REQUEST_RECEIVED
   | S_AWAITING_CUSTOMER_EVIDENCE \<Rightarrow> J_AWAITING_CUSTOMER_EVIDENCE
   | S_AWAITING_EVIDENCE_REVIEW \<Rightarrow> J_AWAITING_EVIDENCE_REVIEW
   | S_EVIDENCE_COLLECTION_EXPIRED \<Rightarrow> J_EVIDENCE_COLLECTION_EXPIRED
   | S_AWAITING_CUSTOMER_CONFIRMATION \<Rightarrow> J_REFUND_PREVIEW_READY
   | S_AWAITING_APPROVAL \<Rightarrow> J_SPECIALIST_REVIEWING
   | S_HUMAN_TAKEOVER_REQUIRED \<Rightarrow> J_SPECIALIST_REVIEWING
   | S_CONFIRMED \<Rightarrow> J_REFUND_PROCESSING
   | S_APPROVED \<Rightarrow> J_REFUND_PROCESSING
   | S_REFUND_PROCESSING \<Rightarrow> J_REFUND_PROCESSING
   | S_PENDING_RECONCILIATION \<Rightarrow> J_REFUND_PROCESSING
   | S_REFUND_SUCCEEDED \<Rightarrow> J_REFUND_COMPLETED
   | S_NEEDS_FACTS \<Rightarrow> J_MORE_INFORMATION_NEEDED
   | S_DENIED \<Rightarrow> J_REFUND_NOT_APPROVED
   | S_REJECTED \<Rightarrow> J_REFUND_NOT_APPROVED
   | S_TAKEOVER_RESOLVED \<Rightarrow> J_REQUEST_RESOLVED
   | S_CANCELLED \<Rightarrow> J_REFUND_CANCELLED
   | S_PREVIEW_INVALIDATED \<Rightarrow> J_PREVIEW_EXPIRED
   | S_REFUND_FAILED \<Rightarrow> J_REFUND_FAILED)"

definition TIMELINE :: "(TimelineId \<times> string) list" where
  "TIMELINE = [(T_REQUEST_RECEIVED, ''Refund request received''), (T_PREVIEW_READY, ''Refund preview prepared''),
     (T_SPECIALIST_REVIEW, ''Specialist review''), (T_REFUND_PROCESSING, ''Refund processing''), (T_COMPLETED, ''Refund completed'')]"

definition nextActionFor :: "JourneyStage \<Rightarrow> NextActionType \<times> string" where
  "nextActionFor s = (case s of
     J_AWAITING_CUSTOMER_EVIDENCE \<Rightarrow> (PROVIDE_EVIDENCE, ''Add a clear photo of the damaged item'')
   | J_AWAITING_EVIDENCE_REVIEW \<Rightarrow> (WAIT_FOR_SPECIALIST, ''A specialist is reviewing your photos'')
   | J_EVIDENCE_COLLECTION_EXPIRED \<Rightarrow> (NO_ACTION, ''Start a new request if you still need help'')
   | J_REFUND_PREVIEW_READY \<Rightarrow> (CONFIRM_REFUND, ''Review and confirm your refund'')
   | J_SPECIALIST_REVIEWING \<Rightarrow> (WAIT_FOR_SPECIALIST, ''A specialist is reviewing your request'')
   | J_REQUEST_RECEIVED \<Rightarrow> (WAIT_FOR_REFUND, ''We are processing your request'')
   | J_REFUND_PROCESSING \<Rightarrow> (WAIT_FOR_REFUND, ''We are processing your request'')
   | J_MORE_INFORMATION_NEEDED \<Rightarrow> (CONTACT_SUPPORT, ''Please contact support for more information'')
   | _ \<Rightarrow> (NO_ACTION, ''No action is needed''))"

definition currentTimelineStep :: "JourneyStage \<Rightarrow> TimelineId" where
  "currentTimelineStep s = (case s of
     J_REFUND_PREVIEW_READY \<Rightarrow> T_PREVIEW_READY
   | J_SPECIALIST_REVIEWING \<Rightarrow> T_SPECIALIST_REVIEW
   | J_REFUND_PROCESSING \<Rightarrow> T_REFUND_PROCESSING
   | J_REFUND_COMPLETED \<Rightarrow> T_COMPLETED
   | _ \<Rightarrow> T_REQUEST_RECEIVED)"

definition timelineFor :: "JourneyStage \<Rightarrow> bool \<Rightarrow> (TimelineId \<times> string \<times> TimelineStatus) list" where
  "timelineFor s hasPreview =
     (if s = J_PREVIEW_EXPIRED then
        [(T_REQUEST_RECEIVED, ''Refund request received'', STEP_COMPLETED), (T_PREVIEW_READY, ''Refund preview no longer available'', STEP_SKIPPED)]
      else if s = J_SPECIALIST_REVIEWING \<and> \<not> hasPreview then
        [(T_REQUEST_RECEIVED, ''Refund request received'', STEP_COMPLETED), (T_SPECIALIST_REVIEW, ''Specialist review'', STEP_CURRENT),
         (T_PREVIEW_READY, ''Refund preview prepared'', STEP_PENDING), (T_REFUND_PROCESSING, ''Refund processing'', STEP_PENDING),
         (T_COMPLETED, ''Refund completed'', STEP_PENDING)]
      else if s = J_AWAITING_CUSTOMER_EVIDENCE \<or> s = J_AWAITING_EVIDENCE_REVIEW \<or> s = J_EVIDENCE_COLLECTION_EXPIRED then
        (let later = (if s = J_EVIDENCE_COLLECTION_EXPIRED then STEP_SKIPPED else STEP_PENDING) in
         [(T_REQUEST_RECEIVED, ''Refund request received'', STEP_COMPLETED),
          (T_SPECIALIST_REVIEW, ''Photo evidence review'', if s = J_EVIDENCE_COLLECTION_EXPIRED then STEP_SKIPPED else STEP_CURRENT),
          (T_PREVIEW_READY, ''Refund preview prepared'', later), (T_REFUND_PROCESSING, ''Refund processing'', later), (T_COMPLETED, ''Refund completed'', later)])
      else if s = J_REQUEST_RESOLVED then
        map (\<lambda>(i, label). (i, label, if i = T_REQUEST_RECEIVED \<or> i = T_SPECIALIST_REVIEW then STEP_COMPLETED else STEP_SKIPPED)) TIMELINE
      else (let currentIndex = length (takeWhile (\<lambda>step. fst step \<noteq> currentTimelineStep s) TIMELINE) in
        map (\<lambda>(index, i, label). (i, label, if index < currentIndex then STEP_COMPLETED else if index = currentIndex then STEP_CURRENT else STEP_PENDING))
          (zip [0..<length TIMELINE] TIMELINE)))"

definition shown_preview :: "RefundPreview \<Rightarrow> JourneyPreview" where
  "shown_preview p = \<lparr> jp_preview_id = previewId p, jp_amount = pre_requestedAmount p, jp_refund_destination = pre_refundDestination p,
     jp_valid_until = pre_validUntil p \<rparr>"

text \<open>The summary is parsed again with the permission to upload cut down to the stages that take photos.\<close>

definition toRefundJourneyView ::
  "(string \<Rightarrow> bool) \<Rightarrow> (string \<Rightarrow> bool) \<Rightarrow> string \<Rightarrow> RefundWorkflowState \<Rightarrow> RefundEvidenceSummary option \<Rightarrow> RefundJourneyView result" where
  "toRefundJourneyView is_uuid is_datetime workflowId workflow evidence =
     (let s = STAGE_BY_WORKFLOW_STAGE (stage workflow);
          shown = map_option (\<lambda>e. e\<lparr> re_can_upload := re_can_upload e \<and> (s = J_AWAITING_CUSTOMER_EVIDENCE \<or> s = J_AWAITING_EVIDENCE_REVIEW) \<rparr>) evidence
      in if (case shown of None \<Rightarrow> False | Some e \<Rightarrow> \<not> summary_valid is_uuid is_datetime e) then Inl ZodError
         else Inr \<lparr> jv_workflow_id = workflowId, jv_stage = s, jv_evidence = shown, jv_preview = map_option shown_preview (st_preview workflow),
           jv_next_action = nextActionFor s, jv_timeline = timelineFor s (st_preview workflow \<noteq> None) \<rparr>)"

subsection \<open>The text of a view\<close>

definition journey_stage_string :: "JourneyStage \<Rightarrow> string" where
  "journey_stage_string s = (case s of
     J_REQUEST_RECEIVED \<Rightarrow> ''REQUEST_RECEIVED'' | J_REFUND_PREVIEW_READY \<Rightarrow> ''REFUND_PREVIEW_READY'' | J_SPECIALIST_REVIEWING \<Rightarrow> ''SPECIALIST_REVIEWING''
   | J_REFUND_PROCESSING \<Rightarrow> ''REFUND_PROCESSING'' | J_REFUND_COMPLETED \<Rightarrow> ''REFUND_COMPLETED'' | J_MORE_INFORMATION_NEEDED \<Rightarrow> ''MORE_INFORMATION_NEEDED''
   | J_REFUND_NOT_APPROVED \<Rightarrow> ''REFUND_NOT_APPROVED'' | J_REFUND_CANCELLED \<Rightarrow> ''REFUND_CANCELLED'' | J_PREVIEW_EXPIRED \<Rightarrow> ''PREVIEW_EXPIRED''
   | J_REFUND_FAILED \<Rightarrow> ''REFUND_FAILED'' | J_REQUEST_RESOLVED \<Rightarrow> ''REQUEST_RESOLVED'' | J_AWAITING_CUSTOMER_EVIDENCE \<Rightarrow> ''AWAITING_CUSTOMER_EVIDENCE''
   | J_AWAITING_EVIDENCE_REVIEW \<Rightarrow> ''AWAITING_EVIDENCE_REVIEW'' | J_EVIDENCE_COLLECTION_EXPIRED \<Rightarrow> ''EVIDENCE_COLLECTION_EXPIRED'')"

definition next_action_string :: "NextActionType \<Rightarrow> string" where
  "next_action_string a = (case a of CONFIRM_REFUND \<Rightarrow> ''CONFIRM_REFUND'' | WAIT_FOR_SPECIALIST \<Rightarrow> ''WAIT_FOR_SPECIALIST'' | WAIT_FOR_REFUND \<Rightarrow> ''WAIT_FOR_REFUND''
     | CONTACT_SUPPORT \<Rightarrow> ''CONTACT_SUPPORT'' | PROVIDE_EVIDENCE \<Rightarrow> ''PROVIDE_EVIDENCE'' | NO_ACTION \<Rightarrow> ''NONE'')"

definition timeline_id_string :: "TimelineId \<Rightarrow> string" where
  "timeline_id_string i = (case i of T_REQUEST_RECEIVED \<Rightarrow> ''REQUEST_RECEIVED'' | T_PREVIEW_READY \<Rightarrow> ''PREVIEW_READY''
     | T_SPECIALIST_REVIEW \<Rightarrow> ''SPECIALIST_REVIEW'' | T_REFUND_PROCESSING \<Rightarrow> ''REFUND_PROCESSING'' | T_COMPLETED \<Rightarrow> ''COMPLETED'')"

definition timeline_status_string :: "TimelineStatus \<Rightarrow> string" where
  "timeline_status_string st = (case st of STEP_COMPLETED \<Rightarrow> ''COMPLETED'' | STEP_CURRENT \<Rightarrow> ''CURRENT'' | STEP_PENDING \<Rightarrow> ''PENDING'' | STEP_SKIPPED \<Rightarrow> ''SKIPPED'')"

definition opt_field :: "string \<Rightarrow> ('a \<Rightarrow> json) \<Rightarrow> 'a option \<Rightarrow> (string \<times> json) list" where
  "opt_field k f v = (case v of None \<Rightarrow> [] | Some x \<Rightarrow> [(k, f x)])"

definition attachment_json :: "EdgeAttachment \<Rightarrow> json" where
  "attachment_json a = JObj ([(''evidence_id'', JStr (at_evidence_id a)), (''display_label'', JStr (at_display_label a))]
     @ opt_field ''content_type'' (\<lambda>t. JStr (image_string t)) (at_content_type a) @ [(''byte_size'', JNum (at_byte_size a))]
     @ opt_field ''width'' JNum (at_width a) @ opt_field ''height'' JNum (at_height a) @ [(''uploaded_at'', JStr (at_uploaded_at a)),
        (''technical_status'', JStr (technical_string (at_technical_status a)))]
     @ opt_field ''rejection_code'' (\<lambda>c. JStr (rejection_string c)) (at_rejection_code a))"

definition summary_json :: "RefundEvidenceSummary \<Rightarrow> json" where
  "summary_json s = JObj ([(''version'', JStr ''v1''),
       (''requirement'', JStr (case re_requirement s of Requirement_DAMAGE_PHOTO \<Rightarrow> ''DAMAGE_PHOTO'' | Requirement_NONE \<Rightarrow> ''NONE'')),
       (''evidence_version'', JNum (re_evidence_version s)), (''assessment'', JStr (assessment_string (re_assessment s))),
       (''can_upload'', JBool (re_can_upload s))]
     @ opt_field ''customer_message_code'' JStr (re_customer_message_code s) @ [(''attachments'', JArr (map attachment_json (re_attachments s)))])"

definition preview_json :: "JourneyPreview \<Rightarrow> json" where
  "preview_json p = JObj [(''preview_id'', JStr (jp_preview_id p)),
     (''amount'', JObj [(''amount_minor'', JNum (amountMinor (jp_amount p))), (''currency'', JStr (currency (jp_amount p)))]),
     (''refund_destination'', JStr (destination_string (jp_refund_destination p))), (''valid_until'', JStr (jp_valid_until p))]"

definition journey_json :: "RefundJourneyView \<Rightarrow> json" where
  "journey_json v = JObj ([(''version'', JStr ''v1''), (''workflow_id'', JStr (jv_workflow_id v)), (''stage'', JStr (journey_stage_string (jv_stage v)))]
     @ opt_field ''evidence'' summary_json (jv_evidence v) @ opt_field ''preview'' preview_json (jv_preview v)
     @ [(''next_action'', JObj [(''type'', JStr (next_action_string (fst (jv_next_action v)))), (''label'', JStr (snd (jv_next_action v)))]),
        (''timeline'', JArr (map (\<lambda>(i, label, st). JObj [(''id'', JStr (timeline_id_string i)), (''label'', JStr label),
           (''status'', JStr (timeline_status_string st))]) (jv_timeline v)))])"

definition refundJourneyFingerprint ::
  "(string \<Rightarrow> bool) \<Rightarrow> (string \<Rightarrow> bool) \<Rightarrow> string \<Rightarrow> RefundWorkflowState \<Rightarrow> RefundEvidenceSummary option \<Rightarrow> string result" where
  "refundJourneyFingerprint is_uuid is_datetime workflowId workflow evidence =
     map_sum id (\<lambda>v. stringify (journey_json v)) (toRefundJourneyView is_uuid is_datetime workflowId workflow evidence)"

record RefundJourneyUpdateEvent =
  ue_workflow_id :: string
  ue_event_id :: string
  ue_occurred_at :: string

definition formatSseEvent :: "RefundJourneyUpdateEvent \<Rightarrow> string" where
  "formatSseEvent e = ''id: '' @ ue_event_id e @ [CHR 0x0A] @ ''event: refund_journey_updated'' @ [CHR 0x0A] @ ''data: ''
     @ stringify (JObj [(''version'', JStr ''v1''), (''type'', JStr ''refund_journey_updated''), (''workflow_id'', JStr (ue_workflow_id e)),
         (''event_id'', JStr (ue_event_id e)), (''occurred_at'', JStr (ue_occurred_at e))]) @ [CHR 0x0A, CHR 0x0A]"

section \<open>Loading a refund\<close>

definition loadOwnedRefundWorkflow ::
  "identity_verifier \<Rightarrow> workflow_reader option \<Rightarrow> RefundEvidenceClient option \<Rightarrow> int \<Rightarrow> (nat \<Rightarrow> string) \<Rightarrow> string \<Rightarrow> string option
     \<Rightarrow> string + RefundWorkflowState \<times> RefundEvidenceSummary option" where
  "loadOwnedRefundWorkflow verify read evidenceClient now ids workflowId authorization =
     (case read of
        None \<Rightarrow> Inl ''workflow_unavailable''
      | Some getWorkflow \<Rightarrow> (case verifyRequestIdentity verify now authorization of
            Inl _ \<Rightarrow> Inl ''customer_unauthorized''
          | Inr identity \<Rightarrow> (case getWorkflow workflowId (edge_access identity (ids 0) (ids 1)) of
                Inl e \<Rightarrow> Inl (if e = RefundWorkflowNotFoundError then ''refund_workflow_not_found'' else ''workflow_unavailable'')
              | Inr workflow \<Rightarrow>
                  (case (case evidenceClient of None \<Rightarrow> Inr None
                     | Some client \<Rightarrow> rec_getSummary client \<lparr> erc_workflowId = workflowId, erc_identity = identity, erc_requestId = ids 2, erc_traceId = ids 3 \<rparr>) of
                     Inl _ \<Rightarrow> if isEvidenceWaitStage (stage workflow) then Inl ''evidence_unavailable'' else Inr (workflow, None)
                   | Inr None \<Rightarrow> if isEvidenceWaitStage (stage workflow) then Inl ''evidence_unavailable'' else Inr (workflow, None)
                   | Inr (Some evidence) \<Rightarrow> Inr (workflow, Some evidence)))))"

definition sendRefundJourneyLoadFailure :: "string \<Rightarrow> nat \<times> string" where
  "sendRefundJourneyLoadFailure e =
     (if e = ''customer_unauthorized'' then (401, e) else if e = ''refund_workflow_not_found'' then (404, e)
      else if e = ''workflow_unavailable'' then (502, e) else (503, ''evidence_unavailable''))"

definition workflowParams :: "string \<Rightarrow> bool" where
  "workflowParams w \<longleftrightarrow> 1 \<le> length w \<and> length w \<le> 200"

definition get_journey ::
  "(string \<Rightarrow> bool) \<Rightarrow> (string \<Rightarrow> bool) \<Rightarrow> identity_verifier \<Rightarrow> workflow_reader option \<Rightarrow> RefundEvidenceClient option \<Rightarrow> int \<Rightarrow> (nat \<Rightarrow> string)
     \<Rightarrow> string \<Rightarrow> string option \<Rightarrow> (nat \<times> string) + RefundJourneyView" where
  "get_journey is_uuid is_datetime verify read evidenceClient now ids workflowId authorization =
     (if \<not> workflowParams workflowId then Inl (400, ''invalid_workflow_id'')
      else (case loadOwnedRefundWorkflow verify read evidenceClient now ids workflowId authorization of
          Inl e \<Rightarrow> Inl (sendRefundJourneyLoadFailure e)
        | Inr (workflow, evidence) \<Rightarrow> map_sum (\<lambda>_. (500, ''internal'')) id (toRefundJourneyView is_uuid is_datetime workflowId workflow evidence)))"

section \<open>The event stream\<close>

record JourneyStream =
  js_fingerprint :: string
  js_eventSequence :: nat
  js_written :: "string list"

definition writeUpdate :: "string \<Rightarrow> string \<Rightarrow> JourneyStream \<Rightarrow> JourneyStream" where
  "writeUpdate workflowId at st =
     st\<lparr> js_eventSequence := js_eventSequence st + 1,
         js_written := js_written st @ [formatSseEvent \<lparr> ue_workflow_id = workflowId,
           ue_event_id = workflowId @ '':'' @ show_nat (js_eventSequence st + 1), ue_occurred_at = at \<rparr>] \<rparr>"

definition open_stream :: "string \<Rightarrow> nat \<Rightarrow> string \<Rightarrow> string \<Rightarrow> JourneyStream" where
  "open_stream workflowId interval at fingerprint =
     writeUpdate workflowId at \<lparr> js_fingerprint = fingerprint, js_eventSequence = 0,
       js_written = [''retry: '' @ show_nat interval @ [CHR 0x0A, CHR 0x0A]] \<rparr>"

text \<open>
  \<^verbatim>\<open>GET /v1/refunds/:workflowId/events\<close>, up to the first interval, and one interval with what it loaded. An
  interval that fires while one is in progress, or behind the end of the connection, does nothing.
\<close>

definition get_events ::
  "(string \<Rightarrow> bool) \<Rightarrow> (string \<Rightarrow> bool) \<Rightarrow> identity_verifier \<Rightarrow> workflow_reader option \<Rightarrow> RefundEvidenceClient option \<Rightarrow> int \<Rightarrow> (nat \<Rightarrow> string)
     \<Rightarrow> nat \<Rightarrow> string \<Rightarrow> string \<Rightarrow> string option \<Rightarrow> (nat \<times> string) + JourneyStream" where
  "get_events is_uuid is_datetime verify read evidenceClient now ids interval at workflowId authorization =
     (if \<not> workflowParams workflowId then Inl (400, ''invalid_workflow_id'')
      else (case loadOwnedRefundWorkflow verify read evidenceClient now ids workflowId authorization of
          Inl e \<Rightarrow> Inl (sendRefundJourneyLoadFailure e)
        | Inr (workflow, evidence) \<Rightarrow> map_sum (\<lambda>_. (500, ''internal'')) (open_stream workflowId interval at)
            (refundJourneyFingerprint is_uuid is_datetime workflowId workflow evidence)))"

definition loaded_fingerprint ::
  "(string \<Rightarrow> bool) \<Rightarrow> (string \<Rightarrow> bool) \<Rightarrow> string \<Rightarrow> string + RefundWorkflowState \<times> RefundEvidenceSummary option \<Rightarrow> string option" where
  "loaded_fingerprint is_uuid is_datetime workflowId loaded = (case loaded of
     Inl _ \<Rightarrow> None
   | Inr (workflow, evidence) \<Rightarrow> (case refundJourneyFingerprint is_uuid is_datetime workflowId workflow evidence of Inl _ \<Rightarrow> None | Inr f \<Rightarrow> Some f))"

definition poll_journey ::
  "(string \<Rightarrow> bool) \<Rightarrow> (string \<Rightarrow> bool) \<Rightarrow> string \<Rightarrow> (string + RefundWorkflowState \<times> RefundEvidenceSummary option) \<times> string \<Rightarrow> JourneyStream \<Rightarrow> JourneyStream" where
  "poll_journey is_uuid is_datetime workflowId p st = (case p of (loaded, at) \<Rightarrow>
     (case loaded_fingerprint is_uuid is_datetime workflowId loaded of
        None \<Rightarrow> st
      | Some f \<Rightarrow> if f \<noteq> js_fingerprint st then writeUpdate workflowId at (st\<lparr> js_fingerprint := f \<rparr>) else st))"

section \<open>Status and confirmation\<close>

definition get_refund_status ::
  "identity_verifier \<Rightarrow> workflow_reader option \<Rightarrow> int \<Rightarrow> (nat \<Rightarrow> string) \<Rightarrow> string \<Rightarrow> string option \<Rightarrow> (nat \<times> string) + string \<times> RefundWorkflowState" where
  "get_refund_status verify read now ids workflowId authorization =
     (if \<not> workflowParams workflowId then Inl (400, ''invalid_workflow_id'')
      else (case read of
          None \<Rightarrow> Inl (503, ''workflow_unavailable'')
        | Some getWorkflow \<Rightarrow> (case verifyRequestIdentity verify now authorization of
              Inl _ \<Rightarrow> Inl (401, ''customer_unauthorized'')
            | Inr identity \<Rightarrow> (case getWorkflow workflowId (edge_access identity (ids 0) (ids 1)) of
                  Inl e \<Rightarrow> Inl (if e = RefundWorkflowNotFoundError then (404, ''refund_workflow_not_found'') else (502, ''workflow_unavailable''))
                | Inr workflow \<Rightarrow> Inr (workflowId, workflow)))))"

definition confirmationSchema :: "json \<Rightarrow> (string \<times> bool) option" where
  "confirmationSchema body =
     do {
       v \<leftarrow> z_object [''preview_id'', ''accepted''] body;
       preview \<leftarrow> z_string_max 200 (get_prop ''preview_id'' v);
       accepted \<leftarrow> z_bool (get_prop ''accepted'' v);
       Some (preview, accepted)
     }"

record ConfirmationPost =
  post_time :: int
  post_authorization :: "string option"
  post_workflowId :: string
  post_body :: json

text \<open>The service is asked at \<^verbatim>\<open>s1\<close> and \<^verbatim>\<open>s2\<close>, signalled at \<^verbatim>\<open>s3\<close>, and perhaps asked again at \<^verbatim>\<open>s4\<close>.\<close>

definition post_confirmation ::
  "'s TemporalClient option \<Rightarrow> identity_verifier \<Rightarrow> 's \<Rightarrow> 's \<Rightarrow> 's \<Rightarrow> 's \<Rightarrow> (nat \<Rightarrow> string) \<Rightarrow> ConfirmationPost \<Rightarrow> 's \<times> ((nat \<times> string) + string)" where
  "post_confirmation client verify s1 s2 s3 s4 ids post =
     (case (if workflowParams (post_workflowId post) then confirmationSchema (post_body post) else None) of
        None \<Rightarrow> (s3, Inl (400, ''invalid_refund_confirmation''))
      | Some (preview, accepted) \<Rightarrow> (case client of
            None \<Rightarrow> (s3, Inl (503, ''workflow_unavailable''))
          | Some c \<Rightarrow> (case verifyRequestIdentity verify (post_time post) (post_authorization post) of
                Inl _ \<Rightarrow> (s3, Inl (401, ''customer_unauthorized''))
              | Inr identity \<Rightarrow>
                  (case confirmRefundWorkflow c s1 s2 s3 s4 (post_time post) (post_workflowId post) (edge_access identity (ids 0) (ids 1)) preview accepted of
                     (s', Inr _) \<Rightarrow> (s', Inr (post_workflowId post))
                   | (s', Inl e) \<Rightarrow> (s', Inl (if e = RefundPreviewUnavailableError then (409, ''refund_preview_unavailable'')
                       else if e = RefundWorkflowNotFoundError then (404, ''refund_workflow_not_found'') else (502, ''workflow_unavailable'')))))))"

end
