(* ===== verification/Edge_Customer.thy ===== *)
theory Edge_Customer
  imports Edge_Journey
begin

text \<open>
  What holds of the refund routes together with the workflow they show: the journey tells the truth, its event
  stream follows it, only the owner of a refund sees it or acts on it, and a refund is paid only when its owner
  posted a confirmation of the offer that is paid.
\<close>

section \<open>A closing stage is final\<close>

definition closing :: "Stage \<Rightarrow> bool" where
  "closing s \<longleftrightarrow> s \<in> {S_EVIDENCE_COLLECTION_EXPIRED, S_CANCELLED, S_NEEDS_FACTS, S_DENIED, S_REJECTED, S_TAKEOVER_RESOLVED, S_PREVIEW_INVALIDATED,
     S_REFUND_SUCCEEDED, S_REFUND_FAILED}"

definition offer_shown :: "RefundWorkflowState \<Rightarrow> bool" where
  "offer_shown st \<longleftrightarrow> (stage st = S_AWAITING_CUSTOMER_CONFIRMATION \<longrightarrow> st_preview st \<noteq> None)"

definition ongoing :: "WorkflowRun \<Rightarrow> bool" where
  "ongoing run \<longleftrightarrow> \<not> closing (stage (wr_state run)) \<and> offer_shown (wr_state run)"

text \<open>The states that a later \<^verbatim>\<open>finish\<close> will set show an offer when they should.\<close>

definition closes_well :: "pc \<Rightarrow> bool" where
  "closes_well p \<longleftrightarrow> (case p of PC_CloseUnconfirmed st \<Rightarrow> offer_shown st | PC_CloseDeclined st \<Rightarrow> offer_shown st | _ \<Rightarrow> True)"

definition told :: "WorkflowRun \<Rightarrow> bool" where
  "told run \<longleftrightarrow> offer_shown (wr_state run) \<and> closes_well (wr_pc run) \<and> (closing (stage (wr_state run)) \<longrightarrow> wr_pc run = PC_Done)"

named_theorems told_segments "segments that close a run exactly with a closing stage"

lemma told_moves [simp]:
  "ongoing run \<Longrightarrow> closes_well p \<Longrightarrow> told (schedule c p run)" "ongoing run \<Longrightarrow> closes_well p \<Longrightarrow> told (suspend p run)" "offer_shown st \<Longrightarrow> told (finish st run)"
  by (simp_all add: told_def closes_well_def ongoing_def schedule_def suspend_def finish_def)

lemma offer_shown_mk [simp]: "offer_shown (mk_state s d p i) \<longleftrightarrow> (s = S_AWAITING_CUSTOMER_CONFIRMATION \<longrightarrow> p \<noteq> None)"
  by (simp add: offer_shown_def mk_state_def)

lemma ongoing_moves [simp]:
  "ongoing (set_state (mk_state s d p i) run) \<longleftrightarrow> \<not> closing s \<and> (s = S_AWAITING_CUSTOMER_CONFIRMATION \<longrightarrow> p \<noteq> None)"
  "ongoing (record_entries es run) = ongoing run" "ongoing (run\<lparr> wr_pending := q \<rparr>) = ongoing run" "ongoing (run\<lparr> wr_humanDecision := h \<rparr>) = ongoing run"
  "ongoing (run\<lparr> decide_set := b \<rparr>) = ongoing run" "ongoing (run\<lparr> outcome_set := b \<rparr>) = ongoing run" "ongoing (run\<lparr> confirm_set := b \<rparr>) = ongoing run"
  "ongoing (run\<lparr> buffered_decisions := ds \<rparr>) = ongoing run" "ongoing (run\<lparr> buffered_outcomes := os \<rparr>) = ongoing run"
  "ongoing (run\<lparr> buffered_confirmations := cs \<rparr>) = ongoing run"
  by (simp_all add: ongoing_def set_state_def record_entries_def mk_state_def offer_shown_def)

lemma closing_simps [simp]:
  "\<not> closing S_EVALUATING" "\<not> closing S_AWAITING_CUSTOMER_EVIDENCE" "\<not> closing S_AWAITING_EVIDENCE_REVIEW" "\<not> closing S_AWAITING_CUSTOMER_CONFIRMATION"
  "\<not> closing S_AWAITING_APPROVAL" "\<not> closing S_HUMAN_TAKEOVER_REQUIRED" "\<not> closing S_REFUND_PROCESSING" "\<not> closing S_PENDING_RECONCILIATION"
  by (simp_all add: closing_def)

lemma closes_well_simps [simp]:
  "closes_well PC_Context0" "closes_well (PC_Decision0 a)" "closes_well (PC_OpenEvidence d)" "closes_well (PC_EvidenceSleep d e n k)"
  "closes_well (PC_EvidenceRead d n k)" "closes_well (PC_CloseExpired d)" "closes_well (PC_Context1 e)" "closes_well (PC_Decision1 a e)"
  "closes_well (PC_CloseReviewed a d e)" "closes_well (PC_Preview b d v)" "closes_well (PC_Confirm b d q v)" "closes_well (PC_Observe b d q v f)"
  "closes_well (PC_OpenApproval d q v)" "closes_well (PC_AwaitApproval d q v i)" "closes_well (PC_CloseApproved d q v)" "closes_well (PC_OpenTakeover d v)"
  "closes_well (PC_AwaitTakeover d v i)" "closes_well (PC_CloseExceptional d v i)" "closes_well (PC_TakeoverContext d v i)"
  "closes_well (PC_TakeoverEvidence d a e i)" "closes_well (PC_TakeoverDecision a e i)" "closes_well (PC_ExecEvidence b d q v)"
  "closes_well (PC_ExecRefresh b d q v)" "closes_well (PC_Execute b d q)" "closes_well (PC_ProviderReconcile d q r z)" "closes_well (PC_ProviderWait d q r)"
  "closes_well (PC_Reconcile d q k)" "closes_well (PC_ReconcileSleep d q k)" "closes_well (PC_ContinuedAsNew g)" "closes_well PC_Failed"
  "closes_well (PC_CloseUnconfirmed st) = offer_shown st" "closes_well (PC_CloseDeclined st) = offer_shown st"
  by (simp_all add: closes_well_def)

lemma told_execution [told_segments]:
  "ongoing run \<Longrightarrow> told (executeAuthorizedRefund br dec pre evidence run)" "ongoing run \<Longrightarrow> told (provider_reconciled dec pre refundId outcome rec run)"
  "ongoing run \<Longrightarrow> told (pending_reconciled dec pre n rec run)" "ongoing run \<Longrightarrow> told (execute_evidence_read br dec pre evidence current run)"
  "ongoing run \<Longrightarrow> told (execute_refreshed br dec pre ctx run)" "ongoing run \<Longrightarrow> told (executed dec pre result run)"
  "ongoing run \<Longrightarrow> told (reconcilePendingRefund dec pre n run)" "ongoing run \<Longrightarrow> told (pending_slept dec pre n run)"
  "ongoing run \<Longrightarrow> told (provider_reconcile dec pre refundId outcome run)"
  by (simp_all add: executeAuthorizedRefund_def execute_refresh_def provider_reconciled_def pending_reconciled_def execute_evidence_read_def
      execute_refreshed_def executed_def awaitProviderRefundOutcome_def provider_reconcile_def reconcilePendingRefund_def pending_slept_def Let_def
      split: ReconciliationStatus.splits ExecutionStatus.splits)

lemma told_cases [told_segments]:
  "ongoing run \<Longrightarrow> closes_well p \<Longrightarrow> told (openMonetaryCase evidence i p run)"
  "ongoing run \<Longrightarrow> closes_well p \<Longrightarrow> told (close_case caseId d o1 p run)"
  "ongoing run \<Longrightarrow> closes_well p \<Longrightarrow> told (close_evidence snap o2 p run)"
  by (simp_all add: openMonetaryCase_def close_case_def close_evidence_def split: option.splits)

lemma told_confirmation [told_segments]:
  "ongoing run \<Longrightarrow> offer_shown st \<Longrightarrow> told (leave_unconfirmed br evidence st run)" "ongoing run \<Longrightarrow> told (confirmation_observed br dec pre evidence c run)"
  "ongoing run \<Longrightarrow> told (confirmation_returned patched br dec pre evidence confirmation run)"
  by (simp_all add: leave_unconfirmed_def confirmation_observed_def confirmation_returned_def told_segments split: option.splits)

lemma told_wait [told_segments]: "ongoing run \<Longrightarrow> told (waitForRefundConfirmation patched now br dec pre evidence run)"
  by (simp add: waitForRefundConfirmation_def Let_def told_segments split: option.splits prod.splits)

lemma told_human [told_segments]:
  "ongoing run \<Longrightarrow> told (approval_decided dec pre evidence caseId human run)" "ongoing run \<Longrightarrow> told (takeover_decided dec evidence caseId human run)"
  by (simp_all add: approval_decided_def takeover_decided_def told_segments Let_def)

lemma told_opened [told_segments]:
  "ongoing run \<Longrightarrow> told (approval_opened dec pre evidence caseId run)" "ongoing run \<Longrightarrow> told (takeover_opened dec evidence caseId run)"
  "ongoing run \<Longrightarrow> told (exceptional_preview dec evidence caseId ctx run)" "ongoing run \<Longrightarrow> told (takeover_refreshed dec evidence caseId ctx run)"
  "ongoing run \<Longrightarrow> told (takeover_evidence_read dec ctx snap caseId current run)" "ongoing run \<Longrightarrow> told (takeover_reevaluated ctx snap caseId dec run)"
  by (simp_all add: approval_opened_def takeover_opened_def exceptional_preview_def takeover_refreshed_def takeover_evidence_read_def
      takeover_reevaluated_def told_segments Let_def split: option.splits)

lemma told_dispatch [told_segments]: "ongoing run \<Longrightarrow> told (dispatch ctx dec evidence run)"
  by (simp add: dispatch_def told_segments split: PolicyEffect.splits)

lemma told_evidence [told_segments]:
  "ongoing run \<Longrightarrow> told (evidence_loop now dec snap deadline polls run)" "ongoing run \<Longrightarrow> told (evidence_polled now dec deadline polls snap run)"
  "ongoing run \<Longrightarrow> told (evidence_opened now dec snap run)" "ongoing run \<Longrightarrow> told (reviewed_decision ctx snap dec run)"
  "ongoing run \<Longrightarrow> told (first_decision ctx dec run)" "ongoing run \<Longrightarrow> told (first_context ctx run)"
  by (simp_all add: evidence_loop_def evidence_polled_def evidence_opened_def reviewed_decision_def first_decision_def first_context_def
      told_segments split: option.splits)

lemma told_preview [told_segments]: "told (preview_created patched now br dec evidence pre run)"
  by (simp add: preview_created_def told_segments)

lemma told_ongoing: "told run \<Longrightarrow> wr_pc run \<noteq> PC_Done \<Longrightarrow> ongoing run"
  by (auto simp: told_def ongoing_def)

lemma told_resume:
  assumes "ongoing run" and "closes_well (wr_pc run)" and "resume patched now r run = Some run'"
  shows "told run'"
  using assms
  by (cases "wr_pc run") (auto simp: resume_def on_context_def on_decision_def on_preview_def on_void_def on_execute_def on_reconcile_def on_case_def
      on_evidence_def told_segments split: reply.splits)

lemma told_start: "told (start_run request w J)"
  by (cases "rq_recovery request"; simp add: start_run_def Let_def told_segments)
    (simp_all add: told_def schedule_def initial_state_def offer_shown_def)

lemma told_complete:
  assumes "told run" and "wr_pc run \<noteq> PC_Done"
  shows "told (complete patched now r run)"
proof (cases "wr_pending run")
  case (Some c)
  let ?run = "record_entries [Completed c r] (run\<lparr> wr_pending := None \<rparr>)"
  have "ongoing ?run" using told_ongoing [OF assms] by simp
  moreover have "closes_well (wr_pc ?run)" using assms(1) by (simp add: told_def record_entries_def)
  ultimately have "\<And>run'. resume patched now r ?run = Some run' \<Longrightarrow> told run'" by (rule told_resume)
  then show ?thesis using assms(1) by (cases "resume patched now r ?run") (simp_all add: complete_def Some)
qed (simp add: complete_def assms(1))

lemma told_recorded [simp]: "told (record_entries es run) = told run"
  by (simp add: told_def record_entries_def)

lemma told_keep: "told run \<Longrightarrow> told (run\<lparr> buffered_confirmations := cs \<rparr>)" "told run \<Longrightarrow> told (run\<lparr> buffered_decisions := ds \<rparr>)"
  "told run \<Longrightarrow> told (run\<lparr> buffered_outcomes := os \<rparr>)"
  by (simp_all add: told_def)

lemma told_signals:
  assumes "told run" and "wr_pc run \<noteq> PC_Done"
  shows "told (timer_fired patched run)" and "told (signal_decide d run)" and "told (signal_outcome po run)" and "told (signal_confirm patched now c run)"
  using told_ongoing [OF assms] assms(1)
  by (auto simp: timer_fired_def signal_decide_def signal_outcome_def signal_confirm_def told_segments told_keep split: pc.splits option.splits prod.splits)

lemma told_step:
  assumes "told run"
  shows "told (step patched now ev run)"
proof (cases "is_final (wr_pc run)")
  case True
  then show ?thesis using assms told_start by (cases ev) (auto simp: step_def split: pc.splits)
next
  case False
  then have p: "wr_pc run \<noteq> PC_Done" by (auto simp: is_final_def)
  have "told (run\<lparr> wr_pc := PC_Failed, wr_pending := None \<rparr>)" using told_ongoing [OF assms p] by (simp add: told_def ongoing_def)
  then show ?thesis using assms False told_signals [OF assms p] told_complete [OF assms p] told_start
    by (cases ev) (auto simp: step_def split: pc.splits)
qed

lemma reachable_told: "reachable patched request w run \<Longrightarrow> told run"
  by (induction rule: reachable.induct) (simp_all add: told_start told_step)

section \<open>The journey tells the truth\<close>

lemma journey_loaded:
  assumes "loadOwnedRefundWorkflow verify read evidenceClient now ids w authorization = Inr (workflow, evidence)"
  obtains identity getWorkflow where "verifyRequestIdentity verify now authorization = Inr identity" and "read = Some getWorkflow"
    and "getWorkflow w (edge_access identity (ids 0) (ids 1)) = Inr workflow"
    and "isEvidenceWaitStage (stage workflow) \<longrightarrow> evidence \<noteq> None"
proof -
  from assms obtain getWorkflow identity workflow' where g: "read = Some getWorkflow" "verifyRequestIdentity verify now authorization = Inr identity"
      "getWorkflow w (edge_access identity (ids 0) (ids 1)) = Inr workflow'"
    unfolding loadOwnedRefundWorkflow_def by (cases read; simp) (auto split: sum.split_asm)
  then have "workflow' = workflow \<and> (isEvidenceWaitStage (stage workflow) \<longrightarrow> evidence \<noteq> None)"
    using assms by (auto simp: loadOwnedRefundWorkflow_def split: sum.split_asm option.split_asm if_split_asm)
  then show thesis by (intro that [OF g(2, 1)]) (use g(3) in simp_all)
qed

lemma viewed_fields:
  assumes "toRefundJourneyView is_uuid is_datetime w workflow evidence = Inr view"
  shows "jv_stage view = STAGE_BY_WORKFLOW_STAGE (stage workflow)" and "jv_preview view = map_option shown_preview (st_preview workflow)"
    and "jv_next_action view = nextActionFor (jv_stage view)" and "jv_workflow_id view = w"
    and "jv_evidence view \<noteq> None \<longleftrightarrow> evidence \<noteq> None"
  using assms by (auto simp: toRefundJourneyView_def Let_def split: if_split_asm)

lemma confirm_action: "fst (nextActionFor s) = CONFIRM_REFUND \<longleftrightarrow> s = J_REFUND_PREVIEW_READY"
  by (cases s) (simp_all add: nextActionFor_def)

lemma closing_journeys:
  "STAGE_BY_WORKFLOW_STAGE s = J_REFUND_COMPLETED \<longleftrightarrow> s = S_REFUND_SUCCEEDED" "STAGE_BY_WORKFLOW_STAGE s = J_REFUND_FAILED \<longleftrightarrow> s = S_REFUND_FAILED"
  "STAGE_BY_WORKFLOW_STAGE s = J_REFUND_PREVIEW_READY \<longleftrightarrow> s = S_AWAITING_CUSTOMER_CONFIRMATION"
  "STAGE_BY_WORKFLOW_STAGE s \<in> {J_REFUND_NOT_APPROVED, J_REFUND_CANCELLED, J_PREVIEW_EXPIRED, J_MORE_INFORMATION_NEEDED, J_REQUEST_RESOLVED, J_EVIDENCE_COLLECTION_EXPIRED}
     \<longleftrightarrow> closing s \<and> s \<noteq> S_REFUND_SUCCEEDED \<and> s \<noteq> S_REFUND_FAILED"
  by (cases s; simp add: STAGE_BY_WORKFLOW_STAGE_def closing_def)+

lemma stage_truthful:
  assumes "reachable patched request w run" and "closing (stage (wr_state run))"
  shows "(stage (wr_state run) = S_REFUND_SUCCEEDED \<longrightarrow> executions (wr_journal run) \<noteq> [] \<and> success_shown (wr_journal run))
    \<and> (stage (wr_state run) = S_REFUND_FAILED \<longrightarrow> executions (wr_journal run) \<noteq> [] \<and> failure_shown (wr_journal run))
    \<and> (stage (wr_state run) \<noteq> S_REFUND_SUCCEEDED \<and> stage (wr_state run) \<noteq> S_REFUND_FAILED \<longrightarrow> executions (wr_journal run) = [])"
proof -
  have finished: "wr_pc run = PC_Done" using reachable_told [OF assms(1)] assms(2) by (simp add: told_def)
  have inv: "pc_inv patched request w (wr_journal run) (wr_pending run) (wr_state run) PC_Done"
    using reachable_inv [OF assms(1)] finished by (simp add: run_inv_def)
  have "executed_once patched request w (wr_journal run) \<Longrightarrow> executions (wr_journal run) \<noteq> []"
    using executed_once_not_no_exec no_exec_executions by blast
  with inv show ?thesis by (auto simp: pc_inv_def settled_def no_exec_executions split: if_split_asm)
qed

text \<open>
  C17. The journey tells the customer the truth. A journey is only shown to a customer who owns the refund.
  When it shows the refund as completed, the gateway was asked for it and an answer or an event of the
  provider says it succeeded; when it shows it as failed, one says it failed; when it shows it as not
  approved, cancelled, expired, resolved or in need of information, no refund was asked for. When it asks the
  customer to confirm, the workflow waits for that and the offer is in the journey; when it waits for
  photos, the state of the photos is in the journey.
\<close>

theorem journey_truthful:
  assumes "temporal_service client runs_of patched" and "\<forall>run. runs_of s2 w = Some run \<longrightarrow> (\<exists>request. reachable patched request w run)"
    and "get_journey is_uuid is_datetime verify (Some (getRefundWorkflow client s1 s2)) evidenceClient now ids w authorization = Inr view"
  shows "\<exists>identity owned_run run. verifyRequestIdentity verify now authorization = Inr identity
    \<and> runs_of s1 w = Some owned_run \<and> same_owner (rq_access (wr_request owned_run)) (edge_access identity (ids 0) (ids 1)) \<and> runs_of s2 w = Some run
    \<and> (jv_stage view = J_REFUND_COMPLETED \<longrightarrow> executions (wr_journal run) \<noteq> [] \<and> success_shown (wr_journal run))
    \<and> (jv_stage view = J_REFUND_FAILED \<longrightarrow> executions (wr_journal run) \<noteq> [] \<and> failure_shown (wr_journal run))
    \<and> (jv_stage view \<in> {J_REFUND_NOT_APPROVED, J_REFUND_CANCELLED, J_PREVIEW_EXPIRED, J_MORE_INFORMATION_NEEDED, J_REQUEST_RESOLVED, J_EVIDENCE_COLLECTION_EXPIRED}
        \<longrightarrow> executions (wr_journal run) = [])
    \<and> (fst (jv_next_action view) = CONFIRM_REFUND \<longrightarrow> stage (wr_state run) = S_AWAITING_CUSTOMER_CONFIRMATION \<and> jv_preview view \<noteq> None)
    \<and> (isEvidenceWaitStage (stage (wr_state run)) \<longrightarrow> jv_evidence view \<noteq> None)"
proof -
  from assms(3) obtain workflow evidence where load: "loadOwnedRefundWorkflow verify (Some (getRefundWorkflow client s1 s2)) evidenceClient now ids w authorization = Inr (workflow, evidence)"
      and view: "toRefundJourneyView is_uuid is_datetime w workflow evidence = Inr view"
    by (auto simp: get_journey_def split: if_split_asm sum.split_asm)
  obtain identity getWorkflow where identity: "verifyRequestIdentity verify now authorization = Inr identity"
      and "Some (getRefundWorkflow client s1 s2) = Some getWorkflow" "getWorkflow w (edge_access identity (ids 0) (ids 1)) = Inr workflow"
      and photos: "isEvidenceWaitStage (stage workflow) \<longrightarrow> evidence \<noteq> None" by (rule journey_loaded [OF load])
  then have got: "getRefundWorkflow client s1 s2 w (edge_access identity (ids 0) (ids 1)) = Inr workflow" by simp
  from temporal_service.viewed [OF assms(1) got] obtain owned_run run where runs: "runs_of s1 w = Some owned_run"
      "same_owner (rq_access (wr_request owned_run)) (edge_access identity (ids 0) (ids 1))" "runs_of s2 w = Some run" "workflow = wr_state run" by metis
  from assms(2) runs(3) obtain request where r: "reachable patched request w run" by blast
  note fields = viewed_fields [OF view, unfolded runs(4)]
  have offer: "stage (wr_state run) = S_AWAITING_CUSTOMER_CONFIRMATION \<Longrightarrow> st_preview (wr_state run) \<noteq> None"
    using reachable_told [OF r] by (simp add: told_def offer_shown_def)
  show ?thesis
  proof (intro exI conjI)
    show "jv_stage view = J_REFUND_COMPLETED \<longrightarrow> executions (wr_journal run) \<noteq> [] \<and> success_shown (wr_journal run)"
      using stage_truthful [OF r] by (auto simp: fields(1) closing_journeys closing_def)
    show "jv_stage view = J_REFUND_FAILED \<longrightarrow> executions (wr_journal run) \<noteq> [] \<and> failure_shown (wr_journal run)"
      using stage_truthful [OF r] by (auto simp: fields(1) closing_journeys closing_def)
    show "jv_stage view \<in> {J_REFUND_NOT_APPROVED, J_REFUND_CANCELLED, J_PREVIEW_EXPIRED, J_MORE_INFORMATION_NEEDED, J_REQUEST_RESOLVED, J_EVIDENCE_COLLECTION_EXPIRED}
        \<longrightarrow> executions (wr_journal run) = []"
      unfolding fields(1) closing_journeys(4) using stage_truthful [OF r] by blast
    show "fst (jv_next_action view) = CONFIRM_REFUND \<longrightarrow> stage (wr_state run) = S_AWAITING_CUSTOMER_CONFIRMATION \<and> jv_preview view \<noteq> None"
      unfolding fields(3) confirm_action fields(1,2) closing_journeys(3) using offer by simp
    show "isEvidenceWaitStage (stage (wr_state run)) \<longrightarrow> jv_evidence view \<noteq> None"
      using photos fields(5) runs(4) by simp
  qed (fact identity runs(1-3))+
qed

section \<open>The stream follows the journey\<close>

lemma remdups_adj_snoc: "remdups_adj (xs @ [x]) = (if xs \<noteq> [] \<and> last xs = x then remdups_adj xs else remdups_adj xs @ [x])"
  by (induction xs rule: remdups_adj.induct) auto

definition journey_event :: "string \<Rightarrow> nat \<times> string \<Rightarrow> string" where
  "journey_event workflowId e = formatSseEvent \<lparr> ue_workflow_id = workflowId, ue_event_id = workflowId @ '':'' @ show_nat (fst e), ue_occurred_at = snd e \<rparr>"

definition seen_fingerprints ::
  "(string \<Rightarrow> bool) \<Rightarrow> (string \<Rightarrow> bool) \<Rightarrow> string \<Rightarrow> string \<Rightarrow> ((string + RefundWorkflowState \<times> RefundEvidenceSummary option) \<times> string) list \<Rightarrow> string list" where
  "seen_fingerprints is_uuid is_datetime workflowId f0 polls = f0 # List.map_filter (\<lambda>p. loaded_fingerprint is_uuid is_datetime workflowId (fst p)) polls"

text \<open>
  The event stream follows the journey. After any number of polls, of which some may have failed, the
  stream knows the journey of the last poll that succeeded, and it has written one event at its start and one
  for every change between polls that succeeded, and none else. The events are numbered from one on without
  a gap, and an event carries the workflow, its number and a time and nothing of the refund.
\<close>

theorem events_follow_journey:
  "js_fingerprint (fold (poll_journey is_uuid is_datetime w) polls (open_stream w interval at f0)) = last (seen_fingerprints is_uuid is_datetime w f0 polls)
   \<and> (\<exists>times. length times = length (remdups_adj (seen_fingerprints is_uuid is_datetime w f0 polls))
        \<and> js_eventSequence (fold (poll_journey is_uuid is_datetime w) polls (open_stream w interval at f0)) = length times
        \<and> js_written (fold (poll_journey is_uuid is_datetime w) polls (open_stream w interval at f0))
           = (''retry: '' @ show_nat interval @ [CHR 0x0A, CHR 0x0A]) # map (journey_event w) (zip [1..<Suc (length times)] times))"
proof (induction polls rule: rev_induct)
  case Nil
  show ?case by (simp add: seen_fingerprints_def map_filter_def open_stream_def writeUpdate_def journey_event_def) (intro exI [of _ "[at]"], simp)
next
  case (snoc p polls)
  obtain r t where p: "p = (r, t)" by fastforce
  let ?st = "fold (poll_journey is_uuid is_datetime w) polls (open_stream w interval at f0)" and ?fs = "seen_fingerprints is_uuid is_datetime w f0 polls"
  from snoc obtain times where f: "js_fingerprint ?st = last ?fs" and n: "length times = length (remdups_adj ?fs)" "js_eventSequence ?st = length times"
      and out: "js_written ?st = (''retry: '' @ show_nat interval @ [CHR 0x0A, CHR 0x0A]) # map (journey_event w) (zip [1..<Suc (length times)] times)" by blast
  show ?case
  proof (cases "loaded_fingerprint is_uuid is_datetime w r")
    case None
    then have "seen_fingerprints is_uuid is_datetime w f0 (polls @ [p]) = ?fs" and "poll_journey is_uuid is_datetime w p ?st = ?st"
      by (simp_all add: seen_fingerprints_def map_filter_def p poll_journey_def)
    then show ?thesis using snoc by simp
  next
    case (Some g)
    have fs: "seen_fingerprints is_uuid is_datetime w f0 (polls @ [p]) = ?fs @ [g]" and ne: "?fs \<noteq> []"
      using Some by (simp_all add: seen_fingerprints_def map_filter_def p)
    show ?thesis
    proof (cases "g = last ?fs")
      case True
      then have "poll_journey is_uuid is_datetime w p ?st = ?st" by (simp add: p poll_journey_def Some f)
      then show ?thesis using snoc True by (simp add: fs remdups_adj_snoc ne)
    next
      case False
      have step: "poll_journey is_uuid is_datetime w p ?st = writeUpdate w t (?st\<lparr> js_fingerprint := g \<rparr>)"
        using False by (simp add: p poll_journey_def Some f)
      have events: "map (journey_event w) (zip [Suc 0..<Suc (Suc (length times))] (times @ [t]))
          = map (journey_event w) (zip [Suc 0..<Suc (length times)] times) @ [journey_event w (Suc (length times), t)]"
      proof -
        have "[Suc 0..<Suc (Suc (length times))] = [Suc 0..<Suc (length times)] @ [Suc (length times)]" by simp
        then show ?thesis by (simp del: upt_Suc)
      qed
      show ?thesis
        by (simp add: fs remdups_adj_snoc ne False [symmetric] step writeUpdate_def n(1) [symmetric] n(2) out del: upt_Suc)
          (intro exI [of _ "times @ [t]"], simp add: events journey_event_def del: upt_Suc)
    qed
  qed
qed

section \<open>Only the owner\<close>

lemma refused_load:
  assumes "\<And>identity. verifyRequestIdentity verify now authorization = Inr identity \<Longrightarrow> \<exists>e. getWorkflow w (edge_access identity (ids 0) (ids 1)) = Inl e"
  shows "\<exists>e. loadOwnedRefundWorkflow verify (Some getWorkflow) evidenceClient now ids w authorization = Inl e"
  using assms by (cases "verifyRequestIdentity verify now authorization") (auto simp: loadOwnedRefundWorkflow_def)

lemma refused_photos:
  assumes "\<And>identity. verifyRequestIdentity verify now authorization = Inr identity \<Longrightarrow> \<exists>e. getWorkflow w (edge_access identity (ids 0) (ids 1)) = Inl e"
  shows "\<exists>e. authorize_evidence is_uuid verify (Some getWorkflow) evidenceClient now ids authorization w evidenceId uploading = Inl e"
proof (cases "authorize_evidence is_uuid verify (Some getWorkflow) evidenceClient now ids authorization w evidenceId uploading")
  case (Inr cx)
  then show ?thesis by (rule authorized_evidence) (use assms in auto)
qed simp

text \<open>
  C22. Only its owner has access to a refund. Take a refund of one customer and a request whose token is not
  one of that customer in that tenant and environment. Then no route shows anything of the refund: neither the
  journey, nor its events, nor the status, nor a photo; no photo is taken; and a confirmation is refused and
  leaves the workflow service as it was.
\<close>

theorem foreign_refund_hidden:
  assumes "temporal_service client runs_of patched" and "runs_of s1 w = Some run"
    and "\<forall>identity. verifyRequestIdentity verify now authorization = Inr identity
        \<longrightarrow> \<not> same_owner (rq_access (wr_request run)) (edge_access identity (ids 0) (ids 1))"
  shows "\<not> is_ok (get_journey is_uuid is_datetime verify (Some (getRefundWorkflow client s1 s2)) evidenceClient now ids w authorization)
    \<and> \<not> is_ok (get_events is_uuid is_datetime verify (Some (getRefundWorkflow client s1 s2)) evidenceClient now ids interval at w authorization)
    \<and> \<not> is_ok (get_refund_status verify (Some (getRefundWorkflow client s1 s2)) now ids w authorization)
    \<and> \<not> is_ok (get_edge_photo is_uuid verify (Some (getRefundWorkflow client s1 s2)) evidenceClient now ids authorization w evidenceId)
    \<and> \<not> is_ok (post_edge_evidence is_uuid verify (Some (getRefundWorkflow client s1 s2)) evidenceClient now ids authorization w headers body)
    \<and> (\<exists>e. post_confirmation (Some client) verify s1 s2 s3 s4 ids
          \<lparr> post_time = now, post_authorization = authorization, post_workflowId = w, post_body = confirmation \<rparr> = (s3, Inl e))"
proof -
  have handle: "\<exists>e. getOwnedHandle client s1 w (edge_access identity (ids 0) (ids 1)) = Inl e"
    if "verifyRequestIdentity verify now authorization = Inr identity" for identity
    by (rule temporal_service.foreign_handle [OF assms(1,2)]) (use that assms(3) in blast)
  then have refused: "\<exists>e. getRefundWorkflow client s1 s2 w (edge_access identity (ids 0) (ids 1)) = Inl e"
    if "verifyRequestIdentity verify now authorization = Inr identity" for identity
    using that by (fastforce simp: getRefundWorkflow_def)
  obtain e1 where load: "loadOwnedRefundWorkflow verify (Some (getRefundWorkflow client s1 s2)) evidenceClient now ids w authorization = Inl e1"
    using refused_load [of verify now authorization "getRefundWorkflow client s1 s2" w ids evidenceClient] refused by blast
  have photos: "\<exists>e. authorize_evidence is_uuid verify (Some (getRefundWorkflow client s1 s2)) evidenceClient now ids authorization w i uploading = Inl e" for i uploading
    by (rule refused_photos) (rule refused)
  have status: "\<not> is_ok (get_refund_status verify (Some (getRefundWorkflow client s1 s2)) now ids w authorization)"
  proof (cases "verifyRequestIdentity verify now authorization")
    case (Inr identity)
    then show ?thesis using refused [OF Inr] by (auto simp: get_refund_status_def)
  qed (simp add: get_refund_status_def)
  have confirm: "\<exists>e. post_confirmation (Some client) verify s1 s2 s3 s4 ids
          \<lparr> post_time = now, post_authorization = authorization, post_workflowId = w, post_body = confirmation \<rparr> = (s3, Inl e)"
  proof (cases "verifyRequestIdentity verify now authorization")
    case (Inr identity)
    from refused [OF Inr] obtain e where "getRefundWorkflow client s1 s2 w (edge_access identity (ids 0) (ids 1)) = Inl e" by blast
    then show ?thesis using Inr by (auto simp: post_confirmation_def confirmRefundWorkflow_def split: option.splits)
  qed (auto simp: post_confirmation_def split: option.splits)
  show ?thesis
    using load photos [of "Some evidenceId" None] photos [of None "Some headers"] status confirm
    by (auto simp: get_journey_def get_events_def get_edge_photo_def post_edge_evidence_def)
qed

text \<open>
  Photos come from their owner's refund, and are photos. When the edge answers with a photo, the request's
  token names a customer who owns the refund, human operations were asked with an assertion signed for that
  customer, that refund and the purpose of reading content, and the answer is a JPEG or a PNG as declared, of
  at most 10 MiB.
\<close>

theorem edge_photo_checked:
  assumes "temporal_service client runs_of patched"
    and "get_edge_photo is_uuid verify (Some (getRefundWorkflow client s1 s2)) (Some (createRefundEvidenceClient is_uuid is_datetime parse_json sign fetch))
      now ids authorization w evidenceId = Inr (photo, t)"
  shows "\<exists>identity run assertion response. verifyRequestIdentity verify now authorization = Inr identity
    \<and> runs_of s1 w = Some run \<and> same_owner (rq_access (wr_request run)) (edge_access identity (ids 0) (ids 1))
    \<and> sign \<lparr> erc_workflowId = w, erc_identity = identity, erc_requestId = ids 0, erc_traceId = ids 1 \<rparr> P_refund_evidence_content = Inr assertion
    \<and> fetch w (ReadContent evidenceId) assertion = Some response \<and> er_content response = Some photo
    \<and> length photo \<le> 10485760 \<and> (case t of Image_png \<Rightarrow> is_png photo | Image_jpeg \<Rightarrow> is_jpeg photo)"
proof -
  from assms(2) obtain cx where auth: "authorize_evidence is_uuid verify (Some (getRefundWorkflow client s1 s2))
        (Some (createRefundEvidenceClient is_uuid is_datetime parse_json sign fetch)) now ids authorization w (Some evidenceId) None = Inr cx"
      and read: "client_getContent parse_json sign fetch cx evidenceId = Inr (photo, t)"
    by (auto simp: get_edge_photo_def createRefundEvidenceClient_def split: sum.split_asm)
  obtain identity getWorkflow c workflow where identity: "verifyRequestIdentity verify now authorization = Inr identity"
      and got: "Some (getRefundWorkflow client s1 s2) = Some getWorkflow" "getWorkflow w (edge_access identity (ids 0) (ids 1)) = Inr workflow"
      and cx: "cx = \<lparr> erc_workflowId = w, erc_identity = identity, erc_requestId = ids 0, erc_traceId = ids 1 \<rparr>"
    by (rule authorized_evidence [OF auth])
  from got have "getRefundWorkflow client s1 s2 w (edge_access identity (ids 0) (ids 1)) = Inr workflow" by simp
  from temporal_service.viewed [OF assms(1) this] obtain run where run: "runs_of s1 w = Some run"
      "same_owner (rq_access (wr_request run)) (edge_access identity (ids 0) (ids 1))" by metis
  from read obtain assertion response where sent: "sign cx P_refund_evidence_content = Inr assertion" "fetch (erc_workflowId cx) (ReadContent evidenceId) assertion = Some response"
      and content: "er_content response = Some photo" "length photo \<le> MAX_EVIDENCE_BYTES"
      and kind: "if t = Image_png then is_png photo else length photo \<ge> 3 \<and> photo ! 0 = 255 \<and> photo ! 1 = 216 \<and> photo ! 2 = 255"
    by (auto simp: client_getContent_def evidence_request_def readBounded_def result_simps split: sum.split_asm option.split_asm if_split_asm)
  have "case t of Image_png \<Rightarrow> is_png photo | Image_jpeg \<Rightarrow> is_jpeg photo"
  proof (cases t)
    case Image_jpeg
    with kind have bytes: "length photo \<ge> 3" "photo ! 0 = 255" "photo ! 1 = 216" "photo ! 2 = 255" by simp_all
    have "take 3 photo = [photo ! 0, photo ! 1, photo ! 2]" using bytes(1) by (intro nth_equalityI) (auto simp: less_Suc_eq numeral_3_eq_3 numeral_2_eq_2)
    then show ?thesis using bytes(3) by (simp add: Image_jpeg is_jpeg_def bytes(2,4))
  qed (use kind in simp)
  then show ?thesis using identity run sent content by (auto simp: cx MAX_EVIDENCE_BYTES_def)
qed

section \<open>Confirmations\<close>

text \<open>
  The history of a deployment: the states of the workflow service, newest first, and the confirmations that
  were posted to the edge. A workflow is started under an identifier that is new, workers, timers, people and
  the provider move workflows by any event but a confirmation, and confirmations arrive through the route,
  whose queries may be answered from any earlier state.
\<close>

inductive confirmation_history ::
  "'s TemporalClient \<Rightarrow> ('s \<Rightarrow> runs) \<Rightarrow> (string \<Rightarrow> bool) \<Rightarrow> identity_verifier \<Rightarrow> 's list \<Rightarrow> ConfirmationPost list \<Rightarrow> bool"
  for client runs_of patched verify where
  history_empty: "runs_of s = Map.empty \<Longrightarrow> confirmation_history client runs_of patched verify [s] []"
| history_start: "confirmation_history client runs_of patched verify (s # past) posts \<Longrightarrow>
    \<forall>t \<in> set (s # past). runs_of t (si_workflowId input) = None \<Longrightarrow> startRefundWorkflow client s input = (s', r) \<Longrightarrow>
    confirmation_history client runs_of patched verify (s' # s # past) posts"
| history_work: "confirmation_history client runs_of patched verify (s # past) posts \<Longrightarrow> runs_of s w = Some run \<Longrightarrow>
    \<forall>c. ev \<noteq> SigConfirm c \<Longrightarrow> runs_of s' = (runs_of s)(w \<mapsto> step patched now ev run) \<Longrightarrow>
    confirmation_history client runs_of patched verify (s' # s # past) posts"
| history_confirm: "confirmation_history client runs_of patched verify (s # past) posts \<Longrightarrow> s1 \<in> set (s # past) \<Longrightarrow> s2 \<in> set (s # past) \<Longrightarrow>
    post_confirmation (Some client) verify s1 s2 s s4 ids post = (s', answer) \<Longrightarrow>
    confirmation_history client runs_of patched verify (s' # s # past) (post # posts)"

text \<open>A confirmation that its owner posted.\<close>

definition posted_by_owner :: "identity_verifier \<Rightarrow> ConfirmationPost list \<Rightarrow> string \<Rightarrow> WorkflowJourneyAccess \<Rightarrow> RefundCustomerConfirmation \<Rightarrow> bool" where
  "posted_by_owner verify posts w owner c \<longleftrightarrow> (\<exists>post \<in> set posts. \<exists>identity. post_workflowId post = w
     \<and> verifyRequestIdentity verify (post_time post) (post_authorization post) = Inr identity
     \<and> tenantId owner = id_tenantId identity \<and> environmentId owner = id_environmentId identity \<and> subjectCustomerId owner = id_customerId identity
     \<and> confirmationSchema (post_body post) = Some (cf_previewId c, cf_accepted c))"

definition history_ok :: "('s \<Rightarrow> runs) \<Rightarrow> (string \<Rightarrow> bool) \<Rightarrow> identity_verifier \<Rightarrow> 's list \<Rightarrow> ConfirmationPost list \<Rightarrow> (string \<Rightarrow> RefundWorkflowRequest) \<Rightarrow> bool" where
  "history_ok runs_of patched verify past posts requests \<longleftrightarrow> (\<forall>s \<in> set past. \<forall>w run. runs_of s w = Some run \<longrightarrow>
     reachable patched (requests w) w run \<and> heard (posted_by_owner verify posts w (rq_access (requests w))) run)"

lemma journal_confirmed:
  assumes "reachable patched request w run" and "Scheduled (ExecuteRefund i) \<in> set (wr_journal run)"
  shows "\<exists>t c. Confirmed t c \<in> set (wr_journal run) \<and> cf_accepted c \<and> cf_previewId c = previewId (ex_preview i)"
proof -
  have "executed_once patched request w (wr_journal run)"
    using run_inv_journal [OF reachable_inv [OF assms(1)]] assms(2) by (auto simp: no_exec_def)
  then obtain later earlier br dec pre evidence ctx where J: "wr_journal run = later @ Scheduled (ExecuteRefund (execution_of request w pre))
      # Completed (refresh_call request w) (R_Context ctx) # earlier"
    and n: "no_exec later" "no_exec earlier" and cl: "cleared patched request earlier br dec pre evidence"
    unfolding executed_once_def by blast
  have i: "ex_preview i = pre" using assms(2) n unfolding J by (auto simp: no_exec_def refresh_call_def execution_of_def)
  from cl obtain t c where "Confirmed t c \<in> set earlier" "cf_accepted c" "cf_previewId c = previewId pre"
    by (auto simp: cleared_def confirmed_ok_def confirmed_by_def)
  then show ?thesis unfolding i J by (intro exI [of _ t] exI [of _ c]) simp
qed

lemma reachable_access: "reachable patched request w run \<Longrightarrow> rq_access (wr_request run) = rq_access request"
  using reachable_inv [of patched request w run] by (simp add: run_inv_def base_inv_def Workflow_Safety.same_request_def)

lemma heard_weaken: "heard P run \<Longrightarrow> (\<And>c. P c \<Longrightarrow> Q c) \<Longrightarrow> heard Q run"
  by (auto simp: heard_def list_all_iff)

lemma posted_weaken: "posted_by_owner verify posts w owner c \<Longrightarrow> posted_by_owner verify (post # posts) w owner c"
  unfolding posted_by_owner_def by (auto intro: list.set_intros)

lemma history_weaken:
  assumes "history_ok runs_of patched verify past posts requests"
  shows "history_ok runs_of patched verify past (post # posts) requests"
  unfolding history_ok_def
proof (intro ballI allI impI)
  fix s w run
  assume "s \<in> set past" and "runs_of s w = Some run"
  with assms have "reachable patched (requests w) w run" "heard (posted_by_owner verify posts w (rq_access (requests w))) run"
    by (simp_all add: history_ok_def)
  then show "reachable patched (requests w) w run \<and> heard (posted_by_owner verify (post # posts) w (rq_access (requests w))) run"
    using heard_weaken posted_weaken by blast
qed

text \<open>The step lemma of a history: the new state moves the run \<^verbatim>\<open>w\<close> or nothing.\<close>

lemma history_extend:
  assumes "history_ok runs_of patched verify (s # past) posts requests"
    and "runs_of s' = runs_of s \<or> (\<exists>run. runs_of s' = (runs_of s)(w \<mapsto> run) \<and> reachable patched (requests w) w run
      \<and> heard (posted_by_owner verify posts w (rq_access (requests w))) run)"
  shows "history_ok runs_of patched verify (s' # s # past) posts requests"
  using assms unfolding history_ok_def by (auto split: if_split_asm)

lemma history_fresh:
  assumes "history_ok runs_of patched verify past posts requests" and "\<forall>t \<in> set past. runs_of t w = None"
  shows "history_ok runs_of patched verify past posts (requests(w := request))"
  using assms unfolding history_ok_def by (metis fun_upd_other option.distinct(1))

lemma confirmed_post:
  assumes "temporal_service client runs_of patched"
    and "post_confirmation (Some client) verify s1 s2 s s4 ids post = (s', answer)"
  shows "runs_of s' = runs_of s \<or> (\<exists>c owned run now. runs_of s1 (post_workflowId post) = Some owned
    \<and> posted_by_owner verify [post] (post_workflowId post) (rq_access (wr_request owned)) c
    \<and> runs_of s (post_workflowId post) = Some run \<and> runs_of s' = (runs_of s)(post_workflowId post \<mapsto> step patched now (SigConfirm c) run))"
proof (cases "if workflowParams (post_workflowId post) then confirmationSchema (post_body post) else None")
  case (Some b)
  obtain preview accepted where b: "b = (preview, accepted)" by fastforce
  show ?thesis
  proof (cases "verifyRequestIdentity verify (post_time post) (post_authorization post)")
    case (Inr identity)
    obtain t r where confirm: "confirmRefundWorkflow client s1 s2 s s4 (post_time post) (post_workflowId post) (edge_access identity (ids 0) (ids 1)) preview accepted = (t, r)"
      by fastforce
    have "t = s'" using assms(2) Some Inr confirm b by (auto simp: post_confirmation_def split: sum.split_asm)
    moreover have "confirmationSchema (post_body post) = Some (preview, accepted)" using Some b by (simp split: if_split_asm)
    moreover define c where "c = \<lparr> cf_previewId = preview, cf_accepted = accepted, cf_confirmedAt = iso_string (post_time post) \<rparr>"
    ultimately have "posted_by_owner verify [post] (post_workflowId post) owner c" if "same_owner owner (edge_access identity (ids 0) (ids 1))" for owner
      using that Inr by (simp add: posted_by_owner_def same_owner_def edge_access_def)
    with temporal_service.confirmed [OF assms(1) confirm, folded c_def] show ?thesis unfolding signalled_def \<open>t = s'\<close> by blast
  qed (use assms(2) Some b in \<open>auto simp: post_confirmation_def\<close>)
qed (use assms(2) in \<open>auto simp: post_confirmation_def\<close>)

lemma history_invariant:
  assumes "temporal_service client runs_of patched" and "confirmation_history client runs_of patched verify past posts"
  shows "\<exists>requests. history_ok runs_of patched verify past posts requests"
  using assms(2)
proof (induction rule: confirmation_history.induct)
  case (history_empty s)
  then show ?case by (simp add: history_ok_def)
next
  case (history_start s past posts input s' r)
  let ?w = "si_workflowId input" and ?request = "start_request input"
  from history_start.IH obtain requests where ok: "history_ok runs_of patched verify (s # past) posts requests" by blast
  obtain q where "tc_start client s ?w ?request = (s', q)" using history_start(3) by (cases "tc_start client s ?w ?request") (simp add: startRefundWorkflow_def)
  from temporal_service.start [OF assms(1) this] have "runs_of s' = runs_of s \<or> runs_of s' = (runs_of s)(?w \<mapsto> start_run ?request ?w [])"
    by (auto simp: started_as_def)
  moreover have "reachable patched ?request ?w (start_run ?request ?w [])" by (rule reachable.start) (simp_all add: start_request_def)
  moreover have "heard P (start_run ?request ?w [])" for P by (simp add: heard_start)
  ultimately have "history_ok runs_of patched verify (s' # s # past) posts (requests(?w := ?request))"
    by (intro history_extend [OF history_fresh [OF ok history_start(2)], where w = ?w]) auto
  then show ?case by blast
next
  case (history_work s past posts w run ev s' now)
  from history_work.IH obtain requests where ok: "history_ok runs_of patched verify (s # past) posts requests" by blast
  with history_work(2) have run: "reachable patched (requests w) w run" "heard (posted_by_owner verify posts w (rq_access (requests w))) run"
    by (simp_all add: history_ok_def)
  have "heard (posted_by_owner verify posts w (rq_access (requests w))) (step patched now ev run)"
    by (rule heard_step [OF run(2)]) (use history_work(3) in simp)
  then have "history_ok runs_of patched verify (s' # s # past) posts requests"
    using history_extend [OF ok, of s' w] history_work(4) reachable.step [OF run(1)] by blast
  then show ?case by blast
next
  case (history_confirm s past posts s1 s2 s4 ids post s' answer)
  let ?w = "post_workflowId post"
  from history_confirm.IH obtain requests where "history_ok runs_of patched verify (s # past) posts requests" by blast
  then have ok: "history_ok runs_of patched verify (s # past) (post # posts) requests" by (rule history_weaken)
  have "history_ok runs_of patched verify (s' # s # past) (post # posts) requests"
  proof (rule history_extend [OF ok, where w = ?w])
    from confirmed_post [OF assms(1) history_confirm(4)] show "runs_of s' = runs_of s \<or> (\<exists>run. runs_of s' = (runs_of s)(?w \<mapsto> run)
        \<and> reachable patched (requests ?w) ?w run \<and> heard (posted_by_owner verify (post # posts) ?w (rq_access (requests ?w))) run)"
    proof (elim disjE exE conjE)
      fix c owned run now
      assume owned: "runs_of s1 ?w = Some owned" and c: "posted_by_owner verify [post] ?w (rq_access (wr_request owned)) c"
        and run: "runs_of s ?w = Some run" and s': "runs_of s' = (runs_of s)(?w \<mapsto> step patched now (SigConfirm c) run)"
      have "rq_access (wr_request owned) = rq_access (requests ?w)"
        using ok owned history_confirm(2) reachable_access by (fastforce simp: history_ok_def)
      with c have "posted_by_owner verify (post # posts) ?w (rq_access (requests ?w)) c" by (auto simp: posted_by_owner_def)
      moreover have "reachable patched (requests ?w) ?w run" "heard (posted_by_owner verify (post # posts) ?w (rq_access (requests ?w))) run"
        using ok run by (simp_all add: history_ok_def)
      ultimately show ?thesis using s' by (intro disjI2 exI [of _ "step patched now (SigConfirm c) run"] conjI) (auto intro: reachable.step heard_step)
    qed simp
  qed
  then show ?case by blast
qed

text \<open>
  C7. Nobody but the owner spends the refund. Over every history of a deployment, whatever the workers, the
  people and the provider do and however the steps of concurrent confirmations interleave: when a workflow
  asks for a refund, a request was posted to the edge for this workflow that accepts exactly the offer that is
  paid, with a token of the customer, tenant and environment the workflow was started for.
\<close>

theorem refund_confirmed_by_owner:
  assumes "temporal_service client runs_of patched" and "confirmation_history client runs_of patched verify (s # past) posts"
    and "runs_of s w = Some run" and "Scheduled (ExecuteRefund i) \<in> set (wr_journal run)"
  shows "\<exists>post \<in> set posts. \<exists>identity. post_workflowId post = w
    \<and> verifyRequestIdentity verify (post_time post) (post_authorization post) = Inr identity
    \<and> id_tenantId identity = tenantId (rq_access (wr_request run)) \<and> id_environmentId identity = environmentId (rq_access (wr_request run))
    \<and> id_customerId identity = subjectCustomerId (rq_access (wr_request run))
    \<and> confirmationSchema (post_body post) = Some (previewId (ex_preview i), True)"
proof -
  from history_invariant [OF assms(1,2)] obtain requests where "history_ok runs_of patched verify (s # past) posts requests" by blast
  with assms(3) have run: "reachable patched (requests w) w run" "heard (posted_by_owner verify posts w (rq_access (requests w))) run"
    by (simp_all add: history_ok_def)
  have "\<exists>t c. Confirmed t c \<in> set (wr_journal run) \<and> cf_accepted c \<and> cf_previewId c = previewId (ex_preview i)"
    using journal_confirmed [OF run(1) assms(4)] .
  with run(2) obtain c where "posted_by_owner verify posts w (rq_access (requests w)) c" "cf_accepted c" "cf_previewId c = previewId (ex_preview i)"
    by (auto simp: heard_def)
  then show ?thesis unfolding posted_by_owner_def reachable_access [OF run(1)] by auto
qed

section \<open>Examples\<close>

definition edge_customer :: "string \<Rightarrow> AuthenticatedCustomer" where
  "edge_customer who = \<lparr> id_principalId = who, id_tenantId = ''t1'', id_environmentId = ''e1'', id_customerId = who \<rparr>"

definition token_is_name :: identity_verifier where
  "token_is_name now token = (case token of None \<Rightarrow> Inl (Error ''Customer authentication is invalid'') | Some t \<Rightarrow> Inr (edge_customer t))"

definition edge_ids :: "nat \<Rightarrow> string" where "edge_ids n = ''id''"

abbreviation edge_service :: "runs TemporalClient" where "edge_service \<equiv> direct_service always 1000"

lemma bearer_tokens: "extractBearerToken (Some ''Bearer c1'') = Some ''c1''" "extractBearerToken (Some ''Bearer c2'') = Some ''c2''"
  by code_simp+

lemma bearer_c1: "verifyRequestIdentity token_is_name now (Some ''Bearer c1'') = Inr (edge_customer ''c1'')"
  and bearer_c2: "verifyRequestIdentity token_is_name now (Some ''Bearer c2'') = Inr (edge_customer ''c2'')"
  by (simp_all add: verifyRequestIdentity_def bearer_tokens token_is_name_def)

definition offered_run :: WorkflowRun where
  "offered_run = steps always [(0, Complete (R_Context sample_refund_context)), (0, Complete (R_Decision Workflow_Safety.sample_decision)), (0, Complete (R_Preview sample_preview))]
     (start_run Workflow_Safety.sample_request ''w1'' [])"

lemma offered_reachable: "reachable always Workflow_Safety.sample_request ''w1'' offered_run"
  unfolding offered_run_def by (intro reachable_steps reachable.start) (simp_all add: Workflow_Safety.sample_request_def)

lemma offered_access: "rq_access (wr_request offered_run) = sample_access"
  using reachable_access [OF offered_reachable] by (simp add: Workflow_Safety.sample_request_def)

lemma offered_stage: "wr_state offered_run = mk_state S_AWAITING_CUSTOMER_CONFIRMATION Workflow_Safety.sample_decision (Some sample_preview) None
    \<and> wr_pc offered_run = PC_Confirm B_ALLOW Workflow_Safety.sample_decision sample_preview None"
  using sample_happy(1-5) unfolding offered_run_def by (simp add: run_defs Let_def)

lemma final_continues: "sample_final = steps always [(1000, Complete R_Void), (1000, Complete (R_Context sample_refund_context)),
    (1000, Complete (R_Execute \<lparr>er_status = SUCCEEDED, er_providerRefundId = Some ''rf1''\<rparr>))] (step always 1000 (SigConfirm sample_confirmation) offered_run)"
  by (simp add: sample_final_def offered_run_def happy_trace_def)

definition final_runs :: runs where "final_runs = [''w1'' \<mapsto> sample_final]"

lemma final_access: "rq_access (wr_request sample_final) = sample_access"
  using reachable_access [OF sample_reachable] by (simp add: Workflow_Safety.sample_request_def)

lemma owner_c1: "same_owner sample_access (edge_access (edge_customer ''c1'') r t)" and stranger_c2: "\<not> same_owner sample_access (edge_access (edge_customer ''c2'') r t)"
  by (simp_all add: same_owner_def sample_access_def edge_access_def edge_customer_def)

lemma final_read: "getRefundWorkflow edge_service final_runs final_runs ''w1'' (edge_access (edge_customer ''c1'') r t) = Inr (wr_state sample_final)"
  using owner_c1 [of r t] by (simp add: getRefundWorkflow_def getOwnedHandle_def direct_service_def final_runs_def final_access same_owner_def)

definition final_view :: RefundJourneyView where
  "final_view = \<lparr> jv_workflow_id = ''w1'', jv_stage = J_REFUND_COMPLETED, jv_evidence = None, jv_preview = map_option shown_preview (st_preview (wr_state sample_final)),
     jv_next_action = nextActionFor J_REFUND_COMPLETED, jv_timeline = timelineFor J_REFUND_COMPLETED (st_preview (wr_state sample_final) \<noteq> None) \<rparr>"

lemma final_journey: "get_journey (\<lambda>_. True) (\<lambda>_. True) token_is_name (Some (getRefundWorkflow edge_service final_runs final_runs)) None 0 edge_ids ''w1'' (Some ''Bearer c1'')
    = Inr final_view"
  by (simp add: get_journey_def workflowParams_def loadOwnedRefundWorkflow_def bearer_c1 final_read sample_final_facts(2) isEvidenceWaitStage_def
      toRefundJourneyView_def STAGE_BY_WORKFLOW_STAGE_def final_view_def)

theorem journey_truthful_witness: "executions (wr_journal sample_final) \<noteq> [] \<and> success_shown (wr_journal sample_final)"
proof -
  have "\<forall>run. final_runs ''w1'' = Some run \<longrightarrow> (\<exists>request. reachable always request ''w1'' run)"
    using sample_reachable by (auto simp: final_runs_def)
  from journey_truthful [OF direct.temporal_service_axioms this final_journey] show ?thesis by (auto simp: final_runs_def final_view_def)
qed

theorem foreign_refund_hidden_witness:
  "\<not> is_ok (get_journey (\<lambda>_. True) (\<lambda>_. True) token_is_name (Some (getRefundWorkflow edge_service final_runs final_runs)) None 0 edge_ids ''w1'' (Some ''Bearer c2''))"
  using foreign_refund_hidden [OF direct.temporal_service_axioms, of final_runs "''w1''" sample_final token_is_name 0 "Some ''Bearer c2''" edge_ids]
  by (simp add: final_runs_def bearer_c2 final_access stranger_c2)

definition tiny_jpeg :: bytes where "tiny_jpeg = [255, 216, 255]"

definition plain_evidence_signer :: evidence_signer where "plain_evidence_signer input purpose = Inr ''signed''"

definition jpeg_fetch :: photo_fetch where
  "jpeg_fetch w call assertion = Some \<lparr> er_httpStatus = 200, er_content = Some tiny_jpeg, er_content_type = Some ''image/jpeg'' \<rparr>"

lemma tiny_photo: "get_edge_photo (\<lambda>_. True) token_is_name (Some (getRefundWorkflow edge_service final_runs final_runs))
    (Some (createRefundEvidenceClient (\<lambda>_. True) (\<lambda>_. True) (\<lambda>_. None) plain_evidence_signer jpeg_fetch)) 0 edge_ids (Some ''Bearer c1'') ''w1'' ''e1''
    = Inr (tiny_jpeg, Image_jpeg)"
  by (simp add: get_edge_photo_def authorize_evidence_def bearer_c1 refundEvidenceId_def opaque_id_upto_def is_alnum_def is_lower_def is_digit_def id_tail_char_def
      is_upper_def Let_def final_read createRefundEvidenceClient_def client_getContent_def evidence_request_def plain_evidence_signer_def jpeg_fetch_def media_types_def
      readBounded_def tiny_jpeg_def MAX_EVIDENCE_BYTES_def)

theorem edge_photo_checked_witness: "length tiny_jpeg \<le> 10485760 \<and> is_jpeg tiny_jpeg"
  using edge_photo_checked [OF direct.temporal_service_axioms tiny_photo] by auto

lemma history_works:
  assumes "confirmation_history edge_service (\<lambda>R. R) always verify ([w \<mapsto> run] # past) posts" and "list_all (\<lambda>(t, ev). \<forall>c. ev \<noteq> SigConfirm c) trace"
  shows "\<exists>past'. confirmation_history edge_service (\<lambda>R. R) always verify ([w \<mapsto> steps always trace run] # past') posts"
  using assms
proof (induction trace arbitrary: run past)
  case (Cons e trace)
  obtain t ev where e: "e = (t, ev)" by fastforce
  have "confirmation_history edge_service (\<lambda>R. R) always verify ([w \<mapsto> step always t ev run] # [w \<mapsto> run] # past) posts"
    by (rule history_work [OF Cons.prems(1), where w = w and ev = ev and now = t]) (use Cons.prems(2) e in auto)
  from Cons.IH [OF this] Cons.prems(2) show ?case by (simp add: e)
qed auto

definition accept_post :: ConfirmationPost where
  "accept_post = \<lparr> post_time = 1000, post_authorization = Some ''Bearer c1'', post_workflowId = ''w1'',
     post_body = JObj [(''preview_id'', JStr ''pv1''), (''accepted'', JBool True)] \<rparr>"

lemma accept_body: "confirmationSchema (post_body accept_post) = Some (''pv1'', True)"
  by (simp add: confirmationSchema_def accept_post_def z_object_def z_strict_def isRecord_def object_keys_def get_prop_def z_string_max_def z_bool_def)

lemma accepted_offer: "post_confirmation (Some edge_service) token_is_name [''w1'' \<mapsto> offered_run] [''w1'' \<mapsto> offered_run] [''w1'' \<mapsto> offered_run] Map.empty edge_ids accept_post
    = ([''w1'' \<mapsto> step always 1000 (SigConfirm sample_confirmation) offered_run], Inr ''w1'')"
proof -
  have "getRefundWorkflow edge_service [''w1'' \<mapsto> offered_run] [''w1'' \<mapsto> offered_run] ''w1'' (edge_access (edge_customer ''c1'') r t) = Inr (wr_state offered_run)" for r t
    using owner_c1 [of r t] by (simp add: getRefundWorkflow_def getOwnedHandle_def direct_service_def offered_access same_owner_def)
  moreover have "acceptsConfirmation (wr_state offered_run) ''pv1''" by (simp add: acceptsConfirmation_def offered_stage mk_state_def sample_preview_def)
  moreover have "tc_signal edge_service [''w1'' \<mapsto> offered_run] ''w1'' sample_confirmation = ([''w1'' \<mapsto> step always 1000 (SigConfirm sample_confirmation) offered_run], Inr ())"
    by (simp add: direct_service_def direct_signal_def run_closed_def offered_stage)
  moreover have "toISOString 1000 = Inr (iso_string 1000)" by (simp add: MAX_TIME_def)
  moreover have "\<lparr>cf_previewId = ''pv1'', cf_accepted = True, cf_confirmedAt = iso_string 1000\<rparr> = sample_confirmation" by (simp add: sample_confirmation_def)
  ultimately have "confirmRefundWorkflow edge_service [''w1'' \<mapsto> offered_run] [''w1'' \<mapsto> offered_run] [''w1'' \<mapsto> offered_run] Map.empty 1000 ''w1''
      (edge_access (edge_customer ''c1'') r t) ''pv1'' True = ([''w1'' \<mapsto> step always 1000 (SigConfirm sample_confirmation) offered_run], Inr ())" for r t
    by (simp add: confirmRefundWorkflow_def)
  then show ?thesis using accept_body bearer_c1 by (simp add: post_confirmation_def workflowParams_def accept_post_def)
qed

definition journey_start_input :: RefundWorkflowStartInput where
  "journey_start_input = \<lparr> si_workflowId = ''w1'', si_orderReference = None, si_proposal = sample_proposal, si_policyVersion = ''refund-policy-v1'', si_access = sample_access \<rparr>"

lemma journey_start: "startRefundWorkflow edge_service Map.empty journey_start_input = ([''w1'' \<mapsto> start_run Workflow_Safety.sample_request ''w1'' []], Inr ''w1'')"
  by (simp add: startRefundWorkflow_def direct_service_def direct_start_def start_request_def journey_start_input_def Workflow_Safety.sample_request_def)

lemma journey_history: "\<exists>past. confirmation_history edge_service (\<lambda>R. R) always token_is_name ([''w1'' \<mapsto> sample_final] # past) [accept_post]"
proof -
  have "confirmation_history edge_service (\<lambda>R. R) always token_is_name [Map.empty] []" by (rule history_empty) simp
  then have "confirmation_history edge_service (\<lambda>R. R) always token_is_name [[''w1'' \<mapsto> start_run Workflow_Safety.sample_request ''w1'' []], Map.empty] []"
    by (rule history_start [OF _ _ journey_start]) simp
  from history_works [OF this, of "[(0, Complete (R_Context sample_refund_context)), (0, Complete (R_Decision Workflow_Safety.sample_decision)), (0, Complete (R_Preview sample_preview))]"]
  obtain past where "confirmation_history edge_service (\<lambda>R. R) always token_is_name ([''w1'' \<mapsto> offered_run] # past) []" by (auto simp: offered_run_def)
  then have "confirmation_history edge_service (\<lambda>R. R) always token_is_name ([''w1'' \<mapsto> step always 1000 (SigConfirm sample_confirmation) offered_run] # [''w1'' \<mapsto> offered_run] # past) [accept_post]"
    by (rule history_confirm [OF _ _ _ accepted_offer]) simp_all
  from history_works [OF this, of "[(1000, Complete R_Void), (1000, Complete (R_Context sample_refund_context)),
    (1000, Complete (R_Execute \<lparr>er_status = SUCCEEDED, er_providerRefundId = Some ''rf1''\<rparr>))]"] show ?thesis by (simp add: final_continues)
qed

theorem refund_confirmed_by_owner_witness: "confirmationSchema (post_body accept_post) = Some (previewId (ex_preview (execution_of Workflow_Safety.sample_request ''w1'' sample_preview)), True)"
proof -
  obtain past where h: "confirmation_history edge_service (\<lambda>R. R) always token_is_name ([''w1'' \<mapsto> sample_final] # past) [accept_post]"
    using journey_history by blast
  have m: "Scheduled (ExecuteRefund (execution_of Workflow_Safety.sample_request ''w1'' sample_preview)) \<in> set (wr_journal sample_final)"
    using sample_final_facts(3) by (simp add: executions_member [symmetric])
  from refund_confirmed_by_owner [OF direct.temporal_service_axioms h _ m, of "''w1''"] show ?thesis by auto
qed

end
