(* ===== verification/Spec2Isabelle.thy ===== *)
theory Spec2Isabelle
  imports Workflow_Signals Evidence_Exchange Case_Access Conversation_History Edge_Context Edge_Customer
begin

text \<open>
  Verification of the refund journey of Customer Service OS lite.

  \<^bold>\<open>The program.\<close> A customer asks for a refund. A durable workflow (\<^verbatim>\<open>workflow-workers\<close>) reads the facts of the
  order through the integration gateway, evaluates the refund policy of a signed catalog, asks for
  damage photos where the policy wants them, shows an offer, waits for the customer's confirmation
  and, where the policy says so, for a person, and then asks the gateway to pay. The gateway
  (\<^verbatim>\<open>integration-gateway\<close>) normalizes the orders of the shop, reserves and records executions, calls the
  payment provider and takes its events. Human operations (\<^verbatim>\<open>human-operations\<close>) keeps cases, decisions,
  photo evidence and an outbox of decisions for the workflow. The conversation runtime
  (\<^verbatim>\<open>conversation-runtime\<close>) keeps the protected transcript of what customer and assistant wrote. The customer
  reaches all of this through the edge (\<^verbatim>\<open>edge-api\<close>). Every hop carries a short-lived signed assertion. All paths below are under \<^verbatim>\<open>src/apps/services/\<close> unless they start with \<^verbatim>\<open>src/\<close>.

  \<^bold>\<open>Shared theories.\<close> \<^verbatim>\<open>Prelude\<close> has the results of fallible code (\<open>error + 'a\<close> with \<^verbatim>\<open>bindE\<close>), safe
  integers, the identifiers of the platform and list lemmas. \<^verbatim>\<open>JS_Date\<close> has ISO instants, with printing
  and parsing inverse. \<^verbatim>\<open>Json\<close> has JSON values and the canonical encoding that is hashed, with its
  injectivity. \<^verbatim>\<open>Zod\<close> has the pieces of the schemas of requests and claims.

  \<^bold>\<open>Refund policy.\<close> \<^verbatim>\<open>Policy_Catalog\<close> models \<^verbatim>\<open>src/packages/refund-policy/index.mjs\<close>, \<^verbatim>\<open>Refund_Policy\<close> models
  \<^verbatim>\<open>refund-policy.ts\<close> and \<^verbatim>\<open>refund-risk.ts\<close>: the cascade of decisions against a specification of eligibility and
  limits, totality, monotonicity in the amount, what the hash of the facts binds. \<^verbatim>\<open>Refund_Offer\<close> models
  \<^verbatim>\<open>refund-policy-input.ts\<close>, \<^verbatim>\<open>refund-preview.ts\<close> and \<^verbatim>\<open>parseEvidenceSnapshot\<close>: bounds of an offer and the evidence
  that a damage claim needs.

  \<^bold>\<open>Workflow.\<close> \<^verbatim>\<open>Workflow_Data\<close> and \<^verbatim>\<open>Refund_Workflow\<close> model \<^verbatim>\<open>refund-workflow.ts\<close> as a state machine with one state
  per await point; the replies of activities, signals, timers and continued runs are its events, any
  of which may come at any time. \<^verbatim>\<open>Workflow_Safety\<close> shows by an invariant over its runs that a refund is
  requested at most once and only when policy, confirmation, human authority and fresh facts clear
  it, and that the final stage tells the truth. \<^verbatim>\<open>Workflow_Progress\<close> shows that an unfinished run always
  waits for something it takes and that the deadline of evidence does not move and ends the wait.
  \<^verbatim>\<open>Workflow_Signals\<close> is about one run, from its start to its end or its continuation: a signal that comes before
  its handler is installed stays in its buffer and is taken when the handler is, and the run polls at
  most 120 times for evidence and 288 times for a pending refund. Signals that are still buffered when a
  run continues as a new one are not carried over: \<^verbatim>\<open>start_run\<close> empties the buffers. Loops of the workflow are
  steps of the machine, so no fuel is involved. An activity that fails fails the run; its retries are
  Temporal's and are not modelled.

  \<^bold>\<open>Gateway.\<close> \<^verbatim>\<open>Commerce\<close> models \<^verbatim>\<open>commerce.ts\<close>, \<^verbatim>\<open>vendure-client.ts\<close> and \<^verbatim>\<open>refund-context.ts\<close>; \<^verbatim>\<open>Refund_Executions\<close> the
  Postgres and the in-memory repository of executions behind one locale; \<^verbatim>\<open>Gateway_Routes\<close> the HTTP
  handlers: the provider is called at most once per key, within the balance and for the owner.
  \<^verbatim>\<open>Access_Assertions\<close> models the signers and verifiers of every service, with round trips under the
  documented contract of the token library. \<^verbatim>\<open>Worker_Clients\<close> models the clients and activities of the
  worker and joins them with the handlers they call.

  \<^bold>\<open>Human operations.\<close> \<^verbatim>\<open>Human_Cases\<close> models \<^verbatim>\<open>human-case.ts\<close> and both case repositories. The locale
  \<^verbatim>\<open>human_case_repository\<close> is the contract of a repository: a view of its state moves by the steps of an
  abstract life of cases; it is interpreted for the Postgres tables and for the in-memory maps.
  \<^verbatim>\<open>Refund_Evidence\<close> models \<^verbatim>\<open>refund-evidence.ts\<close> and \<^verbatim>\<open>postgres-refund-evidence-repository.ts\<close> over the same
  tables, \<^verbatim>\<open>Evidence_Life\<close> their joint history: one decision per case, the limits of a set of photos, and
  that accepted evidence stays what was accepted. \<^verbatim>\<open>Human_Routes\<close> models \<^verbatim>\<open>app.ts\<close> and the delivery of
  decisions in \<^verbatim>\<open>server.ts\<close>: who may decide, and that the outbox drains; its lemmas are proved inside the
  locale. \<^verbatim>\<open>Evidence_Routes\<close> models \<^verbatim>\<open>refund-evidence-routes.ts\<close> and \<^verbatim>\<open>private-evidence-store.ts\<close> with the gate of four
  concurrent uploads. \<^verbatim>\<open>Evidence_Service\<close> runs all routes, the halves of uploads, the timers and crashes as
  one machine whose steps are histories of the tables and which keeps accepted photos readable.
  \<^verbatim>\<open>Case_Access\<close> shows, route by route, that who changes a case or its evidence is entitled to: the worker of
  its workflow, a person with the role and the assignment, or the customer it belongs to.
  \<^verbatim>\<open>Evidence_Exchange\<close> joins the routes with the worker's clients.

  \<^bold>\<open>Conversations.\<close> \<^verbatim>\<open>Message_Protection\<close> models the encryption of messages of \<^verbatim>\<open>conversation-runtime\<close> with the
  cipher as an argument and its documented contract as a hypothesis; \<^verbatim>\<open>Conversations\<close> the data and the schemas;
  \<^verbatim>\<open>Conversation_Store\<close> the Postgres repository, statement by statement; \<^verbatim>\<open>Conversation_Routes\<close> the HTTP handlers (of
  an error answer, its status and code). \<^verbatim>\<open>Conversation_History\<close> states what a store of conversations promises as
  a locale, interprets it on the Postgres model and shows what customers rely on: a posted message stays
  readable under its number, a repeated post changes nothing, a transcript only grows, another customer
  has no access. That two bodies with one hash are one body is an idealisation named in the hypotheses.

  \<^bold>\<open>Edge.\<close> \<^verbatim>\<open>Edge_Context\<close> models what is read out of a transcript for the agent: the bounded history and the order
  reference. \<^verbatim>\<open>Edge_Workflows\<close> models \<^verbatim>\<open>temporal-refund-client.ts\<close>; the client library of Temporal is an argument whose
  documented behaviour over the runs of the workflow model is the locale \<^verbatim>\<open>temporal_service\<close>, interpreted on a
  service that keeps the runs in a map. \<^verbatim>\<open>Edge_Evidence\<close> models \<^verbatim>\<open>refund-evidence-client.ts\<close> and
  \<^verbatim>\<open>refund-evidence-routes.ts\<close>, \<^verbatim>\<open>Edge_Journey\<close> models \<^verbatim>\<open>refund-journey-view.ts\<close> and the refund routes of \<^verbatim>\<open>app.ts\<close>. \<^verbatim>\<open>Edge_Customer\<close>
  joins them with the workflow: only the owner sees a refund or acts on it, the journey tells the truth,
  and a refund is requested only after its owner posted the acceptance of the offer that is paid.

  \<^bold>\<open>This theory\<close> joins the workflow with what its activities do: a requested refund is within the limits
  of the policy release that decided it, and is covered by the order as the gateway read it.

  \<^bold>\<open>Conventions.\<close> Money and versions are integers as in the source, with the tests for safe integers
  written out; bytes of photos are 8-bit words. SQL statements are written out over lists of rows, a
  transaction is one step, and a violated key is an error value. Hash functions, the token library,
  HTTP, the image library, the order of \<^verbatim>\<open>localeCompare\<close>, random identifiers and the clock are arguments;
  where a property relies on them, it says so in a hypothesis, and its witness instantiates them.

  \<^bold>\<open>Not modelled.\<close> At the edge, the conversation routes and the intake of refunds, which hand a message to the
  agent, and the HTTP clients they use; the web applications, the MCP transport, observability, metrics
  observers, start-up, configuration and SQL migrations; telemetry wrappers are left out where they return what they wrap.
\<close>

section \<open>The worker as a whole\<close>

text \<open>
  A journal is served by a set of activity implementations when every completed activity is the
  result of one of them: the clients read a changing world, so each completion has its own.
\<close>

definition served_by :: "(string \<Rightarrow> string) \<Rightarrow> ActivityDependencies set \<Rightarrow> entry list \<Rightarrow> bool" where
  "served_by sha256_hex D J \<longleftrightarrow> (\<forall>c r. Completed c r \<in> set J \<longrightarrow> (\<exists>deps \<in> D. perform sha256_hex deps c = Inr r))"

lemma map_sum_eq_Inr: "map_sum id f r = Inr y \<longleftrightarrow> (\<exists>x. r = Inr x \<and> y = f x)"
  by (cases r) auto

lemma offer_eligible:
  assumes "createRefundPolicyInput proposal ctx version ev = Inr input" and "evaluateRefundPolicy sha256_hex input release dctx = Inr dec"
    and "createRefundPreview proposal ctx' dec auth pid at = Inr pre"
  shows "effect dec = policy_effect input release" and "req_requestedAmount (in_request input) = Some (pre_requestedAmount pre)"
    and "0 < amountMinor (pre_requestedAmount pre)"
proof -
  note q = createRefundPreview_Inr [OF assms(3)] and r = createRefundPolicyInput_Inr [OF assms(1)]
  show "effect dec = policy_effect input release" using evaluate_eligible [OF assms(2)] q(2) by auto
  show a: "req_requestedAmount (in_request input) = Some (pre_requestedAmount pre)" using q(1) r(5) by simp
  have "eligible input release" using evaluate_eligible [OF assms(2)] q(2) by auto
  with a show "0 < amountMinor (pre_requestedAmount pre)" by (auto simp: eligible_def Let_def split: option.split_asm)
qed

lemma served_decision:
  assumes "served_by sha256_hex D J" and "decision_from R J dec ev"
  obtains deps ctx input release where "deps \<in> D" "createRefundPolicyInput (rq_proposal R) ctx (rq_policyVersion R) ev = Inr input"
    "dep_getPolicyRelease deps (rq_policyVersion R) = Inr release"
    "\<exists>dctx. evaluateRefundPolicy sha256_hex input release dctx = Inr dec"
proof -
  from assms(2) obtain ctx where "Completed (eval_call R ctx ev) (R_Decision dec) \<in> set J" by (auto simp: decision_from_def)
  with assms(1) obtain deps where "deps \<in> D" "perform sha256_hex deps (eval_call R ctx ev) = Inr (R_Decision dec)"
    unfolding served_by_def by blast
  then show thesis
    by (auto simp: perform_def eval_call_def bindE_eq_Inr map_sum_eq_Inr intro: that)
qed

lemma served_preview:
  assumes "served_by sha256_hex D J" and "preview_from R J br dec pre"
  obtains ctx pid at where "createRefundPreview (rq_proposal R) ctx dec (auth_of br) pid at = Inr pre"
proof -
  from assms(2) obtain ctx where "Completed (preview_call R ctx dec br) (R_Preview pre) \<in> set J" by (auto simp: preview_from_def)
  with assms(1) obtain deps where "perform sha256_hex deps (preview_call R ctx dec br) = Inr (R_Preview pre)"
    unfolding served_by_def by blast
  then show thesis by (auto simp: perform_def preview_call_def map_sum_eq_Inr intro: that)
qed

lemma executed_parts:
  assumes "reachable patched request workflowId run" and "Scheduled (ExecuteRefund i) \<in> set (wr_journal run)"
  obtains br dec ev ctx where "set (wr_journal run) \<noteq> {}" "i = execution_of request workflowId (ex_preview i)" "decision_from request (wr_journal run) dec ev"
    "preview_from request (wr_journal run) br dec (ex_preview i)" "branch_ok (wr_journal run) br dec" "authorized (wr_journal run) br"
    "Completed (refresh_call request workflowId) (R_Context ctx) \<in> set (wr_journal run)" "amountStillAvailable ctx (ex_preview i)"
proof -
  have "executed_once patched request workflowId (wr_journal run)"
    using run_inv_journal [OF reachable_inv [OF assms(1)]] assms(2) by (auto simp: no_exec_def)
  then obtain later earlier br dec pre evidence ctx where J:
    "wr_journal run = later @ Scheduled (ExecuteRefund (execution_of request workflowId pre))
      # Completed (refresh_call request workflowId) (R_Context ctx) # earlier"
    and n: "no_exec later" "no_exec earlier" and av: "amountStillAvailable ctx pre"
    and cl: "cleared patched request earlier br dec pre evidence"
    unfolding executed_once_def by blast
  have i: "i = execution_of request workflowId pre" using assms(2) n unfolding J by (auto simp: no_exec_def refresh_call_def)
  from cl obtain ev where "decision_from request earlier dec ev" by (auto simp: cleared_def offered_def decided_on_def)
  then have "decision_from request (wr_journal run) dec ev" by (auto simp: decision_from_def J)
  moreover from cl have "preview_from request (wr_journal run) br dec pre" by (auto simp: cleared_def offered_def preview_from_def J)
  moreover from cl have "branch_ok (wr_journal run) br dec" by (auto simp: cleared_def offered_def branch_ok_def decided_by_def J split: branch.splits)
  moreover from cl have "authorized (wr_journal run) br" by (auto simp: cleared_def authorized_def decided_by_def J)
  ultimately show thesis using i av by (intro that [of dec ev br ctx]) (auto simp: J execution_of_def)
qed

text \<open>
  C1. The limits of the policy hold for the money that leaves the system, over the workflow, its
  activities and the policy together: in every journey whose activities are those of the worker, a
  refund that is requested is the positive amount the customer proposed, and it is within the
  automatic limit of the pinned release, or within the approval limit and a person approved it, or a
  person granted an exception.
\<close>

theorem refund_within_policy_limits:
  assumes "reachable patched request workflowId run" and "Scheduled (ExecuteRefund i) \<in> set (wr_journal run)"
    and "served_by sha256_hex D (wr_journal run)"
    and "\<forall>deps \<in> D. dep_getPolicyRelease deps (rq_policyVersion request) = Inr release"
  shows "\<exists>amount. requestedAmount (intent (rq_proposal request)) = Some amount \<and> pre_requestedAmount (ex_preview i) = amount \<and> 0 < amountMinor amount
    \<and> (currency amount = supportedCurrency release \<and> amountMinor amount \<le> automaticMaximumMinor release
       \<or> decided_by (wr_journal run) APPROVE \<and> currency amount = supportedCurrency release \<and> amountMinor amount \<le> approvalMaximumMinor release
       \<or> decided_by (wr_journal run) APPROVE_EXCEPTIONAL_REFUND)"
proof -
  obtain br dec ev ctx where x: "decision_from request (wr_journal run) dec ev" "preview_from request (wr_journal run) br dec (ex_preview i)"
      "branch_ok (wr_journal run) br dec" "authorized (wr_journal run) br"
    using executed_parts [OF assms(1,2)] by metis
  from served_decision [OF assms(3) x(1)] assms(4) obtain ctx' input dctx where
      d: "createRefundPolicyInput (rq_proposal request) ctx' (rq_policyVersion request) ev = Inr input"
         "evaluateRefundPolicy sha256_hex input release dctx = Inr dec" by (metis Inr_inject)
  obtain ctx'' pid at where p: "createRefundPreview (rq_proposal request) ctx'' dec (auth_of br) pid at = Inr (ex_preview i)"
    using served_preview [OF assms(3) x(2)] by metis
  note e = offer_eligible [OF d p]
  have b: "effect dec = ALLOW \<or> effect dec = APPROVAL_REQUIRED \<and> decided_by (wr_journal run) APPROVE \<or> decided_by (wr_journal run) APPROVE_EXCEPTIONAL_REFUND"
    using x(3,4) by (auto simp: branch_ok_def authorized_def split: branch.splits)
  with e createRefundPreview_Inr(1) [OF p] show ?thesis
    by (auto simp: policy_effect_def within_automatic_limits_def within_approval_limits_def requested_minor_def requested_currency_def split: if_split_asm)
qed

text \<open>
  C2. The money is there, and it is the customer's own order, over the workflow, the worker's client
  and the gateway together: in every journey whose facts come from the gateway, the last facts read
  before a refund is requested come from an order of the customer for whom the gateway accepted the
  workflow, that order is placed and has exactly one settled payment, and the amount together with
  every refund of that payment that is not failed or cancelled stays within the payment.
\<close>

theorem refund_covered_by_order:
  assumes "reachable patched request workflowId run" and "Scheduled (ExecuteRefund i) \<in> set (wr_journal run)"
    and "served_by sha256_hex D (wr_journal run)"
    and "\<forall>deps \<in> D. \<exists>getOrder \<in> G. \<exists>oid now. dep_fetchRefundContext deps
        = client_fetchRefundContext sign (gateway_context_fetch sha256_hex verifyContext (Some verifyWorker) getOrder oid now) t e"
    and "trim (orderId (intent (rq_proposal request))) = orderId (intent (rq_proposal request))"
    and "map trim (itemIds (intent (rq_proposal request))) = itemIds (intent (rq_proposal request))"
  shows "\<exists>getOrder \<in> G. \<exists>assertion access order payment. verifyWorker (Some assertion) = Inr access
    \<and> getOrder (orderId (intent (rq_proposal request))) = Inr (Some order)
    \<and> map_option cu_id (co_customer order) = Some (ac_subjectCustomerId access) \<and> \<not> co_active order
    \<and> filter (\<lambda>p. toUpperCase (py_status p) = ''SETTLED'') (co_payments order) = [payment]
    \<and> 0 < amountMinor (pre_requestedAmount (ex_preview i))
    \<and> amountMinor (pre_requestedAmount (ex_preview i)) + consumedAmountMinor (Some payment) \<le> amountMinor (py_amount payment)"
proof -
  obtain br dec ev ctx where x: "decision_from request (wr_journal run) dec ev" "preview_from request (wr_journal run) br dec (ex_preview i)"
      "Completed (refresh_call request workflowId) (R_Context ctx) \<in> set (wr_journal run)" "amountStillAvailable ctx (ex_preview i)"
    using executed_parts [OF assms(1,2)] by metis
  from served_decision [OF assms(3) x(1)] obtain ctx' input release dctx where
      d: "createRefundPolicyInput (rq_proposal request) ctx' (rq_policyVersion request) ev = Inr input"
         "evaluateRefundPolicy sha256_hex input release dctx = Inr dec" by metis
  obtain ctx'' pid at where p: "createRefundPreview (rq_proposal request) ctx'' dec (auth_of br) pid at = Inr (ex_preview i)"
    using served_preview [OF assms(3) x(2)] by metis
  note pos = offer_eligible(3) [OF d p]
  obtain deps where deps: "deps \<in> D" "perform sha256_hex deps (refresh_call request workflowId) = Inr (R_Context ctx)"
    using assms(3) x(3) unfolding served_by_def by blast
  then obtain getOrder oid now where g: "getOrder \<in> G"
      "client_fetchRefundContext sign (gateway_context_fetch sha256_hex verifyContext (Some verifyWorker) getOrder oid now) t e
        \<lparr> rf_proposal = rq_proposal request, rf_workflowId = workflowId, rf_access = rq_access request \<rparr> = Inr ctx"
    using assms(4) by (fastforce simp: perform_def refresh_call_def map_sum_eq_Inr)
  obtain assertion access order where o: "verifyWorker (Some assertion) = Inr access"
      "getOrder (orderId (intent (rq_proposal request))) = Inr (Some order)"
      "map_option cu_id (co_customer order) = Some (ac_subjectCustomerId access)"
      "ctx = toRefundContext sha256_hex order \<lparr> sel_scope = scope (intent (rq_proposal request)), sel_itemIds = itemIds (intent (rq_proposal request)) \<rparr> oid (iso_string now)"
    using fetched_context [OF g(2)] assms(5,6) by (metis (no_types, lifting) RefreshRefundContextInput.select_convs(1))
  let ?f = "context_facts order \<lparr> sel_scope = scope (intent (rq_proposal request)), sel_itemIds = itemIds (intent (rq_proposal request)) \<rparr>"
  have f: "amountMinor (pre_requestedAmount (ex_preview i)) \<le> amountMinor (ctx_refundableAmount ?f)" "ctx_transactionRefundable ?f"
    using x(4) o(4) by (auto simp: amountStillAvailable_def toRefundContext_def Let_def)
  then have "0 < amountMinor (ctx_refundableAmount ?f)" using pos by linarith
  then obtain payment where "filter (\<lambda>p. toUpperCase (py_status p) = ''SETTLED'') (co_payments order) = [payment]"
      "amountMinor (ctx_refundableAmount ?f) + consumedAmountMinor (Some payment) \<le> amountMinor (py_amount payment)"
    by (rule context_facts_positive)
  with o g(1) f pos show ?thesis
    by (intro bexI [of _ getOrder] exI [of _ assertion] exI [of _ access] exI [of _ order] exI [of _ payment])
      (auto simp: context_facts_def Let_def)
qed

section \<open>A concrete journey\<close>

lemma happy_completions:
  fixes ctx :: RefundContext and workflowId :: string
  assumes "rq_recovery request = None" and "rq_evidenceRecovery request = None" and "\<not> evidence_required request"
    and "effect dec = ALLOW" and "date_parse (pre_validUntil pre) = Some deadline" and "t0 \<le> t1" and "t1 < deadline"
    and "cf_previewId c = previewId pre" and "cf_accepted c" and "amountStillAvailable ctx' pre" and "er_status result = SUCCEEDED"
    and "Completed call r \<in> set (wr_journal (steps always (happy_trace t0 t1 ctx dec pre c ctx' result) (start_run request workflowId [])))"
  shows "(call, r) \<in> {(refresh_call request workflowId, R_Context ctx), (eval_call request ctx None, R_Decision dec),
      (preview_call request ctx dec B_ALLOW, R_Preview pre), (RecordRefundConfirmation, R_Void), (refresh_call request workflowId, R_Context ctx'),
      (ExecuteRefund (execution_of request workflowId pre), R_Execute result)}"
  using assms unfolding happy_trace_def
  by (simp add: run_defs execute_input_def execution_of_def Let_def refresh_call_def eval_call_def preview_call_def auth_of_def refresh_input_def preview_input_def evaluate_input_def
      accepted_of_def) (elim disjE; simp)

definition journey_deps :: ActivityDependencies where
  "journey_deps = \<lparr> dep_fetchRefundContext = client_fetchRefundContext (\<lambda>_. Inr ''token'')
       (gateway_context_fetch (\<lambda>_. ''v1'') (\<lambda>_. Inl FetchError) (Some sample_verify) sample_getOrder ''obs1'' 0) ''t1'' ''e1'',
     dep_executeRefund = \<lambda>_. Inr \<lparr> er_status = SUCCEEDED, er_providerRefundId = Some ''rf1'' \<rparr>, dep_reconcileRefund = \<lambda>_. Inl FetchError,
     dep_openHumanCase = \<lambda>_. Inl FetchError, dep_closeHumanCase = \<lambda>_. Inl FetchError,
     dep_getPolicyRelease = \<lambda>_. Inr REFUND_POLICY_V1, dep_createDecisionContext = \<lambda>_. sample_context, dep_createPreviewContext = (''pv1'', ''now''),
     dep_openRefundEvidence = \<lambda>_. Inl FetchError, dep_readRefundEvidence = \<lambda>_. Inl FetchError, dep_transitionRefundEvidence = \<lambda>_ _. Inl FetchError,
     dep_closeRefundEvidence = \<lambda>_ _ _. Inl FetchError \<rparr>"

definition journey_input :: RefundPolicyInput where
  "journey_input = projr (createRefundPolicyInput sample_proposal (sample_context_at 0) ''refund-policy-v1'' None)"

lemma journey_context_facts: "ctx_facts (sample_context_at 0) = ctx_facts sample_refund_context" "selection (sample_context_at 0) = selection sample_refund_context"
    "src_orderId (ctx_source (sample_context_at 0)) = ''o1''"
  using sample_remaining
  by (simp_all add: sample_context_at_def toRefundContext_def Let_def context_facts_def context_itemSelectionValid_def selectedMaximumMinor_def sample_payment
      sample_order_parts sample_refund_context_def usd_def money_def)

lemma journey_input_created: "createRefundPolicyInput sample_proposal (sample_context_at 0) ''refund-policy-v1'' None = Inr journey_input"
  by (simp add: journey_input_def createRefundPolicyInput_def assertMatchingOrder_def assertMatchingSelection_def throw_if_def journey_context_facts
      sample_proposal_def sample_refund_context_def sameItemIds_def)

lemmas journey_input_defs = journey_input_def createRefundPolicyInput_def assertMatchingOrder_def assertMatchingSelection_def throw_if_def journey_context_facts
  sample_proposal_def sample_refund_context_def sameItemIds_def usd_def REFUND_POLICY_V1_def

lemma journey_effect: "eligible journey_input REFUND_POLICY_V1" "policy_effect journey_input REFUND_POLICY_V1 = ALLOW"
  by (simp_all add: journey_input_defs eligible_def Let_def damage_photo_missing_def isSafeInteger_def MAX_SAFE_INTEGER_def policy_effect_def
      within_approval_limits_def within_automatic_limits_def requested_minor_def requested_currency_def prior_refunds_def)

lemma journey_decides: "\<exists>d. evaluateRefundPolicy (\<lambda>_. ''v1'') journey_input REFUND_POLICY_V1 sample_context = Inr d"
  by (rule evaluateRefundPolicy_returns [OF sample_facts(1,2) _ _ sample_facts(5,6)])
    (simp_all add: journey_input_defs input_numbers_ok_def money_ok_def isSafeInteger_def MAX_SAFE_INTEGER_def)

definition journey_decision :: RefundPolicyDecision where
  "journey_decision = projr (evaluateRefundPolicy (\<lambda>_. ''v1'') journey_input REFUND_POLICY_V1 sample_context)"

lemma journey_decided: "evaluateRefundPolicy (\<lambda>_. ''v1'') journey_input REFUND_POLICY_V1 sample_context = Inr journey_decision"
  using journey_decides by (auto simp: journey_decision_def)

lemma journey_allowed: "effect journey_decision = ALLOW" "date_parse (validUntil journey_decision) = Some 1767226500000"
proof -
  obtain o: "policy_outcome journey_input REFUND_POLICY_V1 = Inr (effect journey_decision, reasonCodes journey_decision, obligations journey_decision, missingFacts journey_decision)"
    using journey_decided by (rule evaluateRefundPolicy_Inr)
  from policy_outcome_eligible [OF journey_effect(1)] o journey_effect(2) show "effect journey_decision = ALLOW" by auto
  have "validUntil journey_decision = iso_string 1767226500000"
    using journey_decided sample_facts(5)
    by (auto simp: evaluateRefundPolicy_def bindE_eq_Inr Let_def sample_context_def REFUND_POLICY_V1_def MAX_TIME_def dest!: arg_cong [where f = validUntil]
        split: if_split_asm option.split_asm prod.split_asm)
  then show "date_parse (validUntil journey_decision) = Some 1767226500000" by (simp add: date_parse_iso_string MAX_TIME_def)
qed

definition journey_preview :: RefundPreview where
  "journey_preview = projr (createRefundPreview sample_proposal (sample_context_at 0) journey_decision None ''pv1'' ''now'')"

lemma journey_offered: "createRefundPreview sample_proposal (sample_context_at 0) journey_decision None ''pv1'' ''now'' = Inr journey_preview"
  using journey_allowed(1)
  by (simp add: journey_preview_def createRefundPreview_def Let_def sample_proposal_def journey_context_facts sample_refund_context_def)

lemma journey_fetched: "dep_fetchRefundContext journey_deps \<lparr> rf_proposal = sample_proposal, rf_workflowId = ''w1'', rf_access = sample_access \<rparr> = Inr (sample_context_at 0)"
  using sample_context_at_schema [of 0]
  by (simp add: journey_deps_def client_fetchRefundContext_def scope_check_def sample_access_def throw_if_def sample_proposal_def [THEN arg_cong, of "\<lambda>p. scope (intent p)"]
      gateway_context_fetch_def post_refund_contexts_def sample_context_body refund_context_access_def sample_verify_def sample_getOrder_def
      getRefundContext_def sample_order_parts sample_workflow_access_def http_response_def response_ok_def parse_with_def sample_context_at_def)

abbreviation "journey_request \<equiv> Workflow_Safety.sample_request"

definition journey_run :: WorkflowRun where
  "journey_run = steps always (happy_trace 0 1000 (sample_context_at 0) journey_decision journey_preview sample_confirmation
     (sample_context_at 0) \<lparr>er_status = SUCCEEDED, er_providerRefundId = Some ''rf1''\<rparr>) (start_run journey_request ''w1'' [])"

lemma journey_amount: "pre_requestedAmount journey_preview = usd 500"
  using createRefundPreview_Inr(1) [OF journey_offered] by (simp add: sample_proposal_def)

lemma journey_happy:
  "rq_recovery journey_request = None" "rq_evidenceRecovery journey_request = None" "\<not> evidence_required journey_request"
  "effect journey_decision = ALLOW" "date_parse (pre_validUntil journey_preview) = Some 1767226500000" "(0::int) \<le> 1000" "(1000::int) < 1767226500000"
  "cf_previewId sample_confirmation = previewId journey_preview" "cf_accepted sample_confirmation"
  "amountStillAvailable (sample_context_at 0) journey_preview"
  "er_status \<lparr>er_status = SUCCEEDED, er_providerRefundId = Some ''rf1''\<rparr> = SUCCEEDED"
  using createRefundPreview_Inr(6,9) [OF journey_offered] journey_allowed journey_amount
  by (simp_all add: Workflow_Safety.sample_request_def evidence_required_def sample_confirmation_def amountStillAvailable_def journey_context_facts
      sample_refund_context_def sample_proposal_def usd_def)

lemma journey_reachable: "reachable always journey_request ''w1'' journey_run"
  unfolding journey_run_def by (intro reachable_steps reachable.start) (simp_all add: Workflow_Safety.sample_request_def)

lemma journey_executed: "Scheduled (ExecuteRefund (execution_of journey_request ''w1'' journey_preview)) \<in> set (wr_journal journey_run)"
  using happy_run(3) [OF journey_happy, of "sample_context_at 0" "''w1''"]
  by (simp add: executions_member [symmetric] journey_run_def)

lemma journey_served: "served_by (\<lambda>_. ''v1'') {journey_deps} (wr_journal journey_run)"
  unfolding served_by_def
proof (intro allI impI)
  fix c r
  assume "Completed c r \<in> set (wr_journal journey_run)"
  note m = happy_completions [OF journey_happy, of c r "sample_context_at 0" "''w1''", folded journey_run_def, OF this]
  have s: "rq_proposal journey_request = sample_proposal" "rq_access journey_request = sample_access" "rq_policyVersion journey_request = ''refund-policy-v1''"
    by (simp_all add: Workflow_Safety.sample_request_def)
  have "perform (\<lambda>_. ''v1'') journey_deps (refresh_call journey_request ''w1'') = Inr (R_Context (sample_context_at 0))"
    using journey_fetched by (simp add: perform_def refresh_call_def s)
  moreover have "perform (\<lambda>_. ''v1'') journey_deps (eval_call journey_request (sample_context_at 0) None) = Inr (R_Decision journey_decision)"
    using journey_input_created journey_decided by (simp add: perform_def eval_call_def s journey_deps_def)
  moreover have "perform (\<lambda>_. ''v1'') journey_deps (preview_call journey_request (sample_context_at 0) journey_decision B_ALLOW) = Inr (R_Preview journey_preview)"
    using journey_offered by (simp add: perform_def preview_call_def s journey_deps_def auth_of_def)
  ultimately show "\<exists>deps \<in> {journey_deps}. perform (\<lambda>_. ''v1'') deps c = Inr r"
    using m by (auto simp: perform_def journey_deps_def)
qed

theorem refund_within_policy_limits_witness:
  "\<exists>amount. pre_requestedAmount journey_preview = amount \<and> 0 < amountMinor amount \<and> requestedAmount (intent sample_proposal) = Some amount"
  using refund_within_policy_limits [OF journey_reachable journey_executed journey_served, of REFUND_POLICY_V1]
  by (auto simp: journey_deps_def execution_of_def Workflow_Safety.sample_request_def)

theorem refund_covered_by_order_witness:
  "\<exists>payment. filter (\<lambda>p. toUpperCase (py_status p) = ''SETTLED'') (co_payments sample_order) = [payment]
    \<and> amountMinor (pre_requestedAmount journey_preview) + consumedAmountMinor (Some payment) \<le> amountMinor (py_amount payment)"
proof -
  have t: "trim ''o1'' = ''o1''" by code_simp
  then have "trim (orderId (intent (rq_proposal journey_request))) = orderId (intent (rq_proposal journey_request))"
      "map trim (itemIds (intent (rq_proposal journey_request))) = itemIds (intent (rq_proposal journey_request))"
    by (simp_all add: Workflow_Safety.sample_request_def sample_proposal_def)
  from refund_covered_by_order [OF journey_reachable journey_executed journey_served, of "{sample_getOrder}" "\<lambda>_. Inr ''token''" "\<lambda>_. Inl FetchError" sample_verify
      "''t1''" "''e1''", OF _ this]
  show ?thesis by (auto simp: journey_deps_def execution_of_def sample_getOrder_def)
qed

end
